(* ===== verification/Prelude.thy ===== *)
theory Prelude
  imports Main "HOL-Library.Word" "HOL-Library.AList"
begin

unbundle bit_operations_syntax

text \<open>
  Shared vocabulary of the development.  The program is Python: its integers are unbounded, so
  they are \<^typ>\<open>int\<close> here, and its bitwise operators on them are the two's complement
  operations of the library (\<open>AND\<close>, \<open>OR\<close>, \<open>XOR\<close>, \<open>NOT\<close>, \<^const>\<open>push_bit\<close> for
  \<open><<\<close>, \<^const>\<open>drop_bit\<close> for \<open>>>\<close>).  This theory holds the type names, the Python errors, the
  predicate for 32-bit values, and the lemmas on masks and fields every component uses,
  collected under \<open>mask_bits\<close> (masks as \<^const>\<open>take_bit\<close>), \<open>wf_intros\<close> and \<open>wf_simps\<close>
  (ranges and list shapes that the invariants of the components rest on).
\<close>

section \<open>Names\<close>

named_theorems mask_bits
named_theorems wf_intros
named_theorems wf_simps

text \<open>A word of the machine, kept by the code as a Python integer in the 32-bit range.\<close>

type_synonym pyint = int

text \<open>The Python exceptions the modelled code raises or lets through.\<close>

datatype py_error =
    IndexError | KeyError | ValueError | TypeError | StructError | OverflowError | AttributeError

abbreviation shl :: "int \<Rightarrow> nat \<Rightarrow> int" where
  "shl x n \<equiv> push_bit n x"

abbreviation shr :: "int \<Rightarrow> nat \<Rightarrow> int" where
  "shr x n \<equiv> drop_bit n x"

text \<open>Sequencing of computations that may raise: an exception ends the rest.\<close>

definition ebind :: "'e + 'a \<Rightarrow> ('a \<Rightarrow> 'e + 'b) \<Rightarrow> 'e + 'b" where
  "ebind x f = (case x of Inl e \<Rightarrow> Inl e | Inr v \<Rightarrow> f v)"

lemma ebind_simps [simp]: "ebind (Inl e) f = Inl e" "ebind (Inr v) f = f v"
  by (simp_all add: ebind_def)

lemma ebind_Inr_iff: "ebind x f = Inr y \<longleftrightarrow> (\<exists>v. x = Inr v \<and> f v = Inr y)"
  by (cases x) simp_all

lemma ebind_Inl_iff: "ebind x f = Inl e \<longleftrightarrow> x = Inl e \<or> (\<exists>v. x = Inr v \<and> f v = Inl e)"
  by (cases x) simp_all

text \<open>The position a Python list subscript designates: negative ones count from the end, None is
  the IndexError.\<close>

definition py_list_index :: "'a list \<Rightarrow> int \<Rightarrow> nat option" where
  "py_list_index xs i =
     (let n = int (length xs)
      in if 0 \<le> i \<and> i < n then Some (nat i)
         else if - n \<le> i \<and> i < 0 then Some (nat (n + i))
         else None)"

section \<open>32-bit values\<close>

definition u32 :: "int \<Rightarrow> bool" where
  "u32 x \<longleftrightarrow> 0 \<le> x \<and> x < 2 ^ 32"

definition reg_index :: "int \<Rightarrow> bool" where
  "reg_index i \<longleftrightarrow> 0 \<le> i \<and> i < 32"

lemma u32_0 [simp, wf_intros]: "u32 0"
  by (simp add: u32_def)

lemma reg_index_0 [simp, wf_intros]: "reg_index 0"
  by (simp add: reg_index_def)

section \<open>Masks are truncations\<close>

lemma mask_1 [mask_bits]: "(x :: int) AND 1 = take_bit 1 x"
  by (simp add: take_bit_eq_mask mask_eq_exp_minus_1)

lemma mask_3 [mask_bits]: "(x :: int) AND 3 = take_bit 2 x"
  by (simp add: take_bit_eq_mask mask_eq_exp_minus_1)

lemma mask_F [mask_bits]: "(x :: int) AND 0xF = take_bit 4 x"
  by (simp add: take_bit_eq_mask mask_eq_exp_minus_1)

lemma mask_1F [mask_bits]: "(x :: int) AND 0x1F = take_bit 5 x"
  by (simp add: take_bit_eq_mask mask_eq_exp_minus_1)

lemma mask_3F [mask_bits]: "(x :: int) AND 0x3F = take_bit 6 x"
  by (simp add: take_bit_eq_mask mask_eq_exp_minus_1)

lemma mask_FF [mask_bits]: "(x :: int) AND 0xFF = take_bit 8 x"
  by (simp add: take_bit_eq_mask mask_eq_exp_minus_1)

lemma mask_3FF [mask_bits]: "(x :: int) AND 0x3FF = take_bit 10 x"
  by (simp add: take_bit_eq_mask mask_eq_exp_minus_1)

lemma mask_FFFF [mask_bits]: "(x :: int) AND 0xFFFF = take_bit 16 x"
  by (simp add: take_bit_eq_mask mask_eq_exp_minus_1)

lemma mask_1FFFFF [mask_bits]: "(x :: int) AND 0x1FFFFF = take_bit 21 x"
  by (simp add: take_bit_eq_mask mask_eq_exp_minus_1)

lemma mask_3FFFFFF [mask_bits]: "(x :: int) AND 0x3FFFFFF = take_bit 26 x"
  by (simp add: take_bit_eq_mask mask_eq_exp_minus_1)

lemma mask_FFFFFFFF [mask_bits]: "(x :: int) AND 0xFFFFFFFF = take_bit 32 x"
  by (simp add: take_bit_eq_mask mask_eq_exp_minus_1)

lemma mask_64 [mask_bits]: "(x :: int) AND 0xFFFFFFFFFFFFFFFF = take_bit 64 x"
  by (simp add: take_bit_eq_mask mask_eq_exp_minus_1)

lemma take_bit_int_range: "0 \<le> take_bit n (x :: int) \<and> take_bit n x < 2 ^ n"
  by simp

lemma u32_take_bit [simp, wf_intros]: "u32 (take_bit 32 x)"
  using take_bit_int_range [of 32 x] by (simp add: u32_def)

lemma u32_mask [simp, wf_intros]: "u32 (x AND 0xFFFFFFFF)"
  by (simp only: mask_FFFFFFFF u32_take_bit)

lemma u32_mask_id: "u32 x \<Longrightarrow> x AND 0xFFFFFFFF = x"
  by (simp add: u32_def mask_bits take_bit_int_eq_self)

lemma reg_index_mask [simp, wf_intros]: "reg_index (x AND 0x1F)"
  using take_bit_int_range [of 5 x] by (simp add: reg_index_def mask_bits)

lemma u32_le_mono: "0 \<le> x \<Longrightarrow> x \<le> y \<Longrightarrow> u32 y \<Longrightarrow> u32 x"
  by (simp add: u32_def)

lemma u32_drop_bit [wf_intros]: "u32 x \<Longrightarrow> u32 (drop_bit n x)"
proof -
  assume x: "u32 x"
  have "drop_bit n x \<le> x"
    using x by (simp add: u32_def drop_bit_eq_div div_int_pos_iff) (smt (verit) int_div_less_self
        one_less_power div_by_1 nonneg1_imp_zdiv_pos_iff zdiv_mono2 zero_less_power)
  with x show ?thesis
    by (auto simp: u32_def)
qed

lemma u32_AND_left [wf_intros]: "u32 x \<Longrightarrow> u32 (x AND y)"
  by (auto simp: u32_def AND_upper1 intro: le_less_trans [OF AND_upper1])

lemma u32_bits: "u32 x \<longleftrightarrow> take_bit 32 x = x"
  by (auto simp: u32_def take_bit_int_eq_self_iff)

lemma u32_OR [wf_intros]: "u32 x \<Longrightarrow> u32 y \<Longrightarrow> u32 (x OR y)"
  by (simp add: u32_bits take_bit_or)

lemma u32_XOR [wf_intros]: "u32 x \<Longrightarrow> u32 y \<Longrightarrow> u32 (x XOR y)"
  by (simp add: u32_bits take_bit_xor)

lemma u32_reg_index: "reg_index i \<Longrightarrow> u32 i"
  by (simp add: reg_index_def u32_def)

section \<open>Addresses modulo the size of the memory\<close>

text \<open>
  The simulator reduces an address with \<open>addr & (len(mem) - 1)\<close>.  Whatever the length is, the
  result is a valid index as long as the memory is not empty.
\<close>

lemma AND_len_range: "0 < n \<Longrightarrow> 0 \<le> x AND (int n - 1) \<and> x AND (int n - 1) < int n"
proof -
  assume "0 < n"
  then have m: "0 \<le> int n - 1" by simp
  have "x AND (int n - 1) \<le> int n - 1"
    using AND_upper2 [OF m, of x] .
  moreover have "0 \<le> x AND (int n - 1)"
    using m by simp
  ultimately show ?thesis by simp
qed

lemma AND_len_nat: "0 < n \<Longrightarrow> nat (x AND (int n - 1)) < n"
  using AND_len_range [of n x] by linarith

section \<open>Lists updated by index\<close>

lemma set_list_updateI: "(\<And>y. y \<in> set xs \<Longrightarrow> P y) \<Longrightarrow> P x \<Longrightarrow> y \<in> set (xs[i := x]) \<Longrightarrow> P y"
  using set_update_subset_insert by fast

lemma list_all_update [wf_intros]: "list_all P xs \<Longrightarrow> P x \<Longrightarrow> list_all P (xs[i := x])"
  by (auto simp: list_all_iff dest!: set_update_subset_insert [THEN subsetD])

lemma list_all_nth [wf_intros]: "list_all P xs \<Longrightarrow> i < length xs \<Longrightarrow> P (xs ! i)"
  by (simp add: list_all_length)

lemma list_all_replicate [wf_simps]: "list_all P (replicate n x) \<longleftrightarrow> n = 0 \<or> P x"
  by (induction n) auto

section \<open>Dictionaries from addresses to words\<close>

text \<open>
  The tool chain collects words in a dictionary and lays them out densely:
  \<^verbatim>\<open>[d.get(i, 0) for i in range(max(d) + 1)]\<close>.  A dictionary whose keys are gone through is an
  association list in insertion order.
\<close>

type_synonym image = "(int \<times> int) list"

definition dense_words :: "image \<Rightarrow> int list" where
  "dense_words m =
     (if m = [] then []
      else map (\<lambda>i. case map_of m (int i) of Some w \<Rightarrow> w | None \<Rightarrow> 0)
             [0..<nat (foldr max (map fst m) (fst (hd m)) + 1)])"

fun store_words :: "int \<Rightarrow> int list \<Rightarrow> image \<Rightarrow> image" where
  "store_words k [] m = m"
| "store_words k (w # ws) m = store_words (k + 1) ws (AList.update k w m)"

lemma map_of_store_words:
  "map_of (store_words k ws m) a =
     (if k \<le> a \<and> a < k + int (length ws) then Some (ws ! nat (a - k)) else map_of m a)"
proof (induction ws arbitrary: k m)
  case (Cons w ws)
  have "nat (a - k) = Suc (nat (a - (k + 1)))" if "k + 1 \<le> a"
    using that by simp
  with Cons show ?case
    by (auto simp: update_conv')
qed auto

lemma keys_store_words: "fst ` set (store_words k ws m) = {k ..< k + int (length ws)} \<union> fst ` set m"
proof (induction ws arbitrary: k m)
  case (Cons w ws)
  have "fst ` set (AList.update k w m) = insert k (fst ` set m)"
    by (simp add: dom_update flip: dom_map_of_conv_image_fst) (auto simp: update_conv')
  then show ?case
    by (auto simp: Cons)
qed auto

lemma foldr_max_le: "\<forall>y \<in> set xs. y \<le> x \<Longrightarrow> a \<le> x \<Longrightarrow> foldr max xs a \<le> x" for x :: int
  by (induction xs) auto

lemma foldr_max_ge: "x \<in> set xs \<Longrightarrow> x \<le> foldr max xs a" for x :: int
  by (induction xs) (auto simp: max_def)

lemma foldr_max: "x \<in> set xs \<Longrightarrow> \<forall>y \<in> set xs. y \<le> x \<Longrightarrow> a \<le> x \<Longrightarrow> foldr max xs a = x" for x :: int
  by (intro order.antisym foldr_max_le foldr_max_ge)

lemma dense_store_words: "dense_words (store_words 0 ws []) = ws"
proof (cases "ws = []")
  case False
  let ?m = "store_words 0 ws []"
  have keys: "set (map fst ?m) = {0 ..< int (length ws)}"
    using keys_store_words [of 0 ws "[]"] by simp
  moreover have ne: "?m \<noteq> []" using keys False by force
  then have "fst (hd ?m) \<in> set (map fst ?m)" by simp
  ultimately have "foldr max (map fst ?m) (fst (hd ?m)) = int (length ws) - 1"
    using False by (intro foldr_max) auto
  moreover have "map_of ?m (int i) = Some (ws ! i)" if "i < length ws" for i
    using that by (simp add: map_of_store_words)
  ultimately show ?thesis
    using ne by (auto simp: dense_words_def intro!: nth_equalityI)
qed (simp add: dense_words_def)

end
