(* ===== verification/Instruction_Set.thy ===== *)
theory Instruction_Set
  imports Prelude
begin

unbundle bit_operations_syntax

text \<open>
  The instruction set of EduRISC-32v2, \<^verbatim>\<open>cpu/instruction_set.py\<close>: the enumerations
  \<^verbatim>\<open>Opcode\<close> and \<^verbatim>\<open>InstFmt\<close>, the table \<^verbatim>\<open>OPCODE_FMT\<close>, the six encoders, the decoder and
  the disassembler.  \<^verbatim>\<open>decode\<close> returns a Python dict whose keys depend on the format; here it
  returns a value of \<open>decoded\<close>, with one constructor per set of keys.
\<close>

section \<open>Opcodes and formats\<close>

datatype opcode =
    Op_ADD | Op_ADDI | Op_SUB | Op_MUL | Op_MULH | Op_DIV
  | Op_DIVU | Op_REM | Op_AND | Op_ANDI | Op_OR | Op_ORI
  | Op_XOR | Op_XORI | Op_NOT | Op_NEG | Op_SHL | Op_SHR
  | Op_SHRA | Op_SHLI | Op_SHRI | Op_SHRAI | Op_MOV | Op_MOVI
  | Op_MOVHI | Op_SLT | Op_SLTU | Op_SLTI | Op_LW | Op_LH
  | Op_LHU | Op_LB | Op_LBU | Op_SW | Op_SH | Op_SB
  | Op_BEQ | Op_BNE | Op_BLT | Op_BGE | Op_BLTU | Op_BGEU
  | Op_JMP | Op_JMPR | Op_CALL | Op_CALLR | Op_RET | Op_PUSH
  | Op_POP | Op_NOP | Op_HLT | Op_SYSCALL | Op_ERET | Op_MFC
  | Op_MTC | Op_FENCE | Op_BREAK

datatype inst_fmt = Fmt_R | Fmt_I | Fmt_S | Fmt_B | Fmt_J | Fmt_U

primrec opcode_val :: "opcode \<Rightarrow> int" where
  "opcode_val Op_ADD = 0x00"
| "opcode_val Op_ADDI = 0x01"
| "opcode_val Op_SUB = 0x02"
| "opcode_val Op_MUL = 0x03"
| "opcode_val Op_MULH = 0x04"
| "opcode_val Op_DIV = 0x05"
| "opcode_val Op_DIVU = 0x06"
| "opcode_val Op_REM = 0x07"
| "opcode_val Op_AND = 0x08"
| "opcode_val Op_ANDI = 0x09"
| "opcode_val Op_OR = 0x0A"
| "opcode_val Op_ORI = 0x0B"
| "opcode_val Op_XOR = 0x0C"
| "opcode_val Op_XORI = 0x0D"
| "opcode_val Op_NOT = 0x0E"
| "opcode_val Op_NEG = 0x0F"
| "opcode_val Op_SHL = 0x10"
| "opcode_val Op_SHR = 0x11"
| "opcode_val Op_SHRA = 0x12"
| "opcode_val Op_SHLI = 0x13"
| "opcode_val Op_SHRI = 0x14"
| "opcode_val Op_SHRAI = 0x15"
| "opcode_val Op_MOV = 0x16"
| "opcode_val Op_MOVI = 0x17"
| "opcode_val Op_MOVHI = 0x18"
| "opcode_val Op_SLT = 0x19"
| "opcode_val Op_SLTU = 0x1A"
| "opcode_val Op_SLTI = 0x1B"
| "opcode_val Op_LW = 0x1C"
| "opcode_val Op_LH = 0x1D"
| "opcode_val Op_LHU = 0x1E"
| "opcode_val Op_LB = 0x1F"
| "opcode_val Op_LBU = 0x20"
| "opcode_val Op_SW = 0x21"
| "opcode_val Op_SH = 0x22"
| "opcode_val Op_SB = 0x23"
| "opcode_val Op_BEQ = 0x24"
| "opcode_val Op_BNE = 0x25"
| "opcode_val Op_BLT = 0x26"
| "opcode_val Op_BGE = 0x27"
| "opcode_val Op_BLTU = 0x28"
| "opcode_val Op_BGEU = 0x29"
| "opcode_val Op_JMP = 0x2A"
| "opcode_val Op_JMPR = 0x2B"
| "opcode_val Op_CALL = 0x2C"
| "opcode_val Op_CALLR = 0x2D"
| "opcode_val Op_RET = 0x2E"
| "opcode_val Op_PUSH = 0x2F"
| "opcode_val Op_POP = 0x30"
| "opcode_val Op_NOP = 0x31"
| "opcode_val Op_HLT = 0x32"
| "opcode_val Op_SYSCALL = 0x33"
| "opcode_val Op_ERET = 0x34"
| "opcode_val Op_MFC = 0x35"
| "opcode_val Op_MTC = 0x36"
| "opcode_val Op_FENCE = 0x37"
| "opcode_val Op_BREAK = 0x38"

primrec opcode_name :: "opcode \<Rightarrow> string" where
  "opcode_name Op_ADD = ''ADD''"
| "opcode_name Op_ADDI = ''ADDI''"
| "opcode_name Op_SUB = ''SUB''"
| "opcode_name Op_MUL = ''MUL''"
| "opcode_name Op_MULH = ''MULH''"
| "opcode_name Op_DIV = ''DIV''"
| "opcode_name Op_DIVU = ''DIVU''"
| "opcode_name Op_REM = ''REM''"
| "opcode_name Op_AND = ''AND''"
| "opcode_name Op_ANDI = ''ANDI''"
| "opcode_name Op_OR = ''OR''"
| "opcode_name Op_ORI = ''ORI''"
| "opcode_name Op_XOR = ''XOR''"
| "opcode_name Op_XORI = ''XORI''"
| "opcode_name Op_NOT = ''NOT''"
| "opcode_name Op_NEG = ''NEG''"
| "opcode_name Op_SHL = ''SHL''"
| "opcode_name Op_SHR = ''SHR''"
| "opcode_name Op_SHRA = ''SHRA''"
| "opcode_name Op_SHLI = ''SHLI''"
| "opcode_name Op_SHRI = ''SHRI''"
| "opcode_name Op_SHRAI = ''SHRAI''"
| "opcode_name Op_MOV = ''MOV''"
| "opcode_name Op_MOVI = ''MOVI''"
| "opcode_name Op_MOVHI = ''MOVHI''"
| "opcode_name Op_SLT = ''SLT''"
| "opcode_name Op_SLTU = ''SLTU''"
| "opcode_name Op_SLTI = ''SLTI''"
| "opcode_name Op_LW = ''LW''"
| "opcode_name Op_LH = ''LH''"
| "opcode_name Op_LHU = ''LHU''"
| "opcode_name Op_LB = ''LB''"
| "opcode_name Op_LBU = ''LBU''"
| "opcode_name Op_SW = ''SW''"
| "opcode_name Op_SH = ''SH''"
| "opcode_name Op_SB = ''SB''"
| "opcode_name Op_BEQ = ''BEQ''"
| "opcode_name Op_BNE = ''BNE''"
| "opcode_name Op_BLT = ''BLT''"
| "opcode_name Op_BGE = ''BGE''"
| "opcode_name Op_BLTU = ''BLTU''"
| "opcode_name Op_BGEU = ''BGEU''"
| "opcode_name Op_JMP = ''JMP''"
| "opcode_name Op_JMPR = ''JMPR''"
| "opcode_name Op_CALL = ''CALL''"
| "opcode_name Op_CALLR = ''CALLR''"
| "opcode_name Op_RET = ''RET''"
| "opcode_name Op_PUSH = ''PUSH''"
| "opcode_name Op_POP = ''POP''"
| "opcode_name Op_NOP = ''NOP''"
| "opcode_name Op_HLT = ''HLT''"
| "opcode_name Op_SYSCALL = ''SYSCALL''"
| "opcode_name Op_ERET = ''ERET''"
| "opcode_name Op_MFC = ''MFC''"
| "opcode_name Op_MTC = ''MTC''"
| "opcode_name Op_FENCE = ''FENCE''"
| "opcode_name Op_BREAK = ''BREAK''"

definition opcode_list :: "opcode list" where
  "opcode_list =
    [Op_ADD, Op_ADDI, Op_SUB, Op_MUL, Op_MULH, Op_DIV,
     Op_DIVU, Op_REM, Op_AND, Op_ANDI, Op_OR, Op_ORI,
     Op_XOR, Op_XORI, Op_NOT, Op_NEG, Op_SHL, Op_SHR,
     Op_SHRA, Op_SHLI, Op_SHRI, Op_SHRAI, Op_MOV, Op_MOVI,
     Op_MOVHI, Op_SLT, Op_SLTU, Op_SLTI, Op_LW, Op_LH,
     Op_LHU, Op_LB, Op_LBU, Op_SW, Op_SH, Op_SB,
     Op_BEQ, Op_BNE, Op_BLT, Op_BGE, Op_BLTU, Op_BGEU,
     Op_JMP, Op_JMPR, Op_CALL, Op_CALLR, Op_RET, Op_PUSH,
     Op_POP, Op_NOP, Op_HLT, Op_SYSCALL, Op_ERET, Op_MFC,
     Op_MTC, Op_FENCE, Op_BREAK]"

primrec OPCODE_FMT :: "opcode \<Rightarrow> inst_fmt" where
  "OPCODE_FMT Op_ADD = Fmt_R"
| "OPCODE_FMT Op_ADDI = Fmt_I"
| "OPCODE_FMT Op_SUB = Fmt_R"
| "OPCODE_FMT Op_MUL = Fmt_R"
| "OPCODE_FMT Op_MULH = Fmt_R"
| "OPCODE_FMT Op_DIV = Fmt_R"
| "OPCODE_FMT Op_DIVU = Fmt_R"
| "OPCODE_FMT Op_REM = Fmt_R"
| "OPCODE_FMT Op_AND = Fmt_R"
| "OPCODE_FMT Op_ANDI = Fmt_I"
| "OPCODE_FMT Op_OR = Fmt_R"
| "OPCODE_FMT Op_ORI = Fmt_I"
| "OPCODE_FMT Op_XOR = Fmt_R"
| "OPCODE_FMT Op_XORI = Fmt_I"
| "OPCODE_FMT Op_NOT = Fmt_R"
| "OPCODE_FMT Op_NEG = Fmt_R"
| "OPCODE_FMT Op_SHL = Fmt_R"
| "OPCODE_FMT Op_SHR = Fmt_R"
| "OPCODE_FMT Op_SHRA = Fmt_R"
| "OPCODE_FMT Op_SHLI = Fmt_R"
| "OPCODE_FMT Op_SHRI = Fmt_R"
| "OPCODE_FMT Op_SHRAI = Fmt_R"
| "OPCODE_FMT Op_MOV = Fmt_R"
| "OPCODE_FMT Op_MOVI = Fmt_I"
| "OPCODE_FMT Op_MOVHI = Fmt_U"
| "OPCODE_FMT Op_SLT = Fmt_R"
| "OPCODE_FMT Op_SLTU = Fmt_R"
| "OPCODE_FMT Op_SLTI = Fmt_I"
| "OPCODE_FMT Op_LW = Fmt_I"
| "OPCODE_FMT Op_LH = Fmt_I"
| "OPCODE_FMT Op_LHU = Fmt_I"
| "OPCODE_FMT Op_LB = Fmt_I"
| "OPCODE_FMT Op_LBU = Fmt_I"
| "OPCODE_FMT Op_SW = Fmt_S"
| "OPCODE_FMT Op_SH = Fmt_S"
| "OPCODE_FMT Op_SB = Fmt_S"
| "OPCODE_FMT Op_BEQ = Fmt_B"
| "OPCODE_FMT Op_BNE = Fmt_B"
| "OPCODE_FMT Op_BLT = Fmt_B"
| "OPCODE_FMT Op_BGE = Fmt_B"
| "OPCODE_FMT Op_BLTU = Fmt_B"
| "OPCODE_FMT Op_BGEU = Fmt_B"
| "OPCODE_FMT Op_JMP = Fmt_J"
| "OPCODE_FMT Op_JMPR = Fmt_I"
| "OPCODE_FMT Op_CALL = Fmt_J"
| "OPCODE_FMT Op_CALLR = Fmt_I"
| "OPCODE_FMT Op_RET = Fmt_J"
| "OPCODE_FMT Op_PUSH = Fmt_R"
| "OPCODE_FMT Op_POP = Fmt_R"
| "OPCODE_FMT Op_NOP = Fmt_J"
| "OPCODE_FMT Op_HLT = Fmt_J"
| "OPCODE_FMT Op_SYSCALL = Fmt_J"
| "OPCODE_FMT Op_ERET = Fmt_J"
| "OPCODE_FMT Op_MFC = Fmt_I"
| "OPCODE_FMT Op_MTC = Fmt_I"
| "OPCODE_FMT Op_FENCE = Fmt_J"
| "OPCODE_FMT Op_BREAK = Fmt_J"

text \<open>\<^verbatim>\<open>Opcode(v)\<close>: look an enumeration member up by value; None is the ValueError.\<close>

definition Opcode :: "int \<Rightarrow> opcode option" where
  "Opcode v = find (\<lambda>op. opcode_val op = v) opcode_list"

text \<open>\<^verbatim>\<open>MNEMONIC_TO_OPCODE\<close>: the members' own names, and three aliases added after them.\<close>

definition MNEMONIC_TO_OPCODE :: "string \<Rightarrow> opcode option" where
  "MNEMONIC_TO_OPCODE m =
     (if m = ''SLLI'' then Some Op_SHLI
      else if m = ''SRLI'' then Some Op_SHRI
      else if m = ''SRAI'' then Some Op_SHRAI
      else find (\<lambda>op. opcode_name op = m) opcode_list)"

text \<open>Constants of the architecture.\<close>

definition NUM_REGISTERS :: int where "NUM_REGISTERS = 32"
definition WORD_BITS :: nat where "WORD_BITS = 32"
definition WORD_MASK :: int where "WORD_MASK = shl 1 WORD_BITS - 1"
definition PC_BITS :: nat where "PC_BITS = 26"
definition MEM_SIZE :: int where "MEM_SIZE = shl 1 PC_BITS"
definition ZERO_REG :: int where "ZERO_REG = 0"
definition SP_REG :: int where "SP_REG = 30"
definition LR_REG :: int where "LR_REG = 31"

definition CSR_STATUS :: int where "CSR_STATUS = 0"
definition CSR_IVT :: int where "CSR_IVT = 1"
definition CSR_EPC :: int where "CSR_EPC = 2"
definition CSR_CAUSE :: int where "CSR_CAUSE = 3"
definition CSR_PTBR :: int where "CSR_PTBR = 5"
definition CSR_TLBCTL :: int where "CSR_TLBCTL = 6"
definition CSR_CYCLE :: int where "CSR_CYCLE = 7"
definition CSR_CYCLEH :: int where "CSR_CYCLEH = 8"
definition CSR_INSTRET :: int where "CSR_INSTRET = 9"
definition CSR_ICOUNT :: int where "CSR_ICOUNT = 10"
definition CSR_DCMISS :: int where "CSR_DCMISS = 11"
definition CSR_ICMISS :: int where "CSR_ICMISS = 12"
definition CSR_BRMISS :: int where "CSR_BRMISS = 13"
definition NUM_CSRS :: int where "NUM_CSRS = 32"

definition STATUS_IE :: int where "STATUS_IE = shl 1 0"
definition STATUS_KU :: int where "STATUS_KU = shl 1 1"

definition CAUSE_ILLEGAL :: int where "CAUSE_ILLEGAL = 0"
definition CAUSE_PGFAULT :: int where "CAUSE_PGFAULT = 2"
definition CAUSE_SYSCALL :: int where "CAUSE_SYSCALL = 3"
definition CAUSE_BREAK :: int where "CAUSE_BREAK = 4"

lemmas isa_consts =
  NUM_REGISTERS_def WORD_BITS_def WORD_MASK_def PC_BITS_def MEM_SIZE_def
  ZERO_REG_def SP_REG_def LR_REG_def NUM_CSRS_def

lemmas csr_consts =
  CSR_STATUS_def CSR_IVT_def CSR_EPC_def CSR_CAUSE_def CSR_PTBR_def CSR_TLBCTL_def
  CSR_CYCLE_def CSR_CYCLEH_def CSR_INSTRET_def CSR_ICOUNT_def CSR_DCMISS_def
  CSR_ICMISS_def CSR_BRMISS_def STATUS_IE_def STATUS_KU_def
  CAUSE_ILLEGAL_def CAUSE_PGFAULT_def CAUSE_SYSCALL_def CAUSE_BREAK_def

lemma WORD_MASK_eq [simp]: "WORD_MASK = 0xFFFFFFFF"
  by (simp add: isa_consts)

text \<open>The encoded NOP: \<^verbatim>\<open>(Opcode.NOP << 26) & 0xFFFF_FFFF\<close>.\<close>

definition NOP_WORD :: int where
  "NOP_WORD = shl (opcode_val Op_NOP) 26 AND 0xFFFFFFFF"

lemma NOP_WORD_eq: "NOP_WORD = 0xC4000000"
  by (simp add: NOP_WORD_def push_bit_eq_mult)

section \<open>Sign extension and encoders\<close>

definition sext :: "int \<Rightarrow> nat \<Rightarrow> int" where
  "sext value bits =
     (let mask = shl 1 bits - 1;
          v = value AND mask
      in if v AND shl 1 (bits - 1) \<noteq> 0 then v - shl 1 bits else v)"

definition encode_r :: "opcode \<Rightarrow> int \<Rightarrow> int \<Rightarrow> int \<Rightarrow> int \<Rightarrow> int" where
  "encode_r opcode rd rs1 rs2 shamt =
     shl (opcode_val opcode AND 0x3F) 26
     OR shl (rd AND 0x1F) 21
     OR shl (rs1 AND 0x1F) 16
     OR shl (rs2 AND 0x1F) 11
     OR shl (shamt AND 0x1F) 6"

definition encode_i :: "opcode \<Rightarrow> int \<Rightarrow> int \<Rightarrow> int \<Rightarrow> int" where
  "encode_i opcode rd rs1 imm =
     shl (opcode_val opcode AND 0x3F) 26
     OR shl (rd AND 0x1F) 21
     OR shl (rs1 AND 0x1F) 16
     OR (imm AND 0xFFFF)"

definition encode_m :: "opcode \<Rightarrow> int \<Rightarrow> int \<Rightarrow> int \<Rightarrow> int" where
  "encode_m opcode rd base offset = encode_i opcode rd base offset"

definition encode_s :: "opcode \<Rightarrow> int \<Rightarrow> int \<Rightarrow> int \<Rightarrow> int" where
  "encode_s opcode rs2 rs1 off =
     shl (opcode_val opcode AND 0x3F) 26
     OR shl (rs2 AND 0x1F) 21
     OR shl (rs1 AND 0x1F) 16
     OR (off AND 0xFFFF)"

definition encode_b :: "opcode \<Rightarrow> int \<Rightarrow> int \<Rightarrow> int \<Rightarrow> int" where
  "encode_b opcode rs1 rs2 off =
     shl (opcode_val opcode AND 0x3F) 26
     OR shl (rs1 AND 0x1F) 21
     OR shl (rs2 AND 0x1F) 16
     OR (off AND 0xFFFF)"

definition encode_j :: "opcode \<Rightarrow> int \<Rightarrow> int" where
  "encode_j opcode addr = shl (opcode_val opcode AND 0x3F) 26 OR (addr AND 0x3FFFFFF)"

definition encode_u :: "opcode \<Rightarrow> int \<Rightarrow> int \<Rightarrow> int" where
  "encode_u opcode rd imm21 =
     shl (opcode_val opcode AND 0x3F) 26
     OR shl (rd AND 0x1F) 21
     OR (imm21 AND 0x1FFFFF)"

section \<open>Decoder\<close>

datatype decoded =
    D_Invalid int int                        \<comment> \<open>opcode is None: raw opcode and word\<close>
  | D_R opcode int int int int               \<comment> \<open>rd, rs1, rs2, shamt\<close>
  | D_I opcode int int int                   \<comment> \<open>rd, rs1, imm\<close>
  | D_S opcode int int int                   \<comment> \<open>rs2, rs1, off\<close>
  | D_B opcode int int int                   \<comment> \<open>rs1, rs2, off\<close>
  | D_J opcode int                           \<comment> \<open>addr\<close>
  | D_U opcode int int                       \<comment> \<open>rd, imm21\<close>

definition decode :: "int \<Rightarrow> decoded" where
  "decode word =
     (let op_code = shr word 26 AND 0x3F
      in case Opcode op_code of
           None \<Rightarrow> D_Invalid op_code word
         | Some opcode \<Rightarrow>
             (case OPCODE_FMT opcode of
                Fmt_R \<Rightarrow> D_R opcode (shr word 21 AND 0x1F) (shr word 16 AND 0x1F)
                                    (shr word 11 AND 0x1F) (shr word 6 AND 0x1F)
              | Fmt_I \<Rightarrow> D_I opcode (shr word 21 AND 0x1F) (shr word 16 AND 0x1F)
                                    (sext (word AND 0xFFFF) 16)
              | Fmt_S \<Rightarrow> D_S opcode (shr word 21 AND 0x1F) (shr word 16 AND 0x1F)
                                    (sext (word AND 0xFFFF) 16)
              | Fmt_B \<Rightarrow> D_B opcode (shr word 21 AND 0x1F) (shr word 16 AND 0x1F)
                                    (sext (word AND 0xFFFF) 16)
              | Fmt_U \<Rightarrow> D_U opcode (shr word 21 AND 0x1F) (word AND 0x1FFFFF)
              | Fmt_J \<Rightarrow> D_J opcode (word AND 0x3FFFFFF)))"

text \<open>The dictionary reads \<^verbatim>\<open>d.get("opcode")\<close> and \<^verbatim>\<open>d.get("fmt")\<close>.\<close>

primrec d_opcode :: "decoded \<Rightarrow> opcode option" where
  "d_opcode (D_Invalid _ _) = None"
| "d_opcode (D_R opc _ _ _ _) = Some opc"
| "d_opcode (D_I opc _ _ _) = Some opc"
| "d_opcode (D_S opc _ _ _) = Some opc"
| "d_opcode (D_B opc _ _ _) = Some opc"
| "d_opcode (D_J opc _) = Some opc"
| "d_opcode (D_U opc _ _) = Some opc"

end
