(* ===== verification/Isa_Codec.thy ===== *)
theory Isa_Codec
  imports Instruction_Set
begin

unbundle bit_operations_syntax

text \<open>
  The encoders of \<^verbatim>\<open>cpu/instruction_set.py\<close> against its decoder.  The locale \<open>instr_codec\<close>
  states what the assembler and the control unit rely on for every format: an encoded
  instruction is a 32-bit word and decoding gives the operand fields back.  It is interpreted
  once per format.
\<close>

section \<open>The opcode enumeration\<close>

lemma Opcode_val [simp]: "Opcode (opcode_val opc) = Some opc"
  by (cases opc) (simp_all add: Opcode_def opcode_list_def)

lemma Opcode_SomeD: "Opcode v = Some opc \<Longrightarrow> opcode_val opc = v"
  by (auto simp: Opcode_def find_Some_iff)

lemma opcode_val_inj: "opcode_val a = opcode_val b \<longleftrightarrow> a = b"
  by (metis Opcode_val option.inject)

lemma opcode_val_range: "0 \<le> opcode_val opc \<and> opcode_val opc < 57"
  by (cases opc) simp_all

lemma Opcode_eq_Some_iff: "Opcode v = Some opc \<longleftrightarrow> v = opcode_val opc"
  using Opcode_SomeD by auto

text \<open>
  \<^verbatim>\<open>Opcode\<close> is an \<^verbatim>\<open>IntEnum\<close>: its members are ordered by their values.
\<close>

instantiation opcode :: linorder
begin

definition less_eq_opcode :: "opcode \<Rightarrow> opcode \<Rightarrow> bool" where
  "less_eq_opcode a b \<longleftrightarrow> opcode_val a \<le> opcode_val b"

definition less_opcode :: "opcode \<Rightarrow> opcode \<Rightarrow> bool" where
  "less_opcode a b \<longleftrightarrow> opcode_val a < opcode_val b"

instance
  by standard (auto simp: less_eq_opcode_def less_opcode_def opcode_val_inj)

end

lemma Opcode_None_iff: "Opcode v = None \<longleftrightarrow> (\<forall>opc. opcode_val opc \<noteq> v)"
  using Opcode_eq_Some_iff [of v] by (metis not_None_eq)

section \<open>Sign extension\<close>

lemma sext_signed: "0 < b \<Longrightarrow> sext v b = signed_take_bit (b - 1) v"
proof -
  assume b: "0 < b"
  have m: "v AND (shl 1 b - 1) = take_bit b v"
    by (simp add: take_bit_eq_mask mask_eq_exp_minus_1 push_bit_eq_mult)
  have t: "take_bit b v AND shl 1 (b - 1) \<noteq> 0 \<longleftrightarrow> bit v (b - 1)"
    using b by (simp add: push_bit_eq_mult and_exp_eq_0_iff_not_bit bit_take_bit_iff)
  show ?thesis
    using b unfolding sext_def Let_def m t
    by (simp add: signed_take_bit_eq_take_bit_minus push_bit_eq_mult)
qed

lemma sext_range: "0 < b \<Longrightarrow> - (2 ^ (b - 1)) \<le> sext v b \<and> sext v b < 2 ^ (b - 1)"
  by (simp add: sext_signed signed_take_bit_int_greater_eq_minus_exp signed_take_bit_int_less_exp)

lemma sext_id: "0 < b \<Longrightarrow> - (2 ^ (b - 1)) \<le> v \<Longrightarrow> v < 2 ^ (b - 1) \<Longrightarrow> sext v b = v"
  by (simp add: sext_signed signed_take_bit_int_eq_self)

lemma sext_mask16: "sext (v AND 0xFFFF) 16 = signed_take_bit 15 v"
  by (simp add: sext_signed mask_bits signed_take_bit_take_bit)

lemma mask16_sext: "sext v 16 AND 0xFFFF = v AND 0xFFFF"
  by (simp add: sext_signed mask_bits take_bit_signed_take_bit)

section \<open>Fields of an encoded word\<close>

lemma opcode_val_mask: "opcode_val opc AND 0x3F = opcode_val opc"
  using opcode_val_range [of opc] by (simp add: mask_bits take_bit_int_eq_self)

lemma u32_shl_field [wf_intros]: "n + k \<le> 32 \<Longrightarrow> u32 (shl (take_bit k x) n)"
  unfolding u32_bits by (rule bit_eqI) (auto simp: bit_simps)

lemma u32_low_field [wf_intros]: "k \<le> 32 \<Longrightarrow> u32 (take_bit k x)"
  unfolding u32_bits by simp

lemmas enc_defs = encode_r_def encode_i_def encode_s_def encode_b_def encode_j_def encode_u_def

lemma opcode_field_r: "shr (encode_r opc rd rs1 rs2 sh) 26 AND 0x3F = opcode_val opc AND 0x3F"
  unfolding enc_defs mask_bits by (rule bit_eqI) (auto simp: bit_simps)

lemma opcode_field_i: "shr (encode_i opc rd rs1 imm) 26 AND 0x3F = opcode_val opc AND 0x3F"
  unfolding enc_defs mask_bits by (rule bit_eqI) (auto simp: bit_simps)

lemma opcode_field_j: "shr (encode_j opc addr) 26 AND 0x3F = opcode_val opc AND 0x3F"
  unfolding enc_defs mask_bits by (rule bit_eqI) (auto simp: bit_simps)

lemma opcode_field_u: "shr (encode_u opc rd imm) 26 AND 0x3F = opcode_val opc AND 0x3F"
  unfolding enc_defs mask_bits by (rule bit_eqI) (auto simp: bit_simps)

lemma encode_s_eq_i: "encode_s opc rs2 rs1 off = encode_i opc rs2 rs1 off"
  by (simp add: enc_defs)

lemma encode_b_eq_i: "encode_b opc rs1 rs2 off = encode_i opc rs1 rs2 off"
  by (simp add: enc_defs)

lemma fields_r:
  shows "shr (encode_r opc rd rs1 rs2 sh) 21 AND 0x1F = rd AND 0x1F"
    and "shr (encode_r opc rd rs1 rs2 sh) 16 AND 0x1F = rs1 AND 0x1F"
    and "shr (encode_r opc rd rs1 rs2 sh) 11 AND 0x1F = rs2 AND 0x1F"
    and "shr (encode_r opc rd rs1 rs2 sh) 6 AND 0x1F = sh AND 0x1F"
  unfolding enc_defs mask_bits by (rule bit_eqI; auto simp: bit_simps)+

lemma fields_i:
  shows "shr (encode_i opc rd rs1 imm) 21 AND 0x1F = rd AND 0x1F"
    and "shr (encode_i opc rd rs1 imm) 16 AND 0x1F = rs1 AND 0x1F"
    and "encode_i opc rd rs1 imm AND 0xFFFF = imm AND 0xFFFF"
  unfolding enc_defs mask_bits by (rule bit_eqI; auto simp: bit_simps)+

lemma fields_j: "encode_j opc addr AND 0x3FFFFFF = addr AND 0x3FFFFFF"
  unfolding enc_defs mask_bits by (rule bit_eqI) (auto simp: bit_simps)

lemma fields_u:
  shows "shr (encode_u opc rd imm) 21 AND 0x1F = rd AND 0x1F"
    and "encode_u opc rd imm AND 0x1FFFFF = imm AND 0x1FFFFF"
  unfolding enc_defs mask_bits by (rule bit_eqI; auto simp: bit_simps)+

lemmas codec_fields =
  opcode_field_r opcode_field_i opcode_field_j opcode_field_u fields_r fields_i fields_j fields_u

lemma u32_encode_r: "u32 (encode_r opc rd rs1 rs2 sh)"
  unfolding enc_defs mask_bits by (intro u32_OR u32_shl_field) simp_all

lemma u32_encode_i: "u32 (encode_i opc rd rs1 imm)"
  unfolding enc_defs mask_bits by (intro u32_OR u32_shl_field u32_low_field) simp_all

lemma u32_encode_j: "u32 (encode_j opc addr)"
  unfolding enc_defs mask_bits by (intro u32_OR u32_shl_field u32_low_field) simp_all

lemma u32_encode_u: "u32 (encode_u opc rd imm)"
  unfolding enc_defs mask_bits by (intro u32_OR u32_shl_field u32_low_field) simp_all

lemmas u32_encode = u32_encode_r u32_encode_i u32_encode_j u32_encode_u

section \<open>The codec interface\<close>

text \<open>
  Operands of one instruction, as the assembler passes them to the encoder of their format,
  with the opcode; \<open>view\<close> is what the decoder is expected to return.
\<close>

locale instr_codec =
  fixes enc :: "'f \<Rightarrow> int"
    and view :: "'f \<Rightarrow> decoded"
    and ok :: "'f \<Rightarrow> bool"
  assumes enc_u32: "u32 (enc f)"
    and dec_enc: "ok f \<Longrightarrow> decode (enc f) = view f"
begin

lemma decode_program: "list_all ok fs \<Longrightarrow> map decode (map enc fs) = map view fs"
  by (induction fs) (simp_all add: dec_enc)

lemma program_u32: "list_all u32 (map enc fs)"
  by (induction fs) (simp_all add: enc_u32)

lemma enc_determines: "ok f \<Longrightarrow> ok g \<Longrightarrow> enc f = enc g \<Longrightarrow> view f = view g"
  by (metis dec_enc)

end

definition enc_r_ops :: "opcode \<times> int \<times> int \<times> int \<times> int \<Rightarrow> int" where
  "enc_r_ops = (\<lambda>(opc, rd, rs1, rs2, sh). encode_r opc rd rs1 rs2 sh)"

definition enc_i_ops :: "opcode \<times> int \<times> int \<times> int \<Rightarrow> int" where
  "enc_i_ops = (\<lambda>(opc, rd, rs1, imm). encode_i opc rd rs1 imm)"

definition enc_s_ops :: "opcode \<times> int \<times> int \<times> int \<Rightarrow> int" where
  "enc_s_ops = (\<lambda>(opc, rs2, rs1, off). encode_s opc rs2 rs1 off)"

definition enc_b_ops :: "opcode \<times> int \<times> int \<times> int \<Rightarrow> int" where
  "enc_b_ops = (\<lambda>(opc, rs1, rs2, off). encode_b opc rs1 rs2 off)"

definition enc_j_ops :: "opcode \<times> int \<Rightarrow> int" where
  "enc_j_ops = (\<lambda>(opc, addr). encode_j opc addr)"

definition enc_u_ops :: "opcode \<times> int \<times> int \<Rightarrow> int" where
  "enc_u_ops = (\<lambda>(opc, rd, imm). encode_u opc rd imm)"

lemmas ops_defs = enc_r_ops_def enc_i_ops_def enc_s_ops_def enc_b_ops_def enc_j_ops_def enc_u_ops_def

interpretation codec_r: instr_codec enc_r_ops
    "\<lambda>(opc, rd, rs1, rs2, sh). D_R opc (rd AND 0x1F) (rs1 AND 0x1F) (rs2 AND 0x1F) (sh AND 0x1F)"
    "\<lambda>(opc, rd, rs1, rs2, sh). OPCODE_FMT opc = Fmt_R"
  by unfold_locales
    (auto simp: ops_defs u32_encode decode_def codec_fields opcode_val_mask)

interpretation codec_i: instr_codec enc_i_ops
    "\<lambda>(opc, rd, rs1, imm). D_I opc (rd AND 0x1F) (rs1 AND 0x1F) (sext imm 16)"
    "\<lambda>(opc, rd, rs1, imm). OPCODE_FMT opc = Fmt_I"
  by unfold_locales
    (auto simp: ops_defs u32_encode decode_def codec_fields opcode_val_mask sext_mask16 sext_signed)

interpretation codec_s: instr_codec enc_s_ops
    "\<lambda>(opc, rs2, rs1, off). D_S opc (rs2 AND 0x1F) (rs1 AND 0x1F) (sext off 16)"
    "\<lambda>(opc, rs2, rs1, off). OPCODE_FMT opc = Fmt_S"
  by unfold_locales
    (auto simp: ops_defs encode_s_eq_i u32_encode decode_def codec_fields opcode_val_mask
      sext_mask16 sext_signed)

interpretation codec_b: instr_codec enc_b_ops
    "\<lambda>(opc, rs1, rs2, off). D_B opc (rs1 AND 0x1F) (rs2 AND 0x1F) (sext off 16)"
    "\<lambda>(opc, rs1, rs2, off). OPCODE_FMT opc = Fmt_B"
  by unfold_locales
    (auto simp: ops_defs encode_b_eq_i u32_encode decode_def codec_fields opcode_val_mask
      sext_mask16 sext_signed)

interpretation codec_j: instr_codec enc_j_ops
    "\<lambda>(opc, addr). D_J opc (addr AND 0x3FFFFFF)"
    "\<lambda>(opc, addr). OPCODE_FMT opc = Fmt_J"
  by unfold_locales
    (auto simp: ops_defs u32_encode decode_def codec_fields opcode_val_mask)

interpretation codec_u: instr_codec enc_u_ops
    "\<lambda>(opc, rd, imm). D_U opc (rd AND 0x1F) (imm AND 0x1FFFFF)"
    "\<lambda>(opc, rd, imm). OPCODE_FMT opc = Fmt_U"
  by unfold_locales
    (auto simp: ops_defs u32_encode decode_def codec_fields opcode_val_mask)

section \<open>Decoded fields\<close>

text \<open>What every decoded instruction satisfies: format and opcode agree, fields are in range.\<close>

fun decoded_ok :: "decoded \<Rightarrow> bool" where
  "decoded_ok (D_Invalid _ _) = True"
| "decoded_ok (D_R opc rd rs1 rs2 sh) =
     (OPCODE_FMT opc = Fmt_R \<and> reg_index rd \<and> reg_index rs1 \<and> reg_index rs2 \<and> reg_index sh)"
| "decoded_ok (D_I opc rd rs1 imm) =
     (OPCODE_FMT opc = Fmt_I \<and> reg_index rd \<and> reg_index rs1 \<and> - 32768 \<le> imm \<and> imm < 32768)"
| "decoded_ok (D_S opc rs2 rs1 off) =
     (OPCODE_FMT opc = Fmt_S \<and> reg_index rs2 \<and> reg_index rs1 \<and> - 32768 \<le> off \<and> off < 32768)"
| "decoded_ok (D_B opc rs1 rs2 off) =
     (OPCODE_FMT opc = Fmt_B \<and> reg_index rs1 \<and> reg_index rs2 \<and> - 32768 \<le> off \<and> off < 32768)"
| "decoded_ok (D_J opc addr) = (OPCODE_FMT opc = Fmt_J \<and> 0 \<le> addr \<and> addr < 2 ^ 26)"
| "decoded_ok (D_U opc rd imm21) =
     (OPCODE_FMT opc = Fmt_U \<and> reg_index rd \<and> 0 \<le> imm21 \<and> imm21 < 2 ^ 21)"

lemma sext16_bounds: "- 32768 \<le> sext x 16 \<and> sext x 16 < 32768"
  using sext_range [of 16 x] by simp

lemma mask21_bounds: "0 \<le> (x :: int) AND 0x1FFFFF \<and> x AND 0x1FFFFF < 2 ^ 21"
  using take_bit_int_range [of 21 x] by (simp add: mask_bits)

lemma mask26_bounds: "0 \<le> (x :: int) AND 0x3FFFFFF \<and> x AND 0x3FFFFFF < 2 ^ 26"
  using take_bit_int_range [of 26 x] by (simp add: mask_bits)

lemma decode_ok: "decoded_ok (decode w)"
  using sext16_bounds [of "w AND 0xFFFF"] mask21_bounds [of w] mask26_bounds [of w]
  by (auto simp: decode_def Let_def split: option.split inst_fmt.split)

section \<open>Encoding what was decoded\<close>

lemma field_join:
  "shl (take_bit k (shr w n)) n OR take_bit n w = take_bit (n + k) w"
  by (rule bit_eqI) (auto simp: bit_simps)

lemma field_join_clear:
  "m \<le> n \<Longrightarrow>
   shl (take_bit k (shr w n)) n OR (take_bit n w AND NOT (mask m)) = take_bit (n + k) w AND NOT (mask m)"
  by (rule bit_eqI) (auto simp: bit_simps)

lemma field_clear: "shl (take_bit k (shr w n)) n = take_bit (n + k) w AND NOT (mask n)"
  by (rule bit_eqI) (auto simp: bit_simps)

lemma word_split_bits:
  assumes w: "u32 w"
  shows "shl (shr w 26 AND 0x3F) 26 OR shl (shr w 21 AND 0x1F) 21
           OR shl (shr w 16 AND 0x1F) 16 OR (w AND 0xFFFF) = w"
    and "shl (shr w 26 AND 0x3F) 26 OR (w AND 0x3FFFFFF) = w"
    and "shl (shr w 26 AND 0x3F) 26 OR shl (shr w 21 AND 0x1F) 21 OR (w AND 0x1FFFFF) = w"
    and "shl (shr w 26 AND 0x3F) 26 OR shl (shr w 21 AND 0x1F) 21 OR shl (shr w 16 AND 0x1F) 16
           OR shl (shr w 11 AND 0x1F) 11 OR shl (shr w 6 AND 0x1F) 6 = w AND NOT (mask 6)"
proof -
  have w32: "take_bit 32 w = w"
    using w by (simp add: u32_bits)
  note join = field_join [where n = 16 and k = 5 and w = w, simplified]
    field_join [where n = 21 and k = 5 and w = w, simplified]
    field_join [where n = 26 and k = 6 and w = w, simplified]
  note clear = field_clear [where n = 6 and k = 5 and w = w, simplified]
    field_join_clear [where m = 6 and n = 11 and k = 5 and w = w, simplified]
    field_join_clear [where m = 6 and n = 16 and k = 5 and w = w, simplified]
    field_join_clear [where m = 6 and n = 21 and k = 5 and w = w, simplified]
    field_join_clear [where m = 6 and n = 26 and k = 6 and w = w, simplified]
  show "shl (shr w 26 AND 0x3F) 26 OR shl (shr w 21 AND 0x1F) 21
           OR shl (shr w 16 AND 0x1F) 16 OR (w AND 0xFFFF) = w"
    and "shl (shr w 26 AND 0x3F) 26 OR (w AND 0x3FFFFFF) = w"
    and "shl (shr w 26 AND 0x3F) 26 OR shl (shr w 21 AND 0x1F) 21 OR (w AND 0x1FFFFF) = w"
    by (simp_all only: mask_bits or.assoc join w32)
  show "shl (shr w 26 AND 0x3F) 26 OR shl (shr w 21 AND 0x1F) 21 OR shl (shr w 16 AND 0x1F) 16
           OR shl (shr w 11 AND 0x1F) 11 OR shl (shr w 6 AND 0x1F) 6 = w AND NOT (mask 6)"
    by (simp only: mask_bits or.assoc clear w32)
qed

text \<open>The fields a decoded instruction comes from, one rule per format.\<close>

lemma decode_opcode: "d_opcode (decode w) = Some opc \<Longrightarrow> opcode_val opc = shr w 26 AND 0x3F"
  by (auto simp: decode_def Let_def Opcode_eq_Some_iff split: option.splits inst_fmt.splits)

lemma decode_I_fields:
  "decode w = D_I opc rd rs1 imm \<Longrightarrow> opcode_val opc = shr w 26 AND 0x3F \<and> rd = shr w 21 AND 0x1F
     \<and> rs1 = shr w 16 AND 0x1F \<and> imm = sext (w AND 0xFFFF) 16"
  by (auto simp: decode_def Let_def Opcode_eq_Some_iff split: option.splits inst_fmt.splits)

lemma decode_S_fields:
  "decode w = D_S opc rs2 rs1 off \<Longrightarrow> opcode_val opc = shr w 26 AND 0x3F \<and> rs2 = shr w 21 AND 0x1F
     \<and> rs1 = shr w 16 AND 0x1F \<and> off = sext (w AND 0xFFFF) 16"
  by (auto simp: decode_def Let_def Opcode_eq_Some_iff split: option.splits inst_fmt.splits)

lemma decode_B_fields:
  "decode w = D_B opc rs1 rs2 off \<Longrightarrow> opcode_val opc = shr w 26 AND 0x3F \<and> rs1 = shr w 21 AND 0x1F
     \<and> rs2 = shr w 16 AND 0x1F \<and> off = sext (w AND 0xFFFF) 16"
  by (auto simp: decode_def Let_def Opcode_eq_Some_iff split: option.splits inst_fmt.splits)

lemma decode_J_fields:
  "decode w = D_J opc addr \<Longrightarrow> opcode_val opc = shr w 26 AND 0x3F \<and> addr = w AND 0x3FFFFFF"
  by (auto simp: decode_def Let_def Opcode_eq_Some_iff split: option.splits inst_fmt.splits)

lemma decode_U_fields:
  "decode w = D_U opc rd imm21 \<Longrightarrow> opcode_val opc = shr w 26 AND 0x3F \<and> rd = shr w 21 AND 0x1F
     \<and> imm21 = w AND 0x1FFFFF"
  by (auto simp: decode_def Let_def Opcode_eq_Some_iff split: option.splits inst_fmt.splits)

lemma decode_R_fields:
  "decode w = D_R opc rd rs1 rs2 sh \<Longrightarrow> opcode_val opc = shr w 26 AND 0x3F \<and> rd = shr w 21 AND 0x1F
     \<and> rs1 = shr w 16 AND 0x1F \<and> rs2 = shr w 11 AND 0x1F \<and> sh = shr w 6 AND 0x1F"
  by (auto simp: decode_def Let_def Opcode_eq_Some_iff split: option.splits inst_fmt.splits)

lemmas decode_fields = decode_I_fields decode_S_fields decode_B_fields decode_J_fields
  decode_U_fields decode_R_fields

lemma decode_invalid_fields:
  "decode w = D_Invalid raw word \<Longrightarrow> word = w \<and> raw = shr w 26 AND 0x3F \<and> (\<forall>opc. opcode_val opc \<noteq> raw)"
  by (auto simp: decode_def Let_def Opcode_None_iff split: option.splits inst_fmt.splits)

lemma mask_idem:
  "(x AND 0x1F) AND 0x1F = x AND (0x1F :: int)" "(x AND 0x3F) AND 0x3F = x AND (0x3F :: int)"
  "(x AND 0xFFFF) AND 0xFFFF = x AND (0xFFFF :: int)"
  "(x AND 0x1FFFFF) AND 0x1FFFFF = x AND (0x1FFFFF :: int)"
  "(x AND 0x3FFFFFF) AND 0x3FFFFFF = x AND (0x3FFFFFF :: int)"
  by (simp_all add: mask_bits)

lemma encode_decoded:
  assumes w: "u32 w"
  shows "decode w = D_I opc rd rs1 imm \<Longrightarrow> encode_i opc rd rs1 imm = w"
    and "decode w = D_S opc rs2 rs1 off \<Longrightarrow> encode_s opc rs2 rs1 off = w"
    and "decode w = D_B opc rs1 rs2 off \<Longrightarrow> encode_b opc rs1 rs2 off = w"
    and "decode w = D_J opc addr \<Longrightarrow> encode_j opc addr = w"
    and "decode w = D_U opc rd imm21 \<Longrightarrow> encode_u opc rd imm21 = w"
    and "decode w = D_R opc rd rs1 rs2 sh \<Longrightarrow> encode_r opc rd rs1 rs2 sh = w AND NOT (mask 6)"
  by (drule decode_fields, elim conjE,
      simp only: enc_defs opcode_val_mask mask_idem mask16_sext word_split_bits [OF w])+

end
