(* ===== verification/Registers.thy ===== *)
theory Registers
  imports Isa_Codec
begin

unbundle bit_operations_syntax

text \<open>
  \<^verbatim>\<open>cpu/registers.py\<close>: the status flags and the bank of 32 registers with R0 wired to zero.
  Indexing raises \<^const>\<open>IndexError\<close> outside 0--31, so \<open>rf_getitem\<close> and \<open>rf_setitem\<close> return a
  sum; \<open>rf_get\<close> and \<open>rf_set\<close> are what they do once the check has passed, and are what the
  pipeline calls with 5-bit fields (\<open>sim_wf\<close> in the theory of the simulator's invariant shows
  that every index it uses passes the check).
\<close>

section \<open>Flags\<close>

record flags =
  fl_zero :: bool
  fl_carry :: bool
  fl_neg :: bool
  fl_ovf :: bool

definition flags_init :: flags where
  "flags_init = \<lparr>fl_zero = False, fl_carry = False, fl_neg = False, fl_ovf = False\<rparr>"

definition flags_update :: "flags \<Rightarrow> int \<Rightarrow> bool \<Rightarrow> bool \<Rightarrow> flags" where
  "flags_update f result carry ovf =
     (let masked = result AND WORD_MASK
      in f\<lparr>fl_zero := (masked = 0), fl_carry := carry,
           fl_neg := (shr masked (WORD_BITS - 1) \<noteq> 0), fl_ovf := ovf\<rparr>)"

section \<open>Register file\<close>

record regfile =
  rf_regs :: "int list"
  rf_flags :: flags

definition rf_init :: regfile where
  "rf_init = \<lparr>rf_regs = replicate (nat NUM_REGISTERS) 0, rf_flags = flags_init\<rparr>"

definition rf_check :: "int \<Rightarrow> bool" where
  "rf_check index \<longleftrightarrow> 0 \<le> index \<and> index < NUM_REGISTERS"

definition rf_get :: "regfile \<Rightarrow> int \<Rightarrow> int" where
  "rf_get rf index = rf_regs rf ! nat index"

definition rf_set :: "regfile \<Rightarrow> int \<Rightarrow> int \<Rightarrow> regfile" where
  "rf_set rf index value =
     (if index = ZERO_REG then rf
      else rf\<lparr>rf_regs := (rf_regs rf)[nat index := value AND WORD_MASK]\<rparr>)"

definition rf_getitem :: "regfile \<Rightarrow> int \<Rightarrow> py_error + int" where
  "rf_getitem rf index = (if rf_check index then Inr (rf_get rf index) else Inl IndexError)"

definition rf_setitem :: "regfile \<Rightarrow> int \<Rightarrow> int \<Rightarrow> py_error + regfile" where
  "rf_setitem rf index value =
     (if rf_check index then Inr (rf_set rf index value) else Inl IndexError)"

definition rf_reset :: "regfile \<Rightarrow> regfile" where
  "rf_reset rf = rf\<lparr>rf_regs := replicate (nat NUM_REGISTERS) 0, rf_flags := flags_init\<rparr>"

definition rf_update_flags :: "regfile \<Rightarrow> int \<Rightarrow> bool \<Rightarrow> bool \<Rightarrow> regfile" where
  "rf_update_flags rf result carry ovf =
     rf\<lparr>rf_flags := flags_update (rf_flags rf) result carry ovf\<rparr>"

section \<open>Well-formed register files\<close>

definition rf_wf :: "regfile \<Rightarrow> bool" where
  "rf_wf rf \<longleftrightarrow> length (rf_regs rf) = 32 \<and> list_all u32 (rf_regs rf) \<and> rf_regs rf ! 0 = 0"

lemma rf_check_iff: "rf_check i \<longleftrightarrow> reg_index i"
  by (simp add: rf_check_def reg_index_def isa_consts)

lemma rf_wf_init: "rf_wf rf_init"
  by (simp add: rf_wf_def rf_init_def isa_consts wf_simps)

lemma rf_wf_reset: "rf_wf (rf_reset rf)"
  by (simp add: rf_wf_def rf_reset_def isa_consts wf_simps)

lemma rf_wf_set: "rf_wf rf \<Longrightarrow> reg_index i \<Longrightarrow> rf_wf (rf_set rf i v)"
  by (auto simp: rf_wf_def rf_set_def isa_consts reg_index_def nth_list_update
      intro!: list_all_update)

lemma rf_wf_flags [simp]: "rf_wf (rf_update_flags rf r c ov) = rf_wf rf"
  by (simp add: rf_wf_def rf_update_flags_def)

lemma rf_get_u32: "rf_wf rf \<Longrightarrow> reg_index i \<Longrightarrow> u32 (rf_get rf i)"
  by (auto simp: rf_wf_def rf_get_def reg_index_def list_all_length)

lemma rf_get_zero: "rf_wf rf \<Longrightarrow> rf_get rf 0 = 0"
  by (simp add: rf_wf_def rf_get_def)

lemma rf_get_set:
  "rf_wf rf \<Longrightarrow> reg_index i \<Longrightarrow> reg_index j \<Longrightarrow>
   rf_get (rf_set rf i v) j = (if i = j \<and> i \<noteq> 0 then v AND WORD_MASK else rf_get rf j)"
  by (auto simp: rf_wf_def rf_get_def rf_set_def reg_index_def isa_consts nth_list_update)

lemma rf_get_flags [simp]: "rf_get (rf_update_flags rf r c ov) i = rf_get rf i"
  by (simp add: rf_get_def rf_update_flags_def)

lemma rf_set_zero [simp]: "rf_set rf 0 v = rf"
  by (simp add: rf_set_def isa_consts)

section \<open>The interface the pipeline uses\<close>

text \<open>
  What the stages rely on: reading back a write, R0, 32-bit values, and the invariant.  The
  client lemmas describe retiring a sequence of register writes, the specification of the
  forwarding paths.
\<close>

locale register_bank =
  fixes get :: "'r \<Rightarrow> int \<Rightarrow> int"
    and set_reg :: "'r \<Rightarrow> int \<Rightarrow> int \<Rightarrow> 'r"
    and inv :: "'r \<Rightarrow> bool"
  assumes inv_set: "inv r \<Longrightarrow> reg_index i \<Longrightarrow> inv (set_reg r i v)"
    and get_zero: "inv r \<Longrightarrow> get r 0 = 0"
    and get_u32: "inv r \<Longrightarrow> reg_index i \<Longrightarrow> u32 (get r i)"
    and get_set: "inv r \<Longrightarrow> reg_index i \<Longrightarrow> reg_index j \<Longrightarrow>
       get (set_reg r i v) j = (if i = j \<and> i \<noteq> 0 then v AND 0xFFFFFFFF else get r j)"
begin

lemma inv_foldl:
  "inv r \<Longrightarrow> \<forall>(i, v) \<in> set ws. reg_index i \<Longrightarrow> inv (foldl (\<lambda>r (i, v). set_reg r i v) r ws)"
  by (induction ws arbitrary: r) (auto simp: inv_set split: prod.split)

lemma zero_foldl:
  "inv r \<Longrightarrow> \<forall>(i, v) \<in> set ws. reg_index i \<Longrightarrow> get (foldl (\<lambda>r (i, v). set_reg r i v) r ws) 0 = 0"
  by (rule get_zero) (rule inv_foldl)

text \<open>Of two writes in program order, a reader sees the younger one first.\<close>

lemma get_set_set:
  assumes "inv r" "reg_index i" "reg_index j" "reg_index k" "u32 v" "u32 w"
  shows "get (set_reg (set_reg r i v) j w) k =
     (if j = k \<and> j \<noteq> 0 then w else if i = k \<and> i \<noteq> 0 then v else get r k)"
  using assms by (simp add: get_set inv_set u32_mask_id)

lemma get_set_same: "inv r \<Longrightarrow> reg_index i \<Longrightarrow> i \<noteq> 0 \<Longrightarrow> u32 v \<Longrightarrow> get (set_reg r i v) i = v"
  by (simp add: get_set u32_mask_id)

end

interpretation rfile: register_bank rf_get rf_set rf_wf
  by unfold_locales (simp_all add: rf_wf_set rf_get_zero rf_get_u32 rf_get_set)

section \<open>Properties\<close>

text \<open>
  Property (register file).  Any sequence of \<^verbatim>\<open>rf[i] = v\<close> on a fresh bank either raises
  IndexError at the first index outside 0--31 or leaves a bank of 32 registers holding 32-bit
  values, with R0 still 0.
\<close>

fun rf_setitems :: "regfile \<Rightarrow> (int \<times> int) list \<Rightarrow> py_error + regfile" where
  "rf_setitems rf [] = Inr rf"
| "rf_setitems rf ((i, v) # ws) =
     (case rf_setitem rf i v of Inl e \<Rightarrow> Inl e | Inr rf' \<Rightarrow> rf_setitems rf' ws)"

lemma rf_setitems_wf: "rf_wf rf \<Longrightarrow> rf_setitems rf ws = Inr rf' \<Longrightarrow> rf_wf rf'"
  by (induction rf ws rule: rf_setitems.induct)
    (auto simp: rf_setitem_def rf_check_iff rf_wf_set split: if_splits)

lemma rf_setitems_raises: "rf_setitems rf ws = Inl e \<longleftrightarrow>
    e = IndexError \<and> (\<exists>w \<in> set ws. \<not> reg_index (fst w))"
  by (induction rf ws rule: rf_setitems.induct)
    (auto simp: rf_setitem_def rf_check_iff split: if_splits)

lemma flags_update_fields:
  "fl_zero (flags_update f r c ov) = (r AND 0xFFFFFFFF = 0)"
  "fl_carry (flags_update f r c ov) = c"
  "fl_neg (flags_update f r c ov) = (shr (r AND 0xFFFFFFFF) 31 \<noteq> 0)"
  "fl_ovf (flags_update f r c ov) = ov"
  by (simp_all add: flags_update_def Let_def isa_consts)

lemma shr31_sign: "u32 x \<Longrightarrow> shr x 31 \<noteq> 0 \<longleftrightarrow> 2 ^ 31 \<le> x"
  by (auto simp: u32_def drop_bit_eq_div)

end
