(* ===== verification/Control_Unit.thy ===== *)
theory Control_Unit
  imports Registers
begin

unbundle bit_operations_syntax

text \<open>
  \<^verbatim>\<open>cpu/control_unit.py\<close>: the control signals of an instruction word.  The opcode classes are
  the frozensets of the source; \<open>cu_decode\<close> is \<^verbatim>\<open>ControlUnit.decode\<close> with its chain of
  branches in order.
\<close>

section \<open>Signals\<close>

record control_signals =
  c_alu_src :: bool
  c_mem_read :: bool
  c_mem_write :: bool
  c_reg_write :: bool
  c_branch :: bool
  c_jump :: bool
  c_halt :: bool
  c_call :: bool
  c_ret :: bool
  c_is_nop :: bool
  c_push :: bool
  c_pop :: bool
  c_eret :: bool
  c_syscall :: bool
  c_mem_size :: int
  c_mem_signed :: bool

text \<open>The dataclass defaults, and \<^verbatim>\<open>ControlSignals(is_nop=True)\<close>.\<close>

definition ControlSignals :: control_signals where
  "ControlSignals =
     \<lparr>c_alu_src = False, c_mem_read = False, c_mem_write = False, c_reg_write = False,
      c_branch = False, c_jump = False, c_halt = False, c_call = False, c_ret = False,
      c_is_nop = False, c_push = False, c_pop = False, c_eret = False, c_syscall = False,
      c_mem_size = 2, c_mem_signed = True\<rparr>"

definition ctrl_nop :: control_signals where
  "ctrl_nop = ControlSignals\<lparr>c_is_nop := True\<rparr>"

section \<open>Opcode classes\<close>

definition LOADS :: "opcode list" where
  "LOADS = [Op_LW, Op_LH, Op_LHU, Op_LB, Op_LBU]"

definition STORES :: "opcode list" where
  "STORES = [Op_SW, Op_SH, Op_SB]"

definition BRANCHES :: "opcode list" where
  "BRANCHES = [Op_BEQ, Op_BNE, Op_BLT, Op_BGE, Op_BLTU, Op_BGEU]"

definition R_ALU :: "opcode list" where
  "R_ALU = [Op_ADD, Op_SUB, Op_MUL, Op_MULH, Op_DIV, Op_DIVU, Op_REM,
            Op_AND, Op_OR, Op_XOR, Op_NOT, Op_NEG, Op_SHL, Op_SHR, Op_SHRA,
            Op_SHLI, Op_SHRI, Op_SHRAI, Op_MOV, Op_SLT, Op_SLTU]"

definition I_ALU :: "opcode list" where
  "I_ALU = [Op_ADDI, Op_ANDI, Op_ORI, Op_XORI, Op_MOVI, Op_SLTI]"

definition JUMPS :: "opcode list" where
  "JUMPS = [Op_JMP, Op_JMPR]"

definition CALLS :: "opcode list" where
  "CALLS = [Op_CALL, Op_CALLR]"

definition CSR_OPS :: "opcode list" where
  "CSR_OPS = [Op_MFC, Op_MTC]"

lemmas opcode_classes =
  LOADS_def STORES_def BRANCHES_def R_ALU_def I_ALU_def JUMPS_def CALLS_def CSR_OPS_def

section \<open>Decoding to control signals\<close>

definition cu_signals :: "opcode \<Rightarrow> control_signals" where
  "cu_signals opcode =
     (let ctrl = ControlSignals
      in if opcode \<in> set R_ALU then ctrl\<lparr>c_reg_write := True\<rparr>
         else if opcode \<in> set I_ALU then ctrl\<lparr>c_reg_write := True, c_alu_src := True\<rparr>
         else if opcode = Op_MOVHI then ctrl\<lparr>c_reg_write := True, c_alu_src := True\<rparr>
         else if opcode \<in> set LOADS then
           (let ctrl = ctrl\<lparr>c_mem_read := True, c_reg_write := True, c_alu_src := True\<rparr>
            in if opcode = Op_LB then ctrl\<lparr>c_mem_size := 0, c_mem_signed := True\<rparr>
               else if opcode = Op_LBU then ctrl\<lparr>c_mem_size := 0, c_mem_signed := False\<rparr>
               else if opcode = Op_LH then ctrl\<lparr>c_mem_size := 1, c_mem_signed := True\<rparr>
               else if opcode = Op_LHU then ctrl\<lparr>c_mem_size := 1, c_mem_signed := False\<rparr>
               else ctrl\<lparr>c_mem_size := 2, c_mem_signed := True\<rparr>)
         else if opcode \<in> set STORES then
           (let ctrl = ctrl\<lparr>c_mem_write := True, c_alu_src := True\<rparr>
            in if opcode = Op_SB then ctrl\<lparr>c_mem_size := 0\<rparr>
               else if opcode = Op_SH then ctrl\<lparr>c_mem_size := 1\<rparr>
               else ctrl\<lparr>c_mem_size := 2\<rparr>)
         else if opcode \<in> set BRANCHES then ctrl\<lparr>c_branch := True\<rparr>
         else if opcode \<in> set JUMPS then
           (let ctrl = ctrl\<lparr>c_jump := True\<rparr>
            in if opcode = Op_JMPR then ctrl\<lparr>c_alu_src := True\<rparr> else ctrl)
         else if opcode \<in> set CALLS then
           (let ctrl = ctrl\<lparr>c_jump := True, c_call := True, c_reg_write := True\<rparr>
            in if opcode = Op_CALLR then ctrl\<lparr>c_alu_src := False\<rparr> else ctrl)
         else if opcode = Op_RET then ctrl\<lparr>c_ret := True, c_jump := True\<rparr>
         else if opcode = Op_PUSH then ctrl\<lparr>c_mem_write := True, c_push := True\<rparr>
         else if opcode = Op_POP then
           ctrl\<lparr>c_mem_read := True, c_reg_write := True, c_pop := True\<rparr>
         else if opcode = Op_HLT then ctrl\<lparr>c_halt := True\<rparr>
         else if opcode = Op_NOP then ctrl\<lparr>c_is_nop := True\<rparr>
         else if opcode = Op_SYSCALL then ctrl\<lparr>c_syscall := True\<rparr>
         else if opcode = Op_ERET then ctrl\<lparr>c_eret := True, c_jump := True\<rparr>
         else if opcode \<in> set CSR_OPS then
           (let ctrl = (if opcode = Op_MFC then ctrl\<lparr>c_reg_write := True\<rparr> else ctrl)
            in ctrl\<lparr>c_alu_src := True\<rparr>)
         else if opcode = Op_FENCE then ctrl\<lparr>c_is_nop := True\<rparr>
         else if opcode = Op_BREAK then ctrl\<lparr>c_syscall := True\<rparr>
         else ctrl)"

definition cu_decode :: "int \<Rightarrow> control_signals" where
  "cu_decode word =
     (if word = NOP_WORD \<or> word = 0 then ctrl_nop
      else case d_opcode (decode word) of
             None \<Rightarrow> ctrl_nop
           | Some opcode \<Rightarrow> cu_signals opcode)"

section \<open>Properties of the signals\<close>

lemmas ctrl_defs = ControlSignals_def ctrl_nop_def

text \<open>What every set of control signals the unit can emit satisfies.\<close>

definition ctrl_ok :: "control_signals \<Rightarrow> bool" where
  "ctrl_ok c \<longleftrightarrow>
     c_mem_size c \<in> {0, 1, 2}
     \<and> \<not> (c_mem_read c \<and> c_mem_write c)
     \<and> \<not> (c_reg_write c \<and> (c_mem_write c \<or> c_branch c \<or> c_halt c \<or> c_is_nop c \<or> c_ret c
            \<or> c_eret c \<or> c_syscall c))
     \<and> (c_mem_read c \<longrightarrow> c_reg_write c)
     \<and> (c_push c \<longrightarrow> c_mem_write c) \<and> (c_pop c \<longrightarrow> c_mem_read c)
     \<and> (c_call c \<longrightarrow> c_jump c \<and> c_reg_write c) \<and> (c_ret c \<longrightarrow> c_jump c)
     \<and> (c_is_nop c \<longrightarrow> \<not> c_jump c \<and> \<not> c_mem_read c \<and> \<not> c_mem_write c \<and> \<not> c_halt c)
     \<and> (c_jump c \<longrightarrow> \<not> c_mem_read c \<and> \<not> c_mem_write c \<and> \<not> c_branch c \<and> \<not> c_halt c \<and> \<not> c_syscall c)
     \<and> (c_halt c \<longrightarrow> \<not> c_mem_read c \<and> \<not> c_mem_write c \<and> \<not> c_branch c \<and> \<not> c_syscall c \<and> \<not> c_eret c)"

lemma ctrl_ok_default [simp]: "ctrl_ok ControlSignals" "ctrl_ok ctrl_nop"
  by (simp_all add: ctrl_ok_def ctrl_defs)

lemma ctrl_ok_signals: "ctrl_ok (cu_signals opc)"
  by (cases opc) (simp_all add: cu_signals_def ctrl_ok_def opcode_classes ctrl_defs Let_def)

lemma ctrl_ok_decode: "ctrl_ok (cu_decode w)"
  by (simp add: cu_decode_def ctrl_ok_signals split: option.split)

end
