(* ===== verification/Pipeline.thy ===== *)
theory Pipeline
  imports Control_Unit
begin

unbundle bit_operations_syntax

text \<open>
  \<^verbatim>\<open>cpu/pipeline.py\<close>: the four inter-stage registers with their \<^verbatim>\<open>flush\<close> methods, the hazard
  unit and the forwarding unit.  The Python objects are mutated in place; here a stage returns
  the updated record.  (A \<^verbatim>\<open>ControlSignals\<close> object is shared between latches but never mutated
  after it is built, so sharing is not observable.)
\<close>

section \<open>Inter-stage registers\<close>

record ifid_reg =
  if_instruction :: int
  if_pc_plus1 :: int
  if_valid :: bool

record idex_reg =
  id_opcode :: opcode
  id_fmt :: inst_fmt
  id_ctrl :: control_signals
  id_rs1_val :: int
  id_rs2_val :: int
  id_rd :: int
  id_rs1 :: int
  id_rs2 :: int
  id_shamt :: int
  id_addr :: int
  id_offset :: int
  id_pc_plus1 :: int
  id_valid :: bool

record exmem_reg =
  ex_ctrl :: control_signals
  ex_alu_result :: int
  ex_rs2_val :: int
  ex_rd :: int
  ex_mem_addr :: int
  ex_jump_pc :: int
  ex_take_jump :: bool
  ex_valid :: bool

record memwb_reg =
  wb_ctrl :: control_signals
  wb_alu_result :: int
  wb_mem_data :: int
  wb_rd :: int
  wb_valid :: bool

definition ifid_init :: ifid_reg where
  "ifid_init = \<lparr>if_instruction = NOP_WORD, if_pc_plus1 = 0, if_valid = False\<rparr>"

definition idex_init :: idex_reg where
  "idex_init =
     \<lparr>id_opcode = Op_HLT, id_fmt = Fmt_J, id_ctrl = ControlSignals, id_rs1_val = 0,
      id_rs2_val = 0, id_rd = 0, id_rs1 = 0, id_rs2 = 0, id_shamt = 0, id_addr = 0,
      id_offset = 0, id_pc_plus1 = 0, id_valid = False\<rparr>"

definition exmem_init :: exmem_reg where
  "exmem_init =
     \<lparr>ex_ctrl = ControlSignals, ex_alu_result = 0, ex_rs2_val = 0, ex_rd = 0, ex_mem_addr = 0,
      ex_jump_pc = 0, ex_take_jump = False, ex_valid = False\<rparr>"

definition memwb_init :: memwb_reg where
  "memwb_init =
     \<lparr>wb_ctrl = ControlSignals, wb_alu_result = 0, wb_mem_data = 0, wb_rd = 0, wb_valid = False\<rparr>"

definition ifid_flush :: "ifid_reg \<Rightarrow> ifid_reg" where
  "ifid_flush r = r\<lparr>if_instruction := NOP_WORD, if_valid := False\<rparr>"

definition idex_flush :: "idex_reg \<Rightarrow> idex_reg" where
  "idex_flush r = r\<lparr>id_ctrl := ctrl_nop, id_fmt := Fmt_J, id_valid := False, id_rd := 0\<rparr>"

definition exmem_flush :: "exmem_reg \<Rightarrow> exmem_reg" where
  "exmem_flush r = r\<lparr>ex_ctrl := ctrl_nop, ex_take_jump := False, ex_valid := False, ex_rd := 0\<rparr>"

definition memwb_flush :: "memwb_reg \<Rightarrow> memwb_reg" where
  "memwb_flush r = r\<lparr>wb_ctrl := ctrl_nop, wb_valid := False, wb_rd := 0\<rparr>"

section \<open>Hazard unit\<close>

definition detect_load_use :: "idex_reg \<Rightarrow> ifid_reg \<Rightarrow> bool" where
  "detect_load_use idex ifid =
     (if \<not> id_valid idex \<or> \<not> c_mem_read (id_ctrl idex) \<or> c_pop (id_ctrl idex) then False
      else let next_word = if_instruction ifid;
               next_rs1 = shr next_word 16 AND 0x1F;
               next_rs2 = shr next_word 11 AND 0x1F
           in if id_rd idex = ZERO_REG then False
              else id_rd idex = next_rs1 \<or> id_rd idex = next_rs2)"

section \<open>Forwarding unit\<close>

definition fwd_calc :: "idex_reg \<Rightarrow> exmem_reg \<Rightarrow> memwb_reg \<Rightarrow> nat \<times> nat" where
  "fwd_calc idex exmem memwb =
     (let em = ex_valid exmem \<and> c_reg_write (ex_ctrl exmem) \<and> ex_rd exmem \<noteq> ZERO_REG;
          fwd_a = (if em \<and> ex_rd exmem = id_rs1 idex then 2 else 0);
          fwd_b = (if em \<and> ex_rd exmem = id_rs2 idex then 2 else 0);
          mw = wb_valid memwb \<and> c_reg_write (wb_ctrl memwb) \<and> wb_rd memwb \<noteq> ZERO_REG;
          fwd_a = (if mw \<and> wb_rd memwb = id_rs1 idex \<and> fwd_a = 0 then 1 else fwd_a);
          fwd_b = (if mw \<and> wb_rd memwb = id_rs2 idex \<and> fwd_b = 0 then 1 else fwd_b)
      in (fwd_a, fwd_b))"

definition pick_wb :: "memwb_reg \<Rightarrow> int" where
  "pick_wb mwb = (if c_mem_read (wb_ctrl mwb) then wb_mem_data mwb else wb_alu_result mwb)"

definition fwd_resolve :: "nat \<Rightarrow> nat \<Rightarrow> idex_reg \<Rightarrow> exmem_reg \<Rightarrow> memwb_reg \<Rightarrow> int \<times> int" where
  "fwd_resolve fwd_a fwd_b idex exmem memwb =
     (let a = (if fwd_a = 2 then ex_alu_result exmem
               else if fwd_a = 1 then pick_wb memwb else id_rs1_val idex);
          b = (if fwd_b = 2 then ex_alu_result exmem
               else if fwd_b = 1 then pick_wb memwb else id_rs2_val idex)
      in (a AND WORD_MASK, b AND WORD_MASK))"

definition fwd_operands :: "idex_reg \<Rightarrow> exmem_reg \<Rightarrow> memwb_reg \<Rightarrow> int \<times> int" where
  "fwd_operands idex exmem memwb =
     (let (fwd_a, fwd_b) = fwd_calc idex exmem memwb
      in fwd_resolve fwd_a fwd_b idex exmem memwb)"

section \<open>Specification of forwarding: the pending writes\<close>

text \<open>
  The register file an instruction in EX should see is the one in which the two older
  instructions have retired: first the one in MEM/WB, then the one in EX/MEM.
\<close>

definition retire_memwb :: "memwb_reg \<Rightarrow> regfile \<Rightarrow> regfile" where
  "retire_memwb m rf =
     (if wb_valid m \<and> c_reg_write (wb_ctrl m) then rf_set rf (wb_rd m) (pick_wb m) else rf)"

definition retire_exmem :: "exmem_reg \<Rightarrow> regfile \<Rightarrow> regfile" where
  "retire_exmem e rf =
     (if ex_valid e \<and> c_reg_write (ex_ctrl e) then rf_set rf (ex_rd e) (ex_alu_result e) else rf)"

lemma rf_wf_retire:
  "rf_wf rf \<Longrightarrow> reg_index (wb_rd m) \<Longrightarrow> rf_wf (retire_memwb m rf)"
  "rf_wf rf \<Longrightarrow> reg_index (ex_rd e) \<Longrightarrow> rf_wf (retire_exmem e rf)"
  by (simp_all add: retire_memwb_def retire_exmem_def rfile.inv_set)

lemma rf_get_retire_memwb:
  "rf_wf rf \<Longrightarrow> reg_index (wb_rd m) \<Longrightarrow> reg_index k \<Longrightarrow>
   rf_get (retire_memwb m rf) k =
     (if wb_valid m \<and> c_reg_write (wb_ctrl m) \<and> wb_rd m = k \<and> k \<noteq> 0
      then pick_wb m AND 0xFFFFFFFF else rf_get rf k)"
  by (auto simp: retire_memwb_def rfile.get_set)

lemma rf_get_retire_exmem:
  "rf_wf rf \<Longrightarrow> reg_index (ex_rd e) \<Longrightarrow> reg_index k \<Longrightarrow>
   rf_get (retire_exmem e rf) k =
     (if ex_valid e \<and> c_reg_write (ex_ctrl e) \<and> ex_rd e = k \<and> k \<noteq> 0
      then ex_alu_result e AND 0xFFFFFFFF else rf_get rf k)"
  by (auto simp: retire_exmem_def rfile.get_set)

lemma fwd_operands_cases:
  "fst (fwd_operands ide e m) =
     (if ex_valid e \<and> c_reg_write (ex_ctrl e) \<and> ex_rd e \<noteq> 0 \<and> ex_rd e = id_rs1 ide then ex_alu_result e
      else if wb_valid m \<and> c_reg_write (wb_ctrl m) \<and> wb_rd m \<noteq> 0 \<and> wb_rd m = id_rs1 ide then pick_wb m
      else id_rs1_val ide) AND 0xFFFFFFFF"
  "snd (fwd_operands ide e m) =
     (if ex_valid e \<and> c_reg_write (ex_ctrl e) \<and> ex_rd e \<noteq> 0 \<and> ex_rd e = id_rs2 ide then ex_alu_result e
      else if wb_valid m \<and> c_reg_write (wb_ctrl m) \<and> wb_rd m \<noteq> 0 \<and> wb_rd m = id_rs2 ide then pick_wb m
      else id_rs2_val ide) AND 0xFFFFFFFF"
  by (auto simp: fwd_operands_def fwd_calc_def fwd_resolve_def Let_def isa_consts)

lemma fwd_operand_a_retired:
  assumes "rf_wf rf" "reg_index (id_rs1 ide)" "reg_index (ex_rd e)" "reg_index (wb_rd m)"
    and "id_rs1_val ide = rf_get rf (id_rs1 ide)"
  shows "fst (fwd_operands ide e m) = rf_get (retire_exmem e (retire_memwb m rf)) (id_rs1 ide)"
  using assms rfile.get_u32 [of rf "id_rs1 ide"]
  by (simp add: fwd_operands_cases rf_get_retire_exmem rf_get_retire_memwb rf_wf_retire u32_mask_id
      cong: conj_cong)

lemma fwd_operand_b_retired:
  assumes "rf_wf rf" "reg_index (id_rs2 ide)" "reg_index (ex_rd e)" "reg_index (wb_rd m)"
    and "id_rs2_val ide = rf_get rf (id_rs2 ide)"
  shows "snd (fwd_operands ide e m) = rf_get (retire_exmem e (retire_memwb m rf)) (id_rs2 ide)"
  using assms rfile.get_u32 [of rf "id_rs2 ide"]
  by (simp add: fwd_operands_cases rf_get_retire_exmem rf_get_retire_memwb rf_wf_retire u32_mask_id
      cong: conj_cong)

text \<open>An operand that is not a register (index 0 with a prepared immediate) is never replaced.\<close>

lemma fwd_operand_b_imm: "id_rs2 ide = 0 \<Longrightarrow> snd (fwd_operands ide e m) = id_rs2_val ide AND 0xFFFFFFFF"
  by (simp add: fwd_operands_cases)

lemma fwd_operand_a_imm: "id_rs1 ide = 0 \<Longrightarrow> fst (fwd_operands ide e m) = id_rs1_val ide AND 0xFFFFFFFF"
  by (simp add: fwd_operands_cases)

lemma fwd_operands_u32: "u32 (fst (fwd_operands ide e m))" "u32 (snd (fwd_operands ide e m))"
  by (simp_all add: fwd_operands_cases)

section \<open>What the hazard check covers\<close>

text \<open>The register operands of a decoded instruction, as the ID stage reads them.\<close>

fun source_regs :: "decoded \<Rightarrow> int list" where
  "source_regs (D_R opc rd rs1 rs2 sh) = [rs1, rs2]"
| "source_regs (D_I opc rd rs1 imm) = [rs1]"
| "source_regs (D_S opc rs2 rs1 off) = [rs2, rs1]"
| "source_regs (D_B opc rs1 rs2 off) = [rs1, rs2]"
| "source_regs _ = []"

definition load_in_ex :: "idex_reg \<Rightarrow> bool" where
  "load_in_ex idex \<longleftrightarrow> id_valid idex \<and> c_mem_read (id_ctrl idex) \<and> \<not> c_pop (id_ctrl idex) \<and> id_rd idex \<noteq> 0"

lemma detect_load_use_iff:
  "detect_load_use idex ifid \<longleftrightarrow> load_in_ex idex \<and>
     (id_rd idex = shr (if_instruction ifid) 16 AND 0x1F \<or> id_rd idex = shr (if_instruction ifid) 11 AND 0x1F)"
  by (auto simp: detect_load_use_def load_in_ex_def Let_def isa_consts)

lemma load_use_complete_R:
  "load_in_ex idex \<Longrightarrow> decode (if_instruction ifid) = D_R opc rd rs1 rs2 sh \<Longrightarrow>
   id_rd idex \<in> set (source_regs (decode (if_instruction ifid))) \<Longrightarrow> detect_load_use idex ifid"
  by (frule decode_R_fields) (auto simp: detect_load_use_iff)

lemma load_use_complete_I:
  "load_in_ex idex \<Longrightarrow> decode (if_instruction ifid) = D_I opc rd rs1 imm \<Longrightarrow>
   id_rd idex \<in> set (source_regs (decode (if_instruction ifid))) \<Longrightarrow> detect_load_use idex ifid"
  by (frule decode_I_fields) (auto simp: detect_load_use_iff)

text \<open>Stores and branches: the field in bits 25--21 is not looked at.\<close>

lemma load_use_S_iff:
  "decode (if_instruction ifid) = D_S opc rs2 rs1 off \<Longrightarrow>
   detect_load_use idex ifid \<longleftrightarrow>
     load_in_ex idex \<and> (id_rd idex = rs1 \<or> id_rd idex = shr (if_instruction ifid) 11 AND 0x1F)"
  by (drule decode_S_fields) (auto simp: detect_load_use_iff)

lemma load_use_B_iff:
  "decode (if_instruction ifid) = D_B opc rs1 rs2 off \<Longrightarrow>
   detect_load_use idex ifid \<longleftrightarrow>
     load_in_ex idex \<and> (id_rd idex = rs2 \<or> id_rd idex = shr (if_instruction ifid) 11 AND 0x1F)"
  by (drule decode_B_fields) (auto simp: detect_load_use_iff)

end
