(* ===== verification/ALU.thy ===== *)
theory ALU
  imports Registers "HOL-Library.Signed_Division"
begin

unbundle bit_operations_syntax

text \<open>
  \<^verbatim>\<open>cpu/alu.py\<close>: the arithmetic-logic unit.  \<open>alu_execute\<close> is \<^verbatim>\<open>ALU.execute\<close>, branch by
  branch, on Python integers; \<open>alu_word\<close> is its specification on \<^typ>\<open>32 word\<close>, and
  \<open>alu_execute_refines\<close> relates the two for every opcode.  The signed division goes through a
  binary64 quotient (\<^verbatim>\<open>int(sa / sb)\<close>); \<open>py_truediv_int\<close> models that rounding, and
  \<open>py_truediv_int_exact\<close> shows that it never changes the truncated quotient of 32-bit operands.
\<close>

section \<open>Results\<close>

record alu_result =
  ar_value :: int
  ar_carry :: bool
  ar_ovf :: bool

definition ALUResult :: "int \<Rightarrow> bool \<Rightarrow> bool \<Rightarrow> alu_result" where
  "ALUResult value carry ovf =
     \<lparr>ar_value = value AND WORD_MASK, ar_carry = carry, ar_ovf = ovf\<rparr>"

definition SIGN_BIT :: int where
  "SIGN_BIT = shl 1 (WORD_BITS - 1)"

definition to_signed :: "int \<Rightarrow> int" where
  "to_signed v =
     (let v = v AND WORD_MASK in if v < SIGN_BIT then v else v - shl 1 WORD_BITS)"

section \<open>Python's true division, truncated\<close>

text \<open>
  For integers, Python's \<^verbatim>\<open>a / b\<close> is the binary64 number nearest to the quotient, ties to even,
  and \<^verbatim>\<open>int(.)\<close> truncates it.  \<open>fquot n d\<close> computes the 53-bit significand and the scale of
  \<open>n / d\<close> for positive operands: the significand is \<open>n \<cdot> 2\<^sup>s / d\<close> rounded half to even.
  (Exponents stay far from the limits of the format for operands of the sizes used here.)
\<close>

fun bit_length :: "nat \<Rightarrow> nat" where
  "bit_length n = (if n = 0 then 0 else Suc (bit_length (n div 2)))"

declare bit_length.simps [simp del]

definition round_half_even :: "nat \<Rightarrow> nat \<Rightarrow> nat" where
  "round_half_even n d =
     (let q = n div d; r = n mod d
      in if 2 * r < d \<or> (2 * r = d \<and> even q) then q else Suc q)"

definition fquot_scale :: "nat \<Rightarrow> nat \<Rightarrow> nat" where
  "fquot_scale n d =
     (let s = 53 + bit_length d - bit_length n
      in if 2 ^ 53 \<le> n * 2 ^ s div d then s - 1 else s)"

definition py_truediv_int :: "int \<Rightarrow> int \<Rightarrow> int" where
  "py_truediv_int a b =
     (let n = nat \<bar>a\<bar>; d = nat \<bar>b\<bar>; s = fquot_scale n d;
          m = round_half_even (n * 2 ^ s) d
      in sgn a * sgn b * int (m div 2 ^ s))"

section \<open>Operations\<close>

definition alu_add :: "int \<Rightarrow> int \<Rightarrow> alu_result" where
  "alu_add a b =
     (let raw = a + b;
          carry = raw > WORD_MASK;
          sa = (a AND SIGN_BIT \<noteq> 0); sb = (b AND SIGN_BIT \<noteq> 0);
          sr = ((raw AND WORD_MASK) AND SIGN_BIT \<noteq> 0);
          ovf = (sa = sb \<and> sr \<noteq> sa)
      in ALUResult raw carry ovf)"

definition alu_sub :: "int \<Rightarrow> int \<Rightarrow> alu_result" where
  "alu_sub a b =
     (let raw = a - b;
          carry = raw < 0;
          sa = (a AND SIGN_BIT \<noteq> 0); sb = (b AND SIGN_BIT \<noteq> 0);
          sr = ((raw AND WORD_MASK) AND SIGN_BIT \<noteq> 0);
          ovf = (sa \<noteq> sb \<and> sr \<noteq> sa)
      in ALUResult raw carry ovf)"

definition alu_div_signed :: "int \<Rightarrow> int \<Rightarrow> alu_result" where
  "alu_div_signed a b =
     (if b = 0 then ALUResult WORD_MASK True False
      else ALUResult (py_truediv_int (to_signed a) (to_signed b)) False False)"

definition alu_div_unsigned :: "int \<Rightarrow> int \<Rightarrow> alu_result" where
  "alu_div_unsigned a b =
     (if b = 0 then ALUResult WORD_MASK True False else ALUResult (a div b) False False)"

definition alu_rem_signed :: "int \<Rightarrow> int \<Rightarrow> alu_result" where
  "alu_rem_signed a b =
     (if b = 0 then ALUResult a False False
      else let sa = to_signed a; sb = to_signed b
           in ALUResult (sa - py_truediv_int sa sb * sb) False False)"

definition alu_mul :: "int \<Rightarrow> int \<Rightarrow> alu_result" where
  "alu_mul a b =
     (let raw = (to_signed a * to_signed b) AND (shl 1 64 - 1)
      in ALUResult raw (shr raw 32 \<noteq> 0) False)"

definition alu_mulh :: "int \<Rightarrow> int \<Rightarrow> alu_result" where
  "alu_mulh a b =
     (let raw = to_signed a * to_signed b
      in ALUResult (shr raw 32 AND WORD_MASK) False False)"

definition alu_execute :: "opcode \<Rightarrow> int \<Rightarrow> int \<Rightarrow> alu_result" where
  "alu_execute opcode a0 b0 =
     (let a = a0 AND WORD_MASK; b = b0 AND WORD_MASK
      in case opcode of
           Op_ADD \<Rightarrow> alu_add a b
         | Op_ADDI \<Rightarrow> alu_add a b
         | Op_SUB \<Rightarrow> alu_sub a b
         | Op_MUL \<Rightarrow> alu_mul a b
         | Op_MULH \<Rightarrow> alu_mulh a b
         | Op_DIV \<Rightarrow> alu_div_signed a b
         | Op_DIVU \<Rightarrow> alu_div_unsigned a b
         | Op_REM \<Rightarrow> alu_rem_signed a b
         | Op_AND \<Rightarrow> ALUResult (a AND b) False False
         | Op_ANDI \<Rightarrow> ALUResult (a AND b) False False
         | Op_OR \<Rightarrow> ALUResult (a OR b) False False
         | Op_ORI \<Rightarrow> ALUResult (a OR b) False False
         | Op_XOR \<Rightarrow> ALUResult (a XOR b) False False
         | Op_XORI \<Rightarrow> ALUResult (a XOR b) False False
         | Op_NOT \<Rightarrow> ALUResult (NOT a) False False
         | Op_NEG \<Rightarrow> alu_sub 0 a
         | Op_SHL \<Rightarrow> ALUResult (shl a (nat (b AND 0x1F))) False False
         | Op_SHLI \<Rightarrow> ALUResult (shl a (nat (b AND 0x1F))) False False
         | Op_SHR \<Rightarrow> ALUResult (shr a (nat (b AND 0x1F))) False False
         | Op_SHRI \<Rightarrow> ALUResult (shr a (nat (b AND 0x1F))) False False
         | Op_SHRA \<Rightarrow> ALUResult (shr (to_signed a) (nat (b AND 0x1F))) False False
         | Op_SHRAI \<Rightarrow> ALUResult (shr (to_signed a) (nat (b AND 0x1F))) False False
         | Op_MOV \<Rightarrow> ALUResult a False False
         | Op_MOVI \<Rightarrow> ALUResult b False False
         | Op_MOVHI \<Rightarrow> ALUResult (shl b 11) False False
         | Op_SLT \<Rightarrow> ALUResult (if to_signed a < to_signed b then 1 else 0) False False
         | Op_SLTI \<Rightarrow> ALUResult (if to_signed a < to_signed b then 1 else 0) False False
         | Op_SLTU \<Rightarrow> ALUResult (if a < b then 1 else 0) False False
         | _ \<Rightarrow> ALUResult a False False)"

section \<open>Exactness of the truncated quotient\<close>

lemma bit_length_bounds: "0 < n \<Longrightarrow> 2 ^ (bit_length n - 1) \<le> n \<and> n < 2 ^ bit_length n \<and> 0 < bit_length n"
proof (induction n rule: bit_length.induct)
  case (1 n)
  show ?case
  proof (cases "n div 2 = 0")
    case True
    with "1.prems" have "n = 1" by linarith
    then show ?thesis by (simp add: bit_length.simps)
  next
    case False
    with "1.IH" "1.prems" have ih: "2 ^ (bit_length (n div 2) - 1) \<le> n div 2"
        "n div 2 < 2 ^ bit_length (n div 2)" "0 < bit_length (n div 2)"
      by auto
    have e: "bit_length n = Suc (bit_length (n div 2))"
      using "1.prems" by (subst bit_length.simps) simp
    have p: "2 * 2 ^ (bit_length (n div 2) - 1) = (2 :: nat) ^ bit_length (n div 2)"
      using ih(3) by (metis Suc_diff_1 power_Suc)
    have "2 ^ bit_length (n div 2) \<le> n"
      using ih(1) unfolding p [symmetric] by linarith
    moreover have "n < 2 * 2 ^ bit_length (n div 2)"
      using ih(2) by linarith
    ultimately show ?thesis
      unfolding e by simp
  qed
qed

lemma bit_length_le: "n < 2 ^ k \<Longrightarrow> bit_length n \<le> k"
proof (cases "n = 0")
  case True
  then show ?thesis by (simp add: bit_length.simps)
next
  case False
  assume "n < 2 ^ k"
  with bit_length_bounds [of n] False have "(2 :: nat) ^ (bit_length n - 1) < 2 ^ k"
    by (meson le_less_trans neq0_conv)
  then have "bit_length n - 1 < k"
    by simp
  then show ?thesis by simp
qed

lemma round_half_even_bounds:
  assumes d: "0 < d"
  shows "n div d \<le> round_half_even n d" and "2 * d * round_half_even n d \<le> 2 * n + d"
proof -
  define q r where "q = n div d" and "r = n mod d"
  have n: "n = d * q + r" and r: "r < d"
    using d by (simp_all add: q_def r_def)
  have m: "round_half_even n d = (if 2 * r < d \<or> (2 * r = d \<and> even q) then q else Suc q)"
    by (simp add: round_half_even_def Let_def q_def r_def)
  show "n div d \<le> round_half_even n d"
    using m by (simp add: q_def)
  show "2 * d * round_half_even n d \<le> 2 * n + d"
    unfolding m using n by (auto simp: algebra_simps)
qed

lemma round_trunc:
  assumes d: "0 < d" and s: "d \<le> 2 ^ s"
  shows "round_half_even (n * 2 ^ s) d div 2 ^ s = n div d"
proof -
  let ?m = "round_half_even (n * 2 ^ s) d"
  define q r where "q = n div d" and "r = n mod d"
  have n: "n = d * q + r" and r: "r < d"
    using d by (simp_all add: q_def r_def)
  have "d * (q * 2 ^ s) \<le> n * 2 ^ s"
    using n by (metis le_add1 mult.assoc mult_le_mono1)
  then have "q * 2 ^ s \<le> n * 2 ^ s div d"
    using d by (simp add: less_eq_div_iff_mult_less_eq mult.commute)
  then have lo: "q * 2 ^ s \<le> ?m"
    using round_half_even_bounds(1) [OF d] by (meson le_trans)
  have "2 * d * ?m \<le> 2 * (n * 2 ^ s) + d"
    using round_half_even_bounds(2) [OF d] .
  also have "\<dots> < 2 * d * (Suc q * 2 ^ s)"
  proof -
    have "n + 1 \<le> d * Suc q"
      using n r by simp
    then have "(n + 1) * 2 ^ s \<le> d * Suc q * 2 ^ s"
      by (rule mult_le_mono1)
    with s d show ?thesis
      by (simp add: algebra_simps)
  qed
  finally have hi: "?m < Suc q * 2 ^ s"
    using d by (simp add: mult.assoc)
  show ?thesis
    unfolding q_def [symmetric] using lo hi by (intro div_nat_eqI) (simp_all add: algebra_simps)
qed

lemma fquot_scale_large:
  assumes n: "n < 2 ^ 32"
  shows "d \<le> 2 ^ fquot_scale n d"
proof (cases "d = 0")
  case False
  have "bit_length n \<le> 32"
    using n by (rule bit_length_le)
  then have "bit_length d \<le> fquot_scale n d"
    by (auto simp: fquot_scale_def Let_def)
  with bit_length_bounds [of d] False show ?thesis
    by (meson le_less_trans less_imp_le neq0_conv one_le_numeral order_less_le_trans
        power_increasing)
qed simp

lemma py_truediv_int_exact: "\<bar>a\<bar> < 2 ^ 32 \<Longrightarrow> b \<noteq> 0 \<Longrightarrow> py_truediv_int a b = a sdiv b"
proof -
  assume a: "\<bar>a\<bar> < 2 ^ 32" and b: "b \<noteq> 0"
  have "nat \<bar>a\<bar> < 2 ^ 32"
    using a by simp
  then have "round_half_even (nat \<bar>a\<bar> * 2 ^ fquot_scale (nat \<bar>a\<bar>) (nat \<bar>b\<bar>)) (nat \<bar>b\<bar>)
      div 2 ^ fquot_scale (nat \<bar>a\<bar>) (nat \<bar>b\<bar>) = nat \<bar>a\<bar> div nat \<bar>b\<bar>"
    using b by (intro round_trunc fquot_scale_large) simp_all
  then have "int (round_half_even (nat \<bar>a\<bar> * 2 ^ fquot_scale (nat \<bar>a\<bar>) (nat \<bar>b\<bar>)) (nat \<bar>b\<bar>)
      div 2 ^ fquot_scale (nat \<bar>a\<bar>) (nat \<bar>b\<bar>)) = \<bar>a\<bar> div \<bar>b\<bar>"
    by (simp only: zdiv_int nat_0_le abs_ge_zero)
  then show ?thesis
    by (simp only: py_truediv_int_def Let_def signed_divide_int_def)
qed


section \<open>Specification on 32-bit words\<close>

text \<open>What each opcode computes, on machine words.\<close>

definition sdiv_word :: "32 word \<Rightarrow> 32 word \<Rightarrow> 32 word" where
  "sdiv_word x y = word_of_int (sint x sdiv sint y)"

definition smod_word :: "32 word \<Rightarrow> 32 word \<Rightarrow> 32 word" where
  "smod_word x y = word_of_int (sint x smod sint y)"

definition alu_word :: "opcode \<Rightarrow> 32 word \<Rightarrow> 32 word \<Rightarrow> 32 word" where
  "alu_word opc x y =
     (let k = unat (y AND 31)
      in case opc of
           Op_ADD \<Rightarrow> x + y
         | Op_ADDI \<Rightarrow> x + y
         | Op_SUB \<Rightarrow> x - y
         | Op_MUL \<Rightarrow> x * y
         | Op_MULH \<Rightarrow> word_of_int ((sint x * sint y) div 2 ^ 32)
         | Op_DIV \<Rightarrow> (if y = 0 then - 1 else sdiv_word x y)
         | Op_DIVU \<Rightarrow> (if y = 0 then - 1 else x div y)
         | Op_REM \<Rightarrow> (if y = 0 then x else smod_word x y)
         | Op_AND \<Rightarrow> x AND y
         | Op_ANDI \<Rightarrow> x AND y
         | Op_OR \<Rightarrow> x OR y
         | Op_ORI \<Rightarrow> x OR y
         | Op_XOR \<Rightarrow> x XOR y
         | Op_XORI \<Rightarrow> x XOR y
         | Op_NOT \<Rightarrow> NOT x
         | Op_NEG \<Rightarrow> - x
         | Op_SHL \<Rightarrow> push_bit k x
         | Op_SHLI \<Rightarrow> push_bit k x
         | Op_SHR \<Rightarrow> drop_bit k x
         | Op_SHRI \<Rightarrow> drop_bit k x
         | Op_SHRA \<Rightarrow> signed_drop_bit k x
         | Op_SHRAI \<Rightarrow> signed_drop_bit k x
         | Op_MOVI \<Rightarrow> y
         | Op_MOVHI \<Rightarrow> push_bit 11 y
         | Op_SLT \<Rightarrow> of_bool (sint x < sint y)
         | Op_SLTI \<Rightarrow> of_bool (sint x < sint y)
         | Op_SLTU \<Rightarrow> of_bool (x < y)
         | _ \<Rightarrow> x)"

section \<open>Refinement\<close>

text \<open>A 32-bit result is determined by the word it stands for.\<close>

lemma ar_value_word: "ar_value (ALUResult v c ov) = uint (word_of_int v :: 32 word)"
  by (simp add: ALUResult_def mask_bits uint_word_of_int_eq)

lemma uint_u32 [simp]: "u32 (uint (x :: 32 word))"
  using uint_bounded [of x] by (simp add: u32_def)

lemma uint_mask [simp]: "uint (x :: 32 word) AND 0xFFFFFFFF = uint x"
  by (rule u32_mask_id) simp

lemma u32_uint: "u32 x \<Longrightarrow> \<exists>w :: 32 word. x = uint w"
  by (rule exI [of _ "word_of_int x"]) (simp add: uint_word_of_int_eq u32_bits)

lemma bit31: "u32 v \<Longrightarrow> bit v 31 \<longleftrightarrow> 2 ^ 31 \<le> v"
proof -
  assume v: "u32 v"
  then have "v div 2 ^ 31 = 0 \<or> v div 2 ^ 31 = 1"
    by (auto simp: u32_def)
  with v show ?thesis
    by (auto simp: bit_iff_odd u32_def)
qed

lemma sint_uint31: "sint (x :: 32 word) = (if uint x < 2 ^ 31 then uint x else uint x - 2 ^ 32)"
proof -
  have "sint x = take_bit 32 (uint x) - 2 ^ 32 * of_bool (bit (uint x) 31)"
    by (simp add: sint_uint signed_take_bit_eq_take_bit_minus flip: numeral_eq_Suc)
  then show ?thesis
    using bit31 [of "uint x"] uint_u32 [of x] by (auto simp: u32_bits)
qed

lemma to_signed_uint [simp]: "to_signed (uint (x :: 32 word)) = sint x"
  by (simp add: to_signed_def Let_def SIGN_BIT_def isa_consts push_bit_eq_mult sint_uint31)

lemma sign_bit_u32: "u32 v \<Longrightarrow> v AND SIGN_BIT \<noteq> 0 \<longleftrightarrow> 2 ^ 31 \<le> v"
  using and_exp_eq_0_iff_not_bit [of v 31] bit31 [of v]
  by (simp add: SIGN_BIT_def isa_consts push_bit_eq_mult)

lemma sign_bit_uint: "(uint (x :: 32 word) AND SIGN_BIT \<noteq> 0) = (sint x < 0)"
  using sign_bit_u32 [of "uint x"] uint_u32 [of x] by (auto simp: sint_uint31 u32_def)


lemma sint_abs: "\<bar>sint (x :: 32 word)\<bar> < 2 ^ 32"
  using uint_u32 [of x] by (auto simp: sint_uint31 u32_def)

lemma uint_eq_0 [simp]: "uint (x :: 32 word) = 0 \<longleftrightarrow> x = 0"
  by (simp add: unsigned_eq_0_iff)

lemma sint_eq_0 [simp]: "sint (x :: 32 word) = 0 \<longleftrightarrow> x = 0"
  by (metis signed_0 signed_word_eqI)

lemma shift_amount: "nat (uint (y :: 32 word) AND 31) = unat (y AND 31)"
  by (simp add: unat_eq_nat_uint uint_and)

lemma word_of_int_shl: "word_of_int (shl (uint (x :: 32 word)) k) = push_bit k x"
  by (rule bit_word_eqI) (auto simp: bit_simps bit_word_of_int_iff)
lemma word_of_int_shr: "word_of_int (shr (uint (x :: 32 word)) k) = drop_bit k x"
  by (rule bit_word_eqI) (auto simp: bit_simps bit_word_of_int_iff)
lemma word_of_int_sshr: "word_of_int (shr (sint (x :: 32 word)) k) = signed_drop_bit k x"
proof (rule bit_word_eqI)
  fix n
  assume "n < LENGTH(32)"
  then show "bit (word_of_int (shr (sint x) k) :: 32 word) n = bit (signed_drop_bit k x) n"
    by (cases "k + n = 31") (auto simp: bit_simps bit_word_of_int_iff min_def not_le)
qed
lemma alu_div_word:
  "y \<noteq> 0 \<Longrightarrow> py_truediv_int (sint x) (sint (y :: 32 word)) = sint (x :: 32 word) sdiv sint y"
  using sint_abs [of x] by (intro py_truediv_int_exact) simp_all

lemma alu_rem_word:
  "y \<noteq> 0 \<Longrightarrow> sint x - py_truediv_int (sint x) (sint (y :: 32 word)) * sint y = sint (x :: 32 word) smod sint y"
  using minus_sdiv_mult_eq_smod [of "sint x" "sint y"] by (simp add: alu_div_word)

text \<open>Images of the integer operations under \<^const>\<open>word_of_int\<close>.\<close>

lemma word_of_int_bitop:
  "word_of_int (uint x AND uint y) = (x AND y :: 32 word)"
  "word_of_int (uint x OR uint y) = (x OR y :: 32 word)"
  "word_of_int (uint x XOR uint y) = (x XOR y :: 32 word)"
  "word_of_int (NOT (uint x)) = (NOT x :: 32 word)"
  by (rule bit_word_eqI; auto simp: bit_simps bit_word_of_int_iff)+

lemma word_of_int_trunc:
  "word_of_int (z AND 0xFFFFFFFFFFFFFFFF) = (word_of_int z :: 32 word)"
  "word_of_int (z AND 0xFFFFFFFF) = (word_of_int z :: 32 word)"
  unfolding mask_bits by (rule bit_word_eqI; auto simp: bit_simps bit_word_of_int_iff)+

lemma word_of_int_udiv: "word_of_int (uint x div uint y) = (x div y :: 32 word)"
  by (metis uint_div word_of_int_uint)

lemma uint_minus_1: "uint (- 1 :: 32 word) = 0xFFFFFFFF"
  by (simp add: unsigned_minus_1_eq_mask mask_eq_exp_minus_1)

lemma smod_word_alt: "smod_word x y = x - word_of_int (sint x sdiv sint y) * y"
  by (simp add: smod_word_def flip: minus_sdiv_mult_eq_smod)

lemmas alu_op_defs = alu_add_def alu_sub_def alu_mul_def alu_mulh_def alu_div_signed_def
  alu_div_unsigned_def alu_rem_signed_def

lemmas alu_word_simps = ar_value_word shift_amount word_of_int_shl word_of_int_shr word_of_int_sshr
  alu_div_word word_of_int_bitop word_of_int_trunc word_of_int_udiv uint_minus_1 smod_word_alt

lemma shr_32_div: "shr (z :: int) 32 = z div 4294967296"
  by (simp add: drop_bit_eq_div)

lemma alu_execute_word:
  "ar_value (alu_execute opc (uint x) (uint y)) = uint (alu_word opc x y)"
  by (cases opc)
    (simp_all add: alu_execute_def alu_word_def Let_def alu_op_defs alu_word_simps sdiv_word_def
      word_less_def shr_32_div)

lemma ar_value_u32: "u32 (ar_value (alu_execute opc a b))"
  by (cases opc) (simp_all add: alu_execute_def Let_def alu_op_defs ALUResult_def, simp_all add: u32_def)

lemma alu_execute_masked: "alu_execute opc (a AND 0xFFFFFFFF) (b AND 0xFFFFFFFF) = alu_execute opc a b"
  by (simp add: alu_execute_def mask_bits)

lemma wrap_high: "2 ^ 32 \<le> z \<Longrightarrow> z < 2 ^ 33 \<Longrightarrow> z AND 0xFFFFFFFF = z - 2 ^ 32" for z :: int
  using minus_mod_self2 [of z "2 ^ 32"] mod_pos_pos_trivial [of "z - 2 ^ 32" "2 ^ 32"]
  by (simp add: mask_bits take_bit_eq_mod)

lemma wrap_low: "z < 0 \<Longrightarrow> - (2 ^ 32) \<le> z \<Longrightarrow> z AND 0xFFFFFFFF = z + 2 ^ 32" for z :: int
  using mod_add_self2 [of z "2 ^ 32"] mod_pos_pos_trivial [of "z + 2 ^ 32" "2 ^ 32"]
  by (simp add: mask_bits take_bit_eq_mod)

lemma to_signed_u32: "u32 v \<Longrightarrow> to_signed v = (if v < 2 ^ 31 then v else v - 2 ^ 32)"
  using u32_uint [of v] by (auto simp: sint_uint31)

lemma sign_bit_of:
  "u32 v \<Longrightarrow> v AND SIGN_BIT = 0 \<longleftrightarrow> v < 2 ^ 31"
  using sign_bit_u32 [of v] by linarith

lemma alu_add_flags:
  assumes p: "u32 p" and q: "u32 q"
  shows "ar_carry (alu_add p q) = (2 ^ 32 \<le> p + q)"
    and "ar_ovf (alu_add p q) =
      (to_signed p + to_signed q < - (2 ^ 31) \<or> 2 ^ 31 \<le> to_signed p + to_signed q)"
proof -
  show "ar_carry (alu_add p q) = (2 ^ 32 \<le> p + q)"
    by (auto simp: alu_add_def Let_def ALUResult_def)
  define r where "r = (p + q) AND 0xFFFFFFFF"
  have r: "u32 r" and m: "r = (if 2 ^ 32 \<le> p + q then p + q - 2 ^ 32 else p + q)"
    using p q wrap_high [of "p + q"] u32_mask_id [of "p + q"]
    by (simp_all add: r_def u32_def)
  have "ar_ovf (alu_add p q) = ((p < 2 ^ 31) = (q < 2 ^ 31) \<and> (r < 2 ^ 31) \<noteq> (p < 2 ^ 31))"
    by (simp add: alu_add_def Let_def ALUResult_def sign_bit_of p q r flip: r_def)
  then show "ar_ovf (alu_add p q) =
      (to_signed p + to_signed q < - (2 ^ 31) \<or> 2 ^ 31 \<le> to_signed p + to_signed q)"
    using p q m by (simp add: to_signed_u32 u32_def) linarith
qed

lemma alu_sub_flags:
  assumes p: "u32 p" and q: "u32 q"
  shows "ar_carry (alu_sub p q) = (p < q)"
    and "ar_ovf (alu_sub p q) =
      (to_signed p - to_signed q < - (2 ^ 31) \<or> 2 ^ 31 \<le> to_signed p - to_signed q)"
proof -
  show "ar_carry (alu_sub p q) = (p < q)"
    by (auto simp: alu_sub_def Let_def ALUResult_def)
  define r where "r = (p - q) AND 0xFFFFFFFF"
  have r: "u32 r" and m: "r = (if p < q then p - q + 2 ^ 32 else p - q)"
    using p q wrap_low [of "p - q"] u32_mask_id [of "p - q"]
    by (simp_all add: r_def u32_def)
  have "ar_ovf (alu_sub p q) = ((p < 2 ^ 31) \<noteq> (q < 2 ^ 31) \<and> (r < 2 ^ 31) \<noteq> (p < 2 ^ 31))"
    by (auto simp: alu_sub_def Let_def ALUResult_def sign_bit_of p q r simp flip: r_def)
  then show "ar_ovf (alu_sub p q) =
      (to_signed p - to_signed q < - (2 ^ 31) \<or> 2 ^ 31 \<le> to_signed p - to_signed q)"
    using p q m by (simp add: to_signed_u32 u32_def) linarith
qed

end
