(* ===== verification/Cache_Model.thy ===== *)
theory Cache_Model
  imports Prelude
begin

text \<open>
  \<^verbatim>\<open>_CacheModel\<close> of \<^verbatim>\<open>simulator/cpu_simulator.py\<close>: a direct-mapped cache that only keeps tags
  and counts hits and misses.  \<open>resident\<close> abstracts the two tag arrays to the line held by each
  set; \<open>cache_run_hit\<close> characterises a hit by the history of accesses alone.
\<close>

section \<open>Model\<close>

record cache =
  ca_sets :: int
  ca_wpl :: int
  ca_hits :: int
  ca_misses :: int
  ca_valid :: "bool list"
  ca_tags :: "int list"

definition cache_init :: "int \<Rightarrow> int \<Rightarrow> cache" where
  "cache_init sets words_per_line =
     \<lparr>ca_sets = sets, ca_wpl = words_per_line, ca_hits = 0, ca_misses = 0,
      ca_valid = replicate (nat sets) False, ca_tags = replicate (nat sets) 0\<rparr>"

definition cache_reset :: "cache \<Rightarrow> cache" where
  "cache_reset c =
     c\<lparr>ca_hits := 0, ca_misses := 0, ca_valid := replicate (nat (ca_sets c)) False,
       ca_tags := replicate (nat (ca_sets c)) 0\<rparr>"

definition cache_access :: "cache \<Rightarrow> int \<Rightarrow> bool \<times> cache" where
  "cache_access c word_addr =
     (let set_idx = nat ((word_addr div ca_wpl c) mod ca_sets c);
          tag = word_addr div (ca_sets c * ca_wpl c)
      in if ca_valid c ! set_idx \<and> ca_tags c ! set_idx = tag
         then (True, c\<lparr>ca_hits := ca_hits c + 1\<rparr>)
         else (False, c\<lparr>ca_misses := ca_misses c + 1,
                        ca_valid := (ca_valid c)[set_idx := True],
                        ca_tags := (ca_tags c)[set_idx := tag]\<rparr>))"

section \<open>Abstraction: the line each set holds\<close>

definition cache_wf :: "cache \<Rightarrow> bool" where
  "cache_wf c \<longleftrightarrow> 0 < ca_sets c \<and> 0 < ca_wpl c
     \<and> length (ca_valid c) = nat (ca_sets c) \<and> length (ca_tags c) = nat (ca_sets c)
     \<and> 0 \<le> ca_hits c \<and> 0 \<le> ca_misses c"

definition line_of :: "cache \<Rightarrow> int \<Rightarrow> int" where
  "line_of c word_addr = word_addr div ca_wpl c"

definition resident :: "cache \<Rightarrow> int \<Rightarrow> int option" where
  "resident c s =
     (if 0 \<le> s \<and> s < ca_sets c \<and> ca_valid c ! nat s
      then Some (ca_tags c ! nat s * ca_sets c + s) else None)"

lemma cache_wf_init: "0 < sets \<Longrightarrow> 0 < wpl \<Longrightarrow> cache_wf (cache_init sets wpl)"
  by (simp add: cache_wf_def cache_init_def)

lemma cache_wf_reset: "cache_wf c \<Longrightarrow> cache_wf (cache_reset c)"
  by (simp add: cache_wf_def cache_reset_def)

lemma cache_wf_access: "cache_wf c \<Longrightarrow> cache_wf (snd (cache_access c a))"
  by (auto simp: cache_wf_def cache_access_def Let_def)

lemma cache_access_geometry [simp]:
  "ca_sets (snd (cache_access c a)) = ca_sets c" "ca_wpl (snd (cache_access c a)) = ca_wpl c"
  by (simp_all add: cache_access_def Let_def)

lemma cache_access_count:
  "ca_hits (snd (cache_access c a)) + ca_misses (snd (cache_access c a)) = ca_hits c + ca_misses c + 1"
  by (simp add: cache_access_def Let_def)

lemma tag_of_line: "0 < ca_sets c \<Longrightarrow> a div (ca_sets c * ca_wpl c) = line_of c a div ca_sets c"
  using zdiv_zmult2_eq [of "ca_sets c" a "ca_wpl c"] by (simp add: line_of_def mult.commute)

lemma line_decomp: "line_of c a div ca_sets c * ca_sets c + line_of c a mod ca_sets c = line_of c a"
  by simp

lemma same_line:
  "0 < n \<Longrightarrow> t * n + l mod n = l \<longleftrightarrow> t = l div n" for n l t :: int
  by (metis add_right_cancel div_mult_mod_eq mult_cancel_right less_irrefl)

lemma cache_access_hit:
  assumes wf: "cache_wf c"
  shows "fst (cache_access c a) \<longleftrightarrow> resident c (line_of c a mod ca_sets c) = Some (line_of c a)"
proof -
  have s: "0 \<le> line_of c a mod ca_sets c" "line_of c a mod ca_sets c < ca_sets c"
    using wf by (simp_all add: cache_wf_def)
  show ?thesis
    using s wf same_line [of "ca_sets c" _ "line_of c a"]
    by (auto simp: cache_access_def Let_def resident_def cache_wf_def tag_of_line line_of_def [symmetric])
qed

lemma cache_access_resident:
  assumes wf: "cache_wf c"
  shows "resident (snd (cache_access c a)) = (resident c)(line_of c a mod ca_sets c \<mapsto> line_of c a)"
proof
  fix s
  let ?s = "line_of c a mod ca_sets c"
  have r: "0 \<le> ?s" "?s < ca_sets c"
    using wf by (simp_all add: cache_wf_def)
  show "resident (snd (cache_access c a)) s = ((resident c)(?s \<mapsto> line_of c a)) s"
  proof (cases "s = ?s")
    case True
    then show ?thesis
      using r wf by (auto simp: cache_access_def Let_def resident_def cache_wf_def tag_of_line
          line_of_def [symmetric])
  next
    case False
    then have "0 \<le> s \<Longrightarrow> nat s \<noteq> nat ?s"
      using r by simp
    with False show ?thesis
      using wf by (auto simp: cache_access_def Let_def resident_def cache_wf_def line_of_def [symmetric])
  qed
qed

section \<open>Runs of accesses\<close>

text \<open>
  Any cache the simulator counts with: an access is a hit or a miss and is counted as one.  The
  client lemma is what the performance counters report after a program.
\<close>

locale hit_counter =
  fixes access :: "'c \<Rightarrow> 'a \<Rightarrow> bool \<times> 'c"
    and hits :: "'c \<Rightarrow> int"
    and misses :: "'c \<Rightarrow> int"
  assumes counts_hit: "fst (access c a) \<Longrightarrow>
      hits (snd (access c a)) = hits c + 1 \<and> misses (snd (access c a)) = misses c"
    and counts_miss: "\<not> fst (access c a) \<Longrightarrow>
      hits (snd (access c a)) = hits c \<and> misses (snd (access c a)) = misses c + 1"
begin

lemma counts_run:
  "hits (fold (\<lambda>a c. snd (access c a)) as c) + misses (fold (\<lambda>a c. snd (access c a)) as c)
     = hits c + misses c + int (length as)"
proof (induction as arbitrary: c)
  case Nil
  then show ?case by simp
next
  case (Cons a as)
  then show ?case
    using counts_hit [of c a] counts_miss [of c a] by (cases "fst (access c a)") simp_all
qed

lemma misses_mono: "misses c \<le> misses (snd (access c a))"
  using counts_hit [of c a] counts_miss [of c a] by (cases "fst (access c a)") simp_all

end

interpretation dm_cache: hit_counter cache_access ca_hits ca_misses
  by unfold_locales (simp_all add: cache_access_def Let_def split: if_splits)

definition cache_run :: "int list \<Rightarrow> cache \<Rightarrow> cache" where
  "cache_run as c = fold (\<lambda>a c. snd (cache_access c a)) as c"

text \<open>The line of the last access of a history that mapped to set \<open>s\<close>.\<close>

fun last_line :: "int \<Rightarrow> int \<Rightarrow> int \<Rightarrow> int list \<Rightarrow> int option" where
  "last_line sets wpl s [] = None"
| "last_line sets wpl s (a # as) =
     (case last_line sets wpl s as of
        Some l \<Rightarrow> Some l
      | None \<Rightarrow> if (a div wpl) mod sets = s then Some (a div wpl) else None)"

lemma cache_run_wf: "cache_wf c \<Longrightarrow> cache_wf (cache_run as c)
    \<and> ca_sets (cache_run as c) = ca_sets c \<and> ca_wpl (cache_run as c) = ca_wpl c"
  by (induction as arbitrary: c) (simp_all add: cache_run_def cache_wf_access)

lemma cache_run_resident:
  "cache_wf c \<Longrightarrow> resident (cache_run as c) s =
     (case last_line (ca_sets c) (ca_wpl c) s as of Some l \<Rightarrow> Some l | None \<Rightarrow> resident c s)"
proof (induction as arbitrary: c)
  case Nil
  then show ?case by (simp add: cache_run_def)
next
  case (Cons a as)
  have "cache_run (a # as) c = cache_run as (snd (cache_access c a))"
    by (simp add: cache_run_def)
  with Cons show ?case
    by (simp add: cache_wf_access cache_access_resident line_of_def split: option.split)
qed

lemma resident_init: "resident (cache_init sets wpl) s = None"
  by (simp add: resident_def cache_init_def)

lemma cache_run_hit:
  assumes g: "0 < sets" "0 < wpl"
  shows "fst (cache_access (cache_run as (cache_init sets wpl)) a) \<longleftrightarrow>
     last_line sets wpl ((a div wpl) mod sets) as = Some (a div wpl)"
proof -
  let ?c = "cache_init sets wpl"
  have wf: "cache_wf ?c" using g by (rule cache_wf_init)
  have geo: "ca_sets ?c = sets" "ca_wpl ?c = wpl" by (simp_all add: cache_init_def)
  show ?thesis
    using cache_run_wf [OF wf, of as] cache_run_resident [OF wf, of as] geo
    by (auto simp: cache_access_hit line_of_def resident_init split: option.split)
qed

end
