(* ===== verification/TLB_Model.thy ===== *)
theory TLB_Model
  imports Prelude
begin

unbundle bit_operations_syntax

text \<open>
  \<^verbatim>\<open>_TLBModel\<close> of \<^verbatim>\<open>simulator/cpu_simulator.py\<close>: a fully associative TLB of 32 entries with LRU
  replacement in front of a one-level page table in memory.  \<open>page_walk\<close> is the translation the
  page table prescribes; \<open>tlb_coherent\<close> says that every cached entry is a copy of its page table
  entry.  Under coherence the TLB is invisible.
\<close>

section \<open>Model\<close>

definition TLB_ENTRIES :: nat where "TLB_ENTRIES = 32"
definition PAGE_BITS :: nat where "PAGE_BITS = 10"
definition PAGE_SIZE :: int where "PAGE_SIZE = shl 1 PAGE_BITS"
definition PTE_V :: int where "PTE_V = shl 1 0"
definition PTE_R :: int where "PTE_R = shl 1 1"
definition PTE_W :: int where "PTE_W = shl 1 2"
definition PTE_X :: int where "PTE_X = shl 1 3"

lemmas tlb_consts = TLB_ENTRIES_def PAGE_BITS_def PAGE_SIZE_def PTE_V_def PTE_R_def PTE_W_def PTE_X_def

type_synonym tlb_entry = "int \<times> int \<times> int"

record tlb =
  tl_misses :: int
  tl_hits :: int
  tl_flushes :: int
  tl_entries :: "tlb_entry option list"
  tl_lru :: "int list"
  tl_clock :: int

definition tlb_init :: tlb where
  "tlb_init = \<lparr>tl_misses = 0, tl_hits = 0, tl_flushes = 0,
     tl_entries = replicate TLB_ENTRIES None, tl_lru = replicate TLB_ENTRIES 0, tl_clock = 0\<rparr>"

definition tlb_reset :: "tlb \<Rightarrow> tlb" where
  "tlb_reset t = t\<lparr>tl_misses := 0, tl_hits := 0, tl_flushes := 0,
     tl_entries := replicate TLB_ENTRIES None, tl_lru := replicate TLB_ENTRIES 0, tl_clock := 0\<rparr>"

definition tlb_flush :: "tlb \<Rightarrow> tlb" where
  "tlb_flush t = t\<lparr>tl_entries := replicate TLB_ENTRIES None,
     tl_lru := replicate TLB_ENTRIES 0, tl_flushes := tl_flushes t + 1\<rparr>"

text \<open>The search loop: the first valid entry for the page, with its index.\<close>

fun tlb_find :: "tlb_entry option list \<Rightarrow> int \<Rightarrow> nat \<Rightarrow> (nat \<times> int \<times> int) option" where
  "tlb_find [] vpn i = None"
| "tlb_find (None # es) vpn i = tlb_find es vpn (Suc i)"
| "tlb_find (Some (evpn, pfn, flags) # es) vpn i =
     (if evpn \<noteq> vpn then tlb_find es vpn (Suc i)
      else if flags AND PTE_V = 0 then tlb_find es vpn (Suc i)
      else Some (i, pfn, flags))"

text \<open>\<^verbatim>\<open>min(xs)\<close> and \<^verbatim>\<open>xs.index(x)\<close> of a non-empty list.\<close>

fun py_min :: "int list \<Rightarrow> int" where
  "py_min [] = 0"
| "py_min [x] = x"
| "py_min (x # xs) = min x (py_min xs)"

fun py_index :: "int list \<Rightarrow> int \<Rightarrow> nat" where
  "py_index [] x = 0"
| "py_index (y # ys) x = (if y = x then 0 else Suc (py_index ys x))"

definition tlb_translate ::
  "tlb \<Rightarrow> int \<Rightarrow> int list \<Rightarrow> int \<Rightarrow> bool \<Rightarrow> bool \<Rightarrow> int option \<times> tlb" where
  "tlb_translate t va mem ptbr write exec =
     (let vpn = shr va PAGE_BITS;
          offset = va AND (PAGE_SIZE - 1);
          t = t\<lparr>tl_clock := tl_clock t + 1\<rparr>
      in case tlb_find (tl_entries t) vpn 0 of
           Some (i, pfn, flags) \<Rightarrow>
             if write \<and> flags AND PTE_W = 0 then (None, t)
             else if exec \<and> flags AND PTE_X = 0 then (None, t)
             else (Some (pfn * PAGE_SIZE + offset),
                   t\<lparr>tl_lru := (tl_lru t)[i := tl_clock t], tl_hits := tl_hits t + 1\<rparr>)
         | None \<Rightarrow>
             let t = t\<lparr>tl_misses := tl_misses t + 1\<rparr>;
                 pte_addr = ptbr + vpn
             in if pte_addr \<ge> int (length mem) then (None, t)
                else let pte = mem ! nat pte_addr;
                         flags = pte AND 0xF;
                         pfn = shr pte PAGE_BITS
                     in if flags AND PTE_V = 0 then (None, t)
                        else let lru_idx = py_index (tl_lru t) (py_min (tl_lru t));
                                 t = t\<lparr>tl_entries := (tl_entries t)[lru_idx := Some (vpn, pfn, flags)],
                                       tl_lru := (tl_lru t)[lru_idx := tl_clock t]\<rparr>
                             in if write \<and> flags AND PTE_W = 0 then (None, t)
                                else if exec \<and> flags AND PTE_X = 0 then (None, t)
                                else (Some (pfn * PAGE_SIZE + offset), t))"

section \<open>Specification: the page table\<close>

definition page_walk :: "int list \<Rightarrow> int \<Rightarrow> int \<Rightarrow> bool \<Rightarrow> bool \<Rightarrow> int option" where
  "page_walk mem ptbr va write exec =
     (let a = ptbr + shr va PAGE_BITS
      in if a \<ge> int (length mem) then None
         else let pte = mem ! nat a; flags = pte AND 0xF
              in if flags AND PTE_V = 0 \<or> (write \<and> flags AND PTE_W = 0) \<or> (exec \<and> flags AND PTE_X = 0)
                 then None
                 else Some (shr pte PAGE_BITS * PAGE_SIZE + (va AND (PAGE_SIZE - 1))))"

definition pte_copy :: "int list \<Rightarrow> int \<Rightarrow> tlb_entry \<Rightarrow> bool" where
  "pte_copy mem ptbr e =
     (case e of (vpn, pfn, flags) \<Rightarrow>
        ptbr + vpn < int (length mem)
        \<and> pfn = shr (mem ! nat (ptbr + vpn)) PAGE_BITS
        \<and> flags = mem ! nat (ptbr + vpn) AND 0xF \<and> flags AND PTE_V \<noteq> 0)"

definition tlb_shape :: "tlb \<Rightarrow> bool" where
  "tlb_shape t \<longleftrightarrow> length (tl_entries t) = 32 \<and> length (tl_lru t) = 32 \<and> 0 \<le> tl_clock t
     \<and> (\<forall>x \<in> set (tl_lru t). 0 \<le> x \<and> x \<le> tl_clock t)"

definition tlb_coherent :: "tlb \<Rightarrow> int list \<Rightarrow> int \<Rightarrow> bool" where
  "tlb_coherent t mem ptbr \<longleftrightarrow> (\<forall>e. Some e \<in> set (tl_entries t) \<longrightarrow> pte_copy mem ptbr e)"

section \<open>The search\<close>

lemma tlb_find_Some:
  "tlb_find es vpn k = Some (i, pfn, flags) \<Longrightarrow>
   k \<le> i \<and> i - k < length es \<and> es ! (i - k) = Some (vpn, pfn, flags) \<and> flags AND PTE_V \<noteq> 0"
proof (induction es vpn k rule: tlb_find.induct)
  case (3 evpn pfn' flags' es vpn k)
  then show ?case
    by (auto split: if_splits simp: nth_Cons' Suc_le_eq)
qed (auto simp: nth_Cons' Suc_le_eq)

lemma tlb_find_None:
  "tlb_find es vpn k = None \<Longrightarrow> Some (vpn, pfn, flags) \<in> set es \<Longrightarrow> flags AND PTE_V = 0"
  by (induction es vpn k rule: tlb_find.induct) (auto split: if_splits)

lemma py_min_in: "xs \<noteq> [] \<Longrightarrow> py_min xs \<in> set xs"
  by (induction xs rule: py_min.induct) (auto simp: min_def)

lemma py_min_le: "x \<in> set xs \<Longrightarrow> py_min xs \<le> x"
  by (induction xs rule: py_min.induct) auto

lemma py_index_nth: "x \<in> set xs \<Longrightarrow> py_index xs x < length xs \<and> xs ! py_index xs x = x"
  by (induction xs) auto

text \<open>The slot a miss replaces holds the least time stamp.\<close>

lemma lru_slot:
  assumes "tlb_shape t"
  shows "py_index (tl_lru t) (py_min (tl_lru t)) < 32"
    and "\<forall>j < 32. tl_lru t ! py_index (tl_lru t) (py_min (tl_lru t)) \<le> tl_lru t ! j"
proof -
  have l: "length (tl_lru t) = 32" and ne: "tl_lru t \<noteq> []"
    using assms by (auto simp: tlb_shape_def)
  note i = py_index_nth [OF py_min_in [OF ne]]
  show "py_index (tl_lru t) (py_min (tl_lru t)) < 32"
    using i l by simp
  show "\<forall>j < 32. tl_lru t ! py_index (tl_lru t) (py_min (tl_lru t)) \<le> tl_lru t ! j"
    using i l by (simp add: py_min_le)
qed

section \<open>Shape and coherence are kept\<close>

lemma tlb_shape_init: "tlb_shape tlb_init" "tlb_shape (tlb_reset t)"
  by (simp_all add: tlb_shape_def tlb_init_def tlb_reset_def TLB_ENTRIES_def)

lemma tlb_shape_flush: "tlb_shape t \<Longrightarrow> tlb_shape (tlb_flush t)"
  by (simp add: tlb_shape_def tlb_flush_def TLB_ENTRIES_def)

lemma tlb_coherent_empty: "tlb_coherent tlb_init mem ptbr" "tlb_coherent (tlb_reset t) mem ptbr"
    "tlb_coherent (tlb_flush t) mem ptbr"
  by (simp_all add: tlb_coherent_def tlb_init_def tlb_reset_def tlb_flush_def)

text \<open>Every access advances the clock by one and touches at most one slot.\<close>

lemma tlb_translate_clock:
  "tl_clock (snd (tlb_translate t va mem ptbr w x)) = tl_clock t + 1"
  by (simp add: tlb_translate_def Let_def split: option.split)

lemma tlb_translate_lru:
  "\<exists>i. tl_lru (snd (tlb_translate t va mem ptbr w x)) \<in> {tl_lru t, (tl_lru t)[i := tl_clock t + 1]}"
  by (simp add: tlb_translate_def Let_def split: option.split) blast

lemma tlb_translate_entries_length:
  "length (tl_entries (snd (tlb_translate t va mem ptbr w x))) = length (tl_entries t)"
  by (simp add: tlb_translate_def Let_def split: option.split)

lemma tlb_shape_translate: "tlb_shape t \<Longrightarrow> tlb_shape (snd (tlb_translate t va mem ptbr w x))"
proof -
  assume t: "tlb_shape t"
  obtain i where i: "tl_lru (snd (tlb_translate t va mem ptbr w x))
      \<in> {tl_lru t, (tl_lru t)[i := tl_clock t + 1]}"
    using tlb_translate_lru by blast
  have "\<forall>y \<in> set ((tl_lru t)[i := tl_clock t + 1]). 0 \<le> y \<and> y \<le> tl_clock t + 1"
    using t set_update_subset_insert [of "tl_lru t" i "tl_clock t + 1"]
    by (fastforce simp: tlb_shape_def)
  moreover have "\<forall>y \<in> set (tl_lru t). 0 \<le> y \<and> y \<le> tl_clock t + 1"
    using t by (fastforce simp: tlb_shape_def)
  ultimately show ?thesis
    using t i by (auto simp: tlb_shape_def tlb_translate_clock tlb_translate_entries_length)
qed

lemma tlb_shape_entries: "tlb_shape t \<Longrightarrow> length (tl_entries t) = 32"
  by (simp add: tlb_shape_def)

lemma tlb_coherent_step:
  "tlb_coherent t mem ptbr \<Longrightarrow> pte_copy mem ptbr e \<Longrightarrow>
   tlb_coherent (t\<lparr>tl_entries := (tl_entries t)[i := Some e], tl_lru := l\<rparr>) mem ptbr"
  by (auto simp: tlb_coherent_def dest!: set_update_subset_insert [THEN subsetD])

lemma tlb_coherent_translate:
  "tlb_coherent t mem ptbr \<Longrightarrow> tlb_coherent (snd (tlb_translate t va mem ptbr w x)) mem ptbr"
  by (auto simp: tlb_translate_def Let_def tlb_coherent_def pte_copy_def split: option.split
      dest!: set_update_subset_insert [THEN subsetD])

lemma tlb_translate_walk:
  assumes "tlb_shape t" and c: "tlb_coherent t mem ptbr"
  shows "fst (tlb_translate t va mem ptbr w x) = page_walk mem ptbr va w x"
proof (cases "tlb_find (tl_entries t) (shr va PAGE_BITS) 0")
  case None
  then show ?thesis
    by (auto simp: tlb_translate_def page_walk_def Let_def)
next
  case (Some e)
  obtain i pfn flags where e: "e = (i, pfn, flags)" by (cases e) auto
  from tlb_find_Some [OF Some [unfolded e]]
  have "Some (shr va PAGE_BITS, pfn, flags) \<in> set (tl_entries t)"
    by (metis diff_zero nth_mem)
  with c have "pte_copy mem ptbr (shr va PAGE_BITS, pfn, flags)"
    by (simp add: tlb_coherent_def)
  with Some e show ?thesis
    by (auto simp: tlb_translate_def page_walk_def Let_def pte_copy_def)
qed

text \<open>A page that was just translated is found by the next search: it is not a miss again.\<close>

lemma tlb_hit_after_translate:
  assumes "tlb_shape t" and "fst (tlb_translate t va mem ptbr w x) = Some pa"
  shows "\<exists>i pfn flags. tlb_find (tl_entries (snd (tlb_translate t va mem ptbr w x)))
           (shr va PAGE_BITS) 0 = Some (i, pfn, flags)"
proof (rule ccontr)
  let ?t = "snd (tlb_translate t va mem ptbr w x)"
  assume "\<not> ?thesis"
  then have n: "tlb_find (tl_entries ?t) (shr va PAGE_BITS) 0 = None"
    by (cases "tlb_find (tl_entries ?t) (shr va PAGE_BITS) 0") auto
  have "\<exists>pfn flags. Some (shr va PAGE_BITS, pfn, flags) \<in> set (tl_entries ?t) \<and> flags AND PTE_V \<noteq> 0"
  proof (cases "tlb_find (tl_entries t) (shr va PAGE_BITS) 0")
    case None
    have "py_index (tl_lru t) (py_min (tl_lru t)) < length (tl_entries t)"
      using lru_slot(1) [OF assms(1)] assms(1) by (simp add: tlb_shape_def)
    with None assms(2) show ?thesis
      by (auto simp: tlb_translate_def Let_def split: if_splits intro!: exI set_update_memI)
  next
    case (Some e)
    obtain i pfn flags where e: "e = (i, pfn, flags)" by (cases e) auto
    from tlb_find_Some [OF Some [unfolded e]]
    have "Some (shr va PAGE_BITS, pfn, flags) \<in> set (tl_entries t) \<and> flags AND PTE_V \<noteq> 0"
      by (metis diff_zero nth_mem)
    with Some e show ?thesis
      by (auto simp: tlb_translate_def Let_def)
  qed
  with n tlb_find_None show False by blast
qed

section \<open>Interface of an address translation\<close>

text \<open>
  What the simulator relies on: a translator over a state, with a coherence predicate under which
  it returns what the page table prescribes and which it keeps.
\<close>

locale address_translation =
  fixes translate :: "'s \<Rightarrow> int \<Rightarrow> int list \<Rightarrow> int \<Rightarrow> bool \<Rightarrow> bool \<Rightarrow> int option \<times> 's"
    and coherent :: "'s \<Rightarrow> int list \<Rightarrow> int \<Rightarrow> bool"
    and flush :: "'s \<Rightarrow> 's"
    and invar :: "'s \<Rightarrow> bool"
  assumes translate_walk:
      "invar t \<Longrightarrow> coherent t mem ptbr \<Longrightarrow> fst (translate t va mem ptbr w x) = page_walk mem ptbr va w x"
    and translate_coherent:
      "invar t \<Longrightarrow> coherent t mem ptbr \<Longrightarrow> coherent (snd (translate t va mem ptbr w x)) mem ptbr"
    and translate_invar: "invar t \<Longrightarrow> invar (snd (translate t va mem ptbr w x))"
    and flush_coherent: "coherent (flush t) mem ptbr"
    and flush_invar: "invar t \<Longrightarrow> invar (flush t)"
begin

primrec translate_all :: "'s \<Rightarrow> int list \<Rightarrow> int \<Rightarrow> (int \<times> bool \<times> bool) list \<Rightarrow> int option list \<times> 's" where
  "translate_all t mem ptbr [] = ([], t)"
| "translate_all t mem ptbr (r # rs) =
     (case r of (va, w, x) \<Rightarrow>
        let (pa, t) = translate t va mem ptbr w x;
            (pas, t) = translate_all t mem ptbr rs
        in (pa # pas, t))"

lemma translate_all_walk:
  "invar t \<Longrightarrow> coherent t mem ptbr \<Longrightarrow>
   fst (translate_all t mem ptbr rs) = map (\<lambda>(va, w, x). page_walk mem ptbr va w x) rs"
proof (induction rs arbitrary: t)
  case (Cons r rs)
  obtain va w x where r: "r = (va, w, x)" by (cases r) auto
  show ?case
    using Cons.IH [OF translate_invar [OF Cons.prems(1)] translate_coherent [OF Cons.prems]]
      translate_walk [OF Cons.prems]
    by (simp add: r case_prod_beta Let_def)
qed simp

lemma translate_after_flush:
  "invar t \<Longrightarrow> fst (translate_all (flush t) mem ptbr rs) = map (\<lambda>(va, w, x). page_walk mem ptbr va w x) rs"
  by (rule translate_all_walk [OF flush_invar flush_coherent])

end

interpretation mmu: address_translation tlb_translate tlb_coherent tlb_flush tlb_shape
  by unfold_locales
    (rule tlb_translate_walk tlb_coherent_translate tlb_shape_translate tlb_shape_flush
       tlb_coherent_empty tlb_shape_entries; assumption)+

end
