(* ===== verification/Simulator.thy ===== *)
theory Simulator
  imports Pipeline ALU Cache_Model TLB_Model
begin

unbundle bit_operations_syntax

text \<open>
  \<^verbatim>\<open>simulator/cpu_simulator.py\<close>: the cycle-accurate simulator of the five-stage pipeline.  The
  record \<open>sim\<close> is the object \<^verbatim>\<open>CPUSimulator\<close>; every method that mutates it is a function that
  returns the updated record, and \<open>clock\<close> composes the stages in the order of the source
  (WB, MEM, EX, ID, IF).

  The strings of \<^verbatim>\<open>_stage_dis\<close>, which are only ever displayed, are left out (with the five string
  fields of a snapshot that copy them).  A line of \<^verbatim>\<open>log\<close> is kept as the cycle count it is stamped
  with and a \<open>log_event\<close> holding the values the line prints.
\<close>

section \<open>State\<close>

record sim_stats =
  st_cycles :: int
  st_instructions :: int
  st_stalls :: int
  st_flushes :: int
  st_memory_reads :: int
  st_memory_writes :: int
  st_branches_taken :: int
  st_mul_stalls :: int
  st_div_stalls :: int

definition stats_init :: sim_stats where
  "stats_init =
     \<lparr>st_cycles = 0, st_instructions = 0, st_stalls = 0, st_flushes = 0, st_memory_reads = 0,
      st_memory_writes = 0, st_branches_taken = 0, st_mul_stalls = 0, st_div_stalls = 0\<rparr>"

record snapshot =
  sn_cycle :: int
  sn_pc :: int
  sn_stall :: bool
  sn_flush :: bool
  sn_regs :: "int list"
  sn_flags :: flags

datatype log_event =
    Log_Loaded nat int          \<comment> \<open>number of words, start address\<close>
  | Log_Halt int                \<comment> \<open>cycle of the HLT in WB\<close>
  | Log_Jump int                \<comment> \<open>target\<close>
  | Log_Trap int int int        \<comment> \<open>cause, EPC, handler\<close>
  | Log_Limit int               \<comment> \<open>cycle limit reached\<close>

record sim =
  sm_mem :: "int list"
  sm_rf :: regfile
  sm_csrs :: "int list"
  sm_icache :: cache
  sm_dcache :: cache
  sm_tlb :: tlb
  sm_pc :: int
  sm_halted :: bool
  sm_fetch_stopped :: bool
  sm_exec_stall :: int
  sm_ifid :: ifid_reg
  sm_idex :: idex_reg
  sm_exmem :: exmem_reg
  sm_memwb :: memwb_reg
  sm_history :: "snapshot list"
  sm_stats :: sim_stats
  sm_log :: "(int \<times> log_event) list"

definition SP_INIT :: int where "SP_INIT = 0x010000"

text \<open>\<^verbatim>\<open>addr & (len(self.mem) - 1)\<close>\<close>

definition wrap_addr :: "sim \<Rightarrow> int \<Rightarrow> int" where
  "wrap_addr s addr = addr AND (int (length (sm_mem s)) - 1)"

definition csr :: "sim \<Rightarrow> int \<Rightarrow> int" where
  "csr s i = sm_csrs s ! nat i"

definition csr_upd :: "int \<Rightarrow> int \<Rightarrow> sim \<Rightarrow> sim" where
  "csr_upd i v s = s\<lparr>sm_csrs := (sm_csrs s)[nat i := v]\<rparr>"

definition log_add :: "log_event \<Rightarrow> sim \<Rightarrow> sim" where
  "log_add e s = s\<lparr>sm_log := sm_log s @ [(st_cycles (sm_stats s), e)]\<rparr>"

definition set_reg :: "int \<Rightarrow> int \<Rightarrow> sim \<Rightarrow> sim" where
  "set_reg i v s = s\<lparr>sm_rf := rf_set (sm_rf s) i v\<rparr>"

abbreviation upd_stats :: "(sim_stats \<Rightarrow> sim_stats) \<Rightarrow> sim \<Rightarrow> sim" where
  "upd_stats f s \<equiv> s\<lparr>sm_stats := f (sm_stats s)\<rparr>"

abbreviation upd_exmem :: "(exmem_reg \<Rightarrow> exmem_reg) \<Rightarrow> sim \<Rightarrow> sim" where
  "upd_exmem f s \<equiv> s\<lparr>sm_exmem := f (sm_exmem s)\<rparr>"

section \<open>Construction, reset and loading\<close>

definition sim_init :: "int \<Rightarrow> sim" where
  "sim_init mem_size =
     \<lparr>sm_mem = replicate (nat mem_size) 0, sm_rf = rf_set rf_init SP_REG SP_INIT,
      sm_csrs = replicate (nat NUM_CSRS) 0,
      sm_icache = cache_init 256 4, sm_dcache = cache_init 256 4, sm_tlb = tlb_init,
      sm_pc = 0, sm_halted = False, sm_fetch_stopped = False, sm_exec_stall = 0,
      sm_ifid = ifid_init, sm_idex = idex_init, sm_exmem = exmem_init, sm_memwb = memwb_init,
      sm_history = [], sm_stats = stats_init, sm_log = []\<rparr>"

definition sim_reset :: "sim \<Rightarrow> sim" where
  "sim_reset s =
     s\<lparr>sm_rf := rf_set rf_init SP_REG SP_INIT, sm_csrs := replicate (nat NUM_CSRS) 0,
       sm_pc := 0, sm_halted := False, sm_fetch_stopped := False, sm_exec_stall := 0,
       sm_ifid := ifid_init, sm_idex := idex_init, sm_exmem := exmem_init, sm_memwb := memwb_init,
       sm_history := [], sm_stats := stats_init, sm_log := [],
       sm_icache := cache_reset (sm_icache s), sm_dcache := cache_reset (sm_dcache s),
       sm_tlb := tlb_reset (sm_tlb s)\<rparr>"

text \<open>The copy loop \<^verbatim>\<open>self.mem[start_addr + i] = int(w) & WORD_MASK\<close>, a Python list assignment:
  a negative index counts from the end, one out of range raises.\<close>

fun load_words :: "int list \<Rightarrow> int \<Rightarrow> int list \<Rightarrow> py_error + int list" where
  "load_words mem addr [] = Inr mem"
| "load_words mem addr (w # ws) =
     (case py_list_index mem addr of
        None \<Rightarrow> Inl IndexError
      | Some i \<Rightarrow> load_words (mem[i := w AND WORD_MASK]) (addr + 1) ws)"

definition load_program :: "sim \<Rightarrow> int list \<Rightarrow> int \<Rightarrow> py_error + sim" where
  "load_program s words start_addr =
     (let s = sim_reset s
      in case load_words (sm_mem s) start_addr words of
           Inl e \<Rightarrow> Inl e
         | Inr m \<Rightarrow> Inr (log_add (Log_Loaded (length words) start_addr)
                               (s\<lparr>sm_mem := m, sm_pc := start_addr\<rparr>)))"

section \<open>Traps, translation, CSRs\<close>

definition flush_if_id_ex :: "sim \<Rightarrow> sim" where
  "flush_if_id_ex s =
     s\<lparr>sm_ifid := ifid_flush (sm_ifid s), sm_idex := idex_flush (sm_idex s),
       sm_exmem := exmem_flush (sm_exmem s)\<rparr>"

definition raise_exception :: "int \<Rightarrow> int \<Rightarrow> sim \<Rightarrow> sim" where
  "raise_exception cause pc_of_faulting_instr s =
     (let s = csr_upd CSR_EPC (pc_of_faulting_instr AND WORD_MASK) s;
          s = csr_upd CSR_CAUSE (cause AND WORD_MASK) s;
          s = csr_upd CSR_STATUS ((csr s CSR_STATUS AND NOT (STATUS_IE OR STATUS_KU)) AND WORD_MASK) s;
          ivt_base = wrap_addr s (csr s CSR_IVT);
          vec_addr = wrap_addr s (ivt_base + (cause AND 0xF));
          jmp_word = sm_mem s ! nat vec_addr;
          handler_pc = jmp_word AND 0x3FFFFFF;
          s = flush_if_id_ex s;
          s = s\<lparr>sm_fetch_stopped := False, sm_pc := wrap_addr s handler_pc\<rparr>
      in log_add (Log_Trap cause pc_of_faulting_instr handler_pc) s)"

definition mmu_active :: "sim \<Rightarrow> bool" where
  "mmu_active s \<longleftrightarrow> csr s CSR_STATUS AND STATUS_KU \<noteq> 0 \<and> csr s CSR_PTBR \<noteq> 0"

definition translate_addr :: "int \<Rightarrow> bool \<Rightarrow> bool \<Rightarrow> int \<Rightarrow> sim \<Rightarrow> int option \<times> sim" where
  "translate_addr va write exec fault_pc s =
     (if \<not> mmu_active s then (Some va, s)
      else let (pa, t) = tlb_translate (sm_tlb s) va (sm_mem s) (csr s CSR_PTBR) write exec;
               s = s\<lparr>sm_tlb := t\<rparr>
           in case pa of
                None \<Rightarrow> (None, raise_exception CAUSE_PGFAULT fault_pc s)
              | Some a \<Rightarrow> (Some a, s))"

definition csr_read :: "sim \<Rightarrow> int \<Rightarrow> int" where
  "csr_read s idx =
     (let idx = idx AND 0x1F
      in if idx = CSR_CYCLE then st_cycles (sm_stats s) AND WORD_MASK
         else if idx = CSR_CYCLEH then shr (st_cycles (sm_stats s)) 32 AND WORD_MASK
         else if idx = CSR_INSTRET then st_instructions (sm_stats s) AND WORD_MASK
         else if idx = CSR_ICOUNT then st_stalls (sm_stats s) AND WORD_MASK
         else if idx = CSR_ICMISS then ca_misses (sm_icache s) AND WORD_MASK
         else if idx = CSR_DCMISS then ca_misses (sm_dcache s) AND WORD_MASK
         else if idx = CSR_BRMISS then st_flushes (sm_stats s) AND WORD_MASK
         else csr s idx AND WORD_MASK)"

definition csr_write :: "int \<Rightarrow> int \<Rightarrow> sim \<Rightarrow> sim" where
  "csr_write idx val s =
     (let idx = idx AND 0x1F; val = val AND WORD_MASK
      in if idx \<in> {CSR_CYCLE, CSR_CYCLEH, CSR_INSTRET, CSR_ICOUNT, CSR_ICMISS, CSR_DCMISS, CSR_BRMISS}
         then s
         else let s = csr_upd idx val s
              in if idx = CSR_TLBCTL \<and> val AND 1 \<noteq> 0
                 then csr_upd CSR_TLBCTL 0 (s\<lparr>sm_tlb := tlb_flush (sm_tlb s)\<rparr>)
                 else s)"

section \<open>Write back\<close>

definition stage_wb :: "sim \<Rightarrow> sim" where
  "stage_wb s =
     (let wb = sm_memwb s
      in if \<not> wb_valid wb then s
         else if c_halt (wb_ctrl wb)
           then log_add (Log_Halt (st_cycles (sm_stats s))) (s\<lparr>sm_halted := True\<rparr>)
         else if \<not> c_reg_write (wb_ctrl wb) then s
         else if wb_rd wb = ZERO_REG then s
         else let val = (if c_mem_read (wb_ctrl wb) then wb_mem_data wb else wb_alu_result wb);
                  s = set_reg (wb_rd wb) val s
              in upd_stats (\<lambda>t. t\<lparr>st_instructions := st_instructions t + 1\<rparr>) s)"

section \<open>Memory access\<close>

text \<open>The data a load of \<open>sz\<close> (0 byte, 1 halfword, otherwise word) extracts from a memory word.\<close>

definition load_data :: "int \<Rightarrow> int \<Rightarrow> bool \<Rightarrow> int \<Rightarrow> int" where
  "load_data raw_word sz sx va =
     (let data =
        (if sz = 0 then
           (let byte_off = va AND 3;
                data = shr raw_word (nat (byte_off * 8)) AND 0xFF
            in if sx \<and> data AND 0x80 \<noteq> 0 then data OR 0xFFFFFF00 else data)
         else if sz = 1 then
           (let half_off = va AND 2;
                data = shr raw_word (nat (half_off * 8)) AND 0xFFFF
            in if sx \<and> data AND 0x8000 \<noteq> 0 then data OR 0xFFFF0000 else data)
         else raw_word)
      in data AND WORD_MASK)"

text \<open>The memory word after a store of \<open>val\<close>.\<close>

definition store_data :: "int \<Rightarrow> int \<Rightarrow> int \<Rightarrow> int \<Rightarrow> int" where
  "store_data old sz va val =
     (if sz = 0 then
        (let shift = nat ((va AND 3) * 8);
             m = NOT (shl 0xFF shift) AND WORD_MASK
         in (old AND m) OR shl (val AND 0xFF) shift)
      else if sz = 1 then
        (let shift = nat ((va AND 2) * 8);
             m = NOT (shl 0xFFFF shift) AND WORD_MASK
         in (old AND m) OR shl (val AND 0xFFFF) shift)
      else val)"

definition mem_jump :: "exmem_reg \<Rightarrow> sim \<Rightarrow> (bool \<times> int) \<times> sim" where
  "mem_jump exm s =
     (if ex_take_jump exm then
        ((True, ex_jump_pc exm),
         log_add (Log_Jump (ex_jump_pc exm))
           (upd_stats (\<lambda>t. t\<lparr>st_branches_taken := st_branches_taken t + 1\<rparr>) s))
      else ((False, 0), s))"

definition mem_load :: "exmem_reg \<Rightarrow> sim \<Rightarrow> (bool \<times> int) \<times> sim" where
  "mem_load exm s =
     (let va = ex_mem_addr exm;
          (pa, s) = translate_addr va False False 0 s
      in case pa of
           None \<Rightarrow> ((False, 0), s)
         | Some pa \<Rightarrow>
             let addr = wrap_addr s pa;
                 s = s\<lparr>sm_dcache := snd (cache_access (sm_dcache s) addr)\<rparr>;
                 raw_word = sm_mem s ! nat addr;
                 data = load_data raw_word (c_mem_size (ex_ctrl exm)) (c_mem_signed (ex_ctrl exm)) va;
                 s = s\<lparr>sm_memwb := (sm_memwb s)\<lparr>wb_mem_data := data\<rparr>\<rparr>;
                 s = upd_stats (\<lambda>t. t\<lparr>st_memory_reads := st_memory_reads t + 1\<rparr>) s
             in mem_jump exm s)"

definition mem_store :: "exmem_reg \<Rightarrow> sim \<Rightarrow> (bool \<times> int) \<times> sim" where
  "mem_store exm s =
     (let va = ex_mem_addr exm;
          (pa, s) = translate_addr va True False 0 s
      in case pa of
           None \<Rightarrow> ((False, 0), s)
         | Some pa \<Rightarrow>
             let addr = wrap_addr s pa;
                 s = s\<lparr>sm_dcache := snd (cache_access (sm_dcache s) addr)\<rparr>;
                 val = ex_rs2_val exm AND WORD_MASK;
                 s = s\<lparr>sm_mem := (sm_mem s)[nat addr :=
                        store_data (sm_mem s ! nat addr) (c_mem_size (ex_ctrl exm)) va val]\<rparr>;
                 s = upd_stats (\<lambda>t. t\<lparr>st_memory_writes := st_memory_writes t + 1\<rparr>) s;
                 s = upd_stats (\<lambda>t. t\<lparr>st_instructions := st_instructions t + 1\<rparr>) s
             in mem_jump exm s)"

text \<open>\<^verbatim>\<open>exm\<close> is an alias of \<^verbatim>\<open>self.exmem\<close>: it is read again after a translation only on the path
  where no fault has flushed it.  \<^verbatim>\<open>EXMEMReg\<close> has no field \<^verbatim>\<open>pc\<close>, so \<^verbatim>\<open>fault_pc\<close> is 0.\<close>

definition stage_mem :: "sim \<Rightarrow> (bool \<times> int) \<times> sim" where
  "stage_mem s =
     (let exm = sm_exmem s;
          s = s\<lparr>sm_memwb := \<lparr>wb_ctrl = ex_ctrl exm, wb_alu_result = ex_alu_result exm,
                             wb_mem_data = 0, wb_rd = ex_rd exm, wb_valid = ex_valid exm\<rparr>\<rparr>
      in if \<not> ex_valid exm then ((False, 0), s)
         else if c_mem_read (ex_ctrl exm) then mem_load exm s
         else if c_mem_write (ex_ctrl exm) then mem_store exm s
         else mem_jump exm s)"

section \<open>Execute\<close>

definition eval_branch :: "opcode \<Rightarrow> int \<Rightarrow> int \<Rightarrow> bool" where
  "eval_branch opcode a b =
     (let signed = (\<lambda>v. if v < shl 1 31 then v else v - shl 1 32)
      in case opcode of
           Op_BEQ \<Rightarrow> a = b
         | Op_BNE \<Rightarrow> a \<noteq> b
         | Op_BLT \<Rightarrow> signed a < signed b
         | Op_BGE \<Rightarrow> signed a \<ge> signed b
         | Op_BLTU \<Rightarrow> a < b
         | Op_BGEU \<Rightarrow> a \<ge> b
         | _ \<Rightarrow> False)"

definition ex_jump_to :: "int \<Rightarrow> sim \<Rightarrow> sim" where
  "ex_jump_to target = upd_exmem (\<lambda>e. e\<lparr>ex_take_jump := True, ex_jump_pc := target\<rparr>)"

definition ex_system :: "idex_reg \<Rightarrow> sim \<Rightarrow> sim" where
  "ex_system ide s =
     (if c_syscall (id_ctrl ide) then raise_exception CAUSE_SYSCALL (id_pc_plus1 ide - 1) s
      else if id_opcode ide = Op_BREAK then raise_exception CAUSE_BREAK (id_pc_plus1 ide - 1) s
      else if c_eret (id_ctrl ide) then
        (let epc = wrap_addr s (csr s CSR_EPC);
             s = csr_upd CSR_STATUS ((csr s CSR_STATUS OR STATUS_IE) AND WORD_MASK) s
         in ex_jump_to epc s)
      else s)"

definition ex_push :: "int \<Rightarrow> sim \<Rightarrow> sim" where
  "ex_push a s =
     (let sp_val = (rf_get (sm_rf s) SP_REG - 1) AND WORD_MASK;
          s = set_reg SP_REG sp_val s
      in upd_exmem (\<lambda>e. e\<lparr>ex_mem_addr := sp_val, ex_rs2_val := a, ex_alu_result := sp_val\<rparr>) s)"

definition ex_pop :: "idex_reg \<Rightarrow> sim \<Rightarrow> sim" where
  "ex_pop ide s =
     (let sp_val = rf_get (sm_rf s) SP_REG AND WORD_MASK;
          s = upd_exmem (\<lambda>e. e\<lparr>ex_mem_addr := sp_val, ex_rd := id_rd ide\<rparr>) s
      in set_reg SP_REG ((sp_val + 1) AND WORD_MASK) s)"

definition ex_load :: "idex_reg \<Rightarrow> int \<Rightarrow> sim \<Rightarrow> sim" where
  "ex_load ide a s =
     upd_exmem (\<lambda>e. e\<lparr>ex_mem_addr := (a + id_offset ide) AND WORD_MASK, ex_rs2_val := id_rs2_val ide\<rparr>) s"

definition ex_store :: "idex_reg \<Rightarrow> int \<Rightarrow> int \<Rightarrow> sim \<Rightarrow> sim" where
  "ex_store ide a b s =
     upd_exmem (\<lambda>e. e\<lparr>ex_mem_addr := (a + id_offset ide) AND WORD_MASK, ex_rs2_val := b\<rparr>) s"

definition ex_branch :: "idex_reg \<Rightarrow> int \<Rightarrow> int \<Rightarrow> sim \<Rightarrow> sim" where
  "ex_branch ide a b s =
     (if eval_branch (id_opcode ide) a b
      then (let pc_branch = id_pc_plus1 ide - 1
            in ex_jump_to (wrap_addr s (pc_branch + id_offset ide)) s)
      else s)"

text \<open>The unconditional jumps; None when the code falls through to the ALU instructions.\<close>

definition ex_jump :: "idex_reg \<Rightarrow> int \<Rightarrow> sim \<Rightarrow> sim option" where
  "ex_jump ide a s =
     (if c_call (id_ctrl ide) then
        (let s = upd_exmem (\<lambda>e. e\<lparr>ex_alu_result := id_pc_plus1 ide AND WORD_MASK, ex_rd := LR_REG\<rparr>) s
         in Some (if id_opcode ide = Op_CALLR then ex_jump_to (wrap_addr s a) s
                  else ex_jump_to (wrap_addr s (id_addr ide)) s))
      else if c_ret (id_ctrl ide) then
        Some (ex_jump_to (wrap_addr s (rf_get (sm_rf s) LR_REG)) s)
      else if id_opcode ide = Op_JMP then
        Some (ex_jump_to (wrap_addr s (id_addr ide)) s)
      else if id_opcode ide = Op_JMPR then
        Some (ex_jump_to (wrap_addr s (a + id_offset ide)) s)
      else None)"

definition ex_mfc :: "idex_reg \<Rightarrow> sim \<Rightarrow> sim" where
  "ex_mfc ide s =
     (let csr_idx = id_rs2_val ide AND 0x1F
      in upd_exmem (\<lambda>e. e\<lparr>ex_alu_result := csr_read s csr_idx, ex_rd := id_rd ide\<rparr>) s)"

definition ex_mtc :: "idex_reg \<Rightarrow> int \<Rightarrow> sim \<Rightarrow> sim" where
  "ex_mtc ide a s =
     (let csr_idx = id_rs2_val ide AND 0x1F;
          s = csr_write csr_idx (a AND WORD_MASK) s;
          s = upd_exmem (\<lambda>e. e\<lparr>ex_rd := 0\<rparr>) s
      in upd_stats (\<lambda>t. t\<lparr>st_instructions := st_instructions t + 1\<rparr>) s)"

definition ex_alu :: "idex_reg \<Rightarrow> int \<Rightarrow> int \<Rightarrow> sim \<Rightarrow> sim" where
  "ex_alu ide a b s =
     (let result = alu_execute (id_opcode ide) a b;
          s = upd_exmem (\<lambda>e. e\<lparr>ex_alu_result := ar_value result\<rparr>) s;
          s = (if id_opcode ide \<in> {Op_MUL, Op_MULH} then
                 upd_stats (\<lambda>t. t\<lparr>st_mul_stalls := st_mul_stalls t + 2\<rparr>) (s\<lparr>sm_exec_stall := 2\<rparr>)
               else if id_opcode ide \<in> {Op_DIV, Op_DIVU, Op_REM} then
                 upd_stats (\<lambda>t. t\<lparr>st_div_stalls := st_div_stalls t + 31\<rparr>) (s\<lparr>sm_exec_stall := 31\<rparr>)
               else s)
      in if \<not> (c_jump (id_ctrl ide) \<or> c_call (id_ctrl ide) \<or> c_halt (id_ctrl ide))
         then s\<lparr>sm_rf := rf_update_flags (sm_rf s) (ar_value result) (ar_carry result) (ar_ovf result)\<rparr>
         else s)"

definition ex_rest :: "idex_reg \<Rightarrow> int \<Rightarrow> int \<Rightarrow> sim \<Rightarrow> sim" where
  "ex_rest ide a b s =
     (if id_opcode ide = Op_MFC then ex_mfc ide s
      else if id_opcode ide = Op_MTC then ex_mtc ide a s
      else ex_alu ide a b s)"

definition ex_start :: "idex_reg \<Rightarrow> exmem_reg" where
  "ex_start ide =
     \<lparr>ex_ctrl = id_ctrl ide, ex_alu_result = 0, ex_rs2_val = id_rs2_val ide, ex_rd = id_rd ide,
      ex_mem_addr = 0, ex_jump_pc = 0, ex_take_jump = False, ex_valid = id_valid ide\<rparr>"

definition stage_ex :: "exmem_reg \<Rightarrow> memwb_reg \<Rightarrow> sim \<Rightarrow> sim" where
  "stage_ex prev_exmem prev_memwb s =
     (let ide = sm_idex s;
          s = s\<lparr>sm_exmem := ex_start ide\<rparr>;
          ctrl = id_ctrl ide
      in if \<not> id_valid ide \<or> c_is_nop ctrl then s
         else let (fwd_a, fwd_b) = fwd_calc ide prev_exmem prev_memwb;
                  (a, b) = fwd_resolve fwd_a fwd_b ide prev_exmem prev_memwb
              in if c_halt ctrl then s\<lparr>sm_fetch_stopped := True\<rparr>
                 else if c_syscall ctrl \<or> c_eret ctrl \<or> id_opcode ide = Op_BREAK then ex_system ide s
                 else if c_push ctrl then ex_push a s
                 else if c_pop ctrl then ex_pop ide s
                 else if c_mem_read ctrl \<and> \<not> c_pop ctrl then ex_load ide a s
                 else if c_mem_write ctrl \<and> \<not> c_push ctrl then ex_store ide a b s
                 else if c_branch ctrl then ex_branch ide a b s
                 else if c_jump ctrl then
                   (case ex_jump ide a s of Some s' \<Rightarrow> s' | None \<Rightarrow> ex_rest ide a b s)
                 else ex_rest ide a b s)"

section \<open>Decode and hazard detection\<close>

definition id_base :: "opcode \<Rightarrow> control_signals \<Rightarrow> int \<Rightarrow> idex_reg" where
  "id_base opcode ctrl pc_plus1 =
     \<lparr>id_opcode = opcode, id_fmt = OPCODE_FMT opcode, id_ctrl = ctrl, id_rs1_val = 0, id_rs2_val = 0,
      id_rd = 0, id_rs1 = 0, id_rs2 = 0, id_shamt = 0, id_addr = 0, id_offset = 0,
      id_pc_plus1 = pc_plus1, id_valid = True\<rparr>"

fun id_decode :: "regfile \<Rightarrow> decoded \<Rightarrow> control_signals \<Rightarrow> int \<Rightarrow> idex_reg \<Rightarrow> idex_reg" where
  "id_decode rf (D_Invalid raw word) ctrl pc1 idex = (idex_flush idex)\<lparr>id_valid := True\<rparr>"
| "id_decode rf (D_R opcode rd rs1 rs2 shmt) ctrl pc1 idex =
     (id_base opcode ctrl pc1)\<lparr>id_rd := rd, id_rs1 := rs1, id_rs2 := rs2, id_shamt := shmt,
        id_rs1_val := rf_get rf rs1,
        id_rs2_val := (if opcode \<in> {Op_SHLI, Op_SHRI, Op_SHRAI} then shmt
                       else if opcode = Op_MOV then rf_get rf rs1
                       else rf_get rf rs2)\<rparr>"
| "id_decode rf (D_I opcode rd rs1 imm) ctrl pc1 idex =
     (id_base opcode ctrl pc1)\<lparr>id_rd := rd, id_rs1 := rs1, id_offset := imm,
        id_rs1_val := (if opcode = Op_MOVI then 0 else rf_get rf rs1),
        id_rs2_val := imm AND WORD_MASK\<rparr>"
| "id_decode rf (D_S opcode rs2 rs1 off) ctrl pc1 idex =
     (id_base opcode ctrl pc1)\<lparr>id_rs1 := rs1, id_rs2 := rs2, id_offset := off,
        id_rs1_val := rf_get rf rs1, id_rs2_val := rf_get rf rs2\<rparr>"
| "id_decode rf (D_B opcode rs1 rs2 off) ctrl pc1 idex =
     (id_base opcode ctrl pc1)\<lparr>id_rs1 := rs1, id_rs2 := rs2, id_offset := off,
        id_rs1_val := rf_get rf rs1, id_rs2_val := rf_get rf rs2\<rparr>"
| "id_decode rf (D_J opcode addr) ctrl pc1 idex =
     (id_base opcode ctrl pc1)\<lparr>id_addr := addr, id_rd := (if c_call ctrl then LR_REG else 0)\<rparr>"
| "id_decode rf (D_U opcode rd imm21) ctrl pc1 idex =
     (id_base opcode ctrl pc1)\<lparr>id_rd := rd, id_offset := imm21, id_rs2_val := imm21\<rparr>"

definition stage_id_check_hazard :: "sim \<Rightarrow> bool \<times> sim" where
  "stage_id_check_hazard s =
     (let ifi = sm_ifid s;
          stall = detect_load_use (sm_idex s) ifi
      in if \<not> stall \<and> if_valid ifi then
           (let word = if_instruction ifi
            in (False, s\<lparr>sm_idex := id_decode (sm_rf s) (decode word) (cu_decode word)
                                      (if_pc_plus1 ifi) (sm_idex s)\<rparr>))
         else if \<not> if_valid ifi then (stall, s\<lparr>sm_idex := (sm_idex s)\<lparr>id_valid := False\<rparr>\<rparr>)
         else (stall, s))"

section \<open>Fetch\<close>

definition if_invalidate :: "sim \<Rightarrow> sim" where
  "if_invalidate s = s\<lparr>sm_ifid := (sm_ifid s)\<lparr>if_valid := False\<rparr>\<rparr>"

definition stage_if :: "sim \<Rightarrow> sim" where
  "stage_if s =
     (if sm_fetch_stopped s \<or> sm_pc s \<ge> int (length (sm_mem s)) then if_invalidate s
      else let (pa, s) = translate_addr (sm_pc s) False True (sm_pc s) s
           in case pa of
                None \<Rightarrow> if_invalidate s
              | Some pa \<Rightarrow>
                  let s = s\<lparr>sm_icache := snd (cache_access (sm_icache s) pa)\<rparr>
                  in if pa \<ge> int (length (sm_mem s)) then if_invalidate s
                     else let word = sm_mem s ! nat pa
                          in s\<lparr>sm_ifid := \<lparr>if_instruction = word, if_pc_plus1 = sm_pc s + 1,
                                           if_valid = True\<rparr>,
                               sm_pc := sm_pc s + 1\<rparr>)"

section \<open>The clock\<close>

definition take_snapshot :: "sim \<Rightarrow> bool \<Rightarrow> bool \<Rightarrow> snapshot" where
  "take_snapshot s stall flush =
     \<lparr>sn_cycle = st_cycles (sm_stats s), sn_pc = sm_pc s, sn_stall = stall, sn_flush = flush,
      sn_regs = rf_regs (sm_rf s), sn_flags = rf_flags (sm_rf s)\<rparr>"

definition exec_stall_cycle :: "sim \<Rightarrow> sim" where
  "exec_stall_cycle s =
     (let s = s\<lparr>sm_exec_stall := sm_exec_stall s - 1\<rparr>;
          s = upd_stats (\<lambda>t. t\<lparr>st_cycles := st_cycles t + 1, st_stalls := st_stalls t + 1\<rparr>) s;
          s = csr_upd CSR_CYCLE ((csr s CSR_CYCLE + 1) AND WORD_MASK) s
      in csr_upd CSR_ICOUNT ((csr s CSR_ICOUNT + 1) AND WORD_MASK) s)"

definition fetch_phase :: "bool \<Rightarrow> int \<Rightarrow> bool \<Rightarrow> sim \<Rightarrow> sim" where
  "fetch_phase take_jump jump_pc stall s =
     (if take_jump then
        (let s = flush_if_id_ex s;
             s = s\<lparr>sm_pc := wrap_addr s jump_pc, sm_fetch_stopped := False\<rparr>
         in stage_if s)
      else if \<not> stall then stage_if s
      else upd_stats (\<lambda>t. t\<lparr>st_stalls := st_stalls t + 1\<rparr>)
             (s\<lparr>sm_idex := idex_flush (sm_idex s)\<rparr>))"

definition count_cycle :: "bool \<Rightarrow> bool \<Rightarrow> sim \<Rightarrow> sim" where
  "count_cycle stall flush s =
     (let s = upd_stats (\<lambda>t. t\<lparr>st_cycles := st_cycles t + 1\<rparr>) s;
          s = (if flush then upd_stats (\<lambda>t. t\<lparr>st_flushes := st_flushes t + 1\<rparr>) s else s);
          cycle64 = shl (csr s CSR_CYCLEH) 32 OR csr s CSR_CYCLE;
          cycle64 = (cycle64 + 1) AND 0xFFFFFFFFFFFFFFFF;
          s = csr_upd CSR_CYCLE (cycle64 AND WORD_MASK) s;
          s = csr_upd CSR_CYCLEH (shr cycle64 32 AND WORD_MASK) s
      in if stall then csr_upd CSR_ICOUNT ((csr s CSR_ICOUNT + 1) AND WORD_MASK) s else s)"

definition clock :: "sim \<Rightarrow> snapshot \<times> sim" where
  "clock s =
     (if sm_exec_stall s > 0
      then (let s = exec_stall_cycle s in (take_snapshot s True False, s))
      else let s = stage_wb s;
               prev_memwb = sm_memwb s;
               prev_exmem = sm_exmem s;
               ((take_jump, jump_pc), s) = stage_mem s;
               s = stage_ex prev_exmem prev_memwb s;
               (stall, s) = stage_id_check_hazard s;
               s = fetch_phase take_jump jump_pc stall s;
               s = count_cycle stall take_jump s
           in (take_snapshot s stall take_jump, s))"

definition sim_step :: "sim \<Rightarrow> snapshot option \<times> sim" where
  "sim_step s =
     (if sm_halted s then (None, s)
      else let (snap, s) = clock s
           in (Some snap, s\<lparr>sm_history := sm_history s @ [snap]\<rparr>))"

text \<open>Only the clock counts cycles, one at a time; \<^verbatim>\<open>run\<close> therefore ends.\<close>

abbreviation cycles :: "sim \<Rightarrow> int" where
  "cycles s \<equiv> st_cycles (sm_stats s)"

lemma cycles_csr_upd [simp]: "cycles (csr_upd i v s) = cycles s"
  by (simp add: csr_upd_def)

lemma cycles_log [simp]: "cycles (log_add e s) = cycles s"
  by (simp add: log_add_def)

lemma cycles_set_reg [simp]: "cycles (set_reg i v s) = cycles s"
  by (simp add: set_reg_def)

lemma cycles_raise [simp]: "cycles (raise_exception c p s) = cycles s"
  by (simp add: raise_exception_def Let_def flush_if_id_ex_def csr_upd_def log_add_def)

lemma cycles_translate [simp]: "cycles (snd (translate_addr va w x p s)) = cycles s"
  by (simp add: translate_addr_def Let_def case_prod_beta split: option.split)

lemma cycles_csr_write [simp]: "cycles (csr_write i v s) = cycles s"
  by (simp add: csr_write_def Let_def)

lemma cycles_wb [simp]: "cycles (stage_wb s) = cycles s"
  by (simp add: stage_wb_def Let_def)

lemma cycles_mem_jump [simp]: "cycles (snd (mem_jump e s)) = cycles s"
  by (simp add: mem_jump_def)

lemma cycles_load [simp]: "cycles (snd (mem_load e s)) = cycles s"
  by (simp add: mem_load_def Let_def case_prod_beta split: option.split)

lemma cycles_store [simp]: "cycles (snd (mem_store e s)) = cycles s"
  by (simp add: mem_store_def Let_def case_prod_beta split: option.split)

lemma cycles_mem [simp]: "cycles (snd (stage_mem s)) = cycles s"
  by (simp add: stage_mem_def Let_def)

lemma cycles_jump_to [simp]: "cycles (ex_jump_to t s) = cycles s"
  by (simp add: ex_jump_to_def)

lemma cycles_rest [simp]: "cycles (ex_rest ide a b s) = cycles s"
  by (simp add: ex_rest_def ex_mfc_def ex_mtc_def ex_alu_def Let_def)

lemma cycles_jump [simp]:
  "cycles (case ex_jump ide a s of None \<Rightarrow> ex_rest ide a b s | Some s' \<Rightarrow> s') = cycles s"
  by (simp add: ex_jump_def Let_def)

lemma cycles_ex_parts [simp]:
  "cycles (ex_system ide s) = cycles s" "cycles (ex_push a s) = cycles s" "cycles (ex_pop ide s) = cycles s"
  "cycles (ex_load ide a s) = cycles s" "cycles (ex_store ide a b s) = cycles s"
  "cycles (ex_branch ide a b s) = cycles s"
  by (simp_all add: ex_system_def ex_push_def ex_pop_def ex_load_def ex_store_def ex_branch_def Let_def)

lemma cycles_ex [simp]: "cycles (stage_ex e m s) = cycles s"
  by (simp add: stage_ex_def Let_def case_prod_beta)

lemma cycles_id [simp]: "cycles (snd (stage_id_check_hazard s)) = cycles s"
  by (simp add: stage_id_check_hazard_def Let_def)

lemma cycles_if [simp]: "cycles (stage_if s) = cycles s"
  by (simp add: stage_if_def if_invalidate_def Let_def case_prod_beta split: option.split)

lemma cycles_fetch_phase [simp]: "cycles (fetch_phase j p st s) = cycles s"
  by (simp add: fetch_phase_def Let_def flush_if_id_ex_def)

lemma cycles_count [simp]: "cycles (count_cycle st f s) = cycles s + 1"
  by (simp add: count_cycle_def Let_def csr_upd_def)

lemma cycles_clock [simp]: "cycles (snd (clock s)) = cycles s + 1"
proof (cases "sm_exec_stall s > 0")
  case True
  then show ?thesis
    by (simp add: clock_def exec_stall_cycle_def csr_upd_def Let_def)
next
  case False
  then show ?thesis
    by (simp add: clock_def Let_def case_prod_beta)
qed

lemma sim_step_cycles: "cycles (snd (sim_step s)) = (if sm_halted s then cycles s else cycles s + 1)"
  by (simp add: sim_step_def case_prod_beta Let_def)

function sim_loop :: "int \<Rightarrow> sim \<Rightarrow> sim" where
  "sim_loop max_cycles s =
     (if \<not> sm_halted s \<and> cycles s < max_cycles
      then sim_loop max_cycles (snd (sim_step s)) else s)"
  by pat_completeness auto
termination
  by (relation "measure (\<lambda>(m, s). nat (m - cycles s))") (simp_all add: sim_step_cycles)

declare sim_loop.simps [simp del]

definition sim_run :: "int \<Rightarrow> sim \<Rightarrow> sim_stats \<times> sim" where
  "sim_run max_cycles s =
     (let s = sim_loop max_cycles s;
          s = (if \<not> sm_halted s then log_add (Log_Limit max_cycles) s else s)
      in (sm_stats s, s))"

end
