(* ===== verification/Sim_Invariant.thy ===== *)
theory Sim_Invariant
  imports Simulator
begin

unbundle bit_operations_syntax

text \<open>
  The well-formedness of a simulator state and its preservation by every operation: register,
  CSR, memory and latch values stay in the 32-bit range, R0 stays 0, every register number in a
  latch passes the bank's index check and every address the stages form is inside the memory, so
  none of the list accesses of the simulator raises.
\<close>

section \<open>Well-formed states\<close>

definition mem_wf :: "int list \<Rightarrow> bool" where
  "mem_wf m \<longleftrightarrow> m \<noteq> [] \<and> list_all u32 m"

definition csrs_wf :: "int list \<Rightarrow> bool" where
  "csrs_wf c \<longleftrightarrow> length c = 32 \<and> list_all u32 c"

definition ifid_ok :: "ifid_reg \<Rightarrow> bool" where
  "ifid_ok r \<longleftrightarrow> u32 (if_instruction r)"

definition idex_ok :: "idex_reg \<Rightarrow> bool" where
  "idex_ok r \<longleftrightarrow> ctrl_ok (id_ctrl r) \<and> reg_index (id_rd r) \<and> reg_index (id_rs1 r)
     \<and> reg_index (id_rs2 r) \<and> u32 (id_rs1_val r) \<and> u32 (id_rs2_val r)"

definition exmem_ok :: "exmem_reg \<Rightarrow> bool" where
  "exmem_ok r \<longleftrightarrow> ctrl_ok (ex_ctrl r) \<and> reg_index (ex_rd r) \<and> u32 (ex_alu_result r)
     \<and> u32 (ex_rs2_val r) \<and> u32 (ex_mem_addr r)"

definition memwb_ok :: "memwb_reg \<Rightarrow> bool" where
  "memwb_ok r \<longleftrightarrow> ctrl_ok (wb_ctrl r) \<and> reg_index (wb_rd r) \<and> u32 (wb_alu_result r)
     \<and> u32 (wb_mem_data r)"

definition sim_wf :: "sim \<Rightarrow> bool" where
  "sim_wf s \<longleftrightarrow> mem_wf (sm_mem s) \<and> rf_wf (sm_rf s) \<and> csrs_wf (sm_csrs s)
     \<and> cache_wf (sm_icache s) \<and> cache_wf (sm_dcache s) \<and> tlb_shape (sm_tlb s)
     \<and> 0 \<le> sm_pc s \<and> sm_pc s \<le> int (length (sm_mem s))
     \<and> 0 \<le> sm_exec_stall s \<and> sm_exec_stall s \<le> 31
     \<and> ifid_ok (sm_ifid s) \<and> idex_ok (sm_idex s) \<and> exmem_ok (sm_exmem s) \<and> memwb_ok (sm_memwb s)"

section \<open>Component updates\<close>

lemma mem_wf_update [wf_intros]: "mem_wf m \<Longrightarrow> u32 v \<Longrightarrow> mem_wf (m[i := v])"
  by (auto simp: mem_wf_def intro: list_all_update)

lemma mem_wf_nth: "mem_wf m \<Longrightarrow> i < length m \<Longrightarrow> u32 (m ! i)"
  by (auto simp: mem_wf_def intro: list_all_nth)

lemma csrs_wf_update [wf_intros]: "csrs_wf c \<Longrightarrow> u32 v \<Longrightarrow> csrs_wf (c[i := v])"
  by (auto simp: csrs_wf_def intro: list_all_update)

lemma csr_u32: "sim_wf s \<Longrightarrow> 0 \<le> i \<Longrightarrow> i < 32 \<Longrightarrow> u32 (csr s i)"
  by (auto simp: sim_wf_def csrs_wf_def csr_def list_all_length)

lemma wrap_addr_range: "mem_wf (sm_mem s) \<Longrightarrow> 0 \<le> wrap_addr s a \<and> wrap_addr s a < int (length (sm_mem s))"
  using AND_len_range [of "length (sm_mem s)" a] by (simp add: wrap_addr_def mem_wf_def)

lemma wrap_addr_nat: "mem_wf (sm_mem s) \<Longrightarrow> nat (wrap_addr s a) < length (sm_mem s)"
  using wrap_addr_range [of s a] by linarith

lemma ifid_ok_simps [wf_simps]:
  "ifid_ok ifid_init" "ifid_ok (ifid_flush r)" "ifid_ok (r\<lparr>if_valid := b\<rparr>) = ifid_ok r"
  by (simp_all add: ifid_ok_def ifid_init_def ifid_flush_def NOP_WORD_eq u32_def)

lemma idex_ok_simps [wf_simps]:
  "idex_ok idex_init" "idex_ok r \<Longrightarrow> idex_ok (idex_flush r)" "idex_ok (r\<lparr>id_valid := b\<rparr>) = idex_ok r"
  by (simp_all add: idex_ok_def idex_init_def idex_flush_def)

lemma exmem_ok_simps [wf_simps]:
  "exmem_ok exmem_init" "exmem_ok r \<Longrightarrow> exmem_ok (exmem_flush r)"
  "exmem_ok (r\<lparr>ex_take_jump := b, ex_jump_pc := p\<rparr>) = exmem_ok r"
  by (simp_all add: exmem_ok_def exmem_init_def exmem_flush_def)

lemma exmem_ok_start [wf_simps]: "idex_ok r \<Longrightarrow> exmem_ok (ex_start r)"
  by (simp add: exmem_ok_def idex_ok_def ex_start_def)

lemma memwb_ok_simps [wf_simps]: "memwb_ok memwb_init"
  by (simp add: memwb_ok_def memwb_init_def)

lemma sim_wf_csr_upd: "sim_wf s \<Longrightarrow> u32 v \<Longrightarrow> sim_wf (csr_upd i v s)"
  by (simp add: sim_wf_def csr_upd_def csrs_wf_update)

lemma sim_wf_log [wf_simps]: "sim_wf (log_add e s) = sim_wf s"
  by (simp add: sim_wf_def log_add_def)

lemma sim_wf_stats [wf_simps]: "sim_wf (s\<lparr>sm_stats := t\<rparr>) = sim_wf s"
  by (simp add: sim_wf_def)

lemma sim_wf_history [wf_simps]: "sim_wf (s\<lparr>sm_history := t\<rparr>) = sim_wf s"
  by (simp add: sim_wf_def)

lemma sim_wf_set_reg: "sim_wf s \<Longrightarrow> reg_index i \<Longrightarrow> sim_wf (set_reg i v s)"
  by (simp add: sim_wf_def set_reg_def rfile.inv_set)

lemma sim_wf_exmem: "sim_wf s \<Longrightarrow> exmem_ok e \<Longrightarrow> sim_wf (s\<lparr>sm_exmem := e\<rparr>)"
  by (simp add: sim_wf_def)

lemma sim_wf_flush: "sim_wf s \<Longrightarrow> sim_wf (flush_if_id_ex s)"
  by (simp add: sim_wf_def flush_if_id_ex_def wf_simps)

section \<open>Traps and translation\<close>

lemma handler_range:
  "mem_wf (sm_mem s) \<Longrightarrow> 0 \<le> wrap_addr s a \<and> wrap_addr s a \<le> int (length (sm_mem s))"
  using wrap_addr_range [of s a] by simp

lemma sim_wf_pc: "sim_wf s \<Longrightarrow> sim_wf (s\<lparr>sm_fetch_stopped := b, sm_pc := wrap_addr s a\<rparr>)"
  using handler_range [of s a] by (simp add: sim_wf_def)

lemma sim_wf_raise: "sim_wf s \<Longrightarrow> sim_wf (raise_exception c p s)"
proof -
  assume s: "sim_wf s"
  then show ?thesis
    unfolding raise_exception_def Let_def sim_wf_log
    by (intro sim_wf_pc sim_wf_flush sim_wf_csr_upd) simp_all
qed

lemma sim_wf_translate: "sim_wf s \<Longrightarrow> sim_wf (snd (translate_addr va w x p s))"
proof -
  assume s: "sim_wf s"
  have "sim_wf (s\<lparr>sm_tlb := snd (tlb_translate (sm_tlb s) va (sm_mem s) pt w x)\<rparr>)" for pt
    using s by (simp add: sim_wf_def mmu.translate_invar)
  with s show ?thesis
    by (auto simp: translate_addr_def Let_def case_prod_beta split: option.split intro: sim_wf_raise)
qed

lemma translate_keeps:
  "sm_mem (snd (translate_addr va w x p s)) = sm_mem s"
  "sm_memwb (snd (translate_addr va w x p s)) = sm_memwb s"
  "sm_rf (snd (translate_addr va w x p s)) = sm_rf s"
  "sm_dcache (snd (translate_addr va w x p s)) = sm_dcache s"
  "sm_icache (snd (translate_addr va w x p s)) = sm_icache s"
  by (simp_all add: translate_addr_def raise_exception_def log_add_def csr_upd_def flush_if_id_ex_def
      Let_def case_prod_beta split: option.split)

lemma translate_Some_keeps:
  "fst (translate_addr va w x p s) = Some a \<Longrightarrow>
   snd (translate_addr va w x p s) = s\<lparr>sm_tlb := sm_tlb (snd (translate_addr va w x p s))\<rparr>"
  by (auto simp: translate_addr_def Let_def case_prod_beta split: option.splits if_splits)

lemma sim_wf_csr_write: "sim_wf s \<Longrightarrow> sim_wf (csr_write i v s)"
proof -
  assume s: "sim_wf s"
  have t: "sim_wf u \<Longrightarrow> sim_wf (u\<lparr>sm_tlb := tlb_flush (sm_tlb u)\<rparr>)" for u
    by (simp add: sim_wf_def mmu.flush_invar)
  show ?thesis
    using s by (auto simp: csr_write_def Let_def intro!: sim_wf_csr_upd t)
qed

lemma csr_read_u32: "sim_wf s \<Longrightarrow> u32 (csr_read s i)"
  by (simp add: csr_read_def Let_def)

section \<open>Stages\<close>

lemma sim_wf_wb: "sim_wf s \<Longrightarrow> sim_wf (stage_wb s)"
proof -
  assume s: "sim_wf s"
  then have "reg_index (wb_rd (sm_memwb s))"
    by (simp add: sim_wf_def memwb_ok_def)
  moreover have "sim_wf (s\<lparr>sm_halted := True\<rparr>)"
    using s by (simp add: sim_wf_def)
  ultimately show ?thesis
    using s by (simp add: stage_wb_def Let_def wf_simps sim_wf_set_reg)
qed

lemma u32_load_data: "u32 (load_data r sz sg va)"
  by (simp add: load_data_def Let_def)

lemma byte_shift: "nat ((va AND 3) * 8) \<in> {0, 8, 16, 24}"
proof -
  have "0 \<le> va AND 3" "va AND 3 < 4"
    using take_bit_int_range [of 2 va] by (simp_all add: mask_bits)
  then have "va AND 3 = 0 \<or> va AND 3 = 1 \<or> va AND 3 = 2 \<or> va AND 3 = 3" by linarith
  then show ?thesis by auto
qed

lemma half_shift: "nat ((va AND 2) * 8) \<in> {0, 16}"
proof -
  have "0 \<le> va AND 2" "va AND 2 \<le> 2" "even (va AND 2)"
    by (simp_all add: AND_upper2 even_and_iff)
  then have "va AND 2 = 0 \<or> va AND 2 = 2" by presburger
  then show ?thesis by auto
qed

lemma u32_store_data: "u32 old \<Longrightarrow> u32 val \<Longrightarrow> u32 (store_data old sz va val)"
  using byte_shift [of va] half_shift [of va]
  by (auto simp: store_data_def Let_def mask_bits u32_AND_left
      intro!: u32_OR u32_shl_field u32_low_field simp del: push_bit_take_bit)

lemma mem_jump_parts [simp]:
  "sim_wf (snd (mem_jump e s)) = sim_wf s"
  by (simp add: mem_jump_def wf_simps)

lemma sim_wf_load: "sim_wf s \<Longrightarrow> sim_wf (snd (mem_load e s))"
proof -
  assume s: "sim_wf s"
  have t: "sim_wf u \<Longrightarrow> u32 d \<Longrightarrow>
      sim_wf (u\<lparr>sm_dcache := snd (cache_access (sm_dcache u) a),
               sm_memwb := (sm_memwb u)\<lparr>wb_mem_data := d\<rparr>\<rparr>)" for u d a
    by (simp add: sim_wf_def cache_wf_access memwb_ok_def)
  show ?thesis
    using sim_wf_translate [OF s]
    by (auto simp: mem_load_def Let_def case_prod_beta wf_simps u32_load_data split: option.split
        intro!: t)
qed

lemma sim_wf_store: "sim_wf s \<Longrightarrow> exmem_ok e \<Longrightarrow> sim_wf (snd (mem_store e s))"
proof -
  assume s: "sim_wf s" and e: "exmem_ok e"
  have t: "sim_wf u \<Longrightarrow> u32 d \<Longrightarrow>
      sim_wf (u\<lparr>sm_dcache := snd (cache_access (sm_dcache u) a), sm_mem := (sm_mem u)[i := d]\<rparr>)"
    for u d a i
    by (simp add: sim_wf_def cache_wf_access mem_wf_update)
  have d: "sim_wf u \<Longrightarrow> u32 (store_data (sm_mem u ! nat (wrap_addr u a)) sz va (v AND 0xFFFFFFFF))"
    for u a sz va v
    by (rule u32_store_data) (auto simp: sim_wf_def intro: mem_wf_nth wrap_addr_nat)
  show ?thesis
    using sim_wf_translate [OF s]
    by (auto simp: mem_store_def Let_def case_prod_beta wf_simps wrap_addr_def split: option.split
        intro!: t d [unfolded wrap_addr_def])
qed

lemma sim_wf_mem: "sim_wf s \<Longrightarrow> sim_wf (snd (stage_mem s))"
proof -
  assume s: "sim_wf s"
  then have e: "exmem_ok (sm_exmem s)" by (simp add: sim_wf_def)
  define u where "u = s\<lparr>sm_memwb := \<lparr>wb_ctrl = ex_ctrl (sm_exmem s),
      wb_alu_result = ex_alu_result (sm_exmem s), wb_mem_data = 0, wb_rd = ex_rd (sm_exmem s),
      wb_valid = ex_valid (sm_exmem s)\<rparr>\<rparr>"
  have "sim_wf u"
    using s e by (simp add: u_def sim_wf_def memwb_ok_def exmem_ok_def)
  then show ?thesis
    unfolding stage_mem_def Let_def u_def [symmetric]
    using e by (simp add: sim_wf_load sim_wf_store)
qed

text \<open>EX: every branch of the stage keeps the invariant.\<close>

lemma exmem_ok_sets [wf_simps]:
  "exmem_ok e \<Longrightarrow> u32 m \<Longrightarrow> exmem_ok (e\<lparr>ex_mem_addr := m\<rparr>)"
  "exmem_ok e \<Longrightarrow> u32 v \<Longrightarrow> exmem_ok (e\<lparr>ex_rs2_val := v\<rparr>)"
  "exmem_ok e \<Longrightarrow> u32 v \<Longrightarrow> exmem_ok (e\<lparr>ex_alu_result := v\<rparr>)"
  "exmem_ok e \<Longrightarrow> reg_index r \<Longrightarrow> exmem_ok (e\<lparr>ex_rd := r\<rparr>)"
  "exmem_ok e \<Longrightarrow> exmem_ok (e\<lparr>ex_take_jump := b\<rparr>)"
  "exmem_ok e \<Longrightarrow> exmem_ok (e\<lparr>ex_jump_pc := p\<rparr>)"
  by (simp_all add: exmem_ok_def)

lemma sim_wfD:
  assumes "sim_wf s"
  shows "mem_wf (sm_mem s)" "rf_wf (sm_rf s)" "idex_ok (sm_idex s)" "exmem_ok (sm_exmem s)"
    "memwb_ok (sm_memwb s)" "ifid_ok (sm_ifid s)" "0 \<le> sm_pc s" "sm_pc s \<le> int (length (sm_mem s))"
  using assms by (simp_all add: sim_wf_def)

lemma reg_index_consts [simp]: "reg_index SP_REG" "reg_index LR_REG" "reg_index ZERO_REG"
  by (simp_all add: reg_index_def isa_consts)

lemma sim_wf_jump_to: "sim_wf s \<Longrightarrow> sim_wf (ex_jump_to t s)"
  by (simp add: ex_jump_to_def sim_wf_exmem wf_simps sim_wfD)

lemma sim_wf_system: "sim_wf s \<Longrightarrow> sim_wf (ex_system ide s)"
  by (simp add: ex_system_def Let_def sim_wf_raise sim_wf_jump_to sim_wf_csr_upd)

lemma sim_wf_push: "sim_wf s \<Longrightarrow> u32 a \<Longrightarrow> sim_wf (ex_push a s)"
  by (simp add: ex_push_def Let_def sim_wf_exmem sim_wf_set_reg wf_simps sim_wfD)

lemma sim_wf_pop: "sim_wf s \<Longrightarrow> idex_ok ide \<Longrightarrow> sim_wf (ex_pop ide s)"
  by (simp add: ex_pop_def Let_def sim_wf_exmem sim_wf_set_reg wf_simps sim_wfD idex_ok_def)

lemma sim_wf_ex_load: "sim_wf s \<Longrightarrow> idex_ok ide \<Longrightarrow> sim_wf (ex_load ide a s)"
  by (simp add: ex_load_def sim_wf_exmem wf_simps sim_wfD idex_ok_def)

lemma sim_wf_ex_store: "sim_wf s \<Longrightarrow> u32 b \<Longrightarrow> sim_wf (ex_store ide a b s)"
  by (simp add: ex_store_def sim_wf_exmem wf_simps sim_wfD)

lemma sim_wf_branch: "sim_wf s \<Longrightarrow> sim_wf (ex_branch ide a b s)"
  by (simp add: ex_branch_def Let_def sim_wf_jump_to)

lemma sim_wf_jump: "sim_wf s \<Longrightarrow> ex_jump ide a s = Some s' \<Longrightarrow> sim_wf s'"
proof -
  assume s: "sim_wf s" and j: "ex_jump ide a s = Some s'"
  have "sim_wf (s\<lparr>sm_exmem := (sm_exmem s)\<lparr>ex_alu_result := id_pc_plus1 ide AND 0xFFFFFFFF,
            ex_rd := LR_REG\<rparr>\<rparr>)"
    using s by (simp add: sim_wf_exmem wf_simps sim_wfD)
  with s j show ?thesis
    by (auto simp: ex_jump_def Let_def intro!: sim_wf_jump_to split: if_splits)
qed

lemma sim_wf_mfc: "sim_wf s \<Longrightarrow> idex_ok ide \<Longrightarrow> sim_wf (ex_mfc ide s)"
  by (simp add: ex_mfc_def Let_def sim_wf_exmem wf_simps sim_wfD csr_read_u32 idex_ok_def)

lemma sim_wf_mtc: "sim_wf s \<Longrightarrow> sim_wf (ex_mtc ide a s)"
  by (simp add: ex_mtc_def Let_def wf_simps sim_wf_exmem sim_wf_csr_write sim_wfD)

lemma sim_wf_flags: "sim_wf s \<Longrightarrow> sim_wf (s\<lparr>sm_rf := rf_update_flags (sm_rf s) r c ov\<rparr>)"
  by (simp add: sim_wf_def)

lemma sim_wf_ex_alu: "sim_wf s \<Longrightarrow> sim_wf (ex_alu ide a b s)"
  by (simp add: ex_alu_def Let_def sim_wf_def exmem_ok_sets(3) ar_value_u32)

lemma sim_wf_ex: "sim_wf s \<Longrightarrow> sim_wf (stage_ex e m s)"
proof -
  assume s: "sim_wf s"
  define u where "u = s\<lparr>sm_exmem := ex_start (sm_idex s)\<rparr>"
  have u: "sim_wf u"
    using s by (simp add: u_def sim_wf_def wf_simps)
  have stop: "sim_wf (u\<lparr>sm_fetch_stopped := True\<rparr>)"
    using u by (simp add: sim_wf_def)
  have rest: "sim_wf (ex_rest (sm_idex s) a b u)" for a b
    using u s by (simp add: ex_rest_def sim_wf_mfc sim_wf_mtc sim_wf_ex_alu sim_wfD)
  have jump: "sim_wf (case ex_jump (sm_idex s) a u of None \<Rightarrow> ex_rest (sm_idex s) a b u | Some v \<Rightarrow> v)"
    for a b using rest sim_wf_jump [OF u] by (auto split: option.split)
  note ops = fwd_operands_u32 [unfolded fwd_operands_def, of "sm_idex s" e m]
  show ?thesis
    unfolding stage_ex_def Let_def u_def [symmetric] using u s ops
    by (simp add: case_prod_beta stop rest jump sim_wf_system sim_wf_push sim_wf_pop sim_wf_ex_load
        sim_wf_ex_store sim_wf_branch sim_wfD)
qed

text \<open>ID, IF and the clock.\<close>

lemma u32_imm21: "0 \<le> x \<Longrightarrow> x < 2097152 \<Longrightarrow> u32 x"
  by (simp add: u32_def)

lemma idex_ok_decode:
  assumes rf: "rf_wf rf" and i: "idex_ok r" and c: "ctrl_ok c" and d: "decoded_ok d"
  shows "idex_ok (id_decode rf d c p r)"
  using assms
  by (cases d) (auto simp: idex_ok_def idex_flush_def id_base_def rfile.get_u32 u32_reg_index
      intro: u32_reg_index u32_imm21)

lemma sim_wf_id: "sim_wf s \<Longrightarrow> sim_wf (snd (stage_id_check_hazard s))"
proof -
  assume s: "sim_wf s"
  have "idex_ok (id_decode (sm_rf s) (decode w) (cu_decode w) p (sm_idex s))" for w p
    using s by (intro idex_ok_decode) (simp_all add: sim_wfD ctrl_ok_decode decode_ok)
  with s show ?thesis
    by (simp add: stage_id_check_hazard_def Let_def sim_wf_def wf_simps)
qed

lemma sim_wf_if: "sim_wf s \<Longrightarrow> sim_wf (stage_if s)"
proof -
  assume s: "sim_wf s"
  define u where "u = snd (translate_addr (sm_pc s) False True (sm_pc s) s)"
  have u: "sim_wf u" and m: "sm_mem u = sm_mem s"
    using s by (simp_all add: u_def sim_wf_translate translate_keeps)
  have inv: "sim_wf v \<Longrightarrow> sim_wf (if_invalidate v)" for v
    by (simp add: sim_wf_def if_invalidate_def wf_simps)
  show ?thesis
  proof (cases "fst (translate_addr (sm_pc s) False True (sm_pc s) s)")
    case None
    then show ?thesis
      using inv [OF s] inv [OF u] by (simp add: stage_if_def Let_def case_prod_beta u_def)
  next
    case (Some pa)
    have pc: "sm_pc u = sm_pc s"
      using arg_cong [OF translate_Some_keeps [OF Some], of sm_pc] by (simp add: u_def)
    define v where "v = u\<lparr>sm_icache := snd (cache_access (sm_icache u) pa)\<rparr>"
    have v: "sim_wf v" "sm_mem v = sm_mem s" "sm_pc v = sm_pc s"
      using u by (simp_all add: v_def sim_wf_def cache_wf_access m pc)
    have w: "sim_wf (v\<lparr>sm_ifid := \<lparr>if_instruction = sm_mem v ! nat pa, if_pc_plus1 = sm_pc v + 1,
        if_valid = True\<rparr>, sm_pc := sm_pc v + 1\<rparr>)"
      if "sm_pc s < int (length (sm_mem s))" "pa < int (length (sm_mem v))"
      using v that mem_wf_nth [of "sm_mem v" "nat pa"]
      by (auto simp: sim_wf_def ifid_ok_def mem_wf_def)
    show ?thesis
      using inv [OF s] inv [OF v(1)] w Some
      by (simp add: stage_if_def Let_def case_prod_beta v_def [symmetric] u_def [symmetric] m v(2))
  qed
qed

lemma sim_wf_fetch: "sim_wf s \<Longrightarrow> sim_wf (fetch_phase j p st s)"
proof -
  assume s: "sim_wf s"
  have "sim_wf ((flush_if_id_ex s)\<lparr>sm_pc := wrap_addr (flush_if_id_ex s) p, sm_fetch_stopped := False\<rparr>)"
    using sim_wf_flush [OF s] handler_range [of "flush_if_id_ex s" p] by (simp add: sim_wf_def)
  moreover have "sim_wf (s\<lparr>sm_idex := idex_flush (sm_idex s)\<rparr>)"
    using s by (simp add: sim_wf_def wf_simps)
  ultimately show ?thesis
    using s by (simp add: fetch_phase_def Let_def sim_wf_if wf_simps)
qed

lemma sim_wf_count: "sim_wf s \<Longrightarrow> sim_wf (count_cycle st f s)"
  by (simp add: count_cycle_def Let_def sim_wf_csr_upd wf_simps)

lemma sim_wf_stall_cycle: "sim_wf s \<Longrightarrow> 0 < sm_exec_stall s \<Longrightarrow> sim_wf (exec_stall_cycle s)"
proof -
  assume s: "sim_wf s" "0 < sm_exec_stall s"
  then have "sim_wf (s\<lparr>sm_exec_stall := sm_exec_stall s - 1\<rparr>)"
    by (simp add: sim_wf_def)
  then show ?thesis
    by (simp add: exec_stall_cycle_def Let_def sim_wf_csr_upd wf_simps)
qed

lemma sim_wf_clock: "sim_wf s \<Longrightarrow> sim_wf (snd (clock s))"
  by (simp add: clock_def Let_def case_prod_beta sim_wf_stall_cycle sim_wf_count sim_wf_fetch sim_wf_id
      sim_wf_ex sim_wf_mem sim_wf_wb)

lemma sim_wf_step: "sim_wf s \<Longrightarrow> sim_wf (snd (sim_step s))"
  by (simp add: sim_step_def Let_def case_prod_beta sim_wf_clock wf_simps)

lemma sim_wf_loop: "sim_wf s \<Longrightarrow> sim_wf (sim_loop m s)"
proof (induction m s rule: sim_loop.induct)
  case (1 m s)
  then show ?case
    by (subst sim_loop.simps) (simp add: sim_wf_step)
qed

lemma sim_wf_run: "sim_wf s \<Longrightarrow> sim_wf (snd (sim_run m s))"
  by (simp add: sim_run_def Let_def sim_wf_loop wf_simps)

section \<open>Construction and loading\<close>

lemma sim_wf_init: "0 < n \<Longrightarrow> sim_wf (sim_init n)"
  by (simp add: sim_wf_def sim_init_def mem_wf_def csrs_wf_def wf_simps rfile.inv_set rf_wf_init
      cache_wf_init tlb_shape_init isa_consts reg_index_def)

lemma sim_wf_reset: "sim_wf s \<Longrightarrow> sim_wf (sim_reset s)"
  by (simp add: sim_wf_def sim_reset_def csrs_wf_def wf_simps rfile.inv_set rf_wf_init
      cache_wf_reset tlb_shape_init isa_consts reg_index_def)

lemma load_words_wf:
  "load_words mem addr ws = Inr m \<Longrightarrow> mem_wf mem \<Longrightarrow> mem_wf m \<and> length m = length mem"
proof (induction ws arbitrary: mem addr)
  case (Cons w ws)
  obtain i where "py_list_index mem addr = Some i"
    and l: "load_words (mem[i := w AND 0xFFFFFFFF]) (addr + 1) ws = Inr m"
    using Cons.prems(1) by (auto split: option.splits)
  show ?case
    using Cons.IH [OF l] Cons.prems(2) by (simp add: mem_wf_update)
qed simp

lemma sim_wf_load_program:
  "sim_wf s \<Longrightarrow> 0 \<le> a \<Longrightarrow> a \<le> int (length (sm_mem s)) \<Longrightarrow> load_program s ws a = Inr s' \<Longrightarrow> sim_wf s'"
proof -
  assume s: "sim_wf s" and a: "0 \<le> a" "a \<le> int (length (sm_mem s))" and l: "load_program s ws a = Inr s'"
  have r: "sim_wf (sim_reset s)" "sm_mem (sim_reset s) = sm_mem s"
    using s by (simp_all add: sim_wf_reset) (simp add: sim_reset_def)
  obtain m where m: "load_words (sm_mem s) a ws = Inr m"
    and s': "s' = log_add (Log_Loaded (length ws) a) ((sim_reset s)\<lparr>sm_mem := m, sm_pc := a\<rparr>)"
    using l by (auto simp: load_program_def Let_def r split: sum.splits)
  have "mem_wf m \<and> length m = length (sm_mem s)"
    using load_words_wf [OF m] s by (simp add: sim_wf_def)
  then show ?thesis
    using r a by (simp add: s' wf_simps) (simp add: sim_wf_def)
qed

end
