(* ===== verification/Mem_Access.thy ===== *)
theory Mem_Access
  imports Simulator
begin

unbundle bit_operations_syntax

text \<open>
  The sub-word accesses of the MEM stage (\<open>load_data\<close> and \<open>store_data\<close> of the simulator).  The
  memory is addressed in words, and the two low bits of the same address select the byte lane.
  The lemmas give the result of each access in terms of byte lanes and of sign extension, and the
  value a load returns after a store to the same address.
\<close>

lemma ones_hi: "(0xFFFFFF00 :: int) = push_bit 8 (mask 24)" "(0xFFFF0000 :: int) = push_bit 16 (mask 16)"
  "(0xFF :: int) = mask 8" "(0xFFFF :: int) = mask 16" "(0xFFFFFFFF :: int) = mask 32"
  "(0x80 :: int) = push_bit 7 1" "(0x8000 :: int) = push_bit 15 1"
  by (simp_all add: push_bit_eq_mult mask_eq_exp_minus_1)

lemma test_bit: "x AND push_bit n 1 \<noteq> 0 \<longleftrightarrow> bit (x :: int) n"
  by (metis and_exp_eq_0_iff_not_bit push_bit_of_1)

text \<open>The byte at position \<open>k\<close> of a word.\<close>

definition lane :: "int \<Rightarrow> nat \<Rightarrow> int" where
  "lane w k = shr w (8 * k) AND 0xFF"

lemma load_byte:
  "load_data w 0 sx va = (let v = shr w (nat ((va AND 3) * 8)) AND 0xFF
     in if sx then sext v 8 AND 0xFFFFFFFF else v)"
  unfolding load_data_def Let_def WORD_MASK_eq
  apply (simp only: ones_hi test_bit sext_signed simp_thms if_True refl zero_less_numeral)
  apply (rule bit_eqI)
  subgoal for n by (cases "n = 7") (auto simp: bit_simps min_def not_less)
  done

lemma load_half:
  "load_data w 1 sx va = (let v = shr w (nat ((va AND 2) * 8)) AND 0xFFFF
     in if sx then sext v 16 AND 0xFFFFFFFF else v)"
  unfolding load_data_def Let_def WORD_MASK_eq
  apply (simp only: ones_hi test_bit sext_signed simp_thms if_True refl zero_less_numeral one_neq_zero if_False)
  apply (rule bit_eqI)
  subgoal for n by (cases "n = 15") (auto simp: bit_simps min_def not_less)
  done

lemma store_byte_bit:
  "bit (store_data old 0 va v) n = (let s = nat ((va AND 3) * 8) in
     if s \<le> n \<and> n < s + 8 then bit v (n - s) else bit old n \<and> n < 32)"
  unfolding store_data_def Let_def WORD_MASK_eq
  apply (simp only: ones_hi simp_thms if_True refl)
  by (auto simp: bit_simps)
lemma store_half_bit:
  "bit (store_data old 1 va v) n = (let s = nat ((va AND 2) * 8) in
     if s \<le> n \<and> n < s + 16 then bit v (n - s) else bit old n \<and> n < 32)"
  unfolding store_data_def Let_def WORD_MASK_eq
  apply (simp only: ones_hi simp_thms if_True refl one_neq_zero if_False)
  by (auto simp: bit_simps)


lemma field_sext: "0 < b \<Longrightarrow> sext (take_bit b x) b = sext x b"
  by (cases b) (simp_all add: sext_signed signed_take_bit_take_bit)

lemma shr_store:
  "shr (store_data old 0 va v) (nat ((va AND 3) * 8)) AND 0xFF = v AND 0xFF"
  "shr (store_data old 1 va v) (nat ((va AND 2) * 8)) AND 0xFFFF = v AND 0xFFFF"
  unfolding ones_hi by (rule bit_eqI; auto simp: bit_simps store_byte_bit store_half_bit Let_def)+

lemma load_after_store:
  "load_data (store_data old 0 va v) 0 sx va = (if sx then sext v 8 AND 0xFFFFFFFF else v AND 0xFF)"
  "load_data (store_data old 1 va v) 1 sx va = (if sx then sext v 16 AND 0xFFFFFFFF else v AND 0xFFFF)"
  "load_data (store_data old 2 va v) 2 sx va = v AND 0xFFFFFFFF"
  using field_sext [of 8 v] field_sext [of 16 v]
  apply (simp_all only: load_byte load_half shr_store Let_def, simp_all add: mask_FF mask_FFFF)
  by (simp add: load_data_def store_data_def)

lemma byte_lane: obtains j where "va AND 3 = int j" "j < 4"
  using take_bit_int_range [of 2 va] by (intro that [of "nat (va AND 3)"]) (simp_all add: mask_bits)

lemma half_lane: obtains j where "va AND 2 = int (2 * j)" "j < 2"
proof -
  have "0 \<le> va AND 2" "va AND 2 \<le> 2" "even (va AND 2)"
    by (simp_all add: AND_upper2 even_and_iff)
  then have "va AND 2 = int (2 * 0) \<or> va AND 2 = int (2 * 1)" by presburger
  then show ?thesis using that [of 0] that [of 1] by auto
qed

lemma lane_bit: "bit (lane w k) n \<longleftrightarrow> n < 8 \<and> bit w (8 * k + n)"
  unfolding lane_def ones_hi by (auto simp: bit_simps)

lemma lane_store_byte:
  assumes "k < 4"
  shows "lane (store_data old 0 va v) k = (if int k = va AND 3 then lane v 0 else lane old k)"
proof (rule bit_eqI)
  fix n
  obtain j where j: "va AND 3 = int j" "j < 4" by (rule byte_lane)
  have "nat ((va AND 3) * 8) = 8 * j" using j by simp
  then show "bit (lane (store_data old 0 va v) k) n = bit (if int k = va AND 3 then lane v 0 else lane old k) n"
    using assms j by (auto simp: lane_bit store_byte_bit Let_def)
qed

lemma lane_store_half:
  assumes "k < 4"
  shows "lane (store_data old 1 va v) k =
    (if int (2 * (k div 2)) = va AND 2 then lane v (k mod 2) else lane old k)"
proof (rule bit_eqI)
  fix n
  obtain j where j: "va AND 2 = int (2 * j)" "j < 2" by (rule half_lane)
  have s: "nat ((va AND 2) * 8) = 16 * j" using j by simp
  have d: "k = 2 * (k div 2) + k mod 2" "k mod 2 < 2" by simp_all
  show "bit (lane (store_data old 1 va v) k) n =
    bit (if int (2 * (k div 2)) = va AND 2 then lane v (k mod 2) else lane old k) n"
  proof (cases "k div 2 = j")
    case True
    then have k: "8 * k = 16 * j + 8 * (k mod 2)" using d by linarith
    moreover have "nat (16 * int m) = 16 * m" for m by simp
    ultimately show ?thesis
      using True assms j d(2) by (auto simp: lane_bit store_half_bit s Let_def add.assoc)
  next
    case False
    then have "n < 8 \<Longrightarrow> \<not> (16 * j \<le> 8 * k + n \<and> 8 * k + n < 16 * j + 16)"
      using d by linarith
    with False assms j show ?thesis
      by (auto simp: lane_bit store_half_bit s Let_def)
  qed
qed

end
