(* ===== verification/Sim_Reachable.thy ===== *)
theory Sim_Reachable
  imports Sim_Invariant Mem_Access
begin

unbundle bit_operations_syntax

text \<open>
  The life of a simulator object as a transition system (construct, load a program, clock, reset),
  its reachable states, and what the run loop, the CSRs, the trap entry and the fetch do.
\<close>

section \<open>Reachable states\<close>

text \<open>A program is loaded at an address of the memory, or right behind its last word.
  \<^verbatim>\<open>load_program\<close> itself takes any start address; a negative one, which Python would count from the
  end of the memory, is not covered here.\<close>

inductive sim_reachable :: "sim \<Rightarrow> bool" where
  init: "0 < n \<Longrightarrow> sim_reachable (sim_init n)"
| load: "sim_reachable s \<Longrightarrow> 0 \<le> a \<Longrightarrow> a \<le> int (length (sm_mem s)) \<Longrightarrow>
         load_program s ws a = Inr s' \<Longrightarrow> sim_reachable s'"
| step: "sim_reachable s \<Longrightarrow> sim_reachable (snd (sim_step s))"
| reset: "sim_reachable s \<Longrightarrow> sim_reachable (sim_reset s)"

inductive_cases sim_reachable_cases: "sim_reachable s"

lemma sim_reachable_wf: "sim_reachable s \<Longrightarrow> sim_wf s"
  by (induction rule: sim_reachable.induct)
    (auto intro: sim_wf_init sim_wf_load_program sim_wf_step sim_wf_reset)

lemma sim_reachable_loop: "sim_reachable s \<Longrightarrow> sim_reachable (sim_loop m s)"
proof (induction m s rule: sim_loop.induct)
  case (1 m s)
  then show ?case
    by (subst sim_loop.simps) (simp add: sim_reachable.step)
qed

section \<open>The run loop\<close>

lemma sim_loop_stop: "sm_halted s \<or> m \<le> cycles s \<Longrightarrow> sim_loop m s = s"
  by (subst sim_loop.simps) auto

lemma sim_loop_cycles:
  "sm_halted (sim_loop m s) \<or> m \<le> cycles (sim_loop m s)"
  "cycles s \<le> cycles (sim_loop m s)"
  "cycles (sim_loop m s) \<le> max m (cycles s)"
proof (induction m s rule: sim_loop.induct)
  case (1 m s)
  {
    case 1
    then show ?case
      using "1.IH"(1) by (subst (1 2) sim_loop.simps) auto
  next
    case 2
    then show ?case
      using "1.IH"(2) by (subst sim_loop.simps) (auto simp: sim_step_cycles)
  next
    case 3
    then show ?case
      using "1.IH"(3) by (subst sim_loop.simps) (auto simp: sim_step_cycles)
  }
qed

section \<open>CSRs\<close>

definition counter_csrs :: "int list" where
  "counter_csrs = [CSR_CYCLE, CSR_CYCLEH, CSR_INSTRET, CSR_ICOUNT, CSR_ICMISS, CSR_DCMISS, CSR_BRMISS]"

lemma csr_upd_nth: "length (sm_csrs s) = 32 \<Longrightarrow> 0 \<le> i \<Longrightarrow> i < 32 \<Longrightarrow> 0 \<le> j \<Longrightarrow> j < 32 \<Longrightarrow>
    csr (csr_upd i v s) j = (if i = j then v else csr s j)"
  by (auto simp: csr_def csr_upd_def nth_list_update)

lemma csr_range: "0 \<le> (i :: int) AND 0x1F" "(i :: int) AND 0x1F < 32"
  using reg_index_mask [of i] by (simp_all add: reg_index_def)

lemma sim_wf_csrs_length: "sim_wf s \<Longrightarrow> length (sm_csrs s) = 32"
  by (simp add: sim_wf_def csrs_wf_def)

lemma csr_upd_length [simp]: "length (sm_csrs (csr_upd i v s)) = length (sm_csrs s)"
  by (simp add: csr_upd_def)

lemma csr_write_counter: "i AND 0x1F \<in> set counter_csrs \<Longrightarrow> csr_write i v s = s"
  by (auto simp: csr_write_def counter_csrs_def Let_def)

lemma csr_read_plain: "j AND 0x1F \<notin> set counter_csrs \<Longrightarrow> csr_read s j = csr s (j AND 0x1F) AND 0xFFFFFFFF"
  by (simp add: csr_read_def counter_csrs_def Let_def)

lemma csr_read_counter: "j AND 0x1F \<in> set counter_csrs \<Longrightarrow> csr_read (csr_upd i v s) j = csr_read s j"
  unfolding counter_csrs_def list.set insert_iff empty_iff
  by (elim disjE; simp add: csr_read_def Let_def csr_upd_def csr_consts)

lemma csr_read_write:
  assumes "sim_wf s" "i AND 0x1F \<notin> set counter_csrs" "i AND 0x1F \<noteq> CSR_TLBCTL"
  shows "csr_read (csr_write i v s) j =
     (if j AND 0x1F = i AND 0x1F then v AND 0xFFFFFFFF else csr_read s j)"
proof -
  have w: "csr_write i v s = csr_upd (i AND 0x1F) (v AND 0xFFFFFFFF) s"
    using assms by (simp add: csr_write_def Let_def counter_csrs_def)
  have u: "csr (csr_upd (i AND 0x1F) x s) (j AND 0x1F) = (if i AND 0x1F = j AND 0x1F then x else csr s (j AND 0x1F))"
    for x using sim_wf_csrs_length [OF assms(1)] csr_range [of i] csr_range [of j] by (simp add: csr_upd_nth)
  show ?thesis
  proof (cases "j AND 0x1F \<in> set counter_csrs")
    case True
    with assms(2) have "j AND 0x1F \<noteq> i AND 0x1F" by auto
    with True show ?thesis by (simp add: w csr_read_counter)
  next
    case False
    then show ?thesis by (auto simp: w csr_read_plain u)
  qed
qed

lemma csr_read_counters:
  "csr_read s CSR_CYCLE = st_cycles (sm_stats s) AND 0xFFFFFFFF"
  "csr_read s CSR_CYCLEH = shr (st_cycles (sm_stats s)) 32 AND 0xFFFFFFFF"
  by (simp_all add: csr_read_def csr_consts)

section \<open>Trap entry\<close>

lemma raise_exception_csrs:
  assumes s: "length (sm_csrs s) = 32"
  shows "csr (raise_exception c p s) CSR_EPC = p AND 0xFFFFFFFF"
    and "csr (raise_exception c p s) CSR_CAUSE = c AND 0xFFFFFFFF"
    and "csr (raise_exception c p s) CSR_STATUS = (csr s CSR_STATUS AND NOT 3) AND 0xFFFFFFFF"
    and "\<lbrakk>0 \<le> i; i < 32; i \<notin> {CSR_EPC, CSR_CAUSE, CSR_STATUS}\<rbrakk> \<Longrightarrow> csr (raise_exception c p s) i = csr s i"
proof -
  have r: "csr (raise_exception c p s) i =
      csr (csr_upd CSR_STATUS ((csr s CSR_STATUS AND NOT 3) AND 0xFFFFFFFF)
        (csr_upd CSR_CAUSE (c AND 0xFFFFFFFF) (csr_upd CSR_EPC (p AND 0xFFFFFFFF) s))) i" for i
  proof -
    have "csr (csr_upd CSR_CAUSE x (csr_upd CSR_EPC y s)) CSR_STATUS = csr s CSR_STATUS" for x y
      using s by (simp add: csr_upd_nth csr_consts)
    moreover have "STATUS_IE OR STATUS_KU = 3"
      by (simp add: csr_consts)
    ultimately show ?thesis
      unfolding raise_exception_def Let_def WORD_MASK_eq
      by (simp add: log_add_def flush_if_id_ex_def csr_def)
  qed
  show "csr (raise_exception c p s) CSR_EPC = p AND 0xFFFFFFFF"
    "csr (raise_exception c p s) CSR_CAUSE = c AND 0xFFFFFFFF"
    "csr (raise_exception c p s) CSR_STATUS = (csr s CSR_STATUS AND NOT 3) AND 0xFFFFFFFF"
    "\<lbrakk>0 \<le> i; i < 32; i \<notin> {CSR_EPC, CSR_CAUSE, CSR_STATUS}\<rbrakk> \<Longrightarrow> csr (raise_exception c p s) i = csr s i"
    unfolding r using s by (simp_all add: csr_upd_nth csr_consts)
qed

lemma mmu_off_after_trap: "length (sm_csrs s) = 32 \<Longrightarrow> \<not> mmu_active (raise_exception c p s)"
proof -
  assume "length (sm_csrs s) = 32"
  note st = raise_exception_csrs(3) [OF this, of c p]
  have "((x AND NOT 3) AND 0xFFFFFFFF) AND 2 = 0" for x :: int
    by (rule bit_eqI) (auto simp: bit_simps numeral_eq_Suc bit_Suc)
  then show ?thesis
    by (simp add: mmu_active_def st) (simp add: csr_consts)
qed

lemma raise_exception_pc:
  assumes "length (sm_csrs s) = 32"
  shows "sm_pc (raise_exception c p s) =
     wrap_addr s (sm_mem s ! nat (wrap_addr s (wrap_addr s (csr s CSR_IVT) + (c AND 0xF))) AND 0x3FFFFFF)"
proof -
  have "csr (csr_upd CSR_STATUS x (csr_upd CSR_CAUSE y (csr_upd CSR_EPC z s))) CSR_IVT = csr s CSR_IVT" for x y z
    using assms by (simp add: csr_upd_nth csr_consts)
  then show ?thesis
    unfolding raise_exception_def Let_def
    by (simp add: log_add_def flush_if_id_ex_def wrap_addr_def) (simp add: csr_upd_def csr_def)
qed

lemma raise_exception_latches:
  "\<not> if_valid (sm_ifid (raise_exception c p s))" "\<not> id_valid (sm_idex (raise_exception c p s))"
  "\<not> ex_valid (sm_exmem (raise_exception c p s))" "sm_memwb (raise_exception c p s) = sm_memwb s"
  "sm_rf (raise_exception c p s) = sm_rf s" "sm_mem (raise_exception c p s) = sm_mem s"
  by (simp_all add: raise_exception_def Let_def log_add_def flush_if_id_ex_def csr_upd_def
      ifid_flush_def idex_flush_def exmem_flush_def)

end
