(* ===== verification/Py_Text.thy ===== *)
theory Py_Text
  imports Prelude
begin

text \<open>
  The string operations of Python the assembler, the linker and the loaders use, on ASCII text:
  \<^verbatim>\<open>strip\<close>, \<^verbatim>\<open>split\<close>, \<^verbatim>\<open>splitlines\<close>, \<^verbatim>\<open>lower\<close>, \<^verbatim>\<open>upper\<close>, \<^verbatim>\<open>replace\<close>, \<^verbatim>\<open>find\<close>,
  \<^verbatim>\<open>int(text, base)\<close> with its sign, prefix and underscore rules, and the formats \<^verbatim>\<open>{x}\<close> and
  \<^verbatim>\<open>{x:0nX}\<close>.  The lemmas are the print/parse round trips the file formats rest on.
\<close>

section \<open>Characters\<close>

abbreviation code :: "char \<Rightarrow> nat" where "code c \<equiv> of_char c"

definition is_space :: "char \<Rightarrow> bool" where
  "is_space c \<longleftrightarrow> code c = 32 \<or> (9 \<le> code c \<and> code c \<le> 13) \<or> (28 \<le> code c \<and> code c \<le> 31)"

definition is_line_break :: "char \<Rightarrow> bool" where
  "is_line_break c \<longleftrightarrow> (10 \<le> code c \<and> code c \<le> 13) \<or> (28 \<le> code c \<and> code c \<le> 30)"

definition lower_char :: "char \<Rightarrow> char" where
  "lower_char c = (if 65 \<le> code c \<and> code c \<le> 90 then char_of (code c + 32) else c)"

definition upper_char :: "char \<Rightarrow> char" where
  "upper_char c = (if 97 \<le> code c \<and> code c \<le> 122 then char_of (code c - 32) else c)"

definition py_lower :: "string \<Rightarrow> string" where "py_lower s = map lower_char s"
definition py_upper :: "string \<Rightarrow> string" where "py_upper s = map upper_char s"

definition py_replace_char :: "char \<Rightarrow> char \<Rightarrow> string \<Rightarrow> string" where
  "py_replace_char a b s = map (\<lambda>c. if c = a then b else c) s"

definition lstrip :: "string \<Rightarrow> string" where "lstrip s = dropWhile is_space s"
definition py_strip :: "string \<Rightarrow> string" where "py_strip s = rev (lstrip (rev (lstrip s)))"

text \<open>\<^verbatim>\<open>s.split()\<close>: the maximal runs of characters that are not white space.\<close>

fun split_aux :: "string \<Rightarrow> string \<Rightarrow> string list" where
  "split_aux acc [] = (if acc = [] then [] else [rev acc])"
| "split_aux acc (c # cs) =
     (if is_space c then (if acc = [] then split_aux [] cs else rev acc # split_aux [] cs)
      else split_aux (c # acc) cs)"

definition py_split :: "string \<Rightarrow> string list" where "py_split s = split_aux [] s"

text \<open>\<^verbatim>\<open>s.splitlines()\<close>; a carriage return and line feed together end one line.\<close>

fun lines_aux :: "string \<Rightarrow> string \<Rightarrow> string list" where
  "lines_aux acc [] = (if acc = [] then [] else [rev acc])"
| "lines_aux acc (c # cs) =
     (if is_line_break c
      then rev acc # lines_aux [] (if code c = 13 \<and> cs \<noteq> [] \<and> code (hd cs) = 10 then tl cs else cs)
      else lines_aux (c # acc) cs)"

definition py_splitlines :: "string \<Rightarrow> string list" where "py_splitlines s = lines_aux [] s"

text \<open>\<^verbatim>\<open>idx = s.find(sep); s = s[:idx] if idx >= 0\<close>\<close>

fun starts_with :: "string \<Rightarrow> string \<Rightarrow> bool" where
  "starts_with s [] = True"
| "starts_with [] (p # ps) = False"
| "starts_with (c # cs) (p # ps) = (c = p \<and> starts_with cs ps)"

fun cut_at :: "string \<Rightarrow> string \<Rightarrow> string" where
  "cut_at sep [] = []"
| "cut_at sep (c # cs) = (if starts_with (c # cs) sep then [] else c # cut_at sep cs)"

definition ends_with_colon :: "string \<Rightarrow> bool" where
  "ends_with_colon s \<longleftrightarrow> s \<noteq> [] \<and> last s = CHR '':''"

section \<open>Numbers\<close>

definition digit_val :: "char \<Rightarrow> nat option" where
  "digit_val c =
     (if 48 \<le> code c \<and> code c \<le> 57 then Some (code c - 48)
      else if 65 \<le> code c \<and> code c \<le> 90 then Some (code c - 55)
      else if 97 \<le> code c \<and> code c \<le> 122 then Some (code c - 87)
      else None)"

text \<open>The classes \<^verbatim>\<open>[0-9]\<close> and \<^verbatim>\<open>[0-9a-f]\<close> of the regular expressions.\<close>

definition is_dec_digit :: "char \<Rightarrow> bool" where
  "is_dec_digit c \<longleftrightarrow> 48 \<le> code c \<and> code c \<le> 57"

definition is_hex_digit :: "char \<Rightarrow> bool" where
  "is_hex_digit c \<longleftrightarrow> is_dec_digit c \<or> (97 \<le> code c \<and> code c \<le> 102)"

text \<open>The digits of \<^verbatim>\<open>int\<close>: an underscore may stand between two digits, \<open>us\<close> says that none may
  stand here.\<close>

fun parse_digits :: "int \<Rightarrow> int \<Rightarrow> bool \<Rightarrow> string \<Rightarrow> int option" where
  "parse_digits b acc us [] = (if us then None else Some acc)"
| "parse_digits b acc us (c # cs) =
     (if c = CHR ''_'' then (if us then None else parse_digits b acc True cs)
      else case digit_val c of
             Some d \<Rightarrow> if int d < b then parse_digits b (acc * b + int d) False cs else None
           | None \<Rightarrow> None)"

definition parse_unsigned :: "int \<Rightarrow> string \<Rightarrow> int option" where
  "parse_unsigned b s =
     (let p = py_lower (take 2 s)
      in if (b = 16 \<and> p = ''0x'') \<or> (b = 2 \<and> p = ''0b'')
         then (if drop 2 s = [] then None else parse_digits b 0 False (drop 2 s))
         else parse_digits b 0 True s)"

text \<open>\<^verbatim>\<open>int(s, b)\<close>; None is the ValueError.\<close>

definition py_int :: "int \<Rightarrow> string \<Rightarrow> int option" where
  "py_int b s =
     (case py_strip s of
        [] \<Rightarrow> None
      | c # cs \<Rightarrow>
          if c = CHR ''-'' then map_option uminus (parse_unsigned b cs)
          else if c = CHR ''+'' then parse_unsigned b cs
          else parse_unsigned b (c # cs))"

text \<open>The number a string of digits stands for.\<close>

definition digits_value :: "int \<Rightarrow> int \<Rightarrow> string \<Rightarrow> int" where
  "digits_value b = foldl (\<lambda>a c. a * b + int (the (digit_val c)))"

definition digit_char :: "nat \<Rightarrow> char" where
  "digit_char d = ''0123456789ABCDEF'' ! d"

fun nat_digits :: "nat \<Rightarrow> nat \<Rightarrow> string" where
  "nat_digits b n =
     (if b < 2 \<or> n < b then [digit_char n]
      else nat_digits b (n div b) @ [digit_char (n mod b)])"

declare nat_digits.simps [simp del]

text \<open>\<^verbatim>\<open>{x}\<close> and \<^verbatim>\<open>{x:0wX}\<close>\<close>

definition fmt_dec :: "int \<Rightarrow> string" where
  "fmt_dec x = (if x < 0 then CHR ''-'' # nat_digits 10 (nat (- x)) else nat_digits 10 (nat x))"

definition zero_pad :: "nat \<Rightarrow> string \<Rightarrow> string" where
  "zero_pad w s = replicate (w - length s) (CHR ''0'') @ s"

definition fmt_hex :: "nat \<Rightarrow> int \<Rightarrow> string" where
  "fmt_hex w x =
     (if x < 0 then CHR ''-'' # zero_pad (w - 1) (nat_digits 16 (nat (- x)))
      else zero_pad w (nat_digits 16 (nat x)))"

section \<open>Round trips\<close>

definition is_digit :: "int \<Rightarrow> char \<Rightarrow> bool" where
  "is_digit b c \<longleftrightarrow> c \<noteq> CHR ''_'' \<and> (\<exists>d. digit_val c = Some d \<and> int d < b)"

lemma parse_digits_value:
  "list_all (is_digit b) s \<Longrightarrow> s \<noteq> [] \<or> \<not> us \<Longrightarrow> parse_digits b acc us s = Some (digits_value b acc s)"
proof (induction s arbitrary: acc us)
  case (Cons c s)
  then show ?case by (auto simp: is_digit_def digits_value_def)
qed (simp add: digits_value_def)

lemma digit_char_val:
  "d < 16 \<Longrightarrow> digit_val (digit_char d) = Some d \<and> digit_char d \<noteq> CHR ''_'' \<and> \<not> is_space (digit_char d)
     \<and> digit_char d \<notin> {CHR ''-'', CHR ''+'', CHR ''x'', CHR ''X'', CHR ''b'', CHR '':''}"
proof -
  assume "d < 16"
  then have "d = 0 \<or> d = 1 \<or> d = 2 \<or> d = 3 \<or> d = 4 \<or> d = 5 \<or> d = 6 \<or> d = 7 \<or> d = 8 \<or> d = 9
      \<or> d = 10 \<or> d = 11 \<or> d = 12 \<or> d = 13 \<or> d = 14 \<or> d = 15" by arith
  then show ?thesis
    by (elim disjE; simp add: digit_char_def digit_val_def is_space_def)
qed

lemma is_digit_char: "d < 16 \<Longrightarrow> int d < b \<Longrightarrow> is_digit b (digit_char d)"
  by (simp add: is_digit_def digit_char_val)

lemma nat_digits_ne [simp]: "nat_digits b n \<noteq> []"
  by (subst nat_digits.simps) simp

lemma mod_less_16: "2 \<le> b \<Longrightarrow> b \<le> 16 \<Longrightarrow> n mod b < 16" for n b :: nat
  using mod_less_divisor [of b n] by linarith

lemma nat_digits_all: "2 \<le> b \<Longrightarrow> b \<le> 16 \<Longrightarrow> list_all (is_digit (int b)) (nat_digits b n)"
proof (induction b n rule: nat_digits.induct)
  case (1 b n)
  then show ?case
    by (subst nat_digits.simps) (auto intro!: is_digit_char mod_less_16)
qed

lemma nat_digits_value: "2 \<le> b \<Longrightarrow> b \<le> 16 \<Longrightarrow> digits_value (int b) 0 (nat_digits b n) = int n"
proof (induction b n rule: nat_digits.induct)
  case (1 b n)
  show ?case
  proof (cases "n < b")
    case True
    then show ?thesis
      using 1 by (subst nat_digits.simps) (simp add: digits_value_def digit_char_val)
  next
    case False
    have m: "n mod b < 16" using 1 by (simp add: mod_less_16)
    have "digits_value (int b) 0 (nat_digits b n) = int (n div b) * int b + int (n mod b)"
      using 1 False m by (subst nat_digits.simps) (simp add: digits_value_def digit_char_val)
    then show ?thesis
      by (metis div_mult_mod_eq of_nat_add of_nat_mult)
  qed
qed

lemma parse_nat_digits [simp]:
  "2 \<le> b \<Longrightarrow> b \<le> 16 \<Longrightarrow> parse_digits (int b) 0 us (nat_digits b n) = Some (int n)"
  by (subst parse_digits_value) (simp_all add: nat_digits_all nat_digits_value)

lemma digits_value_zeros: "digits_value b 0 (replicate k (CHR ''0'') @ s) = digits_value b 0 s"
  by (induction k) (simp_all add: digits_value_def digit_val_def)

lemma zero_pad_digits:
  "2 \<le> b \<Longrightarrow> b \<le> 16 \<Longrightarrow> list_all (is_digit (int b)) (zero_pad w (nat_digits b n))
     \<and> digits_value (int b) 0 (zero_pad w (nat_digits b n)) = int n
     \<and> zero_pad w (nat_digits b n) \<noteq> []"
proof -
  assume b: "2 \<le> b" "b \<le> 16"
  have "is_digit (int b) (CHR ''0'')"
    using is_digit_char [of 0 "int b"] b by (simp add: digit_char_def)
  then show ?thesis
    using b nat_digits_all [OF b, of n]
    by (auto simp: zero_pad_def digits_value_zeros nat_digits_value list_all_iff)
qed

lemma nat_digits_length: "2 \<le> b \<Longrightarrow> n < b ^ k \<Longrightarrow> 0 < k \<Longrightarrow> length (nat_digits b n) \<le> k"
proof (induction k arbitrary: n)
  case (Suc k)
  show ?case
  proof (cases "n < b")
    case True
    then show ?thesis by (subst nat_digits.simps) simp
  next
    case False
    then have k: "0 < k" using Suc.prems by (cases k) auto
    have "n div b < b ^ k"
      using Suc.prems by (simp add: less_mult_imp_div_less mult.commute)
    then show ?thesis
      using Suc.IH [OF Suc.prems(1) _ k] False Suc.prems(1) by (subst nat_digits.simps) simp
  qed
qed simp

lemma zero_pad_length: "0 < w \<Longrightarrow> 2 \<le> b \<Longrightarrow> n < b ^ w \<Longrightarrow> length (zero_pad w (nat_digits b n)) = w"
  using nat_digits_length [of b n w] by (simp add: zero_pad_def)

lemma fmt_hex_length: "0 < w \<Longrightarrow> 0 \<le> x \<Longrightarrow> x < 16 ^ w \<Longrightarrow> length (fmt_hex w x) = w"
proof -
  assume a: "0 < w" "0 \<le> x" "x < 16 ^ w"
  then have "nat x < 16 ^ w" by (simp add: nat_less_iff)
  with a show ?thesis by (simp add: fmt_hex_def zero_pad_length)
qed

section \<open>Text without white space\<close>

definition solid :: "string \<Rightarrow> bool" where
  "solid s \<longleftrightarrow> s \<noteq> [] \<and> list_all (\<lambda>c. \<not> is_space c) s"

lemma strip_solid: "solid s \<Longrightarrow> py_strip s = s"
proof -
  have l: "t \<noteq> [] \<Longrightarrow> \<not> is_space (hd t) \<Longrightarrow> lstrip t = t" for t
    by (cases t) (simp_all add: lstrip_def)
  assume s: "solid s"
  then have "\<not> is_space (hd s)" "\<not> is_space (last s)"
    by (auto simp: solid_def list_all_iff)
  with s show ?thesis
    by (simp add: py_strip_def l solid_def hd_rev)
qed

lemma digits_solid: "list_all (is_digit b) s \<Longrightarrow> s \<noteq> [] \<Longrightarrow> solid s"
proof -
  have "is_digit b c \<Longrightarrow> \<not> is_space c" for c
    by (auto simp: is_digit_def digit_val_def is_space_def split: if_splits)
  then show "list_all (is_digit b) s \<Longrightarrow> s \<noteq> [] \<Longrightarrow> solid s"
    by (auto simp: solid_def list_all_iff)
qed

lemma is_digit_sign: "is_digit b c \<Longrightarrow> c \<noteq> CHR ''-'' \<and> c \<noteq> CHR ''+''"
  by (auto simp: is_digit_def digit_val_def)

lemma lower_char_digit: "is_digit b e \<Longrightarrow> b \<le> 16 \<Longrightarrow> lower_char e \<noteq> CHR ''x''"
proof
  assume e: "is_digit b e" "b \<le> 16" "lower_char e = CHR ''x''"
  then have "code (lower_char e) = 120" by simp
  then show False
    using e(1,2) by (auto simp: is_digit_def digit_val_def lower_char_def split: if_splits)
qed

lemma py_int_digits:
  assumes d: "list_all (is_digit b) s" "s \<noteq> []" and b: "b \<le> 16" and x: "b = 16 \<or> b = 10"
  shows "py_int b s = Some (digits_value b 0 s)"
proof -
  obtain c cs where s: "s = c # cs" using d by (cases s) auto
  have "py_lower (take 2 s) \<noteq> ''0x''"
  proof
    assume "py_lower (take 2 s) = ''0x''"
    then obtain e where e: "e \<in> set s" "lower_char e = CHR ''x''"
      by (cases s rule: remdups_adj.cases) (auto simp: py_lower_def)
    then have "is_digit b e" using d by (simp add: list_all_iff)
    then show False
      using e(2) b by (simp add: lower_char_digit)
  qed
  then have "parse_unsigned b s = Some (digits_value b 0 s)"
    using d x by (auto simp: parse_unsigned_def parse_digits_value)
  moreover have "c \<noteq> CHR ''-''" "c \<noteq> CHR ''+''"
    using d s is_digit_sign by auto
  ultimately show ?thesis
    using strip_solid [OF digits_solid [OF d]] by (simp add: py_int_def s)
qed

lemma py_int_fmt_hex: "0 \<le> x \<Longrightarrow> py_int 16 (fmt_hex w x) = Some x"
  using zero_pad_digits [of 16 w "nat x"] py_int_digits [of 16 "fmt_hex w x"]
  by (simp add: fmt_hex_def)

lemma py_int_fmt_dec: "py_int 10 (fmt_dec x) = Some x"
proof (cases "x < 0")
  case False
  then show ?thesis
    using py_int_digits [of 10 "fmt_dec x"] nat_digits_all [of 10 "nat x"] nat_digits_value [of 10 "nat x"]
    by (simp add: fmt_dec_def)
next
  case True
  have "solid (CHR ''-'' # nat_digits 10 (nat (- x)))"
    using digits_solid [OF nat_digits_all [of 10 "nat (- x)"]] by (simp add: solid_def is_space_def)
  with True show ?thesis
    using parse_nat_digits [of 10 True "nat (- x)"]
    by (simp add: fmt_dec_def py_int_def strip_solid parse_unsigned_def)
qed

end
