(* ===== verification/Assembler.thy ===== *)
theory Assembler
  imports Isa_Codec Py_Text
begin

unbundle bit_operations_syntax

text \<open>
  \<^verbatim>\<open>assembler/assembler.py\<close>: the two-pass assembler.  A source line is tokenised, pass 1 counts
  words and records labels and constants, pass 2 encodes every line at its address.  The raised
  \<^verbatim>\<open>AssemblerError\<close>s are values that keep the reason and the line; an operand that is missing is
  the \<^verbatim>\<open>IndexError\<close> of \<^verbatim>\<open>ops[i]\<close>.  A Python dictionary is a map (symbols) or, where the code goes
  through its keys, an association list in insertion order (the emitted words).
\<close>

section \<open>Errors and tokens\<close>

datatype asm_problem =
    Bad_Register | Bad_Number | Undefined_Symbol | Duplicate_Label | Org_Without_Value
  | Equ_Without_Value | Unknown_Mnemonic | Unsupported_Format

datatype asm_error = AssemblerError asm_problem nat | MissingOperand

type_synonym symtab = "string \<rightharpoonup> int"

definition tokenize_line :: "string \<Rightarrow> string list" where
  "tokenize_line raw =
     (let raw = cut_at '';'' (cut_at ''//'' raw);
          raw = py_strip raw
      in if raw = [] then []
         else py_split (py_replace_char (CHR '')'') (CHR '' '')
                (py_replace_char (CHR ''('') (CHR '' '') (py_replace_char (CHR '','') (CHR '' '') raw))))"

definition REG_NAMES :: symtab where
  "REG_NAMES = [''zero'' \<mapsto> 0, ''sp'' \<mapsto> 30, ''lr'' \<mapsto> 31]"

definition parse_reg :: "string \<Rightarrow> nat \<Rightarrow> asm_error + int" where
  "parse_reg token line =
     (let t = py_lower (py_strip token)
      in case REG_NAMES t of
           Some n \<Rightarrow> Inr n
         | None \<Rightarrow>
             if t \<noteq> [] \<and> hd t = CHR ''r'' \<and> tl t \<noteq> [] \<and> list_all (is_dec_digit) (tl t)
                \<and> digits_value 10 0 (tl t) \<le> 31
             then Inr (digits_value 10 0 (tl t))
             else Inl (AssemblerError Bad_Register line))"

definition parse_int :: "string \<Rightarrow> nat \<Rightarrow> asm_error + int" where
  "parse_int token line =
     (let t = py_lower (py_strip token);
          v = (if starts_with t ''0x'' then py_int 16 t
               else if starts_with t ''0b'' then py_int 2 t
               else py_int 10 t)
      in case v of Some n \<Rightarrow> Inr n | None \<Rightarrow> Inl (AssemblerError Bad_Number line))"

text \<open>The pattern \<^verbatim>\<open>-?(?:0x[0-9a-f]+|0b[01]+|\d+)\<close> on the stripped lower-case token.\<close>

definition is_int :: "string \<Rightarrow> bool" where
  "is_int token =
     (let t = py_lower (py_strip token);
          u = (if t \<noteq> [] \<and> hd t = CHR ''-'' then tl t else t)
      in (starts_with u ''0x'' \<and> drop 2 u \<noteq> [] \<and> list_all is_hex_digit (drop 2 u))
         \<or> (starts_with u ''0b'' \<and> drop 2 u \<noteq> [] \<and> list_all (\<lambda>c. c \<in> {CHR ''0'', CHR ''1''}) (drop 2 u))
         \<or> (u \<noteq> [] \<and> list_all is_dec_digit u))"

section \<open>Symbols\<close>

definition resolve :: "symtab \<Rightarrow> string \<Rightarrow> nat \<Rightarrow> asm_error + int" where
  "resolve syms token line =
     (if is_int token then parse_int token line
      else case syms token of
             Some v \<Rightarrow> Inr v
           | None \<Rightarrow> Inl (AssemblerError Undefined_Symbol line))"

definition resolve_branch :: "symtab \<Rightarrow> string \<Rightarrow> int \<Rightarrow> nat \<Rightarrow> asm_error + int" where
  "resolve_branch syms token pc line =
     ebind (resolve syms token line) (\<lambda>target. Inr ((target - pc) AND 0xFFFF))"

section \<open>Encoding of an instruction\<close>

definition op_at :: "string list \<Rightarrow> nat \<Rightarrow> asm_error + string" where
  "op_at ops i = (if i < length ops then Inr (ops ! i) else Inl MissingOperand)"

definition reg_at :: "string list \<Rightarrow> nat \<Rightarrow> nat \<Rightarrow> asm_error + int" where
  "reg_at ops i line = ebind (op_at ops i) (\<lambda>t. parse_reg t line)"

definition val_at :: "symtab \<Rightarrow> string list \<Rightarrow> nat \<Rightarrow> nat \<Rightarrow> asm_error + int" where
  "val_at syms ops i line = ebind (op_at ops i) (\<lambda>t. resolve syms t line)"

definition encode_instr_r :: "string \<Rightarrow> opcode \<Rightarrow> string list \<Rightarrow> nat \<Rightarrow> asm_error + int" where
  "encode_instr_r mnem opcode ops line =
     (if mnem \<in> {''NOT'', ''NEG''} then
        ebind (reg_at ops 0 line) (\<lambda>rd. ebind (reg_at ops 1 line) (\<lambda>rs1.
          Inr (encode_r opcode rd rs1 0 0)))
      else if mnem \<in> {''SHLI'', ''SHRI'', ''SHRAI''} then
        ebind (reg_at ops 0 line) (\<lambda>rd. ebind (reg_at ops 1 line) (\<lambda>rs1.
          ebind (ebind (op_at ops 2) (\<lambda>t. parse_int t line)) (\<lambda>sh.
            Inr (encode_r opcode rd rs1 0 (sh AND 0x1F)))))
      else if mnem = ''MOV'' then
        ebind (reg_at ops 0 line) (\<lambda>rd. ebind (reg_at ops 1 line) (\<lambda>rs1.
          Inr (encode_r opcode rd rs1 0 0)))
      else if mnem = ''PUSH'' then
        ebind (reg_at ops 0 line) (\<lambda>rs1. Inr (encode_r opcode 0 rs1 0 0))
      else if mnem = ''POP'' then
        ebind (reg_at ops 0 line) (\<lambda>rd. Inr (encode_r opcode rd 0 0 0))
      else
        ebind (reg_at ops 0 line) (\<lambda>rd. ebind (reg_at ops 1 line) (\<lambda>rs1.
          ebind (reg_at ops 2 line) (\<lambda>rs2. Inr (encode_r opcode rd rs1 rs2 0)))))"

definition encode_instr_i :: "symtab \<Rightarrow> string \<Rightarrow> opcode \<Rightarrow> string list \<Rightarrow> nat \<Rightarrow> asm_error + int" where
  "encode_instr_i syms mnem opcode ops line =
     (if mnem \<in> {''JMPR'', ''CALLR''} then
        ebind (reg_at ops 0 line) (\<lambda>rs1. Inr (encode_i opcode 0 rs1 0))
      else if mnem = ''MFC'' then
        ebind (reg_at ops 0 line) (\<lambda>rd. ebind (val_at syms ops 1 line) (\<lambda>c.
          Inr (encode_i opcode rd 0 (c AND 0x1F))))
      else if mnem = ''MTC'' then
        ebind (val_at syms ops 0 line) (\<lambda>c. ebind (reg_at ops 1 line) (\<lambda>rs1.
          Inr (encode_i opcode 0 rs1 (c AND 0x1F))))
      else if mnem \<in> {''LW'', ''LH'', ''LHU'', ''LB'', ''LBU''} then
        ebind (reg_at ops 0 line) (\<lambda>rd. ebind (val_at syms ops 1 line) (\<lambda>off.
          ebind (reg_at ops 2 line) (\<lambda>rs1. Inr (encode_i opcode rd rs1 (off AND 0xFFFF)))))
      else if mnem = ''MOVI'' then
        ebind (reg_at ops 0 line) (\<lambda>rd. ebind (val_at syms ops 1 line) (\<lambda>imm.
          Inr (encode_i opcode rd 0 (imm AND 0xFFFF))))
      else
        ebind (reg_at ops 0 line) (\<lambda>rd. ebind (reg_at ops 1 line) (\<lambda>rs1.
          ebind (val_at syms ops 2 line) (\<lambda>imm. Inr (encode_i opcode rd rs1 (imm AND 0xFFFF))))))"

definition encode_instr :: "symtab \<Rightarrow> string list \<Rightarrow> int \<Rightarrow> nat \<Rightarrow> asm_error + int" where
  "encode_instr syms tokens pc line =
     (let mnem = py_upper (hd tokens);
          ops = tl tokens;
          mnem = (if mnem = ''SLLI'' then ''SHLI'' else if mnem = ''SRLI'' then ''SHRI''
                  else if mnem = ''SRAI'' then ''SHRAI'' else mnem)
      in case MNEMONIC_TO_OPCODE mnem of
           None \<Rightarrow> Inl (AssemblerError Unknown_Mnemonic line)
         | Some opcode \<Rightarrow>
             if mnem \<in> {''NOP'', ''HLT'', ''SYSCALL'', ''ERET'', ''FENCE'', ''BREAK'', ''RET''}
             then Inr (encode_j opcode 0)
             else
               (case OPCODE_FMT opcode of
                  Fmt_R \<Rightarrow> encode_instr_r mnem opcode ops line
                | Fmt_I \<Rightarrow> encode_instr_i syms mnem opcode ops line
                | Fmt_S \<Rightarrow>
                    ebind (reg_at ops 0 line) (\<lambda>rs2. ebind (val_at syms ops 1 line) (\<lambda>off.
                      ebind (reg_at ops 2 line) (\<lambda>rs1. Inr (encode_s opcode rs2 rs1 (off AND 0xFFFF)))))
                | Fmt_B \<Rightarrow>
                    ebind (reg_at ops 0 line) (\<lambda>rs1. ebind (reg_at ops 1 line) (\<lambda>rs2.
                      ebind (ebind (op_at ops 2) (\<lambda>t. resolve_branch syms t pc line)) (\<lambda>off.
                        Inr (encode_b opcode rs1 rs2 off))))
                | Fmt_J \<Rightarrow>
                    ebind (val_at syms ops 0 line) (\<lambda>addr. Inr (encode_j opcode (addr AND 0x3FFFFFF)))
                | Fmt_U \<Rightarrow>
                    ebind (reg_at ops 0 line) (\<lambda>rd. ebind (val_at syms ops 1 line) (\<lambda>imm21.
                      Inr (encode_u opcode rd (imm21 AND 0x1FFFFF))))))"

section \<open>Pass 1\<close>

text \<open>The body of the loop over the lines: symbols and location counter.\<close>

definition drop_label :: "string list \<Rightarrow> string list" where
  "drop_label tokens = (if tokens \<noteq> [] \<and> ends_with_colon (hd tokens) then tl tokens else tokens)"

definition pass1_label :: "string list \<Rightarrow> nat \<Rightarrow> symtab \<Rightarrow> int \<Rightarrow> asm_error + symtab \<times> string list" where
  "pass1_label tokens lineno syms lc =
     (if tokens \<noteq> [] \<and> ends_with_colon (hd tokens) then
        (let label = butlast (hd tokens)
         in if syms label \<noteq> None then Inl (AssemblerError Duplicate_Label lineno)
            else Inr (syms(label \<mapsto> lc), tl tokens))
      else Inr (syms, tokens))"

definition pass1_directive ::
  "string list \<Rightarrow> nat \<Rightarrow> symtab \<Rightarrow> int \<Rightarrow> asm_error + symtab \<times> int" where
  "pass1_directive tokens lineno syms lc =
     (let directive = py_lower (hd tokens)
      in if directive = ''.org'' then
           (if length tokens < 2 then Inl (AssemblerError Org_Without_Value lineno)
            else ebind (parse_int (tokens ! 1) lineno) (\<lambda>v. Inr (syms, v)))
         else if directive = ''.equ'' then
           (if length tokens < 3 then Inl (AssemblerError Equ_Without_Value lineno)
            else ebind (parse_int (tokens ! 2) lineno) (\<lambda>v. Inr (syms(tokens ! 1 \<mapsto> v), lc)))
         else if directive \<in> {''.word'', ''.data''} then Inr (syms, lc + int (length tokens) - 1)
         else if \<not> starts_with directive ''.'' then Inr (syms, lc + 1)
         else Inr (syms, lc))"

definition pass1_line :: "string \<Rightarrow> nat \<Rightarrow> symtab \<times> int \<Rightarrow> asm_error + symtab \<times> int" where
  "pass1_line raw lineno st =
     (case st of (syms, lc) \<Rightarrow>
        ebind (pass1_label (tokenize_line raw) lineno syms lc) (\<lambda>(syms, tokens).
          if tokens = [] then Inr (syms, lc) else pass1_directive tokens lineno syms lc))"

fun pass1 :: "string list \<Rightarrow> nat \<Rightarrow> symtab \<times> int \<Rightarrow> asm_error + symtab \<times> int" where
  "pass1 [] lineno st = Inr st"
| "pass1 (raw # lines) lineno st = ebind (pass1_line raw lineno st) (pass1 lines (lineno + 1))"

section \<open>Pass 2\<close>

fun emit_words :: "symtab \<Rightarrow> string list \<Rightarrow> nat \<Rightarrow> int \<times> image \<Rightarrow> asm_error + int \<times> image" where
  "emit_words syms [] lineno st = Inr st"
| "emit_words syms (t # ts) lineno (lc, out) =
     ebind (resolve syms t lineno) (\<lambda>v.
       emit_words syms ts lineno (lc + 1, AList.update lc (v AND WORD_MASK) out))"

definition pass2_directive ::
  "symtab \<Rightarrow> string list \<Rightarrow> nat \<Rightarrow> int \<Rightarrow> image \<Rightarrow> asm_error + int \<times> image" where
  "pass2_directive syms tokens lineno lc out =
     (let directive = py_lower (hd tokens)
      in if directive = ''.org'' then
           ebind (ebind (op_at tokens 1) (\<lambda>t. parse_int t lineno)) (\<lambda>v. Inr (v, out))
         else if directive = ''.equ'' then Inr (lc, out)
         else if directive \<in> {''.word'', ''.data''} then emit_words syms (tl tokens) lineno (lc, out)
         else if \<not> starts_with directive ''.'' then
           ebind (encode_instr syms tokens lc lineno) (\<lambda>word.
             Inr (lc + 1, AList.update lc (word AND WORD_MASK) out))
         else Inr (lc, out))"

definition pass2_line :: "symtab \<Rightarrow> string \<Rightarrow> nat \<Rightarrow> int \<times> image \<Rightarrow> asm_error + int \<times> image" where
  "pass2_line syms raw lineno st =
     (case st of (lc, out) \<Rightarrow>
        let tokens = drop_label (tokenize_line raw)
        in if tokens = [] then Inr (lc, out) else pass2_directive syms tokens lineno lc out)"

fun pass2 :: "symtab \<Rightarrow> string list \<Rightarrow> nat \<Rightarrow> int \<times> image \<Rightarrow> asm_error + int \<times> image" where
  "pass2 syms [] lineno st = Inr st"
| "pass2 syms (raw # lines) lineno st = ebind (pass2_line syms raw lineno st) (pass2 syms lines (lineno + 1))"

definition assemble_lines :: "string list \<Rightarrow> asm_error + int list \<times> symtab" where
  "assemble_lines lines =
     ebind (pass1 lines 1 (Map.empty, 0)) (\<lambda>(syms, _).
       ebind (pass2 syms lines 1 (0, [])) (\<lambda>(_, out). Inr (dense_words out, syms)))"

definition assemble :: "string \<Rightarrow> asm_error + int list \<times> symtab" where
  "assemble source = assemble_lines (py_splitlines source)"

end
