(* ===== verification/Asm_Correct.thy ===== *)
theory Asm_Correct
  imports Assembler
begin

unbundle bit_operations_syntax

text \<open>
  What the two passes of the assembler agree on: the location counter, and therefore the address
  every label stands for; what a line is encoded to; and where a branch to a label goes.
\<close>

section \<open>The passes in sequence\<close>

lemma pass1_append: "pass1 (xs @ ys) n st = ebind (pass1 xs n st) (pass1 ys (n + length xs))"
proof (induction xs arbitrary: n st)
  case (Cons x xs)
  then show ?case by (cases "pass1_line x n st") simp_all
qed simp

lemma pass2_append: "pass2 syms (xs @ ys) n st = ebind (pass2 syms xs n st) (pass2 syms ys (n + length xs))"
proof (induction xs arbitrary: n st)
  case (Cons x xs)
  then show ?case by (cases "pass2_line syms x n st") simp_all
qed simp

section \<open>Location counters\<close>

lemma emit_words_lc: "emit_words syms ts n (lc, out) = Inr (lc', out') \<Longrightarrow> lc' = lc + int (length ts)"
  by (induction ts arbitrary: lc out) (fastforce simp: ebind_Inr_iff)+

lemma pass1_label_tokens:
  "pass1_label tokens n s lc = Inr (s', toks) \<Longrightarrow> toks = drop_label tokens"
  by (auto simp: pass1_label_def drop_label_def Let_def split: if_splits)

lemma directive_lc:
  assumes "toks \<noteq> []" "pass1_directive toks n s lc = Inr (s', lc1)"
    and "pass2_directive syms toks n lc out = Inr (lc2, out')"
  shows "lc2 = lc1"
proof -
  obtain t ts where t: "toks = t # ts" using assms(1) by (cases toks) auto
  show ?thesis
    using assms(2,3) emit_words_lc [of syms ts n lc out lc2 out']
    by (auto simp: t pass1_directive_def pass2_directive_def Let_def ebind_Inr_iff op_at_def split: if_splits)
qed

lemma pass1_lineD:
  assumes "pass1_line raw n (s, lc) = Inr (s', lc1)"
  obtains s1 where "pass1_label (tokenize_line raw) n s lc = Inr (s1, drop_label (tokenize_line raw))"
    "(if drop_label (tokenize_line raw) = [] then Inr (s1, lc)
      else pass1_directive (drop_label (tokenize_line raw)) n s1 lc) = Inr (s', lc1)"
proof (cases "pass1_label (tokenize_line raw) n s lc")
  case (Inl e)
  then show ?thesis using assms by (simp add: pass1_line_def)
next
  case (Inr r)
  then obtain s1 t where r: "pass1_label (tokenize_line raw) n s lc = Inr (s1, t)" by (cases r) auto
  show ?thesis
    using assms that [of s1] r pass1_label_tokens [OF r] by (simp add: pass1_line_def)
qed

lemma line_lc:
  assumes p1: "pass1_line raw n (s, lc) = Inr (s', lc1)"
    and p2: "pass2_line syms raw n (lc, out) = Inr (lc2, out')"
  shows "lc2 = lc1"
proof (rule pass1_lineD [OF p1])
  fix s1
  assume "(if drop_label (tokenize_line raw) = [] then Inr (s1, lc)
      else pass1_directive (drop_label (tokenize_line raw)) n s1 lc) = Inr (s', lc1)"
  with p2 show ?thesis
    using directive_lc [of "drop_label (tokenize_line raw)"]
    by (auto simp: pass2_line_def Let_def split: if_splits)
qed

lemma passes_lc:
  "pass1 lines n (s, lc) = Inr (s', lc1) \<Longrightarrow> pass2 syms lines n (lc, out) = Inr (lc2, out') \<Longrightarrow> lc2 = lc1"
proof (induction lines arbitrary: n s lc out)
  case (Cons raw lines)
  obtain t c where p1: "pass1_line raw n (s, lc) = Inr (t, c)" "pass1 lines (n + 1) (t, c) = Inr (s', lc1)"
    using Cons.prems(1) by (auto simp: ebind_Inr_iff)
  obtain d o2 where p2: "pass2_line syms raw n (lc, out) = Inr (d, o2)" "pass2 syms lines (n + 1) (d, o2) = Inr (lc2, out')"
    using Cons.prems(2) by (auto simp: ebind_Inr_iff)
  have "d = c" by (rule line_lc [OF p1(1) p2(1)])
  with Cons.IH [OF p1(2)] p2(2) show ?case by simp
qed simp

section \<open>Labels\<close>

text \<open>The name a line gives with \<^verbatim>\<open>.equ\<close>, which silently replaces a label of the same name.\<close>

definition equ_name :: "string \<Rightarrow> string option" where
  "equ_name raw =
     (let t = drop_label (tokenize_line raw)
      in if t \<noteq> [] \<and> py_lower (hd t) = ''.equ'' \<and> 3 \<le> length t then Some (t ! 1) else None)"

lemma directive_keeps:
  "toks \<noteq> [] \<Longrightarrow> pass1_directive toks n s lc = Inr (s', lc') \<Longrightarrow> s l = Some v \<Longrightarrow>
   \<not> (py_lower (hd toks) = ''.equ'' \<and> 3 \<le> length toks \<and> toks ! 1 = l) \<Longrightarrow> s' l = Some v"
  by (auto simp: pass1_directive_def Let_def ebind_Inr_iff split: if_splits)

lemma label_keeps: "pass1_label toks n s lc = Inr (s', t) \<Longrightarrow> s l = Some v \<Longrightarrow> s' l = Some v"
  by (auto simp: pass1_label_def Let_def split: if_splits)

lemma pass1_line_keeps:
  assumes p: "pass1_line raw n (s, lc) = Inr (s', lc')" and l: "s l = Some v" and e: "equ_name raw \<noteq> Some l"
  shows "s' l = Some v"
proof (rule pass1_lineD [OF p])
  fix s1
  assume a: "pass1_label (tokenize_line raw) n s lc = Inr (s1, drop_label (tokenize_line raw))"
    "(if drop_label (tokenize_line raw) = [] then Inr (s1, lc)
      else pass1_directive (drop_label (tokenize_line raw)) n s1 lc) = Inr (s', lc')"
  show ?thesis
    using a(2) directive_keeps [of "drop_label (tokenize_line raw)"] label_keeps [OF a(1) l] e
    by (auto simp: equ_name_def Let_def split: if_splits)
qed

lemma pass1_keeps:
  "pass1 lines n (s, lc) = Inr (s', lc') \<Longrightarrow> s l = Some v \<Longrightarrow> \<forall>r \<in> set lines. equ_name r \<noteq> Some l \<Longrightarrow>
   s' l = Some v"
proof (induction lines arbitrary: n s lc)
  case (Cons raw lines)
  obtain t c where p: "pass1_line raw n (s, lc) = Inr (t, c)" "pass1 lines (n + 1) (t, c) = Inr (s', lc')"
    using Cons.prems(1) by (auto simp: ebind_Inr_iff)
  show ?case
    using Cons.IH [OF p(2)] pass1_line_keeps [OF p(1)] Cons.prems by simp
qed simp

lemma pass1_line_label:
  assumes p: "pass1_line raw n (s, lc) = Inr (s', lc')" and t: "tokenize_line raw = (l @ '':'') # toks"
    and e: "equ_name raw \<noteq> Some l"
  shows "s' l = Some lc"
proof (rule pass1_lineD [OF p])
  fix s1
  assume a: "pass1_label (tokenize_line raw) n s lc = Inr (s1, drop_label (tokenize_line raw))"
    "(if drop_label (tokenize_line raw) = [] then Inr (s1, lc)
      else pass1_directive (drop_label (tokenize_line raw)) n s1 lc) = Inr (s', lc')"
  have "s1 l = Some lc"
    using a(1) by (auto simp: pass1_label_def t ends_with_colon_def Let_def split: if_splits)
  then show ?thesis
    using a(2) directive_keeps [of "drop_label (tokenize_line raw)"] e
    by (auto simp: equ_name_def Let_def split: if_splits)
qed

lemma label_address:
  assumes a: "assemble_lines (pre @ raw # post) = Inr (ws, syms)"
    and t: "tokenize_line raw = (l @ '':'') # toks"
    and e: "\<forall>r \<in> set (raw # post). equ_name r \<noteq> Some l"
  shows "\<exists>lc out. pass2 syms pre 1 (0, []) = Inr (lc, out) \<and> syms l = Some lc"
proof -
  obtain c o1 where p1: "pass1 (pre @ raw # post) 1 (Map.empty, 0) = Inr (syms, c)"
    and p2: "pass2 syms (pre @ raw # post) 1 (0, []) = Inr o1"
    using a by (auto simp: assemble_lines_def ebind_Inr_iff)
  obtain s1 lc1 where q1: "pass1 pre 1 (Map.empty, 0) = Inr (s1, lc1)"
    "pass1 (raw # post) (1 + length pre) (s1, lc1) = Inr (syms, c)"
    using p1 by (auto simp: pass1_append ebind_Inr_iff)
  obtain s2 lc2 where r: "pass1_line raw (1 + length pre) (s1, lc1) = Inr (s2, lc2)"
    "pass1 post (1 + length pre + 1) (s2, lc2) = Inr (syms, c)"
    using q1(2) by (auto simp: ebind_Inr_iff)
  have "syms l = Some lc1"
    using pass1_keeps [OF r(2)] pass1_line_label [OF r(1) t] e by simp
  moreover obtain lc out where "pass2 syms pre 1 (0, []) = Inr (lc, out)"
    using p2 by (auto simp: pass2_append ebind_Inr_iff)
  moreover have "lc = lc1"
    using passes_lc [OF q1(1)] calculation(2) by blast
  ultimately show ?thesis by blast
qed

section \<open>Emitted words\<close>

definition image_u32 :: "image \<Rightarrow> bool" where
  "image_u32 out \<longleftrightarrow> (\<forall>a w. map_of out a = Some w \<longrightarrow> u32 w)"

lemma image_u32_update: "image_u32 out \<Longrightarrow> image_u32 (AList.update a (w AND 0xFFFFFFFF) out)"
  by (auto simp: image_u32_def update_conv')

lemma emit_words_u32: "emit_words syms ts n (lc, out) = Inr (lc', out') \<Longrightarrow> image_u32 out \<Longrightarrow> image_u32 out'"
  by (induction ts arbitrary: lc out) (auto simp: ebind_Inr_iff dest: image_u32_update)

lemma pass2_directive_u32:
  "pass2_directive syms toks n lc out = Inr (lc', out') \<Longrightarrow> image_u32 out \<Longrightarrow> image_u32 out'"
  using emit_words_u32 [of syms "tl toks" n lc out lc' out']
  by (auto simp: pass2_directive_def Let_def ebind_Inr_iff image_u32_update split: if_splits)

lemma pass2_line_u32: "pass2_line syms raw n (lc, out) = Inr (lc', out') \<Longrightarrow> image_u32 out \<Longrightarrow> image_u32 out'"
  by (auto simp: pass2_line_def Let_def dest: pass2_directive_u32 split: if_splits)

lemma pass2_u32: "pass2 syms lines n (lc, out) = Inr (lc', out') \<Longrightarrow> image_u32 out \<Longrightarrow> image_u32 out'"
  by (induction lines arbitrary: n lc out) (auto simp: ebind_Inr_iff dest: pass2_line_u32)

lemma dense_words_u32: "image_u32 out \<Longrightarrow> list_all u32 (dense_words out)"
  by (auto simp: dense_words_def image_u32_def list_all_iff split: option.split)

lemma assemble_u32: "assemble src = Inr (ws, syms) \<Longrightarrow> list_all u32 ws"
  by (auto simp: assemble_def assemble_lines_def ebind_Inr_iff intro!: dense_words_u32
      dest!: pass2_u32 simp: image_u32_def)

section \<open>Encoded instructions\<close>

lemmas asm_op_defs = encode_instr_r_def encode_instr_i_def ebind_Inr_iff

lemma no_operand_mnemonics:
  "\<forall>m \<in> {''NOP'', ''HLT'', ''SYSCALL'', ''ERET'', ''FENCE'', ''BREAK'', ''RET''}.
     \<exists>opc. MNEMONIC_TO_OPCODE m = Some opc \<and> OPCODE_FMT opc = Fmt_J"
  by (simp add: MNEMONIC_TO_OPCODE_def opcode_list_def)

lemma alias_opcodes:
  "MNEMONIC_TO_OPCODE ''SHLI'' = MNEMONIC_TO_OPCODE ''SLLI''"
  "MNEMONIC_TO_OPCODE ''SHRI'' = MNEMONIC_TO_OPCODE ''SRLI''"
  "MNEMONIC_TO_OPCODE ''SHRAI'' = MNEMONIC_TO_OPCODE ''SRAI''"
  by (simp_all add: MNEMONIC_TO_OPCODE_def opcode_list_def)

lemma encode_i_opcode: "OPCODE_FMT opc \<in> {Fmt_I, Fmt_S, Fmt_B} \<Longrightarrow> d_opcode (decode (encode_i opc a b c)) = Some opc"
  by (auto simp: decode_def Let_def opcode_field_i opcode_val_mask)

lemma encode_r_opcode: "OPCODE_FMT opc = Fmt_R \<Longrightarrow> d_opcode (decode (encode_r opc a b c d)) = Some opc"
  by (simp add: decode_def Let_def opcode_field_r opcode_val_mask)

lemma encode_j_opcode: "OPCODE_FMT opc = Fmt_J \<Longrightarrow> d_opcode (decode (encode_j opc a)) = Some opc"
  by (simp add: decode_def Let_def opcode_field_j opcode_val_mask)

lemma encode_u_opcode: "OPCODE_FMT opc = Fmt_U \<Longrightarrow> d_opcode (decode (encode_u opc a b)) = Some opc"
  by (simp add: decode_def Let_def opcode_field_u opcode_val_mask)

text \<open>What holds of every value a computation can return.\<close>

definition returns :: "('a \<Rightarrow> bool) \<Rightarrow> 'e + 'a \<Rightarrow> bool" where
  "returns P x \<longleftrightarrow> (\<forall>v. x = Inr v \<longrightarrow> P v)"

lemma returns_intros:
  "P v \<Longrightarrow> returns P (Inr v)" "(\<And>v. returns P (f v)) \<Longrightarrow> returns P (ebind x f)"
  "returns P x \<Longrightarrow> returns P y \<Longrightarrow> returns P (if c then x else y)"
  by (auto simp: returns_def ebind_Inr_iff)

lemma returnsD: "returns P x \<Longrightarrow> x = Inr v \<Longrightarrow> P v"
  by (simp add: returns_def)

lemma encode_instr_r_shape:
  "encode_instr_r m opc ops line = Inr w \<Longrightarrow> \<exists>a b c d. w = encode_r opc a b c d"
  by (erule returnsD [rotated], unfold encode_instr_r_def) (intro returns_intros; blast)

lemma encode_instr_i_shape:
  "encode_instr_i syms m opc ops line = Inr w \<Longrightarrow> \<exists>a b c. w = encode_i opc a b c"
  by (erule returnsD [rotated], unfold encode_instr_i_def) (intro returns_intros; blast)

text \<open>The mnemonic after the aliases of the shifts have been replaced.\<close>

definition plain_mnemonic :: "string \<Rightarrow> string" where
  "plain_mnemonic m = (if m = ''SLLI'' then ''SHLI'' else if m = ''SRLI'' then ''SHRI''
      else if m = ''SRAI'' then ''SHRAI'' else m)"

lemma plain_mnemonic_opcode: "MNEMONIC_TO_OPCODE (plain_mnemonic m) = MNEMONIC_TO_OPCODE m"
  by (simp add: plain_mnemonic_def alias_opcodes)

lemma encode_instr_cases:
  assumes e: "encode_instr syms tokens pc line = Inr w" and m: "m = plain_mnemonic (py_upper (hd tokens))"
  obtains opc where "MNEMONIC_TO_OPCODE m = Some opc"
    "m \<in> {''NOP'', ''HLT'', ''SYSCALL'', ''ERET'', ''FENCE'', ''BREAK'', ''RET''} \<Longrightarrow> w = encode_j opc 0"
    "m \<notin> {''NOP'', ''HLT'', ''SYSCALL'', ''ERET'', ''FENCE'', ''BREAK'', ''RET''} \<Longrightarrow>
      case OPCODE_FMT opc of
        Fmt_R \<Rightarrow> \<exists>a b c d. w = encode_r opc a b c d
      | Fmt_J \<Rightarrow> \<exists>a. w = encode_j opc a
      | Fmt_U \<Rightarrow> \<exists>a b. w = encode_u opc a b
      | _ \<Rightarrow> \<exists>a b c. w = encode_i opc a b c"
proof -
  note e = e [unfolded encode_instr_def Let_def, folded plain_mnemonic_def, folded m]
  obtain opc where o: "MNEMONIC_TO_OPCODE m = Some opc"
    using e by (cases "MNEMONIC_TO_OPCODE m") simp_all
  note e = e [unfolded o option.case]
  show ?thesis
  proof (rule that [OF o])
    assume t: "m \<in> {''NOP'', ''HLT'', ''SYSCALL'', ''ERET'', ''FENCE'', ''BREAK'', ''RET''}"
    show "w = encode_j opc 0"
      using e [unfolded if_P [OF t]] by simp
  next
    assume t: "m \<notin> {''NOP'', ''HLT'', ''SYSCALL'', ''ERET'', ''FENCE'', ''BREAK'', ''RET''}"
    note e = e [unfolded if_not_P [OF t]]
    show "case OPCODE_FMT opc of
        Fmt_R \<Rightarrow> \<exists>a b c d. w = encode_r opc a b c d
      | Fmt_J \<Rightarrow> \<exists>a. w = encode_j opc a
      | Fmt_U \<Rightarrow> \<exists>a b. w = encode_u opc a b
      | _ \<Rightarrow> \<exists>a b c. w = encode_i opc a b c"
      using e encode_instr_r_shape [of m opc "tl tokens" line w]
        encode_instr_i_shape [of syms m opc "tl tokens" line w]
      by (cases "OPCODE_FMT opc") (auto simp: ebind_Inr_iff encode_s_eq_i encode_b_eq_i)
  qed
qed

lemma encode_instr_opcode:
  assumes e: "encode_instr syms tokens pc line = Inr w"
  shows "u32 w \<and> d_opcode (decode w) = MNEMONIC_TO_OPCODE (py_upper (hd tokens))
    \<and> MNEMONIC_TO_OPCODE (py_upper (hd tokens)) \<noteq> None"
proof (rule encode_instr_cases [OF e refl])
  let ?m = "plain_mnemonic (py_upper (hd tokens))"
  let ?S = "{''NOP'', ''HLT'', ''SYSCALL'', ''ERET'', ''FENCE'', ''BREAK'', ''RET''}"
  fix opc
  assume o: "MNEMONIC_TO_OPCODE ?m = Some opc" and j: "?m \<in> ?S \<Longrightarrow> w = encode_j opc 0"
    and f: "?m \<notin> ?S \<Longrightarrow> case OPCODE_FMT opc of
        Fmt_R \<Rightarrow> \<exists>a b c d. w = encode_r opc a b c d
      | Fmt_J \<Rightarrow> \<exists>a. w = encode_j opc a
      | Fmt_U \<Rightarrow> \<exists>a b. w = encode_u opc a b
      | _ \<Rightarrow> \<exists>a b c. w = encode_i opc a b c"
  have "u32 w \<and> d_opcode (decode w) = Some opc"
  proof (cases "?m \<in> ?S")
    case True
    then have "OPCODE_FMT opc = Fmt_J"
      using no_operand_mnemonics o by (metis option.inject)
    then show ?thesis
      using j [OF True] by (simp add: encode_j_opcode u32_encode)
  next
    case False
    show ?thesis
      using f [OF False] by (cases "OPCODE_FMT opc")
        (auto simp: encode_i_opcode encode_r_opcode encode_j_opcode encode_u_opcode u32_encode)
  qed
  then show ?thesis
    using o by (simp add: plain_mnemonic_opcode)
qed

section \<open>Branches to labels\<close>

lemma branch_offset:
  assumes "resolve syms t line = Inr target"
  shows "resolve_branch syms t pc line = Inr ((target - pc) AND 0xFFFF)"
    and "pc + sext ((target - pc) AND 0xFFFF) 16 = target \<longleftrightarrow> - 32768 \<le> target - pc \<and> target - pc < 32768"
proof -
  show "resolve_branch syms t pc line = Inr ((target - pc) AND 0xFFFF)"
    using assms by (simp add: resolve_branch_def)
  have "sext ((target - pc) AND 0xFFFF) 16 = sext (target - pc) 16"
    by (simp add: sext_mask16 sext_signed)
  then show "pc + sext ((target - pc) AND 0xFFFF) 16 = target \<longleftrightarrow> - 32768 \<le> target - pc \<and> target - pc < 32768"
    using sext_id [of 16 "target - pc"] sext_range [of 16 "target - pc"] by auto
qed

end
