(* ===== verification/Disassembler.thy ===== *)
theory Disassembler
  imports Asm_Correct
begin

unbundle bit_operations_syntax

text \<open>
  \<^verbatim>\<open>disassemble\<close> of \<^verbatim>\<open>cpu/instruction_set.py\<close>, and what the assembler makes of its output: for
  every instruction whose unused fields are zero, outside the branches, MOVI, MFC and MTC, the
  printed line is assembled to the word it was printed from.
\<close>

section \<open>Model\<close>

definition reg_name :: "int \<Rightarrow> string" where
  "reg_name n = (if n = 30 then ''sp'' else if n = 31 then ''lr'' else CHR ''R'' # fmt_dec n)"

definition fmt_signed :: "int \<Rightarrow> string" where
  "fmt_signed x = (if x < 0 then fmt_dec x else CHR ''+'' # fmt_dec x)"

fun disassemble_decoded :: "decoded \<Rightarrow> string" where
  "disassemble_decoded (D_Invalid raw word) = ''.word 0x'' @ fmt_hex 8 word"
| "disassemble_decoded (D_R opc rd rs1 rs2 sh) =
     (let op = opcode_name opc
      in if opc \<in> {Op_NOT, Op_NEG} then op @ '' '' @ reg_name rd @ '', '' @ reg_name rs1
         else if opc \<in> {Op_SHLI, Op_SHRI, Op_SHRAI}
           then op @ '' '' @ reg_name rd @ '', '' @ reg_name rs1 @ '', '' @ fmt_dec sh
         else if opc = Op_MOV then ''MOV '' @ reg_name rd @ '', '' @ reg_name rs1
         else if opc = Op_PUSH then ''PUSH '' @ reg_name rs1
         else if opc = Op_POP then ''POP '' @ reg_name rd
         else op @ '' '' @ reg_name rd @ '', '' @ reg_name rs1 @ '', '' @ reg_name rs2)"
| "disassemble_decoded (D_I opc rd rs1 imm) =
     (let op = opcode_name opc
      in if opc \<in> {Op_LW, Op_LH, Op_LHU, Op_LB, Op_LBU}
           then op @ '' '' @ reg_name rd @ '', '' @ fmt_dec imm @ ''('' @ reg_name rs1 @ '')''
         else if opc \<in> {Op_JMPR, Op_CALLR} then op @ '' '' @ reg_name rs1
         else if opc = Op_MFC then ''MFC '' @ reg_name rd @ '', CSR['' @ fmt_dec (imm AND 0x1F) @ '']''
         else if opc = Op_MTC then ''MTC CSR['' @ fmt_dec (imm AND 0x1F) @ ''], '' @ reg_name rs1
         else op @ '' '' @ reg_name rd @ '', '' @ reg_name rs1 @ '', '' @ fmt_dec imm)"
| "disassemble_decoded (D_S opc rs2 rs1 off) =
     opcode_name opc @ '' '' @ reg_name rs2 @ '', '' @ fmt_dec off @ ''('' @ reg_name rs1 @ '')''"
| "disassemble_decoded (D_B opc rs1 rs2 off) =
     opcode_name opc @ '' '' @ reg_name rs1 @ '', '' @ reg_name rs2 @ '', '' @ fmt_signed off"
| "disassemble_decoded (D_U opc rd imm21) = ''MOVHI '' @ reg_name rd @ '', 0x'' @ fmt_hex 5 imm21"
| "disassemble_decoded (D_J opc addr) =
     (if opc \<in> {Op_NOP, Op_HLT, Op_SYSCALL, Op_ERET, Op_FENCE, Op_BREAK, Op_RET} then opcode_name opc
      else opcode_name opc @ '' 0x'' @ fmt_hex 7 addr)"

definition disassemble :: "int \<Rightarrow> string" where
  "disassemble word = disassemble_decoded (decode word)"

section \<open>Tokens\<close>

definition clean_char :: "char \<Rightarrow> bool" where
  "clean_char c \<longleftrightarrow> \<not> is_space c \<and> c \<notin> {CHR '','', CHR ''('', CHR '')'', CHR ''/'', CHR '';''}"

definition clean :: "string \<Rightarrow> bool" where
  "clean s \<longleftrightarrow> s \<noteq> [] \<and> list_all clean_char s"

definition blank :: "string \<Rightarrow> string" where
  "blank s = py_replace_char (CHR '')'') (CHR '' '') (py_replace_char (CHR ''('') (CHR '' '')
     (py_replace_char (CHR '','') (CHR '' '') s))"

lemma blank_append [simp]: "blank (s @ t) = blank s @ blank t"
  by (simp add: blank_def py_replace_char_def)

lemma blank_Cons [simp]:
  "blank [] = []" "blank (c # s) = (if c \<in> {CHR '','', CHR ''('', CHR '')''} then CHR '' '' else c) # blank s"
  by (simp_all add: blank_def py_replace_char_def)

lemma blank_clean_chars: "list_all clean_char s \<Longrightarrow> blank s = s"
  by (induction s) (auto simp: clean_char_def)

lemma blank_clean: "clean s \<Longrightarrow> blank s = s"
  by (simp add: clean_def blank_clean_chars)

lemma split_space: "is_space c \<Longrightarrow> split_aux [] (c # s) = split_aux [] s"
  by simp

lemma split_run: "list_all (\<lambda>c. \<not> is_space c) t \<Longrightarrow> split_aux acc (t @ s) = split_aux (rev t @ acc) s"
  by (induction t arbitrary: acc) simp_all

lemma split_token: "clean t \<Longrightarrow> is_space c \<Longrightarrow> split_aux [] (t @ c # s) = t # split_aux [] s"
  by (simp add: split_run clean_def clean_char_def list_all_iff)

lemma split_last: "clean t \<Longrightarrow> split_aux [] t = [t]"
  using split_run [of t "[]" "[]"] by (simp add: clean_def clean_char_def list_all_iff)

lemma cut_at_id: "hd sep \<notin> set s \<Longrightarrow> sep \<noteq> [] \<Longrightarrow> cut_at sep s = s"
proof (induction s)
  case (Cons c s)
  then show ?case by (cases sep) auto
qed simp

lemma strip_id: "s \<noteq> [] \<Longrightarrow> \<not> is_space (hd s) \<Longrightarrow> \<not> is_space (last s) \<Longrightarrow> py_strip s = s"
proof -
  have l: "t \<noteq> [] \<Longrightarrow> \<not> is_space (hd t) \<Longrightarrow> lstrip t = t" for t
    by (cases t) (simp_all add: lstrip_def)
  show "s \<noteq> [] \<Longrightarrow> \<not> is_space (hd s) \<Longrightarrow> \<not> is_space (last s) \<Longrightarrow> py_strip s = s"
    by (simp add: py_strip_def l hd_rev)
qed

text \<open>A printed line: no comment characters, no white space at its ends.\<close>

lemma tokenize_printed:
  assumes "CHR ''/'' \<notin> set s" "CHR '';'' \<notin> set s" "s \<noteq> []" "\<not> is_space (hd s)" "\<not> is_space (last s)"
  shows "tokenize_line s = split_aux [] (blank s)"
  using assms by (simp add: tokenize_line_def cut_at_id strip_id py_split_def blank_def Let_def)

lemma clean_ends: "clean s \<Longrightarrow> s \<noteq> [] \<and> \<not> is_space (hd s) \<and> \<not> is_space (last s) \<and> CHR ''/'' \<notin> set s \<and> CHR '';'' \<notin> set s"
  by (auto simp: clean_def clean_char_def list_all_iff)

lemma space_char: "is_space (CHR '' '')" "\<not> is_space (CHR '')'')"
  by (simp_all add: is_space_def)

lemmas token_simps = tokenize_printed blank_clean split_token split_last split_space space_char
  hd_append last_append

lemma tokens_1: "clean a \<Longrightarrow> tokenize_line a = [a]"
  using clean_ends [of a] by (simp add: token_simps)

lemma tokens_2: "clean a \<Longrightarrow> clean b \<Longrightarrow> tokenize_line (a @ '' '' @ b) = [a, b]"
  using clean_ends [of a] clean_ends [of b] by (simp add: token_simps)

lemma tokens_3: "clean a \<Longrightarrow> clean b \<Longrightarrow> clean c \<Longrightarrow> tokenize_line (a @ '' '' @ b @ '', '' @ c) = [a, b, c]"
  using clean_ends [of a] clean_ends [of b] clean_ends [of c] by (simp add: token_simps)

lemma tokens_4: "clean a \<Longrightarrow> clean b \<Longrightarrow> clean c \<Longrightarrow> clean d \<Longrightarrow>
    tokenize_line (a @ '' '' @ b @ '', '' @ c @ '', '' @ d) = [a, b, c, d]"
  using clean_ends [of a] clean_ends [of b] clean_ends [of c] clean_ends [of d] by (simp add: token_simps)

lemma tokens_mem: "clean a \<Longrightarrow> clean b \<Longrightarrow> clean c \<Longrightarrow> clean d \<Longrightarrow>
    tokenize_line (a @ '' '' @ b @ '', '' @ c @ ''('' @ d @ '')'') = [a, b, c, d]"
  using clean_ends [of a] clean_ends [of b] clean_ends [of c] clean_ends [of d] by (simp add: token_simps)

lemmas tokens_norm = tokens_1 tokens_2 [unfolded append_Cons append_Nil]
  tokens_3 [unfolded append_Cons append_Nil] tokens_4 [unfolded append_Cons append_Nil]
  tokens_mem [unfolded append_Cons append_Nil]

section \<open>Operands\<close>

lemma digit_clean: "is_digit b c \<Longrightarrow> clean_char c"
  by (auto simp: is_digit_def digit_val_def clean_char_def is_space_def split: if_splits)

lemma digits_clean: "list_all (is_digit b) s \<Longrightarrow> s \<noteq> [] \<Longrightarrow> clean s"
  by (auto simp: clean_def list_all_iff digit_clean)

lemma clean_Cons: "clean_char c \<Longrightarrow> clean s \<Longrightarrow> clean (c # s)"
  by (simp add: clean_def)

lemma fmt_dec_clean: "clean (fmt_dec x)"
  using digits_clean [OF nat_digits_all [of 10]]
  by (auto simp: fmt_dec_def intro!: clean_Cons) (simp_all add: clean_char_def is_space_def)

lemma fmt_hex_clean: "0 \<le> x \<Longrightarrow> clean (''0x'' @ fmt_hex w x)"
  using zero_pad_digits [of 16 w "nat x"] digits_clean [of 16 "fmt_hex w x"]
  by (auto simp: fmt_hex_def intro!: clean_Cons) (simp_all add: clean_char_def is_space_def)

lemma reg_name_clean: "clean (reg_name n)"
  using fmt_dec_clean [of n]
  by (simp add: reg_name_def clean_def clean_char_def is_space_def)

lemma opcode_name_clean: "clean (opcode_name opc)"
  by (cases opc) (simp_all add: clean_def clean_char_def is_space_def)

lemma strip_clean: "clean s \<Longrightarrow> py_strip s = s"
  using clean_ends [of s] by (simp add: strip_id)

lemma dec_digit: "is_digit 10 c \<Longrightarrow> lower_char c = c \<and> is_dec_digit c"
  by (auto simp: is_digit_def digit_val_def lower_char_def is_dec_digit_def split: if_splits)

lemma dec_digits_lower: "list_all (is_digit 10) s \<Longrightarrow> py_lower s = s \<and> list_all is_dec_digit s"
  by (induction s) (auto simp: py_lower_def dec_digit)

lemma nat_digits_dec: "py_lower (nat_digits 10 n) = nat_digits 10 n" "list_all is_dec_digit (nat_digits 10 n)"
  using dec_digits_lower [OF nat_digits_all [of 10 n, simplified]] by simp_all

lemma lower_R: "lower_char (CHR ''R'') = CHR ''r''"
proof -
  have "code (lower_char (CHR ''R'')) = code (CHR ''r'')" by (simp add: lower_char_def)
  then show ?thesis by (simp only: of_char_eq_iff)
qed

lemma parse_reg_name: "reg_index n \<Longrightarrow> parse_reg (reg_name n) line = Inr n"
proof (cases "n = 30 \<or> n = 31")
  case True
  then show ?thesis
    by (auto simp: parse_reg_def strip_clean [OF reg_name_clean] Let_def)
      (simp_all add: reg_name_def py_lower_def lower_char_def REG_NAMES_def)
next
  case False
  assume "reg_index n"
  then have n: "0 \<le> n" "n \<le> 31" by (simp_all add: reg_index_def)
  have "py_lower (reg_name n) = CHR ''r'' # nat_digits 10 (nat n)"
    using False n nat_digits_dec(1) lower_R by (simp add: reg_name_def fmt_dec_def py_lower_def)
  then show ?thesis
    using n nat_digits_dec(2) [of "nat n"] nat_digits_value [of 10 "nat n"]
    by (simp add: parse_reg_def strip_clean [OF reg_name_clean] Let_def REG_NAMES_def)
qed

lemma not_prefix_digits:
  assumes "list_all is_dec_digit s" shows "\<not> starts_with s ''0x'' \<and> \<not> starts_with s ''0b''"
  using assms by (cases s rule: remdups_adj.cases) (auto simp: is_dec_digit_def)

lemma py_lower_fmt_dec: "py_lower (fmt_dec x) = fmt_dec x"
  using nat_digits_dec(1) by (simp add: fmt_dec_def py_lower_def lower_char_def)

lemma is_int_fmt_dec: "is_int (fmt_dec x)"
proof (cases "x < 0")
  case True
  then show ?thesis
    using nat_digits_dec(2) [of "nat (- x)"]
    by (simp add: is_int_def strip_clean [OF fmt_dec_clean] py_lower_fmt_dec Let_def) (simp add: fmt_dec_def)
next
  case False
  have "hd (nat_digits 10 (nat x)) \<noteq> CHR ''-''"
    using nat_digits_dec(2) [of "nat x"] by (cases "nat_digits 10 (nat x)") (auto simp: is_dec_digit_def)
  with False show ?thesis
    using nat_digits_dec(2) [of "nat x"]
    by (simp add: is_int_def strip_clean [OF fmt_dec_clean] py_lower_fmt_dec Let_def) (simp add: fmt_dec_def)
qed

lemma parse_int_fmt_dec: "parse_int (fmt_dec x) line = Inr x"
proof -
  have "\<not> starts_with (fmt_dec x) ''0x'' \<and> \<not> starts_with (fmt_dec x) ''0b''"
    using not_prefix_digits [OF nat_digits_dec(2)] by (simp add: fmt_dec_def)
  then show ?thesis
    by (simp add: parse_int_def strip_clean [OF fmt_dec_clean] py_lower_fmt_dec py_int_fmt_dec Let_def)
qed

lemma resolve_fmt_dec: "resolve syms (fmt_dec x) line = Inr x"
  by (simp add: resolve_def is_int_fmt_dec parse_int_fmt_dec)

lemma hex_digit_lower:
  "is_digit 16 c \<Longrightarrow> is_digit 16 (lower_char c) \<and> digit_val (lower_char c) = digit_val c
     \<and> is_hex_digit (lower_char c) \<and> \<not> is_space (lower_char c)"
proof -
  assume c: "is_digit 16 c"
  show ?thesis
  proof (cases "65 \<le> code c \<and> code c \<le> 90")
    case True
    then have l: "code (lower_char c) = code c + 32" by (simp add: lower_char_def)
    moreover have "code c \<le> 70" using True c by (auto simp: is_digit_def digit_val_def)
    moreover from l True have "code (lower_char c) \<noteq> code (CHR ''_'')" by simp
    ultimately show ?thesis
      using True by (auto simp: is_digit_def digit_val_def is_hex_digit_def is_space_def)
  next
    case False
    then have "lower_char c = c" unfolding lower_char_def by (rule if_not_P)
    then show ?thesis
      using False c by (auto simp: is_digit_def digit_val_def is_hex_digit_def is_dec_digit_def is_space_def
          split: if_splits)
  qed
qed

lemma hex_lower:
  "list_all (is_digit 16) s \<Longrightarrow> list_all (is_digit 16) (py_lower s) \<and> list_all is_hex_digit (py_lower s)
     \<and> digits_value 16 acc (py_lower s) = digits_value 16 acc s"
  by (induction s arbitrary: acc) (simp_all add: py_lower_def digits_value_def hex_digit_lower)

lemma resolve_fmt_hex: "0 \<le> x \<Longrightarrow> resolve syms (''0x'' @ fmt_hex w x) line = Inr x"
proof -
  assume x: "0 \<le> x"
  define h where "h = fmt_hex w x"
  have d: "list_all (is_digit 16) h" "h \<noteq> []" "digits_value 16 0 h = x"
    using zero_pad_digits [of 16 w "nat x"] x by (simp_all add: h_def fmt_hex_def)
  have l: "py_lower (''0x'' @ h) = ''0x'' @ py_lower h" "py_strip (''0x'' @ h) = ''0x'' @ h"
    using strip_clean [OF fmt_hex_clean [OF x, of w]] by (simp_all add: py_lower_def lower_char_def h_def)
  have h: "list_all (is_digit 16) (py_lower h)" "list_all is_hex_digit (py_lower h)" "py_lower h \<noteq> []"
    using hex_lower [OF d(1)] d(2) by (simp_all add: py_lower_def)
  have s: "py_strip (''0x'' @ py_lower h) = ''0x'' @ py_lower h"
    using digits_clean [OF h(1,3)] by (intro strip_clean clean_Cons [of _ "_ # _", simplified])
      (simp add: clean_def clean_char_def is_space_def)
  have "py_int 16 (''0x'' @ py_lower h) = Some x"
    using s h d(3) hex_lower [OF d(1), of 0]
    by (simp add: py_int_def parse_unsigned_def parse_digits_value py_lower_def lower_char_def)
  then show ?thesis
    using l h by (simp add: h_def [symmetric] resolve_def is_int_def parse_int_def Let_def)
qed

section \<open>Printing and assembling\<close>

text \<open>The instructions the assembler reads back: no branch, MOVI, MFC or MTC, unused fields zero.\<close>

fun reprintable :: "decoded \<Rightarrow> bool" where
  "reprintable (D_R opc rd rs1 rs2 sh) =
     (if opc \<in> {Op_NOT, Op_NEG, Op_MOV} then rs2 = 0 \<and> sh = 0
      else if opc \<in> {Op_SHLI, Op_SHRI, Op_SHRAI} then rs2 = 0
      else if opc = Op_PUSH then rd = 0 \<and> rs2 = 0 \<and> sh = 0
      else if opc = Op_POP then rs1 = 0 \<and> rs2 = 0 \<and> sh = 0
      else sh = 0)"
| "reprintable (D_I opc rd rs1 imm) =
     (opc \<notin> {Op_MOVI, Op_MFC, Op_MTC} \<and> (opc \<in> {Op_JMPR, Op_CALLR} \<longrightarrow> rd = 0 \<and> imm = 0))"
| "reprintable (D_S opc rs2 rs1 off) = True"
| "reprintable (D_U opc rd imm21) = True"
| "reprintable (D_J opc addr) =
     (opc \<in> {Op_NOP, Op_HLT, Op_SYSCALL, Op_ERET, Op_FENCE, Op_BREAK, Op_RET} \<longrightarrow> addr = 0)"
| "reprintable _ = False"

lemma upper_name: "py_upper (opcode_name opc) = opcode_name opc"
  by (cases opc) (simp_all add: py_upper_def upper_char_def)

lemma name_opcode: "MNEMONIC_TO_OPCODE (opcode_name opc) = Some opc"
  by (cases opc) (simp_all add: MNEMONIC_TO_OPCODE_def opcode_list_def)

lemma name_plain: "plain_mnemonic (opcode_name opc) = opcode_name opc"
  by (cases opc) (simp_all add: plain_mnemonic_def)

lemma encode_instr_name:
  "encode_instr syms (opcode_name opc # ops) pc line =
     (if opcode_name opc \<in> {''NOP'', ''HLT'', ''SYSCALL'', ''ERET'', ''FENCE'', ''BREAK'', ''RET''}
      then Inr (encode_j opc 0)
      else case OPCODE_FMT opc of
         Fmt_R \<Rightarrow> encode_instr_r (opcode_name opc) opc ops line
       | Fmt_I \<Rightarrow> encode_instr_i syms (opcode_name opc) opc ops line
       | Fmt_S \<Rightarrow>
           ebind (reg_at ops 0 line) (\<lambda>rs2. ebind (val_at syms ops 1 line) (\<lambda>off.
             ebind (reg_at ops 2 line) (\<lambda>rs1. Inr (encode_s opc rs2 rs1 (off AND 0xFFFF)))))
       | Fmt_B \<Rightarrow>
           ebind (reg_at ops 0 line) (\<lambda>rs1. ebind (reg_at ops 1 line) (\<lambda>rs2.
             ebind (ebind (op_at ops 2) (\<lambda>t. resolve_branch syms t pc line)) (\<lambda>off.
               Inr (encode_b opc rs1 rs2 off))))
       | Fmt_J \<Rightarrow> ebind (val_at syms ops 0 line) (\<lambda>addr. Inr (encode_j opc (addr AND 0x3FFFFFF)))
       | Fmt_U \<Rightarrow>
           ebind (reg_at ops 0 line) (\<lambda>rd. ebind (val_at syms ops 1 line) (\<lambda>imm21.
             Inr (encode_u opc rd (imm21 AND 0x1FFFFF)))))"
  unfolding encode_instr_def Let_def list.sel upper_name plain_mnemonic_def [symmetric] name_plain name_opcode
  by simp

lemmas operand_simps = reg_at_def val_at_def op_at_def parse_reg_name resolve_fmt_dec resolve_fmt_hex
  parse_int_fmt_dec

lemmas clean_operands = reg_name_clean fmt_dec_clean fmt_hex_clean opcode_name_clean

lemma literal_names:
  "''MOV '' = opcode_name Op_MOV @ '' ''" "''PUSH '' = opcode_name Op_PUSH @ '' ''"
  "''POP '' = opcode_name Op_POP @ '' ''" "''MOVHI '' = opcode_name Op_MOVHI @ '' ''"
  by simp_all

lemma tokens_R:
  "tokenize_line (disassemble_decoded (D_R opc rd rs1 rs2 sh)) = opcode_name opc #
     (if opc \<in> {Op_NOT, Op_NEG, Op_MOV} then [reg_name rd, reg_name rs1]
      else if opc \<in> {Op_SHLI, Op_SHRI, Op_SHRAI} then [reg_name rd, reg_name rs1, fmt_dec sh]
      else if opc = Op_PUSH then [reg_name rs1]
      else if opc = Op_POP then [reg_name rd]
      else [reg_name rd, reg_name rs1, reg_name rs2])"
  unfolding disassemble_decoded.simps Let_def literal_names append_assoc
  by (simp add: tokens_norm clean_operands del: opcode_name.simps)

lemma tokens_I:
  assumes "opc \<notin> {Op_MFC, Op_MTC}"
  shows "tokenize_line (disassemble_decoded (D_I opc rd rs1 imm)) = opcode_name opc #
     (if opc \<in> {Op_LW, Op_LH, Op_LHU, Op_LB, Op_LBU} then [reg_name rd, fmt_dec imm, reg_name rs1]
      else if opc \<in> {Op_JMPR, Op_CALLR} then [reg_name rs1]
      else [reg_name rd, reg_name rs1, fmt_dec imm])"
  using assms unfolding disassemble_decoded.simps Let_def literal_names append_assoc
  by (simp add: tokens_norm clean_operands del: opcode_name.simps)

lemma tokens_S:
  "tokenize_line (disassemble_decoded (D_S opc rs2 rs1 off)) =
     [opcode_name opc, reg_name rs2, fmt_dec off, reg_name rs1]"
  by (simp add: tokens_norm clean_operands del: opcode_name.simps)

lemma tokens_J:
  "0 \<le> addr \<Longrightarrow> tokenize_line (disassemble_decoded (D_J opc addr)) = opcode_name opc #
     (if opc \<in> {Op_NOP, Op_HLT, Op_SYSCALL, Op_ERET, Op_FENCE, Op_BREAK, Op_RET} then []
      else [''0x'' @ fmt_hex 7 addr])"
  using tokens_2 [OF opcode_name_clean fmt_hex_clean, of addr opc 7]
  by (simp add: tokens_norm clean_operands del: opcode_name.simps)

lemma tokens_U:
  "0 \<le> imm \<Longrightarrow> tokenize_line (disassemble_decoded (D_U Op_MOVHI rd imm)) =
     [opcode_name Op_MOVHI, reg_name rd, ''0x'' @ fmt_hex 5 imm]"
  using tokens_3 [OF opcode_name_clean reg_name_clean fmt_hex_clean, of imm Op_MOVHI rd 5]
  unfolding disassemble_decoded.simps literal_names by (simp del: opcode_name.simps)

lemma asm_R:
  assumes "OPCODE_FMT opc = Fmt_R" "reg_index rd" "reg_index rs1" "reg_index rs2" "reg_index sh"
    and "reprintable (D_R opc rd rs1 rs2 sh)"
  shows "encode_instr syms (tokenize_line (disassemble_decoded (D_R opc rd rs1 rs2 sh))) pc line
    = Inr (encode_r opc rd rs1 rs2 sh)"
proof -
  have "sh AND 0x1F = sh"
    using assms(5) by (simp add: reg_index_def mask_bits take_bit_int_eq_self)
  then show ?thesis
    using assms unfolding tokens_R encode_instr_name
    by (cases opc) (simp_all add: encode_instr_r_def operand_simps)
qed

lemma asm_I:
  assumes "OPCODE_FMT opc = Fmt_I" "reg_index rd" "reg_index rs1" "reprintable (D_I opc rd rs1 imm)"
  shows "encode_instr syms (tokenize_line (disassemble_decoded (D_I opc rd rs1 imm))) pc line
    = Inr (encode_i opc rd rs1 imm)"
proof -
  have m: "encode_i opc rd rs1 (imm AND 0xFFFF) = encode_i opc rd rs1 imm"
    by (simp add: encode_i_def)
  have o: "opc \<notin> {Op_MFC, Op_MTC}" using assms(4) by auto
  show ?thesis
    using assms m unfolding tokens_I [OF o] encode_instr_name
    by (cases opc) (simp_all add: encode_instr_i_def operand_simps)
qed

lemma asm_S:
  assumes "OPCODE_FMT opc = Fmt_S" "reg_index rs2" "reg_index rs1"
  shows "encode_instr syms (tokenize_line (disassemble_decoded (D_S opc rs2 rs1 off))) pc line
    = Inr (encode_s opc rs2 rs1 off)"
  using assms unfolding tokens_S encode_instr_name
  by (cases opc) (simp_all add: operand_simps encode_s_def)

lemma asm_J:
  assumes "OPCODE_FMT opc = Fmt_J" "0 \<le> addr" "reprintable (D_J opc addr)"
  shows "encode_instr syms (tokenize_line (disassemble_decoded (D_J opc addr))) pc line
    = Inr (encode_j opc addr)"
proof -
  have "encode_j opc (addr AND 0x3FFFFFF) = encode_j opc addr"
    by (simp add: encode_j_def)
  then show ?thesis
    using assms resolve_fmt_hex [OF assms(2), of syms 7 line] unfolding tokens_J [OF assms(2)] encode_instr_name
    by (cases opc) (simp_all add: val_at_def op_at_def)
qed

lemma asm_U:
  assumes "OPCODE_FMT opc = Fmt_U" "reg_index rd" "0 \<le> imm"
  shows "encode_instr syms (tokenize_line (disassemble_decoded (D_U opc rd imm))) pc line
    = Inr (encode_u opc rd imm)"
proof -
  have o: "opc = Op_MOVHI" using assms(1) by (cases opc) simp_all
  have "encode_u opc rd (imm AND 0x1FFFFF) = encode_u opc rd imm"
    by (simp add: encode_u_def)
  then show ?thesis
    using assms resolve_fmt_hex [OF assms(3), of syms 5 line]
    unfolding o tokens_U [OF assms(3)] encode_instr_name
    by (simp add: reg_at_def val_at_def op_at_def parse_reg_name)
qed

lemma disassemble_assemble:
  assumes w: "u32 w" "reprintable (decode w)" "\<forall>opc rd rs1 rs2 sh. decode w = D_R opc rd rs1 rs2 sh \<longrightarrow> w AND mask 6 = 0"
  shows "encode_instr syms (tokenize_line (disassemble w)) pc line = Inr w"
proof (cases "decode w")
  case (D_R opc rd rs1 rs2 sh)
  have "w AND NOT (mask 6) = w"
  proof -
    have "w = (w AND NOT (mask 6)) OR (w AND mask 6)"
      by (rule bit_eqI) (auto simp: bit_simps)
    then show ?thesis using w(3) D_R by simp
  qed
  then show ?thesis
    using asm_R [of opc rd rs1 rs2 sh] encode_decoded(6) [OF w(1) D_R] decode_ok [of w] w(2)
    by (simp add: disassemble_def D_R del: disassemble_decoded.simps reprintable.simps)
next
  case (D_I opc rd rs1 imm)
  then show ?thesis
    using asm_I [of opc rd rs1 imm] encode_decoded(1) [OF w(1) D_I] decode_ok [of w] w(2)
    by (simp add: disassemble_def del: disassemble_decoded.simps reprintable.simps)
next
  case (D_S opc rs2 rs1 off)
  then show ?thesis
    using asm_S [of opc rs2 rs1] encode_decoded(2) [OF w(1) D_S] decode_ok [of w]
    by (simp add: disassemble_def del: disassemble_decoded.simps)
next
  case (D_J opc addr)
  then show ?thesis
    using asm_J [of opc addr] encode_decoded(4) [OF w(1) D_J] decode_ok [of w] w(2)
    by (simp add: disassemble_def del: disassemble_decoded.simps reprintable.simps)
next
  case (D_U opc rd imm)
  then show ?thesis
    using asm_U [of opc rd imm] encode_decoded(5) [OF w(1) D_U] decode_ok [of w]
    by (simp add: disassemble_def del: disassemble_decoded.simps)
qed (use w(2) in simp_all)

end
