(* ===== verification/Intel_Hex.thy ===== *)
theory Intel_Hex
  imports Py_Text
begin

unbundle bit_operations_syntax

text \<open>
  The Intel HEX files of the tool chain.  Writers: \<^verbatim>\<open>Assembler.write_hex\<close> of
  \<^verbatim>\<open>assembler/assembler.py\<close>, \<^verbatim>\<open>_write_intel_hex\<close> of \<^verbatim>\<open>toolchain/assembler.py\<close> and
  \<^verbatim>\<open>_ihex_record\<close> of \<^verbatim>\<open>toolchain/linker.py\<close>.  Readers: \<^verbatim>\<open>Loader\<close> of \<^verbatim>\<open>toolchain/loader.py\<close>
  and \<^verbatim>\<open>_load_hex\<close>, \<^verbatim>\<open>_load_bin\<close> of \<^verbatim>\<open>main.py\<close>.  A file is its text (or its bytes); a
  dictionary whose keys the code goes through is an association list in insertion order.
\<close>

section \<open>Bytes and words\<close>

text \<open>\<^verbatim>\<open>struct.pack(">I", w)\<close>, also written with shifts and masks.\<close>

definition word_bytes :: "int \<Rightarrow> int list" where
  "word_bytes w = [shr w 24 AND 0xFF, shr w 16 AND 0xFF, shr w 8 AND 0xFF, w AND 0xFF]"

definition bytes_word :: "int list \<Rightarrow> int" where
  "bytes_word bs = foldl (\<lambda>a b. a * 256 + b) 0 bs"

definition hex_byte :: "int \<Rightarrow> string" where
  "hex_byte b = fmt_hex 2 b"

definition join_lines :: "string list \<Rightarrow> string" where
  "join_lines ls = (case ls of [] \<Rightarrow> [] | l # ls \<Rightarrow> l @ concat (map (\<lambda>s. CHR 0x0A # s) ls))"

definition EOF_RECORD :: string where "EOF_RECORD = '':00000001FF''"

section \<open>Writers\<close>

text \<open>\<^verbatim>\<open>int(s, 16)\<close>, raising ValueError.\<close>

definition int16 :: "string \<Rightarrow> py_error + int" where
  "int16 s = (case py_int 16 s of None \<Rightarrow> Inl ValueError | Some v \<Rightarrow> Inr v)"

text \<open>The sum of \<^verbatim>\<open>int(rec[i:i+2], 16)\<close> over the pairs; the last one may be a single digit.\<close>

fun hex_pair_sum :: "string \<Rightarrow> py_error + int" where
  "hex_pair_sum [] = Inr 0"
| "hex_pair_sum [c] = int16 [c]"
| "hex_pair_sum (c # d # s) = ebind (int16 [c, d]) (\<lambda>v. ebind (hex_pair_sum s) (\<lambda>t. Inr (v + t)))"

definition asm_hex_record :: "int \<Rightarrow> int \<Rightarrow> py_error + string" where
  "asm_hex_record byte_addr w =
     (let r = ''04'' @ fmt_hex 4 byte_addr @ ''00'' @ concat (map hex_byte (word_bytes w))
      in ebind (hex_pair_sum r) (\<lambda>t.
           let csum = (- t) AND 0xFF
           in Inr (CHR '':'' # r @ hex_byte csum)))"

fun asm_hex_records :: "int list \<Rightarrow> int \<Rightarrow> py_error + string list" where
  "asm_hex_records [] addr = Inr []"
| "asm_hex_records (w # ws) addr =
     ebind (asm_hex_record (addr * 4) w) (\<lambda>l. ebind (asm_hex_records ws (addr + 1)) (\<lambda>ls. Inr (l # ls)))"

definition write_hex :: "int list \<Rightarrow> int \<Rightarrow> py_error + string" where
  "write_hex words base_addr =
     ebind (asm_hex_records words base_addr) (\<lambda>ls. Inr (join_lines (ls @ [EOF_RECORD])))"

definition ihex_record :: "int \<Rightarrow> int list \<Rightarrow> string" where
  "ihex_record byte_addr data =
     (let hi = shr byte_addr 8 AND 0xFF;
          lo = byte_addr AND 0xFF;
          body = [int (length data), hi, lo, 0] @ data;
          checksum = (- sum_list body) AND 0xFF
      in CHR '':'' # concat (map hex_byte body) @ hex_byte checksum)"

text \<open>\<^verbatim>\<open>Linker.link\<close> after the resolution: one record per word, in the order of the addresses.\<close>

definition link_text :: "image \<Rightarrow> string" where
  "link_text mem =
     join_lines (map (\<lambda>addr. ihex_record (addr * 4) (word_bytes (the (map_of mem addr) AND 0xFFFFFFFF)))
         (sort (map fst mem)) @ [EOF_RECORD]) @ [CHR 0x0A]"

text \<open>\<^verbatim>\<open>w.to_bytes(4, "big")\<close>\<close>

definition to_bytes4 :: "int \<Rightarrow> py_error + int list" where
  "to_bytes4 w = (if u32 w then Inr (word_bytes w) else Inl OverflowError)"

fun chunk_bytes :: "int list \<Rightarrow> py_error + int list" where
  "chunk_bytes [] = Inr []"
| "chunk_bytes (w # ws) = ebind (to_bytes4 w) (\<lambda>b. ebind (chunk_bytes ws) (\<lambda>bs. Inr (b @ bs)))"

definition tool_hex_record :: "int \<Rightarrow> int list \<Rightarrow> string" where
  "tool_hex_record byte_addr data_bytes =
     (let count = int (length data_bytes);
          checksum = (count + (shr byte_addr 8 AND 0xFF) + (byte_addr AND 0xFF) + 0 + sum_list data_bytes) AND 0xFF;
          checksum = (NOT checksum + 1) AND 0xFF
      in CHR '':'' # fmt_hex 2 count @ fmt_hex 4 byte_addr @ ''00''
         @ concat (map hex_byte data_bytes) @ hex_byte checksum)"

function write_intel_hex_from :: "int list \<Rightarrow> int \<Rightarrow> py_error + string" where
  "write_intel_hex_from words addr =
     (if words = [] then Inr (EOF_RECORD @ [CHR 0x0A])
      else ebind (chunk_bytes (take 4 words)) (\<lambda>data_bytes.
             ebind (write_intel_hex_from (drop 4 words) (addr + 4)) (\<lambda>rest.
               Inr (tool_hex_record (addr * 4) data_bytes @ CHR 0x0A # rest))))"
  by pat_completeness auto
termination
  by (relation "measure (\<lambda>(words, _). length words)") auto

declare write_intel_hex_from.simps [simp del]

definition write_intel_hex :: "int list \<Rightarrow> py_error + string" where
  "write_intel_hex words = write_intel_hex_from words 0"

definition write_bin :: "int list \<Rightarrow> py_error + int list" where
  "write_bin words = chunk_bytes words"

section \<open>The loader of the tool chain\<close>

datatype load_error = LoaderError nat | LoaderRaises py_error

text \<open>\<^verbatim>\<open>bytes.fromhex(s)\<close>: ASCII white space between bytes is skipped, a smaller set than that of
  \<^verbatim>\<open>str.strip\<close>.\<close>

definition is_ascii_space :: "char \<Rightarrow> bool" where
  "is_ascii_space c \<longleftrightarrow> code c = 32 \<or> (9 \<le> code c \<and> code c \<le> 13)"

fun fromhex :: "string \<Rightarrow> py_error + int list" where
  "fromhex [] = Inr []"
| "fromhex [c] = (if is_ascii_space c then Inr [] else Inl ValueError)"
| "fromhex (c # d # s) =
     (if is_ascii_space c then fromhex (d # s)
      else if is_digit 16 c \<and> is_digit 16 d
           then ebind (fromhex s) (\<lambda>bs.
                  Inr ((int (the (digit_val c)) * 16 + int (the (digit_val d))) # bs))
           else Inl ValueError)"

text \<open>The words of a data record, big-endian, four bytes at a time.\<close>

fun put_words :: "int \<Rightarrow> int list \<Rightarrow> image \<Rightarrow> image" where
  "put_words addr (b0 # b1 # b2 # b3 # bs) mem =
     put_words (addr + 4) bs (AList.update (addr div 4) (bytes_word [b0, b1, b2, b3]) mem)"
| "put_words addr _ mem = mem"

definition lift_py :: "py_error + 'a \<Rightarrow> load_error + 'a" where
  "lift_py x = (case x of Inl e \<Rightarrow> Inl (LoaderRaises e) | Inr v \<Rightarrow> Inr v)"

text \<open>One record: None when it is the end-of-file record.\<close>

definition load_record ::
  "nat \<Rightarrow> string \<Rightarrow> int \<Rightarrow> image \<Rightarrow> load_error + (int \<times> image) option" where
  "load_record lineno line ext_addr mem =
     ebind (lift_py (fromhex (tl line))) (\<lambda>raw.
       if length raw < 4 then Inl (LoaderRaises IndexError)
       else let count = nat (raw ! 0);
                addr = (shl (raw ! 1) 8 OR raw ! 2) + ext_addr;
                rtype = raw ! 3;
                data = take count (drop 4 raw)
            in if length raw \<le> 4 + count then Inl (LoaderRaises IndexError)
               else if (- sum_list (take (4 + count) raw)) AND 0xFF \<noteq> raw ! (4 + count)
                 then Inl (LoaderError lineno)
               else if rtype = 0 then
                 (if length data mod 4 \<noteq> 0 then Inl (LoaderError lineno)
                  else Inr (Some (ext_addr, put_words addr data mem)))
               else if rtype = 4 then
                 (if length data \<noteq> 2 then Inl (LoaderRaises StructError)
                  else Inr (Some (shl (bytes_word data) 16, mem)))
               else if rtype = 1 then Inr None
               else Inr (Some (ext_addr, mem)))"

fun load_lines :: "string list \<Rightarrow> nat \<Rightarrow> int \<Rightarrow> image \<Rightarrow> load_error + image" where
  "load_lines [] lineno ext_addr mem = Inr mem"
| "load_lines (line # lines) lineno ext_addr mem =
     (let line = py_strip line
      in if line = [] then load_lines lines (lineno + 1) ext_addr mem
         else if hd line \<noteq> CHR '':'' then Inl (LoaderError lineno)
         else ebind (load_record lineno line ext_addr mem) (\<lambda>r.
                case r of
                  None \<Rightarrow> Inr mem
                | Some (ext_addr, mem) \<Rightarrow> load_lines lines (lineno + 1) ext_addr mem))"

definition load_hex :: "string \<Rightarrow> load_error + image" where
  "load_hex text = load_lines (py_splitlines text) 1 0 []"

definition loader_load_words :: "int list \<Rightarrow> int \<Rightarrow> image \<Rightarrow> image" where
  "loader_load_words words base_addr mem =
     fold (\<lambda>(i, w). AList.update (base_addr + int i) (w AND 0xFFFFFFFF)) (enumerate 0 words) mem"

definition to_mem_list :: "image \<Rightarrow> int \<Rightarrow> nat \<Rightarrow> int list" where
  "to_mem_list mem base sz =
     fold (\<lambda>(addr, word) result.
        let idx = addr - base in if 0 \<le> idx \<and> idx < int sz then result[nat idx := word] else result)
       mem (replicate sz 0)"

section \<open>The readers of the command line\<close>

text \<open>\<^verbatim>\<open>s[i:j]\<close>; a negative end counts from the end of the text.\<close>

definition slice :: "nat \<Rightarrow> int \<Rightarrow> 'a list \<Rightarrow> 'a list" where
  "slice i j s =
     (let e = (if j < 0 then nat (int (length s) + j) else nat j)
      in take (e - i) (drop i s))"

text \<open>The loop over the words of a record, eight digits at a time.\<close>

function main_put_words :: "string \<Rightarrow> int \<Rightarrow> image \<Rightarrow> py_error + image" where
  "main_put_words data byte_addr mem =
     (if length data < 8 then Inr mem
      else ebind (int16 (take 8 data)) (\<lambda>word.
             main_put_words (drop 8 data) (byte_addr + 4) (AList.update (byte_addr div 4) word mem)))"
  by pat_completeness auto
termination
  by (relation "measure (\<lambda>(data, _). length data)") auto

declare main_put_words.simps [simp del]

fun main_load_records :: "string list \<Rightarrow> image \<Rightarrow> py_error + image" where
  "main_load_records [] mem = Inr mem"
| "main_load_records (line # lines) mem =
     (let line = py_strip line
      in if \<not> starts_with line '':'' then main_load_records lines mem
         else let r = tl line
              in if length r < 10 then main_load_records lines mem
                 else ebind (int16 (slice 0 2 r)) (\<lambda>len.
                      ebind (int16 (slice 2 6 r)) (\<lambda>byte_addr.
                      ebind (int16 (slice 6 8 r)) (\<lambda>rtype.
                        if rtype = 1 then Inr mem
                        else if rtype \<noteq> 0 then main_load_records lines mem
                        else let data = slice 8 (8 + len * 2) r
                             in ebind (main_put_words data byte_addr mem)
                                  (main_load_records lines)))))"

fun plain_hex_words :: "string list \<Rightarrow> py_error + int list" where
  "plain_hex_words [] = Inr []"
| "plain_hex_words (line # lines) =
     (let line = py_strip line
      in if line \<noteq> [] \<and> \<not> starts_with line '';''
         then ebind (int16 line) (\<lambda>w. ebind (plain_hex_words lines) (\<lambda>ws. Inr (w # ws)))
         else plain_hex_words lines)"

definition main_load_hex :: "string \<Rightarrow> py_error + int list" where
  "main_load_hex text =
     (let raw_lines = py_splitlines text
      in if list_ex (\<lambda>l. starts_with (py_strip l) '':'') raw_lines
         then ebind (main_load_records raw_lines []) (\<lambda>m. Inr (dense_words m))
         else plain_hex_words raw_lines)"

fun main_load_bin :: "int list \<Rightarrow> int list" where
  "main_load_bin (b0 # b1 # b2 # b3 # bs) =
     (shl b0 24 OR shl b1 16 OR shl b2 8 OR b3) # main_load_bin bs"
| "main_load_bin _ = []"

end
