(* ===== verification/Hex_Roundtrip.thy ===== *)
theory Hex_Roundtrip
  imports Intel_Hex
begin

unbundle bit_operations_syntax

text \<open>
  What the readers make of the files the writers produce.  The central fact is
  \<open>load_hex_link\<close>: the loader reads back, for every word of a linked image, the same word at the
  address modulo 0x4000, because a record holds 16 bits of byte address and the linker emits no
  extended address record.
\<close>

section \<open>Bytes\<close>

definition byte :: "int \<Rightarrow> bool" where "byte b \<longleftrightarrow> 0 \<le> b \<and> b < 256"

lemma byte_mask [simp]: "byte (x AND 0xFF)"
  using take_bit_int_range [of 8 x] by (simp add: byte_def mask_bits)

lemma word_bytes_byte: "list_all byte (word_bytes w)"
  by (simp add: word_bytes_def)

lemma word_bytes_length [simp]: "length (word_bytes w) = 4"
  by (simp add: word_bytes_def)

lemma bytes_word_bytes: "u32 w \<Longrightarrow> bytes_word (word_bytes w) = w"
proof -
  assume "u32 w"
  then have "0 \<le> w" "w < 4294967296" by (simp_all add: u32_def)
  then have w: "0 \<le> w div 256 div 256 div 256" "w div 256 div 256 div 256 < 256"
    by linarith+
  have "bytes_word (word_bytes w) =
      ((w div 256 div 256 div 256 mod 256 * 256 + w div 256 div 256 mod 256) * 256 + w div 256 mod 256) * 256
        + w mod 256"
    by (simp add: word_bytes_def bytes_word_def mask_bits take_bit_eq_mod drop_bit_eq_div zdiv_zmult2_eq [symmetric])
  also have "\<dots> = w"
    by (simp only: mod_pos_pos_trivial [OF w] div_mult_mod_eq)
  finally show ?thesis .
qed

lemma hex_byte_cases:
  assumes "byte b"
  obtains c d where "hex_byte b = [c, d]" "is_digit 16 c" "is_digit 16 d"
    "int (the (digit_val c)) * 16 + int (the (digit_val d)) = b"
proof -
  have l: "length (hex_byte b) = 2"
    using assms by (simp add: hex_byte_def byte_def fmt_hex_length)
  have h: "hex_byte b = zero_pad 2 (nat_digits 16 (nat b))"
    using assms by (simp add: hex_byte_def byte_def fmt_hex_def)
  obtain c d where cd: "hex_byte b = [c, d]"
    using l by (auto simp: length_Suc_conv numeral_2_eq_2)
  have "list_all (is_digit 16) [c, d]" "digits_value 16 0 [c, d] = b"
    using zero_pad_digits [of 16 2 "nat b"] assms by (simp_all add: h [symmetric] cd byte_def)
  with cd show ?thesis
    by (intro that [of c d]) (simp_all add: digits_value_def)
qed

lemma digit_not_space: "is_digit 16 c \<Longrightarrow> \<not> is_space c"
  by (auto simp: is_digit_def digit_val_def is_space_def split: if_splits)

lemma digit_not_ascii_space: "is_digit 16 c \<Longrightarrow> \<not> is_ascii_space c"
  using digit_not_space [of c] by (auto simp: is_space_def is_ascii_space_def)

lemma digit_not_break: "is_digit 16 c \<Longrightarrow> \<not> is_line_break c"
  by (auto simp: is_digit_def digit_val_def is_line_break_def split: if_splits)

lemma fromhex_append:
  "byte b \<Longrightarrow> fromhex (hex_byte b @ s) = ebind (fromhex s) (\<lambda>bs. Inr (b # bs))"
  by (erule hex_byte_cases) (simp add: digit_not_ascii_space)

lemma fromhex_bytes: "list_all byte bs \<Longrightarrow> fromhex (concat (map hex_byte bs)) = Inr bs"
  by (induction bs) (simp_all add: fromhex_append)

lemma hex_byte_solid: "byte b \<Longrightarrow> list_all (\<lambda>c. \<not> is_space c \<and> \<not> is_line_break c) (hex_byte b)"
  by (erule hex_byte_cases) (simp add: digit_not_space digit_not_break)

lemma hex_bytes_solid:
  "list_all byte bs \<Longrightarrow> list_all (\<lambda>c. \<not> is_space c \<and> \<not> is_line_break c) (concat (map hex_byte bs))"
  by (induction bs) (simp_all add: hex_byte_solid)

section \<open>Lines\<close>

definition one_line :: "string \<Rightarrow> bool" where
  "one_line l \<longleftrightarrow> l \<noteq> [] \<and> list_all (\<lambda>c. \<not> is_space c \<and> \<not> is_line_break c) l"

lemma one_line_strip: "one_line l \<Longrightarrow> py_strip l = l"
  by (rule strip_solid) (simp add: one_line_def solid_def list_all_iff)

lemma lines_aux_line:
  "list_all (\<lambda>c. \<not> is_space c \<and> \<not> is_line_break c) l \<Longrightarrow>
   lines_aux acc (l @ CHR 0x0A # s) = (rev acc @ l) # lines_aux [] s"
  by (induction l arbitrary: acc) (simp_all add: is_line_break_def)

lemma lines_aux_last:
  "list_all (\<lambda>c. \<not> is_space c \<and> \<not> is_line_break c) l \<Longrightarrow> rev acc @ l \<noteq> [] \<Longrightarrow>
   lines_aux acc l = [rev acc @ l]"
  by (induction l arbitrary: acc) simp_all

lemma splitlines_concat:
  "list_all one_line ls \<Longrightarrow> py_splitlines (concat (map (\<lambda>l. l @ [CHR 0x0A]) ls)) = ls"
  by (induction ls) (simp_all add: py_splitlines_def lines_aux_line one_line_def)

lemma join_lines_newline: "ls \<noteq> [] \<Longrightarrow> join_lines ls @ [CHR 0x0A] = concat (map (\<lambda>l. l @ [CHR 0x0A]) ls)"
proof -
  have "concat (map (\<lambda>s. CHR 0x0A # s) ls) @ [CHR 0x0A] = CHR 0x0A # concat (map (\<lambda>l. l @ [CHR 0x0A]) ls)" for ls
    by (induction ls) simp_all
  then show "ls \<noteq> [] \<Longrightarrow> ?thesis"
    by (cases ls) (simp_all add: join_lines_def)
qed

lemma splitlines_join: "list_all one_line ls \<Longrightarrow> py_splitlines (join_lines ls) = ls"
proof (cases ls)
  case (Cons l ls')
  have "lines_aux [] (l @ concat (map (\<lambda>s. CHR 0x0A # s) ls')) = l # ls'" if "list_all one_line (l # ls')" for l ls'
    using that
  proof (induction ls' arbitrary: l)
    case Nil
    then show ?case by (simp add: one_line_def lines_aux_last)
  next
    case (Cons m ms)
    then show ?case by (simp add: one_line_def lines_aux_line)
  qed
  then show "list_all one_line ls \<Longrightarrow> ?thesis"
    by (simp add: Cons join_lines_def py_splitlines_def)
qed (simp add: join_lines_def py_splitlines_def)

section \<open>The loader on a linked file\<close>

lemma ihex_one_line: "list_all byte data \<Longrightarrow> length data < 256 \<Longrightarrow> one_line (ihex_record a data)"
  using hex_bytes_solid [of data] hex_byte_solid [of "int (length data)"]
    hex_byte_solid [of "x AND 0xFF" for x] hex_byte_solid [of 0]
  by (simp add: one_line_def ihex_record_def Let_def byte_def is_space_def is_line_break_def)

lemma word_record_one_line: "one_line (ihex_record a (word_bytes w))"
  by (simp add: ihex_one_line word_bytes_byte)

lemma eof_one_line: "one_line EOF_RECORD"
  by (simp add: one_line_def EOF_RECORD_def is_space_def is_line_break_def)

lemma ihex_fromhex:
  assumes "list_all byte data" "length data < 256"
  shows "fromhex (tl (ihex_record a data)) =
     Inr ([int (length data), shr a 8 AND 0xFF, a AND 0xFF, 0] @ data
          @ [(- sum_list ([int (length data), shr a 8 AND 0xFF, a AND 0xFF, 0] @ data)) AND 0xFF])"
proof -
  let ?body = "[int (length data), shr a 8 AND 0xFF, a AND 0xFF, 0] @ data"
  have "tl (ihex_record a data) = concat (map hex_byte (?body @ [(- sum_list ?body) AND 0xFF]))"
    by (simp add: ihex_record_def Let_def)
  moreover have "list_all byte (?body @ [(- sum_list ?body) AND 0xFF])"
    using assms by (simp add: byte_def)
  ultimately show ?thesis
    by (simp only: fromhex_bytes) simp
qed

lemma address_bytes: "shl (shr a 8 AND 0xFF) 8 OR (a AND 0xFF) = a AND 0xFFFF"
  unfolding mask_FF mask_FFFF by (rule bit_eqI) (auto simp: bit_simps)

lemma load_record_ihex:
  assumes "list_all byte data" "length data < 256" "length data mod 4 = 0"
  shows "load_record n (ihex_record a data) 0 mem = Inr (Some (0, put_words (a AND 0xFFFF) data mem))"
proof -
  let ?body = "[int (length data), shr a 8 AND 0xFF, a AND 0xFF, 0] @ data"
  have "take (4 + length data) (?body @ [x]) = ?body" "(?body @ [x]) ! (4 + length data) = x"
    "take (length data) (drop 4 (?body @ [x])) = data" for x
    by (simp_all add: nth_append numeral_eq_Suc)
  then show ?thesis
    using assms unfolding load_record_def ihex_fromhex [OF assms(1,2)] Let_def
    using address_bytes [of a] by (simp add: lift_py_def add.commute)
qed

lemma word_address: "(a * 4 AND 0xFFFF) div 4 = a mod 0x4000" for a :: int
  using mod_mult_mult2 [of a 4 "0x4000"] by (simp add: mask_bits take_bit_eq_mod)

lemma load_record_word:
  assumes "u32 w"
  shows "load_record n (ihex_record (a * 4) (word_bytes w)) 0 mem =
    Inr (Some (0, AList.update (a mod 0x4000) w mem))"
proof -
  have "put_words b (word_bytes w) mem = AList.update (b div 4) w mem" for b
    using bytes_word_bytes [OF assms] by (simp add: word_bytes_def)
  then show ?thesis
    using load_record_ihex [OF word_bytes_byte, of w n "a * 4" mem]
    by (simp add: word_address)
qed

lemma load_record_eof: "load_record n EOF_RECORD 0 mem = Inr None"
  by (simp add: load_record_def EOF_RECORD_def is_digit_def digit_val_def is_ascii_space_def lift_py_def Let_def)

lemma hd_record: "hd (ihex_record a data) = CHR '':''" "hd EOF_RECORD = CHR '':''"
  by (simp_all add: ihex_record_def Let_def EOF_RECORD_def)

lemma load_lines_link:
  "(\<And>a. a \<in> set as \<Longrightarrow> u32 (f a)) \<Longrightarrow>
   load_lines (map (\<lambda>a. ihex_record (a * 4) (word_bytes (f a))) as @ [EOF_RECORD]) n 0 mem
     = Inr (fold (\<lambda>a. AList.update (a mod 0x4000) (f a)) as mem)"
proof (induction as arbitrary: n mem)
  case Nil
  then show ?case
    using eof_one_line by (simp add: one_line_strip hd_record load_record_eof one_line_def)
next
  case (Cons a as)
  have "one_line (ihex_record (a * 4) (word_bytes (f a)))"
    by (simp add: ihex_one_line word_bytes_byte)
  with Cons show ?case
    by (simp add: one_line_strip hd_record load_record_word one_line_def)
qed

lemma load_hex_link:
  "load_hex (link_text mem) =
     Inr (fold (\<lambda>a. AList.update (a mod 0x4000) (the (map_of mem a) AND 0xFFFFFFFF)) (sort (map fst mem)) [])"
proof -
  let ?ls = "map (\<lambda>a. ihex_record (a * 4) (word_bytes (the (map_of mem a) AND 0xFFFFFFFF)))
    (sort (map fst mem)) @ [EOF_RECORD]"
  have "py_splitlines (link_text mem) = ?ls"
    unfolding link_text_def
    by (subst join_lines_newline, simp, rule splitlines_concat)
      (simp add: list_all_iff eof_one_line word_record_one_line)
  then show ?thesis
    by (simp add: load_hex_def load_lines_link)
qed

lemma map_of_fold_update:
  "distinct ks \<Longrightarrow> map_of (fold (\<lambda>k. AList.update k (f k)) ks m) k =
     (if k \<in> set ks then Some (f k) else map_of m k)"
  by (induction ks arbitrary: m) (auto simp: update_conv')

section \<open>The three writers agree\<close>

text \<open>Digits of a fixed width.\<close>

fun hexw :: "nat \<Rightarrow> nat \<Rightarrow> string" where
  "hexw 0 n = []"
| "hexw (Suc k) n = hexw k (n div 16) @ [digit_char (n mod 16)]"

lemma zero_pad_hexw: "n < 16 ^ k \<Longrightarrow> 0 < k \<Longrightarrow> zero_pad k (nat_digits 16 n) = hexw k n"
proof (induction k arbitrary: n)
  case (Suc k)
  show ?case
  proof (cases "n < 16")
    case True
    have "replicate k (CHR ''0'') = hexw k 0" for k
    proof (induction k)
      case (Suc k)
      have "hexw (Suc k) 0 = replicate k (CHR ''0'') @ [CHR ''0'']"
        using Suc by (simp add: digit_char_def)
      then show ?case by (simp add: replicate_append_same)
    qed simp
    with True show ?thesis
      by (subst nat_digits.simps) (simp add: zero_pad_def)
  next
    case False
    then have k: "0 < k" using Suc.prems by (cases k) auto
    have "zero_pad k (nat_digits 16 (n div 16)) = hexw k (n div 16)"
      using Suc.prems k by (intro Suc.IH) (auto simp: less_mult_imp_div_less mult.commute)
    with False show ?thesis
      by (subst nat_digits.simps) (simp add: zero_pad_def)
  qed
qed simp

lemma hexw2: "hexw 2 k = [digit_char (k div 16 mod 16), digit_char (k mod 16)]"
  by (simp add: numeral_2_eq_2)

lemma hexw4: "hexw 4 k = hexw 2 (k div 256) @ hexw 2 (k mod 256)"
proof -
  have "(4 :: nat) = Suc (Suc 2)" by simp
  then have "hexw 4 k = hexw 2 (k div 16 div 16) @ [digit_char (k div 16 mod 16), digit_char (k mod 16)]"
    by (simp only: hexw.simps append_assoc append.simps)
  moreover
  have m: "k mod 256 = 16 * (k div 16 mod 16) + k mod 16"
    using mod_mult2_eq [of k 16 16] by simp
  have "k mod 256 mod 16 = k mod 16" "k mod 256 div 16 mod 16 = k div 16 mod 16"
    unfolding m by simp_all
  moreover have "k div 16 div 16 = k div 256"
    by (simp flip: div_mult2_eq)
  ultimately show ?thesis
    by (simp only: hexw2 [of "k mod 256"])
qed

lemma hex_byte_hexw: "byte b \<Longrightarrow> hex_byte b = hexw 2 (nat b)"
  using zero_pad_hexw [of "nat b" 2] by (simp add: hex_byte_def fmt_hex_def byte_def nat_less_iff)

lemma fmt_hex4:
  assumes "0 \<le> a" "a < 0x10000"
  shows "fmt_hex 4 a = hex_byte (shr a 8 AND 0xFF) @ hex_byte (a AND 0xFF)"
proof -
  obtain n where n: "a = int n" "n < 65536"
    using assms by (metis nat_0_le nat_less_iff of_nat_numeral zero_le_numeral nat_less_iff)
  have "shr a 8 AND 0xFF = int (n div 256)" "a AND 0xFF = int (n mod 256)"
    using n by (simp_all add: mask_bits take_bit_eq_mod drop_bit_eq_div zdiv_int zmod_int)
  then show ?thesis
    using n zero_pad_hexw [of n 4] by (simp add: fmt_hex_def hex_byte_hexw byte_def hexw4)
qed

lemma hex_pair_sum_bytes:
  "list_all byte bs \<Longrightarrow> hex_pair_sum (concat (map hex_byte bs)) = Inr (sum_list bs)"
proof (induction bs)
  case (Cons b bs)
  then have "byte b" by simp
  then obtain c d where cd: "hex_byte b = [c, d]" "is_digit 16 c" "is_digit 16 d"
    "int (the (digit_val c)) * 16 + int (the (digit_val d)) = b"
    by (rule hex_byte_cases)
  then have "int16 [c, d] = Inr b"
    using py_int_digits [of 16 "[c, d]"] by (simp add: int16_def digits_value_def)
  with Cons cd show ?case by simp
qed simp

lemma asm_hex_record_ihex:
  assumes "0 \<le> a" "a < 0x10000"
  shows "asm_hex_record a w = Inr (ihex_record a (word_bytes w))"
proof -
  let ?body = "[4, shr a 8 AND 0xFF, a AND 0xFF, 0] @ word_bytes w"
  have h: "''04'' = hex_byte 4" "''00'' = hex_byte 0"
    by (simp_all add: hex_byte_hexw byte_def hexw2 digit_char_def)
  have "list_all byte ?body"
    by (simp add: word_bytes_byte) (simp add: byte_def)
  moreover have "''04'' @ fmt_hex 4 a @ ''00'' @ concat (map hex_byte (word_bytes w)) = concat (map hex_byte ?body)"
    unfolding h fmt_hex4 [OF assms] by simp
  ultimately show ?thesis
    unfolding asm_hex_record_def Let_def by (simp only: hex_pair_sum_bytes ebind_simps ihex_record_def Let_def
        word_bytes_length of_nat_numeral)
qed

lemma tool_hex_record_ihex:
  assumes "0 \<le> a" "a < 0x10000" "length data < 256"
  shows "tool_hex_record a data = ihex_record a data"
proof -
  have neg: "(NOT (c AND 0xFF) + 1) AND 0xFF = (- c) AND 0xFF" for c :: int
    by (simp add: not_int_def mask_bits take_bit_minus)
  have "''00'' = hex_byte 0"
    by (simp add: hex_byte_hexw byte_def hexw2 digit_char_def)
  moreover have "fmt_hex 2 x = hex_byte x" for x
    by (simp add: hex_byte_def)
  ultimately show ?thesis
    unfolding tool_hex_record_def ihex_record_def Let_def neg fmt_hex4 [OF assms(1,2)]
    by (simp add: add.assoc)
qed

section \<open>The reader of the command line\<close>

lemma digits_value_hex_bytes:
  "list_all byte bs \<Longrightarrow> digits_value 16 acc (concat (map hex_byte bs)) = foldl (\<lambda>a b. a * 256 + b) acc bs"
proof (induction bs arbitrary: acc)
  case (Cons b bs)
  then have "byte b" by simp
  then obtain c d where cd: "hex_byte b = [c, d]"
    "int (the (digit_val c)) * 16 + int (the (digit_val d)) = b"
    by (rule hex_byte_cases)
  have "digits_value 16 acc (hex_byte b @ t) = digits_value 16 (acc * 256 + b) t" for t
  proof -
    have "(acc * 16 + int (the (digit_val c))) * 16 + int (the (digit_val d)) = acc * 256 + b"
      using cd(2) by simp
    then show ?thesis by (simp only: cd(1) digits_value_def append.simps foldl_Cons)
  qed
  with Cons show ?case by simp
qed (simp add: digits_value_def)

lemma hex_byte_digits: "byte b \<Longrightarrow> list_all (is_digit 16) (hex_byte b) \<and> length (hex_byte b) = 2"
  by (erule hex_byte_cases) simp

lemma hex_bytes_digits:
  "list_all byte bs \<Longrightarrow> list_all (is_digit 16) (concat (map hex_byte bs))
     \<and> length (concat (map hex_byte bs)) = 2 * length bs"
  by (induction bs) (simp_all add: hex_byte_digits)

lemma int16_bytes: "list_all byte bs \<Longrightarrow> bs \<noteq> [] \<Longrightarrow> int16 (concat (map hex_byte bs)) = Inr (bytes_word bs)"
proof -
  assume b: "list_all byte bs" "bs \<noteq> []"
  then have "length (concat (map hex_byte bs)) \<noteq> 0"
    using hex_bytes_digits [OF b(1)] by simp
  then have "concat (map hex_byte bs) \<noteq> []" by (metis list.size(3))
  then show ?thesis
    using py_int_digits [of 16 "concat (map hex_byte bs)"] hex_bytes_digits [OF b(1)]
      digits_value_hex_bytes [OF b(1), of 0]
    by (simp add: int16_def bytes_word_def)
qed

lemma main_put_words_bytes:
  "list_all byte bs \<Longrightarrow> main_put_words (concat (map hex_byte bs)) a mem = Inr (put_words a bs mem)"
proof (induction a bs mem rule: put_words.induct)
  case (1 addr b0 b1 b2 b3 bs mem)
  let ?h = "concat (map hex_byte [b0, b1, b2, b3])" and ?t = "concat (map hex_byte bs)"
  have b: "list_all byte [b0, b1, b2, b3]" "list_all byte bs"
    using "1.prems" by simp_all
  have h: "length ?h = 8"
    using hex_bytes_digits [OF b(1)] by simp
  have "concat (map hex_byte (b0 # b1 # b2 # b3 # bs)) = ?h @ ?t" by simp
  moreover have "take 8 (?h @ ?t) = ?h" "drop 8 (?h @ ?t) = ?t" "\<not> length (?h @ ?t) < 8"
    using h by simp_all
  ultimately show ?case
    using int16_bytes [OF b(1)] "1.IH" [OF b(2)]
    by (subst main_put_words.simps) (simp only: if_False ebind_simps put_words.simps list.distinct not_False_eq_True)
qed (subst main_put_words.simps, simp add: hex_byte_digits)+

lemma slice_append: "slice (length xs) (int (length xs + length ys)) (xs @ ys @ zs) = ys"
  by (simp add: slice_def nat_add_distrib)

lemma main_record:
  assumes d: "list_all byte data" "0 < length data" "length data < 256"
  shows "main_load_records (ihex_record a data # lines) mem =
    main_load_records lines (put_words (a AND 0xFFFF) data mem)"
proof -
  define n where "n = int (length data)"
  define c where "c = (- sum_list ([n, shr a 8 AND 0xFF, a AND 0xFF, 0] @ data)) AND 0xFF"
  have n: "byte n" using d by (simp add: n_def byte_def)
  have z: "byte 0" by (simp add: byte_def)
  let ?H = "hex_byte (shr a 8 AND 0xFF)" and ?L = "hex_byte (a AND 0xFF)" and ?D = "concat (map hex_byte data)"
  define r where "r = hex_byte n @ ?H @ ?L @ hex_byte 0 @ ?D @ hex_byte c"
  have r: "ihex_record a data = CHR '':'' # r"
    by (simp add: ihex_record_def r_def n_def c_def Let_def)
  have len: "length (hex_byte n) = 2" "length ?H = 2" "length ?L = 2" "length (hex_byte 0) = 2"
      "length ?D = 2 * length data" "length (hex_byte c) = 2"
    using hex_byte_digits n z hex_bytes_digits [OF d(1)] by (simp_all add: c_def)
  have "slice 0 2 r = hex_byte n"
    using slice_append [of "[]" "hex_byte n"] len by (simp add: r_def)
  moreover have "slice 2 6 r = concat (map hex_byte [shr a 8 AND 0xFF, a AND 0xFF])"
    using slice_append [of "hex_byte n" "?H @ ?L"] len by (simp add: r_def)
  moreover have "slice 6 8 r = hex_byte 0"
    using slice_append [of "hex_byte n @ ?H @ ?L" "hex_byte 0"] len by (simp add: r_def)
  moreover have "slice 8 (8 + n * 2) r = ?D"
    using slice_append [of "hex_byte n @ ?H @ ?L @ hex_byte 0" ?D] len
    by (simp add: r_def n_def mult.commute)
  moreover have "int16 (hex_byte n) = Inr n" "int16 (hex_byte 0) = Inr 0"
    using int16_bytes [of "[n]"] int16_bytes [of "[0]"] n z by (simp_all add: bytes_word_def)
  moreover have "int16 (concat (map hex_byte [shr a 8 AND 0xFF, a AND 0xFF])) = Inr (a AND 0xFFFF)"
  proof -
    have "(shr a 8 AND 0xFF) * 256 + (a AND 0xFF) = a AND 0xFFFF"
      by (simp add: mask_bits take_bit_eq_mod drop_bit_eq_div) (use zmod_zmult2_eq [of 256 a 256] in simp)
    then show ?thesis
      using int16_bytes [of "[shr a 8 AND 0xFF, a AND 0xFF]"] by (simp add: bytes_word_def)
  qed
  moreover have "\<not> length r < 10" using len d(2) by (simp add: r_def)
  moreover have "py_strip (CHR '':'' # r) = CHR '':'' # r"
    using one_line_strip [OF ihex_one_line [OF d(1,3), of a]] by (simp add: r)
  ultimately show ?thesis
    using main_put_words_bytes [OF d(1)] unfolding r by (simp add: Let_def)
qed

section \<open>Whole files\<close>

text \<open>A file of data records is the list of their byte addresses and data.\<close>

type_synonym records = "(int \<times> int list) list"

definition records_ok :: "records \<Rightarrow> bool" where
  "records_ok rs \<longleftrightarrow> list_all (\<lambda>(a, d). list_all byte d \<and> d \<noteq> [] \<and> length d < 256 \<and> length d mod 4 = 0) rs"

definition record_lines :: "records \<Rightarrow> string list" where
  "record_lines rs = map (\<lambda>(a, d). ihex_record a d) rs @ [EOF_RECORD]"

definition stored :: "records \<Rightarrow> image \<Rightarrow> image" where
  "stored rs mem = fold (\<lambda>(a, d). put_words (a AND 0xFFFF) d) rs mem"

lemma record_lines_one_line: "records_ok rs \<Longrightarrow> list_all one_line (record_lines rs)"
  by (auto simp: records_ok_def record_lines_def list_all_iff eof_one_line
      intro!: ihex_one_line [unfolded list_all_iff])

lemma load_lines_records:
  "records_ok rs \<Longrightarrow> load_lines (record_lines rs) n 0 mem = Inr (stored rs mem)"
proof (induction rs arbitrary: n mem)
  case Nil
  then show ?case
    using eof_one_line
    by (simp add: record_lines_def stored_def one_line_strip hd_record load_record_eof one_line_def)
next
  case (Cons r rs)
  obtain a d where r: "r = (a, d)" by (cases r)
  have ok: "list_all byte d" "length d < 256" "length d mod 4 = 0" "records_ok rs"
    using Cons.prems by (simp_all add: records_ok_def r)
  have "one_line (ihex_record a d)" using ok by (simp add: ihex_one_line)
  then show ?case
    using Cons.IH [OF ok(4)] load_record_ihex [OF ok(1-3), of n a mem]
    by (simp add: r record_lines_def stored_def one_line_strip hd_record one_line_def)
qed

lemma main_records:
  "records_ok rs \<Longrightarrow> main_load_records (record_lines rs) mem = Inr (stored rs mem)"
proof (induction rs arbitrary: mem)
  case Nil
  have i: "int16 ''00'' = Inr 0" "int16 ''0000'' = Inr 0" "int16 ''01'' = Inr 1"
    using py_int_digits [of 16 "''00''"] py_int_digits [of 16 "''0000''"] py_int_digits [of 16 "''01''"]
    by (simp_all add: int16_def is_digit_def digit_val_def digits_value_def)
  have "py_strip EOF_RECORD = EOF_RECORD"
    by (rule one_line_strip [OF eof_one_line])
  then show ?case
    using i by (simp add: record_lines_def stored_def) (simp add: EOF_RECORD_def slice_def Let_def)
next
  case (Cons r rs)
  obtain a d where r: "r = (a, d)" by (cases r)
  have ok: "list_all byte d" "0 < length d" "length d < 256" "records_ok rs"
    using Cons.prems by (simp_all add: records_ok_def r)
  then show ?case
    using Cons.IH [OF ok(4)] main_record [OF ok(1-3), of a "record_lines rs" mem]
    by (simp add: r record_lines_def stored_def)
qed

lemma main_load_hex_records:
  assumes "py_splitlines text = record_lines rs" "records_ok rs"
  shows "main_load_hex text = Inr (dense_words (stored rs []))"
proof -
  have "starts_with (py_strip EOF_RECORD) '':''"
    unfolding one_line_strip [OF eof_one_line] by (simp add: EOF_RECORD_def)
  then show ?thesis
    using main_records [OF assms(2), of "[]"]
    by (simp add: main_load_hex_def assms(1) Let_def) (simp add: record_lines_def)
qed

lemma load_hex_records:
  "py_splitlines text = record_lines rs \<Longrightarrow> records_ok rs \<Longrightarrow> load_hex text = Inr (stored rs [])"
  by (simp add: load_hex_def load_lines_records)

text \<open>One word per record (\<^verbatim>\<open>write_hex\<close>) and four (\<^verbatim>\<open>_write_intel_hex\<close>).\<close>

fun word_records :: "int \<Rightarrow> int list \<Rightarrow> records" where
  "word_records k [] = []"
| "word_records k (w # ws) = (k * 4, word_bytes w) # word_records (k + 1) ws"

lemma asm_hex_records_ihex:
  "0 \<le> k \<Longrightarrow> k + int (length ws) \<le> 0x4000 \<Longrightarrow>
   asm_hex_records ws k = Inr (map (\<lambda>(a, d). ihex_record a d) (word_records k ws))"
  by (induction ws arbitrary: k) (simp_all add: asm_hex_record_ihex)

lemma word_records_ok: "records_ok (word_records k ws)"
  by (induction ws arbitrary: k) (simp_all add: records_ok_def word_bytes_byte, simp add: word_bytes_def)

lemma low_address: "0 \<le> k \<Longrightarrow> k < 0x4000 \<Longrightarrow> k * 4 AND 0xFFFF = k * 4" for k :: int
  by (simp add: mask_bits take_bit_eq_mod)

lemma put_words_word: "u32 w \<Longrightarrow> put_words a (word_bytes w @ bs) mem = put_words (a + 4) bs (AList.update (a div 4) w mem)"
  using bytes_word_bytes [of w] by (simp add: word_bytes_def)

lemma stored_word_records:
  "0 \<le> k \<Longrightarrow> k + int (length ws) \<le> 0x4000 \<Longrightarrow> list_all u32 ws \<Longrightarrow>
   stored (word_records k ws) mem = store_words k ws mem"
proof (induction ws arbitrary: k mem)
  case (Cons w ws)
  then show ?case
    using put_words_word [of w "k * 4" "[]" mem] by (simp add: stored_def low_address)
qed (simp add: stored_def)

lemma write_hex_readers:
  assumes "length ws \<le> 0x4000" "list_all u32 ws"
  obtains t where "write_hex ws 0 = Inr t" "main_load_hex t = Inr ws"
    "load_hex t = Inr (store_words 0 ws [])"
proof -
  let ?rs = "word_records 0 ws"
  have t: "write_hex ws 0 = Inr (join_lines (record_lines ?rs))"
    using assms by (simp add: write_hex_def asm_hex_records_ihex record_lines_def)
  have l: "py_splitlines (join_lines (record_lines ?rs)) = record_lines ?rs"
    by (rule splitlines_join [OF record_lines_one_line [OF word_records_ok]])
  have s: "stored ?rs [] = store_words 0 ws []"
    using assms by (intro stored_word_records) simp_all
  show ?thesis
    using that [OF t] main_load_hex_records [OF l word_records_ok] load_hex_records [OF l word_records_ok]
    by (simp add: s dense_store_words)
qed

lemma chunk_bytes_words: "list_all u32 ws \<Longrightarrow> chunk_bytes ws = Inr (concat (map word_bytes ws))"
  by (induction ws) (simp_all add: to_bytes4_def)

lemma put_words_words:
  "list_all u32 ws \<Longrightarrow> put_words (k * 4) (concat (map word_bytes ws)) mem = store_words k ws mem"
proof (induction ws arbitrary: k mem)
  case (Cons w ws)
  then show ?case
    using Cons.IH [of "k + 1" "AList.update k w mem"] by (simp add: put_words_word)
qed simp

lemma store_words_append: "store_words k (xs @ ys) m = store_words (k + int (length xs)) ys (store_words k xs m)"
  by (induction xs arbitrary: k m) (simp_all add: add.assoc)

function chunk_records :: "int \<Rightarrow> int list \<Rightarrow> records" where
  "chunk_records k ws =
     (if ws = [] then [] else (k * 4, concat (map word_bytes (take 4 ws))) # chunk_records (k + 4) (drop 4 ws))"
  by pat_completeness auto
termination
  by (relation "measure (\<lambda>(_, ws). length ws)") auto

declare chunk_records.simps [simp del]

lemma word_bytes_concat:
  "list_all byte (concat (map word_bytes ws))" "length (concat (map word_bytes ws)) = 4 * length ws"
  by (induction ws) (simp_all add: word_bytes_byte)

lemma chunk_records_ok: "records_ok (chunk_records k ws)"
proof (induction k ws rule: chunk_records.induct)
  case (1 k ws)
  show ?case
  proof (cases "ws = []")
    case True
    then show ?thesis by (subst chunk_records.simps) (simp add: records_ok_def)
  next
    case False
    have "concat (map word_bytes (take 4 ws)) \<noteq> []"
      using word_bytes_concat(2) [of "take 4 ws"] False by (metis length_0_conv mult_eq_0_iff take_eq_Nil zero_neq_numeral)
    with 1 False show ?thesis
      by (subst chunk_records.simps) (simp add: records_ok_def word_bytes_concat)
  qed
qed

lemma stored_chunk_records:
  "0 \<le> k \<Longrightarrow> k + int (length ws) \<le> 0x4000 \<Longrightarrow> list_all u32 ws \<Longrightarrow>
   stored (chunk_records k ws) mem = store_words k ws mem"
proof (induction k ws arbitrary: mem rule: chunk_records.induct)
  case (1 k ws)
  show ?case
  proof (cases "ws = []")
    case True
    then show ?thesis by (subst chunk_records.simps) (simp add: stored_def)
  next
    case False
    have u: "list_all u32 (take 4 ws)" "list_all u32 (drop 4 ws)"
      using 1(4) by (auto simp: list_all_iff dest: in_set_takeD in_set_dropD)
    have "k < 0x4000" using False 1(3) by (cases ws) auto
    then have a: "k * 4 AND 0xFFFF = k * 4" using 1(2) by (simp add: low_address)
    have "stored (chunk_records k ws) mem =
        stored (chunk_records (k + 4) (drop 4 ws)) (store_words k (take 4 ws) mem)"
      using False u a by (subst chunk_records.simps) (simp add: stored_def put_words_words)
    also have "\<dots> = store_words (k + 4) (drop 4 ws) (store_words k (take 4 ws) mem)"
      using 1(1) [OF False _ _ u(2)] 1(2,3) by (cases "length ws < 4") (auto simp: chunk_records.simps stored_def)
    also have "\<dots> = store_words k (take 4 ws @ drop 4 ws) mem"
      using store_words_append [of k "take 4 ws" "drop 4 ws" mem] by (cases "length ws < 4") auto
    finally show ?thesis by simp
  qed
qed

lemma write_intel_hex_records:
  "0 \<le> k \<Longrightarrow> k + int (length ws) \<le> 0x4000 \<Longrightarrow> list_all u32 ws \<Longrightarrow>
   write_intel_hex_from ws k = Inr (concat (map (\<lambda>l. l @ [CHR 0x0A]) (record_lines (chunk_records k ws))))"
proof (induction k ws rule: chunk_records.induct)
  case (1 k ws)
  show ?case
  proof (cases "ws = []")
    case True
    then show ?thesis
      by (subst write_intel_hex_from.simps, subst chunk_records.simps) (simp add: record_lines_def)
  next
    case False
    have u: "list_all u32 (take 4 ws)" "list_all u32 (drop 4 ws)"
      using 1(4) by (auto simp: list_all_iff dest: in_set_takeD in_set_dropD)
    have k: "0 \<le> k * 4" "k * 4 < 0x10000"
      using False 1(2,3) by (cases ws; simp)+
    have "tool_hex_record (k * 4) (concat (map word_bytes (take 4 ws))) =
        ihex_record (k * 4) (concat (map word_bytes (take 4 ws)))"
      using k word_bytes_concat(2) [of "take 4 ws"] by (intro tool_hex_record_ihex) auto
    moreover have "write_intel_hex_from (drop 4 ws) (k + 4) =
        Inr (concat (map (\<lambda>l. l @ [CHR 0x0A]) (record_lines (chunk_records (k + 4) (drop 4 ws)))))"
      using 1(1) [OF False _ _ u(2)] 1(2,3)
      by (cases "length ws < 4") (auto simp: chunk_records.simps write_intel_hex_from.simps record_lines_def)
    ultimately show ?thesis
      using False chunk_bytes_words [OF u(1)]
      by (subst write_intel_hex_from.simps, subst chunk_records.simps) (simp add: record_lines_def)
  qed
qed

lemma write_intel_hex_readers:
  assumes "length ws \<le> 0x4000" "list_all u32 ws"
  obtains t where "write_intel_hex ws = Inr t" "main_load_hex t = Inr ws"
    "load_hex t = Inr (store_words 0 ws [])"
proof -
  let ?rs = "chunk_records 0 ws"
  have t: "write_intel_hex ws = Inr (concat (map (\<lambda>l. l @ [CHR 0x0A]) (record_lines ?rs)))"
    using assms by (simp add: write_intel_hex_def write_intel_hex_records)
  have l: "py_splitlines (concat (map (\<lambda>l. l @ [CHR 0x0A]) (record_lines ?rs))) = record_lines ?rs"
    by (rule splitlines_concat [OF record_lines_one_line [OF chunk_records_ok]])
  have s: "stored ?rs [] = store_words 0 ws []"
    using assms by (intro stored_chunk_records) simp_all
  show ?thesis
    using that [OF t] main_load_hex_records [OF l chunk_records_ok] load_hex_records [OF l chunk_records_ok]
    by (simp add: s dense_store_words)
qed

lemma word_byte_bits:
  "bit (shl (take_bit 8 (shr w 24)) 24 OR shl (take_bit 8 (shr w 16)) 16 OR shl (take_bit 8 (shr w 8)) 8
     OR take_bit 8 w) n = bit (take_bit 32 w) n" for w :: int
proof -
  consider "n < 8" | "8 \<le> n" "n < 16" | "16 \<le> n" "n < 24" | "24 \<le> n" by linarith
  then show ?thesis by cases (auto simp: bit_simps)
qed

lemma load_bin_write:
  "list_all u32 ws \<Longrightarrow> \<exists>bs. write_bin ws = Inr bs \<and> main_load_bin bs = ws"
proof -
  have w: "main_load_bin (word_bytes w @ bs) = w # main_load_bin bs" if "u32 w" for w bs
  proof -
    have "shl (shr w 24 AND 0xFF) 24 OR shl (shr w 16 AND 0xFF) 16 OR shl (shr w 8 AND 0xFF) 8 OR (w AND 0xFF) = w"
      using that unfolding mask_FF u32_bits by (metis bit_eqI word_byte_bits)
    then show ?thesis
      unfolding word_bytes_def by (simp only: append.simps main_load_bin.simps)
  qed
  show "list_all u32 ws \<Longrightarrow> ?thesis"
    by (induction ws) (auto simp: write_bin_def chunk_bytes_words to_bytes4_def w)
qed

section \<open>A linked image\<close>

lemma linked_image:
  assumes "\<forall>a \<in> fst ` set mem. 0 \<le> a \<and> a < 0x4000" "distinct (map fst mem)"
  shows "\<exists>m. load_hex (link_text mem) = Inr m \<and> (\<forall>a. map_of m a = map_option (\<lambda>w. w AND 0xFFFFFFFF) (map_of mem a))"
proof -
  define f where "f = (\<lambda>a. the (map_of mem a) AND 0xFFFFFFFF)"
  have "fold (\<lambda>a. AList.update (a mod 0x4000) (f a)) (sort (map fst mem)) [] =
      fold (\<lambda>a. AList.update a (f a)) (sort (map fst mem)) []"
    using assms(1) by (intro fold_cong) auto
  then have "load_hex (link_text mem) = Inr (fold (\<lambda>a. AList.update a (f a)) (sort (map fst mem)) [])"
    by (simp add: load_hex_link f_def)
  moreover have "map_of (fold (\<lambda>a. AList.update a (f a)) (sort (map fst mem)) []) a =
      map_option (\<lambda>w. w AND 0xFFFFFFFF) (map_of mem a)" for a
    using assms(2) by (cases "map_of mem a")
      (auto simp: map_of_fold_update f_def map_of_eq_None_iff dest!: map_of_SomeD intro: rev_image_eqI)
  ultimately show ?thesis by blast
qed

lemma write_bin_overflow: "\<not> list_all u32 ws \<Longrightarrow> write_bin ws = Inl OverflowError"
proof -
  have b: "chunk_bytes ws = (if list_all u32 ws then chunk_bytes ws else Inl OverflowError)" for ws
    by (induction ws) (auto simp: to_bytes4_def ebind_def split: sum.split if_splits)
  assume "\<not> list_all u32 ws"
  then show ?thesis using b [of ws] by (simp add: write_bin_def)
qed

text \<open>The flat binary of a program of 32-bit words is read back as the same words; a value outside 32 bits
  raises \<^verbatim>\<open>OverflowError\<close>.\<close>

theorem binary_roundtrip:
  "(list_all u32 ws \<longrightarrow> (\<exists>bs. write_bin ws = Inr bs \<and> main_load_bin bs = ws))
   \<and> (\<not> list_all u32 ws \<longrightarrow> write_bin ws = Inl OverflowError)"
  using load_bin_write [of ws] write_bin_overflow [of ws] by blast

end
