(* ===== verification/Linker.thy ===== *)
theory Linker
  imports Hex_Roundtrip Isa_Codec
begin

unbundle bit_operations_syntax

text \<open>
  \<^verbatim>\<open>toolchain/linker.py\<close>: object files are merged into two segments and a symbol table, then the
  relocations are applied and the image is written as Intel HEX.  The JSON text of an object file
  is taken as already parsed: \<open>obj_file\<close> holds its entries, None where the key is missing.
\<close>

section \<open>Model\<close>

datatype link_error = Duplicate_Symbol string | Undefined_Reference string | Out_Of_Range string

record reloc =
  rl_addr :: int
  rl_sym :: string
  rl_type :: string

record obj_file =
  ob_words :: "int list option"
  ob_text :: "(int \<times> int) list option"
  ob_data :: "(int \<times> int) list"
  ob_bss_size :: int
  ob_symbols :: "(string \<times> int) list"
  ob_relocs :: "reloc list"

record linker =
  lk_text_base :: int
  lk_data_base :: int
  lk_text :: "(int \<times> int) list"
  lk_data :: "(int \<times> int) list"
  lk_bss_size :: int
  lk_symbols :: "string \<rightharpoonup> int"
  lk_relocs :: "reloc list"

definition linker_init :: "int \<Rightarrow> int \<Rightarrow> linker" where
  "linker_init text_base data_base =
     \<lparr>lk_text_base = text_base, lk_data_base = data_base, lk_text = [], lk_data = [],
      lk_bss_size = 0, lk_symbols = Map.empty, lk_relocs = []\<rparr>"

text \<open>The compact form \<^verbatim>\<open>{"words": ..., "symbols": ...}\<close> of older wrappers is expanded first.\<close>

definition normalise_obj :: "obj_file \<Rightarrow> obj_file" where
  "normalise_obj obj =
     (case (ob_words obj, ob_text obj) of
        (Some ws, None) \<Rightarrow>
          obj\<lparr>ob_text := Some (map (\<lambda>(i, w). (int i, w)) (enumerate 0 ws)), ob_data := [], ob_bss_size := 0\<rparr>
      | _ \<Rightarrow> obj)"

definition obj_text :: "obj_file \<Rightarrow> (int \<times> int) list" where
  "obj_text obj = (case ob_text obj of Some t \<Rightarrow> t | None \<Rightarrow> [])"

fun add_symbols ::
  "int \<Rightarrow> int \<Rightarrow> int \<Rightarrow> (string \<times> int) list \<Rightarrow> (string \<rightharpoonup> int) \<Rightarrow> link_error + (string \<rightharpoonup> int)" where
  "add_symbols text_at data_at n [] syms = Inr syms"
| "add_symbols text_at data_at n ((nm, addr) # rest) syms =
     (if syms nm \<noteq> None then Inl (Duplicate_Symbol nm)
      else if addr < n then add_symbols text_at data_at n rest (syms(nm \<mapsto> text_at + addr))
      else add_symbols text_at data_at n rest (syms(nm \<mapsto> data_at + (addr - n))))"

definition add_object :: "linker \<Rightarrow> obj_file \<Rightarrow> link_error + linker" where
  "add_object lk obj0 =
     (let obj = normalise_obj obj0;
          text_offset = int (length (lk_text lk));
          data_offset = int (length (lk_data lk));
          lk = lk\<lparr>lk_text := lk_text lk @ map (\<lambda>(addr, word). (addr + text_offset, word)) (obj_text obj)\<rparr>;
          lk = lk\<lparr>lk_data := lk_data lk @ map (\<lambda>(addr, word). (addr + data_offset, word)) (ob_data obj)\<rparr>;
          lk = lk\<lparr>lk_bss_size := lk_bss_size lk + ob_bss_size obj\<rparr>
      in ebind (add_symbols (lk_text_base lk + text_offset) (lk_data_base lk + data_offset)
                  (int (length (obj_text obj))) (ob_symbols obj) (lk_symbols lk)) (\<lambda>syms.
           Inr (lk\<lparr>lk_symbols := syms,
                    lk_relocs := lk_relocs lk
                      @ map (\<lambda>r. r\<lparr>rl_addr := rl_addr r + text_offset\<rparr>) (ob_relocs obj)\<rparr>)))"

fun add_objects :: "linker \<Rightarrow> obj_file list \<Rightarrow> link_error + linker" where
  "add_objects lk [] = Inr lk"
| "add_objects lk (obj # objs) = ebind (add_object lk obj) (\<lambda>lk. add_objects lk objs)"

definition add_raw_words :: "linker \<Rightarrow> int list \<Rightarrow> int \<Rightarrow> linker" where
  "add_raw_words lk words base_addr =
     lk\<lparr>lk_text := lk_text lk @ map (\<lambda>(i, w). (base_addr + int i, w)) (enumerate 0 words)\<rparr>"

text \<open>The word a relocation of \<open>word\<close> at \<open>raddr\<close> against the value \<open>sym_val\<close> leaves.\<close>

definition reloc_word :: "string \<Rightarrow> string \<Rightarrow> int \<Rightarrow> int \<Rightarrow> int \<Rightarrow> link_error + int" where
  "reloc_word rtype nm sym_val raddr word =
     (if rtype = ''abs26'' then
        (if sym_val > 0x3FFFFFF then Inl (Out_Of_Range nm)
         else Inr ((word AND 0xFC000000) OR (sym_val AND 0x3FFFFFF)))
      else if rtype = ''pc16'' then
        (let offset = sym_val - raddr
         in if offset < - 32768 \<or> offset > 32767 then Inl (Out_Of_Range nm)
            else Inr ((word AND 0xFFFF0000) OR (offset AND 0xFFFF)))
      else if rtype = ''imm16'' then
        (if sym_val > 0xFFFF then Inl (Out_Of_Range nm)
         else Inr ((word AND 0xFFFF0000) OR (sym_val AND 0xFFFF)))
      else Inr word)"

fun apply_relocs :: "int \<Rightarrow> (string \<rightharpoonup> int) \<Rightarrow> reloc list \<Rightarrow> image \<Rightarrow> link_error + image" where
  "apply_relocs text_base syms [] mem = Inr mem"
| "apply_relocs text_base syms (r # rs) mem =
     (let raddr = text_base + rl_addr r
      in case syms (rl_sym r) of
           None \<Rightarrow> Inl (Undefined_Reference (rl_sym r))
         | Some sym_val \<Rightarrow>
             let word = (case map_of mem raddr of Some w \<Rightarrow> w | None \<Rightarrow> 0)
             in ebind (reloc_word (rl_type r) (rl_sym r) sym_val raddr word) (\<lambda>word.
                  apply_relocs text_base syms rs (AList.update raddr word mem)))"

definition place :: "int \<Rightarrow> (int \<times> int) list \<Rightarrow> image \<Rightarrow> image" where
  "place base ws mem = fold (\<lambda>(addr, word). AList.update (base + addr) word) ws mem"

definition link_resolve :: "linker \<Rightarrow> link_error + image" where
  "link_resolve lk =
     (let mem = place (lk_text_base lk) (lk_text lk) [];
          mem = place (lk_data_base lk) (lk_data lk) mem
      in apply_relocs (lk_text_base lk) (lk_symbols lk) (lk_relocs lk) mem)"

definition link :: "linker \<Rightarrow> link_error + string" where
  "link lk = ebind (link_resolve lk) (\<lambda>mem. Inr (link_text mem))"

section \<open>Relocated words\<close>

lemma reloc_bits_26: "(w AND 0xFC000000) OR (v AND 0x3FFFFFF) = encode_j opc v"
  if "decode w = D_J opc a" "u32 w"
proof -
  have w: "encode_j opc a = w" and o: "opcode_val opc = shr w 26 AND 0x3F"
    using encode_decoded(4) [OF that(2,1)] decode_opcode [of w opc] that by simp_all
  have "w AND 0xFC000000 = shl (opcode_val opc AND 0x3F) 26"
  proof -
    have m: "(0xFC000000 :: int) = push_bit 26 (mask 6)"
      by (simp add: push_bit_eq_mult mask_eq_exp_minus_1)
    show ?thesis
      unfolding o m mask_3F by (rule bit_eqI) (auto simp: bit_simps)
  qed
  then show ?thesis by (simp add: encode_j_def)
qed

lemma high_half: "(w AND 0xFFFF0000) OR (v AND 0xFFFF) = (w AND NOT (mask 16)) OR (v AND 0xFFFF)" if "u32 w"
proof -
  have m: "(0xFFFF0000 :: int) = push_bit 16 (mask 16)"
    by (simp add: push_bit_eq_mult mask_eq_exp_minus_1)
  have "w AND 0xFFFF0000 = take_bit 32 w AND NOT (mask 16)"
    unfolding m by (rule bit_eqI) (auto simp: bit_simps)
  then show ?thesis using that by (simp add: u32_bits)
qed

lemma encode_i_high: "encode_i opc rd rs1 imm AND NOT (mask 16) = encode_i opc rd rs1 0"
  unfolding encode_i_def mask_bits by (rule bit_eqI) (auto simp: bit_simps)

lemma reloc_bits_16:
  assumes "encode_i opc rd rs1 imm = w"
  shows "(w AND 0xFFFF0000) OR (v AND 0xFFFF) = encode_i opc rd rs1 v"
proof -
  have u: "u32 w" using assms u32_encode_i by metis
  have "encode_i opc rd rs1 v = encode_i opc rd rs1 0 OR (v AND 0xFFFF)"
    by (simp add: encode_i_def ac_simps)
  then show ?thesis
    unfolding high_half [OF u] by (simp add: encode_i_high flip: assms)
qed

text \<open>A relocated branch reaches the symbol, a relocated jump holds its address.\<close>

lemma reloc_branch:
  assumes w: "u32 w" "decode w = D_B opc rs1 rs2 off"
    and r: "reloc_word ''pc16'' s v a w = Inr w'"
  shows "decode w' = D_B opc rs1 rs2 (v - a)"
proof -
  have f: "OPCODE_FMT opc = Fmt_B" "reg_index rs1" "reg_index rs2"
    using decode_ok [of w] w(2) by simp_all
  have e: "encode_i opc rs1 rs2 off = w"
    using encode_decoded(3) [OF w(1,2)] by (simp add: encode_b_eq_i)
  have o: "- 32768 \<le> v - a" "v - a \<le> 32767" and w': "w' = encode_b opc rs1 rs2 (v - a)"
    using r reloc_bits_16 [OF e, of "v - a"]
    by (auto simp: reloc_word_def Let_def encode_b_eq_i split: if_splits)
  have "x AND 0x1F = x" if "reg_index x" for x
    using that by (simp add: reg_index_def mask_bits take_bit_int_eq_self)
  then show ?thesis
    using codec_b.dec_enc [of "(opc, rs1, rs2, v - a)"] f o sext_id [of 16 "v - a"]
    by (simp add: ops_defs w')
qed

lemma reloc_jump:
  assumes w: "u32 w" "decode w = D_J opc addr"
    and r: "reloc_word ''abs26'' s v a w = Inr w'" and v: "0 \<le> v"
  shows "decode w' = D_J opc v"
proof -
  have "OPCODE_FMT opc = Fmt_J" using decode_ok [of w] w(2) by simp
  moreover have "w' = encode_j opc v" "v \<le> 0x3FFFFFF"
    using r reloc_bits_26 [OF w(2,1), of v] by (auto simp: reloc_word_def split: if_splits)
  moreover have "v AND 0x3FFFFFF = v"
    using v \<open>v \<le> 0x3FFFFFF\<close> by (simp add: mask_bits take_bit_int_eq_self)
  ultimately show ?thesis
    using codec_j.dec_enc [of "(opc, v)"] by (simp add: ops_defs)
qed

section \<open>Layout\<close>

lemma add_symbols_keeps:
  "add_symbols ta da n l syms = Inr syms' \<Longrightarrow> syms s = Some v \<Longrightarrow> syms' s = Some v"
proof (induction ta da n l syms rule: add_symbols.induct)
  case (2 ta da n nm addr rest syms)
  then have "s \<noteq> nm" by (auto split: if_splits)
  with 2 show ?case by (simp add: fun_upd_other del: fun_upd_apply split: if_splits)
qed simp

lemma add_symbols_value:
  "add_symbols ta da n l syms = Inr syms' \<Longrightarrow> (s, a) \<in> set l \<Longrightarrow>
   syms' s = Some (if a < n then ta + a else da + (a - n))"
  by (induction ta da n l syms rule: add_symbols.induct)
    (auto split: if_splits dest: add_symbols_keeps)

lemma reloc_range:
  "v - a < - 32768 \<or> 32767 < v - a \<Longrightarrow> reloc_word ''pc16'' s v a w = Inl (Out_Of_Range s)"
  "0x3FFFFFF < v \<Longrightarrow> reloc_word ''abs26'' s v a w = Inl (Out_Of_Range s)"
  by (auto simp: reloc_word_def)

lemma reloc_total:
  "- 32768 \<le> v - a \<Longrightarrow> v - a \<le> 32767 \<Longrightarrow> \<exists>w'. reloc_word ''pc16'' s v a w = Inr w'"
  "v \<le> 0x3FFFFFF \<Longrightarrow> \<exists>w'. reloc_word ''abs26'' s v a w = Inr w'"
  by (auto simp: reloc_word_def Let_def)

definition number_words :: "nat \<Rightarrow> int list \<Rightarrow> (int \<times> int) list" where
  "number_words k ws = map (\<lambda>(i, w). (int i, w)) (enumerate k ws)"

lemma number_words_append: "number_words k (xs @ ys) = number_words k xs @ number_words (k + length xs) ys"
  by (simp add: number_words_def enumerate_append_eq)

lemma number_words_shift:
  "map (\<lambda>(a, w). (a + int k, w)) (number_words 0 ws) = number_words k ws"
  by (rule nth_equalityI) (simp_all add: number_words_def nth_enumerate_eq)

text \<open>A module whose text is a run of words from address 0, as the assembler writes it.\<close>

definition dense_obj :: "obj_file \<Rightarrow> int list \<Rightarrow> bool" where
  "dense_obj obj ws \<longleftrightarrow> obj_text (normalise_obj obj) = number_words 0 ws"

lemma normalise_symbols [simp]: "ob_symbols (normalise_obj obj) = ob_symbols obj"
  by (simp add: normalise_obj_def split: option.split)

lemma add_object_dense:
  assumes a: "add_object lk obj = Inr lk'" and d: "dense_obj obj ws" and t: "lk_text lk = number_words 0 pre"
  shows "lk_text lk' = number_words 0 (pre @ ws)"
    and "lk_text_base lk' = lk_text_base lk"
    and "lk_symbols lk s = Some v \<Longrightarrow> lk_symbols lk' s = Some v"
    and "(s, x) \<in> set (ob_symbols obj) \<Longrightarrow> x < int (length ws) \<Longrightarrow>
      lk_symbols lk' s = Some (lk_text_base lk + int (length pre) + x)"
proof -
  have l: "length (number_words k ws) = length ws" for k ws
    by (simp add: number_words_def)
  obtain syms where sy: "add_symbols (lk_text_base lk + int (length pre)) (lk_data_base lk + int (length (lk_data lk)))
      (int (length ws)) (ob_symbols obj) (lk_symbols lk) = Inr syms" and s': "lk_symbols lk' = syms"
      "lk_text lk' = number_words 0 pre @ number_words (length pre) ws" "lk_text_base lk' = lk_text_base lk"
    using a d number_words_shift [of "length pre" ws]
    by (auto simp: add_object_def Let_def dense_obj_def t l ebind_Inr_iff)
  show "lk_text lk' = number_words 0 (pre @ ws)" "lk_text_base lk' = lk_text_base lk"
    by (simp_all add: s' number_words_append)
  show "lk_symbols lk s = Some v \<Longrightarrow> lk_symbols lk' s = Some v"
    using add_symbols_keeps [OF sy] by (simp add: s')
  show "(s, x) \<in> set (ob_symbols obj) \<Longrightarrow> x < int (length ws) \<Longrightarrow>
      lk_symbols lk' s = Some (lk_text_base lk + int (length pre) + x)"
    using add_symbols_value [OF sy, of s x] by (simp add: s')
qed

lemma add_objects_layout:
  assumes "add_objects lk objs = Inr lk'" "list_all2 dense_obj objs wss" "lk_text lk = number_words 0 pre"
  shows "lk_text lk' = number_words 0 (pre @ concat wss) \<and> lk_text_base lk' = lk_text_base lk
    \<and> (\<forall>s v. lk_symbols lk s = Some v \<longrightarrow> lk_symbols lk' s = Some v)
    \<and> (\<forall>k < length objs. \<forall>(s, x) \<in> set (ob_symbols (objs ! k)). x < int (length (wss ! k)) \<longrightarrow>
         lk_symbols lk' s = Some (lk_text_base lk + int (length pre) + int (length (concat (take k wss))) + x))"
  using assms
proof (induction objs arbitrary: lk wss pre)
  case (Cons obj objs)
  obtain ws wss' where w: "wss = ws # wss'" "dense_obj obj ws" "list_all2 dense_obj objs wss'"
    using Cons.prems(2) by (auto simp: list_all2_Cons1)
  obtain lk1 where l: "add_object lk obj = Inr lk1" "add_objects lk1 objs = Inr lk'"
    using Cons.prems(1) by (auto simp: ebind_Inr_iff)
  note o = add_object_dense [OF l(1) w(2) Cons.prems(3)]
  note ih = Cons.IH [OF l(2) w(3) o(1)]
  have "lk_symbols lk' s = Some (lk_text_base lk + int (length pre) + int (length (concat (take k wss))) + x)"
    if k: "k < length (obj # objs)" and x: "(s, x) \<in> set (ob_symbols ((obj # objs) ! k))" "x < int (length (wss ! k))"
    for k s x
  proof (cases k)
    case 0
    then show ?thesis using ih o(4) [of s x] x by (auto simp: w(1))
  next
    case (Suc j)
    then show ?thesis using ih o(2) k x by (fastforce simp: w(1) add.assoc)
  qed
  with ih o(2,3) show ?case by (auto simp: w(1))
qed simp

lemma map_of_number_words: "i < length ws \<Longrightarrow> map_of (number_words 0 ws) (int i) = Some (ws ! i)"
proof -
  have "distinct (map fst (number_words 0 ws))"
    by (simp add: number_words_def comp_def case_prod_beta distinct_map inj_on_def
        flip: map_map [of int fst, unfolded comp_def])
  moreover assume i: "i < length ws"
  then have "number_words 0 ws ! i = (int i, ws ! i)" "i < length (number_words 0 ws)"
    by (simp_all add: number_words_def nth_enumerate_eq)
  then have "(int i, ws ! i) \<in> set (number_words 0 ws)"
    by (metis nth_mem)
  ultimately show ?thesis by (rule map_of_is_SomeI)
qed

end
