(* ===== verification/C_Lexer.thy ===== *)
theory C_Lexer
  imports Py_Text
begin

text \<open>
  \<^verbatim>\<open>compiler/ast_nodes.py\<close> and the lexer of \<^verbatim>\<open>compiler/compiler.py\<close>: the syntax tree of the
  C-like language, and the scan of the source with the ordered alternatives of \<^verbatim>\<open>_LEX_SPEC\<close>.
  Each alternative is a matcher that returns the lexeme its regular expression finds at the current
  position; \<^verbatim>\<open>finditer\<close> takes the first one that matches and skips a character where none does.
  Text is ASCII.
\<close>

section \<open>Syntax tree\<close>

datatype expr =
    IntLiteral int nat
  | VarRef string nat
  | BinOp string expr expr nat
  | UnaryOp string expr nat
  | FuncCall string "expr list" nat
  | ArrayRef string expr nat
  | AddrOf string "expr option" nat
  | Deref expr nat
  | StringLit string nat

datatype stmt =
    VarDecl string "expr option" nat bool
  | ArrayDecl string int "expr list option" nat
  | Assign string string expr nat
  | ArrayAssign string expr string expr nat
  | DerefAssign expr string expr nat
  | IfStmt expr "stmt list" "stmt list" nat
  | WhileStmt expr "stmt list" nat
  | ForStmt "stmt option" "expr option" "stmt option" "stmt list" nat
  | ReturnStmt "expr option" nat
  | BreakStmt nat
  | ContinueStmt nat
  | ExprStmt expr nat
  | Block "stmt list" nat

datatype global_decl =
    GlobalVarDecl string "expr option" nat bool
  | GlobalArrayDecl string int "expr list option" nat

datatype func_def = FuncDef (fd_name: string) (fd_params: "string list") (fd_is_ptr: "bool list")
  (fd_body: "stmt list") (fd_line: nat)

datatype program = Program (pr_globals: "global_decl list") (pr_functions: "func_def list")

text \<open>The attribute \<^verbatim>\<open>line\<close> of an expression.\<close>

fun expr_line :: "expr \<Rightarrow> nat" where
  "expr_line (IntLiteral _ l) = l"
| "expr_line (VarRef _ l) = l"
| "expr_line (BinOp _ _ _ l) = l"
| "expr_line (UnaryOp _ _ l) = l"
| "expr_line (FuncCall _ _ l) = l"
| "expr_line (ArrayRef _ _ l) = l"
| "expr_line (AddrOf _ _ l) = l"
| "expr_line (Deref _ l) = l"
| "expr_line (StringLit _ l) = l"

section \<open>Tokens\<close>

datatype lex_kind =
    COMMENT_LINE | COMMENT_BLOCK | STRLIT | CHARLIT | NUMBER | KEYWORD | IDENT | ASSIGNOP | OP2 | OP1
  | SEMI | COMMA | LPAREN | RPAREN | LBRACE | RBRACE | LBRACKET | RBRACKET | NL | WS

datatype token = Token (tk_kind: lex_kind) (tk_value: string) (tk_line: nat)

text \<open>\<^verbatim>\<open>\w\<close> and \<^verbatim>\<open>[A-Za-z_]\<close>\<close>

definition is_alpha :: "char \<Rightarrow> bool" where
  "is_alpha c \<longleftrightarrow> (65 \<le> code c \<and> code c \<le> 90) \<or> (97 \<le> code c \<and> code c \<le> 122) \<or> c = CHR ''_''"

definition is_word :: "char \<Rightarrow> bool" where
  "is_word c \<longleftrightarrow> is_alpha c \<or> is_dec_digit c"

definition is_hex_any :: "char \<Rightarrow> bool" where
  "is_hex_any c \<longleftrightarrow> is_hex_digit c \<or> (65 \<le> code c \<and> code c \<le> 70)"

definition newline :: char where "newline = CHR 0x0A"
definition backslash :: char where "backslash = CHR 0x5C"
definition dquote :: char where "dquote = CHR 0x22"
definition squote :: char where "squote = CHR 0x27"

section \<open>The alternatives of the regular expression\<close>

text \<open>\<^verbatim>\<open>//[^\n]*\<close>\<close>

definition m_comment_line :: "string \<Rightarrow> string option" where
  "m_comment_line s = (if starts_with s ''//'' then Some (takeWhile (\<lambda>c. c \<noteq> newline) s) else None)"

text \<open>The shortest text up to and with the end of a block comment.\<close>

fun close_comment :: "string \<Rightarrow> string option" where
  "close_comment [] = None"
| "close_comment (c # cs) =
     (if starts_with (c # cs) ''*/'' then Some ''*/'' else map_option (Cons c) (close_comment cs))"

definition m_comment_block :: "string \<Rightarrow> string option" where
  "m_comment_block s =
     (if starts_with s ''/*'' then map_option (\<lambda>b. ''/*'' @ b) (close_comment (drop 2 s)) else None)"

text \<open>\<^verbatim>\<open>(?:[^"\\]|\\.)*"\<close>: the rest of a string literal with its closing quote; the dot of an escape
  is any character but a newline.\<close>

fun string_tail :: "string \<Rightarrow> string option" where
  "string_tail [] = None"
| "string_tail (c # cs) =
     (if c = dquote then Some [c]
      else if c = backslash then
        (case cs of
           [] \<Rightarrow> None
         | d # ds \<Rightarrow> if d = newline then None else map_option (\<lambda>b. c # d # b) (string_tail ds))
      else map_option (Cons c) (string_tail cs))"

definition m_strlit :: "string \<Rightarrow> string option" where
  "m_strlit s = (if s \<noteq> [] \<and> hd s = dquote then map_option (Cons dquote) (string_tail (tl s)) else None)"

text \<open>\<^verbatim>\<open>'(?:[^'\\]|\\[ntr\\0])'\<close>\<close>

fun m_charlit :: "string \<Rightarrow> string option" where
  "m_charlit (a # b # c # d # s) =
     (if a = squote \<and> b \<notin> {squote, backslash} \<and> c = squote then Some [a, b, c]
      else if a = squote \<and> b = backslash \<and> c \<in> {CHR ''n'', CHR ''t'', CHR ''r'', backslash, CHR ''0''} \<and> d = squote
      then Some [a, b, c, d] else None)"
| "m_charlit (a # b # c # s) =
     (if a = squote \<and> b \<notin> {squote, backslash} \<and> c = squote then Some [a, b, c] else None)"
| "m_charlit s = None"

text \<open>\<^verbatim>\<open>\b\<close> before a word character: the character before it is not a word character.  A match that
  ends with \<^verbatim>\<open>\b\<close> inside a run of word characters ends with the run.\<close>

definition at_boundary :: "char option \<Rightarrow> bool" where
  "at_boundary prev = (case prev of None \<Rightarrow> True | Some c \<Rightarrow> \<not> is_word c)"

definition m_number :: "char option \<Rightarrow> string \<Rightarrow> string option" where
  "m_number prev s =
     (let w = takeWhile is_word s
      in if at_boundary prev \<and> w \<noteq> [] \<and>
            (list_all is_dec_digit w
             \<or> (starts_with w ''0x'' \<and> drop 2 w \<noteq> [] \<and> list_all is_hex_any (drop 2 w)))
         then Some w else None)"

definition KEYWORDS :: "string list" where
  "KEYWORDS = [''int'', ''if'', ''else'', ''while'', ''for'', ''break'', ''continue'', ''return'',
     ''void'', ''struct'', ''char'', ''unsigned'']"

definition m_keyword :: "char option \<Rightarrow> string \<Rightarrow> string option" where
  "m_keyword prev s =
     (let w = takeWhile is_word s in if at_boundary prev \<and> w \<in> set KEYWORDS then Some w else None)"

definition m_ident :: "string \<Rightarrow> string option" where
  "m_ident s = (if s \<noteq> [] \<and> is_alpha (hd s) then Some (takeWhile is_word s) else None)"

text \<open>An alternation of fixed strings, and a character class.\<close>

definition m_lits :: "string list \<Rightarrow> string \<Rightarrow> string option" where
  "m_lits lits s = find (starts_with s) lits"

definition m_class :: "string \<Rightarrow> string \<Rightarrow> string option" where
  "m_class cls s = (if s \<noteq> [] \<and> hd s \<in> set cls then Some [hd s] else None)"

definition is_blank_char :: "char \<Rightarrow> bool" where
  "is_blank_char c \<longleftrightarrow> code c = 32 \<or> code c = 9 \<or> code c = 13"

definition m_ws :: "string \<Rightarrow> string option" where
  "m_ws s = (if s \<noteq> [] \<and> is_blank_char (hd s) then Some (takeWhile is_blank_char s) else None)"

definition ASSIGN_OPS :: "string list" where
  "ASSIGN_OPS = [''+='', ''-='', ''*='', ''/='', ''%='', ''&='', ''|='', ''^='', ''<<='', ''>>='']"

definition TWO_CHAR_OPS :: "string list" where
  "TWO_CHAR_OPS = [''=='', ''!='', ''<='', ''>='', ''<<'', ''>>'', ''&&'', ''||'']"

definition LEX_SPEC :: "char option \<Rightarrow> (lex_kind \<times> (string \<Rightarrow> string option)) list" where
  "LEX_SPEC prev =
     [(COMMENT_LINE, m_comment_line), (COMMENT_BLOCK, m_comment_block), (STRLIT, m_strlit),
      (CHARLIT, m_charlit), (NUMBER, m_number prev), (KEYWORD, m_keyword prev), (IDENT, m_ident),
      (ASSIGNOP, m_lits ASSIGN_OPS), (OP2, m_lits TWO_CHAR_OPS), (OP1, m_class ''+-*/=<>!~&|^%''),
      (SEMI, m_class '';''), (COMMA, m_class '',''), (LPAREN, m_class ''(''), (RPAREN, m_class '')''),
      (LBRACE, m_class ''{''), (RBRACE, m_class ''}''), (LBRACKET, m_class ''[''), (RBRACKET, m_class '']''),
      (NL, m_class [newline]), (WS, m_ws)]"

fun first_match :: "(lex_kind \<times> (string \<Rightarrow> string option)) list \<Rightarrow> string \<Rightarrow> (lex_kind \<times> string) option" where
  "first_match [] s = None"
| "first_match ((k, m) # ms) s = (case m s of Some v \<Rightarrow> Some (k, v) | None \<Rightarrow> first_match ms s)"

section \<open>The scan\<close>

text \<open>\<^verbatim>\<open>str(int(value, 16 if value.lower().startswith("0x") else 10))\<close>\<close>

definition number_value :: "string \<Rightarrow> string" where
  "number_value v = (if starts_with (py_lower v) ''0x'' then fmt_dec (the (py_int 16 v)) else fmt_dec (the (py_int 10 v)))"

definition char_escape :: "char \<Rightarrow> int" where
  "char_escape c = (if c = CHR ''n'' then 10 else if c = CHR ''t'' then 9 else if c = CHR ''r'' then 13
     else if c = backslash then 92 else 0)"

definition charlit_value :: "string \<Rightarrow> int" where
  "charlit_value v =
     (let inner = butlast (tl v)
      in if hd inner = backslash then char_escape (inner ! 1) else int (code (hd inner)))"

text \<open>The tokens a lexeme gives, and the line after it.\<close>

definition lex_emit :: "lex_kind \<Rightarrow> string \<Rightarrow> nat \<Rightarrow> token list" where
  "lex_emit kind v line =
     (if kind \<in> {WS, COMMENT_LINE, COMMENT_BLOCK, NL} then []
      else if kind = STRLIT then [Token STRLIT (butlast (tl v)) line]
      else if kind = NUMBER then [Token NUMBER (number_value v) line]
      else if kind = CHARLIT then [Token NUMBER (fmt_dec (charlit_value v)) line]
      else [Token kind v line])"

definition lex_line :: "lex_kind \<Rightarrow> string \<Rightarrow> nat \<Rightarrow> nat" where
  "lex_line kind v line =
     (if kind \<in> {WS, COMMENT_LINE, COMMENT_BLOCK} then line + count_list v newline
      else if kind = NL then line + 1 else line)"

function lex_from :: "char option \<Rightarrow> nat \<Rightarrow> string \<Rightarrow> token list" where
  "lex_from prev line [] = []"
| "lex_from prev line (c # cs) =
     (case first_match (LEX_SPEC prev) (c # cs) of
        None \<Rightarrow> lex_from (Some c) line cs
      | Some (kind, v) \<Rightarrow>
          lex_emit kind v line @
          lex_from (Some (last v)) (lex_line kind v line) (drop (length v - 1) cs))"
  by pat_completeness auto
termination by (relation "measure (\<lambda>(_, _, s). length s)") auto

definition lex_c :: "string \<Rightarrow> token list" where
  "lex_c source = lex_from None 1 source"

section \<open>Lexemes\<close>

lemma starts_with_append: "starts_with s p \<longleftrightarrow> (\<exists>r. s = p @ r)"
  by (induction s p rule: starts_with.induct) auto

lemma close_comment_prefix: "close_comment s = Some v \<Longrightarrow> \<exists>r. s = v @ r"
  by (induction s arbitrary: v) (auto simp: starts_with_append split: if_splits)

lemma string_tail_prefix: "string_tail s = Some v \<Longrightarrow> v \<noteq> [] \<and> (\<exists>r. s = v @ r)"
proof (induction s arbitrary: v rule: string_tail.induct)
  case (2 c cs)
  show ?case
  proof (cases "c = dquote \<or> c \<noteq> backslash")
    case True
    with 2 show ?thesis by (auto split: if_splits)
  next
    case False
    then obtain d ds b where "cs = d # ds" "d \<noteq> newline" "string_tail ds = Some b" "v = c # d # b"
      using "2.prems" by (auto split: list.splits if_splits)
    with "2.IH"(1) [of d ds b] False show ?thesis by auto
  qed
qed simp

lemma takeWhile_prefix: "\<exists>r. s = takeWhile P s @ r"
  by (metis takeWhile_dropWhile_id)

lemma m_charlit_prefix: "m_charlit s = Some v \<Longrightarrow> v \<noteq> [] \<and> (\<exists>r. s = v @ r)"
  by (cases s rule: m_charlit.cases) (auto split: if_splits)

text \<open>Every alternative matches a non-empty prefix of the text at the current position, so that no
  character is read twice.\<close>

lemma first_match_in: "first_match ms s = Some (k, v) \<Longrightarrow> \<exists>m. (k, m) \<in> set ms \<and> m s = Some v"
  by (induction ms) (auto split: option.splits)

lemma lex_spec_prefix:
  assumes "(k, m) \<in> set (LEX_SPEC prev)" "m s = Some v"
  shows "v \<noteq> [] \<and> (\<exists>r. s = v @ r)"
proof -
  have cls: "m_class cls s = Some v \<Longrightarrow> v \<noteq> [] \<and> (\<exists>r. s = v @ r)" for cls
    by (cases s) (auto simp: m_class_def split: if_splits)
  have lits: "m_lits ls s = Some v \<Longrightarrow> [] \<notin> set ls \<Longrightarrow> v \<noteq> [] \<and> (\<exists>r. s = v @ r)" for ls
    by (auto simp: m_lits_def starts_with_append find_Some_iff dest!: nth_mem)
  have ops: "[] \<notin> set ASSIGN_OPS" "[] \<notin> set TWO_CHAR_OPS"
    by (simp_all add: ASSIGN_OPS_def TWO_CHAR_OPS_def)
  have line: "m_comment_line s = Some v \<Longrightarrow> v \<noteq> [] \<and> (\<exists>r. s = v @ r)"
    using takeWhile_prefix [of s "\<lambda>c. c \<noteq> newline"] unfolding m_comment_line_def
    by (auto simp del: takeWhile.simps simp: starts_with_append takeWhile_eq_Nil_iff newline_def split: if_splits)
  have block: "m_comment_block s = Some v \<Longrightarrow> v \<noteq> [] \<and> (\<exists>r. s = v @ r)"
    using close_comment_prefix by (fastforce simp: m_comment_block_def starts_with_append split: if_splits)
  have str: "m_strlit s = Some v \<Longrightarrow> v \<noteq> [] \<and> (\<exists>r. s = v @ r)"
    using string_tail_prefix by (cases s) (fastforce simp: m_strlit_def split: if_splits)+
  have num: "m_number prev s = Some v \<Longrightarrow> v \<noteq> [] \<and> (\<exists>r. s = v @ r)"
    using takeWhile_prefix [of s is_word] by (auto simp: m_number_def Let_def split: if_splits)
  have kw: "m_keyword prev s = Some v \<Longrightarrow> v \<noteq> [] \<and> (\<exists>r. s = v @ r)"
    using takeWhile_prefix [of s is_word] by (auto simp: m_keyword_def Let_def KEYWORDS_def split: if_splits)
  have id: "m_ident s = Some v \<Longrightarrow> v \<noteq> [] \<and> (\<exists>r. s = v @ r)"
    using takeWhile_prefix [of s is_word] by (cases s) (auto simp: m_ident_def is_word_def split: if_splits)
  have ws: "m_ws s = Some v \<Longrightarrow> v \<noteq> [] \<and> (\<exists>r. s = v @ r)"
    using takeWhile_prefix [of s is_blank_char] by (cases s) (auto simp: m_ws_def split: if_splits)
  show ?thesis
    using assms line block str num kw id ws cls lits [of ASSIGN_OPS] lits [of TWO_CHAR_OPS] ops m_charlit_prefix [of s v]
    by (auto simp: LEX_SPEC_def)
qed

end
