(* ===== verification/C_Parser.thy ===== *)
theory C_Parser
  imports C_Lexer
begin

text \<open>
  \<^verbatim>\<open>_Parser\<close> of \<^verbatim>\<open>compiler/compiler.py\<close>: recursive descent over the tokens.  The position in the
  token list is the list of the tokens still to come, so that saving and restoring \<^verbatim>\<open>_pos\<close> is
  keeping the list.  The nine levels of binary operators are the same loop over different tokens
  and share one definition, numbered from 0 (\<^verbatim>\<open>_parse_logical_or\<close>) to 8 (\<^verbatim>\<open>_parse_multiplicative\<close>).
  The recursion takes fuel; \<open>parse_expr\<close> and \<open>parse_stmt\<close> start with enough for the tokens at hand
  (theory \<open>Parser_Total\<close> proves it), so \<open>Out_Of_Fuel\<close> is never the result.  The depth limit of the
  Python interpreter is not modelled.
\<close>

section \<open>Errors\<close>

datatype compile_problem =
    Expected lex_kind "string option"
  | Expression_Expected | Statement_Expected | Unexpected_Token
  | Too_Many_Parameters string | Too_Many_Locals | Temporaries_Exhausted
  | Break_Outside_Loop | Continue_Outside_Loop
  | Bad_Address_Of string | Undeclared_Array string
  | Bad_Operator string | Bad_Compound_Operator string

datatype compile_error =
    CompileError compile_problem nat
  | No_Line_Of_None      \<comment> \<open>the AttributeError of \<^verbatim>\<open>self._peek().line\<close> at the end of the input\<close>
  | Bad_Literal          \<comment> \<open>the ValueError of \<^verbatim>\<open>int(t.value)\<close>\<close>
  | Out_Of_Fuel

type_synonym 'a parse = "token list \<Rightarrow> compile_error + 'a \<times> token list"

section \<open>Tokens at the current position\<close>

definition p_match :: "lex_kind \<Rightarrow> token list \<Rightarrow> bool" where
  "p_match k ts = (case ts of [] \<Rightarrow> False | t # _ \<Rightarrow> tk_kind t = k)"

definition p_match_value :: "lex_kind \<Rightarrow> string \<Rightarrow> token list \<Rightarrow> bool" where
  "p_match_value k v ts = (case ts of [] \<Rightarrow> False | t # _ \<Rightarrow> tk_kind t = k \<and> tk_value t = v)"

definition peek_line :: "token list \<Rightarrow> compile_error + nat" where
  "peek_line ts = (case ts of [] \<Rightarrow> Inl No_Line_Of_None | t # _ \<Rightarrow> Inr (tk_line t))"

definition p_expect :: "lex_kind \<Rightarrow> token parse" where
  "p_expect k ts =
     (case ts of
        [] \<Rightarrow> Inl (CompileError (Expected k None) 0)
      | t # ts' \<Rightarrow> if tk_kind t = k then Inr (t, ts') else Inl (CompileError (Expected k None) (tk_line t)))"

definition p_expect_value :: "lex_kind \<Rightarrow> string \<Rightarrow> token parse" where
  "p_expect_value k v ts =
     (case ts of
        [] \<Rightarrow> Inl (CompileError (Expected k (Some v)) 0)
      | t # ts' \<Rightarrow>
          if tk_kind t = k \<and> tk_value t = v then Inr (t, ts')
          else Inl (CompileError (Expected k (Some v)) (tk_line t)))"

text \<open>\<^verbatim>\<open>int(t.value)\<close>\<close>

definition token_int :: "token \<Rightarrow> compile_error + int" where
  "token_int t = (case py_int 10 (tk_value t) of Some v \<Rightarrow> Inr v | None \<Rightarrow> Inl Bad_Literal)"

text \<open>Optional comma, and the run of \<^verbatim>\<open>*\<close> of a pointer type.\<close>

definition skip_comma :: "token list \<Rightarrow> token list" where
  "skip_comma ts = (if p_match COMMA ts then tl ts else ts)"

fun skip_stars :: "token list \<Rightarrow> bool \<times> token list" where
  "skip_stars [] = (False, [])"
| "skip_stars (t # ts) =
     (if tk_kind t = OP1 \<and> tk_value t = ''*'' then (True, snd (skip_stars ts)) else (False, t # ts))"

section \<open>Expressions\<close>

text \<open>The operators of the level: \<^verbatim>\<open>||\<close>, \<^verbatim>\<open>&&\<close>, \<^verbatim>\<open>|\<close>, \<^verbatim>\<open>^\<close>, \<^verbatim>\<open>&\<close>, comparisons, shifts, additive and
  multiplicative operators.\<close>

definition level_op :: "nat \<Rightarrow> token \<Rightarrow> bool" where
  "level_op k t =
     (let v = tk_value t; kd = tk_kind t in
      if k = 0 then kd = OP2 \<and> v = ''||''
      else if k = 1 then kd = OP2 \<and> v = ''&&''
      else if k = 2 then kd = OP1 \<and> v = ''|''
      else if k = 3 then kd = OP1 \<and> v = ''^''
      else if k = 4 then kd = OP1 \<and> v = ''&''
      else if k = 5 then kd \<in> {OP2, OP1} \<and> v \<in> {''=='', ''!='', ''<'', ''>'', ''<='', ''>=''}
      else if k = 6 then kd = OP2 \<and> v \<in> {''<<'', ''>>''}
      else if k = 7 then kd = OP1 \<and> v \<in> {''+'', ''-''}
      else kd = OP1 \<and> v \<in> {''*'', ''/'', ''%''})"

text \<open>The tokens of a cast after its opening parenthesis: a type, stars and the closing
  parenthesis.\<close>

definition cast_rest :: "token list \<Rightarrow> token list option" where
  "cast_rest ts =
     (case ts of
        [] \<Rightarrow> None
      | t # ts' \<Rightarrow>
          if tk_kind t = KEYWORD \<and> tk_value t \<in> {''int'', ''void'', ''char'', ''unsigned''} then
            (let ts2 = snd (skip_stars ts') in if p_match RPAREN ts2 then Some (tl ts2) else None)
          else None)"

text \<open>The methods call one another through the parameter \<open>p\<close>: \<open>p k\<close> is the parser of level \<open>k\<close>,
  \<open>p 9\<close> that of unary and \<open>p 10\<close> that of primary expressions, with one unit of fuel less.\<close>

fun ops_loop :: "nat \<Rightarrow> expr parse \<Rightarrow> nat \<Rightarrow> expr \<Rightarrow> expr parse" where
  "ops_loop 0 operand k left ts = Inl Out_Of_Fuel"
| "ops_loop (Suc n) operand k left ts =
     (case ts of
        [] \<Rightarrow> Inr (left, ts)
      | t # ts' \<Rightarrow>
          if level_op k t then
            ebind (operand ts') (\<lambda>(right, ts).
              ops_loop n operand k (BinOp (tk_value t) left right (expr_line left)) ts)
          else Inr (left, ts))"

definition parse_binary :: "(nat \<Rightarrow> expr parse) \<Rightarrow> nat \<Rightarrow> expr parse" where
  "parse_binary p k ts =
     ebind (p (k + 1) ts) (\<lambda>(left, ts). ops_loop (length ts + 1) (p (k + 1)) k left ts)"

definition parse_unary :: "(nat \<Rightarrow> expr parse) \<Rightarrow> expr parse" where
  "parse_unary p ts =
     (case ts of
        [] \<Rightarrow> p 10 ts
      | t # ts' \<Rightarrow>
          if tk_kind t = OP1 \<and> tk_value t \<in> {''-'', ''~'', ''!''} then
            ebind (p 9 ts') (\<lambda>(operand, ts). Inr (UnaryOp (tk_value t) operand (tk_line t), ts))
          else if tk_kind t = OP1 \<and> tk_value t = ''*'' then
            ebind (p 9 ts') (\<lambda>(ptr, ts). Inr (Deref ptr (tk_line t), ts))
          else if tk_kind t = OP1 \<and> tk_value t = ''&'' then
            ebind (p_expect IDENT ts') (\<lambda>(name_tok, ts).
              if p_match LBRACKET ts then
                ebind (p 0 (tl ts)) (\<lambda>(idx, ts).
                  ebind (p_expect RBRACKET ts) (\<lambda>(_, ts).
                    Inr (AddrOf (tk_value name_tok) (Some idx) (tk_line t), ts)))
              else Inr (AddrOf (tk_value name_tok) None (tk_line t), ts))
          else p 10 ts)"

text \<open>A list of expressions up to the token that closes it, with optional commas: the arguments of
  a call and the items of an initialiser.\<close>

fun expr_list :: "nat \<Rightarrow> expr parse \<Rightarrow> lex_kind \<Rightarrow> expr list parse" where
  "expr_list 0 item close ts = Inl Out_Of_Fuel"
| "expr_list (Suc n) item close ts =
     (if p_match close ts then Inr ([], ts)
      else ebind (item ts) (\<lambda>(e, ts).
             ebind (expr_list n item close (skip_comma ts)) (\<lambda>(es, ts). Inr (e # es, ts))))"

definition parse_primary :: "(nat \<Rightarrow> expr parse) \<Rightarrow> expr parse" where
  "parse_primary p ts =
     (case ts of
        [] \<Rightarrow> Inl (CompileError Expression_Expected 0)
      | t # ts' \<Rightarrow>
          if tk_kind t = NUMBER then ebind (token_int t) (\<lambda>v. Inr (IntLiteral v (tk_line t), ts'))
          else if tk_kind t = STRLIT then Inr (StringLit (tk_value t) (tk_line t), ts')
          else if tk_kind t = IDENT then
            (if p_match LPAREN ts' then
               ebind (expr_list (length ts') (p 0) RPAREN (tl ts')) (\<lambda>(args, ts).
                 ebind (p_expect RPAREN ts) (\<lambda>(_, ts). Inr (FuncCall (tk_value t) args (tk_line t), ts)))
             else if p_match LBRACKET ts' then
               ebind (p 0 (tl ts')) (\<lambda>(idx, ts).
                 ebind (p_expect RBRACKET ts) (\<lambda>(_, ts). Inr (ArrayRef (tk_value t) idx (tk_line t), ts)))
             else Inr (VarRef (tk_value t) (tk_line t), ts'))
          else if tk_kind t = LPAREN then
            (case cast_rest ts' of
               Some ts2 \<Rightarrow> p 9 ts2
             | None \<Rightarrow>
                 ebind (p 0 ts') (\<lambda>(e, ts). ebind (p_expect RPAREN ts) (\<lambda>(_, ts). Inr (e, ts))))
          else Inl (CompileError Unexpected_Token (tk_line t)))"

fun parse_level :: "nat \<Rightarrow> nat \<Rightarrow> expr parse" where
  "parse_level 0 k ts = Inl Out_Of_Fuel"
| "parse_level (Suc n) k ts =
     (if k < 9 then parse_binary (parse_level n) k ts
      else if k = 9 then parse_unary (parse_level n) ts
      else parse_primary (parse_level n) ts)"

definition expr_fuel :: "token list \<Rightarrow> nat" where
  "expr_fuel ts = 11 * length ts + 11"

definition parse_expr :: "expr parse" where
  "parse_expr ts = parse_level (expr_fuel ts) 0 ts"

text \<open>The unary expression that \<^verbatim>\<open>_parse_assign_or_expr\<close> reads after a \<^verbatim>\<open>*\<close>.\<close>

definition parse_unary_expr :: "expr parse" where
  "parse_unary_expr ts = parse_level (expr_fuel ts) 9 ts"

section \<open>Statements\<close>

definition parse_brace_init :: "expr list parse" where
  "parse_brace_init ts =
     ebind (p_expect LBRACE ts) (\<lambda>(_, ts).
       ebind (expr_list (length ts + 1) parse_expr RBRACE ts) (\<lambda>(items, ts).
         ebind (p_expect RBRACE ts) (\<lambda>(_, ts). Inr (items, ts))))"

text \<open>An optional \<^verbatim>\<open>=\<close> and what follows it, then the semicolon.\<close>

definition parse_init :: "'a parse \<Rightarrow> 'a option parse" where
  "parse_init p ts =
     ebind (if p_match_value OP1 ''='' ts
            then ebind (p (tl ts)) (\<lambda>(i, ts). Inr (Some i, ts))
            else Inr (None, ts)) (\<lambda>(init, ts).
       ebind (p_expect SEMI ts) (\<lambda>(_, ts). Inr (init, ts)))"

definition parse_vardecl :: "stmt parse" where
  "parse_vardecl ts =
     ebind (peek_line ts) (\<lambda>line.
       ebind (p_expect_value KEYWORD ''int'' ts) (\<lambda>(_, ts).
         let is_ptr = p_match_value OP1 ''*'' ts;
             ts = (if is_ptr then tl ts else ts)
         in ebind (p_expect IDENT ts) (\<lambda>(name, ts).
              if p_match LBRACKET ts then
                ebind (p_expect NUMBER (tl ts)) (\<lambda>(size_tok, ts).
                  ebind (p_expect RBRACKET ts) (\<lambda>(_, ts).
                    ebind (parse_init parse_brace_init ts) (\<lambda>(init, ts).
                      ebind (token_int size_tok) (\<lambda>size.
                        Inr (ArrayDecl (tk_value name) size init line, ts)))))
              else
                ebind (parse_init parse_expr ts) (\<lambda>(init, ts).
                  Inr (VarDecl (tk_value name) init line is_ptr, ts)))))"

definition parse_return :: "stmt parse" where
  "parse_return ts =
     ebind (peek_line ts) (\<lambda>line.
       ebind (p_expect_value KEYWORD ''return'' ts) (\<lambda>(_, ts).
         ebind (if p_match SEMI ts then Inr (None, ts)
                else ebind (parse_expr ts) (\<lambda>(v, ts). Inr (Some v, ts))) (\<lambda>(val, ts).
           ebind (p_expect SEMI ts) (\<lambda>(_, ts). Inr (ReturnStmt val line, ts)))))"

definition end_semi :: "bool \<Rightarrow> token list \<Rightarrow> compile_error + token list" where
  "end_semi expect_semi ts =
     (if expect_semi then ebind (p_expect SEMI ts) (\<lambda>(_, ts). Inr ts) else Inr ts)"

text \<open>\<^verbatim>\<open>val = self._parse_expr()\<close>, the semicolon, and the statement.\<close>

definition assign_value :: "bool \<Rightarrow> (expr \<Rightarrow> stmt) \<Rightarrow> stmt parse" where
  "assign_value expect_semi mk ts =
     ebind (parse_expr ts) (\<lambda>(val, ts). ebind (end_semi expect_semi ts) (\<lambda>ts. Inr (mk val, ts)))"

definition assign_op :: "token list \<Rightarrow> string option" where
  "assign_op ts =
     (case ts of
        [] \<Rightarrow> None
      | t # _ \<Rightarrow> if tk_kind t = ASSIGNOP \<or> tk_kind t = OP1 \<and> tk_value t = ''='' then Some (tk_value t) else None)"

definition parse_expr_stmt :: "bool \<Rightarrow> nat \<Rightarrow> stmt parse" where
  "parse_expr_stmt expect_semi line ts = assign_value expect_semi (\<lambda>e. ExprStmt e line) ts"

definition parse_assign_or_expr :: "bool \<Rightarrow> stmt parse" where
  "parse_assign_or_expr expect_semi ts =
     ebind (peek_line ts) (\<lambda>line.
       if p_match_value OP1 ''*'' ts then
         ebind (parse_unary_expr (tl ts)) (\<lambda>(ptr_expr, ts1).
           case assign_op ts1 of
             Some op \<Rightarrow> assign_value expect_semi (\<lambda>v. DerefAssign ptr_expr op v line) (tl ts1)
           | None \<Rightarrow> parse_expr_stmt expect_semi line ts)
       else if p_match IDENT ts then
         (let name = tk_value (hd ts); ts1 = tl ts
          in if p_match LBRACKET ts1 then
               ebind (parse_expr (tl ts1)) (\<lambda>(idx, ts2).
                 ebind (p_expect RBRACKET ts2) (\<lambda>(_, ts2).
                   case assign_op ts2 of
                     Some op \<Rightarrow> assign_value expect_semi (\<lambda>v. ArrayAssign name idx op v line) (tl ts2)
                   | None \<Rightarrow> parse_expr_stmt expect_semi line ts))
             else
               (case assign_op ts1 of
                  Some op \<Rightarrow> assign_value expect_semi (\<lambda>v. Assign name op v line) (tl ts1)
                | None \<Rightarrow> parse_expr_stmt expect_semi line ts))
       else parse_expr_stmt expect_semi line ts)"

text \<open>Statements that hold statements; \<open>p\<close> parses a statement with one unit of fuel less.\<close>

fun stmts_loop :: "nat \<Rightarrow> stmt parse \<Rightarrow> stmt list parse" where
  "stmts_loop 0 p ts = Inl Out_Of_Fuel"
| "stmts_loop (Suc n) p ts =
     (if p_match RBRACE ts then Inr ([], ts)
      else ebind (p ts) (\<lambda>(s, ts). ebind (stmts_loop n p ts) (\<lambda>(ss, ts). Inr (s # ss, ts))))"

definition parse_block :: "stmt parse \<Rightarrow> (stmt list \<times> nat) parse" where
  "parse_block p ts =
     ebind (p_expect LBRACE ts) (\<lambda>(t, ts).
       ebind (stmts_loop (length ts + 1) p ts) (\<lambda>(stmts, ts).
         ebind (p_expect RBRACE ts) (\<lambda>(_, ts). Inr ((stmts, tk_line t), ts))))"

text \<open>\<^verbatim>\<open>( cond )\<close>\<close>

definition parse_cond :: "expr parse" where
  "parse_cond ts =
     ebind (p_expect LPAREN ts) (\<lambda>(_, ts).
       ebind (parse_expr ts) (\<lambda>(cond, ts).
         ebind (p_expect RPAREN ts) (\<lambda>(_, ts). Inr (cond, ts))))"

text \<open>\<open>p_if\<close> is \<^verbatim>\<open>_parse_if\<close> for the chain of \<^verbatim>\<open>else if\<close>.\<close>

definition parse_if :: "stmt parse \<Rightarrow> stmt parse \<Rightarrow> stmt parse" where
  "parse_if p p_if ts =
     ebind (peek_line ts) (\<lambda>line.
       ebind (p_expect_value KEYWORD ''if'' ts) (\<lambda>(_, ts).
         ebind (parse_cond ts) (\<lambda>(cond, ts).
           ebind (parse_block p ts) (\<lambda>((then_b, _), ts).
             if p_match_value KEYWORD ''else'' ts then
               (if p_match_value KEYWORD ''if'' (tl ts) then
                  ebind (p_if (tl ts)) (\<lambda>(s, ts). Inr (IfStmt cond then_b [s] line, ts))
                else
                  ebind (parse_block p (tl ts)) (\<lambda>((else_b, _), ts). Inr (IfStmt cond then_b else_b line, ts)))
             else Inr (IfStmt cond then_b [] line, ts)))))"

definition parse_while :: "stmt parse \<Rightarrow> stmt parse" where
  "parse_while p ts =
     ebind (peek_line ts) (\<lambda>line.
       ebind (p_expect_value KEYWORD ''while'' ts) (\<lambda>(_, ts).
         ebind (parse_cond ts) (\<lambda>(cond, ts).
           ebind (parse_block p ts) (\<lambda>((body, _), ts). Inr (WhileStmt cond body line, ts)))))"

definition parse_for :: "stmt parse \<Rightarrow> stmt parse" where
  "parse_for p ts =
     ebind (peek_line ts) (\<lambda>line.
       ebind (p_expect_value KEYWORD ''for'' ts) (\<lambda>(_, ts).
         ebind (p_expect LPAREN ts) (\<lambda>(_, ts).
           ebind (if \<not> p_match SEMI ts then
                    (if p_match_value KEYWORD ''int'' ts
                     then ebind (parse_vardecl ts) (\<lambda>(s, ts). Inr (Some s, ts))
                     else ebind (parse_assign_or_expr True ts) (\<lambda>(s, ts). Inr (Some s, ts)))
                  else ebind (p_expect SEMI ts) (\<lambda>(_, ts). Inr (None, ts))) (\<lambda>(init, ts).
             ebind (if \<not> p_match SEMI ts then ebind (parse_expr ts) (\<lambda>(c, ts). Inr (Some c, ts))
                    else Inr (None, ts)) (\<lambda>(cond, ts).
               ebind (p_expect SEMI ts) (\<lambda>(_, ts).
                 ebind (if \<not> p_match RPAREN ts
                        then ebind (parse_assign_or_expr False ts) (\<lambda>(s, ts). Inr (Some s, ts))
                        else Inr (None, ts)) (\<lambda>(update, ts).
                   ebind (p_expect RPAREN ts) (\<lambda>(_, ts).
                     ebind (parse_block p ts) (\<lambda>((body, _), ts).
                       Inr (ForStmt init cond update body line, ts))))))))))"

text \<open>\<^verbatim>\<open>break ;\<close> and \<^verbatim>\<open>continue ;\<close>\<close>

definition parse_jump :: "(nat \<Rightarrow> stmt) \<Rightarrow> stmt parse" where
  "parse_jump mk ts =
     ebind (peek_line ts) (\<lambda>line. ebind (p_expect SEMI (tl ts)) (\<lambda>(_, ts). Inr (mk line, ts)))"

definition parse_stmt_with :: "stmt parse \<Rightarrow> stmt parse \<Rightarrow> stmt parse" where
  "parse_stmt_with p p_if ts =
     (if ts = [] then Inl (CompileError Statement_Expected 0)
      else if p_match_value KEYWORD ''int'' ts then parse_vardecl ts
      else if p_match_value KEYWORD ''if'' ts then parse_if p p_if ts
      else if p_match_value KEYWORD ''while'' ts then parse_while p ts
      else if p_match_value KEYWORD ''for'' ts then parse_for p ts
      else if p_match_value KEYWORD ''break'' ts then parse_jump BreakStmt ts
      else if p_match_value KEYWORD ''continue'' ts then parse_jump ContinueStmt ts
      else if p_match_value KEYWORD ''return'' ts then parse_return ts
      else if p_match LBRACE ts then
        ebind (parse_block p ts) (\<lambda>((stmts, line), ts). Inr (Block stmts line, ts))
      else parse_assign_or_expr True ts)"

text \<open>The flag of \<open>parse_stmts\<close> says that \<^verbatim>\<open>_parse_if\<close> is called directly.\<close>

fun parse_stmts :: "nat \<Rightarrow> bool \<Rightarrow> stmt parse" where
  "parse_stmts 0 only_if ts = Inl Out_Of_Fuel"
| "parse_stmts (Suc n) only_if ts =
     (if only_if then parse_if (parse_stmts n False) (parse_stmts n True) ts
      else parse_stmt_with (parse_stmts n False) (parse_stmts n True) ts)"

definition parse_stmt :: "stmt parse" where
  "parse_stmt ts = parse_stmts (length ts + 1) False ts"

section \<open>Functions and the program\<close>

text \<open>The loop over the parameters.\<close>

fun params_loop :: "nat \<Rightarrow> (string \<times> bool) list parse" where
  "params_loop 0 ts = Inl Out_Of_Fuel"
| "params_loop (Suc n) ts =
     (if p_match RPAREN ts then Inr ([], ts)
      else
        (let ts = (if p_match KEYWORD ts then tl ts else ts);
             (is_p, ts) = skip_stars ts
         in if p_match RPAREN ts then Inr ([], ts)
            else ebind (p_expect IDENT ts) (\<lambda>(name, ts).
                   ebind (params_loop n (skip_comma ts)) (\<lambda>(ps, ts). Inr ((tk_value name, is_p) # ps, ts)))))"

definition parse_params :: "(string \<times> bool) list parse" where
  "parse_params ts =
     (if p_match_value KEYWORD ''void'' ts \<and> p_match RPAREN (tl ts) then Inr ([], tl ts)
      else params_loop (length ts + 1) ts)"

text \<open>None stands for a forward declaration, which has no body.\<close>

definition parse_func :: "func_def option parse" where
  "parse_func ts =
     ebind (p_expect IDENT (tl ts)) (\<lambda>(name_tok, ts).
       ebind (p_expect LPAREN ts) (\<lambda>(_, ts).
         ebind (parse_params ts) (\<lambda>(ps, ts).
           ebind (p_expect RPAREN ts) (\<lambda>(_, ts).
             if p_match SEMI ts then Inr (None, tl ts)
             else ebind (parse_block parse_stmt ts) (\<lambda>((body, _), ts).
                    Inr (Some (FuncDef (tk_value name_tok) (map fst ps) (map snd ps) body (tk_line name_tok)), ts))))))"

text \<open>One turn of the loop of \<^verbatim>\<open>parse_program\<close>: a global declaration or a function.\<close>

definition parse_global :: "(global_decl option \<times> func_def option) parse" where
  "parse_global ts =
     (if p_match_value KEYWORD ''int'' ts \<or> p_match_value KEYWORD ''void'' ts then
        (let is_ptr = p_match_value OP1 ''*'' (tl ts);
             ts1 = (if is_ptr then tl (tl ts) else tl ts)
         in ebind (p_expect IDENT ts1) (\<lambda>(name_tok, ts2).
              if p_match LPAREN ts2 then ebind (parse_func ts) (\<lambda>(f, ts). Inr ((None, f), ts))
              else if p_match LBRACKET ts2 then
                ebind (p_expect NUMBER (tl ts2)) (\<lambda>(size_tok, ts3).
                  ebind (p_expect RBRACKET ts3) (\<lambda>(_, ts3).
                    ebind (parse_init parse_brace_init ts3) (\<lambda>(init, ts3).
                      ebind (token_int size_tok) (\<lambda>size.
                        Inr ((Some (GlobalArrayDecl (tk_value name_tok) size init (tk_line name_tok)), None), ts3)))))
              else
                ebind (parse_init parse_expr ts2) (\<lambda>(init, ts3).
                  Inr ((Some (GlobalVarDecl (tk_value name_tok) init (tk_line name_tok) is_ptr), None), ts3))))
      else ebind (parse_func ts) (\<lambda>(f, ts). Inr ((None, f), ts)))"

fun program_loop :: "nat \<Rightarrow> token list \<Rightarrow> compile_error + global_decl list \<times> func_def list" where
  "program_loop 0 ts = Inl Out_Of_Fuel"
| "program_loop (Suc n) ts =
     (if ts = [] then Inr ([], [])
      else ebind (parse_global ts) (\<lambda>((g, f), ts).
             ebind (program_loop n ts) (\<lambda>(gs, fs).
               Inr ((case g of Some g \<Rightarrow> g # gs | None \<Rightarrow> gs), (case f of Some f \<Rightarrow> f # fs | None \<Rightarrow> fs)))))"

definition parse_program :: "token list \<Rightarrow> compile_error + program" where
  "parse_program ts =
     ebind (program_loop (length ts + 1) ts) (\<lambda>(globs, funcs). Inr (Program globs funcs))"

end
