(* ===== verification/Parser_Total.thy ===== *)
theory Parser_Total
  imports C_Parser
begin

text \<open>
  Termination of the parser: every method either raises one of the errors of the source or returns
  having consumed a token, and the fuel \<open>parse_expr\<close>, \<open>parse_stmt\<close> and \<open>parse_program\<close> start with
  is enough, so that none of them ends with \<open>Out_Of_Fuel\<close>.  The facts about each method are
  collected under \<open>parse_good\<close>.
\<close>

section \<open>What a parser promises\<close>

named_theorems parse_good

text \<open>Every method returns with fewer than \<open>n\<close> tokens to come or raises an error of the source.\<close>

definition ends_below :: "nat \<Rightarrow> compile_error + 'a \<times> token list \<Rightarrow> bool" where
  "ends_below n res \<longleftrightarrow> (case res of Inl e \<Rightarrow> e \<noteq> Out_Of_Fuel | Inr (x, r) \<Rightarrow> length r < n)"

lemma ends_Inr [simp]: "ends_below n (Inr (x, r)) \<longleftrightarrow> length r < n"
  and ends_Inl [simp]: "ends_below n (Inl e) \<longleftrightarrow> e \<noteq> Out_Of_Fuel"
  by (simp_all add: ends_below_def)

lemma ends_bind:
  assumes "ends_below m res" "\<And>x r. res = Inr (x, r) \<Longrightarrow> length r < m \<Longrightarrow> ends_below n (f (x, r))"
  shows "ends_below n (ebind res f)"
  using assms by (cases res) (auto simp: ends_below_def)

lemma ends_bind_value:
  assumes "res \<noteq> Inl Out_Of_Fuel" "\<And>v. res = Inr v \<Longrightarrow> ends_below n (f v)"
  shows "ends_below n (ebind res f)"
  using assms by (cases res) auto

lemma ebind_assoc: "ebind (ebind x f) g = ebind x (\<lambda>v. ebind (f v) g)"
  by (cases x) simp_all

lemma ends_mono: "ends_below m res \<Longrightarrow> m \<le> n \<Longrightarrow> ends_below n res"
  by (auto simp: ends_below_def split: sum.splits)

section \<open>Tokens\<close>

lemma p_expect_good [parse_good]: "ends_below (length ts) (p_expect k ts)"
  by (auto simp: p_expect_def split: list.split)

lemma p_expect_value_good [parse_good]: "ends_below (length ts) (p_expect_value k v ts)"
  by (auto simp: p_expect_value_def split: list.split)

lemma peek_line_total [parse_good]: "peek_line ts \<noteq> Inl Out_Of_Fuel"
  by (simp add: peek_line_def split: list.split)

lemma token_int_total [parse_good]: "token_int t \<noteq> Inl Out_Of_Fuel"
  by (simp add: token_int_def split: option.split)

lemma p_match_tl: "p_match k ts \<Longrightarrow> length (tl ts) < length ts"
  by (cases ts) (auto simp: p_match_def)

lemma p_match_value_tl: "p_match_value k v ts \<Longrightarrow> length (tl ts) < length ts"
  by (cases ts) (auto simp: p_match_value_def)

lemma skip_comma_length: "length (skip_comma ts) \<le> length ts"
  by (simp add: skip_comma_def)

lemma skip_stars_length: "length (snd (skip_stars ts)) \<le> length ts"
  by (induction ts) auto

lemma cast_rest_length: "cast_rest ts = Some ts2 \<Longrightarrow> length ts2 < length ts"
proof -
  assume "cast_rest ts = Some ts2"
  then obtain t ts' where "ts = t # ts'" "ts2 = tl (snd (skip_stars ts'))" "p_match RPAREN (snd (skip_stars ts'))"
    by (auto simp: cast_rest_def Let_def split: list.splits if_splits)
  then show ?thesis
    using skip_stars_length [of ts'] by (auto dest: p_match_tl)
qed

section \<open>Expressions\<close>

lemma ops_loop_good:
  assumes "\<And>ts'. length ts' < length ts \<Longrightarrow> ends_below (length ts') (operand ts')" "length ts < n"
  shows "ends_below (Suc (length ts)) (ops_loop n operand k left ts)"
  using assms
proof (induction n arbitrary: left ts)
  case (Suc n)
  show ?case
  proof (cases ts)
    case (Cons t ts')
    have "ends_below (Suc (length ts))
        (ebind (operand ts') (\<lambda>(right, r). ops_loop n operand k (BinOp (tk_value t) left right (expr_line left)) r))"
    proof (rule ends_bind, rule Suc.prems(1))
      fix x and r :: "token list"
      assume r: "length r < length ts'"
      have "ends_below (Suc (length r)) (ops_loop n operand k (BinOp (tk_value t) left x (expr_line left)) r)"
        using r Cons Suc.prems by (intro Suc.IH) auto
      then show "ends_below (Suc (length ts))
          (case (x, r) of (right, r) \<Rightarrow> ops_loop n operand k (BinOp (tk_value t) left right (expr_line left)) r)"
        using r Cons by (auto elim: ends_mono)
    qed (simp add: Cons)
    then show ?thesis by (simp add: Cons)
  qed simp
qed simp

lemma expr_list_good:
  assumes "\<And>ts'. length ts' \<le> length ts \<Longrightarrow> ends_below (length ts') (item ts')" "length ts < n"
  shows "ends_below (Suc (length ts)) (expr_list n item close ts)"
  using assms
proof (induction n arbitrary: ts)
  case (Suc n)
  have "ends_below (Suc (length ts))
      (ebind (expr_list n item close (skip_comma r)) (\<lambda>(es, ts). Inr (x # es, ts)))"
    if "length r < length ts" for x r
    using that Suc.prems skip_comma_length [of r]
    by (intro ends_bind [OF Suc.IH]) (auto simp: less_Suc_eq_le)
  then have "ends_below (Suc (length ts)) (ebind (item ts) (\<lambda>(e, ts).
      ebind (expr_list n item close (skip_comma ts)) (\<lambda>(es, ts). Inr (e # es, ts))))"
    by (intro ends_bind [OF Suc.prems(1)]) simp_all
  then show ?case by simp
qed simp

definition shorter_ok :: "(nat \<Rightarrow> expr parse) \<Rightarrow> token list \<Rightarrow> bool" where
  "shorter_ok p ts \<longleftrightarrow> (\<forall>k \<le> 10. \<forall>ts'. length ts' < length ts \<longrightarrow> ends_below (length ts') (p k ts'))"

lemma shorterD: "shorter_ok p ts \<Longrightarrow> length ts' < length ts \<Longrightarrow> k \<le> 10 \<Longrightarrow> ends_below (length ts') (p k ts')"
  by (simp add: shorter_ok_def)

lemma binary_good:
  assumes "shorter_ok p ts" "k < 9" "ends_below (length ts) (p (k + 1) ts)"
  shows "ends_below (length ts) (parse_binary p k ts)"
  unfolding parse_binary_def
proof (rule ends_bind [OF assms(3)])
  fix x and r :: "token list"
  assume r: "length r < length ts"
  have "ends_below (Suc (length r)) (ops_loop (length r + 1) (p (k + 1)) k x r)"
    using r assms(2) by (intro ops_loop_good shorterD [OF assms(1)]) auto
  then show "ends_below (length ts) (case (x, r) of (left, ts) \<Rightarrow> ops_loop (length ts + 1) (p (k + 1)) k left ts)"
    using r by (auto elim: ends_mono)
qed

text \<open>A bracketed expression, and a bracketed list, followed by the closing token.\<close>

lemma bracketed_good:
  fixes mk :: "expr \<Rightarrow> expr"
  assumes "shorter_ok p ts" "length ts' < length ts"
  shows "ends_below (length ts) (ebind (p 0 ts') (\<lambda>(e, ts). ebind (p_expect k ts) (\<lambda>(_, ts). Inr (mk e, ts))))"
  using assms(2) by (intro ends_bind [OF shorterD [OF assms]]) (auto intro!: ends_bind [OF p_expect_good])

lemma listed_good:
  fixes mk :: "expr list \<Rightarrow> expr"
  assumes "shorter_ok p ts" "length ts' < length ts"
  shows "ends_below (length ts) (ebind (expr_list (Suc (length ts')) (p 0) close ts')
    (\<lambda>(args, ts). ebind (p_expect k ts) (\<lambda>(_, ts). Inr (mk args, ts))))"
proof (rule ends_bind)
  show "ends_below (Suc (length ts')) (expr_list (Suc (length ts')) (p 0) close ts')"
    using assms(2) by (intro expr_list_good shorterD [OF assms(1)]) auto
qed (use assms(2) in \<open>auto intro!: ends_bind [OF p_expect_good]\<close>)

lemma unary_good:
  assumes s: "shorter_ok p ts" and "ends_below (length ts) (p 10 ts)"
  shows "ends_below (length ts) (parse_unary p ts)"
proof (cases ts)
  case (Cons t ts')
  have un: "ends_below (length ts) (ebind (p 9 ts') (\<lambda>(e, ts). Inr (mk e, ts)))" for mk :: "expr \<Rightarrow> expr"
    using Cons by (intro ends_bind [OF shorterD [OF s]]) auto
  have br: "ends_below (length ts) (ebind (p 0 (tl r)) (\<lambda>(idx, ts).
      ebind (p_expect RBRACKET ts) (\<lambda>(_, ts). Inr (AddrOf nm (Some idx) (tk_line t), ts))))"
    if "length r < length ts'" for r nm
    using bracketed_good [OF s, of "tl r" RBRACKET "\<lambda>e. AddrOf nm (Some e) (tk_line t)"] that Cons by simp
  have am: "ends_below (length ts) (ebind (p_expect IDENT ts') (\<lambda>(name_tok, ts).
              if p_match LBRACKET ts then
                ebind (p 0 (tl ts)) (\<lambda>(idx, ts).
                  ebind (p_expect RBRACKET ts) (\<lambda>(_, ts).
                    Inr (AddrOf (tk_value name_tok) (Some idx) (tk_line t), ts)))
              else Inr (AddrOf (tk_value name_tok) None (tk_line t), ts)))"
    using Cons br by (intro ends_bind [OF p_expect_good]) auto
  show ?thesis
    using Cons assms un am by (simp add: parse_unary_def)
qed (use assms in \<open>simp add: parse_unary_def\<close>)

lemma primary_good:
  assumes s: "shorter_ok p ts"
  shows "ends_below (length ts) (parse_primary p ts)"
proof (cases ts)
  case (Cons t ts')
  have lit: "ends_below (length ts) (ebind (token_int t) (\<lambda>v. Inr (IntLiteral v (tk_line t), ts')))"
    using Cons by (auto intro!: ends_bind_value token_int_total)
  have cast: "ends_below (length ts) (p 9 ts2)" if "cast_rest ts' = Some ts2" for ts2
    using cast_rest_length [OF that] Cons by (intro ends_mono [OF shorterD [OF s]]) auto
  have call: "ends_below (length ts) (ebind (expr_list (length ts') (p 0) RPAREN (tl ts'))
      (\<lambda>(args, ts). ebind (p_expect RPAREN ts) (\<lambda>(_, ts). Inr (FuncCall (tk_value t) args (tk_line t), ts))))"
    if "p_match LPAREN ts'"
    using listed_good [OF s, of "tl ts'"] p_match_tl [OF that] Cons by (cases ts') auto
  show ?thesis
    using Cons lit cast call bracketed_good [OF s, of ts'] bracketed_good [OF s, of "tl ts'"]
    by (auto simp: parse_primary_def split: option.split)
qed (simp add: parse_primary_def)

lemma parse_level_good:
  "11 * length ts + (11 - k) \<le> n \<Longrightarrow> k \<le> 10 \<Longrightarrow> ends_below (length ts) (parse_level n k ts)"
proof (induction n arbitrary: k ts)
  case (Suc n)
  have s: "shorter_ok (parse_level n) ts"
    unfolding shorter_ok_def using Suc.prems by (auto intro!: Suc.IH)
  have nxt: "ends_below (length ts) (parse_level n j ts)" if "k < j" "j \<le> 10" for j
    using Suc.prems that by (intro Suc.IH) auto
  show ?case
    using binary_good [OF s, of k] unary_good [OF s] primary_good [OF s] nxt Suc.prems by simp
qed auto

lemma parse_expr_good [parse_good]: "ends_below (length ts) (parse_expr ts)"
  unfolding parse_expr_def expr_fuel_def by (rule parse_level_good) auto

lemma parse_unary_expr_good [parse_good]: "ends_below (length ts) (parse_unary_expr ts)"
  unfolding parse_unary_expr_def expr_fuel_def by (rule parse_level_good) auto

section \<open>Statements\<close>

lemmas expect_bind = ends_bind [OF p_expect_good]
lemmas expect_value_bind = ends_bind [OF p_expect_value_good]
lemmas expr_bind = ends_bind [OF parse_expr_good]
lemmas peek_bind = ends_bind_value [OF peek_line_total]
lemmas tok_bind = ends_bind_value [OF token_int_total]

lemma tl_less [simp]: "length r < n \<Longrightarrow> length (tl r) < n"
  by simp

lemma parse_brace_init_good [parse_good]: "ends_below (length ts) (parse_brace_init ts)"
  unfolding parse_brace_init_def
proof (rule expect_bind)
  fix x and r :: "token list"
  assume "length r < length ts"
  moreover have "ends_below (Suc (length r)) (expr_list (length r + 1) parse_expr RBRACE r)"
    by (intro expr_list_good parse_expr_good) auto
  ultimately show "ends_below (length ts) (case (x, r) of (_, ts) \<Rightarrow>
      ebind (expr_list (length ts + 1) parse_expr RBRACE ts) (\<lambda>(items, ts).
        ebind (p_expect RBRACE ts) (\<lambda>(_, ts). Inr (items, ts))))"
    by (auto simp del: expr_list.simps intro!: ends_bind expect_bind)
qed

lemma parse_init_good:
  assumes "\<And>ts. ends_below (length ts) (p ts)"
  shows "ends_below (length ts) (parse_init p ts)"
proof -
  have "ends_below (Suc (length ts)) (if p_match_value OP1 ''='' ts
      then ebind (p (tl ts)) (\<lambda>(i, ts). Inr (Some i, ts)) else Inr (None, ts))"
    by (auto intro!: ends_bind [OF assms])
  then show ?thesis
    unfolding parse_init_def by (rule ends_bind) (auto intro!: expect_bind)
qed

lemmas init_expr_bind = ends_bind [OF parse_init_good, OF parse_expr_good]
lemmas init_brace_bind = ends_bind [OF parse_init_good, OF parse_brace_init_good]

lemma parse_vardecl_good [parse_good]: "ends_below (length ts) (parse_vardecl ts)"
  unfolding parse_vardecl_def Let_def
  by (auto intro!: peek_bind expect_value_bind expect_bind init_expr_bind init_brace_bind tok_bind split: if_splits)

lemma parse_return_good [parse_good]: "ends_below (length ts) (parse_return ts)"
  unfolding parse_return_def
  by (auto simp: ebind_assoc intro!: peek_bind expect_value_bind expect_bind expr_bind)

lemma assign_value_good: "ends_below (length ts) (assign_value semi mk ts)"
  unfolding assign_value_def
proof (rule expr_bind)
  fix x and r :: "token list"
  assume r: "length r < length ts"
  show "ends_below (length ts) (case (x, r) of (val, ts) \<Rightarrow> ebind (end_semi semi ts) (\<lambda>ts. Inr (mk val, ts)))"
  proof (cases semi)
    case True
    then show ?thesis
      using r p_expect_good [of r SEMI] by (cases "p_expect SEMI r") (auto simp: end_semi_def)
  qed (use r in \<open>simp add: end_semi_def\<close>)
qed

lemma assign_op_ne: "assign_op ts = Some op \<Longrightarrow> length (tl ts) < length ts"
  by (cases ts) (auto simp: assign_op_def)

lemma parse_assign_or_expr_good [parse_good]: "ends_below (length ts) (parse_assign_or_expr semi ts)"
proof -
  have v: "ends_below n (assign_value semi mk r)" if "length r \<le> n" for n mk r
    using that by (rule ends_mono [OF assign_value_good])
  have u: "ends_below (length ts) (ebind (parse_unary_expr (tl ts)) f)"
    if "\<And>x r. length r < length ts \<Longrightarrow> ends_below (length ts) (f (x, r))" for f :: "expr \<times> token list \<Rightarrow> compile_error + stmt \<times> token list"
    using that by (auto intro!: ends_bind [OF parse_unary_expr_good])
  show ?thesis
    unfolding parse_assign_or_expr_def parse_expr_stmt_def Let_def
    by (auto intro!: peek_bind u expr_bind expect_bind v split: option.split) arith+
qed

text \<open>\<open>p\<close> parses a statement wherever fewer tokens are left.\<close>

definition below_ok :: "'a parse \<Rightarrow> token list \<Rightarrow> bool" where
  "below_ok p ts \<longleftrightarrow> (\<forall>ts'. length ts' < length ts \<longrightarrow> ends_below (length ts') (p ts'))"

lemma belowD: "below_ok p ts \<Longrightarrow> length ts' < length ts \<Longrightarrow> ends_below (length ts') (p ts')"
  by (simp add: below_ok_def)

lemma stmts_loop_good:
  "below_ok p ts \<Longrightarrow> length ts' < length ts \<Longrightarrow> length ts' < n \<Longrightarrow>
     ends_below (Suc (length ts')) (stmts_loop n p ts')"
proof (induction n arbitrary: ts')
  case (Suc n)
  have "ends_below (Suc (length ts')) (ebind (stmts_loop n p r) (\<lambda>(ss, ts). Inr (x # ss, ts)))"
    if "length r < length ts'" for x r
    using that Suc.prems by (intro ends_bind [OF Suc.IH]) auto
  then have "ends_below (Suc (length ts')) (ebind (p ts') (\<lambda>(s, ts).
      ebind (stmts_loop n p ts) (\<lambda>(ss, ts). Inr (s # ss, ts))))"
    using Suc.prems by (intro ends_bind [OF belowD [OF Suc.prems(1)]]) auto
  then show ?case by simp
qed simp

lemma parse_block_good:
  assumes b: "below_ok p ts" and "length ts' \<le> length ts"
  shows "ends_below (length ts') (parse_block p ts')"
  unfolding parse_block_def
proof (rule expect_bind)
  fix x and r :: "token list"
  assume r: "length r < length ts'"
  then have "ends_below (Suc (length r)) (stmts_loop (length r + 1) p r)"
    using assms by (intro stmts_loop_good [OF b]) auto
  then show "ends_below (length ts') (case (x, r) of (t, ts) \<Rightarrow> ebind (stmts_loop (length ts + 1) p ts) (\<lambda>(stmts, ts).
         ebind (p_expect RBRACE ts) (\<lambda>(_, ts). Inr ((stmts, tk_line t), ts))))"
    using r by (auto simp del: stmts_loop.simps intro!: ends_bind expect_bind)
qed

lemma parse_cond_good: "ends_below (length ts) (parse_cond ts)"
  unfolding parse_cond_def by (auto intro!: expect_bind expr_bind)

lemmas cond_bind = ends_bind [OF parse_cond_good]
lemmas block_bind = ends_bind [OF parse_block_good]

lemma parse_if_good:
  assumes "below_ok p ts" "below_ok p_if ts"
  shows "ends_below (length ts) (parse_if p p_if ts)"
  unfolding parse_if_def
  by (auto intro!: peek_bind expect_value_bind cond_bind block_bind [OF assms(1)]
      ends_bind [OF belowD [OF assms(2)]])

lemma parse_while_good:
  assumes "below_ok p ts"
  shows "ends_below (length ts) (parse_while p ts)"
  unfolding parse_while_def
  by (auto intro!: peek_bind expect_value_bind cond_bind block_bind [OF assms])

lemma parse_for_good:
  assumes "below_ok p ts"
  shows "ends_below (length ts) (parse_for p ts)"
  unfolding parse_for_def
  by (auto simp: ebind_assoc intro!: peek_bind expect_value_bind expect_bind expr_bind
      ends_bind [OF parse_vardecl_good] ends_bind [OF parse_assign_or_expr_good] block_bind [OF assms])

lemma parse_jump_good: "ends_below (length ts) (parse_jump mk ts)"
  unfolding parse_jump_def by (cases ts) (auto intro!: peek_bind expect_bind simp: peek_line_def)

lemma parse_stmt_with_good:
  assumes "below_ok p ts" "below_ok p_if ts"
  shows "ends_below (length ts) (parse_stmt_with p p_if ts)"
proof -
  have "ends_below (length ts) (ebind (parse_block p ts) (\<lambda>((stmts, line), ts). Inr (Block stmts line, ts)))"
    by (auto intro!: block_bind [OF assms(1)])
  then show ?thesis
    using assms parse_if_good [OF assms] parse_while_good [OF assms(1)] parse_for_good [OF assms(1)]
    by (simp add: parse_stmt_with_def parse_good parse_jump_good)
qed

lemma parse_stmts_good: "length ts < n \<Longrightarrow> ends_below (length ts) (parse_stmts n only_if ts)"
proof (induction n arbitrary: only_if ts)
  case (Suc n)
  have "below_ok (parse_stmts n b) ts" for b
    unfolding below_ok_def using Suc by auto
  then show ?case by (simp add: parse_if_good parse_stmt_with_good)
qed simp

lemma parse_stmt_good [parse_good]: "ends_below (length ts) (parse_stmt ts)"
  unfolding parse_stmt_def by (rule parse_stmts_good) simp

section \<open>Functions and the program\<close>

lemma params_loop_good: "length ts < n \<Longrightarrow> ends_below (Suc (length ts)) (params_loop n ts)"
proof (induction n arbitrary: ts)
  case (Suc n)
  define ts1 where "ts1 = (if p_match KEYWORD ts then tl ts else ts)"
  obtain b ts2 where s: "skip_stars ts1 = (b, ts2)" by (cases "skip_stars ts1")
  have l: "length ts2 \<le> length ts"
    using skip_stars_length [of ts1, unfolded s] by (auto simp: ts1_def split: if_splits)
  have "ends_below (Suc (length ts)) (ebind (params_loop n (skip_comma r)) (\<lambda>(ps, ts). Inr ((tk_value x, b) # ps, ts)))"
    if "length r < length ts2" for x r
    using that l Suc.prems skip_comma_length [of r] by (intro ends_bind [OF Suc.IH]) auto
  then have "ends_below (Suc (length ts)) (ebind (p_expect IDENT ts2) (\<lambda>(name, ts).
      ebind (params_loop n (skip_comma ts)) (\<lambda>(ps, ts). Inr ((tk_value name, b) # ps, ts))))"
    by (intro expect_bind) auto
  then show ?case
    using l by (simp add: s flip: ts1_def)
qed simp

lemma parse_params_good: "ends_below (Suc (length ts)) (parse_params ts)"
  unfolding parse_params_def by (auto simp del: params_loop.simps intro!: params_loop_good)

lemma parse_func_good:
  assumes "ts \<noteq> []"
  shows "ends_below (length ts) (parse_func ts)"
proof -
  have b: "below_ok parse_stmt r" for r
    by (simp add: below_ok_def parse_stmt_good)
  show ?thesis
    using assms unfolding parse_func_def
    by (auto intro!: expect_bind ends_bind [OF parse_params_good] block_bind [OF b order_refl])
qed

lemma parse_global_good:
  assumes "ts \<noteq> []"
  shows "ends_below (length ts) (parse_global ts)"
  using assms unfolding parse_global_def Let_def
  by (auto intro!: expect_bind ends_bind [OF parse_func_good] init_expr_bind init_brace_bind tok_bind)

lemma program_loop_total: "length ts < n \<Longrightarrow> program_loop n ts \<noteq> Inl Out_Of_Fuel"
proof (induction n arbitrary: ts)
  case (Suc n)
  show ?case
  proof (cases "parse_global ts")
    case (Inr res)
    obtain g f r where "res = ((g, f), r)" by (metis prod.exhaust)
    with Inr Suc show ?thesis
      using parse_global_good [of ts] by (cases "program_loop n r") (auto split: prod.splits)
  next
    case (Inl e)
    with Suc.prems show ?thesis
      using parse_global_good [of ts] by auto
  qed
qed simp

lemma parse_program_total: "parse_program ts \<noteq> Inl Out_Of_Fuel"
  using program_loop_total [of ts "length ts + 1"]
  by (auto simp: parse_program_def ebind_def split: sum.splits)

text \<open>Every declaration and every function of the program has used a token.\<close>

lemma program_loop_size:
  "program_loop n ts = Inr (gs, fs) \<Longrightarrow> length gs + length fs \<le> length ts"
proof (induction n arbitrary: ts gs fs)
  case (Suc n)
  show ?case
  proof (cases "ts = []")
    case False
    with Suc.prems obtain g f r gs' fs' where a: "parse_global ts = Inr ((g, f), r)"
      "program_loop n r = Inr (gs', fs')" "gs = (case g of Some g \<Rightarrow> g # gs' | None \<Rightarrow> gs')"
      "fs = (case f of Some f \<Rightarrow> f # fs' | None \<Rightarrow> fs')"
      by (auto simp: ebind_Inr_iff)
    have "length r < length ts" "g = None \<or> f = None"
      using parse_global_good [OF False] a(1)
      by (auto simp: parse_global_def Let_def ebind_Inr_iff split: if_splits)
    then show ?thesis
      using Suc.IH [OF a(2)] a(3,4) by (auto split: option.splits)
  qed (use Suc.prems in simp)
qed simp

lemma parse_program_size:
  "parse_program ts = Inr prog \<Longrightarrow> length (pr_globals prog) + length (pr_functions prog) \<le> length ts"
  using program_loop_size [of "length ts + 1" ts] by (auto simp: parse_program_def ebind_Inr_iff simp del: program_loop.simps)

text \<open>The parser asks the token at the end of the input for its line: AttributeError.\<close>

lemma unclosed_for: "parse_program (lex_c ''int main(){ for('') = Inl No_Line_Of_None"
  by code_simp

end
