(* ===== verification/Parser_Roundtrip.thy ===== *)
theory Parser_Roundtrip
  imports Parser_Total
begin

text \<open>
  The expression parser against the grammar: every expression, printed with the parentheses its
  precedences and left associativity require and no others, is parsed back to itself, lines
  included.  The printer is the specification; it is not part of the program.
\<close>

section \<open>The grammar as a printer\<close>

definition op_level :: "string \<Rightarrow> nat option" where
  "op_level op =
     (if op = ''||'' then Some 0 else if op = ''&&'' then Some 1 else if op = ''|'' then Some 2
      else if op = ''^'' then Some 3 else if op = ''&'' then Some 4
      else if op \<in> {''=='', ''!='', ''<'', ''>'', ''<='', ''>=''} then Some 5
      else if op \<in> {''<<'', ''>>''} then Some 6
      else if op \<in> {''+'', ''-''} then Some 7
      else if op \<in> {''*'', ''/'', ''%''} then Some 8 else None)"

definition op_kind :: "string \<Rightarrow> lex_kind" where
  "op_kind op = (if length op = 2 then OP2 else OP1)"

fun level_of :: "expr \<Rightarrow> nat" where
  "level_of (BinOp op _ _ _) = the (op_level op)"
| "level_of (UnaryOp _ _ _) = 9"
| "level_of (Deref _ _) = 9"
| "level_of (AddrOf _ _ _) = 9"
| "level_of _ = 10"

definition wrap :: "nat \<Rightarrow> expr \<Rightarrow> token list \<Rightarrow> token list" where
  "wrap k e ts =
     (if level_of e < k then Token LPAREN ''('' (expr_line e) # ts @ [Token RPAREN '')'' (expr_line e)] else ts)"

fun commas :: "nat \<Rightarrow> token list list \<Rightarrow> token list" where
  "commas l [] = []"
| "commas l [ts] = ts"
| "commas l (ts # us # tss) = ts @ Token COMMA '','' l # commas l (us # tss)"

fun expr_toks :: "expr \<Rightarrow> token list" where
  "expr_toks (IntLiteral v l) = [Token NUMBER (fmt_dec v) l]"
| "expr_toks (VarRef n l) = [Token IDENT n l]"
| "expr_toks (StringLit s l) = [Token STRLIT s l]"
| "expr_toks (BinOp op a b l) =
     (let k = the (op_level op)
      in wrap k a (expr_toks a) @ Token (op_kind op) op l # wrap (k + 1) b (expr_toks b))"
| "expr_toks (UnaryOp op a l) = Token OP1 op l # wrap 9 a (expr_toks a)"
| "expr_toks (Deref a l) = Token OP1 ''*'' l # wrap 9 a (expr_toks a)"
| "expr_toks (AddrOf n None l) = [Token OP1 ''&'' l, Token IDENT n l]"
| "expr_toks (AddrOf n (Some i) l) =
     Token OP1 ''&'' l # Token IDENT n l # Token LBRACKET ''['' l # expr_toks i @ [Token RBRACKET '']'' l]"
| "expr_toks (ArrayRef n i l) = Token IDENT n l # Token LBRACKET ''['' l # expr_toks i @ [Token RBRACKET '']'' l]"
| "expr_toks (FuncCall n args l) =
     Token IDENT n l # Token LPAREN ''('' l # commas l (map expr_toks args) @ [Token RPAREN '')'' l]"

text \<open>Operators the language has; the line of a binary expression is that of its left operand.\<close>

fun wf_expr :: "expr \<Rightarrow> bool" where
  "wf_expr (BinOp op a b l) = (op_level op \<noteq> None \<and> l = expr_line a \<and> wf_expr a \<and> wf_expr b)"
| "wf_expr (UnaryOp op a l) = (op \<in> {''-'', ''~'', ''!''} \<and> wf_expr a)"
| "wf_expr (Deref a l) = wf_expr a"
| "wf_expr (AddrOf n (Some i) l) = wf_expr i"
| "wf_expr (ArrayRef n i l) = wf_expr i"
| "wf_expr (FuncCall n args l) = list_all wf_expr args"
| "wf_expr _ = True"

text \<open>What may follow an expression of level \<open>k\<close>.\<close>

definition stops :: "nat \<Rightarrow> token list \<Rightarrow> bool" where
  "stops k rest \<longleftrightarrow> (case rest of [] \<Rightarrow> True
     | t # _ \<Rightarrow> tk_kind t \<notin> {LPAREN, LBRACKET} \<and> (\<forall>j \<in> {k..8}. \<not> level_op j t))"

lemma stops_mono: "stops k rest \<Longrightarrow> k \<le> j \<Longrightarrow> stops j rest"
  by (cases rest) (auto simp: stops_def)

lemma stops_closing [simp]: "tk_kind t \<in> {RPAREN, RBRACKET, COMMA, SEMI, RBRACE} \<Longrightarrow> stops k (t # rest)"
  by (auto simp: stops_def level_op_def Let_def)

lemma op_level_le: "op_level op = Some k \<Longrightarrow> k \<le> 8"
  by (auto simp: op_level_def split: if_splits)

definition binary_ops :: "string list" where
  "binary_ops = [''||'', ''&&'', ''|'', ''^'', ''&'', ''=='', ''!='', ''<'', ''>'', ''<='', ''>='', ''<<'', ''>>'',
     ''+'', ''-'', ''*'', ''/'', ''%'']"

lemma op_level_table: "op_level op = Some k \<Longrightarrow> op \<in> set binary_ops"
  by (auto simp: op_level_def binary_ops_def split: if_splits)

lemma level_op_table:
  "list_all (\<lambda>op. list_all (\<lambda>j. level_op j (Token (op_kind op) op 0) = (op_level op = Some j)) [0..<9]) binary_ops"
  by code_simp

lemma level_op_iff:
  assumes "op_level op = Some k" "j \<le> 8"
  shows "level_op j (Token (op_kind op) op l) \<longleftrightarrow> j = k"
proof -
  have "level_op j (Token (op_kind op) op l) = level_op j (Token (op_kind op) op 0)"
    by (simp add: level_op_def)
  also have "\<dots> = (op_level op = Some j)"
    using level_op_table op_level_table [OF assms(1)] assms(2) by (simp add: list_all_iff less_Suc_eq_le del: upt_Suc)
  finally show ?thesis using assms(1) by auto
qed

lemma stops_op: "op_level op = Some k \<Longrightarrow> k < j \<Longrightarrow> stops j (Token (op_kind op) op l # rest)"
  using level_op_iff [of op k _ l] by (auto simp: stops_def op_kind_def)

text \<open>The first token of an expression.\<close>

definition starts_expr :: "token \<Rightarrow> bool" where
  "starts_expr t \<longleftrightarrow> tk_kind t \<in> {NUMBER, IDENT, STRLIT, LPAREN, OP1}"

lemma wrap_starts: "\<exists>t us. ts = t # us \<and> starts_expr t \<Longrightarrow> \<exists>t us. wrap k e ts = t # us \<and> starts_expr t"
  by (auto simp: wrap_def starts_expr_def)

lemma toks_start: "\<exists>t us. expr_toks e = t # us \<and> starts_expr t"
proof (induction e)
  case (BinOp op a b l)
  then show ?case
    using wrap_starts [OF BinOp.IH(1), of "the (op_level op)" a] by (auto simp: Let_def)
next
  case (AddrOf n i l)
  then show ?case by (cases i) (auto simp: starts_expr_def)
qed (auto simp: starts_expr_def)

text \<open>Only an expression of level 10 is printed with a first token that is no unary operator, and
  with no keyword anywhere in front.\<close>

lemma toks_primary: "wf_expr e \<Longrightarrow> level_of e = 10 \<Longrightarrow> \<exists>t us. expr_toks e = t # us \<and> tk_kind t \<in> {NUMBER, IDENT, STRLIT}"
  by (cases e) (auto dest: op_level_le simp: op_level_def split: if_splits)

section \<open>One level of the parser\<close>

definition parsed :: "nat \<Rightarrow> token list \<Rightarrow> expr \<Rightarrow> bool" where
  "parsed k ts e \<longleftrightarrow> (\<forall>rest n. stops k rest \<longrightarrow> 11 * length (ts @ rest) + (11 - k) \<le> n \<longrightarrow>
     parse_level n k (ts @ rest) = Inr (e, rest))"

lemma parsedD:
  "parsed k ts e \<Longrightarrow> stops k rest \<Longrightarrow> 11 * length (ts @ rest) + (11 - k) \<le> n \<Longrightarrow>
     parse_level n k (ts @ rest) = Inr (e, rest)"
  by (simp add: parsed_def)

lemma parsedI:
  assumes "\<And>rest n. stops k rest \<Longrightarrow> 11 * length (ts @ rest) + (11 - k) \<le> Suc n \<Longrightarrow>
    parse_level (Suc n) k (ts @ rest) = Inr (e, rest)" "k \<le> 10"
  shows "parsed k ts e"
  unfolding parsed_def
proof (intro allI impI)
  fix rest n
  assume "stops k rest" "11 * length (ts @ rest) + (11 - k) \<le> n"
  then show "parse_level n k (ts @ rest) = Inr (e, rest)"
    using assms by (cases n) auto
qed

lemma ops_loop_stop: "stops k rest \<Longrightarrow> k \<le> 8 \<Longrightarrow> ops_loop (Suc m) operand k e rest = Inr (e, rest)"
  by (auto simp: stops_def split: list.split)

text \<open>More fuel than tokens makes no difference to the loop.\<close>

lemma ops_loop_fuel:
  assumes "\<And>ts'. length ts' < length ts \<Longrightarrow> ends_below (length ts') (operand ts')" "length ts < m" "length ts < m'"
  shows "ops_loop m operand k e ts = ops_loop m' operand k e ts"
  using assms
proof (induction m arbitrary: m' e ts)
  case (Suc m)
  then obtain m2 where m2: "m' = Suc m2" by (cases m') auto
  show ?case
  proof (cases ts)
    case (Cons t ts')
    have "ops_loop m operand k x r = ops_loop m2 operand k x r" if "operand ts' = Inr (b, r)" for x b r
    proof -
      have "length r < length ts'"
        using Suc.prems(1) [of ts'] that Cons by simp
      then show ?thesis
        using Suc.prems Cons m2 by (intro Suc.IH) auto
    qed
    then show ?thesis
      using Cons m2 by (cases "operand ts'") auto
  qed (simp add: m2)
qed simp

lemma step_down:
  assumes "parsed (k + 1) ts e" "k < 9"
  shows "parsed k ts e"
proof (rule parsedI)
  fix rest n
  assume r: "stops k rest" "11 * length (ts @ rest) + (11 - k) \<le> Suc n"
  have "parse_level n (k + 1) (ts @ rest) = Inr (e, rest)"
    using r assms(2) by (intro parsedD [OF assms(1)]) (auto elim: stops_mono)
  then show "parse_level (Suc n) k (ts @ rest) = Inr (e, rest)"
    using assms(2) ops_loop_stop [OF r(1), of "length rest"]
    by (simp add: parse_binary_def del: ops_loop.simps)
qed (use assms in simp)

lemma down_to: "parsed m ts e \<Longrightarrow> m \<le> 9 \<Longrightarrow> k \<le> m \<Longrightarrow> parsed k ts e"
proof (induction "m - k" arbitrary: k)
  case (Suc d)
  then have "parsed (k + 1) ts e" using Suc.prems Suc.hyps(2) by (intro Suc.hyps(1) [OF _ Suc.prems(1)]) auto
  then show ?case using Suc by (auto intro: step_down)
qed simp

lemma from_primary:
  assumes "parsed 10 ts e" "ts = t # us" "tk_kind t \<noteq> OP1"
  shows "parsed 9 ts e"
proof (rule parsedI)
  fix rest n
  assume r: "stops 9 rest" "11 * length (ts @ rest) + (11 - 9) \<le> Suc n"
  have "parse_level n 10 (ts @ rest) = Inr (e, rest)"
    using r by (intro parsedD [OF assms(1)]) (auto elim: stops_mono)
  then show "parse_level (Suc n) 9 (ts @ rest) = Inr (e, rest)"
    using assms(2,3) by (simp add: parse_unary_def)
qed simp

lemma cast_rest_starts: "starts_expr t \<Longrightarrow> cast_rest (t # ts) = None"
  by (auto simp: cast_rest_def starts_expr_def)

lemma parenthesised:
  assumes "parsed 0 ts e" "ts = t # us" "starts_expr t"
  shows "parsed 10 (Token LPAREN ''('' l # ts @ [Token RPAREN '')'' l]) e"
proof (rule parsedI)
  fix rest n
  assume r: "stops 10 rest" "11 * length ((Token LPAREN ''('' l # ts @ [Token RPAREN '')'' l]) @ rest) + (11 - 10) \<le> Suc n"
  have "parse_level n 0 (ts @ Token RPAREN '')'' l # rest) = Inr (e, Token RPAREN '')'' l # rest)"
    using r by (intro parsedD [OF assms(1)]) auto
  moreover have "cast_rest (ts @ Token RPAREN '')'' l # rest) = None"
    using assms(2) cast_rest_starts [OF assms(3)] by simp
  ultimately show "parse_level (Suc n) 10 ((Token LPAREN ''('' l # ts @ [Token RPAREN '')'' l]) @ rest) = Inr (e, rest)"
    by (simp add: parse_primary_def p_expect_def)
qed simp

lemma wrap_parsed:
  assumes "parsed (level_of e) (expr_toks e) e" "wf_expr e" "k \<le> 9"
  shows "parsed k (wrap k e (expr_toks e)) e"
proof -
  have l: "level_of e \<le> 8 \<or> level_of e = 9 \<or> level_of e = 10"
    using assms(2) by (cases e) (auto dest: op_level_le)
  have z: "parsed j (expr_toks e) e" if "j \<le> level_of e" "j \<le> 9" for j
  proof (cases "level_of e = 10")
    case True
    obtain t us where "expr_toks e = t # us" "tk_kind t \<in> {NUMBER, IDENT, STRLIT}"
      using toks_primary [OF assms(2) True] by blast
    then have "parsed 9 (expr_toks e) e"
      using assms(1) True by (intro from_primary) auto
    then show ?thesis using that by (auto elim: down_to)
  next
    case False
    then show ?thesis using l that by (auto intro: down_to [OF assms(1)])
  qed
  show ?thesis
  proof (cases "level_of e < k")
    case True
    obtain t us where "expr_toks e = t # us" "starts_expr t"
      using toks_start [of e] by blast
    from parenthesised [OF _ this, of e "expr_line e"] z [of 0]
    have "parsed 10 (wrap k e (expr_toks e)) e"
      using True by (simp add: wrap_def)
    then have "parsed 9 (wrap k e (expr_toks e)) e"
      using True by (intro from_primary) (auto simp: wrap_def)
    then show ?thesis using assms(3) by (auto elim: down_to)
  qed (use z assms(3) in \<open>simp add: wrap_def\<close>)
qed

section \<open>Left-associative chains\<close>

text \<open>After the operand \<open>e\<close> of a chain of level \<open>j\<close> the loop goes on with \<open>e\<close> as its left operand.\<close>

definition spine :: "nat \<Rightarrow> token list \<Rightarrow> expr \<Rightarrow> bool" where
  "spine j ts e \<longleftrightarrow> (\<forall>rest n. stops (j + 1) rest \<longrightarrow> 11 * length (ts @ rest) + (10 - j) \<le> n \<longrightarrow>
     parse_binary (parse_level n) j (ts @ rest) = ops_loop (length rest + 1) (parse_level n (j + 1)) j e rest)"

lemma spineD:
  "spine j ts e \<Longrightarrow> stops (j + 1) rest \<Longrightarrow> 11 * length (ts @ rest) + (10 - j) \<le> n \<Longrightarrow>
     parse_binary (parse_level n) j (ts @ rest) = ops_loop (length rest + 1) (parse_level n (j + 1)) j e rest"
  by (simp add: spine_def)

lemma spine_start: "parsed (j + 1) ts e \<Longrightarrow> spine j ts e"
  unfolding spine_def parse_binary_def by (auto simp: parsedD)

lemma spine_op:
  assumes a: "spine j ta a" and b: "parsed (j + 1) tb b" and o: "op_level op = Some j"
  shows "spine j (ta @ Token (op_kind op) op l # tb) (BinOp op a b (expr_line a))"
  unfolding spine_def
proof (intro allI impI)
  fix rest n
  let ?t = "Token (op_kind op) op l"
  assume r: "stops (j + 1) rest" "11 * length ((ta @ ?t # tb) @ rest) + (10 - j) \<le> n"
  have s: "stops (j + 1) (?t # tb @ rest)" using stops_op [OF o] by simp
  have j: "j \<le> 8" using op_level_le [OF o] .
  have pb: "parse_level n (j + 1) (tb @ rest) = Inr (b, rest)"
    using r by (intro parsedD [OF b]) auto
  have "parse_binary (parse_level n) j ((ta @ ?t # tb) @ rest)
      = ops_loop (length (?t # tb @ rest) + 1) (parse_level n (j + 1)) j a (?t # tb @ rest)"
    using spineD [OF a s, of n] r by simp
  also have "\<dots> = ops_loop (length (?t # tb @ rest)) (parse_level n (j + 1)) j (BinOp op a b (expr_line a)) rest"
    using level_op_iff [OF o j] pb by simp
  also have "\<dots> = ops_loop (length rest + 1) (parse_level n (j + 1)) j (BinOp op a b (expr_line a)) rest"
    using r j by (intro ops_loop_fuel parse_level_good) auto
  finally show "parse_binary (parse_level n) j ((ta @ ?t # tb) @ rest) = \<dots>" .
qed

lemma spine_parsed: "spine j ts e \<Longrightarrow> j \<le> 8 \<Longrightarrow> parsed j ts e"
proof (rule parsedI)
  fix rest n
  assume s: "spine j ts e" "j \<le> 8" and r: "stops j rest" "11 * length (ts @ rest) + (11 - j) \<le> Suc n"
  have "parse_binary (parse_level n) j (ts @ rest) = Inr (e, rest)"
    using spineD [OF s(1) stops_mono [OF r(1)], of n] r(2) s(2) ops_loop_stop [OF r(1) s(2), of "length rest"]
    by (simp del: ops_loop.simps)
  then show "parse_level (Suc n) j (ts @ rest) = Inr (e, rest)"
    using s(2) by simp
qed simp

section \<open>Arguments\<close>

lemma commas_parsed:
  assumes "list_all (\<lambda>a. parsed 0 (expr_toks a) a) args"
    and "11 * length (commas l (map expr_toks args) @ Token RPAREN v l' # rest) + 11 \<le> n" "length args < m"
  shows "expr_list m (parse_level n 0) RPAREN (commas l (map expr_toks args) @ Token RPAREN v l' # rest)
    = Inr (args, Token RPAREN v l' # rest)"
  using assms
proof (induction args arbitrary: m)
  case (Cons a args)
  obtain m' where m: "m = Suc m'" using Cons.prems(3) by (cases m) auto
  have nr: "\<not> p_match RPAREN (expr_toks a @ r)" for r
    using toks_start [of a] by (auto simp: p_match_def starts_expr_def)
  show ?case
  proof (cases args)
    case Nil
    have "parse_level n 0 (expr_toks a @ Token RPAREN v l' # rest) = Inr (a, Token RPAREN v l' # rest)"
      using Cons.prems Nil by (intro parsedD) auto
    moreover obtain m2 where "m' = Suc m2" using Cons.prems(3) m Nil by (cases m') auto
    ultimately show ?thesis
      using Nil m nr by (simp add: skip_comma_def p_match_def)
  next
    case (Cons b bs)
    let ?r = "commas l (map expr_toks args) @ Token RPAREN v l' # rest"
    have e: "commas l (map expr_toks (a # args)) @ Token RPAREN v l' # rest = expr_toks a @ Token COMMA '','' l # ?r"
      using Cons by simp
    have "parse_level n 0 (expr_toks a @ Token COMMA '','' l # ?r) = Inr (a, Token COMMA '','' l # ?r)"
      using Cons.prems(1,2) unfolding e by (intro parsedD) auto
    moreover have "expr_list m' (parse_level n 0) RPAREN ?r = Inr (args, Token RPAREN v l' # rest)"
      using Cons.prems m e by (intro Cons.IH) auto
    ultimately show ?thesis
      unfolding e using m nr by (simp add: skip_comma_def p_match_def)
  qed
next
  case Nil
  then obtain m' where "m = Suc m'" by (cases m) auto
  then show ?case by (simp add: p_match_def)
qed

lemma spine_wrap:
  assumes "parsed (level_of e) (expr_toks e) e" "wf_expr e" "j \<le> 8"
    and "level_of e = j \<Longrightarrow> spine j (expr_toks e) e"
  shows "spine j (wrap j e (expr_toks e)) e"
proof (cases "level_of e = j")
  case True
  then show ?thesis using assms(4) by (simp add: wrap_def)
next
  case False
  then have "wrap j e (expr_toks e) = wrap (j + 1) e (expr_toks e)"
    by (simp add: wrap_def)
  then show ?thesis
    using spine_start [OF wrap_parsed [OF assms(1,2), of "j + 1"]] assms(3) by simp
qed

section \<open>The round trip\<close>

lemma primary_rest: "stops 10 rest \<Longrightarrow> \<not> p_match LPAREN rest \<and> \<not> p_match LBRACKET rest"
  by (auto simp: stops_def p_match_def split: list.splits)

lemma not_op_token [simp]: "level_op k (Token IDENT v l) = False" "level_op k (Token NUMBER v l) = False"
  by (simp_all add: level_op_def Let_def)

text \<open>Prefix operators, and the primary expressions.\<close>

lemma prefix_parsed:
  assumes "parsed 9 ts e" "\<And>n rest. parse_level n 9 (ts @ rest) = Inr (e, rest) \<Longrightarrow>
      parse_unary (parse_level n) (t # ts @ rest) = Inr (e', rest)"
  shows "parsed 9 (t # ts) e'"
proof (rule parsedI)
  fix rest n
  assume "stops 9 rest" "11 * length ((t # ts) @ rest) + (11 - 9) \<le> Suc n"
  then have "parse_level n 9 (ts @ rest) = Inr (e, rest)"
    by (intro parsedD [OF assms(1)]) auto
  then show "parse_level (Suc n) 9 ((t # ts) @ rest) = Inr (e', rest)"
    using assms(2) by simp
qed simp

lemma indexed_parsed:
  assumes "parsed 0 ts i" "k = 9 \<or> k = 10"
    and "\<And>n rest. parse_level n 0 (ts @ Token RBRACKET v l # rest) = Inr (i, Token RBRACKET v l # rest) \<Longrightarrow>
      parse_level (Suc n) k (pre @ ts @ Token RBRACKET v l # rest) = Inr (e, rest)"
    and "2 \<le> length pre"
  shows "parsed k (pre @ ts @ [Token RBRACKET v l]) e"
proof (rule parsedI)
  fix rest n
  assume "stops k rest" "11 * length ((pre @ ts @ [Token RBRACKET v l]) @ rest) + (11 - k) \<le> Suc n"
  then have "parse_level n 0 (ts @ Token RBRACKET v l # rest) = Inr (i, Token RBRACKET v l # rest)"
    using assms(2,4) by (intro parsedD [OF assms(1)]) auto
  then show "parse_level (Suc n) k ((pre @ ts @ [Token RBRACKET v l]) @ rest) = Inr (e, rest)"
    using assms(3) by simp
qed (use assms(2) in auto)

lemma atom_parsed:
  assumes "\<And>p rest. stops 10 rest \<Longrightarrow> parse_primary p (t # rest) = Inr (e, rest)"
  shows "parsed 10 [t] e"
  by (rule parsedI) (simp_all add: assms)

lemma call_parsed:
  assumes "list_all (\<lambda>a. parsed 0 (expr_toks a) a) args"
  shows "parsed 10 (expr_toks (FuncCall f args l)) (FuncCall f args l)"
proof (rule parsedI)
  fix rest n
  let ?c = "commas l (map expr_toks args) @ Token RPAREN '')'' l # rest"
  assume "stops 10 rest" and n: "11 * length (expr_toks (FuncCall f args l) @ rest) + (11 - 10) \<le> Suc n"
  have "length args \<le> length (commas l (map expr_toks args))" for args
  proof (induction "map expr_toks args" arbitrary: args rule: commas.induct [of _ l])
    case (2 l ts)
    then show ?case using toks_start by (cases args) (auto, metis length_greater_0_conv list.distinct(1) Suc_leI)
  next
    case (3 l ts us tss)
    then obtain a b as where "args = a # b # as" "ts = expr_toks a" "us = expr_toks b" "tss = map expr_toks as"
      by (auto simp: map_eq_Cons_conv Cons_eq_map_conv)
    then show ?case using 3(1) [of "b # as"] by simp
  qed simp
  from this [of args] have "expr_list (length (Token LPAREN ''('' l # ?c)) (parse_level n 0) RPAREN ?c
      = Inr (args, Token RPAREN '')'' l # rest)"
    using n by (intro commas_parsed [OF assms]) auto
  then show "parse_level (Suc n) 10 (expr_toks (FuncCall f args l) @ rest) = Inr (FuncCall f args l, rest)"
    by (simp add: parse_primary_def p_match_def p_expect_def del: expr_list.simps)
qed simp

lemma expr_parsed:
  "wf_expr e \<Longrightarrow> parsed (level_of e) (expr_toks e) e
     \<and> (\<forall>j \<le> 8. level_of e = j \<longrightarrow> spine j (expr_toks e) e)"
proof (induction e)
  case (IntLiteral v l)
  then show ?case
    by (auto intro!: atom_parsed simp: parse_primary_def token_int_def py_int_fmt_dec)
next
  case (VarRef n l)
  then show ?case
    by (auto intro!: atom_parsed dest: primary_rest simp: parse_primary_def)
next
  case (StringLit s l)
  then show ?case
    by (auto intro!: atom_parsed simp: parse_primary_def)
next
  case (BinOp op a b l)
  obtain j where j: "op_level op = Some j" using BinOp.prems by auto
  have j8: "j \<le> 8" using op_level_le [OF j] .
  have a: "spine j (wrap j a (expr_toks a)) a"
    using BinOp j8 by (intro spine_wrap) auto
  have b: "parsed (j + 1) (wrap (j + 1) b (expr_toks b)) b"
    using BinOp j8 by (intro wrap_parsed) auto
  have "spine j (expr_toks (BinOp op a b l)) (BinOp op a b l)"
    using spine_op [OF a b j, of l] BinOp.prems j by simp
  then show ?case
    using spine_parsed j j8 by simp
next
  case (UnaryOp op a l)
  have "parsed 9 (wrap 9 a (expr_toks a)) a"
    using UnaryOp by (intro wrap_parsed) auto
  then show ?case
    using UnaryOp.prems by (auto intro!: prefix_parsed simp: parse_unary_def)
next
  case (Deref a l)
  have "parsed 9 (wrap 9 a (expr_toks a)) a"
    using Deref by (intro wrap_parsed) auto
  then show ?case
    by (auto intro!: prefix_parsed simp: parse_unary_def)
next
  case (FuncCall f args l)
  have "parsed 0 (expr_toks a) a" if "a \<in> set args" for a
    using FuncCall that wrap_parsed [of a 0] by (simp add: list_all_iff wrap_def)
  then show ?case
    using call_parsed [of args f l] by (simp add: list_all_iff del: expr_toks.simps)
next
  case (ArrayRef n i l)
  have "parsed 0 (expr_toks i) i"
    using ArrayRef wrap_parsed [of i 0] by (simp add: wrap_def)
  then show ?case
    using indexed_parsed [of "expr_toks i" i 10 "'']''" l "[Token IDENT n l, Token LBRACKET ''['' l]" "ArrayRef n i l"]
    by (simp add: parse_primary_def p_match_def p_expect_def)
next
  case (AddrOf n i l)
  show ?case
  proof (cases i)
    case None
    have "parsed 9 [Token OP1 ''&'' l, Token IDENT n l] (AddrOf n None l)"
      by (rule parsedI) (auto simp: parse_unary_def p_expect_def stops_def p_match_def split: list.splits)
    then show ?thesis using None by simp
  next
    case (Some i')
    have "parsed 0 (expr_toks i') i'"
      using AddrOf Some wrap_parsed [of i' 0] by (simp add: wrap_def)
    then show ?thesis
      using Some indexed_parsed [of "expr_toks i'" i' 9 "'']''" l "[Token OP1 ''&'' l, Token IDENT n l, Token LBRACKET ''['' l]"
          "AddrOf n (Some i') l"]
      by (simp add: parse_unary_def p_match_def p_expect_def)
  qed
qed

lemma parse_expr_toks:
  assumes "wf_expr e" "stops 0 rest"
  shows "parse_expr (expr_toks e @ rest) = Inr (e, rest)"
proof -
  have "parsed 0 (wrap 0 e (expr_toks e)) e"
    using expr_parsed [OF assms(1)] assms(1) by (intro wrap_parsed) auto
  then show ?thesis
    unfolding parse_expr_def expr_fuel_def using assms(2) by (intro parsedD) (auto simp: wrap_def)
qed

end
