(* ===== verification/Lexer_Roundtrip.thy ===== *)
theory Lexer_Roundtrip
  imports Parser_Roundtrip
begin

text \<open>
  The lexer on printed tokens: a line of well-formed tokens separated by blanks is scanned back to
  those tokens.  With the round trip of the parser this gives the expression back from its text.
\<close>

section \<open>Tokens and their text\<close>

definition tok_text :: "token \<Rightarrow> string" where
  "tok_text t = (if tk_kind t = STRLIT then dquote # tk_value t @ [dquote] else tk_value t)"

definition print_toks :: "token list \<Rightarrow> string" where
  "print_toks ts = concat (map (\<lambda>t. tok_text t @ '' '') ts)"

definition ident_ok :: "string \<Rightarrow> bool" where
  "ident_ok n \<longleftrightarrow> n \<noteq> [] \<and> is_alpha (hd n) \<and> list_all is_word n \<and> n \<notin> set KEYWORDS"

definition strlit_ok :: "string \<Rightarrow> bool" where
  "strlit_ok s \<longleftrightarrow> list_all (\<lambda>c. c \<notin> {dquote, backslash}) s"

definition punctuation :: "(lex_kind \<times> string) list" where
  "punctuation =
     map (Pair OP1) [''+'', ''-'', ''*'', ''/'', ''='', ''<'', ''>'', ''!'', ''~'', ''&'', ''|'', ''^'', ''%'']
     @ map (Pair OP2) TWO_CHAR_OPS @ map (Pair ASSIGNOP) ASSIGN_OPS
     @ [(SEMI, '';''), (COMMA, '',''), (LPAREN, ''(''), (RPAREN, '')''), (LBRACE, ''{''), (RBRACE, ''}''),
        (LBRACKET, ''[''), (RBRACKET, '']'')]"

definition token_ok :: "token \<Rightarrow> bool" where
  "token_ok t \<longleftrightarrow>
     (if tk_kind t = NUMBER then (\<exists>v \<ge> 0. tk_value t = fmt_dec v)
      else if tk_kind t = IDENT then ident_ok (tk_value t)
      else if tk_kind t = STRLIT then strlit_ok (tk_value t)
      else (tk_kind t, tk_value t) \<in> set punctuation)"

section \<open>One token\<close>

lemma word_space [simp]: "\<not> is_word (CHR '' '')" "\<not> is_alpha (CHR '' '')"
  by (simp_all add: is_word_def is_alpha_def is_dec_digit_def)

lemma takeWhile_word: "list_all is_word w \<Longrightarrow> takeWhile is_word (w @ CHR '' '' # rest) = w"
  by (simp add: list_all_iff takeWhile_append2)

lemmas matcher_defs = LEX_SPEC_def m_comment_line_def m_comment_block_def m_strlit_def m_number_def
  m_keyword_def m_ident_def m_lits_def m_class_def m_ws_def

lemma m_charlit_other: "c \<noteq> squote \<Longrightarrow> m_charlit (c # s) = None"
  by (cases "c # s" rule: m_charlit.cases) auto

lemma punctuation_match:
  "list_all (\<lambda>(k, v). \<forall>prev rest. first_match (LEX_SPEC prev) (v @ CHR '' '' # rest) = Some (k, v)) punctuation"
  by (simp add: punctuation_def TWO_CHAR_OPS_def ASSIGN_OPS_def matcher_defs m_charlit_other dquote_def squote_def
      backslash_def Let_def is_word_def is_alpha_def is_dec_digit_def KEYWORDS_def)

lemma alpha_not_special: "is_alpha c \<Longrightarrow> c \<notin> {CHR ''/'', dquote, squote} \<and> \<not> is_dec_digit c"
  by (auto simp: is_alpha_def is_dec_digit_def dquote_def squote_def)

lemma ident_match:
  assumes "ident_ok n"
  shows "first_match (LEX_SPEC prev) (n @ CHR '' '' # rest) = Some (IDENT, n)"
proof -
  obtain c cs where n: "n = c # cs" "is_alpha c" using assms by (cases n) (auto simp: ident_ok_def)
  have w: "takeWhile is_word (n @ CHR '' '' # rest) = n" "n \<notin> set KEYWORDS"
    using assms takeWhile_word [of n rest] by (simp_all add: ident_ok_def)
  have "m_number prev (n @ CHR '' '' # rest) = None"
    unfolding m_number_def w(1) using n alpha_not_special [OF n(2)]
    by (auto simp: is_dec_digit_def is_alpha_def)
  moreover have "m_keyword prev (n @ CHR '' '' # rest) = None" "m_ident (n @ CHR '' '' # rest) = Some n"
    unfolding m_keyword_def m_ident_def w(1) using n w(2) by (auto simp: Let_def)
  ultimately show ?thesis
    using alpha_not_special [OF n(2)]
    by (simp add: LEX_SPEC_def m_comment_line_def m_comment_block_def m_strlit_def m_charlit_other n(1))
qed

lemma digits_text: "0 \<le> v \<Longrightarrow> list_all is_dec_digit (fmt_dec v) \<and> fmt_dec v \<noteq> []"
proof -
  assume "0 \<le> v"
  have "is_dec_digit c" if "is_digit 10 c" for c
    using that by (auto simp: is_digit_def digit_val_def is_dec_digit_def split: if_splits)
  then show ?thesis
    using \<open>0 \<le> v\<close> nat_digits_all [of 10 "nat v"] by (simp add: fmt_dec_def list_all_iff)
qed

lemma number_match:
  assumes "0 \<le> v" "at_boundary prev"
  shows "first_match (LEX_SPEC prev) (fmt_dec v @ CHR '' '' # rest) = Some (NUMBER, fmt_dec v)"
proof -
  obtain c cs where c: "fmt_dec v = c # cs" "is_dec_digit c"
    using digits_text [OF assms(1)] by (cases "fmt_dec v") auto
  have w: "takeWhile is_word (fmt_dec v @ CHR '' '' # rest) = fmt_dec v"
    using digits_text [OF assms(1)] by (intro takeWhile_word) (auto simp: list_all_iff is_word_def)
  have "m_number prev (fmt_dec v @ CHR '' '' # rest) = Some (fmt_dec v)"
    unfolding m_number_def w using digits_text [OF assms(1)] assms(2) by (simp add: Let_def)
  moreover have "c \<notin> {CHR ''/'', dquote, squote}"
    using c(2) by (auto simp: is_dec_digit_def dquote_def squote_def)
  ultimately show ?thesis
    by (simp add: LEX_SPEC_def m_comment_line_def m_comment_block_def m_strlit_def m_charlit_other c(1))
qed

lemma string_tail_ok: "strlit_ok s \<Longrightarrow> string_tail (s @ dquote # rest) = Some (s @ [dquote])"
  by (induction s) (auto simp: strlit_ok_def)

lemma strlit_match:
  "strlit_ok s \<Longrightarrow> first_match (LEX_SPEC prev) (dquote # s @ dquote # rest) = Some (STRLIT, dquote # s @ [dquote])"
  by (simp add: LEX_SPEC_def m_comment_line_def m_comment_block_def m_strlit_def string_tail_ok)
    (simp add: dquote_def)

lemma token_match:
  assumes "token_ok t" "at_boundary prev"
  shows "first_match (LEX_SPEC prev) (tok_text t @ CHR '' '' # rest) = Some (tk_kind t, tok_text t)"
  using assms punctuation_match number_match [OF _ assms(2)]
  by (auto simp: token_ok_def tok_text_def ident_match strlit_match list_all_iff split: if_splits)

lemma number_value_dec: "0 \<le> v \<Longrightarrow> number_value (fmt_dec v) = fmt_dec v"
proof -
  assume v: "0 \<le> v"
  have "lower_char c \<noteq> CHR ''x''" if "is_dec_digit c" for c
    using that by (auto simp: lower_char_def is_dec_digit_def)
  then have "\<not> starts_with (py_lower (fmt_dec v)) ''0x''"
    using digits_text [OF v] unfolding starts_with_append py_lower_def
    by (cases "fmt_dec v"; cases "tl (fmt_dec v)") auto
  then show ?thesis by (simp add: number_value_def py_int_fmt_dec)
qed

lemma token_emit: "token_ok t \<Longrightarrow> lex_emit (tk_kind t) (tok_text t) (tk_line t) = [t]"
  by (cases t) (auto simp: token_ok_def tok_text_def lex_emit_def number_value_dec punctuation_def)

lemma token_line: "token_ok t \<Longrightarrow> lex_line (tk_kind t) v l = l"
  by (auto simp: token_ok_def lex_line_def punctuation_def split: if_splits)

lemma token_text_start: "token_ok t \<Longrightarrow> \<exists>c cs. tok_text t = c # cs \<and> \<not> is_blank_char c"
proof -
  have b: "\<not> is_blank_char c" if "is_word c \<or> c = dquote" for c
    using that by (auto simp: is_word_def is_alpha_def is_dec_digit_def is_blank_char_def dquote_def)
  have p: "list_all (\<lambda>(k, v). v \<noteq> [] \<and> \<not> is_blank_char (hd v)) punctuation"
    by (simp add: punctuation_def TWO_CHAR_OPS_def ASSIGN_OPS_def is_blank_char_def)
  have d: "\<not> is_blank_char (hd (fmt_dec v))" "fmt_dec v \<noteq> []" if "0 \<le> v" for v
    using digits_text [OF that] b by (cases "fmt_dec v"; simp add: is_word_def)+
  have i: "\<not> is_blank_char (hd n)" "n \<noteq> []" if "ident_ok n" for n
    using that b [of "hd n"] by (simp_all add: ident_ok_def is_word_def)
  assume "token_ok t"
  then have "tok_text t \<noteq> [] \<and> \<not> is_blank_char (hd (tok_text t))"
    using p d i b [of dquote] d(2) [symmetric]
    by (auto simp: token_ok_def tok_text_def list_all_iff split: if_splits)
  then show ?thesis by (cases "tok_text t") auto
qed

section \<open>A line of tokens\<close>

lemma blank_match:
  "first_match (LEX_SPEC prev) (CHR '' '' # rest) = Some (WS, CHR '' '' # takeWhile is_blank_char rest)"
  by (simp add: matcher_defs m_charlit_other squote_def dquote_def newline_def Let_def ASSIGN_OPS_def
      TWO_CHAR_OPS_def KEYWORDS_def is_blank_char_def)

lemma lex_blank:
  "rest = [] \<or> \<not> is_blank_char (hd rest) \<Longrightarrow> lex_from prev l (CHR '' '' # rest) = lex_from (Some (CHR '' '')) l rest"
proof -
  assume "rest = [] \<or> \<not> is_blank_char (hd rest)"
  then have "takeWhile is_blank_char rest = []" by (cases rest) auto
  then show ?thesis by (simp add: blank_match lex_emit_def lex_line_def newline_def)
qed

lemma lex_token:
  assumes "token_ok t" "at_boundary prev" "rest = [] \<or> \<not> is_blank_char (hd rest)"
  shows "lex_from prev (tk_line t) (tok_text t @ CHR '' '' # rest) = t # lex_from (Some (CHR '' '')) (tk_line t) rest"
proof -
  obtain c cs where c: "tok_text t = c # cs" using token_text_start [OF assms(1)] by blast
  have "drop (length (tok_text t) - 1) (cs @ CHR '' '' # rest) = CHR '' '' # rest"
    by (simp add: c)
  then show ?thesis
    using token_match [OF assms(1,2), of rest] token_emit [OF assms(1)] lex_blank [OF assms(3)]
    by (simp add: c token_line [OF assms(1)])
qed

lemma print_toks_start:
  "list_all token_ok ts \<Longrightarrow> print_toks ts = [] \<or> \<not> is_blank_char (hd (print_toks ts))"
  using token_text_start by (cases ts) (fastforce simp: print_toks_def)+

lemma lex_print:
  "list_all (\<lambda>t. token_ok t \<and> tk_line t = l) ts \<Longrightarrow> at_boundary prev \<Longrightarrow> lex_from prev l (print_toks ts) = ts"
proof (induction ts arbitrary: prev)
  case (Cons t ts)
  have s: "print_toks ts = [] \<or> \<not> is_blank_char (hd (print_toks ts))"
    using Cons.prems(1) by (intro print_toks_start) (auto simp: list_all_iff)
  have "at_boundary (Some (CHR '' ''))" by (simp add: at_boundary_def)
  with Cons lex_token [of t prev "print_toks ts"] s show ?case
    by (simp add: print_toks_def)
qed (simp add: print_toks_def)

section \<open>An expression on one line\<close>

text \<open>Names are identifiers, literals are what a literal can hold, everything is on line \<open>l\<close>.\<close>

fun expr_printable :: "nat \<Rightarrow> expr \<Rightarrow> bool" where
  "expr_printable l (IntLiteral v l') = (0 \<le> v \<and> l' = l)"
| "expr_printable l (VarRef n l') = (ident_ok n \<and> l' = l)"
| "expr_printable l (StringLit s l') = (strlit_ok s \<and> l' = l)"
| "expr_printable l (BinOp op a b l') = (l' = l \<and> expr_printable l a \<and> expr_printable l b)"
| "expr_printable l (UnaryOp op a l') = (l' = l \<and> expr_printable l a)"
| "expr_printable l (Deref a l') = (l' = l \<and> expr_printable l a)"
| "expr_printable l (AddrOf n None l') = (ident_ok n \<and> l' = l)"
| "expr_printable l (AddrOf n (Some i) l') = (ident_ok n \<and> l' = l \<and> expr_printable l i)"
| "expr_printable l (ArrayRef n i l') = (ident_ok n \<and> l' = l \<and> expr_printable l i)"
| "expr_printable l (FuncCall n args l') = (ident_ok n \<and> l' = l \<and> list_all (expr_printable l) args)"

lemma expr_printable_line: "expr_printable l e \<Longrightarrow> expr_line e = l"
  by (cases "(l, e)" rule: expr_printable.cases) auto

lemma punct_ok [simp]:
  "token_ok (Token OP1 ''*'' l)" "token_ok (Token OP1 ''&'' l)" "token_ok (Token LBRACKET ''['' l)"
  "token_ok (Token RBRACKET '']'' l)" "token_ok (Token LPAREN ''('' l)" "token_ok (Token RPAREN '')'' l)"
  "token_ok (Token COMMA '','' l)" "token_ok (Token OP1 ''-'' l)" "token_ok (Token OP1 ''~'' l)" "token_ok (Token OP1 ''!'' l)"
  by (simp_all add: token_ok_def punctuation_def)

lemma name_ok [simp]:
  "token_ok (Token IDENT n l) = ident_ok n" "token_ok (Token STRLIT n l) = strlit_ok n"
  "0 \<le> v \<Longrightarrow> token_ok (Token NUMBER (fmt_dec v) l)"
  by (auto simp: token_ok_def)

lemma op_token_ok: "op_level op \<noteq> None \<Longrightarrow> token_ok (Token (op_kind op) op l)"
proof -
  have "list_all (\<lambda>op. token_ok (Token (op_kind op) op 0)) binary_ops"
    by (simp add: binary_ops_def token_ok_def op_kind_def punctuation_def TWO_CHAR_OPS_def)
  moreover have "token_ok (Token (op_kind op) op l) = token_ok (Token (op_kind op) op 0)"
    by (simp add: token_ok_def)
  ultimately show "op_level op \<noteq> None \<Longrightarrow> ?thesis"
    using op_level_table by (fastforce simp: list_all_iff)
qed

definition toks_ok :: "nat \<Rightarrow> token list \<Rightarrow> bool" where
  "toks_ok l ts \<longleftrightarrow> list_all (\<lambda>t. token_ok t \<and> tk_line t = l) ts"

lemma toks_ok_simps [simp]:
  "toks_ok l []" "toks_ok l (t # ts) \<longleftrightarrow> token_ok t \<and> tk_line t = l \<and> toks_ok l ts"
  "toks_ok l (ts @ us) \<longleftrightarrow> toks_ok l ts \<and> toks_ok l us"
  by (auto simp: toks_ok_def)

lemma toks_ok_wrap: "toks_ok l ts \<Longrightarrow> expr_line e = l \<Longrightarrow> toks_ok l (wrap k e ts)"
  by (simp add: wrap_def)

lemma toks_ok_commas: "list_all (toks_ok l) tss \<Longrightarrow> toks_ok l (commas l tss)"
  by (induction l tss rule: commas.induct) auto

lemma expr_toks_ok: "wf_expr e \<Longrightarrow> expr_printable l e \<Longrightarrow> toks_ok l (expr_toks e)"
proof (induction e)
  case (BinOp op a b l')
  then show ?case
    using op_token_ok [of op l] by (auto simp: Let_def toks_ok_wrap expr_printable_line)
next
  case (FuncCall n args l')
  then show ?case
    by (auto simp: list_all_iff intro!: toks_ok_commas)
next
  case (AddrOf n i l')
  then show ?case by (cases i) auto
qed (auto simp: toks_ok_wrap expr_printable_line)

lemma parse_printed:
  assumes "wf_expr e" "expr_printable 1 e"
  shows "parse_expr (lex_c (print_toks (expr_toks e))) = Inr (e, [])"
proof -
  have "lex_c (print_toks (expr_toks e)) = expr_toks e"
    unfolding lex_c_def using expr_toks_ok [OF assms]
    by (intro lex_print) (simp_all add: toks_ok_def at_boundary_def)
  then show ?thesis
    using parse_expr_toks [OF assms(1), of "[]"] by (simp add: stops_def)
qed

end
