(* ===== verification/C_Codegen.thy ===== *)
theory C_Codegen
  imports C_Parser
begin

text \<open>
  \<^verbatim>\<open>CodeGen\<close> of \<^verbatim>\<open>compiler/compiler.py\<close>: assembly text from the syntax tree.  The attributes of
  the generator are a record that every method takes and returns; a \<^verbatim>\<open>CompileError\<close> ends the
  generation.  A dictionary is an association list in insertion order, the stack of loop labels a
  list with its top first.  The methods that generate code for subexpressions take the generators of
  those subexpressions.  The three characters outside ASCII that occur in comments of the emitted
  text are kept by their bytes; the assembler drops comments.
\<close>

section \<open>State of the generator\<close>

record cg =
  cg_lines :: "string list"
  cg_var_reg :: "(string \<times> int) list"
  cg_next_reg :: int
  cg_label_cnt :: int
  cg_func :: string
  cg_loop_stack :: "(string \<times> string) list"
  cg_globals :: "(string \<times> int) list"
  cg_arrays :: "(string \<times> int \<times> int) list"
  cg_global_next :: int
  cg_strings :: "(string \<times> int) list"

definition MAX_REGS :: int where "MAX_REGS = 29"
definition FIRST_REG :: int where "FIRST_REG = 2"
definition FLAGS_TMP :: int where "FLAGS_TMP = 26"
definition GLOBAL_BASE_ADDR :: int where "GLOBAL_BASE_ADDR = 0x4000"

type_synonym 'a gen = "cg \<Rightarrow> compile_error + 'a \<times> cg"

definition cg_init :: cg where
  "cg_init = \<lparr>cg_lines = [], cg_var_reg = [], cg_next_reg = FIRST_REG, cg_label_cnt = 0, cg_func = [],
     cg_loop_stack = [], cg_globals = [], cg_arrays = [], cg_global_next = GLOBAL_BASE_ADDR, cg_strings = []\<rparr>"

section \<open>Text\<close>

definition arrow :: string where "arrow = [CHR 0xE2, CHR 0x86, CHR 0x92]"
definition both_arrow :: string where "both_arrow = [CHR 0xE2, CHR 0x86, CHR 0x94]"
definition funcao :: string where
  "funcao = ''Fun'' @ [CHR 0xC3, CHR 0xA7, CHR 0xC3, CHR 0xA3] @ ''o''"

text \<open>\<^verbatim>\<open>R{r}\<close>, and an instruction on registers \<^verbatim>\<open>op Ra, Rb, Rc\<close>\<close>

definition reg_text :: "int \<Rightarrow> string" where "reg_text r = CHR ''R'' # fmt_dec r"

definition ins2 :: "string \<Rightarrow> int \<Rightarrow> int \<Rightarrow> string" where
  "ins2 op a b = op @ '' '' @ reg_text a @ '', '' @ reg_text b"

definition ins3 :: "string \<Rightarrow> int \<Rightarrow> int \<Rightarrow> int \<Rightarrow> string" where
  "ins3 op a b c = op @ '' '' @ reg_text a @ '', '' @ reg_text b @ '', '' @ reg_text c"

text \<open>\<^verbatim>\<open>op Ra, 0(Rb)\<close> of loads and stores, \<^verbatim>\<open>op Ra, R0, label\<close> of branches\<close>

definition ins_mem :: "string \<Rightarrow> int \<Rightarrow> int \<Rightarrow> string" where
  "ins_mem op a b = op @ '' '' @ reg_text a @ '', 0('' @ reg_text b @ '')''"

definition ins_branch :: "string \<Rightarrow> int \<Rightarrow> string \<Rightarrow> string" where
  "ins_branch op r lbl = op @ '' '' @ reg_text r @ '', R0, '' @ lbl"

definition semi_note :: "string \<Rightarrow> string" where "semi_note c = ''  ; '' @ c"

definition emit :: "string \<Rightarrow> cg \<Rightarrow> cg" where
  "emit line s = s\<lparr>cg_lines := cg_lines s @ [line]\<rparr>"

definition new_label :: "string \<Rightarrow> cg \<Rightarrow> string \<times> cg" where
  "new_label prefix s =
     (prefix @ ''_'' @ fmt_dec (cg_label_cnt s), s\<lparr>cg_label_cnt := cg_label_cnt s + 1\<rparr>)"

section \<open>Registers\<close>

definition alloc_temp :: "nat \<Rightarrow> int gen" where
  "alloc_temp line s =
     (if cg_next_reg s > MAX_REGS then Inl (CompileError Temporaries_Exhausted line)
      else
        (let reg = (if cg_next_reg s = FLAGS_TMP then cg_next_reg s + 1 else cg_next_reg s)
         in Inr (reg, s\<lparr>cg_next_reg := reg + 1\<rparr>)))"

definition alloc_var :: "string \<Rightarrow> nat \<Rightarrow> int gen" where
  "alloc_var name line s =
     (case map_of (cg_var_reg s) name of
        Some r \<Rightarrow> Inr (r, s)
      | None \<Rightarrow>
          if cg_next_reg s > MAX_REGS then Inl (CompileError Too_Many_Locals line)
          else
            (let reg = (if cg_next_reg s = FLAGS_TMP then cg_next_reg s + 1 else cg_next_reg s);
                 s = s\<lparr>cg_next_reg := reg + 1, cg_var_reg := AList.update name reg (cg_var_reg s)\<rparr>
             in Inr (reg, emit (''; var '' @ name @ '' '' @ arrow @ '' R'' @ fmt_dec reg) s)))"

text \<open>\<^verbatim>\<open>_get_or_alloc_var\<close> repeats the test of \<^verbatim>\<open>_alloc_var\<close>.\<close>

definition get_or_alloc_var :: "string \<Rightarrow> nat \<Rightarrow> int gen" where
  "get_or_alloc_var name line s =
     (case map_of (cg_var_reg s) name of Some r \<Rightarrow> Inr (r, s) | None \<Rightarrow> alloc_var name line s)"

definition free_temps :: "cg \<Rightarrow> cg" where
  "free_temps s =
     (if cg_var_reg s \<noteq> [] then s\<lparr>cg_next_reg := Max (set (map snd (cg_var_reg s))) + 1\<rparr>
      else s\<lparr>cg_next_reg := FIRST_REG\<rparr>)"

definition emit_load_imm :: "int \<Rightarrow> int \<Rightarrow> string \<Rightarrow> cg \<Rightarrow> cg" where
  "emit_load_imm rd value comment s =
     (let cmt = (if comment \<noteq> [] then semi_note comment else [])
      in if - 32768 \<le> value \<and> value \<le> 32767
         then emit (''MOVI '' @ reg_text rd @ '', '' @ fmt_dec value @ cmt) s
         else
           (let upper = shr value 11 AND 0x1FFFFF;
                lower = value AND 0xFFFF;
                s = emit (''MOVHI '' @ reg_text rd @ '', 0x'' @ fmt_hex 5 upper @ cmt) s
            in if lower \<noteq> 0
               then emit (''ORI   '' @ reg_text rd @ '', '' @ reg_text rd @ '', 0x'' @ fmt_hex 4 lower) s
               else s))"

definition load_literal :: "int \<Rightarrow> nat \<Rightarrow> int gen" where
  "load_literal value line s =
     ebind (alloc_temp line s) (\<lambda>(rd, s). Inr (rd, emit_load_imm rd value (''literal '' @ fmt_dec value) s))"

text \<open>The mnemonics of the operators, shared by \<^verbatim>\<open>OP_MAP\<close> and \<^verbatim>\<open>_MAP\<close>.\<close>

definition OP_MAP :: "string \<rightharpoonup> string" where
  "OP_MAP = [''+'' \<mapsto> ''ADD'', ''-'' \<mapsto> ''SUB'', ''*'' \<mapsto> ''MUL'', ''/'' \<mapsto> ''DIV'', ''%'' \<mapsto> ''REM'',
     ''<<'' \<mapsto> ''SHL'', ''>>'' \<mapsto> ''SHR'', ''&'' \<mapsto> ''AND'', ''|'' \<mapsto> ''OR'', ''^'' \<mapsto> ''XOR'']"

definition compound_op :: "string \<Rightarrow> nat \<Rightarrow> compile_error + string" where
  "compound_op op line =
     (case OP_MAP (butlast op) of
        Some m \<Rightarrow> Inr m | None \<Rightarrow> Inl (CompileError (Bad_Compound_Operator op) line))"

section \<open>Strings\<close>

definition string_escape :: "char \<Rightarrow> int" where
  "string_escape c =
     (if c = CHR ''n'' then 10 else if c = CHR ''t'' then 9 else if c = CHR ''r'' then 13
      else if c = backslash then 92 else if c = CHR ''0'' then 0 else if c = dquote then 34
      else if c = squote then 39 else int (code c))"

fun decode_string :: "string \<Rightarrow> int list" where
  "decode_string [] = []"
| "decode_string [c] = [int (code c)]"
| "decode_string (c # d # cs) =
     (if c = backslash then string_escape d # decode_string cs else int (code c) # decode_string (d # cs))"

definition intern_string :: "string \<Rightarrow> cg \<Rightarrow> int \<times> cg" where
  "intern_string raw s =
     (case map_of (cg_strings s) raw of
        Some a \<Rightarrow> (a, s)
      | None \<Rightarrow>
          (let addr = cg_global_next s
           in (addr, s\<lparr>cg_global_next := addr + int (length (decode_string raw @ [0])),
                       cg_strings := AList.update raw addr (cg_strings s)\<rparr>)))"

section \<open>Expressions\<close>

text \<open>\<^verbatim>\<open>_gen_expr(VarRef(n, line))\<close>\<close>

definition gen_var :: "string \<Rightarrow> nat \<Rightarrow> int gen" where
  "gen_var n line s =
     (case map_of (cg_globals s) n of
        Some addr \<Rightarrow>
          ebind (alloc_temp line s) (\<lambda>(r_val, s).
            let s = emit_load_imm FLAGS_TMP addr (CHR ''&'' # n) s
            in Inr (r_val, emit (''LW   '' @ reg_text r_val @ '', 0('' @ reg_text FLAGS_TMP @ '')   ; '' @ n) s))
      | None \<Rightarrow> get_or_alloc_var n line s)"

definition array_elem_addr :: "string \<Rightarrow> expr \<Rightarrow> int gen \<Rightarrow> nat \<Rightarrow> int gen" where
  "array_elem_addr name index g_index line s =
     (case map_of (cg_arrays s) name of
        None \<Rightarrow> Inl (CompileError (Undeclared_Array name) line)
      | Some (base, _) \<Rightarrow>
          ebind (alloc_temp line s) (\<lambda>(r_adr, s).
            case index of
              IntLiteral v _ \<Rightarrow>
                Inr (r_adr, emit_load_imm r_adr (base + v) (CHR ''&'' # name @ ''['' @ fmt_dec v @ '']'') s)
            | _ \<Rightarrow>
                ebind (alloc_temp line s) (\<lambda>(r_base, s).
                  ebind (g_index s) (\<lambda>(r_idx, s).
                    let s = emit_load_imm r_base base (''base '' @ name) s
                    in Inr (r_adr, emit (ins3 ''ADD '' r_adr r_base r_idx @ semi_note (CHR ''&'' # name @ ''[idx]'')) s)))))"

text \<open>\<^verbatim>\<open>ptr[i]\<close> of a pointer: the address is the value of the pointer plus the index.\<close>

definition pointer_elem_addr :: "string \<Rightarrow> int gen \<Rightarrow> nat \<Rightarrow> int gen" where
  "pointer_elem_addr name g_index line s =
     ebind (gen_var name line s) (\<lambda>(r_ptr, s).
       ebind (g_index s) (\<lambda>(r_idx, s).
         ebind (alloc_temp line s) (\<lambda>(r_adr, s).
           Inr (r_adr, emit (ins3 ''ADD '' r_adr r_ptr r_idx @ semi_note (name @ ''+idx'')) s))))"

definition elem_addr :: "string \<Rightarrow> expr \<Rightarrow> int gen \<Rightarrow> nat \<Rightarrow> int gen" where
  "elem_addr name index g_index line s =
     (if map_of (cg_arrays s) name \<noteq> None then array_elem_addr name index g_index line s
      else pointer_elem_addr name g_index line s)"

text \<open>\<^verbatim>\<open>==\<close> and \<^verbatim>\<open>!=\<close>: a difference and a branch to one of two constants.\<close>

definition gen_equality :: "string \<Rightarrow> int \<Rightarrow> int \<Rightarrow> int \<Rightarrow> cg \<Rightarrow> cg" where
  "gen_equality op rd rl rr s =
     (let (lbl_t, s) = new_label ''CMP_T'' s;
          (lbl_e, s) = new_label ''CMP_E'' s;
          s = emit (ins3 ''SUB'' FLAGS_TMP rl rr) s;
          s = emit (ins_branch (if op = ''=='' then ''BEQ'' else ''BNE'') FLAGS_TMP lbl_t) s;
          s = emit (''MOVI '' @ reg_text rd @ '', 0'') s;
          s = emit (''JMP '' @ lbl_e) s;
          s = emit (lbl_t @ '':'') s;
          s = emit (''MOVI '' @ reg_text rd @ '', 1'') s
      in emit (lbl_e @ '':'') s)"

definition xori_1 :: "int \<Rightarrow> string" where
  "xori_1 rd = ''XORI '' @ reg_text rd @ '', '' @ reg_text rd @ '', 1''"

definition gen_binop_into :: "string \<Rightarrow> int gen \<Rightarrow> int gen \<Rightarrow> nat \<Rightarrow> int option \<Rightarrow> int gen" where
  "gen_binop_into op g_left g_right line dest_reg s =
     ebind (g_left s) (\<lambda>(rl, s).
       ebind (g_right s) (\<lambda>(rr, s).
         ebind (case dest_reg of Some r \<Rightarrow> Inr (r, s) | None \<Rightarrow> alloc_temp line s) (\<lambda>(rd, s).
           case OP_MAP op of
             Some m \<Rightarrow> Inr (rd, emit (ins3 m rd rl rr @ semi_note op) s)
           | None \<Rightarrow>
               if op = ''<'' then Inr (rd, emit (ins3 ''SLT'' rd rl rr) s)
               else if op = ''>'' then Inr (rd, emit (ins3 ''SLT'' rd rr rl) s)
               else if op = ''<='' then
                 Inr (rd, emit (xori_1 rd)
                   (emit (ins3 ''SLT'' rd rr rl @ semi_note (''NOT (rr < rl) '' @ both_arrow @ '' rl <= rr'')) s))
               else if op = ''>='' then
                 Inr (rd, emit (xori_1 rd)
                   (emit (ins3 ''SLT'' rd rl rr @ semi_note (''NOT (rl < rr) '' @ both_arrow @ '' rl >= rr'')) s))
               else if op \<in> {''=='', ''!=''} then Inr (rd, gen_equality op rd rl rr s)
               else Inl (CompileError (Bad_Operator op) line))))"

definition gen_logical_and :: "int gen \<Rightarrow> int gen \<Rightarrow> nat \<Rightarrow> int gen" where
  "gen_logical_and g_left g_right line s =
     (let (lbl_false, s) = new_label ''AND_FALSE'' s;
          (lbl_end, s) = new_label ''AND_END'' s
      in ebind (alloc_temp line s) (\<lambda>(rd, s).
           ebind (g_left s) (\<lambda>(rl, s).
             let s = emit (ins_branch ''BEQ'' rl lbl_false @ semi_note ''&& short-circuit'') s
             in ebind (g_right s) (\<lambda>(rr, s).
                  let s = emit (ins_branch ''BEQ'' rr lbl_false) s;
                      s = emit (''MOVI '' @ reg_text rd @ '', 1'') s;
                      s = emit (''JMP '' @ lbl_end) s;
                      s = emit (lbl_false @ '':'') s;
                      s = emit (''MOVI '' @ reg_text rd @ '', 0'') s
                  in Inr (rd, emit (lbl_end @ '':'') s)))))"

definition gen_logical_or :: "int gen \<Rightarrow> int gen \<Rightarrow> nat \<Rightarrow> int gen" where
  "gen_logical_or g_left g_right line s =
     (let (lbl_true, s) = new_label ''OR_TRUE'' s;
          (lbl_end, s) = new_label ''OR_END'' s
      in ebind (alloc_temp line s) (\<lambda>(rd, s).
           ebind (g_left s) (\<lambda>(rl, s).
             let s = emit (ins_branch ''BNE'' rl lbl_true @ semi_note ''|| short-circuit'') s
             in ebind (g_right s) (\<lambda>(rr, s).
                  let s = emit (ins_branch ''BNE'' rr lbl_true) s;
                      s = emit (''MOVI '' @ reg_text rd @ '', 0'') s;
                      s = emit (''JMP '' @ lbl_end) s;
                      s = emit (lbl_true @ '':'') s;
                      s = emit (''MOVI '' @ reg_text rd @ '', 1'') s
                  in Inr (rd, emit (lbl_end @ '':'') s)))))"

definition gen_unary :: "string \<Rightarrow> int gen \<Rightarrow> nat \<Rightarrow> int gen" where
  "gen_unary op g_operand line s =
     ebind (g_operand s) (\<lambda>(r, s).
       ebind (alloc_temp line s) (\<lambda>(rd, s).
         if op = ''-'' then Inr (rd, emit (ins2 ''NEG'' rd r) s)
         else if op = ''~'' then Inr (rd, emit (ins2 ''NOT'' rd r) s)
         else if op = ''!'' then
           (let (lbl_one, s) = new_label ''NOT_ONE'' s;
                (lbl_end, s) = new_label ''NOT_END'' s;
                s = emit (ins_branch ''BEQ'' r lbl_one) s;
                s = emit (''MOVI '' @ reg_text rd @ '', 0'') s;
                s = emit (''JMP '' @ lbl_end) s;
                s = emit (lbl_one @ '':'') s;
                s = emit (''MOVI '' @ reg_text rd @ '', 1'') s
            in Inr (rd, emit (lbl_end @ '':'') s))
         else Inr (rd, s)))"

text \<open>One argument of a call, moved to its register.\<close>

definition gen_arg :: "nat \<Rightarrow> int gen \<Rightarrow> cg \<Rightarrow> compile_error + cg" where
  "gen_arg i g s =
     ebind (g s) (\<lambda>(r, s).
       let arg_reg = 1 + int i
       in Inr (if r \<noteq> arg_reg then emit (ins2 ''MOV'' arg_reg r @ semi_note (''arg'' @ fmt_dec (int i + 1))) s else s))"

fun gen_expr :: "expr \<Rightarrow> int gen"
  and gen_args :: "nat \<Rightarrow> expr list \<Rightarrow> cg \<Rightarrow> compile_error + cg"
where
  "gen_expr (IntLiteral v line) s = load_literal v line s"
| "gen_expr (VarRef n line) s = gen_var n line s"
| "gen_expr (ArrayRef n idx line) s =
     ebind (elem_addr n idx (gen_expr idx) line s) (\<lambda>(r_adr, s).
       ebind (alloc_temp line s) (\<lambda>(r_val, s).
         Inr (r_val, emit (ins_mem ''LW  '' r_val r_adr @ semi_note (n @ ''[...]'')) s)))"
| "gen_expr (AddrOf n None line) s =
     (case map_of (cg_globals s) n of
        Some addr \<Rightarrow>
          ebind (alloc_temp line s) (\<lambda>(r_adr, s). Inr (r_adr, emit_load_imm r_adr addr (CHR ''&'' # n) s))
      | None \<Rightarrow> Inl (CompileError (Bad_Address_Of n) line))"
| "gen_expr (AddrOf n (Some idx) line) s = array_elem_addr n idx (gen_expr idx) line s"
| "gen_expr (Deref ptr line) s =
     ebind (gen_expr ptr s) (\<lambda>(r_ptr, s).
       ebind (alloc_temp line s) (\<lambda>(r_val, s).
         Inr (r_val, emit (ins_mem ''LW  '' r_val r_ptr @ semi_note ''*ptr'') s)))"
| "gen_expr (BinOp op left right line) s =
     (if op = ''&&'' then gen_logical_and (gen_expr left) (gen_expr right) line s
      else if op = ''||'' then gen_logical_or (gen_expr left) (gen_expr right) line s
      else gen_binop_into op (gen_expr left) (gen_expr right) line None s)"
| "gen_expr (UnaryOp op operand line) s = gen_unary op (gen_expr operand) line s"
| "gen_expr (FuncCall name args line) s =
     ebind (gen_args 0 args s) (\<lambda>s. Inr (1, emit (''CALL '' @ py_upper name) s))"
| "gen_expr (StringLit sv line) s =
     (let (addr, s) = intern_string sv s
      in ebind (alloc_temp line s) (\<lambda>(r, s).
           Inr (r, emit_load_imm r addr (''str@0x'' @ py_lower (fmt_hex 0 addr)) s)))"
| "gen_args i [] s = Inr s"
| "gen_args i (arg # args) s = ebind (gen_arg i (gen_expr arg) s) (gen_args (i + 1) args)"

section \<open>Assignments\<close>

definition gen_assign :: "string \<Rightarrow> string \<Rightarrow> expr \<Rightarrow> nat \<Rightarrow> cg \<Rightarrow> compile_error + cg" where
  "gen_assign name op value line s =
     (case map_of (cg_globals s) name of
        Some addr \<Rightarrow>
          (let s = emit_load_imm FLAGS_TMP addr (CHR ''&'' # name) s
           in ebind (gen_expr value s) (\<lambda>(r_val, s).
                if op = ''='' then
                  Inr (emit (ins_mem ''SW'' r_val FLAGS_TMP @ semi_note (name @ '' = '' @ reg_text r_val)) s)
                else
                  ebind (alloc_temp line s) (\<lambda>(r_cur, s).
                    let s = emit (ins_mem ''LW'' r_cur FLAGS_TMP @ semi_note (name @ '' (atual)'')) s
                    in ebind (compound_op op line) (\<lambda>asm_op.
                         let s = emit (ins3 asm_op r_cur r_cur r_val @ semi_note op) s
                         in Inr (emit (ins_mem ''SW'' r_cur FLAGS_TMP @ semi_note (name @ '' = resultado'')) s)))))
      | None \<Rightarrow>
          ebind (get_or_alloc_var name line s) (\<lambda>(reg, s).
            if op = ''='' then
              (case value of
                 BinOp bop left right bline \<Rightarrow>
                   if bop \<notin> {''&&'', ''||''} then
                     ebind (gen_binop_into bop (gen_expr left) (gen_expr right) bline (Some reg) s) (\<lambda>(_, s). Inr s)
                   else
                     ebind (gen_expr value s) (\<lambda>(r, s).
                       Inr (if r \<noteq> reg then emit (ins2 ''MOV'' reg r @ semi_note (name @ '' = '' @ reg_text r)) s else s))
               | _ \<Rightarrow>
                   ebind (gen_expr value s) (\<lambda>(r, s).
                     Inr (if r \<noteq> reg then emit (ins2 ''MOV'' reg r @ semi_note (name @ '' = '' @ reg_text r)) s else s)))
            else
              ebind (gen_expr value s) (\<lambda>(r_val, s).
                ebind (compound_op op line) (\<lambda>asm_op. Inr (emit (ins3 asm_op reg reg r_val @ semi_note op) s)))))"

text \<open>The end of an assignment through the address in \<open>r_addr\<close>; the notes differ.\<close>

definition store_through ::
  "string \<Rightarrow> int \<Rightarrow> int \<Rightarrow> nat \<Rightarrow> string \<Rightarrow> string \<Rightarrow> string \<Rightarrow> cg \<Rightarrow> compile_error + cg" where
  "store_through op r_addr r_val line n_store n_load n_result s =
     (if op = ''='' then Inr (emit (ins_mem ''SW'' r_val r_addr @ semi_note n_store) s)
      else
        ebind (alloc_temp line s) (\<lambda>(r_cur, s).
          let s = emit (ins_mem ''LW'' r_cur r_addr @ semi_note n_load) s
          in ebind (compound_op op line) (\<lambda>asm_op.
               let s = emit (ins3 asm_op r_cur r_cur r_val @ semi_note op) s
               in Inr (emit (ins_mem ''SW'' r_cur r_addr @ semi_note n_result) s))))"

definition gen_array_assign :: "string \<Rightarrow> expr \<Rightarrow> string \<Rightarrow> expr \<Rightarrow> nat \<Rightarrow> cg \<Rightarrow> compile_error + cg" where
  "gen_array_assign name index op value line s =
     ebind (elem_addr name index (gen_expr index) line s) (\<lambda>(r_addr, s).
       ebind (gen_expr value s) (\<lambda>(r_val, s).
         store_through op r_addr r_val line (name @ ''[...] = '' @ reg_text r_val) (name @ ''[...] atual'')
           (name @ ''[...] = resultado'') s))"

definition gen_deref_assign :: "expr \<Rightarrow> string \<Rightarrow> expr \<Rightarrow> nat \<Rightarrow> cg \<Rightarrow> compile_error + cg" where
  "gen_deref_assign ptr op value line s =
     ebind (gen_expr ptr s) (\<lambda>(r_ptr, s).
       ebind (gen_expr value s) (\<lambda>(r_val, s).
         store_through op r_ptr r_val line (''*ptr = '' @ reg_text r_val) ''*ptr atual'' ''*ptr = resultado'' s))"

section \<open>Statements\<close>

definition push_loop :: "string \<Rightarrow> string \<Rightarrow> cg \<Rightarrow> cg" where
  "push_loop lbl_cont lbl_break s = s\<lparr>cg_loop_stack := (lbl_cont, lbl_break) # cg_loop_stack s\<rparr>"

definition pop_loop :: "cg \<Rightarrow> cg" where
  "pop_loop s = s\<lparr>cg_loop_stack := tl (cg_loop_stack s)\<rparr>"

text \<open>\<^verbatim>\<open>HLT\<close> ends \<^verbatim>\<open>main\<close>, \<^verbatim>\<open>RET\<close> any other function.\<close>

definition emit_leave :: "cg \<Rightarrow> cg" where
  "emit_leave s = emit (if cg_func s = ''MAIN'' then ''HLT'' else ''RET'') s"

definition gen_vardecl :: "string \<Rightarrow> expr option \<Rightarrow> nat \<Rightarrow> cg \<Rightarrow> compile_error + cg" where
  "gen_vardecl name init line s =
     ebind (alloc_var name line s) (\<lambda>(reg, s).
       ebind (case init of
                None \<Rightarrow> Inr s
              | Some e \<Rightarrow>
                  ebind (gen_expr e s) (\<lambda>(r, s).
                    Inr (if r \<noteq> reg then emit (ins2 ''MOV'' reg r @ semi_note (name @ '' = '' @ reg_text r)) s else s)))
         (\<lambda>s. Inr (free_temps s)))"

fun gen_array_init :: "string \<Rightarrow> int \<Rightarrow> int \<Rightarrow> expr list \<Rightarrow> cg \<Rightarrow> compile_error + cg" where
  "gen_array_init name base i [] s = Inr s"
| "gen_array_init name base i (e # es) s =
     ebind (gen_expr e s) (\<lambda>(r_val, s).
       let elem = name @ ''['' @ fmt_dec i @ '']'';
           s = emit_load_imm FLAGS_TMP (base + i) (CHR ''&'' # elem) s;
           s = emit (ins_mem ''SW  '' r_val FLAGS_TMP @ semi_note (elem @ '' = init'')) s
       in gen_array_init name base (i + 1) es s)"

definition gen_arraydecl :: "string \<Rightarrow> int \<Rightarrow> expr list option \<Rightarrow> cg \<Rightarrow> compile_error + cg" where
  "gen_arraydecl name sz init s =
     (let base = cg_global_next s;
          s = s\<lparr>cg_arrays := AList.update name (base, sz) (cg_arrays s), cg_global_next := base + sz\<rparr>
      in ebind (gen_array_init name base 0 (case init of Some es \<Rightarrow> es | None \<Rightarrow> []) s) (\<lambda>s. Inr (free_temps s)))"

definition gen_return :: "expr option \<Rightarrow> cg \<Rightarrow> compile_error + cg" where
  "gen_return val s =
     ebind (case val of
              None \<Rightarrow> Inr s
            | Some e \<Rightarrow>
                ebind (gen_expr e s) (\<lambda>(r, s).
                  Inr (if r \<noteq> 1 then emit (ins2 ''MOV'' 1 r @ semi_note ''retorno em R1'') s else s)))
       (\<lambda>s. Inr (free_temps (emit_leave s)))"

definition gen_break :: "nat \<Rightarrow> cg \<Rightarrow> compile_error + cg" where
  "gen_break line s =
     (case cg_loop_stack s of
        [] \<Rightarrow> Inl (CompileError Break_Outside_Loop line)
      | (_, lbl_break) # _ \<Rightarrow> Inr (emit (''JMP '' @ lbl_break @ semi_note ''break'') s))"

definition gen_continue :: "nat \<Rightarrow> cg \<Rightarrow> compile_error + cg" where
  "gen_continue line s =
     (case cg_loop_stack s of
        [] \<Rightarrow> Inl (CompileError Continue_Outside_Loop line)
      | (lbl_cont, _) # _ \<Rightarrow> Inr (emit (''JMP '' @ lbl_cont @ semi_note ''continue'') s))"

definition gen_if :: "expr \<Rightarrow> (cg \<Rightarrow> compile_error + cg) \<Rightarrow> (cg \<Rightarrow> compile_error + cg) \<Rightarrow> bool \<Rightarrow> cg \<Rightarrow> compile_error + cg"
where
  "gen_if cond g_then g_else has_else s =
     (let (lbl_else, s) = new_label ''ELSE'' s;
          (lbl_end, s) = new_label ''ENDIF'' s
      in ebind (gen_expr cond s) (\<lambda>(r_cond, s).
           let s = emit (ins_branch ''BEQ'' r_cond lbl_else @ semi_note (''if falso '' @ arrow @ '' else'')) s
           in ebind (g_then s) (\<lambda>s.
                let s = (if has_else then emit (''JMP '' @ lbl_end) s else s);
                    s = emit (lbl_else @ '':'') s
                in ebind (g_else s) (\<lambda>s. Inr (emit (lbl_end @ '':'') s)))))"

definition gen_while :: "expr \<Rightarrow> (cg \<Rightarrow> compile_error + cg) \<Rightarrow> cg \<Rightarrow> compile_error + cg" where
  "gen_while cond g_body s =
     (let (lbl_test, s) = new_label ''WHILE_TEST'' s;
          (lbl_end, s) = new_label ''WHILE_END'' s;
          s = push_loop lbl_test lbl_end s;
          s = emit (lbl_test @ '':'') s
      in ebind (gen_expr cond s) (\<lambda>(r_cond, s).
           let s = emit (ins_branch ''BEQ'' r_cond lbl_end @ semi_note (''enquanto falso '' @ arrow @ '' fim'')) s
           in ebind (g_body s) (\<lambda>s.
                Inr (pop_loop (emit (lbl_end @ '':'') (emit (''JMP '' @ lbl_test) s))))))"

definition gen_for ::
  "(cg \<Rightarrow> compile_error + cg) \<Rightarrow> expr option \<Rightarrow> (cg \<Rightarrow> compile_error + cg) \<Rightarrow> (cg \<Rightarrow> compile_error + cg)
     \<Rightarrow> cg \<Rightarrow> compile_error + cg" where
  "gen_for g_init cond g_update g_body s =
     (let (lbl_test, s) = new_label ''FOR_TEST'' s;
          (lbl_upd, s) = new_label ''FOR_UPD'' s;
          (lbl_end, s) = new_label ''FOR_END'' s
      in ebind (g_init s) (\<lambda>s.
           let s = emit (lbl_test @ '':'') (push_loop lbl_upd lbl_end s)
           in ebind (case cond of
                       None \<Rightarrow> Inr s
                     | Some c \<Rightarrow>
                         ebind (gen_expr c s) (\<lambda>(r_cond, s).
                           Inr (emit (ins_branch ''BEQ'' r_cond lbl_end @
                             semi_note (''for: cond falsa '' @ arrow @ '' fim'')) s)))
                (\<lambda>s. ebind (g_body s) (\<lambda>s.
                   ebind (g_update (emit (lbl_upd @ '':'') s)) (\<lambda>s.
                     Inr (pop_loop (emit (lbl_end @ '':'') (emit (''JMP '' @ lbl_test) s))))))))"

fun gen_stmt :: "stmt \<Rightarrow> cg \<Rightarrow> compile_error + cg"
  and gen_stmts :: "stmt list \<Rightarrow> cg \<Rightarrow> compile_error + cg"
  and gen_stmt_opt :: "stmt option \<Rightarrow> cg \<Rightarrow> compile_error + cg"
where
  "gen_stmt (VarDecl name init line _) s = gen_vardecl name init line s"
| "gen_stmt (ArrayDecl name sz init line) s = gen_arraydecl name sz init s"
| "gen_stmt (Assign name op value line) s =
     ebind (gen_assign name op value line s) (\<lambda>s. Inr (free_temps s))"
| "gen_stmt (ArrayAssign name index op value line) s =
     ebind (gen_array_assign name index op value line s) (\<lambda>s. Inr (free_temps s))"
| "gen_stmt (DerefAssign ptr op value line) s =
     ebind (gen_deref_assign ptr op value line s) (\<lambda>s. Inr (free_temps s))"
| "gen_stmt (IfStmt cond then_b else_b line) s = gen_if cond (gen_stmts then_b) (gen_stmts else_b) (else_b \<noteq> []) s"
| "gen_stmt (WhileStmt cond body line) s = gen_while cond (gen_stmts body) s"
| "gen_stmt (ForStmt init cond update body line) s =
     gen_for (gen_stmt_opt init) cond (gen_stmt_opt update) (gen_stmts body) s"
| "gen_stmt (ReturnStmt val line) s = gen_return val s"
| "gen_stmt (BreakStmt line) s = gen_break line s"
| "gen_stmt (ContinueStmt line) s = gen_continue line s"
| "gen_stmt (ExprStmt e line) s = ebind (gen_expr e s) (\<lambda>(_, s). Inr (free_temps s))"
| "gen_stmt (Block stmts line) s = gen_stmts stmts s"
| "gen_stmts [] s = Inr s"
| "gen_stmts (st # sts) s = ebind (gen_stmt st s) (gen_stmts sts)"
| "gen_stmt_opt None s = Inr s"
| "gen_stmt_opt (Some st) s = gen_stmt st s"

section \<open>Functions and the program\<close>

fun gen_params :: "string \<Rightarrow> nat \<Rightarrow> int \<Rightarrow> string list \<Rightarrow> cg \<Rightarrow> compile_error + cg" where
  "gen_params fname line arg_reg [] s = Inr s"
| "gen_params fname line arg_reg (p # ps) s =
     (if arg_reg > MAX_REGS then Inl (CompileError (Too_Many_Parameters fname) line)
      else
        (let s = s\<lparr>cg_var_reg := AList.update p arg_reg (cg_var_reg s)\<rparr>;
             s = emit (''; param '' @ p @ '' '' @ arrow @ '' R'' @ fmt_dec arg_reg) s;
             s = (if arg_reg \<ge> cg_next_reg s then s\<lparr>cg_next_reg := arg_reg + 1\<rparr> else s)
         in gen_params fname line (arg_reg + 1) ps s))"

definition gen_func :: "func_def \<Rightarrow> cg \<Rightarrow> compile_error + cg" where
  "gen_func func s =
     (let s = s\<lparr>cg_var_reg := [], cg_next_reg := FIRST_REG, cg_func := py_upper (fd_name func), cg_loop_stack := []\<rparr>;
          s = emit (''; --- '' @ funcao @ '' '' @ fd_name func @ '' ---'') s;
          s = emit (py_upper (fd_name func) @ '':'') s
      in ebind (gen_params (fd_name func) (fd_line func) 1 (fd_params func) s) (\<lambda>s.
           ebind (gen_stmts (fd_body func) s) (\<lambda>s.
             Inr (emit [] (emit (if py_upper (fd_name func) = ''MAIN'' then ''HLT'' else ''RET'') s)))))"

fun gen_funcs :: "func_def list \<Rightarrow> cg \<Rightarrow> compile_error + cg" where
  "gen_funcs [] s = Inr s"
| "gen_funcs (f # fs) s = ebind (gen_func f s) (gen_funcs fs)"

definition add_global :: "global_decl \<Rightarrow> cg \<Rightarrow> cg" where
  "add_global gv s =
     (case gv of
        GlobalArrayDecl name sz init _ \<Rightarrow>
          s\<lparr>cg_arrays := AList.update name (cg_global_next s, sz) (cg_arrays s),
            cg_global_next := cg_global_next s + sz\<rparr>
      | GlobalVarDecl name init _ _ \<Rightarrow>
          s\<lparr>cg_globals := AList.update name (cg_global_next s) (cg_globals s),
            cg_global_next := cg_global_next s + 1\<rparr>)"

text \<open>The initial value of an element: a literal or 0.\<close>

definition init_value :: "expr list \<Rightarrow> nat \<Rightarrow> int" where
  "init_value es i = (if i < length es then (case es ! i of IntLiteral v _ \<Rightarrow> v | _ \<Rightarrow> 0) else 0)"

definition emit_global :: "global_decl \<Rightarrow> cg \<Rightarrow> cg" where
  "emit_global gv s =
     (case gv of
        GlobalArrayDecl name sz init _ \<Rightarrow>
          (let base = fst (the (map_of (cg_arrays s) name));
               es = (case init of Some es \<Rightarrow> es | None \<Rightarrow> []);
               s = emit (''.org 0x'' @ fmt_hex 6 base @ ''  ; array '' @ name @ ''['' @ fmt_dec sz @ '']'') s
           in fold (\<lambda>i. emit (''.word '' @ fmt_dec (init_value es i) @ ''  ; '' @ name @ ''['' @ fmt_dec (int i) @ '']''))
                [0..<nat sz] s)
      | GlobalVarDecl name init _ _ \<Rightarrow>
          (let addr = the (map_of (cg_globals s) name);
               val = (case init of Some (IntLiteral v _) \<Rightarrow> v | _ \<Rightarrow> 0);
               s = emit (''.org 0x'' @ fmt_hex 6 addr) s
           in emit (''.word '' @ fmt_dec val @ ''  ; global '' @ name) s))"

definition emit_string :: "string \<times> int \<Rightarrow> cg \<Rightarrow> cg" where
  "emit_string entry s =
     (case entry of (raw, addr) \<Rightarrow>
        (let shown = dquote # take 20 raw @ (if length raw > 20 then ''...'' else []) @ [dquote];
             s = emit (''.org 0x'' @ fmt_hex 6 addr @ ''  ; '' @ shown) s
         in fold (\<lambda>ch. emit (''.word '' @ fmt_dec ch)) (decode_string raw @ [0]) s))"

definition gen_program_state :: "program \<Rightarrow> compile_error + cg" where
  "gen_program_state prog =
     (let s = fold add_global (pr_globals prog) cg_init;
          s = emit [] (emit ''JMP MAIN'' (emit ''.org 0x000000'' s))
      in ebind (gen_funcs (pr_functions prog) s) (\<lambda>s.
           let has_data = cg_globals s \<noteq> [] \<or>
                 (\<exists>gv \<in> set (pr_globals prog). case gv of
                    GlobalArrayDecl n _ _ _ \<Rightarrow> map_of (cg_arrays s) n \<noteq> None | _ \<Rightarrow> False);
               s = (if has_data \<or> cg_global_next s > GLOBAL_BASE_ADDR
                    then fold emit_global (pr_globals prog) (emit ''; --- Dados globais ---'' s) else s);
               s = emit [] s;
               s = (if cg_strings s \<noteq> []
                    then fold emit_string (cg_strings s) (emit ''; --- Strings literais ---'' s) else s)
           in Inr (emit ''; === FIM DO PROGRAMA ==='' (emit [] s))))"

fun py_join :: "string \<Rightarrow> string list \<Rightarrow> string" where
  "py_join sep [] = []"
| "py_join sep [l] = l"
| "py_join sep (l # m # ls) = l @ sep @ py_join sep (m # ls)"

definition gen_program :: "program \<Rightarrow> compile_error + string" where
  "gen_program prog = ebind (gen_program_state prog) (\<lambda>s. Inr (py_join [newline] (cg_lines s)))"

text \<open>\<^verbatim>\<open>compile\<close> and \<^verbatim>\<open>parse_source\<close> after preprocessing.\<close>

definition parse_text :: "string \<Rightarrow> compile_error + program" where
  "parse_text source = parse_program (lex_c source)"

definition compile_text :: "string \<Rightarrow> compile_error + string" where
  "compile_text source = ebind (parse_text source) gen_program"

end
