(* ===== verification/C_Preprocess.thy ===== *)
theory C_Preprocess
  imports C_Codegen
begin

text \<open>
  \<^verbatim>\<open>_preprocess\<close> of \<^verbatim>\<open>compiler/compiler.py\<close>: \<^verbatim>\<open>#define\<close>, \<^verbatim>\<open>#include\<close> and include guards.  The
  files an include can open are a map from names to texts (None is the \<^verbatim>\<open>FileNotFoundError\<close> the
  code ignores), \<open>depth\<close> is the recursion limit of the interpreter, and the dictionary of defines
  and the set of guards, which all nested calls share, are threaded as state.  The replacement text
  of a define is a template of \<^verbatim>\<open>re.sub\<close>, whose backslash escapes are modelled.
\<close>

section \<open>Helpers of the standard library\<close>

text \<open>\<^verbatim>\<open>s.split(None, 2)\<close>: at most two splits, the rest without leading and trailing blanks kept
  whole; a third part keeps its inner and trailing blanks as they are.\<close>

definition next_word :: "string \<Rightarrow> string \<times> string" where
  "next_word s = (takeWhile (\<lambda>c. \<not> is_space c) (lstrip s), dropWhile (\<lambda>c. \<not> is_space c) (lstrip s))"

definition split_2 :: "string \<Rightarrow> string list" where
  "split_2 s =
     (if lstrip s = [] then []
      else
        (let (a, s) = next_word s
         in if lstrip s = [] then [a]
            else
              (let (b, s) = next_word s
               in if lstrip s = [] then [a, b] else [a, b, lstrip s])))"

text \<open>\<^verbatim>\<open>re.sub(r"/\*.*?\*/", "", s)\<close> and \<^verbatim>\<open>re.sub(r"//.*$", "", s)\<close> on one line.\<close>

function strip_comments :: "string \<Rightarrow> string" where
  "strip_comments s =
     (case s of
        [] \<Rightarrow> []
      | c # cs \<Rightarrow>
          (case m_comment_block s of
             Some v \<Rightarrow> strip_comments (drop (length v - 1) cs)
           | None \<Rightarrow> c # strip_comments cs))"
  by pat_completeness auto
termination by (relation "measure length") auto

declare strip_comments.simps [simp del]

text \<open>The template of \<^verbatim>\<open>re.sub\<close>: \<^verbatim>\<open>\n\<close> and its like, octal escapes, \<^verbatim>\<open>\g<0>\<close> for the match; other
  groups, unknown letters and a final backslash are errors.\<close>

definition is_octal :: "char \<Rightarrow> bool" where
  "is_octal c \<longleftrightarrow> 48 \<le> code c \<and> code c \<le> 55"

definition octal_value :: "string \<Rightarrow> nat" where
  "octal_value s = nat (digits_value 8 0 s)"

definition template_char :: "char \<Rightarrow> char option" where
  "template_char c =
     (if c = CHR ''a'' then Some (CHR 0x07) else if c = CHR ''b'' then Some (CHR 0x08)
      else if c = CHR ''f'' then Some (CHR 0x0C) else if c = CHR ''n'' then Some newline
      else if c = CHR ''r'' then Some (CHR 0x0D) else if c = CHR ''t'' then Some (CHR 0x09)
      else if c = CHR ''v'' then Some (CHR 0x0B) else if c = backslash then Some backslash else None)"

function expand_template :: "string \<Rightarrow> string \<Rightarrow> string option" where
  "expand_template whole [] = Some []"
| "expand_template whole (c # cs) =
     (if c \<noteq> backslash then map_option (Cons c) (expand_template whole cs)
      else
        (case cs of
           [] \<Rightarrow> None
         | d # ds \<Rightarrow>
             if starts_with (d # ds) ''g<0>'' then map_option (\<lambda>r. whole @ r) (expand_template whole (drop 3 ds))
             else if d = CHR ''0'' then
               (let oct = takeWhile is_octal (take 2 ds)
                in map_option (Cons (char_of (octal_value oct))) (expand_template whole (drop (length oct) ds)))
             else if is_dec_digit d then
               (if length ds \<ge> 2 \<and> is_octal d \<and> is_octal (ds ! 0) \<and> is_octal (ds ! 1) \<and> octal_value [d, ds ! 0, ds ! 1] \<le> 255
                then map_option (Cons (char_of (octal_value [d, ds ! 0, ds ! 1]))) (expand_template whole (drop 2 ds))
                else None)
             else
               (case template_char d of
                  Some e \<Rightarrow> map_option (Cons e) (expand_template whole ds)
                | None \<Rightarrow>
                    if is_alpha d \<and> d \<noteq> CHR ''_'' then None
                    else map_option (\<lambda>r. c # d # r) (expand_template whole ds))))"
  by pat_completeness auto
termination by (relation "measure (\<lambda>(_, s). length s)") (auto simp: Let_def)

text \<open>\<^verbatim>\<open>re.sub(r"\b" + re.escape(nm) + r"\b", val, seg)\<close> with the expanded template \<open>val\<close>; \<open>prev\<close> is
  the character before the rest of the segment.\<close>

definition word_break :: "char option \<Rightarrow> char option \<Rightarrow> bool" where
  "word_break a b \<longleftrightarrow>
     ((case a of None \<Rightarrow> False | Some c \<Rightarrow> is_word c) \<noteq> (case b of None \<Rightarrow> False | Some c \<Rightarrow> is_word c))"

definition head_opt :: "string \<Rightarrow> char option" where
  "head_opt s = (case s of [] \<Rightarrow> None | c # _ \<Rightarrow> Some c)"

function sub_word :: "string \<Rightarrow> string \<Rightarrow> char option \<Rightarrow> string \<Rightarrow> string" where
  "sub_word nm val prev [] = []"
| "sub_word nm val prev (c # cs) =
     (if nm \<noteq> [] \<and> starts_with (c # cs) nm \<and> word_break prev (Some c)
         \<and> word_break (Some (last nm)) (head_opt (drop (length nm) (c # cs)))
      then val @ sub_word nm val (Some (last nm)) (drop (length nm - 1) cs)
      else c # sub_word nm val (Some c) cs)"
  by pat_completeness auto
termination by (relation "measure (\<lambda>(_, _, _, s). length s)") auto

section \<open>Defines\<close>

type_synonym define_map = "(string \<times> string) list"

text \<open>\<^verbatim>\<open>sorted(defs, key=len, reverse=True)\<close>: longest first, equal lengths in the order of the
  dictionary.\<close>

definition by_length :: "define_map \<Rightarrow> define_map" where
  "by_length defs = sort_key (\<lambda>(nm, _). - int (length nm)) defs"

text \<open>The ValueError-like \<^verbatim>\<open>re.error\<close> of a bad template ends the substitution.\<close>

datatype pre_error = Bad_Template string | Recursion_Limit

fun sub_all :: "define_map \<Rightarrow> string \<Rightarrow> pre_error + string" where
  "sub_all [] seg = Inr seg"
| "sub_all ((nm, val) # ds) seg =
     (case expand_template nm val of
        None \<Rightarrow> Inl (Bad_Template nm)
      | Some v \<Rightarrow> sub_all ds (sub_word nm v None seg))"

text \<open>The segments between block comments, and the comments.\<close>

function split_block_comments :: "string \<Rightarrow> string \<Rightarrow> (string \<times> string) list \<times> string" where
  "split_block_comments seg [] = ([], rev seg)"
| "split_block_comments seg (c # cs) =
     (case m_comment_block (c # cs) of
        Some v \<Rightarrow>
          (let (parts, final) = split_block_comments [] (drop (length v - 1) cs)
           in ((rev seg, v) # parts, final))
      | None \<Rightarrow> split_block_comments (c # seg) cs)"
  by pat_completeness auto
termination by (relation "measure (\<lambda>(_, s). length s)") auto

fun sub_segments :: "define_map \<Rightarrow> (string \<times> string) list \<Rightarrow> pre_error + string" where
  "sub_segments defs [] = Inr []"
| "sub_segments defs ((seg, comment) # parts) =
     ebind (sub_all defs seg) (\<lambda>seg. ebind (sub_segments defs parts) (\<lambda>r. Inr (seg @ comment @ r)))"

definition apply_defines :: "define_map \<Rightarrow> string \<Rightarrow> pre_error + string" where
  "apply_defines defs text =
     (let (parts, final) = split_block_comments [] text; ds = by_length defs
      in ebind (sub_segments ds parts) (\<lambda>r. ebind (sub_all ds final) (\<lambda>seg. Inr (r @ seg))))"

section \<open>Directives\<close>

definition define_line :: "string \<Rightarrow> define_map \<times> string list \<Rightarrow> define_map \<times> string list" where
  "define_line stripped st =
     (case st of (defs, guards) \<Rightarrow>
        (case split_2 stripped of
           [_, nm, val] \<Rightarrow>
             (let val = py_strip (strip_comments (py_strip val));
                  val = py_strip (cut_at ''//'' val)
              in (AList.update nm val defs, List.insert nm guards))
         | [_, nm] \<Rightarrow> (AList.update nm ''1'' defs, List.insert nm guards)
         | _ \<Rightarrow> (defs, guards)))"

text \<open>\<^verbatim>\<open>re.match(r'#include\s+"([^"]+)"', stripped)\<close>\<close>

definition include_name :: "string \<Rightarrow> string option" where
  "include_name stripped =
     (let rest = drop 8 stripped
      in if rest \<noteq> [] \<and> is_space (hd rest) \<and> head_opt (lstrip rest) = Some dquote
         then
           (let body = tl (lstrip rest); name = takeWhile (\<lambda>c. c \<noteq> dquote) body
            in if name \<noteq> [] \<and> length name < length body then Some name else None)
         else None)"

text \<open>One line of the loop; \<open>inc\<close> preprocesses an included text.\<close>

definition pre_line ::
  "(string \<rightharpoonup> string) option \<Rightarrow> (string \<Rightarrow> define_map \<times> string list \<Rightarrow> pre_error + string \<times> define_map \<times> string list)
     \<Rightarrow> string \<Rightarrow> nat \<times> string list \<times> define_map \<times> string list \<Rightarrow> pre_error + nat \<times> string list \<times> define_map \<times> string list"
where
  "pre_line files inc raw st =
     (case st of (skip, out, defs, guards) \<Rightarrow>
        let stripped = py_strip raw
        in if starts_with stripped ''#ifndef'' \<or> starts_with stripped ''#ifdef'' then
             (let parts = py_split stripped; guard = (if length parts > 1 then parts ! 1 else [])
              in Inr (if starts_with stripped ''#ifndef'' \<and> guard \<in> set guards then skip + 1 else skip, out, defs, guards))
           else if starts_with stripped ''#endif'' then Inr (skip - 1, out, defs, guards)
           else if skip > 0 then Inr (skip, out, defs, guards)
           else if starts_with stripped ''#define'' then
             (case define_line stripped (defs, guards) of (defs, guards) \<Rightarrow> Inr (skip, out, defs, guards))
           else if starts_with stripped ''#include'' then
             (case (include_name stripped, files) of
                (Some name, Some fs) \<Rightarrow>
                  (case fs name of
                     None \<Rightarrow> Inr (skip, out, defs, guards)
                   | Some text \<Rightarrow>
                       ebind (inc text (defs, guards)) (\<lambda>(t, defs, guards). Inr (skip, out @ [t], defs, guards)))
              | _ \<Rightarrow> Inr (skip, out, defs, guards))
           else if starts_with stripped ''#'' then Inr (skip, out, defs, guards)
           else Inr (skip, out @ [raw], defs, guards))"

fun pre_lines ::
  "(string \<rightharpoonup> string) option \<Rightarrow> (string \<Rightarrow> define_map \<times> string list \<Rightarrow> pre_error + string \<times> define_map \<times> string list)
     \<Rightarrow> string list \<Rightarrow> nat \<times> string list \<times> define_map \<times> string list \<Rightarrow> pre_error + nat \<times> string list \<times> define_map \<times> string list"
where
  "pre_lines files inc [] st = Inr st"
| "pre_lines files inc (raw # lines) st = ebind (pre_line files inc raw st) (pre_lines files inc lines)"

primrec preprocess_with ::
  "nat \<Rightarrow> (string \<rightharpoonup> string) option \<Rightarrow> string \<Rightarrow> define_map \<times> string list \<Rightarrow> pre_error + string \<times> define_map \<times> string list"
where
  "preprocess_with 0 files source st = Inl Recursion_Limit"
| "preprocess_with (Suc depth) files source st =
     (case st of (defs, guards) \<Rightarrow>
        ebind (pre_lines files (preprocess_with depth files) (py_splitlines source) (0, [], defs, guards))
          (\<lambda>(_, out, defs, guards).
            ebind (apply_defines defs (py_join [newline] out)) (\<lambda>text. Inr (text, defs, guards))))"

definition preprocess :: "nat \<Rightarrow> (string \<rightharpoonup> string) option \<Rightarrow> string \<Rightarrow> pre_error + string" where
  "preprocess depth files source = ebind (preprocess_with depth files source ([], [])) (\<lambda>(text, _). Inr text)"

section \<open>The compiler\<close>

text \<open>\<^verbatim>\<open>CodeGen.compile\<close>: preprocessing, lexing, parsing, code generation.\<close>

definition compile_source ::
  "nat \<Rightarrow> (string \<rightharpoonup> string) option \<Rightarrow> string \<Rightarrow> pre_error + (compile_error + string)" where
  "compile_source depth files source = ebind (preprocess depth files source) (\<lambda>text. Inr (compile_text text))"

section \<open>Include guards\<close>

text \<open>A line that neither opens nor closes a conditional block.\<close>

definition plain_line :: "string \<Rightarrow> bool" where
  "plain_line raw \<longleftrightarrow> (\<forall>d \<in> {''#ifndef'', ''#ifdef'', ''#endif''}. \<not> starts_with (py_strip raw) d)"

lemma pre_lines_append: "pre_lines files inc (xs @ ys) st = ebind (pre_lines files inc xs st) (pre_lines files inc ys)"
  by (induction xs arbitrary: st) (simp_all add: ebind_def split: sum.split)

lemma pre_lines_skipped:
  "list_all plain_line body \<Longrightarrow> pre_lines files inc body (Suc n, out, defs, guards) = Inr (Suc n, out, defs, guards)"
  by (induction body) (simp_all add: pre_line_def plain_line_def Let_def)

lemma sub_all_nil: "list_all (\<lambda>(nm, v). expand_template nm v \<noteq> None) ds \<Longrightarrow> sub_all ds [] = Inr []"
  by (induction ds) auto

lemma by_length_set: "set (by_length defs) = set defs"
  by (simp add: by_length_def)

lemma apply_defines_nil:
  "list_all (\<lambda>(nm, v). expand_template nm v \<noteq> None) defs \<Longrightarrow> apply_defines defs [] = Inr []"
  using sub_all_nil [of "by_length defs"] by (simp add: apply_defines_def list_all_iff by_length_set)

text \<open>A header whose guard is already defined adds nothing and defines nothing.\<close>

lemma guarded_include:
  assumes "py_splitlines text = first # body @ [fin]"
    and "starts_with (py_strip first) ''#ifndef''" "py_split (py_strip first) = d # g # rest" "g \<in> set guards"
    and "starts_with (py_strip fin) ''#endif''" "list_all plain_line body"
    and "list_all (\<lambda>(nm, v). expand_template nm v \<noteq> None) defs"
  shows "preprocess_with (Suc depth) files text (defs, guards) = Inr ([], defs, guards)"
proof -
  have e: "\<not> starts_with (py_strip fin) ''#ifndef''" "\<not> starts_with (py_strip fin) ''#ifdef''"
    using assms(5) by (auto simp: starts_with_append)
  have "pre_lines files inc (first # body @ [fin]) (0, [], defs, guards) = Inr (0, [], defs, guards)" for inc
    using assms(2-6) e
    by (simp add: pre_lines_append pre_lines_skipped pre_line_def Let_def)
  then show ?thesis
    using apply_defines_nil [OF assms(7)] assms(1) by simp
qed

text \<open>With a conditional directive inside it does not hold: the directive opens nothing while lines are
  skipped, its \<^verbatim>\<open>#endif\<close> ends the skip, and the lines behind it are emitted once more.\<close>

lemma nested_guard:
  "preprocess_with 1 None (py_join [newline] [''#ifndef H'', ''#ifdef X'', ''#endif'', ''int x;'', ''#endif'']) ([(''H'', ''1'')], [''H'']) =
     Inr (''int x;'', [(''H'', ''1'')], [''H''])"
  by code_simp

end
