(* ===== verification/ISA_Spec.thy ===== *)
theory ISA_Spec
  imports Simulator
begin

unbundle bit_operations_syntax

text \<open>
  Instructions one at a time: registers, memory and program counter, with the word operations of
  theory \<open>ALU\<close>, for the instructions without system effects (arithmetic, loads, stores, branches,
  jumps, calls and returns); \<open>HLT\<close> stands still.  There are two readings.  \<open>isa_step\<close> executes each
  instruction as the units of the simulator compute it and is what the pipeline is shown to overlap;
  \<open>spec_step\<close> executes it as the manual, \<^verbatim>\<open>docs/isa_spec.md\<close>, describes it.  \<open>agreed\<close> is the
  condition under which the two readings of the next instruction are the same.  The memory is an
  array of words indexed by the address (\<^verbatim>\<open>README.md:81\<close>, word-addressed; \<^verbatim>\<open>isa_spec.md:11\<close> says
  byte-addressable, and no part of the simulator is).  Both are specifications and model no code.
\<close>

section \<open>State\<close>

record arch =
  ar_pc :: int
  ar_regs :: "int list"
  ar_mem :: "int list"

type_synonym reg_mem = "int list \<times> int list"

definition reg_read :: "int list \<Rightarrow> int \<Rightarrow> int" where
  "reg_read rs i = rs ! nat i"

definition reg_write :: "int \<Rightarrow> int \<Rightarrow> int list \<Rightarrow> int list" where
  "reg_write i v rs = (if i = 0 then rs else rs[nat i := take_bit 32 v])"

definition word_op :: "opcode \<Rightarrow> int \<Rightarrow> int \<Rightarrow> int" where
  "word_op opc a b = uint (alu_word opc (word_of_int a) (word_of_int b))"

text \<open>Addresses wrap at the size of the memory, a power of two in words.\<close>

definition mem_wrap :: "int list \<Rightarrow> int \<Rightarrow> int" where
  "mem_wrap m a = a AND (int (length m) - 1)"

definition access_size :: "opcode \<Rightarrow> int" where
  "access_size opc = (if opc \<in> {Op_LB, Op_LBU, Op_SB} then 0 else if opc \<in> {Op_LH, Op_LHU, Op_SH} then 1 else 2)"

definition load_signed :: "opcode \<Rightarrow> bool" where
  "load_signed opc = (opc \<notin> {Op_LBU, Op_LHU})"

definition load_value :: "opcode \<Rightarrow> int list \<Rightarrow> int \<Rightarrow> int" where
  "load_value opc m va = load_data (m ! nat (mem_wrap m va)) (access_size opc) (load_signed opc) va"

definition store_value :: "opcode \<Rightarrow> int list \<Rightarrow> int \<Rightarrow> int \<Rightarrow> int list" where
  "store_value opc m va v =
     m[nat (mem_wrap m va) := store_data (m ! nat (mem_wrap m va)) (access_size opc) va v]"

definition branch_taken :: "opcode \<Rightarrow> int \<Rightarrow> int \<Rightarrow> bool" where
  "branch_taken opc a b =
     (let x = word_of_int a :: 32 word; y = word_of_int b
      in case opc of
           Op_BEQ \<Rightarrow> x = y
         | Op_BNE \<Rightarrow> x \<noteq> y
         | Op_BLT \<Rightarrow> sint x < sint y
         | Op_BGE \<Rightarrow> sint y \<le> sint x
         | Op_BLTU \<Rightarrow> x < y
         | Op_BGEU \<Rightarrow> y \<le> x
         | _ \<Rightarrow> False)"

section \<open>The effect of an instruction\<close>

text \<open>Registers and memory after the instruction at \<open>pc\<close>, and where it jumps to, if it does.\<close>

fun isa_effect :: "decoded \<Rightarrow> int \<Rightarrow> reg_mem \<Rightarrow> reg_mem \<times> int option" where
  "isa_effect (D_Invalid raw w) pc (rs, m) = ((rs, m), None)"
| "isa_effect (D_R opc rd rs1 rs2 sh) pc (rs, m) =
     (let b = (if opc \<in> {Op_SHLI, Op_SHRI, Op_SHRAI} then sh else reg_read rs rs2)
      in ((reg_write rd (word_op opc (reg_read rs rs1) b) rs, m), None))"
| "isa_effect (D_I opc rd rs1 imm) pc (rs, m) =
     (if opc \<in> set LOADS then
        ((reg_write rd (load_value opc m (take_bit 32 (reg_read rs rs1 + imm))) rs, m), None)
      else if opc = Op_JMPR then ((rs, m), Some (mem_wrap m (reg_read rs rs1 + imm)))
      else if opc = Op_CALLR then ((reg_write 31 (pc + 1) rs, m), Some (mem_wrap m (reg_read rs rs1)))
      else ((reg_write rd (word_op opc (reg_read rs rs1) imm) rs, m), None))"
| "isa_effect (D_S opc rs2 rs1 off) pc (rs, m) =
     ((rs, store_value opc m (take_bit 32 (reg_read rs rs1 + off)) (reg_read rs rs2)), None)"
| "isa_effect (D_B opc rs1 rs2 off) pc (rs, m) =
     ((rs, m), if branch_taken opc (reg_read rs rs1) (reg_read rs rs2) then Some (mem_wrap m (pc + off)) else None)"
| "isa_effect (D_J opc addr) pc (rs, m) =
     (if opc = Op_JMP then ((rs, m), Some (mem_wrap m addr))
      else if opc = Op_CALL then ((reg_write 31 (pc + 1) rs, m), Some (mem_wrap m addr))
      else if opc = Op_RET then ((rs, m), Some (mem_wrap m (reg_read rs 31)))
      else if opc = Op_HLT then ((rs, m), Some pc)
      else ((rs, m), None))"
| "isa_effect (D_U opc rd imm) pc (rs, m) = ((reg_write rd (word_op Op_MOVHI 0 imm) rs, m), None)"

text \<open>One step; the machine stands still where the program counter has left the memory.\<close>

definition isa_step :: "arch \<Rightarrow> arch" where
  "isa_step A =
     (if 0 \<le> ar_pc A \<and> ar_pc A < int (length (ar_mem A)) then
        (case isa_effect (decode (ar_mem A ! nat (ar_pc A))) (ar_pc A) (ar_regs A, ar_mem A) of
           ((rs, m), t) \<Rightarrow>
             \<lparr>ar_pc = (case t of Some a \<Rightarrow> a | None \<Rightarrow> ar_pc A + 1), ar_regs = rs, ar_mem = m\<rparr>)
      else A)"

section \<open>The manual\<close>

text \<open>
  Where \<^verbatim>\<open>docs/isa_spec.md\<close> says something else than the simulator does: the immediates of
  \<open>ANDI\<close>, \<open>ORI\<close>, \<open>XORI\<close>, \<open>LHU\<close> and \<open>LBU\<close> are extended with zeros (line 58), \<open>JMPR\<close> has no offset
  (line 153), and a load or store of a byte or halfword accesses the low bits of the word
  (lines 122 to 133), where the simulator selects a lane with the low bits of the address.
\<close>

definition manual_imm :: "opcode \<Rightarrow> int \<Rightarrow> int" where
  "manual_imm opc imm = (if opc \<in> {Op_ANDI, Op_ORI, Op_XORI, Op_LHU, Op_LBU} then take_bit 16 imm else imm)"

definition access_bits :: "opcode \<Rightarrow> nat" where
  "access_bits opc = (if opc \<in> {Op_LB, Op_LBU, Op_SB} then 8 else if opc \<in> {Op_LH, Op_LHU, Op_SH} then 16 else 32)"

definition manual_load :: "opcode \<Rightarrow> int \<Rightarrow> int" where
  "manual_load opc w =
     take_bit 32 (if load_signed opc then signed_take_bit (access_bits opc - 1) w else take_bit (access_bits opc) w)"

definition manual_store :: "opcode \<Rightarrow> int \<Rightarrow> int \<Rightarrow> int" where
  "manual_store opc w v =
     (if access_bits opc = 32 then v else take_bit 32 (concat_bit (access_bits opc) v (drop_bit (access_bits opc) w)))"

fun spec_effect :: "decoded \<Rightarrow> int \<Rightarrow> reg_mem \<Rightarrow> reg_mem \<times> int option" where
  "spec_effect (D_I opc rd rs1 imm) pc (rs, m) =
     (let a = take_bit 32 (reg_read rs rs1 + manual_imm opc imm)
      in if opc \<in> set LOADS then ((reg_write rd (manual_load opc (m ! nat (mem_wrap m a))) rs, m), None)
         else if opc = Op_JMPR then ((rs, m), Some (mem_wrap m (reg_read rs rs1)))
         else if opc = Op_CALLR then ((reg_write 31 (pc + 1) rs, m), Some (mem_wrap m (reg_read rs rs1)))
         else ((reg_write rd (word_op opc (reg_read rs rs1) (manual_imm opc imm)) rs, m), None))"
| "spec_effect (D_S opc rs2 rs1 off) pc (rs, m) =
     (let i = nat (mem_wrap m (take_bit 32 (reg_read rs rs1 + off)))
      in ((rs, m[i := manual_store opc (m ! i) (reg_read rs rs2)]), None))"
| "spec_effect d pc rm = isa_effect d pc rm"

definition spec_step :: "arch \<Rightarrow> arch" where
  "spec_step A =
     (if 0 \<le> ar_pc A \<and> ar_pc A < int (length (ar_mem A)) then
        (case spec_effect (decode (ar_mem A ! nat (ar_pc A))) (ar_pc A) (ar_regs A, ar_mem A) of
           ((rs, m), t) \<Rightarrow>
             \<lparr>ar_pc = (case t of Some a \<Rightarrow> a | None \<Rightarrow> ar_pc A + 1), ar_regs = rs, ar_mem = m\<rparr>)
      else A)"

text \<open>
  The two readings agree on the next instruction: its zero-extended immediate is not negative, its
  jump has no offset, its bytes and halfwords are at the lowest lane.  A division by zero, for which
  the manual lists an exception (line 201) and the simulator raises none, is left out as well.
\<close>

definition low_lane :: "opcode \<Rightarrow> int \<Rightarrow> bool" where
  "low_lane opc a = (a AND (if access_bits opc = 8 then 3 else if access_bits opc = 16 then 2 else 0) = 0)"

definition agreed :: "arch \<Rightarrow> bool" where
  "agreed A =
     (case decode (ar_mem A ! nat (ar_pc A)) of
        D_R opc rd rs1 rs2 sh \<Rightarrow> opc \<in> {Op_DIV, Op_DIVU, Op_REM} \<longrightarrow> reg_read (ar_regs A) rs2 \<noteq> 0
      | D_I opc rd rs1 imm \<Rightarrow>
          manual_imm opc imm = imm \<and> (opc = Op_JMPR \<longrightarrow> imm = 0)
          \<and> (opc \<in> set LOADS \<longrightarrow> low_lane opc (take_bit 32 (reg_read (ar_regs A) rs1 + imm)))
      | D_S opc rs2 rs1 off \<Rightarrow> low_lane opc (take_bit 32 (reg_read (ar_regs A) rs1 + off))
      | _ \<Rightarrow> True)"

text \<open>The instructions covered; a shift by a constant has its unused register field zero, as the
  assembler leaves it.\<close>

definition core_instr :: "int \<Rightarrow> bool" where
  "core_instr w \<longleftrightarrow>
     (case decode w of
        D_R opc rd rs1 rs2 sh \<Rightarrow> opc \<in> set R_ALU \<and> (opc \<in> {Op_SHLI, Op_SHRI, Op_SHRAI} \<longrightarrow> rs2 = 0)
      | D_I opc rd rs1 imm \<Rightarrow> opc \<in> set I_ALU \<or> opc \<in> set LOADS \<or> opc \<in> {Op_JMPR, Op_CALLR}
      | D_S opc rs2 rs1 off \<Rightarrow> True
      | D_B opc rs1 rs2 off \<Rightarrow> True
      | D_J opc addr \<Rightarrow> opc \<in> {Op_NOP, Op_FENCE, Op_JMP, Op_CALL, Op_RET, Op_HLT}
      | D_U opc rd imm \<Rightarrow> True
      | D_Invalid raw w \<Rightarrow> False)"

section \<open>Shape\<close>

definition regs_wf :: "int list \<Rightarrow> bool" where
  "regs_wf rs \<longleftrightarrow> length rs = 32 \<and> list_all u32 rs \<and> rs ! 0 = 0"

lemma reg_write_wf: "regs_wf rs \<Longrightarrow> reg_index i \<Longrightarrow> regs_wf (reg_write i v rs)"
  by (auto simp: regs_wf_def reg_write_def reg_index_def nth_list_update u32_bits
      intro!: list_all_update)

lemma reg_read_write:
  "regs_wf rs \<Longrightarrow> reg_index i \<Longrightarrow> reg_index j \<Longrightarrow>
     reg_read (reg_write i v rs) j = (if i = j \<and> i \<noteq> 0 then take_bit 32 v else reg_read rs j)"
  by (auto simp: regs_wf_def reg_read_def reg_write_def reg_index_def nth_list_update)

lemma reg_read_zero [simp]: "regs_wf rs \<Longrightarrow> reg_read rs 0 = 0"
  by (simp add: regs_wf_def reg_read_def)

lemma reg_read_u32: "regs_wf rs \<Longrightarrow> reg_index i \<Longrightarrow> u32 (reg_read rs i)"
  by (auto simp: regs_wf_def reg_read_def reg_index_def list_all_length)

lemma rf_wf_regs: "rf_wf rf = regs_wf (rf_regs rf)"
  by (simp add: rf_wf_def regs_wf_def)

lemma rf_regs_set [simp]: "rf_regs (rf_set rf i v) = reg_write i v (rf_regs rf)"
  by (simp add: rf_set_def reg_write_def isa_consts mask_bits)

lemma rf_get_regs: "rf_get rf i = reg_read (rf_regs rf) i"
  by (simp add: rf_get_def reg_read_def)

lemma store_value_length [simp]: "length (store_value opc m va v) = length m"
  by (simp add: store_value_def)

lemma isa_effect_length: "length (snd (fst (isa_effect d pc (rs, m)))) = length m"
  by (cases d) auto

text \<open>The code's integers against the words.\<close>

lemma word_op_alu: "ar_value (alu_execute opc a b) = word_op opc a b"
proof -
  have "uint (word_of_int x :: 32 word) AND WORD_MASK = x AND WORD_MASK" for x
    by (simp add: uint_word_of_int_eq isa_consts mask_bits)
  then have "alu_execute opc a b = alu_execute opc (uint (word_of_int a :: 32 word)) (uint (word_of_int b :: 32 word))"
    by (simp only: alu_execute_def)
  then show ?thesis
    by (simp add: alu_execute_word word_op_def)
qed

lemma uint_of_u32: "u32 a \<Longrightarrow> uint (word_of_int a :: 32 word) = a"
  by (simp add: u32_def uint_word_of_int_eq take_bit_int_eq_self)

lemma signed_word: "u32 a \<Longrightarrow> (if a < shl 1 31 then a else a - shl 1 32) = sint (word_of_int a :: 32 word)"
  using to_signed_uint [of "word_of_int a :: 32 word"] to_signed_u32 [of a]
  by (simp only: uint_of_u32) (simp add: push_bit_eq_mult split: if_splits)

lemma eval_branch_word:
  assumes "u32 a" "u32 b"
  shows "eval_branch opc a b = branch_taken opc a b"
proof -
  have e: "(word_of_int a :: 32 word) = word_of_int b \<longleftrightarrow> a = b"
    using assms uint_of_u32 by metis
  have l: "(word_of_int a :: 32 word) < word_of_int b \<longleftrightarrow> a < b" "(word_of_int b :: 32 word) \<le> word_of_int a \<longleftrightarrow> b \<le> a"
    using assms by (simp_all add: word_less_def word_le_def uint_of_u32)
  show ?thesis
    unfolding eval_branch_def branch_taken_def Let_def
    by (cases opc) (simp_all only: opcode.case e l signed_word [OF assms(1)] signed_word [OF assms(2)])
qed

lemma isa_effect_regs_wf:
  assumes "regs_wf rs"
  shows "regs_wf (fst (fst (isa_effect (decode w) pc (rs, m))))"
  using assms decode_ok [of w]
  by (cases "decode w") (auto intro!: reg_write_wf simp: reg_index_def)

section \<open>The readings compared\<close>

lemma low_masks: "(x :: int) AND 0xFF = take_bit 8 x" "x AND 0xFFFF = take_bit 16 x" "x AND 0xFFFFFFFF = take_bit 32 x"
  by (simp_all add: take_bit_eq_mask mask_eq_exp_minus_1)

lemma sign_extend_bits:
  "take_bit 32 (if take_bit 8 w AND 0x80 \<noteq> 0 then take_bit 8 w OR 0xFFFFFF00 else take_bit 8 w) = take_bit 32 (signed_take_bit 7 (w :: int))"
  "take_bit 32 (if take_bit 16 w AND 0x8000 \<noteq> 0 then take_bit 16 w OR 0xFFFF0000 else take_bit 16 w) = take_bit 32 (signed_take_bit 15 (w :: int))"
proof -
  have c: "(0x80 :: int) = 2 ^ 7" "(0x8000 :: int) = 2 ^ 15" "(0xFFFFFF00 :: int) = push_bit 8 (mask 24)" "(0xFFFF0000 :: int) = push_bit 16 (mask 16)"
    by (simp_all add: push_bit_eq_mult mask_eq_exp_minus_1)
  show "take_bit 32 (if take_bit 8 w AND 0x80 \<noteq> 0 then take_bit 8 w OR 0xFFFFFF00 else take_bit 8 w) = take_bit 32 (signed_take_bit 7 w)"
    unfolding c and_exp_eq_0_iff_not_bit by (rule bit_eqI, rename_tac n, case_tac "n = 7") (auto simp: bit_simps min_def)
  show "take_bit 32 (if take_bit 16 w AND 0x8000 \<noteq> 0 then take_bit 16 w OR 0xFFFF0000 else take_bit 16 w) = take_bit 32 (signed_take_bit 15 w)"
    unfolding c and_exp_eq_0_iff_not_bit by (rule bit_eqI, rename_tac n, case_tac "n = 15") (auto simp: bit_simps min_def)
qed

lemma manual_load_lane:
  assumes "opc \<in> set LOADS" "low_lane opc a"
  shows "load_data w (access_size opc) (load_signed opc) a = manual_load opc w"
  using assms sign_extend_bits [of w]
  by (auto simp: LOADS_def low_lane_def load_data_def manual_load_def access_size_def access_bits_def load_signed_def
      Let_def low_masks isa_consts take_bit_signed_take_bit)

lemma splice_bits:
  "(w AND (NOT 0xFF AND 0xFFFFFFFF)) OR take_bit 8 v = take_bit 32 (concat_bit 8 v (drop_bit 8 w))"
  "(w AND (NOT 0xFFFF AND 0xFFFFFFFF)) OR take_bit 16 v = take_bit 32 (concat_bit 16 v (drop_bit 16 (w :: int)))"
proof -
  have c: "(0xFF :: int) = mask 8" "(0xFFFF :: int) = mask 16" "(0xFFFFFFFF :: int) = mask 32"
    by (simp_all add: mask_eq_exp_minus_1)
  show "(w AND (NOT 0xFF AND 0xFFFFFFFF)) OR take_bit 8 v = take_bit 32 (concat_bit 8 v (drop_bit 8 w))"
    unfolding c by (rule bit_eqI) (auto simp: bit_simps)
  show "(w AND (NOT 0xFFFF AND 0xFFFFFFFF)) OR take_bit 16 v = take_bit 32 (concat_bit 16 v (drop_bit 16 w))"
    unfolding c by (rule bit_eqI) (auto simp: bit_simps)
qed

lemma manual_store_lane:
  assumes "OPCODE_FMT opc = Fmt_S" "low_lane opc a"
  shows "store_data w (access_size opc) a v = manual_store opc w v"
  using assms splice_bits [of w v]
  by (cases opc) (auto simp: low_lane_def store_data_def manual_store_def access_size_def access_bits_def Let_def
      low_masks isa_consts)

lemma spec_step_agreed:
  assumes "agreed A"
  shows "spec_step A = isa_step A"
proof -
  have "spec_effect d p (ar_regs A, ar_mem A) = isa_effect d p (ar_regs A, ar_mem A)"
    if "d = decode (ar_mem A ! nat (ar_pc A))" for d p
    using assms decode_ok [of "ar_mem A ! nat (ar_pc A)"] unfolding that [symmetric]
    by (cases d) (auto simp: agreed_def Let_def that [symmetric] load_value_def store_value_def manual_load_lane manual_store_lane)
  then show ?thesis by (simp add: spec_step_def isa_step_def)
qed

lemma spec_run_agreed:
  "\<forall>i<n. agreed ((spec_step ^^ i) A) \<Longrightarrow> (spec_step ^^ n) A = (isa_step ^^ n) A"
proof (induction n)
  case (Suc n)
  from Suc.prems have "agreed ((spec_step ^^ n) A)" by blast
  with Suc show ?case by (simp add: spec_step_agreed)
qed simp

end
