(* ===== verification/Pipeline_Stages.thy ===== *)
theory Pipeline_Stages
  imports ISA_Spec Sim_Reachable
begin

unbundle bit_operations_syntax

text \<open>
  What each stage of the simulator does to the architectural state when translation is off and
  nothing with a system effect is in flight: the registers after write back, the memory and the
  MEM/WB latch after the memory stage, the EX/MEM latch after execution, the ID/EX latch after
  decode and the fetched word.  Theory \<open>Pipeline_Refinement\<close> composes these facts into the
  refinement of \<^const>\<open>isa_step\<close>.
\<close>

section \<open>The effects still in the latches\<close>

text \<open>Registers once the instruction in MEM/WB has retired, registers and memory once the
  instruction in EX/MEM has.\<close>

definition wb_effect :: "memwb_reg \<Rightarrow> int list \<Rightarrow> int list" where
  "wb_effect m rs = (if wb_valid m \<and> c_reg_write (wb_ctrl m) then reg_write (wb_rd m) (pick_wb m) rs else rs)"

definition mem_effect :: "exmem_reg \<Rightarrow> reg_mem \<Rightarrow> reg_mem" where
  "mem_effect e rm =
     (case rm of (rs, m) \<Rightarrow>
        let a = nat (mem_wrap m (ex_mem_addr e)); c = ex_ctrl e
        in if \<not> ex_valid e then (rs, m)
           else if c_mem_read c then
             (reg_write (ex_rd e) (load_data (m ! a) (c_mem_size c) (c_mem_signed c) (ex_mem_addr e)) rs, m)
           else if c_mem_write c then
             (rs, m[a := store_data (m ! a) (c_mem_size c) (ex_mem_addr e) (ex_rs2_val e AND WORD_MASK)])
           else if c_reg_write c then (reg_write (ex_rd e) (ex_alu_result e) rs, m)
           else (rs, m))"

definition pending :: "exmem_reg \<Rightarrow> bool" where
  "pending e \<longleftrightarrow> ex_valid e \<and> ex_take_jump e"

definition mmu_off :: "sim \<Rightarrow> bool" where
  "mmu_off s \<longleftrightarrow> csr s CSR_STATUS AND STATUS_KU = 0"

lemma mmu_off_translate: "mmu_off s \<Longrightarrow> translate_addr va w x p s = (Some va, s)"
  by (simp add: translate_addr_def mmu_active_def mmu_off_def)

lemma csr_same: "sm_csrs s = sm_csrs s' \<Longrightarrow> mmu_off s = mmu_off s'"
  by (simp add: mmu_off_def csr_def)

lemma mmu_off_update [simp]:
  "mmu_off (s\<lparr>sm_memwb := w\<rparr>) = mmu_off s" "mmu_off (s\<lparr>sm_exmem := e\<rparr>) = mmu_off s"
  "mmu_off (s\<lparr>sm_ifid := i\<rparr>) = mmu_off s" "mmu_off (s\<lparr>sm_pc := p\<rparr>) = mmu_off s"
  by (simp_all add: mmu_off_def csr_def)

lemma wrap_addr_mem: "wrap_addr s a = mem_wrap (sm_mem s) a"
  by (simp add: wrap_addr_def mem_wrap_def)

lemma mem_wrap_length: "length m = length m' \<Longrightarrow> mem_wrap m a = mem_wrap m' a"
  by (simp add: mem_wrap_def)

lemma mem_wrap_idem [simp]: "mem_wrap m (mem_wrap m a) = mem_wrap m a"
  by (simp add: mem_wrap_def and.assoc)

lemma mem_effect_length [simp]: "length (snd (mem_effect e (rs, m))) = length m"
  by (simp add: mem_effect_def Let_def)

lemma mem_effect_mem: "snd (mem_effect e (rs, m)) = snd (mem_effect e (rs', m))"
  by (simp add: mem_effect_def Let_def)

section \<open>Write back\<close>

lemma wb_stage:
  assumes "\<not> (wb_valid (sm_memwb s) \<and> c_halt (wb_ctrl (sm_memwb s)))"
  obtains rf st where "stage_wb s = s\<lparr>sm_rf := rf, sm_stats := st\<rparr>"
    and "rf_regs rf = wb_effect (sm_memwb s) (rf_regs (sm_rf s))"
proof (cases "wb_valid (sm_memwb s) \<and> c_reg_write (wb_ctrl (sm_memwb s)) \<and> wb_rd (sm_memwb s) \<noteq> 0")
  case True
  then show ?thesis
    using assms by (intro that) (auto simp: stage_wb_def Let_def set_reg_def wb_effect_def pick_wb_def isa_consts)
next
  case False
  then have "stage_wb s = s\<lparr>sm_rf := sm_rf s, sm_stats := sm_stats s\<rparr>"
    "rf_regs (sm_rf s) = wb_effect (sm_memwb s) (rf_regs (sm_rf s))"
    using assms by (auto simp: stage_wb_def Let_def wb_effect_def isa_consts reg_write_def)
  then show ?thesis by (rule that)
qed

section \<open>Memory\<close>

definition memwb_of :: "exmem_reg \<Rightarrow> int list \<Rightarrow> memwb_reg" where
  "memwb_of e m =
     \<lparr>wb_ctrl = ex_ctrl e, wb_alu_result = ex_alu_result e,
      wb_mem_data = (if ex_valid e \<and> c_mem_read (ex_ctrl e)
        then load_data (m ! nat (mem_wrap m (ex_mem_addr e))) (c_mem_size (ex_ctrl e)) (c_mem_signed (ex_ctrl e)) (ex_mem_addr e)
        else 0),
      wb_rd = ex_rd e, wb_valid = ex_valid e\<rparr>"

text \<open>The fields of the state that do not touch the architecture.\<close>

definition same_but_books :: "sim \<Rightarrow> sim \<Rightarrow> bool" where
  "same_but_books s t \<longleftrightarrow>
     t\<lparr>sm_dcache := sm_dcache s, sm_icache := sm_icache s, sm_stats := sm_stats s, sm_log := sm_log s\<rparr> = s"

lemma books_refl [simp]: "same_but_books s s"
  by (simp add: same_but_books_def)

lemma books_trans: "same_but_books s t \<Longrightarrow> same_but_books t u \<Longrightarrow> same_but_books s u"
  unfolding same_but_books_def by (cases s; cases t; cases u) auto

lemma books_update [simp]:
  "same_but_books s (t\<lparr>sm_stats := x\<rparr>) = same_but_books s t"
  "same_but_books s (t\<lparr>sm_dcache := c\<rparr>) = same_but_books s t"
  "same_but_books s (t\<lparr>sm_icache := c\<rparr>) = same_but_books s t"
  "same_but_books s (log_add e t) = same_but_books s t"
  by (simp_all add: same_but_books_def log_add_def)

lemma booksD:
  assumes "same_but_books s t"
  shows "sm_mem t = sm_mem s" "sm_rf t = sm_rf s" "sm_csrs t = sm_csrs s" "sm_pc t = sm_pc s"
    "sm_halted t = sm_halted s" "sm_fetch_stopped t = sm_fetch_stopped s" "sm_exec_stall t = sm_exec_stall s"
    "sm_ifid t = sm_ifid s" "sm_idex t = sm_idex s" "sm_exmem t = sm_exmem s" "sm_memwb t = sm_memwb s"
  using assms unfolding same_but_books_def by (cases s; cases t; simp)+

lemma mem_jump_books: "same_but_books s (snd (mem_jump e t)) = same_but_books s t"
  by (simp add: mem_jump_def)

lemma mem_jump_fst: "fst (mem_jump e s) = (ex_take_jump e, if ex_take_jump e then ex_jump_pc e else 0)"
  by (simp add: mem_jump_def)

lemma mem_stage:
  assumes off: "mmu_off s"
  shows "fst (stage_mem s) = (pending (sm_exmem s), if pending (sm_exmem s) then ex_jump_pc (sm_exmem s) else 0)"
    and "same_but_books (s\<lparr>sm_memwb := memwb_of (sm_exmem s) (sm_mem s),
           sm_mem := snd (mem_effect (sm_exmem s) (rs, sm_mem s))\<rparr>) (snd (stage_mem s))"
proof -
  let ?e = "sm_exmem s"
  let ?c = "ex_ctrl ?e"
  let ?t = "s\<lparr>sm_memwb := memwb_of ?e (sm_mem s), sm_mem := snd (mem_effect ?e (rs, sm_mem s))\<rparr>"
  consider "\<not> ex_valid ?e" | "ex_valid ?e" "c_mem_read ?c"
    | "ex_valid ?e" "\<not> c_mem_read ?c" "c_mem_write ?c" | "ex_valid ?e" "\<not> c_mem_read ?c" "\<not> c_mem_write ?c"
    by blast
  then have r: "fst (stage_mem s) = (pending ?e, if pending ?e then ex_jump_pc ?e else 0) \<and> same_but_books ?t (snd (stage_mem s))"
  proof cases
    case 1
    then show ?thesis
      by (simp add: stage_mem_def Let_def pending_def memwb_of_def mem_effect_def)
  next
    case 2
    then show ?thesis
      using off
      by (simp add: stage_mem_def mem_load_def Let_def mmu_off_translate pending_def mem_jump_fst
          memwb_of_def mem_effect_def wrap_addr_mem mem_jump_books)
        (simp add: same_but_books_def)
  next
    case 3
    then show ?thesis
      using off
      by (simp add: stage_mem_def mem_store_def Let_def mmu_off_translate pending_def mem_jump_fst
          memwb_of_def mem_effect_def wrap_addr_mem mem_jump_books)
        (simp add: same_but_books_def)
  next
    case 4
    then show ?thesis
      by (simp add: stage_mem_def Let_def pending_def mem_jump_fst memwb_of_def mem_effect_def mem_jump_books)
  qed
  from r show "fst (stage_mem s) = (pending ?e, if pending ?e then ex_jump_pc ?e else 0)" by (rule conjunct1)
  from r show "same_but_books ?t (snd (stage_mem s))" by (rule conjunct2)
qed

text \<open>Retiring the new MEM/WB latch is the effect of the instruction on the registers.\<close>

lemma wb_effect_of:
  assumes "ctrl_ok (ex_ctrl e)"
  shows "wb_effect (memwb_of e m) rs = fst (mem_effect e (rs, m))"
proof -
  have c: "c_mem_read (ex_ctrl e) \<Longrightarrow> c_reg_write (ex_ctrl e)" "c_mem_write (ex_ctrl e) \<Longrightarrow> \<not> c_reg_write (ex_ctrl e)"
    using assms by (simp_all only: ctrl_ok_def) blast+
  show ?thesis
  proof (cases "ex_valid e \<and> c_reg_write (ex_ctrl e)")
    case True
    with c have "\<not> c_mem_write (ex_ctrl e)" by blast
    with True show ?thesis
      by (simp add: wb_effect_def memwb_of_def mem_effect_def pick_wb_def Let_def)
  next
    case False
    with c have "\<not> (ex_valid e \<and> c_mem_read (ex_ctrl e))" by blast
    with False show ?thesis
      by (simp add: wb_effect_def memwb_of_def mem_effect_def Let_def)
  qed
qed

end
