(* ===== verification/Pipeline_Exec.thy ===== *)
theory Pipeline_Exec
  imports Pipeline_Stages
begin

unbundle bit_operations_syntax

text \<open>
  The execute stage against the architecture: for every instruction of \<^const>\<open>core_instr\<close>, the
  EX/MEM latch the stage writes carries exactly the effect the instruction has on the state in
  which the older instructions have retired.
\<close>

section \<open>The instruction in a latch\<close>

definition idex_instr :: "idex_reg \<Rightarrow> decoded" where
  "idex_instr r =
     (case id_fmt r of
        Fmt_R \<Rightarrow> D_R (id_opcode r) (id_rd r) (id_rs1 r) (id_rs2 r) (id_shamt r)
      | Fmt_I \<Rightarrow> D_I (id_opcode r) (id_rd r) (id_rs1 r) (id_offset r)
      | Fmt_S \<Rightarrow> D_S (id_opcode r) (id_rs2 r) (id_rs1 r) (id_offset r)
      | Fmt_B \<Rightarrow> D_B (id_opcode r) (id_rs1 r) (id_rs2 r) (id_offset r)
      | Fmt_J \<Rightarrow> D_J (id_opcode r) (id_addr r)
      | Fmt_U \<Rightarrow> D_U (id_opcode r) (id_rd r) (id_offset r))"

definition latched :: "regfile \<Rightarrow> int \<Rightarrow> idex_reg \<Rightarrow> bool" where
  "latched rf w r \<longleftrightarrow> core_instr w \<and> (\<exists>p x. r = id_decode rf (decode w) (cu_decode w) p x)"

lemma latched_fields:
  assumes "latched rf w r"
  shows "idex_instr r = decode w" "id_valid r" "d_opcode (decode w) = Some (id_opcode r)" "id_ctrl r = cu_decode w"
  using assms decode_ok [of w]
  by (cases "decode w"; auto simp: latched_def core_instr_def idex_instr_def id_base_def)+

section \<open>Control signals by class\<close>

lemma cu_R: "opc \<in> set R_ALU \<Longrightarrow> cu_signals opc = ControlSignals\<lparr>c_reg_write := True\<rparr>"
  by (simp add: cu_signals_def Let_def)

lemma cu_I: "opc \<in> set I_ALU \<Longrightarrow> cu_signals opc = ControlSignals\<lparr>c_reg_write := True, c_alu_src := True\<rparr>"
  by (auto simp: cu_signals_def Let_def opcode_classes)

lemma cu_load:
  "opc \<in> set LOADS \<Longrightarrow> cu_signals opc =
     ControlSignals\<lparr>c_mem_read := True, c_reg_write := True, c_alu_src := True,
       c_mem_size := access_size opc, c_mem_signed := load_signed opc\<rparr>"
  by (auto simp: cu_signals_def Let_def opcode_classes access_size_def load_signed_def ControlSignals_def)

lemma cu_store:
  "OPCODE_FMT opc = Fmt_S \<Longrightarrow> cu_signals opc =
     ControlSignals\<lparr>c_mem_write := True, c_alu_src := True, c_mem_size := access_size opc\<rparr>"
  by (cases opc) (simp_all add: cu_signals_def Let_def opcode_classes access_size_def)

lemma cu_branch: "OPCODE_FMT opc = Fmt_B \<Longrightarrow> cu_signals opc = ControlSignals\<lparr>c_branch := True\<rparr>"
  by (cases opc) (simp_all add: cu_signals_def Let_def opcode_classes)

lemma cu_jumps:
  "cu_signals Op_JMPR = ControlSignals\<lparr>c_jump := True, c_alu_src := True\<rparr>"
  "cu_signals Op_CALLR = ControlSignals\<lparr>c_jump := True, c_call := True, c_reg_write := True\<rparr>"
  "cu_signals Op_JMP = ControlSignals\<lparr>c_jump := True\<rparr>"
  "cu_signals Op_CALL = ControlSignals\<lparr>c_jump := True, c_call := True, c_reg_write := True\<rparr>"
  "cu_signals Op_RET = ControlSignals\<lparr>c_ret := True, c_jump := True\<rparr>"
  "cu_signals Op_HLT = ControlSignals\<lparr>c_halt := True\<rparr>"
  "cu_signals Op_NOP = ctrl_nop" "cu_signals Op_FENCE = ctrl_nop"
  "cu_signals Op_MOVHI = ControlSignals\<lparr>c_reg_write := True, c_alu_src := True\<rparr>"
  by (simp_all add: cu_signals_def Let_def opcode_classes ctrl_nop_def ControlSignals_def)

lemma fmt_U: "OPCODE_FMT opc = Fmt_U \<longleftrightarrow> opc = Op_MOVHI"
  by (cases opc) simp_all

lemma cu_decode_core:
  "w \<noteq> 0 \<Longrightarrow> d_opcode (decode w) = Some opc \<Longrightarrow> cu_decode w = cu_signals opc"
proof -
  assume w: "w \<noteq> 0" "d_opcode (decode w) = Some opc"
  show ?thesis
  proof (cases "w = NOP_WORD")
    case True
    have "opcode_val opc = opcode_val Op_NOP"
      using decode_opcode [OF w(2)] True by (simp add: NOP_WORD_eq drop_bit_eq_div)
    then have "opc = Op_NOP" by (simp only: opcode_val_inj)
    then show ?thesis using True by (simp add: cu_decode_def cu_jumps)
  next
    case False
    then show ?thesis using w by (simp add: cu_decode_def)
  qed
qed

lemma decode_zero: "decode 0 = D_R Op_ADD 0 0 0 0"
  by (simp add: decode_def Let_def Opcode_def opcode_list_def)

section \<open>What the stage changes\<close>

definition ex_frame :: "sim \<Rightarrow> sim \<Rightarrow> bool" where
  "ex_frame s t \<longleftrightarrow>
     t\<lparr>sm_exmem := sm_exmem s, sm_rf := sm_rf s, sm_stats := sm_stats s, sm_exec_stall := sm_exec_stall s,
       sm_fetch_stopped := sm_fetch_stopped s\<rparr> = s
     \<and> rf_regs (sm_rf t) = rf_regs (sm_rf s)"

lemma ex_frameD:
  assumes "ex_frame s t"
  shows "sm_mem t = sm_mem s" "rf_regs (sm_rf t) = rf_regs (sm_rf s)" "sm_csrs t = sm_csrs s" "sm_pc t = sm_pc s"
    "sm_halted t = sm_halted s" "sm_ifid t = sm_ifid s" "sm_idex t = sm_idex s" "sm_memwb t = sm_memwb s"
  using assms unfolding ex_frame_def by (cases s; cases t; simp)+

lemma ex_frame_refl [simp]: "ex_frame s s"
  by (simp add: ex_frame_def)

lemma ex_frame_updates [simp]:
  "ex_frame s (t\<lparr>sm_exmem := e\<rparr>) = ex_frame s t" "ex_frame s (t\<lparr>sm_stats := st\<rparr>) = ex_frame s t"
  "ex_frame s (t\<lparr>sm_exec_stall := n\<rparr>) = ex_frame s t" "ex_frame s (t\<lparr>sm_fetch_stopped := b\<rparr>) = ex_frame s t"
  "ex_frame s (t\<lparr>sm_rf := rf_update_flags (sm_rf t) r c ov\<rparr>) = ex_frame s t"
  by (simp_all add: ex_frame_def rf_update_flags_def)

lemma ex_frame_from [simp]: "ex_frame (s\<lparr>sm_exmem := e\<rparr>) t = ex_frame s t"
  unfolding ex_frame_def by (cases s; cases t) simp

lemma ex_frame_jump_to [simp]: "ex_frame s (ex_jump_to a t) = ex_frame s t"
  by (simp add: ex_jump_to_def)

lemma ex_frame_parts [simp]:
  "ex_frame s (ex_load r a t) = ex_frame s t" "ex_frame s (ex_store r a b t) = ex_frame s t"
  "ex_frame s (ex_branch r a b t) = ex_frame s t" "ex_frame s (ex_alu r a b t) = ex_frame s t"
  by (simp_all add: ex_load_def ex_store_def ex_branch_def ex_alu_def Let_def)

lemma ex_frame_jump: "ex_jump r a t = Some t' \<Longrightarrow> ex_frame s t' = ex_frame s t"
  by (auto simp: ex_jump_def Let_def split: if_splits)

section \<open>One lemma per class of instruction\<close>

abbreviation ex_in :: "exmem_reg \<Rightarrow> memwb_reg \<Rightarrow> idex_reg \<Rightarrow> int \<times> int" where
  "ex_in e m r \<equiv> fwd_operands r e m"

lemma stage_ex_nop: "c_is_nop (id_ctrl (sm_idex s)) \<Longrightarrow> stage_ex e m s = s\<lparr>sm_exmem := ex_start (sm_idex s)\<rparr>"
  by (simp add: stage_ex_def Let_def)

lemma stage_ex_invalid: "\<not> id_valid (sm_idex s) \<Longrightarrow> stage_ex e m s = s\<lparr>sm_exmem := ex_start (sm_idex s)\<rparr>"
  by (simp add: stage_ex_def Let_def)

lemma stage_ex_halt:
  "id_valid (sm_idex s) \<Longrightarrow> id_ctrl (sm_idex s) = ControlSignals\<lparr>c_halt := True\<rparr> \<Longrightarrow>
     stage_ex e m s = s\<lparr>sm_exmem := ex_start (sm_idex s), sm_fetch_stopped := True\<rparr>"
  by (simp add: stage_ex_def Let_def case_prod_beta ControlSignals_def)

text \<open>The stage on an instruction without system effects.\<close>

definition ex_core :: "idex_reg \<Rightarrow> int \<Rightarrow> int \<Rightarrow> sim \<Rightarrow> sim" where
  "ex_core r a b s =
     (if c_mem_read (id_ctrl r) then ex_load r a s
      else if c_mem_write (id_ctrl r) then ex_store r a b s
      else if c_branch (id_ctrl r) then ex_branch r a b s
      else if c_jump (id_ctrl r) then
        (case ex_jump r a s of Some s' \<Rightarrow> s' | None \<Rightarrow> ex_rest r a b s)
      else ex_alu r a b s)"

lemma stage_ex_core:
  assumes "sm_idex s = r" "id_valid r" "id_opcode r \<notin> {Op_BREAK, Op_MFC, Op_MTC}"
    and "\<not> c_is_nop (id_ctrl r)" "\<not> c_halt (id_ctrl r)" "\<not> c_syscall (id_ctrl r)" "\<not> c_eret (id_ctrl r)"
      "\<not> c_push (id_ctrl r)" "\<not> c_pop (id_ctrl r)"
  shows "stage_ex e m s = ex_core r (fst (ex_in e m r)) (snd (ex_in e m r)) (s\<lparr>sm_exmem := ex_start r\<rparr>)"
  using assms by (simp add: stage_ex_def ex_core_def ex_rest_def fwd_operands_def Let_def case_prod_beta)

definition plain_latch :: "sim \<Rightarrow> idex_reg \<Rightarrow> opcode \<Rightarrow> bool" where
  "plain_latch s r opc \<longleftrightarrow>
     sm_idex s = r \<and> id_valid r \<and> id_opcode r = opc \<and> opc \<notin> {Op_BREAK, Op_MFC, Op_MTC}"

lemma alu_effect:
  assumes r: "plain_latch s r opc"
    and "id_ctrl r = ControlSignals\<lparr>c_reg_write := True, c_alu_src := x\<rparr>"
  shows "mem_effect (sm_exmem (stage_ex e m s)) (rs, mm) =
      (reg_write (id_rd r) (word_op opc (fst (ex_in e m r)) (snd (ex_in e m r))) rs, mm)"
    and "\<not> pending (sm_exmem (stage_ex e m s))"
  using assms unfolding plain_latch_def
  by (simp_all add: stage_ex_core ex_core_def ex_alu_def Let_def ControlSignals_def mem_effect_def ex_start_def
      pending_def word_op_alu)

lemma load_effect:
  assumes r: "plain_latch s r opc"
    and "id_ctrl r = ControlSignals\<lparr>c_mem_read := True, c_reg_write := True, c_alu_src := True,
       c_mem_size := access_size opc, c_mem_signed := load_signed opc\<rparr>"
  shows "mem_effect (sm_exmem (stage_ex e m s)) (rs, mm) =
      (reg_write (id_rd r) (load_value opc mm (take_bit 32 (fst (ex_in e m r) + id_offset r))) rs, mm)"
    and "\<not> pending (sm_exmem (stage_ex e m s))"
  using assms unfolding plain_latch_def
  by (simp_all add: stage_ex_core ex_core_def ex_load_def Let_def ControlSignals_def mem_effect_def ex_start_def
      pending_def load_value_def isa_consts mask_bits)

lemma store_effect:
  assumes r: "plain_latch s r opc"
    and "id_ctrl r = ControlSignals\<lparr>c_mem_write := True, c_alu_src := True, c_mem_size := access_size opc\<rparr>"
  shows "mem_effect (sm_exmem (stage_ex e m s)) (rs, mm) =
      (rs, store_value opc mm (take_bit 32 (fst (ex_in e m r) + id_offset r)) (snd (ex_in e m r)))"
    and "\<not> pending (sm_exmem (stage_ex e m s))"
proof -
  have "snd (ex_in e m r) AND 0xFFFFFFFF = snd (ex_in e m r)"
    by (simp add: fwd_operands_u32 u32_mask_id)
  then show "mem_effect (sm_exmem (stage_ex e m s)) (rs, mm) =
      (rs, store_value opc mm (take_bit 32 (fst (ex_in e m r) + id_offset r)) (snd (ex_in e m r)))"
    using assms unfolding plain_latch_def
    by (simp add: stage_ex_core ex_core_def ex_store_def Let_def ControlSignals_def mem_effect_def ex_start_def
        store_value_def isa_consts) (simp add: mask_bits)
  show "\<not> pending (sm_exmem (stage_ex e m s))"
    using assms unfolding plain_latch_def
    by (simp add: stage_ex_core ex_core_def ex_store_def Let_def ControlSignals_def ex_start_def pending_def)
qed

lemma branch_effect:
  assumes r: "plain_latch s r opc"
    and "id_ctrl r = ControlSignals\<lparr>c_branch := True\<rparr>"
  shows "mem_effect (sm_exmem (stage_ex e m s)) (rs, mm) = (rs, mm)"
    and "pending (sm_exmem (stage_ex e m s)) = branch_taken opc (fst (ex_in e m r)) (snd (ex_in e m r))"
    and "pending (sm_exmem (stage_ex e m s)) \<Longrightarrow>
      ex_jump_pc (sm_exmem (stage_ex e m s)) = mem_wrap (sm_mem s) (id_pc_plus1 r - 1 + id_offset r)"
  using assms fwd_operands_u32 [of r e m] unfolding plain_latch_def
  by (simp_all add: stage_ex_core ex_core_def ex_branch_def ex_jump_to_def Let_def ControlSignals_def mem_effect_def
      ex_start_def pending_def eval_branch_word wrap_addr_mem split: if_splits)

lemma jump_effect:
  assumes r: "plain_latch s r opc"
    and "opc = Op_JMP \<and> id_ctrl r = ControlSignals\<lparr>c_jump := True\<rparr> \<and> t = id_addr r
      \<or> opc = Op_JMPR \<and> id_ctrl r = ControlSignals\<lparr>c_jump := True, c_alu_src := True\<rparr> \<and> t = fst (ex_in e m r) + id_offset r
      \<or> opc = Op_RET \<and> id_ctrl r = ControlSignals\<lparr>c_ret := True, c_jump := True\<rparr> \<and> t = rf_get (sm_rf s) 31"
  shows "mem_effect (sm_exmem (stage_ex e m s)) (rs, mm) = (rs, mm)"
    and "pending (sm_exmem (stage_ex e m s))"
    and "ex_jump_pc (sm_exmem (stage_ex e m s)) = mem_wrap (sm_mem s) t"
  using assms unfolding plain_latch_def
  by (auto simp: stage_ex_core ex_core_def ex_jump_def ex_jump_to_def Let_def ControlSignals_def mem_effect_def
      ex_start_def pending_def wrap_addr_mem isa_consts)

lemma call_effect:
  assumes r: "plain_latch s r opc"
    and "opc = Op_CALL \<and> t = id_addr r \<or> opc = Op_CALLR \<and> t = fst (ex_in e m r)"
    and "id_ctrl r = ControlSignals\<lparr>c_jump := True, c_call := True, c_reg_write := True\<rparr>"
  shows "mem_effect (sm_exmem (stage_ex e m s)) (rs, mm) = (reg_write 31 (id_pc_plus1 r) rs, mm)"
    and "pending (sm_exmem (stage_ex e m s))"
    and "ex_jump_pc (sm_exmem (stage_ex e m s)) = mem_wrap (sm_mem s) t"
  using assms unfolding plain_latch_def
  by (auto simp: stage_ex_core ex_core_def ex_jump_def ex_jump_to_def Let_def ControlSignals_def mem_effect_def
      ex_start_def pending_def wrap_addr_mem isa_consts mask_bits reg_write_def)

section \<open>Execution of a latched instruction\<close>

lemma retire_regs:
  "rf_regs (retire_memwb m rf) = wb_effect m (rf_regs rf)"
  "rf_regs (retire_exmem e rf) =
     (if ex_valid e \<and> c_reg_write (ex_ctrl e) then reg_write (ex_rd e) (ex_alu_result e) (rf_regs rf) else rf_regs rf)"
  by (simp_all add: retire_memwb_def retire_exmem_def wb_effect_def)

text \<open>The operands of the instruction in ID/EX are available: the registers it reads hold, once the
  older instructions have retired, what forwarding delivers.\<close>

definition operands_ready :: "regfile \<Rightarrow> exmem_reg \<Rightarrow> memwb_reg \<Rightarrow> int list \<Rightarrow> decoded \<Rightarrow> bool" where
  "operands_ready rf e m rs d \<longleftrightarrow>
     (\<forall>k\<in>set (source_regs d). rf_get (retire_exmem e (retire_memwb m rf)) k = reg_read rs k)"

lemma word_op_mask: "word_op opc a (b AND 0xFFFFFFFF) = word_op opc a b"
proof -
  have "(word_of_int (b AND 0xFFFFFFFF) :: 32 word) = word_of_int b"
    by (simp add: mask_bits word_of_int_eq_iff)
  then show ?thesis by (simp only: word_op_def)
qed

lemma word_op_MOVI: "word_op Op_MOVI a b = word_op Op_MOVI a' b" "word_op Op_MOV a b = word_op Op_MOV a b'"
  by (simp_all add: word_op_def alu_word_def)

lemma nop_effect:
  assumes "sm_idex s = r" "id_ctrl r = ctrl_nop"
  shows "mem_effect (sm_exmem (stage_ex e m s)) (rs, mm) = (rs, mm)" "\<not> pending (sm_exmem (stage_ex e m s))"
  using assms
  by (simp_all add: stage_ex_nop ctrl_defs mem_effect_def ex_start_def pending_def Let_def)

lemma ex_result:
  assumes l: "latched rf w r" and s: "sm_idex s = r" and rf: "rf_wf rf" and e: "exmem_ok e" and m: "memwb_ok m"
    and rs: "regs_wf rs" and mm: "length mm = length (sm_mem s)"
    and ops: "operands_ready rf e m rs (decode w)"
    and ret: "id_opcode r = Op_RET \<Longrightarrow> rf_get (sm_rf s) 31 = reg_read rs 31"
    and hlt: "id_opcode r \<noteq> Op_HLT"
  shows "isa_effect (decode w) (id_pc_plus1 r - 1) (rs, mm) =
      (mem_effect (sm_exmem (stage_ex e m s)) (rs, mm),
       if pending (sm_exmem (stage_ex e m s)) then Some (ex_jump_pc (sm_exmem (stage_ex e m s))) else None)"
proof (cases "w = 0")
  case True
  have "id_ctrl r = ctrl_nop" using latched_fields(4) [OF l] True by (simp add: cu_decode_def)
  from nop_effect [OF s this] True rs show ?thesis
    by (simp add: decode_zero reg_write_def)
next
  case False
  obtain opc where opc: "id_opcode r = opc" by blast
  have c: "id_ctrl r = cu_signals opc"
    using latched_fields(3,4) [OF l] False opc by (simp add: cu_decode_core)
  have core: "core_instr w" and dok: "decoded_ok (decode w)"
    using l by (auto simp: latched_def decode_ok)
  have reg: "reg_index (ex_rd e)" "reg_index (wb_rd m)"
    using e m by (simp_all add: exmem_ok_def memwb_ok_def)
  have opa: "fst (ex_in e m r) = reg_read rs (id_rs1 r)"
    if "id_rs1_val r = rf_get rf (id_rs1 r)" "reg_index (id_rs1 r)" "id_rs1 r \<in> set (source_regs (decode w))"
    using that ops fwd_operand_a_retired [OF rf that(2) reg that(1)] by (simp add: operands_ready_def)
  have opb: "snd (ex_in e m r) = reg_read rs (id_rs2 r)"
    if "id_rs2_val r = rf_get rf (id_rs2 r)" "reg_index (id_rs2 r)" "id_rs2 r \<in> set (source_regs (decode w))"
    using that ops fwd_operand_b_retired [OF rf that(2) reg that(1)] by (simp add: operands_ready_def)
  obtain p x where req: "r = id_decode rf (decode w) (cu_decode w) p x"
    using l by (auto simp: latched_def)
  show ?thesis
  proof (cases "decode w")
    case (D_R opc' rd rs1 rs2 sh)
    have f: "id_opcode r = opc'" "id_rd r = rd" "id_rs1 r = rs1" "id_rs2 r = rs2" "id_rs1_val r = rf_get rf rs1"
      "id_rs2_val r = (if opc' \<in> {Op_SHLI, Op_SHRI, Op_SHRAI} then sh
                       else if opc' = Op_MOV then rf_get rf rs1 else rf_get rf rs2)"
      using req D_R by (simp_all add: id_base_def)
    have o: "opc = opc'" "opc' \<in> set R_ALU" "opc' \<in> {Op_SHLI, Op_SHRI, Op_SHRAI} \<Longrightarrow> rs2 = 0"
      using core D_R f opc by (simp_all add: core_instr_def)
    have pl: "plain_latch s r opc'"
      using s f o latched_fields(2) [OF l] by (auto simp: plain_latch_def R_ALU_def)
    have ctrl: "id_ctrl r = ControlSignals\<lparr>c_reg_write := True, c_alu_src := False\<rparr>"
      using c o by (simp add: cu_R) (simp add: ControlSignals_def)
    have a: "fst (ex_in e m r) = reg_read rs rs1"
      using opa f dok D_R by simp
    have b: "word_op opc' x (snd (ex_in e m r)) =
        word_op opc' x (if opc' \<in> {Op_SHLI, Op_SHRI, Op_SHRAI} then sh else reg_read rs rs2)" for x
    proof (cases "opc' \<in> {Op_SHLI, Op_SHRI, Op_SHRAI}")
      case True
      then have "snd (ex_in e m r) = sh AND 0xFFFFFFFF"
        using o(3) f by (subst fwd_operand_b_imm) auto
      then show ?thesis using True dok D_R by (simp add: u32_mask_id u32_reg_index)
    next
      case False
      then show ?thesis
      proof (cases "opc' = Op_MOV")
        case True
        then show ?thesis by (simp only:) (rule word_op_MOVI(2))
      next
        case nomov: False
        with False have "snd (ex_in e m r) = reg_read rs rs2"
          using opb f dok D_R by simp
        with False show ?thesis by simp
      qed
    qed
    show ?thesis
      using alu_effect(1) [OF pl ctrl, where e = e and m = m and rs = rs and mm = mm] alu_effect(2) [OF pl ctrl, where e = e and m = m] D_R f a b by (simp add: Let_def)
  next
    case (D_I opc' rd rs1 imm)
    have f: "id_opcode r = opc'" "id_rd r = rd" "id_rs1 r = rs1" "id_rs2 r = 0" "id_offset r = imm"
      "id_rs1_val r = (if opc' = Op_MOVI then 0 else rf_get rf rs1)" "id_rs2_val r = imm AND WORD_MASK"
      using req D_I by (simp_all add: id_base_def)
    have o: "opc = opc'" "opc' \<in> set I_ALU \<or> opc' \<in> set LOADS \<or> opc' \<in> {Op_JMPR, Op_CALLR}"
      using core D_I f opc by (simp_all add: core_instr_def)
    have pl: "plain_latch s r opc'"
      using s f o latched_fields(2) [OF l] by (auto simp: plain_latch_def I_ALU_def LOADS_def)
    have a: "opc' \<noteq> Op_MOVI \<Longrightarrow> fst (ex_in e m r) = reg_read rs rs1"
      using opa f dok D_I by simp
    from o(2) consider "opc' \<in> set I_ALU" | "opc' \<in> set LOADS" | "opc' = Op_JMPR" | "opc' = Op_CALLR" by blast
    then show ?thesis
    proof cases
      case 1
      then have n: "opc' \<notin> set LOADS" "opc' \<noteq> Op_JMPR" "opc' \<noteq> Op_CALLR" by (auto simp: opcode_classes)
      have ctrl: "id_ctrl r = ControlSignals\<lparr>c_reg_write := True, c_alu_src := True\<rparr>"
        using c o(1) 1 by (simp add: cu_I)
      have "snd (ex_in e m r) = imm AND 0xFFFFFFFF"
        using f by (subst fwd_operand_b_imm) (simp_all add: isa_consts)
      then have "word_op opc' (fst (ex_in e m r)) (snd (ex_in e m r)) = word_op opc' (reg_read rs rs1) imm"
        using a word_op_MOVI(1) [of "fst (ex_in e m r)" imm "reg_read rs rs1"]
        by (cases "opc' = Op_MOVI") (simp_all add: word_op_mask)
      then show ?thesis
        using alu_effect(1) [OF pl ctrl, where e = e and m = m and rs = rs and mm = mm] alu_effect(2) [OF pl ctrl, where e = e and m = m] D_I f n by simp
    next
      case 2
      then have n: "opc' \<noteq> Op_MOVI" by (auto simp: LOADS_def)
      have ctrl: "id_ctrl r = ControlSignals\<lparr>c_mem_read := True, c_reg_write := True, c_alu_src := True,
          c_mem_size := access_size opc', c_mem_signed := load_signed opc'\<rparr>"
        using c o(1) 2 by (simp add: cu_load)
      show ?thesis
        using load_effect(1) [OF pl ctrl, where e = e and m = m and rs = rs and mm = mm] load_effect(2) [OF pl ctrl, where e = e and m = m] D_I f a [OF n] 2 by simp
    next
      case 3
      have "id_ctrl r = ControlSignals\<lparr>c_jump := True, c_alu_src := True\<rparr>"
        using c o(1) 3 by (simp add: cu_jumps)
      then show ?thesis
        using jump_effect(1) [OF pl, where t = "fst (ex_in e m r) + id_offset r" and e = e and m = m and rs = rs and mm = mm] jump_effect(2,3) [OF pl, where t = "fst (ex_in e m r) + id_offset r" and e = e and m = m]
          D_I f a 3 mm by (simp add: LOADS_def mem_wrap_length [OF mm])
    next
      case 4
      have "id_ctrl r = ControlSignals\<lparr>c_jump := True, c_call := True, c_reg_write := True\<rparr>"
        using c o(1) 4 by (simp add: cu_jumps)
      then show ?thesis
        using call_effect(1) [OF pl, where t = "fst (ex_in e m r)" and e = e and m = m and rs = rs and mm = mm] call_effect(2,3) [OF pl, where t = "fst (ex_in e m r)" and e = e and m = m]
          D_I f a 4 mm by (simp add: LOADS_def mem_wrap_length [OF mm])
    qed
  next
    case (D_S opc' rs2 rs1 off)
    have f: "id_opcode r = opc'" "id_rs1 r = rs1" "id_rs2 r = rs2" "id_offset r = off"
      "id_rs1_val r = rf_get rf rs1" "id_rs2_val r = rf_get rf rs2"
      using req D_S by (simp_all add: id_base_def)
    have o: "opc = opc'" "OPCODE_FMT opc' = Fmt_S"
      using D_S f opc dok by simp_all
    have pl: "plain_latch s r opc'"
      using s f o latched_fields(2) [OF l] by (auto simp: plain_latch_def)
    have ctrl: "id_ctrl r = ControlSignals\<lparr>c_mem_write := True, c_alu_src := True, c_mem_size := access_size opc'\<rparr>"
      using c o by (simp add: cu_store)
    have "fst (ex_in e m r) = reg_read rs rs1" "snd (ex_in e m r) = reg_read rs rs2"
      using opa opb f dok D_S by simp_all
    then show ?thesis
      using store_effect(1) [OF pl ctrl, where e = e and m = m and rs = rs and mm = mm] store_effect(2) [OF pl ctrl, where e = e and m = m] D_S f by simp
  next
    case (D_B opc' rs1 rs2 off)
    have f: "id_opcode r = opc'" "id_rs1 r = rs1" "id_rs2 r = rs2" "id_offset r = off"
      "id_rs1_val r = rf_get rf rs1" "id_rs2_val r = rf_get rf rs2"
      using req D_B by (simp_all add: id_base_def)
    have o: "opc = opc'" "OPCODE_FMT opc' = Fmt_B"
      using D_B f opc dok by simp_all
    have pl: "plain_latch s r opc'"
      using s f o latched_fields(2) [OF l] by (auto simp: plain_latch_def)
    have ctrl: "id_ctrl r = ControlSignals\<lparr>c_branch := True\<rparr>"
      using c o by (simp add: cu_branch)
    have "fst (ex_in e m r) = reg_read rs rs1" "snd (ex_in e m r) = reg_read rs rs2"
      using opa opb f dok D_B by simp_all
    then show ?thesis
      using branch_effect(1) [OF pl ctrl, where e = e and m = m and rs = rs and mm = mm] branch_effect(2,3) [OF pl ctrl, where e = e and m = m] D_B f by (simp add: mem_wrap_length [OF mm])
  next
    case (D_J opc' addr)
    have f: "id_opcode r = opc'" "id_addr r = addr"
      using req D_J by (simp_all add: id_base_def)
    have o: "opc = opc'" "opc' \<in> {Op_NOP, Op_FENCE, Op_JMP, Op_CALL, Op_RET}"
      using core D_J f opc hlt by (auto simp: core_instr_def)
    have pl: "plain_latch s r opc'"
      using s f o latched_fields(2) [OF l] by (auto simp: plain_latch_def)
    from o(2) consider "opc' \<in> {Op_NOP, Op_FENCE}" | "opc' = Op_JMP" | "opc' = Op_CALL" | "opc' = Op_RET" by blast
    then show ?thesis
    proof cases
      case 1
      then have "id_ctrl r = ctrl_nop" using c o(1) by (auto simp: cu_jumps)
      from nop_effect [OF s this] 1 D_J show ?thesis by auto
    next
      case 2
      have "id_ctrl r = ControlSignals\<lparr>c_jump := True\<rparr>" using c o(1) 2 by (simp add: cu_jumps)
      then show ?thesis
        using jump_effect(1) [OF pl, where t = "id_addr r" and e = e and m = m and rs = rs and mm = mm] jump_effect(2,3) [OF pl, where t = "id_addr r" and e = e and m = m] D_J f 2
        by (simp add: mem_wrap_length [OF mm])
    next
      case 3
      have "id_ctrl r = ControlSignals\<lparr>c_jump := True, c_call := True, c_reg_write := True\<rparr>"
        using c o(1) 3 by (simp add: cu_jumps)
      then show ?thesis
        using call_effect(1) [OF pl, where t = "id_addr r" and e = e and m = m and rs = rs and mm = mm] call_effect(2,3) [OF pl, where t = "id_addr r" and e = e and m = m] D_J f 3
        by (simp add: mem_wrap_length [OF mm])
    next
      case 4
      have "id_ctrl r = ControlSignals\<lparr>c_ret := True, c_jump := True\<rparr>" using c o(1) 4 by (simp add: cu_jumps)
      then show ?thesis
        using jump_effect(1) [OF pl, where t = "rf_get (sm_rf s) 31" and e = e and m = m and rs = rs and mm = mm] jump_effect(2,3) [OF pl, where t = "rf_get (sm_rf s) 31" and e = e and m = m] D_J f 4 ret
        by (simp add: mem_wrap_length [OF mm])
    qed
  next
    case (D_U opc' rd imm)
    have f: "id_opcode r = opc'" "id_rd r = rd" "id_rs1 r = 0" "id_rs2 r = 0" "id_rs1_val r = 0" "id_rs2_val r = imm"
      using req D_U by (simp_all add: id_base_def)
    have o: "opc = opc'" "opc' = Op_MOVHI"
      using D_U f opc dok fmt_U by simp_all
    have pl: "plain_latch s r opc'"
      using s f o latched_fields(2) [OF l] by (auto simp: plain_latch_def)
    have ctrl: "id_ctrl r = ControlSignals\<lparr>c_reg_write := True, c_alu_src := True\<rparr>"
      using c o by (simp add: cu_jumps)
    have "fst (ex_in e m r) = 0" "snd (ex_in e m r) = imm"
      using f dok D_U by (simp_all add: fwd_operand_a_imm fwd_operand_b_imm u32_mask_id u32_imm21)
    then show ?thesis
      using alu_effect(1) [OF pl ctrl, where e = e and m = m and rs = rs and mm = mm] alu_effect(2) [OF pl ctrl, where e = e and m = m] D_U f o by simp
  next
    case (D_Invalid raw w')
    with core show ?thesis by (simp add: core_instr_def)
  qed
qed

lemma id_decode_regs: "rf_regs rf = rf_regs rf' \<Longrightarrow> id_decode rf d c p x = id_decode rf' d c p x"
  by (cases d) (simp_all add: rf_get_regs)

lemma latched_regs: "rf_regs rf = rf_regs rf' \<Longrightarrow> latched rf w r = latched rf' w r"
  unfolding latched_def using id_decode_regs [of rf rf'] by metis

lemma core_opcodes:
  "core_instr w \<Longrightarrow> d_opcode (decode w) = Some opc \<Longrightarrow>
     opc \<in> set R_ALU \<union> set I_ALU \<union> set LOADS \<union> set STORES \<union> set BRANCHES
       \<union> {Op_JMPR, Op_CALLR, Op_NOP, Op_FENCE, Op_JMP, Op_CALL, Op_RET, Op_HLT, Op_MOVHI}"
  using decode_ok [of w]
  by (cases "decode w"; cases opc) (auto simp: core_instr_def opcode_classes)

lemma core_ctrl:
  assumes "core_instr w"
  shows "\<not> c_syscall (cu_decode w)" "\<not> c_eret (cu_decode w)" "\<not> c_push (cu_decode w)" "\<not> c_pop (cu_decode w)"
    and "d_opcode (decode w) = Some opc \<Longrightarrow> c_halt (cu_decode w) = (opc = Op_HLT)"
proof -
  obtain opc' where o: "d_opcode (decode w) = Some opc'"
    using assms by (cases "decode w") (auto simp: core_instr_def)
  have c: "cu_decode w = ctrl_nop \<and> opc' = Op_ADD \<or> cu_decode w = cu_signals opc'"
    using o cu_decode_core [OF _ o] by (cases "w = 0") (auto simp: cu_decode_def decode_zero)
  have "\<not> c_syscall (cu_decode w) \<and> \<not> c_eret (cu_decode w) \<and> \<not> c_push (cu_decode w) \<and> \<not> c_pop (cu_decode w)
      \<and> c_halt (cu_decode w) = (opc' = Op_HLT)"
    using c core_opcodes [OF assms o]
    by (cases opc') (auto simp: cu_signals_def Let_def opcode_classes ctrl_defs)
  then show "\<not> c_syscall (cu_decode w)" "\<not> c_eret (cu_decode w)" "\<not> c_push (cu_decode w)" "\<not> c_pop (cu_decode w)"
    and "d_opcode (decode w) = Some opc \<Longrightarrow> c_halt (cu_decode w) = (opc = Op_HLT)"
    using o by auto
qed

lemma ex_exmem_keeps [simp]:
  "ex_ctrl (sm_exmem (ex_jump_to a t)) = ex_ctrl (sm_exmem t)" "ex_valid (sm_exmem (ex_jump_to a t)) = ex_valid (sm_exmem t)"
  by (simp_all add: ex_jump_to_def)

lemma ex_core_keeps:
  assumes "id_opcode r \<notin> {Op_MFC, Op_MTC}"
  shows "ex_frame s (ex_core r a b s)" "sm_fetch_stopped (ex_core r a b s) = sm_fetch_stopped s"
    "ex_ctrl (sm_exmem (ex_core r a b s)) = ex_ctrl (sm_exmem s)" "ex_valid (sm_exmem (ex_core r a b s)) = ex_valid (sm_exmem s)"
  using assms
  by (simp_all add: ex_core_def ex_rest_def ex_load_def ex_store_def ex_branch_def ex_alu_def ex_jump_def
      ex_jump_to_def Let_def)

text \<open>Every latched instruction is a \<open>NOP\<close>, a \<open>HLT\<close> or executed by \<^const>\<open>ex_core\<close>.\<close>

lemma stage_ex_cases:
  assumes l: "latched rf w r" and s: "sm_idex t = r"
  obtains (idle) "stage_ex e m t = t\<lparr>sm_exmem := ex_start r\<rparr>" "c_is_nop (id_ctrl r)" "id_opcode r \<noteq> Op_HLT"
    | (halt) "stage_ex e m t = t\<lparr>sm_exmem := ex_start r, sm_fetch_stopped := True\<rparr>" "id_opcode r = Op_HLT"
    | (core) "stage_ex e m t = ex_core r (fst (ex_in e m r)) (snd (ex_in e m r)) (t\<lparr>sm_exmem := ex_start r\<rparr>)"
        "id_opcode r \<notin> {Op_BREAK, Op_MFC, Op_MTC, Op_HLT}"
proof -
  note lf = latched_fields [OF l]
  have ci: "core_instr w" using l by (simp add: latched_def)
  note cc = core_ctrl [OF ci]
  have opc: "id_opcode r \<notin> {Op_BREAK, Op_MFC, Op_MTC}"
    using core_opcodes [OF ci lf(3)] by (auto simp: opcode_classes)
  consider "c_is_nop (id_ctrl r)" | "\<not> c_is_nop (id_ctrl r)" "c_halt (id_ctrl r)"
    | "\<not> c_is_nop (id_ctrl r)" "\<not> c_halt (id_ctrl r)" by blast
  then show ?thesis
  proof cases
    case 1
    moreover have "ctrl_ok (id_ctrl r)" using lf(4) ctrl_ok_decode by simp
    ultimately have "\<not> c_halt (id_ctrl r)" by (simp add: ctrl_ok_def)
    then have "id_opcode r \<noteq> Op_HLT" using cc(5) lf by auto
    with 1 show ?thesis using s by (intro idle) (simp_all add: stage_ex_nop)
  next
    case 2
    moreover have "id_opcode r = Op_HLT" using 2 cc(5) lf by simp
    ultimately show ?thesis
      using s lf by (intro halt) (simp_all add: stage_ex_def Let_def case_prod_beta)
  next
    case 3
    moreover have "id_opcode r \<noteq> Op_HLT" using 3 cc(5) lf by auto
    ultimately show ?thesis using s lf opc cc by (intro core) (simp_all add: stage_ex_core)
  qed
qed

lemma ex_keeps:
  assumes l: "latched rf w r" and s: "sm_idex s = r"
  shows "ex_frame s (stage_ex e m s)"
    and "sm_fetch_stopped (stage_ex e m s) = (sm_fetch_stopped s \<or> id_opcode r = Op_HLT)"
    and "ex_ctrl (sm_exmem (stage_ex e m s)) = id_ctrl r" and "ex_valid (sm_exmem (stage_ex e m s))"
proof -
  note lf = latched_fields [OF l]
  have t: "ex_ctrl (ex_start r) = id_ctrl r" "ex_valid (ex_start r)"
    using lf by (simp_all add: ex_start_def)
  have "ex_frame s (stage_ex e m s) \<and> sm_fetch_stopped (stage_ex e m s) = (sm_fetch_stopped s \<or> id_opcode r = Op_HLT)
     \<and> ex_ctrl (sm_exmem (stage_ex e m s)) = id_ctrl r \<and> ex_valid (sm_exmem (stage_ex e m s))"
  proof (cases rule: stage_ex_cases [OF l s, of e m])
    case 1
    then show ?thesis using t by simp
  next
    case 2
    then show ?thesis using t by simp
  next
    case 3
    then show ?thesis
      using t ex_core_keeps [of r, where s = "s\<lparr>sm_exmem := ex_start r\<rparr>"] by simp
  qed
  then show "ex_frame s (stage_ex e m s)"
    and "sm_fetch_stopped (stage_ex e m s) = (sm_fetch_stopped s \<or> id_opcode r = Op_HLT)"
    and "ex_ctrl (sm_exmem (stage_ex e m s)) = id_ctrl r" and "ex_valid (sm_exmem (stage_ex e m s))"
    by blast+
qed

lemma ex_keeps_invalid:
  assumes "\<not> id_valid (sm_idex s)"
  shows "ex_frame s (stage_ex e m s)" "sm_fetch_stopped (stage_ex e m s) = sm_fetch_stopped s"
    "\<not> ex_valid (sm_exmem (stage_ex e m s))"
  using assms by (simp_all add: stage_ex_invalid ex_start_def)

end
