(* ===== verification/Pipeline_Refinement.thy ===== *)
theory Pipeline_Refinement
  imports Pipeline_Exec
begin

unbundle bit_operations_syntax

text \<open>
  The pipeline implements the architecture.  \<open>abs_state\<close> completes the instructions in the latches,
  oldest first; \<open>pipe_ok\<close> is the invariant of the latches; every clock leaves \<open>abs_state\<close> alone or
  advances it by one \<^const>\<open>isa_step\<close>.
\<close>

section \<open>Completing the latches\<close>

type_synonym effect = "reg_mem \<Rightarrow> reg_mem \<times> int option"

text \<open>Effects in program order; the first one that jumps ends the list.\<close>

fun complete :: "effect list \<Rightarrow> int \<Rightarrow> reg_mem \<Rightarrow> arch" where
  "complete [] pc (rs, m) = \<lparr>ar_pc = pc, ar_regs = rs, ar_mem = m\<rparr>"
| "complete (f # fs) pc rm =
     (case f rm of
        (rm', None) \<Rightarrow> complete fs pc rm'
      | (rm', Some a) \<Rightarrow> \<lparr>ar_pc = a, ar_regs = fst rm', ar_mem = snd rm'\<rparr>)"

fun jumps :: "effect list \<Rightarrow> reg_mem \<Rightarrow> bool" where
  "jumps [] rm = False"
| "jumps (f # fs) rm = (case f rm of (rm', None) \<Rightarrow> jumps fs rm' | (rm', Some a) \<Rightarrow> True)"

definition exmem_eff :: "exmem_reg \<Rightarrow> effect" where
  "exmem_eff e rm =
     (mem_effect e rm, if pending e then Some (mem_wrap (snd rm) (ex_jump_pc e)) else None)"

definition idex_eff :: "idex_reg \<Rightarrow> effect" where
  "idex_eff r rm = (if id_valid r then isa_effect (idex_instr r) (id_pc_plus1 r - 1) rm else (rm, None))"

definition ifid_eff :: "ifid_reg \<Rightarrow> effect" where
  "ifid_eff i rm =
     (if if_valid i then isa_effect (decode (if_instruction i)) (if_pc_plus1 i - 1) rm else (rm, None))"

definition retired :: "sim \<Rightarrow> reg_mem" where
  "retired s = (wb_effect (sm_memwb s) (rf_regs (sm_rf s)), sm_mem s)"

definition abs_state :: "sim \<Rightarrow> arch" where
  "abs_state s =
     complete [exmem_eff (sm_exmem s), idex_eff (sm_idex s), ifid_eff (sm_ifid s)] (sm_pc s) (retired s)"

text \<open>Appending the next instruction is a step of the architecture.\<close>

lemma complete_snoc:
  "complete (fs @ [f]) p rm =
     (if jumps fs rm then complete fs q rm
      else complete [f] p (ar_regs (complete fs q rm), ar_mem (complete fs q rm)))"
  by (induction fs arbitrary: rm) (auto split: prod.splits option.splits)

lemma complete_pc: "\<not> jumps fs rm \<Longrightarrow> ar_pc (complete fs p rm) = p"
  by (induction fs arbitrary: rm) (auto split: prod.splits option.splits)

lemma isa_step_complete:
  assumes "0 \<le> ar_pc A" "ar_pc A < int (length (ar_mem A))"
  shows "isa_step A = complete [\<lambda>rm. isa_effect (decode (ar_mem A ! nat (ar_pc A))) (ar_pc A) rm] (ar_pc A + 1)
      (ar_regs A, ar_mem A)"
  using assms by (auto simp: isa_step_def split: prod.split option.split)

lemma complete_none [simp]: "(\<And>rm. f rm = (rm, None)) \<Longrightarrow> complete (f # fs) p rm = complete fs p rm"
  by simp

lemma eff_invalid [simp]:
  "\<not> id_valid r \<Longrightarrow> idex_eff r rm = (rm, None)" "\<not> if_valid i \<Longrightarrow> ifid_eff i rm = (rm, None)"
  "\<not> ex_valid e \<Longrightarrow> exmem_eff e rm = (rm, None)"
  by (cases rm; simp add: idex_eff_def ifid_eff_def exmem_eff_def mem_effect_def pending_def Let_def)+

section \<open>The invariant and the side conditions\<close>

definition load_ready :: "exmem_reg \<Rightarrow> decoded \<Rightarrow> bool" where
  "load_ready e d \<longleftrightarrow>
     (ex_valid e \<and> c_mem_read (ex_ctrl e) \<longrightarrow> ex_rd e = 0 \<or> ex_rd e \<notin> set (source_regs d))"

definition pipe_ok :: "sim \<Rightarrow> bool" where
  "pipe_ok s \<longleftrightarrow>
     sim_wf s \<and> mmu_off s \<and> \<not> sm_halted s \<and> \<not> sm_fetch_stopped s
     \<and> (wb_valid (sm_memwb s) \<longrightarrow> \<not> c_halt (wb_ctrl (sm_memwb s)))
     \<and> (ex_valid (sm_exmem s) \<longrightarrow> \<not> c_halt (ex_ctrl (sm_exmem s)))
     \<and> (id_valid (sm_idex s) \<longrightarrow>
          (\<exists>w. latched (sm_rf s) w (sm_idex s)) \<and> load_ready (sm_exmem s) (idex_instr (sm_idex s)))
     \<and> (if_valid (sm_ifid s) \<longrightarrow> core_instr (if_instruction (sm_ifid s)))"

text \<open>Whether a clock takes the architecture one instruction further.\<close>

definition advances :: "sim \<Rightarrow> bool" where
  "advances s \<longleftrightarrow>
     sm_exec_stall s \<le> 0
     \<and> (pending (sm_exmem s)
        \<or> \<not> detect_load_use (sm_idex s) (sm_ifid s)
          \<and> \<not> jumps [idex_eff (sm_idex s), ifid_eff (sm_ifid s)] (mem_effect (sm_exmem s) (retired s)))"

text \<open>The address this clock fetches from and the memory it fetches from.\<close>

definition fetch_pc :: "sim \<Rightarrow> int" where
  "fetch_pc s = (if pending (sm_exmem s) then mem_wrap (sm_mem s) (ex_jump_pc (sm_exmem s)) else sm_pc s)"

definition fetch_word :: "sim \<Rightarrow> int" where
  "fetch_word s = snd (mem_effect (sm_exmem s) (retired s)) ! nat (fetch_pc s)"

text \<open>
  What a clock has to meet for the refinement: the fetched word is an instruction without system
  effects, no store in flight changes it; the instruction in ID/EX does not stop the machine;
  a load is not followed by a store or branch that reads its destination in the field the hazard
  unit ignores; \<open>RET\<close> does not follow an instruction that writes the link register.
\<close>

definition fetch_ok :: "sim \<Rightarrow> bool" where
  "fetch_ok s \<longleftrightarrow>
     (fetch_pc s < int (length (sm_mem s)) \<longrightarrow>
        core_instr (fetch_word s)
        \<and> (advances s \<longrightarrow> ar_mem (abs_state s) ! nat (fetch_pc s) = fetch_word s))"

definition hazard_ok :: "sim \<Rightarrow> bool" where
  "hazard_ok s \<longleftrightarrow>
     (load_in_ex (sm_idex s) \<and> if_valid (sm_ifid s) \<and> \<not> detect_load_use (sm_idex s) (sm_ifid s) \<longrightarrow>
        id_rd (sm_idex s) \<notin> set (source_regs (decode (if_instruction (sm_ifid s)))))
     \<and> (id_valid (sm_idex s) \<and> id_opcode (sm_idex s) = Op_RET \<longrightarrow>
          \<not> (ex_valid (sm_exmem s) \<and> c_reg_write (ex_ctrl (sm_exmem s)) \<and> ex_rd (sm_exmem s) = 31))"

definition step_ok :: "sim \<Rightarrow> bool" where
  "step_ok s \<longleftrightarrow>
     fetch_ok s \<and> (\<not> pending (sm_exmem s) \<longrightarrow>
       hazard_ok s \<and> \<not> (id_valid (sm_idex s) \<and> id_opcode (sm_idex s) = Op_HLT))"

section \<open>The effect lists\<close>

lemma complete_cong1: "f rm = g rm \<Longrightarrow> complete (f # fs) p rm = complete (g # fs) p rm"
  by simp

lemma effs_length:
  "length (snd (fst (exmem_eff e (rs, m)))) = length m" "length (snd (fst (idex_eff r (rs, m)))) = length m"
  "length (snd (fst (ifid_eff i (rs, m)))) = length m"
  by (simp_all add: exmem_eff_def idex_eff_def ifid_eff_def isa_effect_length)

lemma complete_length:
  "\<forall>f\<in>set fs. \<forall>rm. length (snd (fst (f rm))) = length (snd rm) \<Longrightarrow> length (ar_mem (complete fs p rm)) = length (snd rm)"
proof (induction fs arbitrary: rm)
  case Nil
  then show ?case by (cases rm) simp
next
  case (Cons f fs)
  have f: "length (snd (fst (f rm))) = length (snd rm)"
    using Cons.prems by (cases rm) simp
  show ?case
  proof (cases "snd (f rm)")
    case None
    then have "complete (f # fs) p rm = complete fs p (fst (f rm))"
      by (simp add: case_prod_beta)
    with Cons f show ?thesis by simp
  next
    case (Some a)
    with f show ?thesis by (simp add: case_prod_beta)
  qed
qed

lemma abs_state_length: "length (ar_mem (abs_state s)) = length (sm_mem s)"
  unfolding abs_state_def
  by (subst complete_length) (auto simp: effs_length retired_def)

lemma abs_state_cases:
  "abs_state s =
     (if pending (sm_exmem s)
      then \<lparr>ar_pc = fetch_pc s, ar_regs = fst (mem_effect (sm_exmem s) (retired s)), ar_mem = snd (mem_effect (sm_exmem s) (retired s))\<rparr>
      else complete [idex_eff (sm_idex s), ifid_eff (sm_ifid s)] (sm_pc s) (mem_effect (sm_exmem s) (retired s)))"
  by (simp add: abs_state_def exmem_eff_def fetch_pc_def retired_def)

text \<open>The instruction fetched last is the next step.\<close>

lemma complete_fetch:
  assumes A: "A = complete fs p rm" "int (length (ar_mem A)) = n" and p: "0 \<le> p"
    and i: "if p < n then i = \<lparr>if_instruction = w, if_pc_plus1 = p + 1, if_valid = True\<rparr> \<and> p' = p + 1
       else \<not> if_valid i \<and> p' = p"
    and w: "p < n \<Longrightarrow> \<not> jumps fs rm \<Longrightarrow> ar_mem A ! nat p = w"
  shows "complete (fs @ [ifid_eff i]) p' rm = (if jumps fs rm then A else isa_step A)"
proof (cases "jumps fs rm")
  case True
  then show ?thesis using A complete_snoc [where p = p' and q = p] by simp
next
  case False
  with A have pc: "ar_pc A = p" by (simp add: complete_pc)
  have c: "complete (fs @ [ifid_eff i]) p' rm = complete [ifid_eff i] p' (ar_regs A, ar_mem A)"
    using False A complete_snoc [where p = p' and q = p] by simp
  show ?thesis
  proof (cases "p < n")
    case True
    then have "isa_step A = complete [\<lambda>rm. isa_effect (decode w) p rm] (p + 1) (ar_regs A, ar_mem A)"
      using isa_step_complete [of A] pc p A(2) w False by simp
    with c False i True show ?thesis by (simp add: ifid_eff_def)
  next
    case out: False
    with pc A(2) have "isa_step A = A" by (simp add: isa_step_def)
    with c False i out pc show ?thesis by simp
  qed
qed

section \<open>Operands\<close>

lemma retired_wf: "sim_wf s \<Longrightarrow> regs_wf (fst (retired s))"
  by (auto simp: retired_def wb_effect_def sim_wf_def memwb_ok_def rf_wf_regs intro: reg_write_wf)

lemma mem_effect_wf: "regs_wf rs \<Longrightarrow> reg_index (ex_rd e) \<Longrightarrow> regs_wf (fst (mem_effect e (rs, m)))"
  by (simp add: mem_effect_def Let_def reg_write_wf)

lemma mem_effect_other:
  assumes "regs_wf rs" "reg_index (ex_rd e)" "reg_index k" "ctrl_ok (ex_ctrl e)"
    and "\<not> (ex_valid e \<and> c_reg_write (ex_ctrl e) \<and> ex_rd e = k) \<or> k = 0"
  shows "reg_read (fst (mem_effect e (rs, m))) k = reg_read rs k"
proof -
  have "c_mem_read (ex_ctrl e) \<Longrightarrow> c_reg_write (ex_ctrl e)"
    using assms(4) by (simp add: ctrl_ok_def)
  with assms show ?thesis
    by (auto simp: mem_effect_def Let_def reg_read_write)
qed

lemma operands_ready:
  assumes s: "sim_wf s" and l: "load_ready (sm_exmem s) (decode w)"
  shows "operands_ready (sm_rf s) (sm_exmem s) (sm_memwb s) (fst (mem_effect (sm_exmem s) (retired s))) (decode w)"
  unfolding operands_ready_def
proof
  fix k assume k: "k \<in> set (source_regs (decode w))"
  let ?e = "sm_exmem s"
  have ri: "reg_index k" using k decode_ok [of w] by (cases "decode w") auto
  have e: "reg_index (ex_rd ?e)" "ctrl_ok (ex_ctrl ?e)"
    using s by (simp_all add: sim_wf_def exmem_ok_def)
  have c: "c_mem_write (ex_ctrl ?e) \<Longrightarrow> \<not> c_reg_write (ex_ctrl ?e)" "c_mem_read (ex_ctrl ?e) \<Longrightarrow> c_reg_write (ex_ctrl ?e)"
    using e(2) by (auto simp: ctrl_ok_def)
  obtain rs m where rm: "retired s = (rs, m)" by (cases "retired s")
  have rs: "regs_wf rs" using retired_wf [OF s] rm by simp
  have rsd: "rf_regs (retire_memwb (sm_memwb s) (sm_rf s)) = rs"
    using rm by (simp add: retire_regs retired_def)
  show "rf_get (retire_exmem ?e (retire_memwb (sm_memwb s) (sm_rf s))) k = reg_read (fst (mem_effect ?e (retired s))) k"
  proof (cases "ex_valid ?e \<and> c_mem_read (ex_ctrl ?e)")
    case True
    with l k have "ex_rd ?e = 0 \<or> ex_rd ?e \<noteq> k" by (auto simp: load_ready_def)
    then have "reg_read (fst (mem_effect ?e (rs, m))) k = reg_read rs k"
      and "reg_read (rf_regs (retire_exmem ?e (retire_memwb (sm_memwb s) (sm_rf s)))) k = reg_read rs k"
      using mem_effect_other [OF rs e(1) ri e(2)] rs e(1) ri rsd by (auto simp: retire_regs reg_read_write)
    then show ?thesis by (simp add: rf_get_regs rm)
  next
    case False
    then have "fst (mem_effect ?e (rs, m)) = rf_regs (retire_exmem ?e (retire_memwb (sm_memwb s) (sm_rf s)))"
      using c rsd by (simp add: retire_regs mem_effect_def Let_def)
    then show ?thesis by (simp add: rf_get_regs rm)
  qed
qed

text \<open>What the execute stage puts into EX/MEM.\<close>

lemma isa_target:
  "snd (isa_effect d pc (rs, m)) = Some a \<Longrightarrow> d_opcode d \<noteq> Some Op_HLT \<Longrightarrow> mem_wrap m a = a"
  by (cases d) (auto simp: Let_def split: if_splits)

lemma ex_eff:
  assumes s: "sim_wf s" and l: "latched (sm_rf s) w (sm_idex s)" and lr: "load_ready (sm_exmem s) (idex_instr (sm_idex s))"
    and h: "hazard_ok s" "id_opcode (sm_idex s) \<noteq> Op_HLT"
    and t: "sm_idex t = sm_idex s" "length (sm_mem t) = length (sm_mem s)" "rf_regs (sm_rf t) = fst (retired s)"
  shows "exmem_eff (sm_exmem (stage_ex (sm_exmem s) (sm_memwb s) t)) (mem_effect (sm_exmem s) (retired s))
       = idex_eff (sm_idex s) (mem_effect (sm_exmem s) (retired s))"
proof -
  let ?E = "sm_exmem s" and ?r = "sm_idex s"
  let ?X = "sm_exmem (stage_ex ?E (sm_memwb s) t)"
  obtain rs m where rm: "retired s = (rs, m)" by (cases "retired s")
  obtain rs2 m2 where rm2: "mem_effect ?E (rs, m) = (rs2, m2)" by (cases "mem_effect ?E (rs, m)")
  have e: "reg_index (ex_rd ?E)" "ctrl_ok (ex_ctrl ?E)" "exmem_ok ?E" "memwb_ok (sm_memwb s)" "rf_wf (sm_rf s)"
    using s by (simp_all add: sim_wf_def exmem_ok_def)
  have wf: "regs_wf rs" "regs_wf rs2"
    using retired_wf [OF s] mem_effect_wf [OF _ e(1), of rs m] rm rm2 by simp_all
  have len: "length m2 = length (sm_mem t)"
    using mem_effect_length [of ?E rs m] t(2) rm rm2 by (simp add: retired_def)
  have ret: "rf_get (sm_rf t) 31 = reg_read rs2 31" if "id_opcode ?r = Op_RET"
  proof -
    have "\<not> (ex_valid ?E \<and> c_reg_write (ex_ctrl ?E) \<and> ex_rd ?E = 31)"
      using h(1) that latched_fields(2) [OF l] by (simp add: hazard_ok_def)
    then show ?thesis
      using mem_effect_other [OF wf(1) e(1) _ e(2), of 31 m] t(3) rm rm2
      by (simp add: rf_get_regs reg_index_def)
  qed
  have i: "idex_instr ?r = decode w" "id_valid ?r"
    using latched_fields(1,2) [OF l] .
  have "operands_ready (sm_rf s) ?E (sm_memwb s) rs2 (decode w)"
    using operands_ready [OF s, of w] lr i rm rm2 by simp
  from ex_result [OF l t(1) e(5,3,4) wf(2) len this ret h(2)]
  have r: "isa_effect (decode w) (id_pc_plus1 ?r - 1) (rs2, m2) =
      (mem_effect ?X (rs2, m2), if pending ?X then Some (ex_jump_pc ?X) else None)"
    by blast
  have "pending ?X \<Longrightarrow> mem_wrap m2 (ex_jump_pc ?X) = ex_jump_pc ?X"
    using isa_target [of "decode w" "id_pc_plus1 ?r - 1" rs2 m2 "ex_jump_pc ?X"] r h(2) latched_fields(3) [OF l] by simp
  with r show ?thesis
    by (simp add: rm rm2 idex_eff_def exmem_eff_def i)
qed

section \<open>The phases of a clock\<close>

definition after_mem :: "sim \<Rightarrow> sim" where
  "after_mem s = snd (stage_mem (stage_wb s))"

definition after_ex :: "sim \<Rightarrow> sim" where
  "after_ex s = stage_ex (sm_exmem s) (sm_memwb s) (after_mem s)"

lemma after_mem:
  assumes ok: "pipe_ok s"
  shows "sm_mem (after_mem s) = snd (mem_effect (sm_exmem s) (retired s))"
    and "rf_regs (sm_rf (after_mem s)) = fst (retired s)"
    and "sm_memwb (after_mem s) = memwb_of (sm_exmem s) (sm_mem s)"
    and "sm_idex (after_mem s) = sm_idex s" "sm_ifid (after_mem s) = sm_ifid s" "sm_pc (after_mem s) = sm_pc s"
    and "mmu_off (after_mem s)" "\<not> sm_halted (after_mem s)" "\<not> sm_fetch_stopped (after_mem s)"
    and "fst (stage_mem (stage_wb s)) = (pending (sm_exmem s), if pending (sm_exmem s) then ex_jump_pc (sm_exmem s) else 0)"
    and "sm_exmem (stage_wb s) = sm_exmem s" "sm_memwb (stage_wb s) = sm_memwb s"
proof -
  have "\<not> (wb_valid (sm_memwb s) \<and> c_halt (wb_ctrl (sm_memwb s)))"
    using ok by (auto simp: pipe_ok_def)
  then obtain rf st where w: "stage_wb s = s\<lparr>sm_rf := rf, sm_stats := st\<rparr>" "rf_regs rf = wb_effect (sm_memwb s) (rf_regs (sm_rf s))"
    by (rule wb_stage)
  have off: "mmu_off (stage_wb s)" using ok by (simp add: w pipe_ok_def mmu_off_def csr_def)
  note b = booksD [OF mem_stage(2) [OF off, of "fst (retired s)"], folded after_mem_def]
  have r: "(fst (retired s), sm_mem s) = retired s" by (simp add: retired_def)
  show "sm_mem (after_mem s) = snd (mem_effect (sm_exmem s) (retired s))"
    "rf_regs (sm_rf (after_mem s)) = fst (retired s)" "sm_memwb (after_mem s) = memwb_of (sm_exmem s) (sm_mem s)"
    "sm_idex (after_mem s) = sm_idex s" "sm_ifid (after_mem s) = sm_ifid s" "sm_pc (after_mem s) = sm_pc s"
    "mmu_off (after_mem s)" "\<not> sm_halted (after_mem s)" "\<not> sm_fetch_stopped (after_mem s)"
    "fst (stage_mem (stage_wb s)) = (pending (sm_exmem s), if pending (sm_exmem s) then ex_jump_pc (sm_exmem s) else 0)"
    "sm_exmem (stage_wb s) = sm_exmem s" "sm_memwb (stage_wb s) = sm_memwb s"
    using b w r ok mem_stage(1) [OF off] by (simp_all add: retired_def pipe_ok_def mmu_off_def csr_def)
qed

lemma after_ex:
  assumes ok: "pipe_ok s"
  shows "sm_mem (after_ex s) = snd (mem_effect (sm_exmem s) (retired s))"
    and "rf_regs (sm_rf (after_ex s)) = fst (retired s)"
    and "sm_memwb (after_ex s) = memwb_of (sm_exmem s) (sm_mem s)"
    and "sm_idex (after_ex s) = sm_idex s" "sm_ifid (after_ex s) = sm_ifid s" "sm_pc (after_ex s) = sm_pc s"
    and "mmu_off (after_ex s)" "\<not> sm_halted (after_ex s)"
    and "sm_fetch_stopped (after_ex s) = (id_valid (sm_idex s) \<and> id_opcode (sm_idex s) = Op_HLT)"
    and "ex_valid (sm_exmem (after_ex s)) = id_valid (sm_idex s)"
    and "id_valid (sm_idex s) \<Longrightarrow> ex_ctrl (sm_exmem (after_ex s)) = id_ctrl (sm_idex s)"
proof -
  note m = after_mem [OF ok]
  have f: "ex_frame (after_mem s) (after_ex s)
      \<and> sm_fetch_stopped (after_ex s) = (id_valid (sm_idex s) \<and> id_opcode (sm_idex s) = Op_HLT)
      \<and> ex_valid (sm_exmem (after_ex s)) = id_valid (sm_idex s)
      \<and> (id_valid (sm_idex s) \<longrightarrow> ex_ctrl (sm_exmem (after_ex s)) = id_ctrl (sm_idex s))"
  proof (cases "id_valid (sm_idex s)")
    case True
    with ok obtain w where "latched (sm_rf s) w (sm_idex s)" by (auto simp: pipe_ok_def)
    from ex_keeps [OF this m(4)] True m(9) show ?thesis by (simp add: after_ex_def)
  next
    case False
    with ex_keeps_invalid [of "after_mem s"] m(4,9) show ?thesis by (simp add: after_ex_def)
  qed
  note d = ex_frameD [OF conjunct1 [OF f]]
  show "sm_mem (after_ex s) = snd (mem_effect (sm_exmem s) (retired s))"
    "rf_regs (sm_rf (after_ex s)) = fst (retired s)" "sm_memwb (after_ex s) = memwb_of (sm_exmem s) (sm_mem s)"
    "sm_idex (after_ex s) = sm_idex s" "sm_ifid (after_ex s) = sm_ifid s" "sm_pc (after_ex s) = sm_pc s"
    "\<not> sm_halted (after_ex s)"
    using d m by simp_all
  show "mmu_off (after_ex s)"
    using d(3) m(7) csr_same by metis
  show "sm_fetch_stopped (after_ex s) = (id_valid (sm_idex s) \<and> id_opcode (sm_idex s) = Op_HLT)"
    "ex_valid (sm_exmem (after_ex s)) = id_valid (sm_idex s)"
    "id_valid (sm_idex s) \<Longrightarrow> ex_ctrl (sm_exmem (after_ex s)) = id_ctrl (sm_idex s)"
    using f by blast+
qed

lemma clock_phases:
  assumes "pipe_ok s" "sm_exec_stall s \<le> 0"
  shows "snd (clock s) = count_cycle (detect_load_use (sm_idex s) (sm_ifid s)) (pending (sm_exmem s))
      (fetch_phase (pending (sm_exmem s)) (if pending (sm_exmem s) then ex_jump_pc (sm_exmem s) else 0)
        (detect_load_use (sm_idex s) (sm_ifid s)) (snd (stage_id_check_hazard (after_ex s))))"
proof -
  have "fst (stage_id_check_hazard (after_ex s)) = detect_load_use (sm_idex s) (sm_ifid s)"
    using after_ex(4,5) [OF assms(1)] by (simp add: stage_id_check_hazard_def Let_def)
  with after_mem(10-12) [OF assms(1)] assms(2) show ?thesis
    by (simp add: clock_def Let_def case_prod_beta after_ex_def after_mem_def)
qed

lemma count_cycle_keeps [simp]:
  "sm_mem (count_cycle st f s) = sm_mem s" "sm_rf (count_cycle st f s) = sm_rf s" "sm_pc (count_cycle st f s) = sm_pc s"
  "sm_halted (count_cycle st f s) = sm_halted s" "sm_fetch_stopped (count_cycle st f s) = sm_fetch_stopped s"
  "sm_ifid (count_cycle st f s) = sm_ifid s" "sm_idex (count_cycle st f s) = sm_idex s"
  "sm_exmem (count_cycle st f s) = sm_exmem s" "sm_memwb (count_cycle st f s) = sm_memwb s"
  by (simp_all add: count_cycle_def Let_def csr_upd_def)

lemma mmu_off_latches [simp]:
  "mmu_off (s\<lparr>sm_idex := r\<rparr>) = mmu_off s" "mmu_off (s\<lparr>sm_stats := t\<rparr>) = mmu_off s"
  by (simp_all add: mmu_off_def csr_def)

lemma mmu_off_count [simp]: "mmu_off (count_cycle st f s) = mmu_off s"
proof -
  have "csr (csr_upd i v t) CSR_STATUS = csr t CSR_STATUS" if "i \<in> {CSR_CYCLE, CSR_CYCLEH, CSR_ICOUNT}" for i v t
    using that by (auto simp: csr_def csr_upd_def csr_consts)
  then show ?thesis
    by (simp add: count_cycle_def Let_def mmu_off_def) (simp add: csr_def)
qed

text \<open>The fetch, with the address it fetches from.\<close>

definition fetched_from :: "int \<Rightarrow> int \<Rightarrow> int \<Rightarrow> ifid_reg \<Rightarrow> int \<Rightarrow> bool" where
  "fetched_from p n w i p' \<longleftrightarrow>
     (if p < n then i = \<lparr>if_instruction = w, if_pc_plus1 = p + 1, if_valid = True\<rparr> \<and> p' = p + 1
      else \<not> if_valid i \<and> p' = p)"

lemma if_stage:
  assumes "mmu_off s" "\<not> sm_fetch_stopped s"
  shows "fetched_from (sm_pc s) (int (length (sm_mem s))) (sm_mem s ! nat (sm_pc s)) (sm_ifid (stage_if s)) (sm_pc (stage_if s))"
    and "same_but_books (s\<lparr>sm_ifid := sm_ifid (stage_if s), sm_pc := sm_pc (stage_if s)\<rparr>) (stage_if s)"
  using assms
  by (auto simp: stage_if_def if_invalidate_def mmu_off_translate Let_def fetched_from_def same_but_books_def)

text \<open>The latches after a clock that is not a stall of the execution unit: all clocks agree on what
  has retired; they differ in the rest by a taken jump, a load-use stall or neither.\<close>

definition clocked :: "sim \<Rightarrow> sim \<Rightarrow> bool" where
  "clocked s t \<longleftrightarrow>
     sm_mem t = snd (mem_effect (sm_exmem s) (retired s)) \<and> rf_regs (sm_rf t) = fst (retired s)
     \<and> sm_memwb t = memwb_of (sm_exmem s) (sm_mem s) \<and> \<not> sm_halted t \<and> mmu_off t \<and> \<not> sm_fetch_stopped t"

definition next_idex :: "sim \<Rightarrow> idex_reg" where
  "next_idex s =
     (if \<not> if_valid (sm_ifid s) then (sm_idex s)\<lparr>id_valid := False\<rparr>
      else if detect_load_use (sm_idex s) (sm_ifid s) then sm_idex s
      else id_decode (sm_rf s) (decode (if_instruction (sm_ifid s))) (cu_decode (if_instruction (sm_ifid s)))
             (if_pc_plus1 (sm_ifid s)) (sm_idex s))"

lemma id_stage: "snd (stage_id_check_hazard s) = s\<lparr>sm_idex := next_idex s\<rparr>"
  by (simp add: stage_id_check_hazard_def next_idex_def Let_def)

lemma clock_flush:
  assumes ok: "pipe_ok s" and st: "sm_exec_stall s \<le> 0" and p: "pending (sm_exmem s)"
  shows "clocked s (snd (clock s))" "\<not> ex_valid (sm_exmem (snd (clock s)))" "\<not> id_valid (sm_idex (snd (clock s)))"
    and "fetched_from (fetch_pc s) (int (length (sm_mem s))) (fetch_word s) (sm_ifid (snd (clock s))) (sm_pc (snd (clock s)))"
proof -
  let ?v = "snd (stage_id_check_hazard (after_ex s))"
  let ?q = "(flush_if_id_ex ?v)\<lparr>sm_pc := wrap_addr (flush_if_id_ex ?v) (ex_jump_pc (sm_exmem s)), sm_fetch_stopped := False\<rparr>"
  note x = after_ex [OF ok]
  obtain r where v: "?v = (after_ex s)\<lparr>sm_idex := r\<rparr>"
    using id_stage by blast
  have q: "mmu_off ?q" "\<not> sm_fetch_stopped ?q"
    using x(7) by (simp_all add: v flush_if_id_ex_def mmu_off_def csr_def)
  have len: "length (snd (mem_effect (sm_exmem s) (retired s))) = length (sm_mem s)"
    by (simp add: retired_def)
  have pc: "sm_pc ?q = fetch_pc s" "sm_mem ?q = snd (mem_effect (sm_exmem s) (retired s))"
    using x(1) p mem_wrap_length [OF len] by (simp_all add: v flush_if_id_ex_def wrap_addr_mem fetch_pc_def)
  have c: "snd (clock s) = count_cycle (detect_load_use (sm_idex s) (sm_ifid s)) True (stage_if ?q)"
    using clock_phases [OF ok st] p by (simp add: fetch_phase_def Let_def)
  note i = if_stage [OF q]
  note b = booksD [OF i(2)]
  show "clocked s (snd (clock s))"
    using b x pc(2) csr_same [of "stage_if ?q" ?q] q by (simp add: c clocked_def v flush_if_id_ex_def)
  show "\<not> ex_valid (sm_exmem (snd (clock s)))" "\<not> id_valid (sm_idex (snd (clock s)))"
    using b by (simp_all add: c flush_if_id_ex_def exmem_flush_def idex_flush_def)
  show "fetched_from (fetch_pc s) (int (length (sm_mem s))) (fetch_word s) (sm_ifid (snd (clock s))) (sm_pc (snd (clock s)))"
    using i(1) by (simp add: c fetch_word_def pc [unfolded fetch_pc_def] fetch_pc_def len)
qed

lemma clock_stall:
  assumes ok: "pipe_ok s" and st: "sm_exec_stall s \<le> 0" and p: "\<not> pending (sm_exmem s)"
    and d: "detect_load_use (sm_idex s) (sm_ifid s)"
    and h: "\<not> (id_valid (sm_idex s) \<and> id_opcode (sm_idex s) = Op_HLT)"
  shows "clocked s (snd (clock s))" "sm_exmem (snd (clock s)) = sm_exmem (after_ex s)"
    and "\<not> id_valid (sm_idex (snd (clock s)))" "sm_ifid (snd (clock s)) = sm_ifid s" "sm_pc (snd (clock s)) = sm_pc s"
proof -
  note x = after_ex [OF ok]
  have c: "snd (clock s) = count_cycle True False
      (upd_stats (\<lambda>t. t\<lparr>st_stalls := st_stalls t + 1\<rparr>)
        ((after_ex s)\<lparr>sm_idex := idex_flush (next_idex (after_ex s))\<rparr>))"
    using clock_phases [OF ok st] p d by (simp add: fetch_phase_def id_stage)
  show "clocked s (snd (clock s))"
    using x h by (simp add: c clocked_def)
  show "sm_exmem (snd (clock s)) = sm_exmem (after_ex s)" "\<not> id_valid (sm_idex (snd (clock s)))"
    "sm_ifid (snd (clock s)) = sm_ifid s" "sm_pc (snd (clock s)) = sm_pc s"
    using x by (simp_all add: c idex_flush_def)
qed

lemma clock_flow:
  assumes ok: "pipe_ok s" and st: "sm_exec_stall s \<le> 0" and p: "\<not> pending (sm_exmem s)"
    and d: "\<not> detect_load_use (sm_idex s) (sm_ifid s)"
    and h: "\<not> (id_valid (sm_idex s) \<and> id_opcode (sm_idex s) = Op_HLT)"
  shows "clocked s (snd (clock s))" "sm_exmem (snd (clock s)) = sm_exmem (after_ex s)"
    and "if_valid (sm_ifid s) \<Longrightarrow> sm_idex (snd (clock s)) =
          id_decode (sm_rf (snd (clock s))) (decode (if_instruction (sm_ifid s))) (cu_decode (if_instruction (sm_ifid s)))
            (if_pc_plus1 (sm_ifid s)) (sm_idex s)"
    and "\<not> if_valid (sm_ifid s) \<Longrightarrow> \<not> id_valid (sm_idex (snd (clock s)))"
    and "fetched_from (fetch_pc s) (int (length (sm_mem s))) (fetch_word s) (sm_ifid (snd (clock s))) (sm_pc (snd (clock s)))"
proof -
  let ?q = "(after_ex s)\<lparr>sm_idex := next_idex (after_ex s)\<rparr>"
  note x = after_ex [OF ok]
  have q: "mmu_off ?q" "\<not> sm_fetch_stopped ?q"
    using x(7,9) h by (simp_all add: mmu_off_def csr_def)
  have c: "snd (clock s) = count_cycle False False (stage_if ?q)"
    using clock_phases [OF ok st] p d by (simp add: fetch_phase_def id_stage)
  have len: "length (snd (mem_effect (sm_exmem s) (retired s))) = length (sm_mem s)"
    by (simp add: retired_def)
  note i = if_stage [OF q]
  note b = booksD [OF i(2)]
  show "clocked s (snd (clock s))"
    using b x csr_same [of "stage_if ?q" ?q] q by (simp add: c clocked_def)
  show "sm_exmem (snd (clock s)) = sm_exmem (after_ex s)"
    using b by (simp add: c)
  show "if_valid (sm_ifid s) \<Longrightarrow> sm_idex (snd (clock s)) =
          id_decode (sm_rf (snd (clock s))) (decode (if_instruction (sm_ifid s))) (cu_decode (if_instruction (sm_ifid s)))
            (if_pc_plus1 (sm_ifid s)) (sm_idex s)"
    "\<not> if_valid (sm_ifid s) \<Longrightarrow> \<not> id_valid (sm_idex (snd (clock s)))"
    using b x d by (simp_all add: c next_idex_def)
  show "fetched_from (fetch_pc s) (int (length (sm_mem s))) (fetch_word s) (sm_ifid (snd (clock s))) (sm_pc (snd (clock s)))"
    using i(1) p x by (simp add: c fetch_word_def fetch_pc_def len)
qed

section \<open>The clock refines the architecture\<close>

lemma retired_clock:
  assumes "pipe_ok s" "clocked s (snd (clock s))"
  shows "retired (snd (clock s)) = mem_effect (sm_exmem s) (retired s)"
proof -
  have "ctrl_ok (ex_ctrl (sm_exmem s))" using assms(1) by (simp add: pipe_ok_def sim_wf_def exmem_ok_def)
  then have "wb_effect (memwb_of (sm_exmem s) (sm_mem s)) (fst (retired s)) = fst (mem_effect (sm_exmem s) (retired s))"
    using wb_effect_of by (simp add: retired_def)
  then show ?thesis
    using assms(2) by (simp add: clocked_def retired_def [of "snd (clock s)"])
qed

lemma fetched_eff:
  assumes "fetched_from p n w i p'" "0 \<le> p" "int (length (ar_mem A)) = n" "A = complete fs p rm"
    and "p < n \<Longrightarrow> \<not> jumps fs rm \<Longrightarrow> ar_mem A ! nat p = w"
  shows "complete (fs @ [ifid_eff i]) p' rm = (if jumps fs rm then A else isa_step A)"
  using assms by (intro complete_fetch [where p = p and n = n and w = w]) (simp_all add: fetched_from_def)

text \<open>The instruction that ID passes on is the one IF fetched.\<close>

lemma idex_eff_decode:
  assumes "core_instr w"
  shows "idex_eff (id_decode rf (decode w) (cu_decode w) p x) rm = ifid_eff \<lparr>if_instruction = w, if_pc_plus1 = p, if_valid = True\<rparr> rm"
proof -
  have "latched rf w (id_decode rf (decode w) (cu_decode w) p x)"
    using assms by (auto simp: latched_def)
  moreover have "id_pc_plus1 (id_decode rf (decode w) (cu_decode w) p x) = p"
    using assms by (cases "decode w") (auto simp: core_instr_def id_base_def)
  ultimately show ?thesis
    using latched_fields by (simp add: idex_eff_def ifid_eff_def)
qed

lemma ex_clock:
  assumes ok: "pipe_ok s" and so: "step_ok s" and p: "\<not> pending (sm_exmem s)"
  shows "exmem_eff (sm_exmem (after_ex s)) (mem_effect (sm_exmem s) (retired s)) = idex_eff (sm_idex s) (mem_effect (sm_exmem s) (retired s))"
proof (cases "id_valid (sm_idex s)")
  case True
  with ok obtain w where l: "latched (sm_rf s) w (sm_idex s)" "load_ready (sm_exmem s) (idex_instr (sm_idex s))"
    by (auto simp: pipe_ok_def)
  have "sim_wf s" "hazard_ok s" "id_opcode (sm_idex s) \<noteq> Op_HLT"
    using ok so p True by (simp_all add: pipe_ok_def step_ok_def)
  from ex_eff [OF this(1) l this(2,3) after_mem(4) [OF ok]] after_mem [OF ok]
  show ?thesis by (simp add: after_ex_def retired_def)
next
  case False
  with after_ex(10) [OF ok] show ?thesis by simp
qed

theorem clock_abs:
  assumes ok: "pipe_ok s" and so: "step_ok s"
  shows "abs_state (snd (clock s)) = (if advances s then isa_step (abs_state s) else abs_state s)"
proof -
  let ?s' = "snd (clock s)"
  let ?rm = "mem_effect (sm_exmem s) (retired s)"
  have hlt: "\<not> pending (sm_exmem s) \<Longrightarrow> \<not> (id_valid (sm_idex s) \<and> id_opcode (sm_idex s) = Op_HLT)"
    using so by (simp add: step_ok_def)
  have fw: "ar_mem (abs_state s) ! nat (fetch_pc s) = fetch_word s"
    if "fetch_pc s < int (length (sm_mem s))" "advances s"
    using so that by (simp add: step_ok_def fetch_ok_def)
  have pc0: "0 \<le> fetch_pc s"
    using ok wrap_addr_range [of s "ex_jump_pc (sm_exmem s)"] by (simp add: fetch_pc_def pipe_ok_def sim_wf_def wrap_addr_mem)
  consider (exec) "0 < sm_exec_stall s" | (flush) "sm_exec_stall s \<le> 0" "pending (sm_exmem s)"
    | (stall) "sm_exec_stall s \<le> 0" "\<not> pending (sm_exmem s)" "detect_load_use (sm_idex s) (sm_ifid s)"
    | (flow) "sm_exec_stall s \<le> 0" "\<not> pending (sm_exmem s)" "\<not> detect_load_use (sm_idex s) (sm_ifid s)"
    by linarith
  then show ?thesis
  proof cases
    case exec
    then show ?thesis
      by (simp add: clock_def Let_def exec_stall_cycle_def csr_upd_def abs_state_def retired_def advances_def)
  next
    case flush
    note c = clock_flush [OF ok flush]
    have A: "abs_state s = complete [] (fetch_pc s) ?rm"
      using flush(2) by (cases ?rm) (simp add: abs_state_cases)
    have "abs_state ?s' = complete ([] @ [ifid_eff (sm_ifid ?s')]) (sm_pc ?s') ?rm"
      using c(2,3) by (simp add: abs_state_def retired_clock [OF ok c(1)])
    also have "\<dots> = isa_step (abs_state s)"
      using fetched_eff [OF c(4) pc0 _ A] fw flush by (simp add: abs_state_length advances_def)
    finally show ?thesis using flush by (simp add: advances_def)
  next
    case stall
    note c = clock_stall [OF ok stall hlt [OF stall(2)]]
    have "abs_state ?s' = complete [idex_eff (sm_idex s), ifid_eff (sm_ifid s)] (sm_pc s) ?rm"
      using c(2-5) ex_clock [OF ok so stall(2)] by (simp add: abs_state_def retired_clock [OF ok c(1)])
    then show ?thesis using stall by (simp add: abs_state_cases advances_def)
  next
    case flow
    note c = clock_flow [OF ok flow hlt [OF flow(2)]]
    have i: "idex_eff (sm_idex ?s') rm = ifid_eff (sm_ifid s) rm" for rm
    proof (cases "if_valid (sm_ifid s)")
      case True
      with ok have "core_instr (if_instruction (sm_ifid s))" by (simp add: pipe_ok_def)
      from idex_eff_decode [OF this] c(3) [OF True] True show ?thesis by (simp add: ifid_eff_def)
    qed (use c(4) in simp)
    have A: "abs_state s = complete [idex_eff (sm_idex s), ifid_eff (sm_ifid s)] (fetch_pc s) ?rm"
      using flow(2) by (simp add: abs_state_cases fetch_pc_def)
    have "abs_state ?s' = complete ([idex_eff (sm_idex s), ifid_eff (sm_ifid s)] @ [ifid_eff (sm_ifid ?s')]) (sm_pc ?s') ?rm"
      using c(2) ex_clock [OF ok so flow(2)] by (simp add: abs_state_def retired_clock [OF ok c(1)] i)
    also have "\<dots> = (if jumps [idex_eff (sm_idex s), ifid_eff (sm_ifid s)] ?rm then abs_state s else isa_step (abs_state s))"
      using flow fw by (intro fetched_eff [OF c(5) pc0 _ A]) (simp_all add: abs_state_length advances_def)
    finally show ?thesis using flow by (simp add: advances_def)
  qed
qed

section \<open>The invariant is kept\<close>

lemma fetched_core:
  assumes "fetched_from (fetch_pc s) (int (length (sm_mem s))) (fetch_word s) i p" "fetch_ok s" "if_valid i"
  shows "core_instr (if_instruction i)"
  using assms by (auto simp: fetched_from_def fetch_ok_def split: if_splits)

lemma ex_rd_load:
  assumes l: "latched rf w r" and s: "sm_idex t = r" and m: "c_mem_read (id_ctrl r)"
  shows "ex_rd (sm_exmem (stage_ex e mw t)) = id_rd r"
proof -
  note lf = latched_fields [OF l]
  have core: "core_instr w" using l by (simp add: latched_def)
  have "ctrl_ok (id_ctrl r)" using lf(4) ctrl_ok_decode by simp
  then have n: "\<not> c_is_nop (id_ctrl r)" "\<not> c_halt (id_ctrl r)"
    using m by (auto simp: ctrl_ok_def)
  have "id_opcode r \<notin> {Op_BREAK, Op_MFC, Op_MTC}"
    using core_opcodes [OF core lf(3)] by (auto simp: opcode_classes)
  then have "stage_ex e mw t = ex_core r (fst (ex_in e mw r)) (snd (ex_in e mw r)) (t\<lparr>sm_exmem := ex_start r\<rparr>)"
    using s lf n core_ctrl [OF core] by (intro stage_ex_core) simp_all
  with m show ?thesis by (simp add: ex_core_def ex_load_def ex_start_def)
qed

lemma load_ready_next:
  assumes ok: "pipe_ok s" and h: "hazard_ok s" and d: "\<not> detect_load_use (sm_idex s) (sm_ifid s)" and v: "if_valid (sm_ifid s)"
  shows "load_ready (sm_exmem (after_ex s)) (decode (if_instruction (sm_ifid s)))"
  unfolding load_ready_def
proof
  assume x: "ex_valid (sm_exmem (after_ex s)) \<and> c_mem_read (ex_ctrl (sm_exmem (after_ex s)))"
  then have i: "id_valid (sm_idex s)" "c_mem_read (id_ctrl (sm_idex s))"
    using after_ex(10,11) [OF ok] by simp_all
  with ok obtain w where l: "latched (sm_rf s) w (sm_idex s)" by (auto simp: pipe_ok_def)
  have core: "core_instr w" using l by (simp add: latched_def)
  note cc = core_ctrl [OF core]
  have rd: "ex_rd (sm_exmem (after_ex s)) = id_rd (sm_idex s)"
    using ex_rd_load [OF l after_mem(4) [OF ok]] i by (simp add: after_ex_def)
  show "ex_rd (sm_exmem (after_ex s)) = 0 \<or> ex_rd (sm_exmem (after_ex s)) \<notin> set (source_regs (decode (if_instruction (sm_ifid s))))"
    using h d v i cc latched_fields(4) [OF l] by (auto simp: rd hazard_ok_def load_in_ex_def)
qed

theorem clock_pipe_ok:
  assumes ok: "pipe_ok s" and so: "step_ok s"
  shows "pipe_ok (snd (clock s))"
proof -
  let ?s' = "snd (clock s)"
  have wf: "sim_wf ?s'" using ok by (simp add: pipe_ok_def sim_wf_clock)
  have hlt: "\<not> pending (sm_exmem s) \<Longrightarrow> \<not> (id_valid (sm_idex s) \<and> id_opcode (sm_idex s) = Op_HLT)"
    and fo: "fetch_ok s"
    using so by (simp_all add: step_ok_def)
  have ex: "\<not> c_halt (ex_ctrl (sm_exmem (after_ex s)))"
    if p: "\<not> pending (sm_exmem s)" and v: "ex_valid (sm_exmem (after_ex s))"
  proof -
    have i: "id_valid (sm_idex s)" using v after_ex(10) [OF ok] by simp
    with ok obtain w where l: "latched (sm_rf s) w (sm_idex s)" by (auto simp: pipe_ok_def)
    then have "core_instr w" by (simp add: latched_def)
    from core_ctrl(5) [OF this latched_fields(3) [OF l]] show ?thesis
      using hlt [OF p] i after_ex(11) [OF ok i] latched_fields(4) [OF l] by simp
  qed
  have common: "mmu_off ?s' \<and> \<not> sm_halted ?s' \<and> \<not> sm_fetch_stopped ?s'
      \<and> (wb_valid (sm_memwb ?s') \<longrightarrow> \<not> c_halt (wb_ctrl (sm_memwb ?s')))" if "clocked s ?s'"
    using that ok by (simp add: clocked_def memwb_of_def pipe_ok_def)
  consider (exec) "0 < sm_exec_stall s" | (flush) "sm_exec_stall s \<le> 0" "pending (sm_exmem s)"
    | (stall) "sm_exec_stall s \<le> 0" "\<not> pending (sm_exmem s)" "detect_load_use (sm_idex s) (sm_ifid s)"
    | (flow) "sm_exec_stall s \<le> 0" "\<not> pending (sm_exmem s)" "\<not> detect_load_use (sm_idex s) (sm_ifid s)"
    by linarith
  then show ?thesis
  proof cases
    case exec
    have "mmu_off (exec_stall_cycle s) = mmu_off s"
      by (simp add: exec_stall_cycle_def Let_def csr_upd_def mmu_off_def csr_def) (simp add: csr_consts)
    with exec ok wf show ?thesis
      by (simp add: clock_def Let_def pipe_ok_def) (simp add: exec_stall_cycle_def csr_upd_def Let_def)
  next
    case flush
    note c = clock_flush [OF ok flush]
    show ?thesis
      using wf common [OF c(1)] c(2,3) fetched_core [OF c(4) fo] by (simp add: pipe_ok_def)
  next
    case stall
    note c = clock_stall [OF ok stall hlt [OF stall(2)]]
    show ?thesis
      using wf common [OF c(1)] c(2-4) ex [OF stall(2)] ok by (simp add: pipe_ok_def)
  next
    case flow
    note c = clock_flow [OF ok flow hlt [OF flow(2)]]
    have "(\<exists>w. latched (sm_rf ?s') w (sm_idex ?s')) \<and> load_ready (sm_exmem ?s') (idex_instr (sm_idex ?s'))"
      if "id_valid (sm_idex ?s')"
    proof -
      have v: "if_valid (sm_ifid s)" using c(4) that by blast
      with ok have core: "core_instr (if_instruction (sm_ifid s))" by (simp add: pipe_ok_def)
      have l: "latched (sm_rf ?s') (if_instruction (sm_ifid s)) (sm_idex ?s')"
        using c(3) [OF v] core by (auto simp: latched_def)
      with load_ready_next [OF ok _ flow(3) v] so flow(2) c(2) latched_fields(1) [OF l] show ?thesis
        by (auto simp: step_ok_def)
    qed
    with wf common [OF c(1)] c(2) ex [OF flow(2)] fetched_core [OF c(5) fo] show ?thesis
      by (simp add: pipe_ok_def)
  qed
qed

end
