(* ===== verification/Pipeline_Run.thy ===== *)
theory Pipeline_Run
  imports Pipeline_Refinement
begin

unbundle bit_operations_syntax

text \<open>
  Whole runs of the pipeline: a run of clocks is a run of the architecture, and \<open>HLT\<close> stops the
  machine with the registers and the memory of the architecture.
\<close>

section \<open>Runs\<close>

abbreviation tick :: "sim \<Rightarrow> sim" where
  "tick s \<equiv> snd (sim_step s)"

lemma tick_clock: "\<not> sm_halted s \<Longrightarrow> \<exists>h. tick s = (snd (clock s))\<lparr>sm_history := h\<rparr>"
  by (auto simp: sim_step_def case_prod_beta Let_def)

lemma tick_halted [simp]: "sm_halted s \<Longrightarrow> tick s = s"
  by (simp add: sim_step_def)

lemma history_irrelevant [simp]:
  "mmu_off (s\<lparr>sm_history := h\<rparr>) = mmu_off s" "retired (s\<lparr>sm_history := h\<rparr>) = retired s"
  "abs_state (s\<lparr>sm_history := h\<rparr>) = abs_state s" "pipe_ok (s\<lparr>sm_history := h\<rparr>) = pipe_ok s"
  by (simp_all add: mmu_off_def csr_def retired_def abs_state_def pipe_ok_def wf_simps)

fun advanced :: "nat \<Rightarrow> sim \<Rightarrow> nat" where
  "advanced 0 s = 0"
| "advanced (Suc k) s = (if advances s then 1 else 0) + advanced k (tick s)"

fun run_ok :: "nat \<Rightarrow> sim \<Rightarrow> bool" where
  "run_ok 0 s = True"
| "run_ok (Suc k) s = (step_ok s \<and> run_ok k (tick s))"

lemma tick_refines:
  assumes "pipe_ok s" "step_ok s"
  shows "pipe_ok (tick s)" "abs_state (tick s) = (if advances s then isa_step (abs_state s) else abs_state s)"
proof -
  have "\<not> sm_halted s" using assms(1) by (simp add: pipe_ok_def)
  then obtain h where "tick s = (snd (clock s))\<lparr>sm_history := h\<rparr>" using tick_clock by blast
  then show "pipe_ok (tick s)" "abs_state (tick s) = (if advances s then isa_step (abs_state s) else abs_state s)"
    using clock_pipe_ok [OF assms] clock_abs [OF assms] by simp_all
qed

lemma run_refines:
  "pipe_ok s \<Longrightarrow> run_ok k s \<Longrightarrow>
     pipe_ok ((tick ^^ k) s) \<and> abs_state ((tick ^^ k) s) = (isa_step ^^ advanced k s) (abs_state s)"
proof (induction k arbitrary: s)
  case (Suc k)
  then have s: "step_ok s" "run_ok k (tick s)" by simp_all
  from Suc.IH [OF tick_refines(1) [OF Suc.prems(1) s(1)] s(2)] tick_refines(2) [OF Suc.prems(1) s(1)]
  show ?case by (simp del: funpow.simps add: funpow_Suc_right)
qed simp

section \<open>Any clock, once the stop has begun\<close>

lemma wb_stage_any:
  obtains rf st lg where
    "stage_wb s = s\<lparr>sm_rf := rf, sm_stats := st, sm_log := lg, sm_halted := sm_halted s \<or> wb_valid (sm_memwb s) \<and> c_halt (wb_ctrl (sm_memwb s))\<rparr>"
    and "rf_regs rf = (if wb_valid (sm_memwb s) \<and> c_halt (wb_ctrl (sm_memwb s)) then rf_regs (sm_rf s) else fst (retired s))"
proof (cases "wb_valid (sm_memwb s) \<and> c_halt (wb_ctrl (sm_memwb s))")
  case True
  then have "stage_wb s = s\<lparr>sm_rf := sm_rf s, sm_stats := sm_stats s,
      sm_log := sm_log s @ [(cycles s, Log_Halt (cycles s))], sm_halted := True\<rparr>"
    by (simp add: stage_wb_def Let_def log_add_def)
  with True show ?thesis
    by (intro that [where rf = "sm_rf s" and st = "sm_stats s" and lg = "sm_log s @ [(cycles s, Log_Halt (cycles s))]"]) simp_all
next
  case False
  then obtain rf st where "stage_wb s = s\<lparr>sm_rf := rf, sm_stats := st\<rparr>" "rf_regs rf = wb_effect (sm_memwb s) (rf_regs (sm_rf s))"
    by (rule wb_stage)
  with False show ?thesis by (intro that [where rf = rf and st = st and lg = "sm_log s"])
      (cases "wb_valid (sm_memwb s)"; simp add: retired_def)+
qed

lemma fetch_phase_keeps:
  assumes "mmu_off s"
  shows "sm_mem (fetch_phase j p st s) = sm_mem s" "sm_rf (fetch_phase j p st s) = sm_rf s"
    "sm_halted (fetch_phase j p st s) = sm_halted s" "sm_memwb (fetch_phase j p st s) = sm_memwb s"
    "sm_csrs (fetch_phase j p st s) = sm_csrs s"
    "\<not> j \<Longrightarrow> sm_exmem (fetch_phase j p st s) = sm_exmem s"
    "\<not> id_valid (sm_idex s) \<Longrightarrow> \<not> id_valid (sm_idex (fetch_phase j p st s))"
  using assms
  by (simp_all add: fetch_phase_def stage_if_def if_invalidate_def Let_def mmu_off_translate flush_if_id_ex_def
      idex_flush_def mmu_off_def csr_def translate_addr_def mmu_active_def)

text \<open>What a clock does when no more than core instructions are in flight, halted or not.\<close>

lemma clock_any:
  assumes off: "mmu_off s" and st: "sm_exec_stall s \<le> 0" and l: "id_valid (sm_idex s) \<longrightarrow> (\<exists>rf w. latched rf w (sm_idex s))"
  shows "sm_mem (snd (clock s)) = snd (mem_effect (sm_exmem s) (retired s))"
    and "rf_regs (sm_rf (snd (clock s))) =
      (if wb_valid (sm_memwb s) \<and> c_halt (wb_ctrl (sm_memwb s)) then rf_regs (sm_rf s) else fst (retired s))"
    and "sm_memwb (snd (clock s)) = memwb_of (sm_exmem s) (sm_mem s)"
    and "sm_halted (snd (clock s)) = (sm_halted s \<or> wb_valid (sm_memwb s) \<and> c_halt (wb_ctrl (sm_memwb s)))"
    and "mmu_off (snd (clock s))"
    and "\<not> pending (sm_exmem s) \<Longrightarrow> ex_valid (sm_exmem (snd (clock s))) = id_valid (sm_idex s)
      \<and> (id_valid (sm_idex s) \<longrightarrow> ex_ctrl (sm_exmem (snd (clock s))) = id_ctrl (sm_idex s))"
    and "\<not> if_valid (sm_ifid s) \<Longrightarrow> \<not> id_valid (sm_idex (snd (clock s)))"
proof -
  let ?E = "sm_exmem s" and ?h = "wb_valid (sm_memwb s) \<and> c_halt (wb_ctrl (sm_memwb s))"
  obtain rf sta lg where w: "stage_wb s = s\<lparr>sm_rf := rf, sm_stats := sta, sm_log := lg, sm_halted := sm_halted s \<or> ?h\<rparr>"
    "rf_regs rf = (if ?h then rf_regs (sm_rf s) else fst (retired s))"
    by (rule wb_stage_any)
  define u where "u = stage_wb s"
  have u: "mmu_off u" "sm_mem u = sm_mem s" "rf_regs (sm_rf u) = (if ?h then rf_regs (sm_rf s) else fst (retired s))"
    "sm_halted u = (sm_halted s \<or> ?h)" "sm_exmem u = ?E" "sm_idex u = sm_idex s" "sm_ifid u = sm_ifid s" "sm_memwb u = sm_memwb s"
    using off by (simp_all add: u_def w mmu_off_def csr_def)
  define m where "m = snd (stage_mem u)"
  have r: "(fst (retired s), sm_mem s) = retired s" by (simp add: retired_def)
  note b = booksD [OF mem_stage(2) [OF u(1), of "fst (retired s)"], folded m_def]
  have m: "mmu_off m" "sm_mem m = snd (mem_effect ?E (retired s))" "sm_rf m = sm_rf u" "sm_halted m = sm_halted u"
    "sm_idex m = sm_idex s" "sm_ifid m = sm_ifid s" "sm_memwb m = memwb_of ?E (sm_mem s)"
    using b u r csr_same [of m u] by simp_all
  define x where "x = stage_ex ?E (sm_memwb s) m"
  have f: "ex_frame m x \<and> ex_valid (sm_exmem x) = id_valid (sm_idex s)
      \<and> (id_valid (sm_idex s) \<longrightarrow> ex_ctrl (sm_exmem x) = id_ctrl (sm_idex s))"
  proof (cases "id_valid (sm_idex s)")
    case True
    with l obtain rf w' where "latched rf w' (sm_idex s)" by blast
    from ex_keeps [OF this m(5)] True show ?thesis by (simp add: x_def)
  next
    case False
    with ex_keeps_invalid [of m] m(5) show ?thesis by (simp add: x_def)
  qed
  note d = ex_frameD [OF conjunct1 [OF f]]
  define y where "y = x\<lparr>sm_idex := next_idex x\<rparr>"
  have o: "mmu_off y" "mmu_off x" using m(1) csr_same [OF d(3)] by (simp_all add: y_def)
  note k = fetch_phase_keeps [OF o(1)]
  have c: "snd (clock s) = count_cycle (fst (stage_id_check_hazard x)) (pending ?E)
      (fetch_phase (pending ?E) (if pending ?E then ex_jump_pc ?E else 0) (fst (stage_id_check_hazard x)) y)"
    using st mem_stage(1) [OF u(1)] u(5,8)
    by (simp add: clock_def Let_def case_prod_beta id_stage u_def m_def x_def y_def)
  show "sm_mem (snd (clock s)) = snd (mem_effect ?E (retired s))"
    and "rf_regs (sm_rf (snd (clock s))) = (if ?h then rf_regs (sm_rf s) else fst (retired s))"
    and "sm_memwb (snd (clock s)) = memwb_of ?E (sm_mem s)" and "sm_halted (snd (clock s)) = (sm_halted s \<or> ?h)"
    using k d u m by (simp_all add: c y_def)
  show "mmu_off (snd (clock s))"
    using o(1) csr_same [OF k(5)] by (simp add: c)
  show "\<not> pending ?E \<Longrightarrow> ex_valid (sm_exmem (snd (clock s))) = id_valid (sm_idex s)
      \<and> (id_valid (sm_idex s) \<longrightarrow> ex_ctrl (sm_exmem (snd (clock s))) = id_ctrl (sm_idex s))"
    using k(6) f by (simp add: c y_def)
  show "\<not> if_valid (sm_ifid s) \<Longrightarrow> \<not> id_valid (sm_idex (snd (clock s)))"
    using k(7) d m by (simp add: c y_def next_idex_def)
qed

section \<open>The stop\<close>

text \<open>\<open>HLT\<close> has reached ID/EX and the instruction behind it is not a store.\<close>

definition at_halt :: "sim \<Rightarrow> bool" where
  "at_halt s \<longleftrightarrow>
     id_valid (sm_idex s) \<and> id_opcode (sm_idex s) = Op_HLT \<and> \<not> pending (sm_exmem s)
     \<and> (if_valid (sm_ifid s) \<longrightarrow> \<not> c_mem_write (cu_decode (if_instruction (sm_ifid s))))"

lemma halt_latch:
  assumes ok: "pipe_ok s" and h: "at_halt s"
  shows "id_ctrl (sm_idex s) = ControlSignals\<lparr>c_halt := True\<rparr>" "idex_instr (sm_idex s) = D_J Op_HLT (id_addr (sm_idex s))"
proof -
  from ok h obtain w where l: "latched (sm_rf s) w (sm_idex s)" by (auto simp: pipe_ok_def at_halt_def)
  note lf = latched_fields [OF l]
  have opc: "d_opcode (decode w) = Some Op_HLT" using lf(3) h by (simp add: at_halt_def)
  then have "w \<noteq> 0" by (auto simp: decode_zero)
  with cu_decode_core [OF _ opc] lf(4) show "id_ctrl (sm_idex s) = ControlSignals\<lparr>c_halt := True\<rparr>"
    by (simp add: cu_jumps)
  have "decode w = D_J Op_HLT a \<Longrightarrow> id_addr (sm_idex s) = a" for a
    using l by (auto simp: latched_def id_base_def)
  then show "idex_instr (sm_idex s) = D_J Op_HLT (id_addr (sm_idex s))"
    using lf(1) opc decode_ok [of w] by (cases "decode w") auto
qed

lemma abs_at_halt:
  assumes "pipe_ok s" "at_halt s"
  shows "ar_regs (abs_state s) = fst (mem_effect (sm_exmem s) (retired s))"
    and "ar_mem (abs_state s) = snd (mem_effect (sm_exmem s) (retired s))"
  using assms(2)
  by (cases "mem_effect (sm_exmem s) (retired s)";
      simp add: abs_state_cases idex_eff_def halt_latch(2) [OF assms] at_halt_def)+

lemma after_mem_stall: "pipe_ok s \<Longrightarrow> sm_exec_stall (after_mem s) = sm_exec_stall s"
proof -
  assume ok: "pipe_ok s"
  have "\<not> (wb_valid (sm_memwb s) \<and> c_halt (wb_ctrl (sm_memwb s)))"
    using ok by (auto simp: pipe_ok_def)
  then obtain rf st where w: "stage_wb s = s\<lparr>sm_rf := rf, sm_stats := st\<rparr>"
    by (rule wb_stage)
  have off: "mmu_off (stage_wb s)" using ok by (simp add: w pipe_ok_def mmu_off_def csr_def)
  from booksD(7) [OF mem_stage(2) [OF off, of "[]"]] show ?thesis by (simp add: after_mem_def w)
qed

lemma count_cycle_stall [simp]: "sm_exec_stall (count_cycle st f s) = sm_exec_stall s"
  by (simp add: count_cycle_def Let_def csr_upd_def)

text \<open>First clock: the stop is in EX/MEM, the fetch has stopped.\<close>

lemma halt_clock1:
  assumes ok: "pipe_ok s" and h: "at_halt s" and st: "sm_exec_stall s \<le> 0"
  shows "sm_exmem (snd (clock s)) = ex_start (sm_idex s)" "\<not> if_valid (sm_ifid (snd (clock s)))"
    and "sm_exec_stall (snd (clock s)) \<le> 0"
    and "id_valid (sm_idex (snd (clock s))) \<Longrightarrow> \<exists>rf w. latched rf w (sm_idex (snd (clock s))) \<and> \<not> c_mem_write (id_ctrl (sm_idex (snd (clock s))))"
proof -
  note x = after_ex [OF ok]
  have hv: "id_valid (sm_idex s)" "id_opcode (sm_idex s) = Op_HLT" "\<not> pending (sm_exmem s)"
    using h by (simp_all add: at_halt_def)
  have d: "\<not> detect_load_use (sm_idex s) (sm_ifid s)"
    using halt_latch [OF ok h] by (simp add: detect_load_use_def ControlSignals_def)
  let ?q = "(after_ex s)\<lparr>sm_idex := next_idex (after_ex s)\<rparr>"
  have c: "snd (clock s) = count_cycle False False (if_invalidate ?q)"
    using clock_phases [OF ok st] hv d x(9) by (simp add: fetch_phase_def id_stage stage_if_def)
  have e: "after_ex s = (after_mem s)\<lparr>sm_exmem := ex_start (sm_idex s), sm_fetch_stopped := True\<rparr>"
    using stage_ex_halt [of "after_mem s"] after_mem(4) [OF ok] hv halt_latch [OF ok h] by (simp add: after_ex_def)
  show "sm_exmem (snd (clock s)) = ex_start (sm_idex s)" "\<not> if_valid (sm_ifid (snd (clock s)))"
    by (simp_all add: c if_invalidate_def e)
  show "sm_exec_stall (snd (clock s)) \<le> 0"
    using st by (simp add: c if_invalidate_def e after_mem_stall [OF ok])
  show "\<exists>rf w. latched rf w (sm_idex (snd (clock s))) \<and> \<not> c_mem_write (id_ctrl (sm_idex (snd (clock s))))"
    if "id_valid (sm_idex (snd (clock s)))"
  proof -
    have i: "sm_idex (snd (clock s)) = next_idex (after_ex s)" by (simp add: c if_invalidate_def)
    with that x have v: "if_valid (sm_ifid s)" by (auto simp: next_idex_def split: if_splits)
    with ok have "core_instr (if_instruction (sm_ifid s))" by (simp add: pipe_ok_def)
    then have l: "latched (sm_rf (after_ex s)) (if_instruction (sm_ifid s)) (next_idex (after_ex s))"
      using v d x by (auto simp: latched_def next_idex_def)
    with latched_fields(4) [OF l] h v i show ?thesis by (auto simp: at_halt_def)
  qed
qed

text \<open>The clocks an arithmetic instruction behind the stop still takes do not matter.\<close>

definition frozen :: "sim \<Rightarrow> sim \<Rightarrow> bool" where
  "frozen s t \<longleftrightarrow>
     sm_mem t = sm_mem s \<and> sm_rf t = sm_rf s \<and> sm_idex t = sm_idex s \<and> sm_exmem t = sm_exmem s
     \<and> sm_memwb t = sm_memwb s \<and> sm_ifid t = sm_ifid s \<and> sm_halted t = sm_halted s \<and> mmu_off t = mmu_off s
     \<and> sm_pc t = sm_pc s \<and> sm_fetch_stopped t = sm_fetch_stopped s"

lemma clock_frozen: "0 < sm_exec_stall s \<Longrightarrow> frozen s (snd (clock s)) \<and> sm_exec_stall (snd (clock s)) = sm_exec_stall s - 1"
proof -
  have "mmu_off (exec_stall_cycle s) = mmu_off s"
    by (simp add: exec_stall_cycle_def Let_def csr_upd_def mmu_off_def csr_def) (simp add: csr_consts)
  then show "0 < sm_exec_stall s \<Longrightarrow> ?thesis"
    by (simp add: clock_def Let_def frozen_def) (simp add: exec_stall_cycle_def csr_upd_def Let_def)
qed

lemma frozen_ticks:
  "\<not> sm_halted s \<Longrightarrow> 0 \<le> sm_exec_stall s \<Longrightarrow>
     frozen s ((tick ^^ nat (sm_exec_stall s)) s) \<and> sm_exec_stall ((tick ^^ nat (sm_exec_stall s)) s) = 0"
proof (induction "nat (sm_exec_stall s)" arbitrary: s)
  case 0
  then show ?case by (simp add: frozen_def)
next
  case (Suc n)
  have p: "0 < sm_exec_stall s" using Suc.hyps(2) by simp
  obtain h where t: "tick s = (snd (clock s))\<lparr>sm_history := h\<rparr>" using tick_clock Suc.prems(1) by blast
  have f: "frozen s (tick s)" "sm_exec_stall (tick s) = sm_exec_stall s - 1"
    using clock_frozen [OF p] by (simp_all add: t frozen_def)
  have n: "n = nat (sm_exec_stall (tick s))" using Suc.hyps(2) f(2) by simp
  have "frozen (tick s) ((tick ^^ n) (tick s)) \<and> sm_exec_stall ((tick ^^ n) (tick s)) = 0"
    using Suc.hyps(1) [OF n] f p Suc.prems(1) n by (simp add: frozen_def)
  with f Suc.hyps(2) [symmetric] show ?case
    by (simp del: funpow.simps add: funpow_Suc_right frozen_def)
qed

lemma sim_wf_ticks: "sim_wf s \<Longrightarrow> sim_wf ((tick ^^ k) s)"
  by (induction k) (simp_all add: sim_wf_step)

lemma frozen_pipe_ok: "frozen s t \<Longrightarrow> sim_wf t \<Longrightarrow> pipe_ok s \<Longrightarrow> pipe_ok t"
  by (simp add: frozen_def pipe_ok_def)

lemma mem_effect_halt: "c_halt (ex_ctrl e) \<Longrightarrow> ctrl_ok (ex_ctrl e) \<Longrightarrow> mem_effect e rm = rm"
  by (cases rm) (simp add: mem_effect_def Let_def ctrl_ok_def)

text \<open>The three clocks that do change the latches, without the stalls between them.\<close>

lemma halt_clocks:
  assumes ok: "pipe_ok s" and h: "at_halt s" and st: "sm_exec_stall s \<le> 0"
  defines "t \<equiv> snd (clock (tick s))"
  shows "\<not> sm_halted t" "mmu_off t" "rf_regs (sm_rf t) = ar_regs (abs_state s)" "sm_mem t = ar_mem (abs_state s)"
    and "wb_valid (sm_memwb t) \<and> c_halt (wb_ctrl (sm_memwb t))" "\<not> id_valid (sm_idex t)"
    and "ex_valid (sm_exmem t) \<Longrightarrow> \<not> c_mem_write (ex_ctrl (sm_exmem t))"
    and "\<not> sm_halted (tick s)"
proof -
  have hv: "id_valid (sm_idex s)" "\<not> pending (sm_exmem s)" and off: "mmu_off s" and nh: "\<not> sm_halted s"
    using ok h by (simp_all add: at_halt_def pipe_ok_def)
  obtain hist where t1: "tick s = (snd (clock s))\<lparr>sm_history := hist\<rparr>" using tick_clock nh by blast
  have wbh: "\<not> (wb_valid (sm_memwb s) \<and> c_halt (wb_ctrl (sm_memwb s)))" "ex_valid (sm_exmem s) \<longrightarrow> \<not> c_halt (ex_ctrl (sm_exmem s))"
    using ok by (auto simp: pipe_ok_def)
  have lat: "id_valid (sm_idex s) \<longrightarrow> (\<exists>rf w. latched rf w (sm_idex s))" using ok by (auto simp: pipe_ok_def)
  note c1 = clock_any [OF off st lat]
  note a1 = halt_clock1 [OF ok h st]
  have "ctrl_ok (ex_ctrl (sm_exmem s))" using ok by (simp add: pipe_ok_def sim_wf_def exmem_ok_def)
  then have ret: "retired (tick s) = mem_effect (sm_exmem s) (retired s)"
    using c1(1-3) wbh(1) wb_effect_of [of "sm_exmem s" "sm_mem s" "fst (retired s)"]
    by (simp add: t1 retired_def [of "snd (clock s)"]) (simp add: retired_def)
  have ctl: "ex_ctrl (sm_exmem (tick s)) = ControlSignals\<lparr>c_halt := True\<rparr>" "ex_valid (sm_exmem (tick s))"
      "\<not> pending (sm_exmem (tick s))"
    using a1(1) halt_latch(1) [OF ok h] hv by (simp_all add: t1 ex_start_def pending_def)
  then have me: "mem_effect (sm_exmem (tick s)) rm = rm" for rm
    by (intro mem_effect_halt) (simp_all add: ctrl_ok_def ControlSignals_def)
  have wb1: "\<not> (wb_valid (sm_memwb (tick s)) \<and> c_halt (wb_ctrl (sm_memwb (tick s))))"
    using c1(3) wbh(2) by (simp add: t1 memwb_of_def)
  have lat1: "id_valid (sm_idex (tick s)) \<longrightarrow> (\<exists>rf w. latched rf w (sm_idex (tick s)))"
    using a1(4) by (auto simp: t1)
  have "mmu_off (tick s)" "sm_exec_stall (tick s) \<le> 0"
    using c1(5) a1(3) by (simp_all add: t1)
  note c2 = clock_any [OF this lat1, folded t_def]
  show "\<not> sm_halted (tick s)" using c1(4) wbh(1) nh by (simp add: t1)
  show "\<not> sm_halted t" using c2(4) wb1 c1(4) wbh(1) nh by (simp add: t1)
  show "mmu_off t" by (rule c2(5))
  show "rf_regs (sm_rf t) = ar_regs (abs_state s)" "sm_mem t = ar_mem (abs_state s)"
    using c2(1,2) wb1 me ret abs_at_halt [OF ok h] by simp_all
  show "wb_valid (sm_memwb t) \<and> c_halt (wb_ctrl (sm_memwb t))"
    using c2(3) ctl(1,2) by (simp add: memwb_of_def)
  show "\<not> id_valid (sm_idex t)" using c2(7) a1(2) by (simp add: t1)
  show "ex_valid (sm_exmem t) \<Longrightarrow> \<not> c_mem_write (ex_ctrl (sm_exmem t))"
    using c2(6) [OF ctl(3)] a1(4) by (auto simp: t1)
qed

theorem halt_stops:
  assumes ok: "pipe_ok s" and h: "at_halt s"
  shows "\<exists>k\<le>65. sm_halted ((tick ^^ k) s) \<and> rf_regs (sm_rf ((tick ^^ k) s)) = ar_regs (abs_state s)
      \<and> sm_mem ((tick ^^ k) s) = ar_mem (abs_state s)"
proof -
  define n where "n = nat (sm_exec_stall s)"
  define a where "a = (tick ^^ n) s"
  have wf: "sim_wf s" "\<not> sm_halted s" using ok by (simp_all add: pipe_ok_def)
  then have "0 \<le> sm_exec_stall s \<and> sm_exec_stall s \<le> 31" by (simp add: sim_wf_def)
  then have n: "n \<le> 31" "0 \<le> sm_exec_stall s" unfolding n_def by linarith+
  have fa: "frozen s a" "sm_exec_stall a = 0"
    using frozen_ticks [OF wf(2) n(2)] by (simp_all add: a_def n_def)
  have oka: "pipe_ok a" using frozen_pipe_ok [OF fa(1) _ ok] sim_wf_ticks [OF wf(1)] by (simp add: a_def)
  have ha: "at_halt a" "abs_state a = abs_state s"
    using fa(1) h by (simp_all add: at_halt_def frozen_def abs_state_def retired_def)
  have "sm_exec_stall a \<le> 0" using fa(2) by simp
  note c = halt_clocks [OF oka ha(1) this]
  define b where "b = tick (tick a)"
  obtain hist where b: "b = (snd (clock (tick a)))\<lparr>sm_history := hist\<rparr>"
    using tick_clock [OF c(8)] by (auto simp: b_def)
  define m where "m = nat (sm_exec_stall b)"
  define d where "d = (tick ^^ m) b"
  have wfb: "sim_wf b" using sim_wf_ticks [of s "Suc (Suc n)"] wf(1) by (simp add: a_def b_def)
  then have "0 \<le> sm_exec_stall b \<and> sm_exec_stall b \<le> 31" by (simp add: sim_wf_def)
  then have m: "m \<le> 31" "0 \<le> sm_exec_stall b" unfolding m_def by linarith+
  have fd: "frozen b d" "sm_exec_stall d = 0"
    using frozen_ticks [of b] m(2) c by (simp_all add: d_def m_def b)
  have e: "rf_regs (sm_rf (snd (clock d))) = ar_regs (abs_state s)" "sm_mem (snd (clock d)) = ar_mem (abs_state s)"
      "sm_halted (snd (clock d))" "\<not> sm_halted d"
  proof -
    have dd: "mmu_off d" "sm_exec_stall d \<le> 0" "\<not> id_valid (sm_idex d)" "sm_mem d = ar_mem (abs_state s)"
      "rf_regs (sm_rf d) = ar_regs (abs_state s)" "wb_valid (sm_memwb d) \<and> c_halt (wb_ctrl (sm_memwb d))"
      "ex_valid (sm_exmem d) \<longrightarrow> \<not> c_mem_write (ex_ctrl (sm_exmem d))"
      using fd c ha(2) by (simp_all add: frozen_def b)
    from dd(3) have "id_valid (sm_idex d) \<longrightarrow> (\<exists>rf w. latched rf w (sm_idex d))" by blast
    note e = clock_any [OF dd(1,2) this]
    have "snd (mem_effect (sm_exmem d) (retired d)) = sm_mem d"
      using dd(7) by (simp add: mem_effect_def retired_def Let_def)
    with e dd show "rf_regs (sm_rf (snd (clock d))) = ar_regs (abs_state s)" "sm_mem (snd (clock d)) = ar_mem (abs_state s)"
      "sm_halted (snd (clock d))" by simp_all
    show "\<not> sm_halted d" using fd(1) c(1) by (simp add: frozen_def b)
  qed
  obtain hist' where "tick d = (snd (clock d))\<lparr>sm_history := hist'\<rparr>"
    using tick_clock e(4) by blast
  moreover have "tick d = (tick ^^ (Suc (m + Suc (Suc n)))) s"
    by (simp only: d_def b_def a_def funpow_add funpow.simps o_apply)
  ultimately show ?thesis
    using e n m ha(2) by (intro exI [of _ "Suc (m + Suc (Suc n))"]) simp
qed

section \<open>The run loop\<close>

lemma tick_cycles: "cycles (tick s) = (if sm_halted s then cycles s else cycles s + 1)"
  by (rule sim_step_cycles)

lemma halted_ticks [simp]: "sm_halted s \<Longrightarrow> (tick ^^ n) s = s"
  by (induction n) simp_all

lemma sim_loop_ticks:
  "sm_halted ((tick ^^ n) s) \<Longrightarrow> cycles s + int n \<le> m \<Longrightarrow> sim_loop m s = (tick ^^ n) s"
proof (induction n arbitrary: s)
  case 0
  then show ?case by (simp add: sim_loop_stop)
next
  case (Suc n)
  show ?case
  proof (cases "sm_halted s")
    case True
    then show ?thesis by (simp del: funpow.simps add: sim_loop_stop)
  next
    case False
    have "sim_loop m (tick s) = (tick ^^ n) (tick s)"
      using Suc.prems False by (intro Suc.IH) (simp_all del: funpow.simps add: funpow_Suc_right tick_cycles)
    then show ?thesis
      using False Suc.prems by (subst sim_loop.simps) (simp del: funpow.simps add: funpow_Suc_right)
  qed
qed

lemma run_halts:
  assumes ok: "pipe_ok s" and r: "run_ok k s" and h: "at_halt ((tick ^^ k) s)" and m: "cycles s + int k + 65 \<le> m"
  defines "A \<equiv> (isa_step ^^ advanced k s) (abs_state s)"
  shows "sm_halted (sim_loop m s) \<and> rf_regs (sm_rf (sim_loop m s)) = ar_regs A \<and> sm_mem (sim_loop m s) = ar_mem A"
proof -
  let ?t = "(tick ^^ k) s"
  have t: "pipe_ok ?t" "abs_state ?t = A" using run_refines [OF ok r] by (simp_all add: A_def)
  from halt_stops [OF t(1) h] obtain j where j: "j \<le> 65" "sm_halted ((tick ^^ j) ?t)"
    "rf_regs (sm_rf ((tick ^^ j) ?t)) = ar_regs A" "sm_mem ((tick ^^ j) ?t) = ar_mem A"
    using t(2) by auto
  have c: "(tick ^^ j) ?t = (tick ^^ (j + k)) s" by (simp only: funpow_add o_apply)
  have "sim_loop m s = (tick ^^ (j + k)) s"
    using j(1,2) m c by (intro sim_loop_ticks) simp_all
  with j c show ?thesis by simp
qed

section \<open>A loaded program\<close>

text \<open>The state in which a freshly loaded program starts.\<close>

definition boot :: "int list \<Rightarrow> int \<Rightarrow> arch" where
  "boot m pc = \<lparr>ar_pc = pc, ar_regs = rf_regs (rf_set rf_init SP_REG SP_INIT), ar_mem = m\<rparr>"

lemma load_program_pipe_ok:
  assumes "sim_wf s" "0 \<le> a" "a \<le> int (length (sm_mem s))" "load_program s ws a = Inr s1"
  shows "pipe_ok s1" "abs_state s1 = boot (sm_mem s1) a" "cycles s1 = 0"
proof -
  have wf: "sim_wf s1" using assms by (rule sim_wf_load_program)
  from assms(4) obtain m where s1: "s1 = log_add (Log_Loaded (length ws) a) ((sim_reset s)\<lparr>sm_mem := m, sm_pc := a\<rparr>)"
    by (auto simp: load_program_def Let_def split: sum.splits)
  have "\<not> id_valid idex_init" "\<not> if_valid ifid_init" "\<not> ex_valid exmem_init" "\<not> wb_valid memwb_init"
    by (simp_all add: idex_init_def ifid_init_def exmem_init_def memwb_init_def)
  then show "pipe_ok s1" "abs_state s1 = boot (sm_mem s1) a" "cycles s1 = 0"
    using wf
    by (simp_all add: pipe_ok_def s1 log_add_def sim_reset_def mmu_off_def csr_def abs_state_def retired_def wb_effect_def
        boot_def stats_init_def) (simp_all add: csr_consts NUM_CSRS_def)
qed

end
