(* ===== verification/Pipeline_Program.thy ===== *)
theory Pipeline_Program
  imports Pipeline_Run
begin

unbundle bit_operations_syntax

text \<open>
  Programs the pipeline runs correctly: a check of the code word by word and of neighbouring words,
  and a condition on the run of the architecture (it stays in the code, its stores stay out of it).
  Under these the side conditions of \<open>Pipeline_Refinement\<close> hold at every clock.
\<close>

section \<open>The check of the code\<close>

definition writes_link :: "decoded \<Rightarrow> bool" where
  "writes_link d =
     (case d of
        D_R opc rd rs1 rs2 sh \<Rightarrow> rd = 31
      | D_I opc rd rs1 imm \<Rightarrow> opc \<noteq> Op_JMPR \<and> (rd = 31 \<or> opc = Op_CALLR)
      | D_U opc rd imm \<Rightarrow> rd = 31
      | D_J opc addr \<Rightarrow> opc = Op_CALL
      | _ \<Rightarrow> False)"

text \<open>A load and the operand field the hazard unit does not compare, \<open>RET\<close> behind a write of the
  link register, a store behind \<open>HLT\<close>.\<close>

definition pair_ok :: "int \<Rightarrow> int \<Rightarrow> bool" where
  "pair_ok w v =
     ((case decode w of
         D_I opc rd rs1 imm \<Rightarrow> opc \<in> set LOADS \<and> rd \<noteq> 0 \<longrightarrow>
           (case decode v of D_S opc' rs2 rs1' off \<Rightarrow> rs2 \<noteq> rd | D_B opc' rs1' rs2 off \<Rightarrow> rs1' \<noteq> rd | _ \<Rightarrow> True)
       | _ \<Rightarrow> True)
      \<and> (d_opcode (decode v) = Some Op_RET \<longrightarrow> \<not> writes_link (decode w))
      \<and> (d_opcode (decode w) = Some Op_HLT \<longrightarrow> \<not> c_mem_write (cu_decode v)))"

fun code_ok :: "int list \<Rightarrow> bool" where
  "code_ok [] = True"
| "code_ok [w] = core_instr w"
| "code_ok (w # v # ws) = (core_instr w \<and> pair_ok w v \<and> code_ok (v # ws))"

lemma code_ok_core: "code_ok c \<Longrightarrow> i < length c \<Longrightarrow> core_instr (c ! i)"
proof (induction c arbitrary: i rule: code_ok.induct)
  case (3 w v ws)
  then show ?case by (cases i) simp_all
qed simp_all

lemma code_ok_pair: "code_ok c \<Longrightarrow> Suc i < length c \<Longrightarrow> pair_ok (c ! i) (c ! Suc i)"
proof (induction c arbitrary: i rule: code_ok.induct)
  case (3 w v ws)
  then show ?case by (cases i) simp_all
qed simp_all

text \<open>The condition on a state of the architecture.\<close>

definition isa_safe :: "nat \<Rightarrow> arch \<Rightarrow> bool" where
  "isa_safe n A =
     (0 \<le> ar_pc A \<and> ar_pc A + 2 < int n
      \<and> (case decode (ar_mem A ! nat (ar_pc A)) of
           D_S opc rs2 rs1 off \<Rightarrow> int n \<le> mem_wrap (ar_mem A) (take_bit 32 (reg_read (ar_regs A) rs1 + off))
         | _ \<Rightarrow> True))"

text \<open>The same for the manual's reading: its next step is safe, and it is the simulator's.\<close>

definition spec_safe :: "nat \<Rightarrow> arch \<Rightarrow> bool" where
  "spec_safe n A = (isa_safe n A \<and> agreed A)"

definition isa_halted :: "arch \<Rightarrow> bool" where
  "isa_halted A = (d_opcode (decode (ar_mem A ! nat (ar_pc A))) = Some Op_HLT)"

section \<open>The code stays as it is\<close>

text \<open>At the start, after every effect that is applied and at the end, the memory begins with the code.\<close>

fun kept :: "int list \<Rightarrow> effect list \<Rightarrow> reg_mem \<Rightarrow> bool" where
  "kept c [] rm = (take (length c) (snd rm) = c)"
| "kept c (f # fs) rm =
     (take (length c) (snd rm) = c
      \<and> (case f rm of (rm', None) \<Rightarrow> kept c fs rm' | (rm', Some a) \<Rightarrow> take (length c) (snd rm') = c))"

lemma kept_start: "kept c fs rm \<Longrightarrow> take (length c) (snd rm) = c"
  by (cases fs) simp_all

lemma kept_complete: "kept c fs rm \<Longrightarrow> take (length c) (ar_mem (complete fs p rm)) = c"
  by (induction fs arbitrary: rm) (auto split: prod.splits option.splits)

lemma kept_snoc:
  assumes "kept c fs rm"
    and "\<not> jumps fs rm \<Longrightarrow>
      take (length c) (snd (fst (f (ar_regs (complete fs p rm), ar_mem (complete fs p rm))))) = c"
  shows "kept c (fs @ [f]) rm"
  using assms
proof (induction fs arbitrary: rm)
  case Nil
  then show ?case by (cases rm) (auto split: prod.splits option.splits)
next
  case (Cons g fs)
  then show ?case by (auto split: prod.splits option.splits)
qed

lemma store_keeps:
  assumes "isa_safe (length c) A" "take (length c) (ar_mem A) = c"
  shows "take (length c) (snd (fst (isa_effect (decode (ar_mem A ! nat (ar_pc A))) p (ar_regs A, ar_mem A)))) = c"
  using assms
  by (cases "decode (ar_mem A ! nat (ar_pc A))") (auto simp: isa_safe_def store_value_def Let_def)

section \<open>The state of a run\<close>

text \<open>The latches hold consecutive words of the code, fetched where the architecture stands.\<close>

definition in_code :: "int list \<Rightarrow> int \<Rightarrow> bool" where
  "in_code c a \<longleftrightarrow> 0 \<le> a \<and> a < int (length c)"

definition rm_of :: "sim \<Rightarrow> reg_mem" where
  "rm_of s = mem_effect (sm_exmem s) (retired s)"

definition idex_jumps :: "sim \<Rightarrow> bool" where
  "idex_jumps s = jumps [idex_eff (sm_idex s)] (rm_of s)"

definition addresses_ok :: "int list \<Rightarrow> sim \<Rightarrow> bool" where
  "addresses_ok c s \<longleftrightarrow>
     (let I = sm_idex s; F = sm_ifid s in
        (id_valid I \<longrightarrow> 0 \<le> id_pc_plus1 I - 1 \<and> id_pc_plus1 I + 1 < int (length c)
           \<and> idex_instr I = decode (c ! nat (id_pc_plus1 I - 1))
           \<and> if_valid F \<and> if_pc_plus1 F = id_pc_plus1 I + 1)
        \<and> (if_valid F \<longrightarrow> 0 \<le> if_pc_plus1 F - 1 \<and> if_instruction F = c ! nat (if_pc_plus1 F - 1)
           \<and> sm_pc s = if_pc_plus1 F \<and> (\<not> idex_jumps s \<longrightarrow> if_pc_plus1 F + 1 < int (length c))))"

definition link_ready :: "sim \<Rightarrow> bool" where
  "link_ready s \<longleftrightarrow>
     (id_valid (sm_idex s) \<and> id_opcode (sm_idex s) = Op_RET \<longrightarrow>
        \<not> (ex_valid (sm_exmem s) \<and> c_reg_write (ex_ctrl (sm_exmem s)) \<and> ex_rd (sm_exmem s) = 31))"

definition prog_inv :: "int list \<Rightarrow> sim \<Rightarrow> bool" where
  "prog_inv c s \<longleftrightarrow>
     pipe_ok s \<and> kept c [exmem_eff (sm_exmem s), idex_eff (sm_idex s), ifid_eff (sm_ifid s)] (retired s)
     \<and> (\<not> pending (sm_exmem s) \<longrightarrow> addresses_ok c s \<and> link_ready s)"

lemma exmem_eff_rm: "exmem_eff (sm_exmem s) (retired s) =
    (rm_of s, if pending (sm_exmem s) then Some (mem_wrap (snd (retired s)) (ex_jump_pc (sm_exmem s))) else None)"
  by (simp add: exmem_eff_def rm_of_def)

lemma prog_inv_code:
  assumes "prog_inv c s"
  shows "take (length c) (snd (rm_of s)) = c" "take (length c) (ar_mem (abs_state s)) = c"
proof -
  have k: "kept c [exmem_eff (sm_exmem s), idex_eff (sm_idex s), ifid_eff (sm_ifid s)] (retired s)"
    using assms by (simp add: prog_inv_def)
  then show "take (length c) (ar_mem (abs_state s)) = c"
    unfolding abs_state_def by (rule kept_complete)
  from k show "take (length c) (snd (rm_of s)) = c"
    by (auto simp: exmem_eff_rm split: if_splits prod.splits option.splits)
qed

lemma take_nth: "take (length c) m = c \<Longrightarrow> in_code c a \<Longrightarrow> m ! nat a = c ! nat a"
  by (metis in_code_def nat_less_iff nth_take)

lemma take_length_le: "take (length c) m = c \<Longrightarrow> length c \<le> length m"
  by (metis length_take min.cobounded1 min.commute)

text \<open>The clock fetches from the code.\<close>

lemma fetch_in_code:
  assumes inv: "prog_inv c s" and safe: "isa_safe (length c) (abs_state s)"
  shows "in_code c (fetch_pc s)"
    and "pending (sm_exmem s) \<or> \<not> jumps [idex_eff (sm_idex s), ifid_eff (sm_ifid s)] (rm_of s) \<Longrightarrow>
      fetch_pc s = ar_pc (abs_state s)"
proof -
  show a: "fetch_pc s = ar_pc (abs_state s)"
    if "pending (sm_exmem s) \<or> \<not> jumps [idex_eff (sm_idex s), ifid_eff (sm_ifid s)] (rm_of s)"
    using that complete_pc [of "[idex_eff (sm_idex s), ifid_eff (sm_ifid s)]" "rm_of s" "sm_pc s"]
    by (auto simp only: abs_state_cases rm_of_def fetch_pc_def if_True if_False arch.select_convs split: if_split)
  show "in_code c (fetch_pc s)"
  proof (cases "pending (sm_exmem s) \<or> \<not> jumps [idex_eff (sm_idex s), ifid_eff (sm_ifid s)] (rm_of s)")
    case True
    then show ?thesis using a safe by (simp add: in_code_def isa_safe_def)
  next
    case False
    then have "if_valid (sm_ifid s)" if "\<not> id_valid (sm_idex s)"
      using that by (cases "if_valid (sm_ifid s)") auto
    with False inv show ?thesis
      by (cases "id_valid (sm_idex s)")
        (auto simp: prog_inv_def addresses_ok_def Let_def in_code_def fetch_pc_def idex_jumps_def)
  qed
qed

section \<open>The side conditions hold\<close>

text \<open>The control signals of a latched load, and its word.\<close>

lemma latched_load:
  assumes l: "latched rf w r" and m: "c_mem_read (id_ctrl r)"
  obtains opc rs1 imm where "decode w = D_I opc (id_rd r) rs1 imm" "opc \<in> set LOADS"
proof -
  note lf = latched_fields [OF l]
  have core: "core_instr w" using l by (simp add: latched_def)
  have w: "w \<noteq> 0" using m lf(4) by (auto simp: cu_decode_def ctrl_defs)
  have c: "c_mem_read (cu_signals (id_opcode r))"
    using m cu_decode_core [OF w lf(3)] lf(4) by simp
  then have o: "id_opcode r \<in> set LOADS \<union> {Op_POP}"
    by (cases "id_opcode r") (simp_all add: cu_signals_def Let_def opcode_classes ControlSignals_def)
  then have o: "id_opcode r \<in> set LOADS"
    using core_opcodes [OF core lf(3)] by (auto simp: opcode_classes)
  show ?thesis
  proof (cases "decode w")
    case (D_I opc rd rs1 imm)
    with l have "id_rd r = rd" by (auto simp: latched_def id_base_def)
    with D_I lf(3) o that show ?thesis by simp
  qed (use lf(3) o decode_ok [of w] in \<open>auto simp: LOADS_def\<close>)
qed

lemma gap_closed:
  assumes p: "pair_ok w v" and d: "decode w = D_I opc rd rs1 imm" "opc \<in> set LOADS" "rd \<noteq> 0"
    and f: "rd \<noteq> shr v 16 AND 0x1F" "rd \<noteq> shr v 11 AND 0x1F"
  shows "rd \<notin> set (source_regs (decode v))"
proof (cases "decode v")
  case (D_R opc' rd' rs1' rs2' sh)
  from decode_R_fields [OF this] D_R f show ?thesis by simp
next
  case (D_I opc' rd' rs1' imm')
  from decode_I_fields [OF this] D_I f show ?thesis by simp
next
  case (D_S opc' rs2' rs1' off)
  from decode_S_fields [OF this] D_S f p d show ?thesis by (simp add: pair_ok_def)
next
  case (D_B opc' rs1' rs2' off)
  from decode_B_fields [OF this] D_B f p d show ?thesis by (simp add: pair_ok_def)
qed simp_all

lemma hazards:
  assumes inv: "prog_inv c s" and p: "\<not> pending (sm_exmem s)" and c: "code_ok c"
  shows "hazard_ok s"
  unfolding hazard_ok_def
proof
  have ad: "addresses_ok c s" and lr: "link_ready s" and ok: "pipe_ok s"
    using inv p by (simp_all add: prog_inv_def)
  let ?I = "sm_idex s" and ?F = "sm_ifid s"
  show "load_in_ex ?I \<and> if_valid ?F \<and> \<not> detect_load_use ?I ?F \<longrightarrow>
        id_rd ?I \<notin> set (source_regs (decode (if_instruction ?F)))"
  proof
    assume h: "load_in_ex ?I \<and> if_valid ?F \<and> \<not> detect_load_use ?I ?F"
    then have v: "id_valid ?I" "c_mem_read (id_ctrl ?I)" "id_rd ?I \<noteq> 0" by (simp_all add: load_in_ex_def)
    with ok obtain w where l: "latched (sm_rf s) w ?I" by (auto simp: pipe_ok_def)
    obtain opc rs1 imm where d: "decode w = D_I opc (id_rd ?I) rs1 imm" "opc \<in> set LOADS"
      using latched_load [OF l v(2)] .
    define i where "i = nat (id_pc_plus1 ?I - 1)"
    have a: "decode (c ! i) = decode w" "if_instruction ?F = c ! Suc i" "Suc i < length c"
      using ad v(1) latched_fields(1) [OF l] by (simp_all add: addresses_ok_def Let_def i_def) (auto simp: Suc_nat_eq_nat_zadd1)
    have "pair_ok (c ! i) (c ! Suc i)" using code_ok_pair [OF c] a(3) by simp
    then show "id_rd ?I \<notin> set (source_regs (decode (if_instruction ?F)))"
      using h d a(1,2) v(3) by (intro gap_closed [where w = "c ! i"]) (auto simp: detect_load_use_iff)
  qed
  show "id_valid ?I \<and> id_opcode ?I = Op_RET \<longrightarrow> \<not> (ex_valid (sm_exmem s) \<and> c_reg_write (ex_ctrl (sm_exmem s)) \<and> ex_rd (sm_exmem s) = 31)"
    using lr by (simp add: link_ready_def)
qed

lemma prog_step_ok:
  assumes inv: "prog_inv c s" and safe: "isa_safe (length c) (abs_state s)" and c: "code_ok c"
    and h: "\<not> pending (sm_exmem s) \<Longrightarrow> \<not> (id_valid (sm_idex s) \<and> id_opcode (sm_idex s) = Op_HLT)"
  shows "step_ok s" "fetch_word s = c ! nat (fetch_pc s)"
proof -
  have i: "in_code c (fetch_pc s)" by (rule fetch_in_code(1) [OF inv safe])
  show w: "fetch_word s = c ! nat (fetch_pc s)"
    using take_nth [OF prog_inv_code(1) [OF inv] i] by (simp add: fetch_word_def rm_of_def)
  have "core_instr (fetch_word s)"
    using code_ok_core [OF c, of "nat (fetch_pc s)"] i by (simp add: w in_code_def nat_less_iff)
  then have "fetch_ok s"
    using take_nth [OF prog_inv_code(2) [OF inv] i] w by (simp add: fetch_ok_def)
  with hazards [OF inv _ c] h show "step_ok s" by (simp add: step_ok_def)
qed

section \<open>What the execute stage writes and how long it takes\<close>

lemma ex_core_rd:
  "id_opcode r \<notin> {Op_MFC, Op_MTC} \<Longrightarrow> \<not> (c_call (id_ctrl r) \<and> (c_mem_read (id_ctrl r) \<or> c_mem_write (id_ctrl r) \<or> c_branch (id_ctrl r) \<or> \<not> c_jump (id_ctrl r))) \<Longrightarrow>
     ex_rd (sm_exmem (ex_core r a b (s\<lparr>sm_exmem := ex_start r\<rparr>))) = (if c_call (id_ctrl r) then 31 else id_rd r)"
  by (auto simp: ex_core_def ex_rest_def ex_load_def ex_store_def ex_branch_def ex_alu_def ex_jump_def ex_jump_to_def
      ex_start_def Let_def isa_consts)

lemma ex_core_stall:
  "id_opcode r \<notin> {Op_MFC, Op_MTC} \<Longrightarrow>
     ex_take_jump (sm_exmem (ex_core r a b (s\<lparr>sm_exmem := ex_start r\<rparr>))) \<or> c_mem_read (id_ctrl r) \<Longrightarrow>
     sm_exec_stall (ex_core r a b (s\<lparr>sm_exmem := ex_start r\<rparr>)) = sm_exec_stall s"
  by (auto simp: ex_core_def ex_rest_def ex_load_def ex_store_def ex_branch_def ex_alu_def ex_jump_def ex_jump_to_def
      ex_start_def Let_def split: if_splits)

lemma ex_stall_kept:
  assumes l: "latched rf w r" and s: "sm_idex t = r"
    and p: "pending (sm_exmem (stage_ex e m t)) \<or> c_mem_read (id_ctrl r)"
  shows "sm_exec_stall (stage_ex e m t) = sm_exec_stall t"
  using p by (cases rule: stage_ex_cases [OF l s, of e m]) (auto simp: pending_def ex_core_stall)

lemma call_flags:
  assumes l: "latched rf w r" and c: "c_call (id_ctrl r)"
  shows "id_opcode r \<in> {Op_CALL, Op_CALLR}" "c_jump (id_ctrl r)" "\<not> c_mem_read (id_ctrl r)"
    "\<not> c_mem_write (id_ctrl r)" "\<not> c_branch (id_ctrl r)"
proof -
  note lf = latched_fields [OF l]
  have w: "w \<noteq> 0" using c lf(4) by (auto simp: cu_decode_def ctrl_defs)
  have k: "id_ctrl r = cu_signals (id_opcode r)" using cu_decode_core [OF w lf(3)] lf(4) by simp
  with c show o: "id_opcode r \<in> {Op_CALL, Op_CALLR}"
    by (cases "id_opcode r") (simp_all add: cu_signals_def Let_def opcode_classes ControlSignals_def)
  then show "c_jump (id_ctrl r)" "\<not> c_mem_read (id_ctrl r)" "\<not> c_mem_write (id_ctrl r)" "\<not> c_branch (id_ctrl r)"
    by (auto simp: k cu_jumps ControlSignals_def)
qed

lemma latched_rd:
  assumes "latched rf w r"
  shows "id_rd r = (case decode w of D_R opc rd rs1 rs2 sh \<Rightarrow> rd | D_I opc rd rs1 imm \<Rightarrow> rd | D_U opc rd imm \<Rightarrow> rd
      | D_J opc addr \<Rightarrow> if c_call (id_ctrl r) then 31 else 0 | _ \<Rightarrow> 0)"
proof -
  from assms obtain p x where "r = id_decode rf (decode w) (cu_decode w) p x" "core_instr w"
    by (auto simp: latched_def)
  then show ?thesis
    by (cases "decode w") (simp_all add: id_base_def isa_consts core_instr_def)
qed

lemma ex_writes_link:
  assumes l: "latched rf w r" and s: "sm_idex t = r"
    and x: "c_reg_write (ex_ctrl (sm_exmem (stage_ex e m t)))" "ex_rd (sm_exmem (stage_ex e m t)) = 31"
  shows "writes_link (decode w)"
proof (cases rule: stage_ex_cases [OF l s, of e m])
  case 1
  have "ctrl_ok (id_ctrl r)" using latched_fields(4) [OF l] ctrl_ok_decode by simp
  with 1 x(1) show ?thesis by (simp add: ex_start_def ctrl_ok_def)
next
  case 2
  have "ctrl_ok (id_ctrl r)" "c_halt (id_ctrl r)"
    using latched_fields(3,4) [OF l] ctrl_ok_decode core_ctrl(5) [of w "Op_HLT"] 2(2) l by (simp_all add: latched_def)
  with 2 x(1) show ?thesis by (simp add: ex_start_def ctrl_ok_def)
next
  case 3
  note lf = latched_fields [OF l]
  have ctrl: "c_reg_write (id_ctrl r)"
    using x(1) 3(1) ex_core_keeps(3) [of r] 3(2) by (simp add: ex_start_def)
  have rd: "(if c_call (id_ctrl r) then 31 else id_rd r) = 31"
    using x(2) 3 call_flags [OF l] by (subst (asm) 3(1)) (auto simp: ex_core_rd)
  show ?thesis
  proof (cases "c_call (id_ctrl r)")
    case True
    with call_flags(1) [OF l] lf(3) decode_ok [of w] show ?thesis
      by (cases "decode w") (auto simp: writes_link_def)
  next
    case False
    with rd have r31: "id_rd r = 31" by simp
    have "id_opcode r \<noteq> Op_JMPR"
    proof
      assume j: "id_opcode r = Op_JMPR"
      then have "w \<noteq> 0" using lf(3) by (auto simp: decode_zero)
      from cu_decode_core [OF this lf(3)] j ctrl lf(4) show False
        by (simp add: cu_jumps ControlSignals_def)
    qed
    with r31 lf(3) False latched_rd [OF l] show ?thesis
      by (cases "decode w") (simp_all add: writes_link_def)
  qed
qed

section \<open>The invariant is kept\<close>

lemma retired_tick: "\<not> sm_halted s \<Longrightarrow> retired (tick s) = retired (snd (clock s))"
  using tick_clock [of s] by auto

lemma prog_inv_history [simp]: "prog_inv c (s\<lparr>sm_history := h\<rparr>) = prog_inv c s"
  by (simp add: prog_inv_def addresses_ok_def link_ready_def idex_jumps_def rm_of_def)

text \<open>What the latches of the next state do to the effects.\<close>

lemma eff_after_ex:
  assumes ok: "pipe_ok s" and so: "step_ok s" and p: "\<not> pending (sm_exmem s)"
  shows "mem_effect (sm_exmem (after_ex s)) (rm_of s) = fst (idex_eff (sm_idex s) (rm_of s))"
    and "pending (sm_exmem (after_ex s)) = idex_jumps s"
proof -
  have "exmem_eff (sm_exmem (after_ex s)) (rm_of s) = idex_eff (sm_idex s) (rm_of s)"
    using ex_clock [OF ok so p] by (simp add: rm_of_def)
  from this [symmetric] show "mem_effect (sm_exmem (after_ex s)) (rm_of s) = fst (idex_eff (sm_idex s) (rm_of s))"
    and "pending (sm_exmem (after_ex s)) = idex_jumps s"
    by (simp_all add: exmem_eff_def idex_jumps_def)
qed

lemma kept_cong1: "f rm = g rm \<Longrightarrow> kept c (f # fs) rm = kept c (g # fs) rm"
  by simp

lemma kept_none: "(\<And>rm. f rm = (rm, None)) \<Longrightarrow> kept c (f # fs) rm = (take (length c) (snd rm) = c \<and> kept c fs rm)"
  by simp

lemma kept_insert: "(\<And>rm. g rm = (rm, None)) \<Longrightarrow> kept c (f # fs) rm \<Longrightarrow> kept c (f # g # fs) rm"
  by (auto dest: kept_start split: prod.splits option.splits)

lemma fetched_valid:
  assumes "fetched_from p n w i p'" "p < n"
  shows "if_valid i" "if_instruction i = w" "if_pc_plus1 i = p + 1" "p' = p + 1"
  using assms by (simp_all add: fetched_from_def)

text \<open>The word fetched last keeps the code too, if the architecture executes it.\<close>

lemma kept_fetch:
  assumes k: "kept c fs rm" and A: "A = complete fs p rm" and safe: "isa_safe (length c) A"
    and i: "if_valid i" "if_instruction i = c ! nat p" "if_pc_plus1 i = p + 1" and pc: "in_code c p"
  shows "kept c (fs @ [ifid_eff i]) rm"
proof (rule kept_snoc [OF k, where p = p])
  assume n: "\<not> jumps fs rm"
  have cm: "take (length c) (ar_mem A) = c" using kept_complete [OF k] A by simp
  have a: "ar_pc A = p" using complete_pc [OF n] A by simp
  have "ar_mem A ! nat p = c ! nat p" by (rule take_nth [OF cm pc])
  then show "take (length c) (snd (fst (ifid_eff i (ar_regs (complete fs p rm), ar_mem (complete fs p rm))))) = c"
    using store_keeps [OF safe cm, of p] i a by (simp add: A [symmetric] ifid_eff_def)
qed

lemma inv_flush:
  assumes inv: "prog_inv c s" and safe: "isa_safe (length c) (abs_state s)" and ok': "pipe_ok (snd (clock s))"
    and w: "fetch_word s = c ! nat (fetch_pc s)"
    and st: "sm_exec_stall s \<le> 0" and p: "pending (sm_exmem s)"
  shows "prog_inv c (snd (clock s))"
proof -
  let ?s' = "snd (clock s)"
  have ok: "pipe_ok s" using inv by (simp add: prog_inv_def)
  note cf = clock_flush [OF ok st p]
  have pc: "in_code c (fetch_pc s)" "fetch_pc s = ar_pc (abs_state s)"
    using fetch_in_code [OF inv safe] p by simp_all
  have le: "length c \<le> length (sm_mem s)"
    using take_length_le [OF prog_inv_code(2) [OF inv]] by (simp add: abs_state_length)
  note v = fetched_valid [OF cf(4)]
  have v: "if_valid (sm_ifid ?s')" "if_instruction (sm_ifid ?s') = c ! nat (fetch_pc s)"
      "if_pc_plus1 (sm_ifid ?s') = fetch_pc s + 1" "sm_pc ?s' = fetch_pc s + 1"
    using v pc(1) le w by (simp_all add: in_code_def)
  have r: "retired ?s' = rm_of s" using retired_clock [OF ok cf(1)] by (simp add: rm_of_def)
  have A: "abs_state s = complete [] (fetch_pc s) (rm_of s)"
    using p by (cases "rm_of s") (simp add: abs_state_cases rm_of_def)
  have "kept c ([] @ [ifid_eff (sm_ifid ?s')]) (rm_of s)"
    using prog_inv_code(1) [OF inv] by (intro kept_fetch [OF _ A safe v(1-3) pc(1)]) simp
  then have k: "kept c [exmem_eff (sm_exmem ?s'), idex_eff (sm_idex ?s'), ifid_eff (sm_ifid ?s')] (retired ?s')"
    using cf(2,3) prog_inv_code(1) [OF inv] by (simp add: r)
  have "addresses_ok c ?s'"
    using v cf(3) pc safe by (simp add: addresses_ok_def Let_def in_code_def isa_safe_def)
  moreover have "link_ready ?s'" using cf(3) by (simp add: link_ready_def)
  ultimately show ?thesis using ok' k by (simp add: prog_inv_def)
qed

lemma load_no_jump:
  assumes ok: "pipe_ok s" and d: "detect_load_use (sm_idex s) (sm_ifid s)"
  shows "\<not> idex_jumps s" "id_valid (sm_idex s)" "c_mem_read (id_ctrl (sm_idex s))"
proof -
  show v: "id_valid (sm_idex s)" "c_mem_read (id_ctrl (sm_idex s))"
    using d by (simp_all add: detect_load_use_iff load_in_ex_def)
  with ok obtain w where l: "latched (sm_rf s) w (sm_idex s)" by (auto simp: pipe_ok_def)
  obtain opc rs1 imm where "decode w = D_I opc (id_rd (sm_idex s)) rs1 imm" "opc \<in> set LOADS"
    using latched_load [OF l v(2)] .
  then show "\<not> idex_jumps s"
    using latched_fields(1) [OF l] by (cases "rm_of s") (simp add: idex_jumps_def idex_eff_def)
qed

lemma inv_stall:
  assumes inv: "prog_inv c s" and so: "step_ok s" and ok': "pipe_ok (snd (clock s))"
    and st: "sm_exec_stall s \<le> 0" and p: "\<not> pending (sm_exmem s)" and d: "detect_load_use (sm_idex s) (sm_ifid s)"
  shows "prog_inv c (snd (clock s))"
proof -
  let ?s' = "snd (clock s)"
  have ok: "pipe_ok s" using inv by (simp add: prog_inv_def)
  have h: "\<not> (id_valid (sm_idex s) \<and> id_opcode (sm_idex s) = Op_HLT)"
    using so p by (simp add: step_ok_def)
  note cs = clock_stall [OF ok st p d h]
  have r: "retired ?s' = rm_of s" using retired_clock [OF ok cs(1)] by (simp add: rm_of_def)
  have k: "kept c [idex_eff (sm_idex s), ifid_eff (sm_ifid s)] (rm_of s)"
    using inv p by (simp add: prog_inv_def exmem_eff_rm del: kept.simps(2)) (simp add: exmem_eff_rm)
  have "exmem_eff (sm_exmem ?s') (rm_of s) = idex_eff (sm_idex s) (rm_of s)"
    using ex_clock [OF ok so p] cs(2) by (simp add: rm_of_def)
  then have "kept c [exmem_eff (sm_exmem ?s'), idex_eff (sm_idex ?s'), ifid_eff (sm_ifid ?s')] (rm_of s)"
    using kept_insert [OF _ k, of "idex_eff (sm_idex ?s')"] cs(3,4) by simp
  moreover have "addresses_ok c ?s'"
    using inv p cs(3-5) load_no_jump(1) [OF ok d] by (simp add: prog_inv_def addresses_ok_def Let_def)
  moreover have "link_ready ?s'" using cs(3) by (simp add: link_ready_def)
  ultimately show ?thesis using ok' by (simp add: prog_inv_def r)
qed

lemma idex_next:
  assumes ok: "pipe_ok s" and st: "sm_exec_stall s \<le> 0" and p: "\<not> pending (sm_exmem s)"
    and d: "\<not> detect_load_use (sm_idex s) (sm_ifid s)"
    and h: "\<not> (id_valid (sm_idex s) \<and> id_opcode (sm_idex s) = Op_HLT)"
  shows "idex_eff (sm_idex (snd (clock s))) = ifid_eff (sm_ifid s)"
    and "id_valid (sm_idex (snd (clock s))) = if_valid (sm_ifid s)"
    and "if_valid (sm_ifid s) \<Longrightarrow> id_pc_plus1 (sm_idex (snd (clock s))) = if_pc_plus1 (sm_ifid s)
      \<and> idex_instr (sm_idex (snd (clock s))) = decode (if_instruction (sm_ifid s))
      \<and> d_opcode (decode (if_instruction (sm_ifid s))) = Some (id_opcode (sm_idex (snd (clock s))))"
proof -
  note cf = clock_flow [OF ok st p d h]
  let ?w = "if_instruction (sm_ifid s)"
  have v: "idex_eff (sm_idex (snd (clock s))) rm = ifid_eff (sm_ifid s) rm \<and> id_valid (sm_idex (snd (clock s)))
      \<and> id_pc_plus1 (sm_idex (snd (clock s))) = if_pc_plus1 (sm_ifid s)
      \<and> idex_instr (sm_idex (snd (clock s))) = decode ?w
      \<and> d_opcode (decode ?w) = Some (id_opcode (sm_idex (snd (clock s))))" if v: "if_valid (sm_ifid s)" for rm
  proof -
    have core: "core_instr ?w" using ok v by (simp add: pipe_ok_def)
    have l: "latched (sm_rf (snd (clock s))) ?w (sm_idex (snd (clock s)))"
      using core cf(3) [OF v] by (auto simp: latched_def)
    have pc: "id_pc_plus1 (sm_idex (snd (clock s))) = if_pc_plus1 (sm_ifid s)"
      using core cf(3) [OF v] by (cases "decode ?w") (auto simp: core_instr_def id_base_def)
    show ?thesis using pc latched_fields [OF l] v by (simp add: idex_eff_def ifid_eff_def)
  qed
  show "idex_eff (sm_idex (snd (clock s))) = ifid_eff (sm_ifid s)"
    using v cf(4) by (cases "if_valid (sm_ifid s)") (auto intro!: ext)
  show "id_valid (sm_idex (snd (clock s))) = if_valid (sm_ifid s)"
    using v cf(4) by blast
  show "if_valid (sm_ifid s) \<Longrightarrow> id_pc_plus1 (sm_idex (snd (clock s))) = if_pc_plus1 (sm_ifid s)
      \<and> idex_instr (sm_idex (snd (clock s))) = decode ?w
      \<and> d_opcode (decode ?w) = Some (id_opcode (sm_idex (snd (clock s))))"
    using v by blast
qed

lemma link_next:
  assumes inv: "prog_inv c s" and c: "code_ok c" and p: "\<not> pending (sm_exmem s)"
    and v: "if_valid (sm_ifid s)" "d_opcode (decode (if_instruction (sm_ifid s))) = Some Op_RET"
  shows "\<not> (ex_valid (sm_exmem (after_ex s)) \<and> c_reg_write (ex_ctrl (sm_exmem (after_ex s))) \<and> ex_rd (sm_exmem (after_ex s)) = 31)"
proof
  assume x: "ex_valid (sm_exmem (after_ex s)) \<and> c_reg_write (ex_ctrl (sm_exmem (after_ex s))) \<and> ex_rd (sm_exmem (after_ex s)) = 31"
  have ok: "pipe_ok s" and ad: "addresses_ok c s" using inv p by (simp_all add: prog_inv_def)
  have i: "id_valid (sm_idex s)" using x after_ex(10) [OF ok] by simp
  with ok obtain w where l: "latched (sm_rf s) w (sm_idex s)" by (auto simp: pipe_ok_def)
  have "writes_link (decode w)"
    using x by (intro ex_writes_link [OF l after_mem(4) [OF ok], of "sm_exmem s" "sm_memwb s"]) (simp_all add: after_ex_def)
  moreover define j where "j = nat (id_pc_plus1 (sm_idex s) - 1)"
  have "decode (c ! j) = decode w" "if_instruction (sm_ifid s) = c ! Suc j" "Suc j < length c"
    using ad i v(1) latched_fields(1) [OF l] by (simp_all add: addresses_ok_def Let_def j_def) (auto simp: Suc_nat_eq_nat_zadd1)
  moreover from code_ok_pair [OF c this(3)] have "pair_ok (c ! j) (c ! Suc j)" .
  ultimately show False using v(2) by (simp add: pair_ok_def)
qed

lemma inv_flow:
  assumes inv: "prog_inv c s" and safe: "isa_safe (length c) (abs_state s)" and so: "step_ok s"
    and ok': "pipe_ok (snd (clock s))" and w: "fetch_word s = c ! nat (fetch_pc s)" and c: "code_ok c"
    and st: "sm_exec_stall s \<le> 0" and p: "\<not> pending (sm_exmem s)" and d: "\<not> detect_load_use (sm_idex s) (sm_ifid s)"
  shows "prog_inv c (snd (clock s))"
proof -
  let ?s' = "snd (clock s)"
  have ok: "pipe_ok s" and ad: "addresses_ok c s" using inv p by (simp_all add: prog_inv_def)
  have h: "\<not> (id_valid (sm_idex s) \<and> id_opcode (sm_idex s) = Op_HLT)"
    using so p by (simp add: step_ok_def)
  note cf = clock_flow [OF ok st p d h] and nx = idex_next [OF ok st p d h]
  let ?fs = "[idex_eff (sm_idex s), ifid_eff (sm_ifid s)]"
  have pc: "in_code c (sm_pc s)" "\<not> jumps ?fs (rm_of s) \<Longrightarrow> sm_pc s = ar_pc (abs_state s)"
    using fetch_in_code [OF inv safe] p by (simp_all add: fetch_pc_def)
  have le: "length c \<le> length (sm_mem s)"
    using take_length_le [OF prog_inv_code(2) [OF inv]] by (simp add: abs_state_length)
  have v: "if_valid (sm_ifid ?s')" "if_instruction (sm_ifid ?s') = c ! nat (sm_pc s)"
      "if_pc_plus1 (sm_ifid ?s') = sm_pc s + 1" "sm_pc ?s' = sm_pc s + 1"
    using fetched_valid [OF cf(5)] pc(1) le w p by (simp_all add: in_code_def fetch_pc_def)
  have r: "retired ?s' = rm_of s" using retired_clock [OF ok cf(1)] by (simp add: rm_of_def)
  have k: "kept c ?fs (rm_of s)"
    using inv p by (simp add: prog_inv_def exmem_eff_rm del: kept.simps(2)) (simp add: exmem_eff_rm)
  have A: "abs_state s = complete ?fs (sm_pc s) (rm_of s)"
    using p by (simp add: abs_state_cases rm_of_def)
  note ex = eff_after_ex [OF ok so p, folded cf(2)]
  have e: "exmem_eff (sm_exmem ?s') (rm_of s) = idex_eff (sm_idex s) (rm_of s)"
    using ex_clock [OF ok so p] cf(2) by (simp add: rm_of_def)
  have "kept c (?fs @ [ifid_eff (sm_ifid ?s')]) (rm_of s)"
    by (rule kept_fetch [OF k A safe v(1-3) pc(1)])
  then have k': "kept c [exmem_eff (sm_exmem ?s'), idex_eff (sm_idex ?s'), ifid_eff (sm_ifid ?s')] (retired ?s')"
    using nx(1) e by (simp add: r)
  have ad': "addresses_ok c ?s'" if np: "\<not> pending (sm_exmem ?s')"
  proof -
    have nj: "\<not> idex_jumps s" using np ex(2) by simp
    have "rm_of ?s' = fst (idex_eff (sm_idex s) (rm_of s))" using ex(1) r by (simp add: rm_of_def)
    then have "jumps ?fs (rm_of s) = idex_jumps ?s'"
      using nj nx(1) by (auto simp: idex_jumps_def split: prod.splits option.splits)
    then have "\<not> idex_jumps ?s' \<Longrightarrow> sm_pc s + 2 < int (length c)"
      using pc(2) safe by (simp add: isa_safe_def)
    then show ?thesis
      using ad nj v nx(2,3) pc(1) by (auto simp: addresses_ok_def Let_def in_code_def)
  qed
  have "link_ready ?s'"
    using link_next [OF inv c p] nx(2,3) cf(2) by (auto simp: link_ready_def)
  with ok' k' ad' show ?thesis by (simp add: prog_inv_def)
qed

lemma inv_exec:
  assumes inv: "prog_inv c s" and st: "0 < sm_exec_stall s"
  shows "prog_inv c (snd (clock s))"
proof -
  have f: "frozen s (snd (clock s))" using clock_frozen [OF st] by blast
  have "sim_wf (snd (clock s))" using inv by (simp add: prog_inv_def pipe_ok_def sim_wf_clock)
  from frozen_pipe_ok [OF f this] inv f show ?thesis
    by (simp add: prog_inv_def frozen_def addresses_ok_def link_ready_def idex_jumps_def rm_of_def retired_def)
qed

text \<open>\<open>HLT\<close> in ID/EX, on the path the architecture takes.\<close>

definition hlt_latched :: "sim \<Rightarrow> bool" where
  "hlt_latched s \<longleftrightarrow> \<not> pending (sm_exmem s) \<and> id_valid (sm_idex s) \<and> id_opcode (sm_idex s) = Op_HLT"

lemma prog_tick:
  assumes inv: "prog_inv c s" and safe: "isa_safe (length c) (abs_state s)" and c: "code_ok c"
    and h: "\<not> hlt_latched s"
  shows "prog_inv c (tick s)" "abs_state (tick s) = (if advances s then isa_step (abs_state s) else abs_state s)"
proof -
  have ok: "pipe_ok s" and nh: "\<not> sm_halted s" using inv by (simp_all add: prog_inv_def pipe_ok_def)
  note so = prog_step_ok [OF inv safe c]
  have so: "step_ok s" "fetch_word s = c ! nat (fetch_pc s)" using so h by (auto simp: hlt_latched_def)
  show "abs_state (tick s) = (if advances s then isa_step (abs_state s) else abs_state s)"
    by (rule tick_refines(2) [OF ok so(1)])
  note ok' = clock_pipe_ok [OF ok so(1)]
  consider "0 < sm_exec_stall s" | "sm_exec_stall s \<le> 0" "pending (sm_exmem s)"
    | "sm_exec_stall s \<le> 0" "\<not> pending (sm_exmem s)" "detect_load_use (sm_idex s) (sm_ifid s)"
    | "sm_exec_stall s \<le> 0" "\<not> pending (sm_exmem s)" "\<not> detect_load_use (sm_idex s) (sm_ifid s)"
    by linarith
  then have "prog_inv c (snd (clock s))"
  proof cases
    case 1
    then show ?thesis by (rule inv_exec [OF inv])
  next
    case 2
    then show ?thesis by (rule inv_flush [OF inv safe ok' so(2)])
  next
    case 3
    then show ?thesis by (rule inv_stall [OF inv so(1) ok'])
  next
    case 4
    then show ?thesis by (rule inv_flow [OF inv safe so(1) ok' so(2) c])
  qed
  then show "prog_inv c (tick s)" using tick_clock [OF nh] by auto
qed

end
