(* ===== verification/Program_Load.thy ===== *)
theory Program_Load
  imports Sim_Reachable
begin

unbundle bit_operations_syntax

text \<open>
  What \<^verbatim>\<open>load_program\<close> leaves in the memory: the words, masked, at consecutive addresses, or
  \<^verbatim>\<open>IndexError\<close> when they do not fit.
\<close>

lemma load_words_fit:
  "a + length ws \<le> length m \<Longrightarrow>
     load_words m (int a) ws = Inr (take a m @ map (\<lambda>w. w AND WORD_MASK) ws @ drop (a + length ws) m)"
proof (induction ws arbitrary: a m)
  case (Cons w ws)
  have i: "py_list_index m (int a) = Some a"
    using Cons.prems by (simp add: py_list_index_def)
  have e: "int a + 1 = int (Suc a)" by simp
  have "load_words (m[a := w AND WORD_MASK]) (int (Suc a)) ws =
      Inr (take (Suc a) (m[a := w AND WORD_MASK]) @ map (\<lambda>w. w AND WORD_MASK) ws @ drop (Suc a + length ws) (m[a := w AND WORD_MASK]))"
    using Cons.prems by (intro Cons.IH) simp
  moreover have "take (Suc a) (m[a := w AND WORD_MASK]) = take a m @ [w AND WORD_MASK]"
    using Cons.prems by (simp add: take_Suc_conv_app_nth)
  ultimately show ?case
    using Cons.prems by (simp only: load_words.simps i option.case e) simp
qed simp

lemma load_words_overflow:
  "a \<le> length m \<Longrightarrow> length m < a + length ws \<Longrightarrow> load_words m (int a) ws = Inl IndexError"
proof (induction ws arbitrary: a m)
  case (Cons w ws)
  show ?case
  proof (cases "a = length m")
    case True
    then show ?thesis by (simp add: py_list_index_def)
  next
    case False
    then have i: "py_list_index m (int a) = Some a"
      using Cons.prems by (simp add: py_list_index_def)
    have e: "int a + 1 = int (Suc a)" by simp
    show ?thesis
      using Cons.IH [of "Suc a" "m[a := w AND WORD_MASK]"] Cons.prems False
      by (simp only: load_words.simps i option.case e) simp
  qed
qed simp

lemma reset_mem [simp]: "sm_mem (sim_reset s) = sm_mem s"
  by (simp add: sim_reset_def)

lemma load_program_fit:
  "a + length ws \<le> length (sm_mem s) \<Longrightarrow>
     load_program s ws (int a) = Inr (log_add (Log_Loaded (length ws) (int a))
       ((sim_reset s)\<lparr>sm_mem := take a (sm_mem s) @ map (\<lambda>w. w AND WORD_MASK) ws @ drop (a + length ws) (sm_mem s), sm_pc := int a\<rparr>))"
  by (simp add: load_program_def load_words_fit)

lemma load_program_overflow:
  "a \<le> length (sm_mem s) \<Longrightarrow> length (sm_mem s) < a + length ws \<Longrightarrow> load_program s ws (int a) = Inl IndexError"
  by (simp add: load_program_def load_words_overflow)

end
