(* ===== verification/Pipeline_Correct.thy ===== *)
theory Pipeline_Correct
  imports Pipeline_Program Program_Load
begin

unbundle bit_operations_syntax

text \<open>
  Total correctness of the pipeline on checked programs: no more than 67 clocks pass between two
  instructions, and a run ends where the architecture reaches \<open>HLT\<close>, with its registers and memory.
\<close>

section \<open>Progress\<close>

text \<open>How many clocks may pass before the architecture advances: the clocks of a running
  multiplication or division and those the latches need to resolve a jump or a load.\<close>

definition lag :: "sim \<Rightarrow> nat" where
  "lag s = nat (sm_exec_stall s) +
     (if pending (sm_exmem s) then 0 else if idex_jumps s then 1
      else if detect_load_use (sm_idex s) (sm_ifid s) then 35
      else if jumps [idex_eff (sm_idex s), ifid_eff (sm_ifid s)] (rm_of s) then 34 else 0)"

lemma lag_bound: "sim_wf s \<Longrightarrow> lag s \<le> 66"
proof -
  assume "sim_wf s"
  then have "sm_exec_stall s \<le> 31" by (simp add: sim_wf_def)
  then have "nat (sm_exec_stall s) \<le> 31" by linarith
  then show ?thesis by (simp add: lag_def)
qed

lemma lag_history [simp]: "lag (s\<lparr>sm_history := h\<rparr>) = lag s"
  by (simp add: lag_def idex_jumps_def rm_of_def)

lemma fetch_phase_stall: "mmu_off s \<Longrightarrow> sm_exec_stall (fetch_phase j p st s) = sm_exec_stall s"
  by (simp add: fetch_phase_def stage_if_def if_invalidate_def Let_def mmu_off_translate flush_if_id_ex_def
      mmu_off_def csr_def translate_addr_def mmu_active_def)

lemma clock_stall_count:
  assumes ok: "pipe_ok s" and st: "sm_exec_stall s \<le> 0"
  shows "sm_exec_stall (snd (clock s)) = sm_exec_stall (after_ex s)"
proof -
  have "mmu_off (snd (stage_id_check_hazard (after_ex s)))"
    using after_ex(7) [OF ok] by (simp add: id_stage)
  then show ?thesis
    by (simp add: clock_phases [OF ok st] fetch_phase_stall) (simp add: id_stage)
qed

lemma no_new_stall:
  assumes ok: "pipe_ok s" and so: "step_ok s" and p: "\<not> pending (sm_exmem s)" and v: "id_valid (sm_idex s)"
    and j: "idex_jumps s \<or> c_mem_read (id_ctrl (sm_idex s))"
  shows "sm_exec_stall (after_ex s) = sm_exec_stall s"
proof -
  from ok v obtain w where l: "latched (sm_rf s) w (sm_idex s)" by (auto simp: pipe_ok_def)
  have "pending (sm_exmem (after_ex s)) \<or> c_mem_read (id_ctrl (sm_idex s))"
    using j eff_after_ex(2) [OF ok so p] by simp
  from ex_stall_kept [OF l after_mem(4) [OF ok]] this show ?thesis
    by (simp add: after_ex_def after_mem_stall [OF ok])
qed

lemma lag_clock:
  assumes inv: "prog_inv c s" and so: "step_ok s" and h: "\<not> hlt_latched s" and a: "\<not> advances s"
    and wf': "sim_wf (snd (clock s))"
  shows "lag (snd (clock s)) < lag s"
proof -
  let ?s' = "snd (clock s)" and ?fs = "[idex_eff (sm_idex s), ifid_eff (sm_ifid s)]"
  have ok: "pipe_ok s" using inv by (simp add: prog_inv_def)
  have hl: "\<not> pending (sm_exmem s) \<Longrightarrow> \<not> (id_valid (sm_idex s) \<and> id_opcode (sm_idex s) = Op_HLT)"
    using h by (simp add: hlt_latched_def)
  have "0 \<le> sm_exec_stall ?s' \<and> sm_exec_stall ?s' \<le> 31" using wf' by (simp add: sim_wf_def)
  then have st': "nat (sm_exec_stall ?s') \<le> 31" by linarith
  show ?thesis
  proof (cases "0 < sm_exec_stall s")
    case True
    from clock_frozen [OF this] True show ?thesis
      by (auto simp: lag_def idex_jumps_def rm_of_def retired_def frozen_def)
  next
    case False
    then have st: "sm_exec_stall s \<le> 0" by simp
    with a have p: "\<not> pending (sm_exmem s)"
      and dj: "detect_load_use (sm_idex s) (sm_ifid s) \<or> jumps ?fs (rm_of s)"
      by (auto simp: advances_def rm_of_def)
    note ns = no_new_stall [OF ok so p] and ea = eff_after_ex [OF ok so p]
    show ?thesis
    proof (cases "detect_load_use (sm_idex s) (sm_ifid s)")
      case True
      note ld = load_no_jump [OF ok True]
      note cs = clock_stall [OF ok st p True hl [OF p]]
      have "sm_exec_stall ?s' \<le> 0" using clock_stall_count [OF ok st] ns ld st by simp
      moreover have "\<not> pending (sm_exmem ?s')" using cs(2) ea(2) ld by simp
      moreover have "\<not> idex_jumps ?s'" "\<not> detect_load_use (sm_idex ?s') (sm_ifid ?s')"
        using cs(3) by (simp_all add: idex_jumps_def detect_load_use_def)
      ultimately show ?thesis using True p ld by (simp add: lag_def)
    next
      case nd: False
      note cf = clock_flow [OF ok st p nd hl [OF p]] and nx = idex_next [OF ok st p nd hl [OF p]]
      show ?thesis
      proof (cases "idex_jumps s")
        case True
        then have "id_valid (sm_idex s)" by (cases "id_valid (sm_idex s)") (simp_all add: idex_jumps_def)
        with ns True have "sm_exec_stall ?s' \<le> 0" using clock_stall_count [OF ok st] st by simp
        moreover have "pending (sm_exmem ?s')" using cf(2) ea(2) True by simp
        ultimately show ?thesis using True p by (simp add: lag_def)
      next
        case False
        have "rm_of ?s' = fst (idex_eff (sm_idex s) (rm_of s))"
          using ea(1) cf(2) retired_clock [OF ok cf(1)] by (simp add: rm_of_def)
        then have "jumps ?fs (rm_of s) = idex_jumps ?s'"
          using False nx(1) by (auto simp: idex_jumps_def split: prod.splits option.splits)
        then have "idex_jumps ?s'" using dj nd by simp
        moreover have "\<not> pending (sm_exmem ?s')" using cf(2) ea(2) False by simp
        ultimately have "lag ?s' \<le> 32" using st' by (simp add: lag_def)
        moreover have "34 \<le> lag s" using dj nd p False by (simp add: lag_def)
        ultimately show ?thesis by simp
      qed
    qed
  qed
qed

lemma lag_tick:
  assumes "prog_inv c s" "isa_safe (length c) (abs_state s)" "code_ok c" "\<not> hlt_latched s" "\<not> advances s"
  shows "lag (tick s) < lag s"
proof -
  have so: "step_ok s" using prog_step_ok(1) [OF assms(1-3)] assms(4) by (auto simp: hlt_latched_def)
  have nh: "\<not> sm_halted s" and wf: "sim_wf s" using assms(1) by (simp_all add: prog_inv_def pipe_ok_def)
  from lag_clock [OF assms(1) so assms(4,5) sim_wf_clock [OF wf]] tick_clock [OF nh] show ?thesis by auto
qed

lemma progress:
  assumes "prog_inv c s" "isa_safe (length c) (abs_state s)" "code_ok c"
  shows "\<exists>k\<le>lag s. prog_inv c ((tick ^^ k) s) \<and> abs_state ((tick ^^ k) s) = abs_state s
      \<and> (hlt_latched ((tick ^^ k) s) \<or> advances ((tick ^^ k) s))"
  using assms
proof (induction "lag s" arbitrary: s rule: less_induct)
  case less
  show ?case
  proof (cases "hlt_latched s \<or> advances s")
    case True
    with less.prems(1) show ?thesis by (intro exI [of _ 0]) simp
  next
    case False
    then have n: "\<not> hlt_latched s" "\<not> advances s" by simp_all
    have i: "prog_inv c (tick s)" and a: "abs_state (tick s) = abs_state s" and l: "lag (tick s) < lag s"
      using prog_tick [OF less.prems n(1)] lag_tick [OF less.prems n] n(2) by simp_all
    from less.hyps [OF l i] a less.prems(2,3) obtain k where k: "k \<le> lag (tick s)"
      "prog_inv c ((tick ^^ k) (tick s))" "abs_state ((tick ^^ k) (tick s)) = abs_state s"
      "hlt_latched ((tick ^^ k) (tick s)) \<or> advances ((tick ^^ k) (tick s))" by auto
    with l show ?thesis
      by (intro exI [of _ "Suc k"]) (simp del: funpow.simps add: funpow_Suc_right)
  qed
qed

text \<open>\<open>HLT\<close> is only latched where the architecture stands at it.\<close>

lemma hlt_latched_isa:
  assumes inv: "prog_inv c s" and h: "hlt_latched s" and c: "code_ok c"
  shows "isa_halted (abs_state s)" "at_halt s"
proof -
  have ok: "pipe_ok s" and ad: "addresses_ok c s" and v: "id_valid (sm_idex s)" "id_opcode (sm_idex s) = Op_HLT" "\<not> pending (sm_exmem s)"
    using inv h by (simp_all add: prog_inv_def hlt_latched_def)
  from ok v obtain w where l: "latched (sm_rf s) w (sm_idex s)" by (auto simp: pipe_ok_def)
  note lf = latched_fields [OF l]
  define i where "i = nat (id_pc_plus1 (sm_idex s) - 1)"
  have i: "0 \<le> id_pc_plus1 (sm_idex s) - 1" "Suc i < length c" "decode (c ! i) = decode w" "if_valid (sm_ifid s)"
      "if_instruction (sm_ifid s) = c ! Suc i"
    using ad v(1) lf(1) by (simp_all add: addresses_ok_def Let_def i_def) (auto simp: Suc_nat_eq_nat_zadd1)
  have d: "d_opcode (decode w) = Some Op_HLT" using lf(3) v(2) by simp
  then obtain a where da: "decode w = D_J Op_HLT a" using decode_ok [of w] by (cases "decode w") auto
  have "ar_pc (abs_state s) = id_pc_plus1 (sm_idex s) - 1"
    using v da lf(1) by (cases "mem_effect (sm_exmem s) (retired s)") (simp add: abs_state_cases idex_eff_def)
  moreover have "ar_mem (abs_state s) ! i = c ! i"
    using take_nth [OF prog_inv_code(2) [OF inv], of "int i"] i(2) by (simp add: in_code_def)
  ultimately show "isa_halted (abs_state s)" using i(3) d by (simp add: isa_halted_def i_def)
  have "pair_ok (c ! i) (c ! Suc i)" by (rule code_ok_pair [OF c i(2)])
  then show "at_halt s" using v i d by (simp add: at_halt_def pair_ok_def)
qed

text \<open>Once \<open>HLT\<close> is fetched on the right path, it reaches ID/EX.\<close>

definition hlt_fetched :: "sim \<Rightarrow> bool" where
  "hlt_fetched s \<longleftrightarrow> \<not> pending (sm_exmem s) \<and> \<not> idex_jumps s \<and> if_valid (sm_ifid s)
     \<and> d_opcode (decode (if_instruction (sm_ifid s))) = Some Op_HLT"

lemma hlt_fetched_history [simp]: "hlt_fetched (s\<lparr>sm_history := h\<rparr>) = hlt_fetched s" "hlt_latched (s\<lparr>sm_history := h\<rparr>) = hlt_latched s"
  by (simp_all add: hlt_fetched_def hlt_latched_def idex_jumps_def rm_of_def)

lemma hlt_fetched_stays:
  assumes h: "hlt_fetched s"
  shows "\<not> advances s"
proof -
  obtain a where "decode (if_instruction (sm_ifid s)) = D_J Op_HLT a"
    using h decode_ok [of "if_instruction (sm_ifid s)"] by (cases "decode (if_instruction (sm_ifid s))") (auto simp: hlt_fetched_def)
  then have "jumps [idex_eff (sm_idex s), ifid_eff (sm_ifid s)] (rm_of s)"
    using h by (auto simp: hlt_fetched_def ifid_eff_def split: prod.splits option.splits)
  with h show ?thesis by (simp add: advances_def hlt_fetched_def rm_of_def)
qed

lemma hlt_fetched_next:
  assumes inv: "prog_inv c s" and safe: "isa_safe (length c) (abs_state s)" and c: "code_ok c"
    and h: "hlt_fetched s" and n: "\<not> hlt_latched s"
  shows "hlt_fetched (tick s) \<or> hlt_latched (tick s)"
proof -
  have ok: "pipe_ok s" and nh: "\<not> sm_halted s" using inv by (simp_all add: prog_inv_def pipe_ok_def)
  have so: "step_ok s" using prog_step_ok(1) [OF inv safe c] n by (auto simp: hlt_latched_def)
  have p: "\<not> pending (sm_exmem s)" and j: "\<not> idex_jumps s" and v: "if_valid (sm_ifid s)"
    and d: "d_opcode (decode (if_instruction (sm_ifid s))) = Some Op_HLT"
    using h by (simp_all add: hlt_fetched_def)
  have hl: "\<not> (id_valid (sm_idex s) \<and> id_opcode (sm_idex s) = Op_HLT)" using n p by (simp add: hlt_latched_def)
  note ea = eff_after_ex(2) [OF ok so p]
  have "hlt_fetched (snd (clock s)) \<or> hlt_latched (snd (clock s))"
  proof (cases "0 < sm_exec_stall s")
    case True
    with h clock_frozen [OF True] show ?thesis
      by (simp add: hlt_fetched_def idex_jumps_def rm_of_def retired_def frozen_def)
  next
    case False
    then have st: "sm_exec_stall s \<le> 0" by simp
    show ?thesis
    proof (cases "detect_load_use (sm_idex s) (sm_ifid s)")
      case True
      note cs = clock_stall [OF ok st p True hl]
      show ?thesis using cs(2-4) ea j v d by (simp add: hlt_fetched_def idex_jumps_def)
    next
      case nd: False
      note cf = clock_flow [OF ok st p nd hl] and nx = idex_next [OF ok st p nd hl]
      show ?thesis using cf(2) ea j nx(2,3) v d by (simp add: hlt_latched_def)
    qed
  qed
  then show ?thesis using tick_clock [OF nh] by auto
qed

lemma hlt_arrives:
  assumes "prog_inv c s" "isa_safe (length c) (abs_state s)" "code_ok c" "hlt_fetched s \<or> hlt_latched s"
  shows "\<exists>k\<le>lag s. prog_inv c ((tick ^^ k) s) \<and> abs_state ((tick ^^ k) s) = abs_state s \<and> hlt_latched ((tick ^^ k) s)"
  using assms
proof (induction "lag s" arbitrary: s rule: less_induct)
  case less
  show ?case
  proof (cases "hlt_latched s")
    case True
    with less.prems(1) show ?thesis by (intro exI [of _ 0]) simp
  next
    case False
    with less.prems(4) have f: "hlt_fetched s" by simp
    note na = hlt_fetched_stays [OF f]
    have i: "prog_inv c (tick s)" "abs_state (tick s) = abs_state s" and l: "lag (tick s) < lag s"
      using prog_tick [OF less.prems(1-3) False] lag_tick [OF less.prems(1-3) False na] na by simp_all
    from less.hyps [OF l i(1) _ less.prems(3) hlt_fetched_next [OF less.prems(1-3) f False]] i(2) less.prems(2)
    obtain k where "k \<le> lag (tick s)" "prog_inv c ((tick ^^ k) (tick s))"
      "abs_state ((tick ^^ k) (tick s)) = abs_state s" "hlt_latched ((tick ^^ k) (tick s))" by auto
    with l show ?thesis
      by (intro exI [of _ "Suc k"]) (simp del: funpow.simps add: funpow_Suc_right)
  qed
qed

text \<open>The instruction fetched when the architecture stands at \<open>HLT\<close> is \<open>HLT\<close>.\<close>

lemma hlt_is_fetched:
  assumes inv: "prog_inv c s" and safe: "isa_safe (length c) (abs_state s)" and c: "code_ok c"
    and a: "advances s" and h: "isa_halted (abs_state s)" and n: "\<not> hlt_latched s"
  shows "hlt_fetched (tick s)"
proof -
  have ok: "pipe_ok s" and nh: "\<not> sm_halted s" using inv by (simp_all add: prog_inv_def pipe_ok_def)
  have so: "step_ok s" and w: "fetch_word s = c ! nat (fetch_pc s)"
    using prog_step_ok [OF inv safe c] n by (auto simp: hlt_latched_def)
  have st: "sm_exec_stall s \<le> 0" using a by (simp add: advances_def)
  have pc: "in_code c (fetch_pc s)" "fetch_pc s = ar_pc (abs_state s)"
    using fetch_in_code [OF inv safe] a unfolding advances_def rm_of_def by blast+
  have le: "length c \<le> length (sm_mem s)"
    using take_length_le [OF prog_inv_code(2) [OF inv]] by (simp add: abs_state_length)
  have fw: "d_opcode (decode (fetch_word s)) = Some Op_HLT"
    using h take_nth [OF prog_inv_code(2) [OF inv] pc(1)] by (simp add: isa_halted_def w pc(2))
  have "hlt_fetched (snd (clock s))"
  proof (cases "pending (sm_exmem s)")
    case True
    note cf = clock_flush [OF ok st True]
    have "if_valid (sm_ifid (snd (clock s)))" "if_instruction (sm_ifid (snd (clock s))) = fetch_word s"
      using fetched_valid [OF cf(4)] pc(1) le by (simp_all add: in_code_def)
    with cf(2,3) fw show ?thesis by (simp add: hlt_fetched_def pending_def idex_jumps_def)
  next
    case p: False
    with a have d: "\<not> detect_load_use (sm_idex s) (sm_ifid s)"
      and j: "\<not> jumps [idex_eff (sm_idex s), ifid_eff (sm_ifid s)] (rm_of s)"
      unfolding advances_def rm_of_def by blast+
    have hl: "\<not> (id_valid (sm_idex s) \<and> id_opcode (sm_idex s) = Op_HLT)" using n p by (simp add: hlt_latched_def)
    note cf = clock_flow [OF ok st p d hl] and nx = idex_next [OF ok st p d hl] and ea = eff_after_ex [OF ok so p]
    have "if_valid (sm_ifid (snd (clock s)))" "if_instruction (sm_ifid (snd (clock s))) = fetch_word s"
      using fetched_valid [OF cf(5)] pc(1) le by (simp_all add: in_code_def)
    moreover have nj: "\<not> idex_jumps s"
      using j by (auto simp: idex_jumps_def split: prod.splits option.splits)
    moreover have "\<not> idex_jumps (snd (clock s))"
    proof -
      have "rm_of (snd (clock s)) = fst (idex_eff (sm_idex s) (rm_of s))"
        using ea(1) cf(2) retired_clock [OF ok cf(1)] by (simp add: rm_of_def)
      then show ?thesis using nj j nx(1) by (auto simp: idex_jumps_def split: prod.splits option.splits)
    qed
    ultimately show ?thesis using fw cf(2) ea(2) by (simp add: hlt_fetched_def)
  qed
  then show ?thesis using tick_clock [OF nh] by auto
qed

section \<open>The whole program\<close>

lemma one_instruction:
  assumes inv: "prog_inv c s" and safe: "isa_safe (length c) (abs_state s)" and c: "code_ok c"
    and h: "\<not> isa_halted (abs_state s)"
  shows "\<exists>k\<le>67. prog_inv c ((tick ^^ k) s) \<and> abs_state ((tick ^^ k) s) = isa_step (abs_state s)"
proof -
  from progress [OF inv safe c] obtain k where k: "k \<le> lag s" "prog_inv c ((tick ^^ k) s)" "abs_state ((tick ^^ k) s) = abs_state s"
    "hlt_latched ((tick ^^ k) s) \<or> advances ((tick ^^ k) s)" by blast
  have n: "\<not> hlt_latched ((tick ^^ k) s)" using hlt_latched_isa(1) [OF k(2) _ c] k(3) h by auto
  have "isa_safe (length c) (abs_state ((tick ^^ k) s))" using safe k(3) by simp
  from prog_tick [OF k(2) this c n] k(3,4) n
  have "prog_inv c ((tick ^^ Suc k) s)" "abs_state ((tick ^^ Suc k) s) = isa_step (abs_state s)" by simp_all
  moreover have "lag s \<le> 66" using inv by (simp add: prog_inv_def pipe_ok_def lag_bound)
  ultimately show ?thesis using k(1) by (intro exI [of _ "Suc k"]) simp
qed

lemma many_instructions:
  assumes inv: "prog_inv c s" and c: "code_ok c"
    and safe: "\<forall>i\<le>n. isa_safe (length c) ((isa_step ^^ i) (abs_state s))"
    and h: "\<forall>i<n. \<not> isa_halted ((isa_step ^^ i) (abs_state s))"
  shows "\<exists>k\<le>67 * n. prog_inv c ((tick ^^ k) s) \<and> abs_state ((tick ^^ k) s) = (isa_step ^^ n) (abs_state s)"
  using safe h
proof (induction n)
  case 0
  with inv show ?case by simp
next
  case (Suc n)
  then obtain k where k: "k \<le> 67 * n" "prog_inv c ((tick ^^ k) s)" "abs_state ((tick ^^ k) s) = (isa_step ^^ n) (abs_state s)"
    by auto
  have "isa_safe (length c) (abs_state ((tick ^^ k) s))" "\<not> isa_halted (abs_state ((tick ^^ k) s))"
    using Suc.prems k(3) by simp_all
  from one_instruction [OF k(2) this(1) c this(2)] k(3) obtain j where "j \<le> 67"
    "prog_inv c ((tick ^^ j) ((tick ^^ k) s))" "abs_state ((tick ^^ j) ((tick ^^ k) s)) = isa_step ((isa_step ^^ n) (abs_state s))" by auto
  with k(1) show ?case by (intro exI [of _ "j + k"]) (simp add: funpow_add)
qed

lemma hlt_reached:
  assumes inv: "prog_inv c s" and safe: "isa_safe (length c) (abs_state s)" and c: "code_ok c"
    and h: "isa_halted (abs_state s)" and stand: "isa_step (abs_state s) = abs_state s"
  shows "\<exists>k\<le>133. pipe_ok ((tick ^^ k) s) \<and> at_halt ((tick ^^ k) s) \<and> abs_state ((tick ^^ k) s) = abs_state s"
proof -
  have l: "lag t \<le> 66" if "prog_inv c t" for t using that by (simp add: prog_inv_def pipe_ok_def lag_bound)
  from progress [OF inv safe c] obtain k where k: "k \<le> lag s" "prog_inv c ((tick ^^ k) s)" "abs_state ((tick ^^ k) s) = abs_state s"
    "hlt_latched ((tick ^^ k) s) \<or> advances ((tick ^^ k) s)" by blast
  show ?thesis
  proof (cases "hlt_latched ((tick ^^ k) s)")
    case True
    then show ?thesis
      using k l [OF inv] hlt_latched_isa(2) [OF k(2) True c] by (intro exI [of _ k]) (simp add: prog_inv_def)
  next
    case False
    have sk: "isa_safe (length c) (abs_state ((tick ^^ k) s))" using safe k(3) by simp
    let ?t = "(tick ^^ Suc k) s"
    have t: "prog_inv c ?t" "abs_state ?t = abs_state s"
      using prog_tick [OF k(2) sk c False] k(3,4) False stand by simp_all
    have "hlt_fetched ?t" using hlt_is_fetched [OF k(2) sk c _ _ False] k(3,4) False h by simp
    then obtain j where j: "j \<le> lag ?t" "prog_inv c ((tick ^^ j) ?t)" "abs_state ((tick ^^ j) ?t) = abs_state ?t" "hlt_latched ((tick ^^ j) ?t)"
      using hlt_arrives [OF t(1) _ c] safe t(2) by auto
    have "(tick ^^ j) ?t = (tick ^^ (j + Suc k)) s" by (simp only: funpow_add o_apply)
    moreover have "j + Suc k \<le> 133" using j(1) k(1) l [OF inv] l [OF t(1)] by simp
    ultimately show ?thesis
      using j t(2) hlt_latched_isa(2) [OF j(2,4) c] by (intro exI [of _ "j + Suc k"]) (simp add: prog_inv_def)
  qed
qed

lemma isa_halt_stands:
  assumes "isa_halted A" "0 \<le> ar_pc A" "ar_pc A < int (length (ar_mem A))"
  shows "isa_step A = A"
proof -
  obtain a where "decode (ar_mem A ! nat (ar_pc A)) = D_J Op_HLT a"
    using assms(1) decode_ok [of "ar_mem A ! nat (ar_pc A)"]
    by (cases "decode (ar_mem A ! nat (ar_pc A))") (auto simp: isa_halted_def)
  with assms(2,3) show ?thesis by (simp add: isa_step_def)
qed

lemma isa_length: "length (ar_mem (isa_step A)) = length (ar_mem A)"
proof -
  have "length (snd (fst (isa_effect d p (ar_regs A, ar_mem A)))) = length (ar_mem A)" for d p
    by (rule isa_effect_length)
  then show ?thesis by (simp add: isa_step_def case_prod_beta)
qed

lemma isa_run_length: "length (ar_mem ((isa_step ^^ n) A)) = length (ar_mem A)"
  by (induction n) (simp_all add: isa_length)

text \<open>From the state a program is loaded in.\<close>

lemma loaded_latches:
  assumes "load_program s ws a = Inr s1"
  shows "\<not> id_valid (sm_idex s1)" "\<not> if_valid (sm_ifid s1)" "\<not> ex_valid (sm_exmem s1)"
proof -
  from assms obtain m where s1: "s1 = log_add (Log_Loaded (length ws) a) ((sim_reset s)\<lparr>sm_mem := m, sm_pc := a\<rparr>)"
    by (auto simp: load_program_def Let_def split: sum.splits)
  show "\<not> id_valid (sm_idex s1)" "\<not> if_valid (sm_ifid s1)" "\<not> ex_valid (sm_exmem s1)"
    by (simp_all add: s1 log_add_def sim_reset_def idex_init_def ifid_init_def exmem_init_def)
qed

lemma prog_inv_boot:
  assumes "sim_wf s" "0 \<le> a" "a \<le> int (length (sm_mem s))" "load_program s ws a = Inr s1"
    and c: "take (length c) (sm_mem s1) = c"
  shows "prog_inv c s1" "abs_state s1 = boot (sm_mem s1) a" "cycles s1 = 0"
proof -
  note l = load_program_pipe_ok [OF assms(1-4)]
  show "abs_state s1 = boot (sm_mem s1) a" "cycles s1 = 0" by (rule l(2), rule l(3))
  note v = loaded_latches [OF assms(4)]
  show "prog_inv c s1"
    using v c l(1) by (simp add: prog_inv_def retired_def addresses_ok_def link_ready_def)
qed

lemma program_stops:
  assumes s: "sim_wf s" "0 \<le> a" "a \<le> int (length (sm_mem s))" "load_program s ws a = Inr s1"
    and c: "code_ok c" "take (length c) (sm_mem s1) = c"
    and safe: "\<forall>i\<le>n. isa_safe (length c) ((isa_step ^^ i) (boot (sm_mem s1) a))"
    and h: "\<forall>i<n. \<not> isa_halted ((isa_step ^^ i) (boot (sm_mem s1) a))" "isa_halted ((isa_step ^^ n) (boot (sm_mem s1) a))"
    and m: "67 * int n + 198 \<le> m"
  defines "A \<equiv> (isa_step ^^ n) (boot (sm_mem s1) a)"
  shows "sm_halted (sim_loop m s1) \<and> rf_regs (sm_rf (sim_loop m s1)) = ar_regs A \<and> sm_mem (sim_loop m s1) = ar_mem A"
proof -
  note b = prog_inv_boot [OF s c(2)]
  obtain k where k: "k \<le> 67 * n" "prog_inv c ((tick ^^ k) s1)" "abs_state ((tick ^^ k) s1) = A"
    using many_instructions [OF b(1) c(1), of n] safe h(1) b(2) by (auto simp: A_def)
  let ?t = "(tick ^^ k) s1"
  have sA: "isa_safe (length c) A" and hA: "isa_halted A" using safe h(2) by (simp_all add: A_def)
  have "length c \<le> length (ar_mem A)"
    using take_length_le [OF c(2)] by (simp add: A_def isa_run_length boot_def)
  then have "isa_step A = A"
    using sA by (intro isa_halt_stands [OF hA]) (simp_all add: isa_safe_def)
  with hlt_reached [OF k(2) _ c(1)] k(3) sA hA obtain j where j: "j \<le> 133" "pipe_ok ((tick ^^ j) ?t)"
    "at_halt ((tick ^^ j) ?t)" "abs_state ((tick ^^ j) ?t) = A" by auto
  from halt_stops [OF j(2,3)] j(4) obtain i where i: "i \<le> 65" "sm_halted ((tick ^^ i) ((tick ^^ j) ?t))"
    "rf_regs (sm_rf ((tick ^^ i) ((tick ^^ j) ?t))) = ar_regs A" "sm_mem ((tick ^^ i) ((tick ^^ j) ?t)) = ar_mem A" by auto
  have e: "(tick ^^ i) ((tick ^^ j) ?t) = (tick ^^ (i + (j + k))) s1" by (simp only: funpow_add o_apply)
  have "sim_loop m s1 = (tick ^^ (i + (j + k))) s1"
    using i(1,2) j(1) k(1) m e b(3) by (intro sim_loop_ticks) simp_all
  with i e show ?thesis by simp
qed

section \<open>The manual's reading\<close>

lemma spec_run_isa:
  assumes "\<forall>i\<le>n. spec_safe k ((spec_step ^^ i) A)" "i \<le> n"
  shows "(spec_step ^^ i) A = (isa_step ^^ i) A"
  using assms by (intro spec_run_agreed) (simp add: spec_safe_def)

lemma spec_program_stops:
  assumes s: "sim_wf s" "0 \<le> a" "a \<le> int (length (sm_mem s))" "load_program s ws a = Inr s1"
    and c: "code_ok c" "take (length c) (sm_mem s1) = c"
    and safe: "\<forall>i\<le>n. spec_safe (length c) ((spec_step ^^ i) (boot (sm_mem s1) a))"
    and h: "\<forall>i<n. \<not> isa_halted ((spec_step ^^ i) (boot (sm_mem s1) a))" "isa_halted ((spec_step ^^ n) (boot (sm_mem s1) a))"
    and m: "67 * int n + 198 \<le> m"
  shows "sm_halted (sim_loop m s1) \<and> rf_regs (sm_rf (sim_loop m s1)) = ar_regs ((spec_step ^^ n) (boot (sm_mem s1) a))
    \<and> sm_mem (sim_loop m s1) = ar_mem ((spec_step ^^ n) (boot (sm_mem s1) a))"
proof -
  note e = spec_run_isa [OF safe]
  have "\<forall>i\<le>n. isa_safe (length c) ((isa_step ^^ i) (boot (sm_mem s1) a))"
    using safe e by (simp add: spec_safe_def)
  moreover have "\<forall>i<n. \<not> isa_halted ((isa_step ^^ i) (boot (sm_mem s1) a))"
    using h(1) e by (simp add: less_imp_le)
  ultimately show ?thesis
    using program_stops [OF s c, of n m] h(2) e [of n] m by simp
qed

section \<open>A small program\<close>

text \<open>Four instructions and two words of padding in a memory of sixteen words; the store goes behind
  the code.\<close>

abbreviation small_program :: "int list" where
  "small_program \<equiv> [encode_i Op_MOVI 1 0 5, encode_i Op_ADDI 2 1 7, encode_s Op_SW 2 0 12, encode_j Op_HLT 0, 0, 0]"

abbreviation small_memory :: "int list" where
  "small_memory \<equiv> small_program @ replicate 10 0"

lemma small_code_ok: "code_ok small_program"
  by code_simp

lemma small_words: "map (\<lambda>w. w AND WORD_MASK) small_program = small_program"
  by code_simp

lemma load_16:
  assumes "length ws = 6" "map (\<lambda>w. w AND WORD_MASK) ws = ws"
  obtains s1 where "load_program (sim_init 16) ws 0 = Inr s1" "sm_mem s1 = ws @ replicate 10 0"
proof -
  have l: "sm_mem (sim_init 16) = replicate 16 0" by (simp add: sim_init_def)
  have d: "replicate 10 0 = drop 6 (replicate 16 (0 :: int))" by simp
  define s1 where "s1 = log_add (Log_Loaded (length ws) 0) ((sim_reset (sim_init 16))\<lparr>sm_mem := ws @ replicate 10 0, sm_pc := 0\<rparr>)"
  have "load_program (sim_init 16) ws (int 0) = Inr s1"
    unfolding s1_def by (subst load_program_fit) (simp_all only: l assms d, simp_all add: assms)
  then have "load_program (sim_init 16) ws 0 = Inr s1" by simp
  moreover have "sm_mem s1 = ws @ replicate 10 0" by (simp add: s1_def log_add_def)
  ultimately show ?thesis by (rule that)
qed

lemma small_load:
  obtains s1 where "load_program (sim_init 16) small_program 0 = Inr s1" "sm_mem s1 = small_memory"
  by (rule load_16 [OF _ small_words]) (simp, blast)

lemma small_run:
  "list_all (\<lambda>i. isa_safe 6 ((isa_step ^^ i) (boot small_memory 0))) [0, 1, 2, 3]"
  "list_all (\<lambda>i. \<not> isa_halted ((isa_step ^^ i) (boot small_memory 0))) [0, 1, 2]"
  "isa_halted ((isa_step ^^ 3) (boot small_memory 0))"
  "ar_regs ((isa_step ^^ 3) (boot small_memory 0)) ! 2 = 12"
  "ar_mem ((isa_step ^^ 3) (boot small_memory 0)) ! 12 = 12"
  by code_simp+

lemma small_safe:
  "\<forall>i\<le>3. isa_safe (length small_program) ((isa_step ^^ i) (boot small_memory 0))"
  "\<forall>i<3. \<not> isa_halted ((isa_step ^^ i) (boot small_memory 0))"
proof -
  have l: "length small_program = 6" by simp
  have "i \<le> 3 \<Longrightarrow> i \<in> set [0, 1, 2, 3]" "i < 3 \<Longrightarrow> i \<in> set [0, 1, 2]" for i :: nat by auto
  then show "\<forall>i\<le>3. isa_safe (length small_program) ((isa_step ^^ i) (boot small_memory 0))"
    "\<forall>i<3. \<not> isa_halted ((isa_step ^^ i) (boot small_memory 0))"
    using small_run(1,2) unfolding l list_all_iff by blast+
qed

lemma small_spec:
  "list_all (\<lambda>i. spec_safe 6 ((spec_step ^^ i) (boot small_memory 0))) [0, 1, 2, 3]"
  by code_simp

lemma small_spec_run:
  "\<forall>i\<le>3. spec_safe (length small_program) ((spec_step ^^ i) (boot small_memory 0))"
  "i \<le> 3 \<Longrightarrow> (spec_step ^^ i) (boot small_memory 0) = (isa_step ^^ i) (boot small_memory 0)"
proof -
  have l: "length small_program = 6" by simp
  have "i \<le> 3 \<Longrightarrow> i \<in> set [0, 1, 2, 3]" for i :: nat by auto
  then show s: "\<forall>i\<le>3. spec_safe (length small_program) ((spec_step ^^ i) (boot small_memory 0))"
    using small_spec unfolding l list_all_iff by blast
  then show "i \<le> 3 \<Longrightarrow> (spec_step ^^ i) (boot small_memory 0) = (isa_step ^^ i) (boot small_memory 0)"
    by (rule spec_run_isa)
qed

section \<open>Where the simulator leaves the manual\<close>

text \<open>\<open>ORI R1, R0, 0x8000\<close> followed by \<open>HLT\<close>: the simulator ends with 0xFFFF8000 in \<open>R1\<close>, the manual
  (\<^verbatim>\<open>isa_spec.md:58\<close> and 87) with 0x8000.\<close>

abbreviation ori_program :: "int list" where
  "ori_program \<equiv> [encode_i Op_ORI 1 0 0x8000, encode_j Op_HLT 0, 0, 0, 0, 0]"

lemma ori_run:
  "code_ok ori_program" "map (\<lambda>w. w AND WORD_MASK) ori_program = ori_program"
  "isa_safe 6 (boot (ori_program @ replicate 10 0) 0)" "\<not> isa_halted (boot (ori_program @ replicate 10 0) 0)"
  "isa_safe 6 (isa_step (boot (ori_program @ replicate 10 0) 0))" "isa_halted (isa_step (boot (ori_program @ replicate 10 0) 0))"
  "ar_regs (isa_step (boot (ori_program @ replicate 10 0) 0)) ! 1 = 0xFFFF8000"
  "ar_regs (spec_step (boot (ori_program @ replicate 10 0) 0)) ! 1 = 0x8000"
  by code_simp+

lemma ori_divergence:
  "\<exists>s1. load_program (sim_init 16) ori_program 0 = Inr s1 \<and> sm_halted (sim_loop 400 s1)
     \<and> rf_regs (sm_rf (sim_loop 400 s1)) ! 1 = 0xFFFF8000
     \<and> ar_regs (spec_step (boot (sm_mem s1) 0)) ! 1 = 0x8000"
proof -
  obtain s1 where s: "load_program (sim_init 16) ori_program 0 = Inr s1" "sm_mem s1 = ori_program @ replicate 10 0"
    by (rule load_16 [OF _ ori_run(2)]) (simp, blast)
  have l: "length ori_program = 6" and one: "(f ^^ 1) A = f A" for f :: "arch \<Rightarrow> arch" and A by simp_all
  have w: "sim_wf (sim_init 16)" by (rule sim_wf_init) simp
  have t: "take (length ori_program) (sm_mem s1) = ori_program" unfolding s(2) by simp
  have i: "\<forall>i\<le>1. isa_safe (length ori_program) ((isa_step ^^ i) (boot (sm_mem s1) 0))"
  proof (intro allI impI)
    fix i :: nat
    assume "i \<le> 1"
    then have "i = 0 \<or> i = 1" by auto
    then show "isa_safe (length ori_program) ((isa_step ^^ i) (boot (sm_mem s1) 0))"
      using ori_run(3,5) unfolding s(2) l by (elim disjE) (simp_all only: funpow_0 one)
  qed
  have "sm_halted (sim_loop 400 s1) \<and> rf_regs (sm_rf (sim_loop 400 s1)) = ar_regs ((isa_step ^^ 1) (boot (sm_mem s1) 0))"
    using program_stops [OF w _ _ s(1) ori_run(1) t i, of 400] ori_run(4,6) unfolding s(2) one by simp
  then show ?thesis
    using s ori_run(7,8) by (intro exI [of _ s1]) (simp only: one s(2) simp_thms)
qed

end
