(* ===== verification/Loader_Export.thy ===== *)
theory Loader_Export
  imports Hex_Roundtrip
begin

unbundle bit_operations_syntax

text \<open>
  The exports of \<^verbatim>\<open>Loader\<close> in \<^verbatim>\<open>toolchain/loader.py\<close>: the \<^verbatim>\<open>.mem\<close> file of \<^verbatim>\<open>$readmemh\<close>, the COE file
  and the Verilog initial block, and what the plain reader of the command line makes of a \<^verbatim>\<open>.mem\<close>
  file.
\<close>

section \<open>Model\<close>

record loader =
  ld_depth :: int
  ld_mem :: image

definition MEM_DEPTH :: int where "MEM_DEPTH = shl 1 20"

definition loader_init :: "int \<Rightarrow> loader" where
  "loader_init mem_depth = \<lparr>ld_depth = mem_depth, ld_mem = []\<rparr>"

text \<open>\<^verbatim>\<open>size or default\<close>; a length below zero is an empty list.\<close>

definition size_or :: "int \<Rightarrow> int option \<Rightarrow> int" where
  "size_or dflt sz = (case sz of Some n \<Rightarrow> if n = 0 then dflt else n | None \<Rightarrow> dflt)"

definition mem_list :: "loader \<Rightarrow> int \<Rightarrow> int option \<Rightarrow> int list" where
  "mem_list ld base sz = to_mem_list (ld_mem ld) base (nat (size_or (ld_depth ld) sz))"

definition write_mem :: "loader \<Rightarrow> int \<Rightarrow> int option \<Rightarrow> string" where
  "write_mem ld base sz =
     (let buf = mem_list ld base (Some (size_or (ld_depth ld) sz))
      in join_lines (map (fmt_hex 8) buf) @ [CHR 0x0A])"

definition write_coe :: "loader \<Rightarrow> int \<Rightarrow> int option \<Rightarrow> string" where
  "write_coe ld base sz =
     (let n = size_or 4096 sz;
          buf = mem_list ld base (Some n);
          row = (\<lambda>(i, w). fmt_hex 8 w @ (if int i < n - 1 then '','' else '';''))
      in join_lines ([''memory_initialization_radix=16;'', ''memory_initialization_vector='']
           @ map row (enumerate 0 buf)) @ [CHR 0x0A])"

definition write_verilog_init :: "loader \<Rightarrow> string \<Rightarrow> int \<Rightarrow> int \<Rightarrow> string" where
  "write_verilog_init ld file_name base sz =
     (let buf = mem_list ld base (Some sz);
          row = (\<lambda>(i, w). ''  mem['' @ fmt_dec (int i) @ ''] = 32'' @ [CHR 0x27] @ ''h'' @ fmt_hex 8 w @ '';'')
      in join_lines ([''// Auto-gerado por toolchain/loader.py'', ''// '' @ file_name, ''initial begin'']
           @ map row (filter (\<lambda>(i, w). w \<noteq> 0) (enumerate 0 buf)) @ [''end'']) @ [CHR 0x0A])"

definition word_count :: "loader \<Rightarrow> nat" where
  "word_count ld = length (ld_mem ld)"

definition address_range :: "loader \<Rightarrow> int \<times> int" where
  "address_range ld =
     (case map fst (ld_mem ld) of
        [] \<Rightarrow> (0, 0)
      | a # as \<Rightarrow> (foldr min as a, foldr max as a))"

section \<open>Reading a .mem file back\<close>

lemma fmt_hex8_line: "u32 w \<Longrightarrow> one_line (fmt_hex 8 w) \<and> hd (fmt_hex 8 w) \<noteq> CHR '':'' \<and> hd (fmt_hex 8 w) \<noteq> CHR '';''"
proof -
  assume "u32 w"
  then have d: "list_all (is_digit 16) (fmt_hex 8 w)" "fmt_hex 8 w \<noteq> []"
    using zero_pad_digits [of 16 8 "nat w"] by (simp_all add: u32_def fmt_hex_def)
  then have h: "is_digit 16 (hd (fmt_hex 8 w))"
    by (cases "fmt_hex 8 w") simp_all
  have "is_digit 16 c \<Longrightarrow> c \<noteq> CHR '':'' \<and> c \<noteq> CHR '';''" for c
    by (auto simp: is_digit_def digit_val_def)
  with h d show ?thesis
    by (auto simp: one_line_def list_all_iff digit_not_space digit_not_break)
qed

lemma starts_with_hd: "starts_with s [c] \<longleftrightarrow> s \<noteq> [] \<and> hd s = c"
  by (cases s) simp_all

lemma plain_hex_words_mem: "list_all u32 ws \<Longrightarrow> plain_hex_words (map (fmt_hex 8) ws) = Inr ws"
proof (induction ws)
  case (Cons w ws)
  then have w: "u32 w" "0 \<le> w" by (simp_all add: u32_def)
  note l = fmt_hex8_line [OF w(1)]
  have "py_strip (fmt_hex 8 w) = fmt_hex 8 w" "fmt_hex 8 w \<noteq> []"
    using l one_line_strip by (auto simp: one_line_def)
  with Cons l w(2) show ?case
    by (simp add: starts_with_hd int16_def py_int_fmt_hex)
qed simp

lemma main_load_hex_mem:
  assumes "ws \<noteq> []" "list_all u32 ws"
  shows "main_load_hex (join_lines (map (fmt_hex 8) ws) @ [CHR 0x0A]) = Inr ws"
proof -
  have l: "list_all one_line (map (fmt_hex 8) ws)"
    using assms(2) by (simp add: list_all_iff fmt_hex8_line)
  then have s: "py_splitlines (join_lines (map (fmt_hex 8) ws) @ [CHR 0x0A]) = map (fmt_hex 8) ws"
    using assms(1) by (simp add: join_lines_newline splitlines_concat del: map_map)
  have "\<not> starts_with (py_strip (fmt_hex 8 w)) '':''" if "w \<in> set ws" for w
    using that assms(2) fmt_hex8_line [of w] by (auto simp: list_all_iff starts_with_hd one_line_strip)
  then show ?thesis
    using plain_hex_words_mem [OF assms(2)] by (simp add: main_load_hex_def s list_ex_iff)
qed

lemma to_mem_list_length [simp]: "length (to_mem_list m base n) = n"
proof -
  have "length (fold (\<lambda>(addr, word) result.
      let idx = addr - base in if 0 \<le> idx \<and> idx < int n then result[nat idx := word] else result) m xs) = length xs" for xs
    by (induction m arbitrary: xs) (auto simp: Let_def)
  then show ?thesis by (simp add: to_mem_list_def)
qed

lemma to_mem_list_u32: "list_all (\<lambda>(a, w). u32 w) m \<Longrightarrow> list_all u32 (to_mem_list m base n)"
proof -
  have "list_all (\<lambda>(a, w). u32 w) m \<Longrightarrow> list_all u32 xs \<Longrightarrow> list_all u32 (fold (\<lambda>(addr, word) result.
      let idx = addr - base in if 0 \<le> idx \<and> idx < int n then result[nat idx := word] else result) m xs)" for xs
    by (induction m arbitrary: xs) (auto simp: Let_def list_all_update)
  then show "list_all (\<lambda>(a, w). u32 w) m \<Longrightarrow> list_all u32 (to_mem_list m base n)"
    by (simp add: to_mem_list_def list_all_replicate)
qed

text \<open>A cell of the list: the last word stored at its address, or 0.\<close>

lemma to_mem_list_nth:
  assumes "distinct (map fst m)" "i < n"
  shows "to_mem_list m base n ! i = (case map_of m (base + int i) of Some w \<Rightarrow> w | None \<Rightarrow> 0)"
proof -
  have "fold (\<lambda>(addr, word) result.
      let idx = addr - base in if 0 \<le> idx \<and> idx < int n then result[nat idx := word] else result) m xs ! i
    = (case map_of m (base + int i) of Some w \<Rightarrow> w | None \<Rightarrow> xs ! i)"
    if "distinct (map fst m)" "length xs = n" for m xs
    using that
  proof (induction m arbitrary: xs)
    case (Cons p m)
    obtain a w where p: "p = (a, w)" by (cases p)
    have no: "map_of m a = None" using Cons.prems(1) by (simp add: p map_of_eq_None_iff)
    let ?ys = "if 0 \<le> a - base \<and> a - base < int n then xs[nat (a - base) := w] else xs"
    have y: "?ys ! i = (if a = base + int i then w else xs ! i)" "length ?ys = n"
      using assms(2) Cons.prems(2) by (auto simp: nth_list_update)
    with Cons.IH [of ?ys] Cons.prems(1) no show ?case
      by (auto simp: p Let_def split: option.split)
  qed simp
  from this [OF assms(1), of "replicate n 0"] assms(2) show ?thesis
    by (simp add: to_mem_list_def split: option.split)
qed

lemma mem_file_readback:
  assumes "list_all (\<lambda>(a, w). u32 w) (ld_mem ld)" "0 < size_or (ld_depth ld) sz"
  shows "main_load_hex (write_mem ld base sz) = Inr (mem_list ld base sz)"
proof -
  have same: "mem_list ld base (Some (size_or (ld_depth ld) sz)) = mem_list ld base sz"
    by (simp add: mem_list_def size_or_def split: option.split)
  have "length (mem_list ld base sz) = nat (size_or (ld_depth ld) sz)"
    by (simp add: mem_list_def)
  then have "mem_list ld base sz \<noteq> []" using assms(2) by auto
  then show ?thesis
    using main_load_hex_mem [of "mem_list ld base sz"] to_mem_list_u32 [OF assms(1)] same
    by (simp add: write_mem_def mem_list_def)
qed

end
