(* ===== verification/Command_Line.thy ===== *)
theory Command_Line
  imports Loader_Export Disassembler Linker C_Preprocess Simulator
begin

unbundle bit_operations_syntax

text \<open>
  The commands of \<^verbatim>\<open>main.py\<close> that drive the tools: assemble, compile, build, simulate, run, link,
  load and demo.  The file system is a map from paths to files, which a command returns updated; a
  write always succeeds.  A text is kept by its bytes, and text files are read with universal
  newlines.  Object files, which only the linker reads, are kept apart, by the value the JSON reader
  gives.  What a command prints is left out, apart from the values that its result holds.
\<close>

section \<open>Files and failures\<close>

datatype disk_file = Text_File string | Binary_File "int list"

record files =
  fs_files :: "string \<rightharpoonup> disk_file"
  fs_objs :: "string \<rightharpoonup> obj_file"

datatype failure =
    Exit_1                              \<comment> \<open>a message and \<^verbatim>\<open>sys.exit(1)\<close>\<close>
  | Uncaught_Py py_error
  | Uncaught_Asm asm_error
  | Uncaught_Compile compile_error
  | Uncaught_Pre pre_error
  | Uncaught_Load py_error

definition lift_failure :: "('e \<Rightarrow> failure) \<Rightarrow> 'e + 'a \<Rightarrow> failure + 'a" where
  "lift_failure f x = (case x of Inl e \<Rightarrow> Inl (f e) | Inr v \<Rightarrow> Inr v)"

text \<open>Reading in text mode: the bytes must be UTF-8, and every line end becomes a line feed.\<close>

fun universal_newlines :: "string \<Rightarrow> string" where
  "universal_newlines [] = []"
| "universal_newlines (c # cs) =
     (if c = CHR 0x0D
      then CHR 0x0A # (case cs of [] \<Rightarrow> [] | d # ds \<Rightarrow>
             if d = CHR 0x0A then universal_newlines ds else universal_newlines (d # ds))
      else c # universal_newlines cs)"

text \<open>The well-formed sequences of the UTF-8 encoding.\<close>

definition cont_byte :: "int \<Rightarrow> bool" where "cont_byte b \<longleftrightarrow> 0x80 \<le> b \<and> b \<le> 0xBF"

fun utf8 :: "int list \<Rightarrow> bool" where
  "utf8 [] = True"
| "utf8 (a # bs) =
     (if a < 0x80 then utf8 bs
      else if 0xC2 \<le> a \<and> a \<le> 0xDF then
        (case bs of b # bs' \<Rightarrow> cont_byte b \<and> utf8 bs' | _ \<Rightarrow> False)
      else if 0xE0 \<le> a \<and> a \<le> 0xEF then
        (case bs of
           b # c # bs' \<Rightarrow> cont_byte b \<and> cont_byte c \<and> (a = 0xE0 \<longrightarrow> 0xA0 \<le> b) \<and> (a = 0xED \<longrightarrow> b \<le> 0x9F)
             \<and> utf8 bs'
         | _ \<Rightarrow> False)
      else if 0xF0 \<le> a \<and> a \<le> 0xF4 then
        (case bs of
           b # c # d # bs' \<Rightarrow> cont_byte b \<and> cont_byte c \<and> cont_byte d \<and> (a = 0xF0 \<longrightarrow> 0x90 \<le> b)
             \<and> (a = 0xF4 \<longrightarrow> b \<le> 0x8F) \<and> utf8 bs'
         | _ \<Rightarrow> False)
      else False)"

text \<open>\<^verbatim>\<open>open(path, encoding="utf-8").read()\<close> and \<^verbatim>\<open>open(path, "rb").read()\<close>; a decoding error is a
  \<^verbatim>\<open>ValueError\<close>.\<close>

definition read_text :: "disk_file \<Rightarrow> py_error + string" where
  "read_text f =
     (case f of
        Text_File t \<Rightarrow> Inr (universal_newlines t)
      | Binary_File b \<Rightarrow>
          if utf8 b then Inr (universal_newlines (map (\<lambda>x. char_of (nat x)) b)) else Inl ValueError)"

definition read_bytes :: "disk_file \<Rightarrow> int list" where
  "read_bytes f = (case f of Text_File t \<Rightarrow> map of_char t | Binary_File b \<Rightarrow> b)"

text \<open>A missing file ends the command.\<close>

definition source_text :: "files \<Rightarrow> string \<Rightarrow> failure + string" where
  "source_text fs path =
     (case fs_files fs path of
        None \<Rightarrow> Inl Exit_1
      | Some f \<Rightarrow> lift_failure Uncaught_Py (read_text f))"

definition put_file :: "string \<Rightarrow> disk_file \<Rightarrow> files \<Rightarrow> files" where
  "put_file path f fs = fs\<lparr>fs_files := (fs_files fs)(path \<mapsto> f)\<rparr>"

text \<open>\<^verbatim>\<open>path.rsplit(".", 1)[0]\<close>, \<^verbatim>\<open>os.path.splitext(path)[0]\<close>, \<^verbatim>\<open>path.endswith(s)\<close>, \<^verbatim>\<open>Path(path).name\<close>\<close>

definition before_dot :: "string \<Rightarrow> string" where
  "before_dot path = (case dropWhile (\<lambda>c. c \<noteq> CHR ''.'') (rev path) of [] \<Rightarrow> path | _ # r \<Rightarrow> rev r)"

definition file_name :: "string \<Rightarrow> string" where
  "file_name path = rev (takeWhile (\<lambda>c. c \<noteq> CHR ''/'') (rev path))"

definition splitext_root :: "string \<Rightarrow> string" where
  "splitext_root path =
     (let nm = file_name path;
          stem = (case dropWhile (\<lambda>c. c \<noteq> CHR ''.'') (rev nm) of [] \<Rightarrow> [] | _ # r \<Rightarrow> rev r)
      in if list_ex (\<lambda>c. c \<noteq> CHR ''.'') stem then take (length path - length nm + length stem) path else path)"

definition ends_with :: "string \<Rightarrow> string \<Rightarrow> bool" where
  "ends_with s suffix = starts_with (rev s) (rev suffix)"

text \<open>\<^verbatim>\<open>args.output or default\<close>\<close>

definition or_default :: "string option \<Rightarrow> string \<Rightarrow> string" where
  "or_default out dflt = (case out of None \<Rightarrow> dflt | Some p \<Rightarrow> if p = [] then dflt else p)"

section \<open>assemble\<close>

text \<open>\<^verbatim>\<open>Assembler.write_binary\<close> and \<^verbatim>\<open>Assembler.listing\<close>\<close>

definition write_binary :: "int list \<Rightarrow> py_error + int list" where
  "write_binary words = (if list_all u32 words then Inr (concat (map word_bytes words)) else Inl StructError)"

definition listing :: "int list \<Rightarrow> int \<Rightarrow> string" where
  "listing words base_addr =
     join_lines (''ADDR       WORD       DISASSEMBLY''
       # map (\<lambda>(i, w). ''0x'' @ fmt_hex 7 (base_addr + int i) @ ''  '' @ fmt_hex 8 w @ ''   '' @ disassemble w)
           (enumerate 0 words))"

text \<open>\<^verbatim>\<open>except AssemblerError\<close>: the error of a missing operand is not one.\<close>

definition asm_or_exit :: "asm_error \<Rightarrow> failure" where
  "asm_or_exit e = (case e of AssemblerError _ _ \<Rightarrow> Exit_1 | MissingOperand \<Rightarrow> Uncaught_Asm e)"

definition cmd_assemble ::
  "string \<Rightarrow> string option \<Rightarrow> bool \<Rightarrow> bool \<Rightarrow> files \<Rightarrow> failure + string option \<times> files" where
  "cmd_assemble src_path output binary show_listing fs =
     ebind (source_text fs src_path) (\<lambda>source.
       ebind (lift_failure asm_or_exit (assemble source)) (\<lambda>(words, syms).
         let shown = (if show_listing then Some (listing words 0) else None);
             out = or_default output (before_dot src_path @ (if binary then ''.bin'' else ''.hex''))
         in if binary then
              ebind (lift_failure Uncaught_Py (write_binary words)) (\<lambda>b.
                Inr (shown, put_file out (Binary_File b) fs))
            else
              ebind (lift_failure Uncaught_Py (write_hex words 0)) (\<lambda>t.
                Inr (shown, put_file out (Text_File t) fs))))"

section \<open>compile and build\<close>

text \<open>\<^verbatim>\<open>_print_ast\<close>: the lines it prints, with two blanks for each level; a node it has no case for
  prints its class name only.\<close>

definition pad :: "nat \<Rightarrow> string" where "pad indent = concat (replicate indent ''  '')"

definition quoted :: "string \<Rightarrow> string" where "quoted n = squote # n @ [squote]"

text \<open>The representation of the list of parameter names.\<close>

definition repr_names :: "string list \<Rightarrow> string" where
  "repr_names ns = CHR ''['' # py_join '', '' (map quoted ns) @ '']''"

fun print_expr :: "nat \<Rightarrow> expr \<Rightarrow> string list" where
  "print_expr n (BinOp op l r _) = (pad n @ ''BinOp '' @ quoted op) # print_expr (n + 1) l @ print_expr (n + 1) r"
| "print_expr n (UnaryOp op e _) = (pad n @ ''UnaryOp '' @ quoted op) # print_expr (n + 1) e"
| "print_expr n (VarRef nm _) = [pad n @ ''VarRef '' @ quoted nm]"
| "print_expr n (IntLiteral v _) = [pad n @ ''IntLiteral '' @ fmt_dec v]"
| "print_expr n (FuncCall nm args _) = (pad n @ ''FuncCall '' @ quoted nm) # concat (map (print_expr (n + 1)) args)"
| "print_expr n (ArrayRef _ _ _) = [pad n @ ''ArrayRef'']"
| "print_expr n (AddrOf _ _ _) = [pad n @ ''AddrOf'']"
| "print_expr n (Deref _ _) = [pad n @ ''Deref'']"
| "print_expr n (StringLit _ _) = [pad n @ ''StringLit'']"

definition print_opt :: "nat \<Rightarrow> expr option \<Rightarrow> string list" where
  "print_opt n e = (case e of None \<Rightarrow> [] | Some e \<Rightarrow> print_expr n e)"

fun print_stmt :: "nat \<Rightarrow> stmt \<Rightarrow> string list" where
  "print_stmt n (VarDecl nm init _ _) = (pad n @ ''VarDecl '' @ quoted nm) # print_opt (n + 1) init"
| "print_stmt n (Assign nm _ v _) = (pad n @ ''Assign '' @ quoted nm) # print_expr (n + 1) v"
| "print_stmt n (IfStmt c t e _) =
     (pad n @ ''If'') # print_expr (n + 1) c @ (pad n @ ''  Then:'') # concat (map (print_stmt (n + 2)) t)
       @ (if e = [] then [] else (pad n @ ''  Else:'') # concat (map (print_stmt (n + 2)) e))"
| "print_stmt n (WhileStmt c b _) = (pad n @ ''While'') # print_expr (n + 1) c @ concat (map (print_stmt (n + 1)) b)"
| "print_stmt n (ReturnStmt v _) = (pad n @ ''Return'') # print_opt (n + 1) v"
| "print_stmt n (ExprStmt e _) = (pad n @ ''ExprStmt'') # print_expr (n + 1) e"
| "print_stmt n (Block ss _) = concat (map (print_stmt n) ss)"
| "print_stmt n (ArrayDecl _ _ _ _) = [pad n @ ''ArrayDecl'']"
| "print_stmt n (ArrayAssign _ _ _ _ _) = [pad n @ ''ArrayAssign'']"
| "print_stmt n (DerefAssign _ _ _ _) = [pad n @ ''DerefAssign'']"
| "print_stmt n (ForStmt _ _ _ _ _) = [pad n @ ''ForStmt'']"
| "print_stmt n (BreakStmt _) = [pad n @ ''BreakStmt'']"
| "print_stmt n (ContinueStmt _) = [pad n @ ''ContinueStmt'']"

definition print_func :: "nat \<Rightarrow> func_def \<Rightarrow> string list" where
  "print_func n f =
     (pad n @ ''FuncDef '' @ quoted (fd_name f) @ '' params='' @ repr_names (fd_params f))
       # concat (map (print_stmt (n + 1)) (fd_body f))"

definition print_ast :: "program \<Rightarrow> string list" where
  "print_ast p = ''Program'' # concat (map (print_func 1) (pr_functions p))"

text \<open>The compiler is called without a directory, so that \<^verbatim>\<open>#include\<close> lines are dropped and the
  preprocessor does not recur; \<^verbatim>\<open>except CompileError\<close> lets the other exceptions through.\<close>

definition compile_or_exit :: "compile_error \<Rightarrow> failure" where
  "compile_or_exit e = (case e of CompileError _ _ \<Rightarrow> Exit_1 | _ \<Rightarrow> Uncaught_Compile e)"

definition compile_source_of :: "string \<Rightarrow> failure + string" where
  "compile_source_of source =
     ebind (lift_failure Uncaught_Pre (compile_source 1 None source)) (lift_failure compile_or_exit)"

definition parse_source_of :: "string \<Rightarrow> failure + program" where
  "parse_source_of source =
     ebind (lift_failure Uncaught_Pre (preprocess 1 None source)) (\<lambda>text.
       lift_failure compile_or_exit (parse_text text))"

datatype compiled = Ast_Lines "string list" | Asm_Code string

definition cmd_compile :: "string \<Rightarrow> string option \<Rightarrow> bool \<Rightarrow> files \<Rightarrow> failure + compiled \<times> files" where
  "cmd_compile src_path output show_ast fs =
     ebind (source_text fs src_path) (\<lambda>source.
       if show_ast then ebind (parse_source_of source) (\<lambda>p. Inr (Ast_Lines (print_ast p), fs))
       else ebind (compile_source_of source) (\<lambda>asm_code.
              Inr (Asm_Code asm_code, put_file (or_default output (before_dot src_path @ ''.asm'')) (Text_File asm_code) fs)))"

definition cmd_build :: "string \<Rightarrow> string option \<Rightarrow> files \<Rightarrow> failure + files" where
  "cmd_build src_path output fs =
     ebind (source_text fs src_path) (\<lambda>source.
       ebind (compile_source_of source) (\<lambda>asm_code.
         ebind (lift_failure asm_or_exit (assemble asm_code)) (\<lambda>(words, syms).
           ebind (lift_failure Uncaught_Py (write_hex words 0)) (\<lambda>t.
             Inr (put_file (or_default output (before_dot src_path @ ''.hex'')) (Text_File t) fs)))))"

section \<open>simulate and run\<close>

text \<open>The words of a program file, by the extension of its path.\<close>

definition program_words :: "files \<Rightarrow> string \<Rightarrow> failure + int list" where
  "program_words fs path =
     (case fs_files fs path of
        None \<Rightarrow> Inl Exit_1
      | Some f \<Rightarrow>
          if ends_with path ''.asm'' then
            ebind (lift_failure Uncaught_Py (read_text f)) (\<lambda>src.
              ebind (lift_failure Uncaught_Asm (assemble src)) (\<lambda>(words, syms). Inr words))
          else if ends_with path ''.bin'' then Inr (main_load_bin (read_bytes f))
          else ebind (lift_failure Uncaught_Py (read_text f)) (\<lambda>t. lift_failure Uncaught_Py (main_load_hex t)))"

text \<open>A new simulator runs the words; the result is its final state.\<close>

definition run_words :: "int list \<Rightarrow> int \<Rightarrow> failure + sim" where
  "run_words words max_cycles =
     ebind (lift_failure Uncaught_Load (load_program (sim_init MEM_SIZE) words 0)) (\<lambda>s.
       Inr (snd (sim_run max_cycles s)))"

record report =
  rp_stats :: sim_stats
  rp_regs :: "(int \<times> int) list"
  rp_log :: "(int \<times> log_event) list"

text \<open>What is printed: the statistics, the registers that are not zero, the log if asked for.\<close>

definition report_of :: "bool \<Rightarrow> sim \<Rightarrow> report" where
  "report_of trace s =
     \<lparr>rp_stats = sm_stats s,
      rp_regs = filter (\<lambda>(i, v). v \<noteq> 0) (map (\<lambda>i. (i, rf_get (sm_rf s) i)) [0..31]),
      rp_log = (if trace then sm_log s else [])\<rparr>"

definition nonzero_or :: "int \<Rightarrow> int \<Rightarrow> int" where
  "nonzero_or dflt n = (if n = 0 then dflt else n)"

definition cmd_simulate :: "string \<Rightarrow> int \<Rightarrow> bool \<Rightarrow> files \<Rightarrow> failure + report" where
  "cmd_simulate path max_cycles trace fs =
     ebind (program_words fs path) (\<lambda>words.
       ebind (run_words words (nonzero_or 100000 max_cycles)) (\<lambda>s. Inr (report_of trace s)))"

definition cmd_run :: "string \<Rightarrow> int \<Rightarrow> files \<Rightarrow> failure + report" where
  "cmd_run path max_cycles fs =
     ebind (source_text fs path) (\<lambda>src.
       ebind (lift_failure Uncaught_Asm (assemble src)) (\<lambda>(words, syms).
         ebind (run_words words (nonzero_or 10000 max_cycles)) (\<lambda>s. Inr (report_of False s))))"

section \<open>link and load\<close>

definition TEXT_BASE :: int where "TEXT_BASE = 0x000000"
definition DATA_BASE :: int where "DATA_BASE = 0x002000"

fun link_inputs :: "files \<Rightarrow> string list \<Rightarrow> linker \<Rightarrow> failure + linker" where
  "link_inputs fs [] lk = Inr lk"
| "link_inputs fs (f # rest) lk =
     (case fs_objs fs f of
        None \<Rightarrow> Inl Exit_1
      | Some obj \<Rightarrow> ebind (lift_failure (\<lambda>_. Exit_1) (add_object lk obj)) (link_inputs fs rest))"

definition cmd_link :: "string list \<Rightarrow> string option \<Rightarrow> files \<Rightarrow> failure + files" where
  "cmd_link inputs output fs =
     (if inputs = [] then Inl Exit_1
      else
        ebind (link_inputs fs inputs (linker_init TEXT_BASE DATA_BASE)) (\<lambda>lk.
          ebind (lift_failure (\<lambda>_. Exit_1) (link lk)) (\<lambda>t.
            Inr (put_file (or_default output ''out.hex'') (Text_File t) fs))))"

datatype load_format = Fmt_Mem | Fmt_Coe | Fmt_Vinit

definition load_or_exit :: "load_error \<Rightarrow> failure" where
  "load_or_exit e = (case e of LoaderError _ \<Rightarrow> Exit_1 | LoaderRaises p \<Rightarrow> Uncaught_Py p)"

text \<open>The loader reads its text as ASCII.\<close>

definition ascii_text :: "string \<Rightarrow> py_error + string" where
  "ascii_text t = (if list_all (\<lambda>c. code c < 128) t then Inr t else Inl ValueError)"

definition cmd_load :: "string \<Rightarrow> load_format \<Rightarrow> string option \<Rightarrow> files \<Rightarrow> failure + files" where
  "cmd_load input fmt output fs =
     ebind (source_text fs input) (\<lambda>text.
       ebind (ebind (lift_failure Uncaught_Py (ascii_text text)) (\<lambda>text.
                lift_failure load_or_exit (load_hex text))) (\<lambda>mem.
         let ld = (loader_init MEM_DEPTH)\<lparr>ld_mem := mem\<rparr>;
             base = splitext_root (or_default output input)
         in case fmt of
              Fmt_Coe \<Rightarrow>
                Inr (put_file (or_default output (base @ ''.coe'')) (Text_File (write_coe ld 0 None)) fs)
            | Fmt_Vinit \<Rightarrow>
                (let out = or_default output (base @ ''_init.v'')
                 in Inr (put_file out (Text_File (write_verilog_init ld (file_name out) 0 4096)) fs))
            | Fmt_Mem \<Rightarrow>
                Inr (put_file (or_default output (base @ ''.mem'')) (Text_File (write_mem ld 0 None)) fs)))"

section \<open>demo\<close>

definition DEMO_ASM :: string where
  "DEMO_ASM = concat (map (\<lambda>l. l @ [newline])
     [''; Demo EduRISC-32v2: soma de 1 a 5 = 15'',
      ''        .org 0x000000'',
      ''        MOVI  R1, 5        ; R1 = n = 5'',
      ''        MOVI  R2, 0        ; R2 = acc = 0'',
      ''LOOP:'',
      ''        ADD   R2, R2, R1   ; acc += n'',
      ''        ADDI  R1, R1, -1   ; n--'',
      ''        BNE   R1, R0, LOOP ; enquanto n != 0'',
      ''        HLT''])"

definition DEMO_C :: string where
  "DEMO_C = concat (map (\<lambda>l. l @ [newline])
     [''int main() {'',
      ''    int n = 5;'',
      ''    int acc = 0;'',
      ''    while (n) {'',
      ''        acc = acc + n;'',
      ''        n = n - 1;'',
      ''    }'',
      ''    return acc;'',
      ''}''])"

text \<open>R2 after the first program and R1 after the second; the latter is None when the exception
  handler has printed a note instead.\<close>

definition cmd_demo :: "failure + int \<times> int option" where
  "cmd_demo =
     ebind (lift_failure Uncaught_Asm (assemble DEMO_ASM)) (\<lambda>(words, syms).
       ebind (run_words words 1000) (\<lambda>s.
         ebind (compile_source_of DEMO_C) (\<lambda>asm_code.
           Inr (rf_get (sm_rf s) 2,
             case ebind (lift_failure Uncaught_Asm (assemble asm_code)) (\<lambda>(words2, syms2). run_words words2 5000) of
               Inl _ \<Rightarrow> None
             | Inr s2 \<Rightarrow> Some (rf_get (sm_rf s2) 1)))))"

end
