(* ===== verification/Ast_Repr.thy ===== *)
theory Ast_Repr
  imports C_Codegen
begin

text \<open>
  The text of a syntax tree: \<^verbatim>\<open>str\<close> of the data classes of \<^verbatim>\<open>compiler/ast_nodes.py\<close>, which the driver of
  the tool chain writes to a file.  Each class prints its name and its fvs, in the order in which
  they are declared.
\<close>

section \<open>Values\<close>

text \<open>\<^verbatim>\<open>repr\<close> of a string: in single quotes, unless it has a single quote and no double one.  Bytes from
  128 belong to the encoding of printable characters, which are kept.\<close>

definition repr_char :: "char \<Rightarrow> char \<Rightarrow> string" where
  "repr_char q c =
     (if c = q \<or> c = backslash then [backslash, c]
      else if code c = 10 then [backslash, CHR ''n'']
      else if code c = 13 then [backslash, CHR ''r'']
      else if code c = 9 then [backslash, CHR ''t'']
      else if code c < 32 \<or> code c = 127 then backslash # CHR ''x'' # py_lower (fmt_hex 2 (of_char c))
      else [c])"

definition repr_str :: "string \<Rightarrow> string" where
  "repr_str s =
     (let q = (if squote \<in> set s \<and> dquote \<notin> set s then dquote else squote)
      in q # concat (map (repr_char q) s) @ [q])"

definition repr_list :: "string list \<Rightarrow> string" where
  "repr_list xs = CHR ''['' # py_join '', '' xs @ '']''"

definition repr_bool :: "bool \<Rightarrow> string" where "repr_bool b = (if b then ''True'' else ''False'')"

definition repr_line :: "nat \<Rightarrow> string" where "repr_line l = fmt_dec (int l)"

definition repr_opt :: "string option \<Rightarrow> string" where
  "repr_opt x = (case x of None \<Rightarrow> ''None'' | Some s \<Rightarrow> s)"

text \<open>\<^verbatim>\<open>Name(field=value, ...)\<close>\<close>

definition repr_data :: "string \<Rightarrow> (string \<times> string) list \<Rightarrow> string" where
  "repr_data nm fvs = nm @ ''('' @ py_join '', '' (map (\<lambda>(f, v). f @ ''='' @ v) fvs) @ '')''"

section \<open>Nodes\<close>

fun repr_expr :: "expr \<Rightarrow> string" where
  "repr_expr (IntLiteral v l) = repr_data ''IntLiteral'' [(''value'', fmt_dec v), (''line'', repr_line l)]"
| "repr_expr (VarRef n l) = repr_data ''VarRef'' [(''name'', repr_str n), (''line'', repr_line l)]"
| "repr_expr (BinOp op a b l) =
     repr_data ''BinOp'' [(''op'', repr_str op), (''left'', repr_expr a), (''right'', repr_expr b), (''line'', repr_line l)]"
| "repr_expr (UnaryOp op e l) =
     repr_data ''UnaryOp'' [(''op'', repr_str op), (''operand'', repr_expr e), (''line'', repr_line l)]"
| "repr_expr (FuncCall n args l) =
     repr_data ''FuncCall'' [(''name'', repr_str n), (''args'', repr_list (map repr_expr args)), (''line'', repr_line l)]"
| "repr_expr (ArrayRef n i l) =
     repr_data ''ArrayRef'' [(''name'', repr_str n), (''index'', repr_expr i), (''line'', repr_line l)]"
| "repr_expr (AddrOf n i l) =
     repr_data ''AddrOf'' [(''name'', repr_str n), (''index'', repr_opt (map_option repr_expr i)), (''line'', repr_line l)]"
| "repr_expr (Deref p l) = repr_data ''Deref'' [(''ptr'', repr_expr p), (''line'', repr_line l)]"
| "repr_expr (StringLit v l) = repr_data ''StringLit'' [(''value'', repr_str v), (''line'', repr_line l)]"

definition repr_init :: "expr option \<Rightarrow> string" where "repr_init e = repr_opt (map_option repr_expr e)"

definition repr_inits :: "expr list option \<Rightarrow> string" where
  "repr_inits es = repr_opt (map_option (\<lambda>es. repr_list (map repr_expr es)) es)"

fun repr_stmt :: "stmt \<Rightarrow> string" where
  "repr_stmt (VarDecl n init l p) =
     repr_data ''VarDecl'' [(''name'', repr_str n), (''init'', repr_init init), (''line'', repr_line l), (''is_ptr'', repr_bool p)]"
| "repr_stmt (ArrayDecl n sz init l) =
     repr_data ''ArrayDecl'' [(''name'', repr_str n), (''size'', fmt_dec sz), (''init'', repr_inits init), (''line'', repr_line l)]"
| "repr_stmt (Assign n op v l) =
     repr_data ''Assign'' [(''name'', repr_str n), (''op'', repr_str op), (''value'', repr_expr v), (''line'', repr_line l)]"
| "repr_stmt (ArrayAssign n i op v l) =
     repr_data ''ArrayAssign''
       [(''name'', repr_str n), (''index'', repr_expr i), (''op'', repr_str op), (''value'', repr_expr v), (''line'', repr_line l)]"
| "repr_stmt (DerefAssign p op v l) =
     repr_data ''DerefAssign'' [(''ptr'', repr_expr p), (''op'', repr_str op), (''value'', repr_expr v), (''line'', repr_line l)]"
| "repr_stmt (IfStmt c t e l) =
     repr_data ''IfStmt''
       [(''cond'', repr_expr c), (''then_body'', repr_list (map repr_stmt t)), (''else_body'', repr_list (map repr_stmt e)),
        (''line'', repr_line l)]"
| "repr_stmt (WhileStmt c b l) =
     repr_data ''WhileStmt'' [(''cond'', repr_expr c), (''body'', repr_list (map repr_stmt b)), (''line'', repr_line l)]"
| "repr_stmt (ForStmt i c u b l) =
     repr_data ''ForStmt''
       [(''init'', repr_opt (map_option repr_stmt i)), (''cond'', repr_init c), (''update'', repr_opt (map_option repr_stmt u)),
        (''body'', repr_list (map repr_stmt b)), (''line'', repr_line l)]"
| "repr_stmt (ReturnStmt v l) = repr_data ''ReturnStmt'' [(''value'', repr_init v), (''line'', repr_line l)]"
| "repr_stmt (BreakStmt l) = repr_data ''BreakStmt'' [(''line'', repr_line l)]"
| "repr_stmt (ContinueStmt l) = repr_data ''ContinueStmt'' [(''line'', repr_line l)]"
| "repr_stmt (ExprStmt e l) = repr_data ''ExprStmt'' [(''expr'', repr_expr e), (''line'', repr_line l)]"
| "repr_stmt (Block ss l) = repr_data ''Block'' [(''stmts'', repr_list (map repr_stmt ss)), (''line'', repr_line l)]"

fun repr_global :: "global_decl \<Rightarrow> string" where
  "repr_global (GlobalVarDecl n init l p) =
     repr_data ''GlobalVarDecl'' [(''name'', repr_str n), (''init'', repr_init init), (''line'', repr_line l), (''is_ptr'', repr_bool p)]"
| "repr_global (GlobalArrayDecl n sz init l) =
     repr_data ''GlobalArrayDecl'' [(''name'', repr_str n), (''size'', fmt_dec sz), (''init'', repr_inits init), (''line'', repr_line l)]"

definition repr_func :: "func_def \<Rightarrow> string" where
  "repr_func f =
     repr_data ''FuncDef''
       [(''name'', repr_str (fd_name f)), (''params'', repr_list (map repr_str (fd_params f))),
        (''is_ptr'', repr_list (map repr_bool (fd_is_ptr f))), (''body'', repr_list (map repr_stmt (fd_body f))),
        (''line'', repr_line (fd_line f))]"

definition repr_program :: "program \<Rightarrow> string" where
  "repr_program p =
     repr_data ''Program''
       [(''globals'', repr_list (map repr_global (pr_globals p))), (''functions'', repr_list (map repr_func (pr_functions p)))]"

end
