(* ===== verification/Tool_Drivers.thy ===== *)
theory Tool_Drivers
  imports Command_Line Ast_Repr
begin

unbundle bit_operations_syntax

text \<open>
  The wrappers of the tool chain: \<^verbatim>\<open>ToolchainAssembler\<close> of \<^verbatim>\<open>toolchain/assembler.py\<close> and
  \<^verbatim>\<open>ToolchainCompiler\<close> of \<^verbatim>\<open>toolchain/compiler.py\<close>.  They turn the exceptions of the tools into the
  entries of a result dictionary.  The verbose messages are left out.
\<close>

section \<open>The order of a symbol table\<close>

text \<open>A dictionary keeps its keys in the order of their first insertion: for the symbols, the order of
  the lines of the source, a label before the constant of the same line.\<close>

definition line_names :: "string \<Rightarrow> string list" where
  "line_names raw =
     (let t = tokenize_line raw; r = drop_label t
      in (if t \<noteq> [] \<and> ends_with_colon (hd t) then [butlast (hd t)] else [])
         @ (if r \<noteq> [] \<and> py_lower (hd r) = ''.equ'' \<and> 3 \<le> length r then [r ! 1] else []))"

definition symbol_names :: "string list \<Rightarrow> string list" where
  "symbol_names lines =
     fold (\<lambda>n ns. if n \<in> set ns then ns else ns @ [n]) (concat (map line_names lines)) []"

definition symbol_items :: "string \<Rightarrow> symtab \<Rightarrow> (string \<times> int) list" where
  "symbol_items source syms = map (\<lambda>n. (n, the (syms n))) (symbol_names (py_splitlines source))"

section \<open>ToolchainAssembler\<close>

datatype tool_error =
    Source_Not_Found
  | Assembly_Error asm_error
  | Unknown_Output_Format string
  | Compiler_Failed "pre_error + compile_error"

record tool_result =
  tr_success :: bool
  tr_errors :: "tool_error list"
  tr_symbols :: "(string \<times> int) list"
  tr_bytes :: int

definition tool_failed :: "tool_error \<Rightarrow> (string \<times> int) list \<Rightarrow> int \<Rightarrow> tool_result" where
  "tool_failed e syms n = \<lparr>tr_success = False, tr_errors = [e], tr_symbols = syms, tr_bytes = n\<rparr>"

text \<open>\<^verbatim>\<open>_write_obj\<close>: both the compact and the structured entries are written.\<close>

definition write_obj :: "int list \<Rightarrow> (string \<times> int) list \<Rightarrow> obj_file" where
  "write_obj words symbols =
     \<lparr>ob_words = Some words, ob_text = Some (map (\<lambda>(i, w). (int i, w)) (enumerate 0 words)), ob_data = [],
      ob_bss_size = 0, ob_symbols = symbols, ob_relocs = []\<rparr>"

definition put_obj :: "string \<Rightarrow> obj_file \<Rightarrow> files \<Rightarrow> files" where
  "put_obj path ob fs = fs\<lparr>fs_objs := (fs_objs fs)(path \<mapsto> ob)\<rparr>"

text \<open>The file of the requested format; None for a format that is not known.\<close>

definition write_format ::
  "string \<Rightarrow> string \<Rightarrow> int list \<Rightarrow> (string \<times> int) list \<Rightarrow> files \<Rightarrow> failure + files option" where
  "write_format fmt out_path words symbols fs =
     (if fmt = ''hex'' then
        ebind (lift_failure Uncaught_Py (write_intel_hex words)) (\<lambda>t. Inr (Some (put_file out_path (Text_File t) fs)))
      else if fmt = ''obj'' then Inr (Some (put_obj out_path (write_obj words symbols) fs))
      else if fmt = ''bin'' then
        ebind (lift_failure Uncaught_Py (write_bin words)) (\<lambda>b. Inr (Some (put_file out_path (Binary_File b) fs)))
      else Inr None)"

definition assemble_file ::
  "bool \<Rightarrow> string \<Rightarrow> string \<Rightarrow> string \<Rightarrow> files \<Rightarrow> failure + tool_result \<times> files" where
  "assemble_file with_listing src_path out_path fmt fs =
     (case fs_files fs src_path of
        None \<Rightarrow> Inr (tool_failed Source_Not_Found [] 0, fs)
      | Some f \<Rightarrow>
          ebind (lift_failure Uncaught_Py (read_text f)) (\<lambda>source.
            case assemble source of
              Inl e \<Rightarrow> Inr (tool_failed (Assembly_Error e) [] 0, fs)
            | Inr (words, syms) \<Rightarrow>
                (let symbols = symbol_items source syms; n = int (length words) * 4
                 in ebind (write_format fmt out_path words symbols fs) (\<lambda>r.
                      case r of
                        None \<Rightarrow> Inr (tool_failed (Unknown_Output_Format fmt) symbols n, fs)
                      | Some fs \<Rightarrow>
                          Inr (\<lparr>tr_success = True, tr_errors = [], tr_symbols = symbols, tr_bytes = n\<rparr>,
                               if with_listing
                               then put_file (splitext_root out_path @ ''.lst'') (Text_File (listing words 0)) fs
                               else fs)))))"

section \<open>ToolchainCompiler\<close>

text \<open>Its own \<^verbatim>\<open>_preprocess\<close>: the defines seen so far are substituted in every later line, in the order
  of the dictionary, inside strings and comments too; \<^verbatim>\<open>#include\<close> lines are dropped.\<close>

fun tool_pre_lines :: "define_map \<Rightarrow> string list \<Rightarrow> pre_error + string list" where
  "tool_pre_lines defines [] = Inr []"
| "tool_pre_lines defines (line # lines) =
     (let stripped = py_strip line
      in if starts_with stripped ''#define'' then
           (case split_2 stripped of
              [_, nm, val] \<Rightarrow> tool_pre_lines (AList.update nm val defines) lines
            | [_, nm] \<Rightarrow> tool_pre_lines (AList.update nm ''1'' defines) lines
            | _ \<Rightarrow> tool_pre_lines defines lines)
         else if starts_with stripped ''#include'' then tool_pre_lines defines lines
         else ebind (sub_all defines line) (\<lambda>l.
                ebind (tool_pre_lines defines lines) (\<lambda>ls. Inr (l # ls))))"

definition tool_preprocess :: "string \<Rightarrow> pre_error + string" where
  "tool_preprocess source =
     ebind (tool_pre_lines [] (py_splitlines source)) (\<lambda>ls. Inr (py_join [newline] ls))"

record compile_result =
  co_success :: bool
  co_errors :: "tool_error list"
  co_warnings :: "string list"
  co_asm_path :: string
  co_hex_path :: "string option"

text \<open>\<^verbatim>\<open>except Exception\<close> around the compiler keeps every error.\<close>

definition compile_all :: "string \<Rightarrow> (pre_error + compile_error) + string" where
  "compile_all source =
     (case compile_source 1 None source of
        Inl e \<Rightarrow> Inl (Inl e)
      | Inr (Inl e) \<Rightarrow> Inl (Inr e)
      | Inr (Inr t) \<Rightarrow> Inr t)"

text \<open>The optional dump of the syntax tree; whatever goes wrong there is ignored.\<close>

definition write_ast :: "bool \<Rightarrow> string \<Rightarrow> string \<Rightarrow> files \<Rightarrow> files" where
  "write_ast emit_ast source asm_path fs =
     (if emit_ast then
        (case parse_source_of source of
           Inl _ \<Rightarrow> fs
         | Inr ast \<Rightarrow> put_file (splitext_root asm_path @ ''.ast'') (Text_File (repr_program ast)) fs)
      else fs)"

definition compile_file ::
  "bool \<Rightarrow> string \<Rightarrow> string \<Rightarrow> bool \<Rightarrow> files \<Rightarrow> failure + compile_result \<times> files" where
  "compile_file emit_ast src_path out_path with_asm fs =
     (let res = \<lparr>co_success = False, co_errors = [], co_warnings = [], co_asm_path = [], co_hex_path = None\<rparr>
      in case fs_files fs src_path of
           None \<Rightarrow> Inr (res\<lparr>co_errors := [Source_Not_Found]\<rparr>, fs)
         | Some f \<Rightarrow>
             ebind (lift_failure Uncaught_Py (read_text f)) (\<lambda>source.
               ebind (lift_failure Uncaught_Pre (tool_preprocess source)) (\<lambda>source.
                 case compile_all source of
                   Inl e \<Rightarrow> Inr (res\<lparr>co_errors := [Compiler_Failed e]\<rparr>, fs)
                 | Inr assembly \<Rightarrow>
                     (let asm_path = (if with_asm then splitext_root out_path @ ''.asm'' else out_path);
                          res = res\<lparr>co_asm_path := asm_path\<rparr>;
                          fs = write_ast emit_ast source asm_path (put_file asm_path (Text_File assembly) fs)
                      in if \<not> with_asm then Inr (res\<lparr>co_success := True\<rparr>, fs)
                         else
                           ebind (assemble_file False asm_path out_path ''hex'' fs) (\<lambda>(asm_result, fs).
                             if \<not> tr_success asm_result
                             then Inr (res\<lparr>co_errors := tr_errors asm_result\<rparr>, fs)
                             else Inr (res\<lparr>co_success := True, co_hex_path := Some out_path\<rparr>, fs))))))"

end
