(* ===== verification/Tool_Routes.thy ===== *)
theory Tool_Routes
  imports Tool_Drivers
begin

unbundle bit_operations_syntax

text \<open>
  The ways a program takes from its assembly source to the simulator: assembled in memory, through an
  Intel HEX file of either writer, through a flat binary, or through an object file and the linker.
  They all hand the simulator the same words.
\<close>

section \<open>Texts without a carriage return\<close>

lemma no_cr_newlines: "CHR 0x0D \<notin> set t \<Longrightarrow> universal_newlines t = t"
  by (induction t rule: universal_newlines.induct) auto

lemma one_line_no_cr: "one_line l \<Longrightarrow> CHR 0x0D \<notin> set l"
  by (auto simp: one_line_def list_all_iff is_space_def)

lemma lines_no_cr: "list_all one_line ls \<Longrightarrow> CHR 0x0D \<notin> set (concat (map (\<lambda>l. l @ [CHR 0x0A]) ls))"
  using one_line_no_cr by (auto simp: list_all_iff)

lemma join_no_cr: "list_all one_line ls \<Longrightarrow> CHR 0x0D \<notin> set (join_lines ls)"
  using one_line_no_cr by (cases ls) (auto simp: join_lines_def list_all_iff)

text \<open>The files the readers accept, whole: the text is kept by text mode and holds the words.\<close>

definition holds_words :: "string \<Rightarrow> int list \<Rightarrow> bool" where
  "holds_words t ws \<longleftrightarrow> universal_newlines t = t \<and> main_load_hex t = Inr ws"

lemma write_hex_holds:
  assumes "length ws \<le> 0x4000" "list_all u32 ws"
  shows "\<exists>t. write_hex ws 0 = Inr t \<and> holds_words t ws"
proof -
  obtain t where t: "write_hex ws 0 = Inr t" "main_load_hex t = Inr ws"
    by (rule write_hex_readers [OF assms])
  have "t = join_lines (record_lines (word_records 0 ws))"
    using t(1) assms by (simp add: write_hex_def asm_hex_records_ihex record_lines_def)
  then show ?thesis
    using t join_no_cr [OF record_lines_one_line [OF word_records_ok]]
    by (simp add: holds_words_def no_cr_newlines)
qed

lemma write_intel_hex_holds:
  assumes "length ws \<le> 0x4000" "list_all u32 ws"
  shows "\<exists>t. write_intel_hex ws = Inr t \<and> holds_words t ws"
proof -
  obtain t where t: "write_intel_hex ws = Inr t" "main_load_hex t = Inr ws"
    by (rule write_intel_hex_readers [OF assms])
  have "t = concat (map (\<lambda>l. l @ [CHR 0x0A]) (record_lines (chunk_records 0 ws)))"
    using t(1) assms by (simp add: write_intel_hex_def write_intel_hex_records)
  then show ?thesis
    using t lines_no_cr [OF record_lines_one_line [OF chunk_records_ok]]
    by (simp add: holds_words_def no_cr_newlines)
qed

section \<open>Linking one module\<close>

lemma store_words_fresh:
  "\<forall>a \<in> fst ` set m. a < k \<Longrightarrow> store_words k ws m = m @ map (\<lambda>(i, w). (k + int i, w)) (enumerate 0 ws)"
proof (induction ws arbitrary: k m)
  case (Cons w ws)
  have u: "AList.update k w m = m @ [(k, w)]"
    using Cons.prems by (induction m) auto
  have "map (\<lambda>(i, w). (k + 1 + int i, w)) (enumerate 0 ws) = map (\<lambda>(i, w). (k + int i, w)) (enumerate 1 ws)"
    by (rule nth_equalityI) (simp_all add: nth_enumerate_eq)
  moreover have "\<forall>a \<in> fst ` set (m @ [(k, w)]). a < k + 1"
    using Cons.prems by auto
  ultimately show ?case
    using Cons.IH [of "m @ [(k, w)]" "k + 1"] by (simp add: u)
qed simp

lemma place_number_words: "place 0 (number_words 0 ws) [] = store_words 0 ws []"
proof -
  have "place 0 (map (\<lambda>(i, w). (int i, w)) (enumerate k ws)) m = store_words (int k) ws m" for k m
    by (induction ws arbitrary: k m) (simp_all add: place_def add.commute)
  from this [of 0 "[]"] show ?thesis by (simp add: number_words_def)
qed

lemma link_text_words:
  assumes "list_all u32 ws"
  shows "link_text (store_words 0 ws []) = join_lines (record_lines (word_records 0 ws)) @ [CHR 0x0A]"
proof -
  have s: "store_words 0 ws [] = map (\<lambda>(i, w). (int i, w)) (enumerate 0 ws)"
    using store_words_fresh [of "[]" 0 ws] by simp
  have k: "map fst (store_words 0 ws []) = map int [0..<length ws]"
    by (rule nth_equalityI) (simp_all add: s nth_enumerate_eq)
  have "sorted (map int [0..<length ws])"
    by (simp add: sorted_iff_nth_mono)
  then have o: "sort (map fst (store_words 0 ws [])) = map int [0..<length ws]"
    by (simp add: k sorted_sort_id)
  have r: "word_records j xs = map (\<lambda>(i, w). ((j + int i) * 4, word_bytes w)) (enumerate 0 xs)" for j xs
  proof (induction xs arbitrary: j)
    case (Cons x xs)
    have "map (\<lambda>(i, w). ((j + 1 + int i) * 4, word_bytes w)) (enumerate 0 xs)
        = map (\<lambda>(i, w). ((j + int i) * 4, word_bytes w)) (enumerate 1 xs)"
      by (rule nth_equalityI) (simp_all add: nth_enumerate_eq)
    then show ?case using Cons [of "j + 1"] by simp
  qed simp
  have "map (\<lambda>a. ihex_record (a * 4) (word_bytes (the (map_of (store_words 0 ws []) a) AND 0xFFFFFFFF))) (map int [0..<length ws])
      = map (\<lambda>(a, d). ihex_record a d) (word_records 0 ws)"
    using assms
    by (intro nth_equalityI) (simp_all add: r nth_enumerate_eq map_of_store_words u32_mask_id list_all_length)
  then show ?thesis
    by (simp only: link_text_def o record_lines_def)
qed

lemma link_text_holds:
  assumes "length ws \<le> 0x4000" "list_all u32 ws"
  shows "holds_words (link_text (store_words 0 ws [])) ws"
proof -
  let ?rs = "word_records 0 ws"
  have l: "list_all one_line (record_lines ?rs)"
    by (rule record_lines_one_line [OF word_records_ok])
  have n: "join_lines (record_lines ?rs) @ [CHR 0x0A] = concat (map (\<lambda>l. l @ [CHR 0x0A]) (record_lines ?rs))"
    by (rule join_lines_newline) (simp add: record_lines_def)
  have "stored ?rs [] = store_words 0 ws []"
    using assms by (intro stored_word_records) simp_all
  then have "main_load_hex (join_lines (record_lines ?rs) @ [CHR 0x0A]) = Inr ws"
    unfolding n using main_load_hex_records [OF splitlines_concat [OF l] word_records_ok]
    by (simp add: dense_store_words)
  moreover have "main_load_hex (concat (map (\<lambda>l. l @ [CHR 0x0A]) (record_lines ?rs))) = Inr ws"
    using calculation by (simp only: n)
  ultimately show ?thesis
    using no_cr_newlines [OF lines_no_cr [OF l]] unfolding link_text_words [OF assms(2)] n holds_words_def
    by (intro conjI)
qed

text \<open>A module without data and relocations, linked alone: its symbols may all be defined.\<close>

lemma add_symbols_total:
  "distinct (map fst l) \<Longrightarrow> \<forall>s \<in> fst ` set l. syms s = None \<Longrightarrow> \<exists>syms'. add_symbols ta da n l syms = Inr syms'"
proof (induction l arbitrary: syms)
  case (Cons p l)
  obtain s a where p: "p = (s, a)" by (cases p)
  have "\<exists>syms'. add_symbols ta da n l (syms(s \<mapsto> v)) = Inr syms'" for v
    using Cons.prems by (intro Cons.IH) (auto simp: p)
  with Cons.prems show ?case by (simp add: p)
qed simp

lemma symbol_names_distinct: "distinct (symbol_names lines)"
proof -
  have "distinct acc \<Longrightarrow> distinct (fold (\<lambda>n ns. if n \<in> set ns then ns else ns @ [n]) xs acc)" for xs acc :: "string list"
    by (induction xs arbitrary: acc) auto
  then show ?thesis by (simp add: symbol_names_def)
qed

lemma symbol_items_distinct: "distinct (map fst (symbol_items source syms))"
  by (simp add: symbol_items_def comp_def symbol_names_distinct)

lemma link_one_object:
  assumes "fs_objs fs p = Some (write_obj words (symbol_items source syms))" "out \<noteq> []"
  shows "cmd_link [p] (Some out) fs = Inr (put_file out (Text_File (link_text (store_words 0 words []))) fs)"
proof -
  obtain syms' where "add_symbols 0 0x2000 (int (length words)) (symbol_items source syms) Map.empty = Inr syms'"
    using add_symbols_total [OF symbol_items_distinct] by fastforce
  then obtain lk where lk: "add_object (linker_init TEXT_BASE DATA_BASE) (write_obj words (symbol_items source syms)) = Inr lk"
    "lk_text lk = number_words 0 words" "lk_data lk = []" "lk_relocs lk = []" "lk_text_base lk = 0"
    by (auto simp: add_object_def linker_init_def write_obj_def normalise_obj_def obj_text_def number_words_def
        TEXT_BASE_def DATA_BASE_def Let_def case_prod_beta)
  have "link lk = Inr (link_text (store_words 0 words []))"
    using lk by (simp add: link_def link_resolve_def place_number_words) (simp add: place_def)
  with lk assms show ?thesis
    by (simp add: cmd_link_def lift_failure_def or_default_def)
qed

section \<open>Every way gives the same words\<close>

lemma program_words_text:
  "fs_files fs p = Some (Text_File t) \<Longrightarrow> holds_words t ws \<Longrightarrow> \<not> ends_with p ''.asm'' \<Longrightarrow> \<not> ends_with p ''.bin'' \<Longrightarrow>
   program_words fs p = Inr ws"
  by (simp add: program_words_def read_text_def holds_words_def lift_failure_def)

text \<open>A path cannot end in two extensions.\<close>

lemma bin_not_asm: "ends_with p ''.bin'' \<Longrightarrow> \<not> ends_with p ''.asm''"
proof -
  have "starts_with r ''nib.'' \<Longrightarrow> \<not> starts_with r ''msa.''" for r
    by (cases r) auto
  then show "ends_with p ''.bin'' \<Longrightarrow> \<not> ends_with p ''.asm''"
    by (simp add: ends_with_def)
qed

lemma program_words_bin:
  assumes "fs_files fs p = Some (Binary_File b)" "main_load_bin b = ws" "ends_with p ''.bin''"
  shows "program_words fs p = Inr ws"
  using assms bin_not_asm [OF assms(3)] by (simp add: program_words_def read_bytes_def)

text \<open>The source assembles to the words; \<open>assembles\<close> collects what that means for its file.\<close>

definition assembles :: "files \<Rightarrow> string \<Rightarrow> int list \<Rightarrow> bool" where
  "assembles fs src words \<longleftrightarrow>
     (\<exists>f source syms. fs_files fs src = Some f \<and> read_text f = Inr source \<and> assemble source = Inr (words, syms))"

lemma assemblesE:
  assumes "assembles fs src words"
  obtains f source syms where "fs_files fs src = Some f" "read_text f = Inr source"
    "assemble source = Inr (words, syms)" "list_all u32 words"
  using assms assemble_u32 unfolding assembles_def by blast

lemma program_words_asm:
  "assembles fs src words \<Longrightarrow> ends_with src ''.asm'' \<Longrightarrow> program_words fs src = Inr words"
  by (erule assemblesE) (simp add: program_words_def lift_failure_def)

lemma write_binary_words: "list_all u32 words \<Longrightarrow> \<exists>b. write_binary words = Inr b \<and> main_load_bin b = words"
  using load_bin_write [of words] by (auto simp: write_binary_def write_bin_def chunk_bytes_words)

lemma assemble_hex_route:
  assumes "assembles fs src words" "length words \<le> 0x4000" "out \<noteq> []" "\<not> ends_with out ''.asm''" "\<not> ends_with out ''.bin''"
  shows "\<exists>shown fs'. cmd_assemble src (Some out) False l fs = Inr (shown, fs') \<and> program_words fs' out = Inr words"
proof -
  from assms(1) obtain f source syms where f: "fs_files fs src = Some f" "read_text f = Inr source"
    "assemble source = Inr (words, syms)" "list_all u32 words" by (rule assemblesE)
  obtain t where t: "write_hex words 0 = Inr t" "holds_words t words"
    using write_hex_holds [OF assms(2) f(4)] by blast
  have "program_words (put_file out (Text_File t) fs) out = Inr words"
    using program_words_text [OF _ t(2) assms(4,5)] by (simp add: put_file_def)
  with f t assms(3) show ?thesis
    by (simp add: cmd_assemble_def source_text_def lift_failure_def or_default_def)
qed

lemma assemble_bin_route:
  assumes "assembles fs src words" "ends_with out ''.bin''"
  shows "\<exists>shown fs'. cmd_assemble src (Some out) True l fs = Inr (shown, fs') \<and> program_words fs' out = Inr words"
proof -
  from assms(1) obtain f source syms where f: "fs_files fs src = Some f" "read_text f = Inr source"
    "assemble source = Inr (words, syms)" "list_all u32 words" by (rule assemblesE)
  obtain b where b: "write_binary words = Inr b" "main_load_bin b = words"
    using write_binary_words [OF f(4)] by blast
  have "program_words (put_file out (Binary_File b) fs) out = Inr words"
    using program_words_bin [OF _ b(2) assms(2)] by (simp add: put_file_def)
  moreover have "out \<noteq> []" using assms(2) by (auto simp: ends_with_def)
  ultimately show ?thesis
    using f b by (simp add: cmd_assemble_def source_text_def lift_failure_def or_default_def)
qed

lemma tool_hex_route:
  assumes "assembles fs src words" "length words \<le> 0x4000" "\<not> ends_with out ''.asm''" "\<not> ends_with out ''.bin''"
  shows "\<exists>r fs'. assemble_file False src out ''hex'' fs = Inr (r, fs') \<and> tr_success r \<and> program_words fs' out = Inr words"
proof -
  from assms(1) obtain f source syms where f: "fs_files fs src = Some f" "read_text f = Inr source"
    "assemble source = Inr (words, syms)" "list_all u32 words" by (rule assemblesE)
  obtain t where t: "write_intel_hex words = Inr t" "holds_words t words"
    using write_intel_hex_holds [OF assms(2) f(4)] by blast
  have "program_words (put_file out (Text_File t) fs) out = Inr words"
    using program_words_text [OF _ t(2) assms(3,4)] by (simp add: put_file_def)
  with f t show ?thesis
    by (simp add: assemble_file_def write_format_def lift_failure_def Let_def)
qed

lemma object_route:
  assumes "assembles fs src words" "length words \<le> 0x4000" "out \<noteq> []" "\<not> ends_with out ''.asm''" "\<not> ends_with out ''.bin''"
  shows "\<exists>r fs1 fs2. assemble_file False src ob ''obj'' fs = Inr (r, fs1) \<and> tr_success r
    \<and> cmd_link [ob] (Some out) fs1 = Inr fs2 \<and> program_words fs2 out = Inr words"
proof -
  from assms(1) obtain f source syms where f: "fs_files fs src = Some f" "read_text f = Inr source"
    "assemble source = Inr (words, syms)" "list_all u32 words" by (rule assemblesE)
  define fs1 where "fs1 = put_obj ob (write_obj words (symbol_items source syms)) fs"
  have a: "assemble_file False src ob ''obj'' fs =
      Inr (\<lparr>tr_success = True, tr_errors = [], tr_symbols = symbol_items source syms, tr_bytes = int (length words) * 4\<rparr>, fs1)"
    using f by (simp add: assemble_file_def write_format_def lift_failure_def Let_def fs1_def)
  have l: "cmd_link [ob] (Some out) fs1 = Inr (put_file out (Text_File (link_text (store_words 0 words []))) fs1)"
    by (rule link_one_object) (simp_all add: fs1_def put_obj_def assms(3))
  have "program_words (put_file out (Text_File (link_text (store_words 0 words []))) fs1) out = Inr words"
    by (rule program_words_text [OF _ link_text_holds [OF assms(2) f(4)]]) (simp_all add: put_file_def assms)
  with a l show ?thesis by auto
qed

end
