(* ===== verification/Source_Correct.thy ===== *)
theory Source_Correct
  imports Tool_Routes Pipeline_Correct
begin

unbundle bit_operations_syntax

text \<open>
  From the source text to the printed registers: what \<^verbatim>\<open>run\<close> reports for an assembly source is what
  the architecture of the manual computes from the assembled words, as long as the manual and the
  simulator agree on them (\<open>spec_safe\<close>), and the demonstration program computes the sum it announces.
\<close>

section \<open>The memory of a new simulator\<close>

definition loaded_memory :: "int list \<Rightarrow> int list" where
  "loaded_memory words = words @ replicate (nat MEM_SIZE - length words) 0"

text \<open>The state after \<open>n\<close> instructions, as the simulator's units and as the manual has it, and the
  registers the commands report.\<close>

definition isa_run :: "int list \<Rightarrow> nat \<Rightarrow> arch" where
  "isa_run words n = (isa_step ^^ n) (boot (loaded_memory words) 0)"

definition spec_run :: "int list \<Rightarrow> nat \<Rightarrow> arch" where
  "spec_run words n = (spec_step ^^ n) (boot (loaded_memory words) 0)"

lemma spec_run_is_isa:
  "\<forall>i\<le>n. spec_safe k (spec_run words i) \<Longrightarrow> i \<le> n \<Longrightarrow> spec_run words i = isa_run words i"
  unfolding spec_run_def isa_run_def by (rule spec_run_isa)

definition nonzero_regs :: "int list \<Rightarrow> (int \<times> int) list" where
  "nonzero_regs rs = filter (\<lambda>(i, v). v \<noteq> 0) (map (\<lambda>i. (i, rs ! nat i)) [0..31])"

lemma mem_size: "nat MEM_SIZE = 2 ^ 26" "MEM_SIZE = 2 ^ 26"
  by (simp_all add: isa_consts push_bit_eq_mult)

lemma words_masked: "list_all u32 ws \<Longrightarrow> map (\<lambda>w. w AND WORD_MASK) ws = ws"
  by (induction ws) (simp_all add: isa_consts u32_mask_id)

lemma load_words_memory:
  assumes "list_all u32 words" "length words \<le> 2 ^ 26"
  obtains s where "load_program (sim_init MEM_SIZE) words 0 = Inr s" "sm_mem s = loaded_memory words"
proof -
  have l: "sm_mem (sim_init MEM_SIZE) = replicate (2 ^ 26) 0"
    by (simp only: sim_init_def sim.select_convs mem_size(1))
  have d: "drop (length words) (replicate (2 ^ 26) 0) = replicate (2 ^ 26 - length words) (0 :: int)"
    by (rule drop_replicate)
  define s where "s = log_add (Log_Loaded (length words) (int 0))
      ((sim_reset (sim_init MEM_SIZE))\<lparr>sm_mem := loaded_memory words, sm_pc := int 0\<rparr>)"
  have "load_program (sim_init MEM_SIZE) words (int 0) = Inr s"
    unfolding s_def loaded_memory_def mem_size(1)
    by (subst load_program_fit) (simp_all only: l d words_masked [OF assms(1)] length_replicate add_0 assms(2)
        take_0 append_Nil of_nat_0)
  moreover have "sm_mem s = loaded_memory words"
    by (simp add: s_def log_add_def)
  ultimately show ?thesis using that by simp
qed

lemma loaded_prefix:
  assumes "length words + k \<le> 2 ^ 26"
  shows "take (length (words @ replicate k 0)) (loaded_memory words) = words @ replicate k 0"
proof -
  have "k \<le> nat MEM_SIZE - length words" unfolding mem_size(1) using assms by linarith
  then show ?thesis by (simp add: loaded_memory_def min_def)
qed

lemma run_words_correct:
  fixes words :: "int list"
  defines "c \<equiv> words @ [0, 0]"
  assumes u: "list_all u32 words" and l: "length words + 2 \<le> 2 ^ 26" and c: "code_ok c"
    and safe: "\<forall>i\<le>n. isa_safe (length c) (isa_run words i)" "\<forall>i<n. \<not> isa_halted (isa_run words i)"
    and h: "isa_halted (isa_run words n)" and m: "67 * int n + 198 \<le> max_cycles"
  shows "\<exists>s. run_words words max_cycles = Inr s \<and> sm_halted s
    \<and> rf_regs (sm_rf s) = ar_regs (isa_run words n) \<and> sm_mem s = ar_mem (isa_run words n)"
proof -
  obtain s where s: "load_program (sim_init MEM_SIZE) words 0 = Inr s" "sm_mem s = loaded_memory words"
    by (rule load_words_memory [OF u]) (use l in linarith)
  have p: "take (length c) (sm_mem s) = c"
    using loaded_prefix [OF l] unfolding s(2) c_def by (simp add: numeral_2_eq_2)
  have w: "sim_wf (sim_init MEM_SIZE)" by (rule sim_wf_init) (simp add: mem_size)
  show ?thesis
    using program_stops [OF w _ _ s(1) c p _ _ _ m, unfolded s(2), folded isa_run_def] safe h
    by (simp add: run_words_def s(1) lift_failure_def sim_run_def Let_def)
qed

lemma report_regs: "rp_regs (report_of t s) = nonzero_regs (rf_regs (sm_rf s))"
  by (simp add: report_of_def nonzero_regs_def rf_get_def)

section \<open>Programs that only use registers\<close>

text \<open>Such a program runs the same way in a memory that holds nothing but its code, so that it can be
  executed there.\<close>

definition local_step :: "int list \<Rightarrow> arch \<Rightarrow> bool" where
  "local_step c A \<longleftrightarrow> 0 \<le> ar_pc A \<and> ar_pc A < int (length c) \<and>
     (case decode (c ! nat (ar_pc A)) of
        D_R opc rd rs1 rs2 sh \<Rightarrow> True
      | D_I opc rd rs1 imm \<Rightarrow> opc \<notin> set LOADS \<and> opc \<notin> {Op_JMPR, Op_CALLR}
      | D_B opc rs1 rs2 off \<Rightarrow> 0 \<le> ar_pc A + off \<and> ar_pc A + off < int (length c)
      | D_U opc rd imm \<Rightarrow> True
      | D_J opc addr \<Rightarrow> opc = Op_HLT \<or> opc = Op_NOP \<or> opc = Op_JMP \<and> 0 \<le> addr \<and> addr < int (length c)
      | _ \<Rightarrow> False)"

definition fits :: "int list \<Rightarrow> int list \<Rightarrow> bool" where
  "fits c m \<longleftrightarrow> (\<exists>j k. length c = 2 ^ j \<and> length m = 2 ^ k) \<and> take (length c) m = c"

lemma fits_wrap: "fits c m \<Longrightarrow> 0 \<le> a \<Longrightarrow> a < int (length c) \<Longrightarrow> mem_wrap m a = a \<and> mem_wrap c a = a"
proof -
  assume f: "fits c m" and a: "0 \<le> a" "a < int (length c)"
  then obtain j k where l: "length c = 2 ^ j" "length m = 2 ^ k" by (auto simp: fits_def)
  have "length c \<le> length m" using f take_length_le by (auto simp: fits_def)
  then have "a < int (length m)" using a(2) by linarith
  then have "a < 2 ^ j" "a < 2 ^ k" using a(2) l by simp_all
  then show ?thesis
    using a(1) l by (simp add: mem_wrap_def take_bit_int_eq_self flip: take_bit_eq_mask mask_eq_exp_minus_1)
qed

lemma local_step_same:
  assumes "fits c m" "local_step c \<lparr>ar_pc = p, ar_regs = rs, ar_mem = c\<rparr>"
  shows "\<exists>p' rs'. isa_step \<lparr>ar_pc = p, ar_regs = rs, ar_mem = c\<rparr> = \<lparr>ar_pc = p', ar_regs = rs', ar_mem = c\<rparr>
    \<and> isa_step \<lparr>ar_pc = p, ar_regs = rs, ar_mem = m\<rparr> = \<lparr>ar_pc = p', ar_regs = rs', ar_mem = m\<rparr>"
proof -
  have r: "0 \<le> p" "p < int (length c)" using assms(2) by (simp_all add: local_step_def)
  have m: "m ! nat p = c ! nat p"
    using assms(1) r by (metis fits_def nat_less_iff nth_take)
  have l: "p < int (length m)"
    using assms(1) r take_length_le by (fastforce simp: fits_def)
  note w = fits_wrap [OF assms(1)]
  show ?thesis
    using assms(2) r l w by (cases "decode (c ! nat p)") (auto simp: isa_step_def local_step_def m Let_def)
qed

lemma local_run_same:
  assumes "fits c m" "\<forall>i<n. local_step c ((isa_step ^^ i) (boot c a))"
  shows "(isa_step ^^ n) (boot m a) = ((isa_step ^^ n) (boot c a))\<lparr>ar_mem := m\<rparr>
    \<and> ar_mem ((isa_step ^^ n) (boot c a)) = c"
  using assms(2)
proof (induction n)
  case 0
  show ?case by (simp add: boot_def)
next
  case (Suc n)
  let ?A = "(isa_step ^^ n) (boot c a)"
  have ih: "(isa_step ^^ n) (boot m a) = ?A\<lparr>ar_mem := m\<rparr>" "ar_mem ?A = c" using Suc by simp_all
  obtain p rs where A: "?A = \<lparr>ar_pc = p, ar_regs = rs, ar_mem = c\<rparr>"
    using ih(2) by (cases ?A) auto
  have "local_step c ?A" using Suc.prems by simp
  from local_step_same [OF assms(1) this [unfolded A]] show ?case
    using ih(1) by (auto simp: A)
qed

lemma local_halted:
  assumes "fits c m" "0 \<le> ar_pc A" "ar_pc A < int (length c)" "ar_mem A = c"
  shows "isa_halted (A\<lparr>ar_mem := m\<rparr>) = isa_halted A"
proof -
  have "m ! nat (ar_pc A) = c ! nat (ar_pc A)"
    using assms by (metis fits_def nat_less_iff nth_take)
  with assms(4) show ?thesis by (simp add: isa_halted_def)
qed

lemma local_safe:
  assumes "fits c m" "local_step c A" "ar_mem A = c" "ar_pc A + 2 < int n"
  shows "isa_safe n (A\<lparr>ar_mem := m\<rparr>)"
proof -
  have r: "0 \<le> ar_pc A" "ar_pc A < int (length c)" using assms(2) by (simp_all add: local_step_def)
  have "m ! nat (ar_pc A) = c ! nat (ar_pc A)"
    using assms(1) r by (metis fits_def nat_less_iff nth_take)
  with assms r show ?thesis
    by (auto simp: isa_safe_def local_step_def split: decoded.splits)
qed

lemma local_agreed:
  assumes "fits c m" "0 \<le> ar_pc A" "ar_pc A < int (length c)" "ar_mem A = c"
  shows "agreed (A\<lparr>ar_mem := m\<rparr>) = agreed A"
proof -
  have "m ! nat (ar_pc A) = c ! nat (ar_pc A)"
    using assms by (metis fits_def nat_less_iff nth_take)
  with assms(4) show ?thesis by (cases "decode (c ! nat (ar_pc A))") (simp_all add: agreed_def)
qed

text \<open>A run of \<open>n\<close> local steps inside the code, all of which the manual has as well, up to the first HLT.\<close>

definition inside :: "int list \<Rightarrow> arch \<Rightarrow> bool" where
  "inside c A \<longleftrightarrow> local_step c A \<and> ar_pc A + 2 < int (length c) \<and> agreed A"

fun local_run :: "nat \<Rightarrow> int list \<Rightarrow> arch \<Rightarrow> bool" where
  "local_run 0 c A = (inside c A \<and> isa_halted A)"
| "local_run (Suc n) c A = (inside c A \<and> \<not> isa_halted A \<and> local_run n c (isa_step A))"

fun isa_iter :: "nat \<Rightarrow> arch \<Rightarrow> arch" where
  "isa_iter 0 A = A"
| "isa_iter (Suc n) A = isa_iter n (isa_step A)"

lemma isa_iter_funpow: "isa_iter n A = (isa_step ^^ n) A"
  by (induction n arbitrary: A) (simp_all add: funpow_swap1)

lemma local_run_all:
  "local_run n c A \<Longrightarrow> (\<forall>i\<le>n. inside c ((isa_step ^^ i) A)) \<and> (\<forall>i<n. \<not> isa_halted ((isa_step ^^ i) A))
     \<and> isa_halted ((isa_step ^^ n) A)"
proof (induction n arbitrary: A)
  case (Suc n)
  have s: "(isa_step ^^ i) (isa_step A) = (isa_step ^^ Suc i) A" for i
    by (simp add: funpow_Suc_right del: funpow.simps)
  note ih = Suc.IH [of "isa_step A", unfolded s]
  have "inside c ((isa_step ^^ i) A)" if "i \<le> Suc n" for i
    using that Suc.prems ih by (cases i) simp_all
  moreover have "\<not> isa_halted ((isa_step ^^ i) A)" if "i < Suc n" for i
    using that Suc.prems ih by (cases i) simp_all
  ultimately show ?case
    using Suc.prems ih by (simp del: funpow.simps)
qed simp

text \<open>A program that passes in its own memory passes in the memory of the simulator.\<close>

lemma local_program:
  fixes words :: "int list"
  defines "c \<equiv> words @ [0, 0]"
  assumes r: "local_run n c (boot c 0)" and j: "length c = 2 ^ j" "j \<le> 26"
  shows "\<forall>i\<le>n. spec_safe (length words + 2) (spec_run words i)" "\<forall>i<n. \<not> isa_halted (spec_run words i)"
    and "isa_halted (spec_run words n)" "ar_regs (spec_run words n) = ar_regs ((isa_step ^^ n) (boot c 0))"
    and "length words + 2 \<le> 2 ^ 26"
proof -
  note a = local_run_all [OF r]
  have lc: "length c = length words + 2" by (simp add: c_def)
  have "(2 :: nat) ^ j \<le> 2 ^ 26" using j(2) by (intro power_increasing) simp_all
  then show l: "length words + 2 \<le> 2 ^ 26" using j(1) lc by simp
  have "take (length c) (loaded_memory words) = c"
    using loaded_prefix [OF l] by (simp add: c_def numeral_2_eq_2)
  moreover have "length (loaded_memory words) = 2 ^ 26"
    using l by (simp only: loaded_memory_def length_append length_replicate mem_size(1))
  ultimately have f: "fits c (loaded_memory words)"
    using j(1) unfolding fits_def by blast
  have s: "isa_run words i = ((isa_step ^^ i) (boot c 0))\<lparr>ar_mem := loaded_memory words\<rparr>
      \<and> ar_mem ((isa_step ^^ i) (boot c 0)) = c" if "i \<le> n" for i
    unfolding isa_run_def using a that by (intro local_run_same [OF f]) (auto simp: inside_def)
  have h: "isa_halted (isa_run words i) = isa_halted ((isa_step ^^ i) (boot c 0))" if "i \<le> n" for i
    using s [OF that] a that local_halted [OF f] by (simp add: inside_def local_step_def)
  have sf: "isa_safe (length c) (isa_run words i)" "agreed (isa_run words i)" if "i \<le> n" for i
    using s [OF that] a that local_safe [OF f] local_agreed [OF f] by (simp_all add: inside_def local_step_def)
  have e: "spec_run words i = isa_run words i" if "i \<le> n" for i
    using that
  proof (induction i)
    case (Suc i)
    then have "spec_run words i = isa_run words i" "agreed (isa_run words i)" using sf(2) by simp_all
    then show ?case by (simp add: spec_run_def isa_run_def spec_step_agreed)
  qed (simp add: spec_run_def isa_run_def)
  show "\<forall>i\<le>n. spec_safe (length words + 2) (spec_run words i)"
    using sf e by (simp add: spec_safe_def lc)
  show "\<forall>i<n. \<not> isa_halted (spec_run words i)" "isa_halted (spec_run words n)"
    "ar_regs (spec_run words n) = ar_regs ((isa_step ^^ n) (boot c 0))"
    using h a s e by simp_all
qed

section \<open>The run of a source file\<close>

lemma run_words_spec:
  assumes "list_all u32 words" "length words + 2 \<le> 2 ^ 26" "code_ok (words @ [0, 0])"
    and safe: "\<forall>i\<le>n. spec_safe (length words + 2) (spec_run words i)" "\<forall>i<n. \<not> isa_halted (spec_run words i)"
    and h: "isa_halted (spec_run words n)" and m: "67 * int n + 198 \<le> max_cycles"
  shows "\<exists>s. run_words words max_cycles = Inr s \<and> rf_regs (sm_rf s) = ar_regs (spec_run words n)"
proof -
  note e = spec_run_is_isa [OF safe(1)]
  have "\<forall>i\<le>n. isa_safe (length (words @ [0, 0])) (isa_run words i)"
    using safe(1) e by (simp add: spec_safe_def)
  moreover have "\<forall>i<n. \<not> isa_halted (isa_run words i)"
    using safe(2) e by (simp add: less_imp_le)
  ultimately obtain s where "run_words words max_cycles = Inr s" "rf_regs (sm_rf s) = ar_regs (isa_run words n)"
    using run_words_correct [OF assms(1-3), of n max_cycles] h e [of n] m by auto
  then show ?thesis using e [of n] by simp
qed

lemma cmd_run_report:
  assumes "assembles fs src words"
    and "list_all u32 words \<Longrightarrow> \<exists>s. run_words words (nonzero_or 10000 max_cycles) = Inr s \<and> rf_regs (sm_rf s) = rs"
  shows "\<exists>r. cmd_run src max_cycles fs = Inr r \<and> rp_regs r = nonzero_regs rs"
proof -
  from assms(1) obtain f source syms where f: "fs_files fs src = Some f" "read_text f = Inr source"
    "assemble source = Inr (words, syms)" "list_all u32 words" by (rule assemblesE)
  obtain s where s: "run_words words (nonzero_or 10000 max_cycles) = Inr s" "rf_regs (sm_rf s) = rs"
    using assms(2) f(4) by blast
  show ?thesis
    using f s by (simp add: cmd_run_def source_text_def lift_failure_def report_regs)
qed

lemma cmd_run_isa:
  assumes "assembles fs src words" "length words + 2 \<le> 2 ^ 26" "code_ok (words @ [0, 0])"
    and "\<forall>i\<le>n. isa_safe (length words + 2) (isa_run words i)" "\<forall>i<n. \<not> isa_halted (isa_run words i)"
    and "isa_halted (isa_run words n)" "67 * int n + 198 \<le> nonzero_or 10000 max_cycles"
  shows "\<exists>r. cmd_run src max_cycles fs = Inr r \<and> rp_regs r = nonzero_regs (ar_regs (isa_run words n))"
  using run_words_correct [OF _ assms(2,3) _ assms(5-7)] assms(4)
  by (intro cmd_run_report [OF assms(1)]) auto

lemma cmd_run_correct:
  assumes "assembles fs src words" "length words + 2 \<le> 2 ^ 26" "code_ok (words @ [0, 0])"
    and "\<forall>i\<le>n. spec_safe (length words + 2) (spec_run words i)" "\<forall>i<n. \<not> isa_halted (spec_run words i)"
    and "isa_halted (spec_run words n)" "67 * int n + 198 \<le> nonzero_or 10000 max_cycles"
  shows "\<exists>r. cmd_run src max_cycles fs = Inr r \<and> rp_regs r = nonzero_regs (ar_regs (spec_run words n))"
  using run_words_spec [OF _ assms(2-7)] by (rule cmd_run_report [OF assms(1)])

section \<open>The demonstration program\<close>

abbreviation demo_words :: "int list" where
  "demo_words \<equiv> [encode_i Op_MOVI 1 0 5, encode_i Op_MOVI 2 0 0, encode_r Op_ADD 2 2 1 0,
     encode_i Op_ADDI 1 1 (- 1), encode_b Op_BNE 1 0 (- 2), encode_j Op_HLT 0]"

lemma demo_tokens: "map tokenize_line (py_splitlines DEMO_ASM) =
  [[], [''.org'', ''0x000000''], [''MOVI'', ''R1'', ''5''], [''MOVI'', ''R2'', ''0''], [''LOOP:''],
   [''ADD'', ''R2'', ''R2'', ''R1''], [''ADDI'', ''R1'', ''R1'', ''-1''], [''BNE'', ''R1'', ''R0'', ''LOOP''], [''HLT'']]"
  by code_simp

lemma demo_encoded:
  "encode_instr syms [''MOVI'', ''R1'', ''5''] pc line = Inr (encode_i Op_MOVI 1 0 5)"
  "encode_instr syms [''MOVI'', ''R2'', ''0''] pc line = Inr (encode_i Op_MOVI 2 0 0)"
  "encode_instr syms [''ADD'', ''R2'', ''R2'', ''R1''] pc line = Inr (encode_r Op_ADD 2 2 1 0)"
  "encode_instr syms [''ADDI'', ''R1'', ''R1'', ''-1''] pc line = Inr (encode_i Op_ADDI 1 1 (- 1))"
  "encode_instr syms [''HLT''] pc line = Inr (encode_j Op_HLT 0)"
  by code_simp+

lemma demo_branch:
  "encode_instr [''LOOP'' \<mapsto> 2] [''BNE'', ''R1'', ''R0'', ''LOOP''] 4 line = Inr (encode_b Op_BNE 1 0 (- 2))"
  by code_simp

lemma demo_org: "parse_int ''0x000000'' line = Inr 0"
  by code_simp

lemma demo_assembles: "assemble DEMO_ASM = Inr (demo_words, [''LOOP'' \<mapsto> 2])"
proof -
  obtain l0 l1 l2 l3 l4 l5 l6 l7 l8 where l: "py_splitlines DEMO_ASM = [l0, l1, l2, l3, l4, l5, l6, l7, l8]"
    and t: "tokenize_line l0 = []" "tokenize_line l1 = [''.org'', ''0x000000'']"
    "tokenize_line l2 = [''MOVI'', ''R1'', ''5'']" "tokenize_line l3 = [''MOVI'', ''R2'', ''0'']"
    "tokenize_line l4 = [''LOOP:'']" "tokenize_line l5 = [''ADD'', ''R2'', ''R2'', ''R1'']"
    "tokenize_line l6 = [''ADDI'', ''R1'', ''R1'', ''-1'']" "tokenize_line l7 = [''BNE'', ''R1'', ''R0'', ''LOOP'']"
    "tokenize_line l8 = [''HLT'']"
    using demo_tokens by (auto simp: map_eq_Cons_conv)
  have low: "py_lower ''.org'' = ''.org''" "py_lower ''MOVI'' = ''movi''" "py_lower ''ADD'' = ''add''"
    "py_lower ''ADDI'' = ''addi''" "py_lower ''BNE'' = ''bne''" "py_lower ''HLT'' = ''hlt''"
    by code_simp+
  have p1: "pass1 [l0, l1, l2, l3, l4, l5, l6, l7, l8] 1 (Map.empty, 0) = Inr ([''LOOP'' \<mapsto> 2], 6)"
    by (simp add: pass1_line_def pass1_label_def pass1_directive_def ends_with_colon_def t low demo_org)
  have o: "pass2 [''LOOP'' \<mapsto> 2] [l0, l1, l2, l3, l4, l5, l6, l7, l8] 1 (0, []) = Inr (6, store_words 0 demo_words [])"
    by (simp add: pass2_line_def pass2_directive_def drop_label_def ends_with_colon_def op_at_def t low demo_org
        demo_encoded demo_branch u32_mask_id u32_encode_i u32_encode_r u32_encode_j encode_b_eq_i isa_consts)
  show ?thesis
    unfolding assemble_def assemble_lines_def l p1 ebind_simps prod.case o dense_store_words ..
qed

text \<open>The run in a memory of eight words, the code and two words of padding.\<close>

lemma demo_local: "local_run 17 (demo_words @ [0, 0]) (boot (demo_words @ [0, 0]) 0)"
  by code_simp

lemma demo_end: "nonzero_regs (ar_regs (isa_iter 17 (boot (demo_words @ [0, 0]) 0))) = [(2, 15), (30, 0x10000)]"
  by code_simp

lemma demo_code_ok: "code_ok (demo_words @ [0, 0])"
  by code_simp

lemma demo_text: "universal_newlines DEMO_ASM = DEMO_ASM"
proof -
  have "list_all (\<lambda>c. c \<noteq> CHR 0x0D) DEMO_ASM" by code_simp
  then show ?thesis by (intro no_cr_newlines) (auto simp: list_all_iff)
qed

lemma hlt_assembles: "\<exists>words syms. assemble ''HLT'' = Inr (words, syms)"
proof -
  have t: "py_splitlines ''HLT'' = [''HLT'']" "tokenize_line ''HLT'' = [''HLT'']" "py_lower ''HLT'' = ''hlt''"
    by code_simp+
  show ?thesis
    by (simp add: assemble_def assemble_lines_def t pass1_line_def pass1_label_def pass1_directive_def pass2_line_def
        pass2_directive_def drop_label_def ends_with_colon_def demo_encoded)
qed

end
