(* ===== verification/Sim_Debugger.thy ===== *)
theory Sim_Debugger
  imports Sim_Reachable Disassembler
begin

unbundle bit_operations_syntax

text \<open>
  \<^verbatim>\<open>simulator/debugger.py\<close>: the interactive debugger on top of the simulator object.  The record
  \<open>dbg\<close> is the object \<^verbatim>\<open>Debugger\<close>; a command returns the values its lines print, as a list of
  \<open>dbg_out\<close>, and the updated object.  An exception no command catches ends the session: it is the
  left injection.  A dictionary whose items are gone through is an association list.
\<close>

section \<open>State and output\<close>

record dbg =
  db_sim :: sim
  db_symbols :: "(string \<times> int) list"
  db_breakpoints :: "int set"
  db_addr_to_sym :: "int \<rightharpoonup> string"

datatype dbg_out =
    O_Snapshot snapshot
  | O_Halted
  | O_Break_At int
  | O_State int string string int flags         \<comment> \<open>PC, disassembly, symbol, cycles, flags\<close>
  | O_Usage_Break
  | O_Break_Set int string
  | O_No_Breakpoints
  | O_Breakpoints "(int \<times> string) list"
  | O_Usage_Delete
  | O_Break_Removed int
  | O_Registers regfile
  | O_Memory "(int \<times> int option list) list"
  | O_Disassembly "(bool \<times> bool \<times> int \<times> int \<times> string \<times> string) list"
  | O_No_History
  | O_History "snapshot list"
  | O_Log "(int \<times> log_event) list"            \<comment> \<open>empty: ``Log vazio''\<close>
  | O_Symbols "(string \<times> int) list"            \<comment> \<open>empty: none available\<close>
  | O_Help
  | O_Bad_Address string
  | O_Unknown string
  | O_Bye

definition dbg_init :: "sim \<Rightarrow> (string \<times> int) list \<Rightarrow> dbg" where
  "dbg_init s symbols =
     \<lparr>db_sim = s, db_symbols = symbols, db_breakpoints = {},
      db_addr_to_sym = fold (\<lambda>(k, v) m. m(v \<mapsto> k)) symbols Map.empty\<rparr>"

definition sym_at :: "dbg \<Rightarrow> int \<Rightarrow> string" where
  "sym_at d addr = (case db_addr_to_sym d addr of Some n \<Rightarrow> n | None \<Rightarrow> [])"

text \<open>\<^verbatim>\<open>xs[i]\<close>\<close>

definition py_getitem :: "'a list \<Rightarrow> int \<Rightarrow> py_error + 'a" where
  "py_getitem xs i = (case py_list_index xs i of Some k \<Rightarrow> Inr (xs ! k) | None \<Rightarrow> Inl IndexError)"

text \<open>\<^verbatim>\<open>xs[-n:]\<close>\<close>

definition last_slice :: "int \<Rightarrow> 'a list \<Rightarrow> 'a list" where
  "last_slice n xs = (if 0 < n then drop (length xs - nat n) xs else drop (nat (- n)) xs)"

text \<open>\<^verbatim>\<open>int(s)\<close> and \<^verbatim>\<open>int(s, 0)\<close>; base 0 takes the base from the prefix and refuses a decimal number
  other than zero that starts with 0.\<close>

definition py_int10 :: "string \<Rightarrow> py_error + int" where
  "py_int10 s = (case py_int 10 s of Some v \<Rightarrow> Inr v | None \<Rightarrow> Inl ValueError)"

definition parse_unsigned0 :: "string \<Rightarrow> int option" where
  "parse_unsigned0 s =
     (let p = py_lower (take 2 s); rest = drop 2 s;
          prefixed = (\<lambda>b. if rest = [] then None else parse_digits b 0 False rest)
      in if p = ''0x'' then prefixed 16
         else if p = ''0o'' then prefixed 8
         else if p = ''0b'' then prefixed 2
         else case parse_digits 10 0 True s of
                Some v \<Rightarrow> if hd s = CHR ''0'' \<and> v \<noteq> 0 then None else Some v
              | None \<Rightarrow> None)"

definition py_int0 :: "string \<Rightarrow> int option" where
  "py_int0 s =
     (case py_strip s of
        [] \<Rightarrow> None
      | c # cs \<Rightarrow>
          if c = CHR ''-'' then map_option uminus (parse_unsigned0 cs)
          else if c = CHR ''+'' then parse_unsigned0 cs
          else parse_unsigned0 (c # cs))"

section \<open>Helpers of the debugger\<close>

definition parse_addr :: "dbg \<Rightarrow> string \<Rightarrow> int \<times> dbg_out list" where
  "parse_addr d s =
     (case map_of (db_symbols d) s of
        Some a \<Rightarrow> (a, [])
      | None \<Rightarrow>
          (case py_int0 s of
             Some v \<Rightarrow> (v, [])
           | None \<Rightarrow> (0, [O_Bad_Address s])))"

definition show_state :: "dbg \<Rightarrow> py_error + dbg_out list" where
  "show_state d =
     (let s = db_sim d
      in if sm_halted s then Inr []
         else
           (let pc = sm_pc s
            in ebind (if pc < int (length (sm_mem s)) then py_getitem (sm_mem s) pc else Inr 0xFFFF) (\<lambda>word.
                 Inr [O_State pc (disassemble word) (sym_at d pc) (st_cycles (sm_stats s)) (rf_flags (sm_rf s))])))"

section \<open>Commands\<close>

text \<open>The loops of \<^verbatim>\<open>_cmd_step\<close> and \<^verbatim>\<open>_cmd_run\<close>, with the number of iterations left.\<close>

fun step_loop :: "nat \<Rightarrow> sim \<Rightarrow> dbg_out list \<times> sim" where
  "step_loop 0 s = ([], s)"
| "step_loop (Suc n) s =
     (case sim_step s of
        (None, s) \<Rightarrow> ([O_Halted], s)
      | (Some snap, s) \<Rightarrow> (let (out, s) = step_loop n s in (O_Snapshot snap # out, s)))"

fun run_loop :: "nat \<Rightarrow> int set \<Rightarrow> sim \<Rightarrow> dbg_out list \<times> sim" where
  "run_loop 0 breakpoints s = ([], s)"
| "run_loop (Suc n) breakpoints s =
     (if sm_halted s then ([O_Halted], s)
      else if sm_pc s \<in> breakpoints then ([O_Break_At (sm_pc s)], s)
      else run_loop n breakpoints (snd (sim_step s)))"

definition dbg_step :: "int \<Rightarrow> dbg \<Rightarrow> py_error + dbg_out list \<times> dbg" where
  "dbg_step n d =
     (let (out, s) = step_loop (nat n) (db_sim d); d = d\<lparr>db_sim := s\<rparr>
      in ebind (show_state d) (\<lambda>st. Inr (out @ st, d)))"

text \<open>\<^verbatim>\<open>limit = max_cycles or 200_000\<close>\<close>

definition run_limit :: "int option \<Rightarrow> int" where
  "run_limit n = (case n of None \<Rightarrow> 200000 | Some k \<Rightarrow> if k = 0 then 200000 else k)"

definition dbg_run :: "int option \<Rightarrow> dbg \<Rightarrow> py_error + dbg_out list \<times> dbg" where
  "dbg_run max_cycles d =
     (let (out, s) = run_loop (nat (run_limit max_cycles)) (db_breakpoints d) (db_sim d);
          d = d\<lparr>db_sim := s\<rparr>
      in ebind (show_state d) (\<lambda>st. Inr (out @ st, d)))"

definition dbg_break :: "string list \<Rightarrow> dbg \<Rightarrow> dbg_out list \<times> dbg" where
  "dbg_break args d =
     (case args of
        [] \<Rightarrow> ([O_Usage_Break], d)
      | a # _ \<Rightarrow>
          (let (addr, out) = parse_addr d a;
               d = d\<lparr>db_breakpoints := insert addr (db_breakpoints d)\<rparr>
           in (out @ [O_Break_Set addr (sym_at d addr)], d)))"

definition dbg_break_list :: "dbg \<Rightarrow> dbg_out list" where
  "dbg_break_list d =
     (if db_breakpoints d = {} then [O_No_Breakpoints]
      else [O_Breakpoints (map (\<lambda>a. (a, sym_at d a)) (sorted_list_of_set (db_breakpoints d)))])"

definition dbg_break_del :: "string list \<Rightarrow> dbg \<Rightarrow> dbg_out list \<times> dbg" where
  "dbg_break_del args d =
     (case args of
        [] \<Rightarrow> ([O_Usage_Delete], d)
      | a # _ \<Rightarrow>
          (let (addr, out) = parse_addr d a
           in (out @ [O_Break_Removed addr], d\<lparr>db_breakpoints := db_breakpoints d - {addr}\<rparr>)))"

text \<open>\<^verbatim>\<open>dump_memory(start, length)\<close> of the simulator: rows of four words, None past the end.\<close>

fun dump_cells :: "int list \<Rightarrow> int list \<Rightarrow> py_error + int option list" where
  "dump_cells mem [] = Inr []"
| "dump_cells mem (a # as) =
     ebind (if a < int (length mem) then ebind (py_getitem mem a) (\<lambda>w. Inr (Some w)) else Inr None) (\<lambda>c.
       ebind (dump_cells mem as) (\<lambda>cs. Inr (c # cs)))"

fun dump_rows :: "int list \<Rightarrow> int list \<Rightarrow> py_error + (int \<times> int option list) list" where
  "dump_rows mem [] = Inr []"
| "dump_rows mem (i # is) =
     ebind (dump_cells mem [i, i + 1, i + 2, i + 3]) (\<lambda>r.
       ebind (dump_rows mem is) (\<lambda>rs. Inr ((i, r) # rs)))"

definition dump_memory :: "sim \<Rightarrow> int \<Rightarrow> int \<Rightarrow> py_error + (int \<times> int option list) list" where
  "dump_memory s start len =
     (let stop = min (start + len) (int (length (sm_mem s)))
      in dump_rows (sm_mem s) (map (\<lambda>k. start + 4 * int k) [0..<nat ((stop - start + 3) div 4)]))"

text \<open>The optional address and count of \<^verbatim>\<open>m\<close> and \<^verbatim>\<open>d\<close>.\<close>

definition addr_and_count :: "int \<Rightarrow> string list \<Rightarrow> dbg \<Rightarrow> py_error + int \<times> int \<times> dbg_out list" where
  "addr_and_count dflt args d =
     (let (start, out) = (case args of [] \<Rightarrow> (sm_pc (db_sim d), []) | a # _ \<Rightarrow> parse_addr d a)
      in ebind (if length args > 1 then py_int10 (args ! 1) else Inr dflt) (\<lambda>n. Inr (start, n, out)))"

definition dbg_mem :: "string list \<Rightarrow> dbg \<Rightarrow> py_error + dbg_out list" where
  "dbg_mem args d =
     ebind (addr_and_count 16 args d) (\<lambda>(start, n, out).
       ebind (dump_memory (db_sim d) start n) (\<lambda>rows. Inr (out @ [O_Memory rows])))"

text \<open>A row of the disassembly: at the PC, at a breakpoint, address, word, text, symbol.\<close>

fun dis_rows :: "dbg \<Rightarrow> nat \<Rightarrow> int \<Rightarrow> py_error + (bool \<times> bool \<times> int \<times> int \<times> string \<times> string) list" where
  "dis_rows d 0 addr = Inr []"
| "dis_rows d (Suc n) addr =
     (if addr \<ge> int (length (sm_mem (db_sim d))) then Inr []
      else
        ebind (py_getitem (sm_mem (db_sim d)) addr) (\<lambda>word.
          ebind (dis_rows d n (addr + 1)) (\<lambda>rows.
            Inr ((addr = sm_pc (db_sim d), addr \<in> db_breakpoints d, addr, word, disassemble word, sym_at d addr)
                  # rows))))"

definition dbg_dis :: "string list \<Rightarrow> dbg \<Rightarrow> py_error + dbg_out list" where
  "dbg_dis args d =
     ebind (addr_and_count 10 args d) (\<lambda>(start, n, out).
       ebind (dis_rows d (nat n) start) (\<lambda>rows. Inr (out @ [O_Disassembly rows])))"

definition dbg_history :: "string list \<Rightarrow> dbg \<Rightarrow> py_error + dbg_out list" where
  "dbg_history args d =
     ebind (case args of [] \<Rightarrow> Inr 10 | a # _ \<Rightarrow> py_int10 a) (\<lambda>n.
       let h = last_slice n (sm_history (db_sim d))
       in Inr [if h = [] then O_No_History else O_History h])"

definition dbg_log :: "dbg \<Rightarrow> dbg_out list" where
  "dbg_log d = [O_Log (sm_log (db_sim d))]"

definition dbg_symbols :: "dbg \<Rightarrow> dbg_out list" where
  "dbg_symbols d = [O_Symbols (sort_key snd (db_symbols d))]"

section \<open>Dispatch and the interactive loop\<close>

text \<open>The result says whether the loop goes on.\<close>

definition dispatch :: "string \<Rightarrow> string list \<Rightarrow> dbg \<Rightarrow> py_error + bool \<times> dbg_out list \<times> dbg" where
  "dispatch cmd args d =
     (let go = (\<lambda>r. ebind r (\<lambda>(out, d). Inr (True, out, d)));
          show_only = (\<lambda>r. ebind r (\<lambda>out. Inr (True, out, d)))
      in if cmd \<in> {''s'', ''step''} then go (dbg_step 1 d)
         else if cmd \<in> {''r'', ''run''} then
           ebind (case args of [] \<Rightarrow> Inr None | a # _ \<Rightarrow> ebind (py_int10 a) (\<lambda>n. Inr (Some n))) (\<lambda>n.
             go (dbg_run n d))
         else if cmd \<in> {''b'', ''break''} then go (Inr (dbg_break args d))
         else if cmd \<in> {''bl'', ''breaklist''} then show_only (Inr (dbg_break_list d))
         else if cmd \<in> {''bd'', ''breakdel''} then go (Inr (dbg_break_del args d))
         else if cmd \<in> {''p'', ''print''} then show_only (Inr [O_Registers (sm_rf (db_sim d))])
         else if cmd \<in> {''m'', ''mem''} then show_only (dbg_mem args d)
         else if cmd \<in> {''d'', ''dis''} then show_only (dbg_dis args d)
         else if cmd \<in> {''h'', ''history''} then show_only (dbg_history args d)
         else if cmd \<in> {''l'', ''log''} then show_only (Inr (dbg_log d))
         else if cmd \<in> {''sym'', ''symbols''} then show_only (Inr (dbg_symbols d))
         else if cmd \<in> {''q'', ''quit'', ''exit''} then Inr (False, [O_Bye], d)
         else if cmd \<in> {''?'', ''help''} then show_only (Inr [O_Help])
         else show_only (Inr [O_Unknown cmd]))"

text \<open>The loop over the lines typed by the user; their end is the end of the input.\<close>

fun read_lines :: "string list \<Rightarrow> dbg \<Rightarrow> py_error + dbg_out list \<times> dbg" where
  "read_lines [] d = Inr ([O_Bye], d)"
| "read_lines (raw # lines) d =
     (case py_split (py_strip raw) of
        [] \<Rightarrow> read_lines lines d
      | cmd # args \<Rightarrow>
          ebind (dispatch (py_lower cmd) args d) (\<lambda>(go_on, out, d).
            if go_on then ebind (read_lines lines d) (\<lambda>(rest, d). Inr (out @ rest, d))
            else Inr (out, d)))"

definition run_interactive :: "string list \<Rightarrow> dbg \<Rightarrow> py_error + dbg_out list \<times> dbg" where
  "run_interactive lines d =
     ebind (show_state d) (\<lambda>st. ebind (read_lines lines d) (\<lambda>(out, d). Inr (st @ out, d)))"

section \<open>Where a run stops\<close>

abbreviation ticks :: "nat \<Rightarrow> sim \<Rightarrow> sim" where
  "ticks k s \<equiv> ((\<lambda>s. snd (sim_step s)) ^^ k) s"

lemma ticks_add: "ticks k (snd (sim_step s)) = ticks (Suc k) s"
  by (simp add: funpow_Suc_right del: funpow.simps)

text \<open>What stops the loop before its bound: HLT has retired, or the next fetch is at a breakpoint.\<close>

definition stops :: "int set \<Rightarrow> sim \<Rightarrow> bool" where
  "stops breakpoints s \<longleftrightarrow> sm_halted s \<or> sm_pc s \<in> breakpoints"

definition stop_message :: "int set \<Rightarrow> sim \<Rightarrow> dbg_out list" where
  "stop_message breakpoints s =
     (if sm_halted s then [O_Halted] else if sm_pc s \<in> breakpoints then [O_Break_At (sm_pc s)] else [])"

lemma run_loop_first_stop:
  "\<exists>k\<le>n. snd (run_loop n bps s) = ticks k s \<and> (\<forall>i<k. \<not> stops bps (ticks i s))
     \<and> (if k < n then stops bps (ticks k s) \<and> fst (run_loop n bps s) = stop_message bps (ticks k s)
        else fst (run_loop n bps s) = [])"
proof (induction n arbitrary: s)
  case 0
  show ?case by simp
next
  case (Suc n)
  show ?case
  proof (cases "stops bps s")
    case True
    then show ?thesis
      by (intro exI [of _ 0]) (auto simp: stops_def stop_message_def)
  next
    case False
    obtain k where k: "k \<le> n" "snd (run_loop n bps (snd (sim_step s))) = ticks (Suc k) s"
      "\<forall>i<k. \<not> stops bps (ticks (Suc i) s)"
      "if k < n then stops bps (ticks (Suc k) s)
          \<and> fst (run_loop n bps (snd (sim_step s))) = stop_message bps (ticks (Suc k) s)
        else fst (run_loop n bps (snd (sim_step s))) = []"
      using Suc.IH [of "snd (sim_step s)"] unfolding ticks_add by blast
    have "\<not> stops bps (ticks i s)" if "i < Suc k" for i
      using that False k(3) by (cases i) auto
    moreover have "run_loop (Suc n) bps s = run_loop n bps (snd (sim_step s))"
      using False by (simp add: stops_def)
    ultimately show ?thesis
      using k(1,2,4) by (intro exI [of _ "Suc k"]) (simp del: funpow.simps)
  qed
qed

lemma step_loop_ticks: "\<exists>k\<le>n. snd (step_loop n s) = ticks k s"
proof (induction n arbitrary: s)
  case (Suc n)
  obtain k where "k \<le> n" "snd (step_loop n (snd (sim_step s))) = ticks (Suc k) s"
    using Suc [of "snd (sim_step s)"] unfolding ticks_add by blast
  then have "\<exists>k\<le>Suc n. snd (step_loop n (snd (sim_step s))) = ticks k s"
    by (intro exI [of _ "Suc k"]) simp
  moreover have "snd (step_loop (Suc n) s) =
      (if sm_halted s then s else snd (step_loop n (snd (sim_step s))))"
    by (simp add: sim_step_def case_prod_beta Let_def)
  ultimately show ?case
    by (cases "sm_halted s") (auto intro: exI [of _ 0])
qed (simp add: exI [of _ 0])

text \<open>Without breakpoints the loop is the run loop of the simulator.\<close>

lemma run_loop_sim_loop: "snd (run_loop n {} s) = sim_loop (cycles s + int n) s"
proof (induction n arbitrary: s)
  case 0
  show ?case by (simp add: sim_loop_stop)
next
  case (Suc n)
  show ?case
  proof (cases "sm_halted s")
    case False
    have "cycles (snd (sim_step s)) + int n = cycles s + int (Suc n)"
      using False by (simp add: sim_step_cycles)
    with Suc [of "snd (sim_step s)"] False show ?thesis
      by (subst sim_loop.simps) simp
  qed (simp add: sim_loop_stop)
qed

lemma sim_reachable_ticks: "sim_reachable s \<Longrightarrow> sim_reachable (ticks k s)"
  by (induction k) (auto intro: sim_reachable.step)

section \<open>What a session can do\<close>

text \<open>The debugger leaves the symbols alone and changes the simulator by clocking only.\<close>

definition only_clocks :: "dbg \<Rightarrow> dbg \<Rightarrow> bool" where
  "only_clocks d d' \<longleftrightarrow> db_symbols d' = db_symbols d \<and> db_addr_to_sym d' = db_addr_to_sym d
     \<and> (\<exists>k. db_sim d' = ticks k (db_sim d))"

lemma only_clocks_refl [simp]: "only_clocks d d"
  by (auto simp: only_clocks_def intro: exI [of _ 0])

lemma only_clocks_trans: "only_clocks a b \<Longrightarrow> only_clocks b c \<Longrightarrow> only_clocks a c"
proof -
  assume ab: "only_clocks a b" and bc: "only_clocks b c"
  then obtain j k where "db_sim c = ticks k (ticks j (db_sim a))"
    unfolding only_clocks_def by metis
  then have "db_sim c = ticks (k + j) (db_sim a)"
    by (simp add: funpow_add)
  with ab bc show ?thesis
    by (auto simp: only_clocks_def)
qed

lemma dbg_step_clocks: "dbg_step n d = Inr (out, d') \<Longrightarrow> only_clocks d d'"
  using step_loop_ticks [of "nat n" "db_sim d"]
  by (auto simp: dbg_step_def only_clocks_def case_prod_beta Let_def ebind_Inr_iff)

lemma dbg_run_clocks: "dbg_run n d = Inr (out, d') \<Longrightarrow> only_clocks d d'"
  using run_loop_first_stop [of "nat (run_limit n)" "db_breakpoints d" "db_sim d"]
  by (auto simp: dbg_run_def only_clocks_def case_prod_beta Let_def ebind_Inr_iff)

lemma dbg_break_clocks:
  "dbg_break args d = (out, d') \<Longrightarrow> only_clocks d d' \<and> db_sim d' = db_sim d"
  "dbg_break_del args d = (out, d') \<Longrightarrow> only_clocks d d' \<and> db_sim d' = db_sim d"
  by (auto simp: dbg_break_def dbg_break_del_def only_clocks_def case_prod_beta Let_def
      intro: exI [of _ 0] split: list.splits)

text \<open>The commands that clock; every other leaves the simulator as it is.\<close>

definition clocking_cmds :: "string set" where
  "clocking_cmds = {''s'', ''step'', ''r'', ''run''}"

text \<open>The results of a command that may only print, and of one that returns an object.\<close>

lemma shown: "ebind r (\<lambda>out. Inr (True, out, d)) = Inr (go, out, d') \<Longrightarrow> d' = d"
  by (auto simp: ebind_Inr_iff)

lemma went: "ebind r (\<lambda>(out, d). Inr (True, out, d)) = Inr (go, out, d') \<Longrightarrow> r = Inr (out, d')"
  by (auto simp: ebind_Inr_iff)

lemma if_Inr_E: "(if c then a else b) = Inr x \<Longrightarrow> (c \<Longrightarrow> a = Inr x \<Longrightarrow> P) \<Longrightarrow> (b = Inr x \<Longrightarrow> P) \<Longrightarrow> P"
  by (cases c) auto

lemma dispatch_clocks:
  "dispatch cmd args d = Inr (go, out, d') \<Longrightarrow>
     only_clocks d d' \<and> (cmd \<notin> clocking_cmds \<longrightarrow> db_sim d' = db_sim d)"
proof -
  have same: "d' = d \<Longrightarrow> ?thesis" by simp
  have clocked: "cmd \<in> {''s'', ''step''} \<or> cmd \<in> {''r'', ''run''} \<Longrightarrow> only_clocks d d' \<Longrightarrow> ?thesis"
    by (auto simp: clocking_cmds_def)
  assume "dispatch cmd args d = Inr (go, out, d')"
  then show ?thesis
    unfolding dispatch_def Let_def
    apply (elim if_Inr_E)
    subgoal by (rule clocked) (auto dest: went dbg_step_clocks)
    subgoal by (rule clocked) (auto simp: ebind_Inr_iff [of _ _ "(go, out, d')"] dest: went dbg_run_clocks)
    subgoal by (auto dest!: went dbg_break_clocks(1))
    subgoal by (rule same, erule shown)
    subgoal by (auto dest!: went dbg_break_clocks(2))
    by (rule same, erule shown | simp)+
qed

definition line_cmd :: "string \<Rightarrow> string option" where
  "line_cmd raw = (case py_split (py_strip raw) of [] \<Rightarrow> None | cmd # _ \<Rightarrow> Some (py_lower cmd))"

lemma read_lines_clocks:
  "read_lines lines d = Inr (out, d') \<Longrightarrow> only_clocks d d'
     \<and> ((\<forall>l \<in> set lines. \<forall>c \<in> clocking_cmds. line_cmd l \<noteq> Some c) \<longrightarrow> db_sim d' = db_sim d)"
proof (induction lines arbitrary: d out)
  case (Cons raw lines)
  show ?case
  proof (cases "py_split (py_strip raw)")
    case Nil
    with Cons show ?thesis by (simp add: line_cmd_def)
  next
    case (Cons cmd args)
    then obtain go out1 d1 where r: "dispatch (py_lower cmd) args d = Inr (go, out1, d1)"
      "if go then \<exists>rest. read_lines lines d1 = Inr (rest, d') else d1 = d'"
      using Cons.prems by (auto simp: ebind_Inr_iff split: if_splits)
    have c: "line_cmd raw = Some (py_lower cmd)"
      using Cons by (simp add: line_cmd_def)
    note one = dispatch_clocks [OF r(1)]
    show ?thesis
    proof (cases go)
      case True
      with r obtain rest where "read_lines lines d1 = Inr (rest, d')" by auto
      note rest = Cons.IH [OF this]
      show ?thesis
        using one rest c by (auto intro: only_clocks_trans)
    next
      case False
      with r one c show ?thesis by auto
    qed
  qed
qed (auto simp: ebind_Inr_iff)

lemma run_interactive_clocks:
  "run_interactive lines d = Inr (out, d') \<Longrightarrow> only_clocks d d'
     \<and> ((\<forall>l \<in> set lines. \<forall>c \<in> clocking_cmds. line_cmd l \<noteq> Some c) \<longrightarrow> db_sim d' = db_sim d)"
  by (auto simp: run_interactive_def ebind_Inr_iff dest: read_lines_clocks)

section \<open>The run command\<close>

lemma stepped_wf: "sim_wf s \<Longrightarrow> sim_wf (ticks k s)"
  by (induction k) (auto intro: sim_wf_step)

lemma show_state_total: "sim_wf (db_sim d) \<Longrightarrow> \<exists>out. show_state d = Inr out"
  by (auto simp: show_state_def sim_wf_def mem_wf_def py_getitem_def py_list_index_def Let_def)

lemma run_command_stops:
  assumes "sim_wf (db_sim d)"
  shows "\<exists>out d' k. dbg_run n d = Inr (out, d') \<and> k \<le> nat (run_limit n)
    \<and> d' = d\<lparr>db_sim := ticks k (db_sim d)\<rparr>
    \<and> (\<forall>i<k. \<not> sm_halted (ticks i (db_sim d)) \<and> sm_pc (ticks i (db_sim d)) \<notin> db_breakpoints d)
    \<and> (k < nat (run_limit n) \<longrightarrow> sm_halted (db_sim d') \<and> O_Halted \<in> set out
        \<or> sm_pc (db_sim d') \<in> db_breakpoints d \<and> O_Break_At (sm_pc (db_sim d')) \<in> set out)
    \<and> (db_breakpoints d = {} \<longrightarrow> db_sim d' = sim_loop (cycles (db_sim d) + int (nat (run_limit n))) (db_sim d))"
proof -
  let ?r = "run_loop (nat (run_limit n)) (db_breakpoints d) (db_sim d)"
  obtain k where k: "k \<le> nat (run_limit n)" "snd ?r = ticks k (db_sim d)"
    "\<forall>i<k. \<not> stops (db_breakpoints d) (ticks i (db_sim d))"
    "if k < nat (run_limit n) then stops (db_breakpoints d) (ticks k (db_sim d))
        \<and> fst ?r = stop_message (db_breakpoints d) (ticks k (db_sim d)) else fst ?r = []"
    using run_loop_first_stop [of "nat (run_limit n)" "db_breakpoints d" "db_sim d"] by blast
  let ?d = "d\<lparr>db_sim := ticks k (db_sim d)\<rparr>"
  obtain st where "show_state ?d = Inr st"
    using show_state_total [of ?d] stepped_wf [OF assms] by auto
  then have r: "dbg_run n d = Inr (fst ?r @ st, ?d)"
    using k(2) by (simp add: dbg_run_def case_prod_beta Let_def)
  have m: "k < nat (run_limit n) \<Longrightarrow> sm_halted (db_sim ?d) \<and> O_Halted \<in> set (fst ?r @ st)
      \<or> sm_pc (db_sim ?d) \<in> db_breakpoints d \<and> O_Break_At (sm_pc (db_sim ?d)) \<in> set (fst ?r @ st)"
    using k(4) by (auto simp: stops_def stop_message_def)
  have e: "db_breakpoints d = {} \<Longrightarrow>
      db_sim ?d = sim_loop (cycles (db_sim d) + int (nat (run_limit n))) (db_sim d)"
    using run_loop_sim_loop [of "nat (run_limit n)" "db_sim d"] k(2) by simp
  show ?thesis
    using r k(1,3) m e unfolding stops_def by blast
qed

end
