(* ===== verification/Tool_Debugger.thy ===== *)
theory Tool_Debugger
  imports Sim_Debugger Intel_Hex
begin

unbundle bit_operations_syntax

text \<open>
  \<^verbatim>\<open>toolchain/debugger.py\<close>: the debugger shell of the tool chain.  It drives a \<^verbatim>\<open>CPUSimulator\<close>
  through the methods \<^verbatim>\<open>load_hex\<close>, \<^verbatim>\<open>get_pc\<close>, \<^verbatim>\<open>get_register\<close> and \<^verbatim>\<open>read_memory\<close>, which that
  class does not have: each such call raises AttributeError.  The model keeps the calls where the
  code makes them.  An operation that may raise after it has changed the object returns the object
  together with its result.  Printed text is left out; a result that is printed is returned.  The
  words of a command line are given as \<^verbatim>\<open>shlex.split\<close> returns them.
\<close>

section \<open>State\<close>

record tool_dbg =
  td_sim :: sim
  td_loaded :: bool
  td_breakpoints :: "int set"
  td_watchpoints :: "int set"
  td_hex_path :: string

definition tool_dbg_init :: tool_dbg where
  "tool_dbg_init =
     \<lparr>td_sim = sim_init MEM_SIZE, td_loaded = False, td_breakpoints = {}, td_watchpoints = {}, td_hex_path = []\<rparr>"

text \<open>The methods the simulator lacks.\<close>

definition sim_load_hex :: "string \<Rightarrow> sim \<Rightarrow> py_error + sim" where
  "sim_load_hex path s = Inl AttributeError"

definition sim_get_pc :: "sim \<Rightarrow> py_error + int" where
  "sim_get_pc s = Inl AttributeError"

definition sim_get_register :: "sim \<Rightarrow> int \<Rightarrow> py_error + int" where
  "sim_get_register s i = Inl AttributeError"

definition sim_read_memory :: "sim \<Rightarrow> int \<Rightarrow> py_error + int" where
  "sim_read_memory s a = Inl AttributeError"

section \<open>Loading and running\<close>

text \<open>\<^verbatim>\<open>load\<close>; \<open>is_file\<close> stands for \<^verbatim>\<open>os.path.isfile(hex_path)\<close>.\<close>

definition td_load :: "bool \<Rightarrow> string \<Rightarrow> tool_dbg \<Rightarrow> bool \<times> tool_dbg" where
  "td_load is_file hex_path d =
     (if \<not> is_file then (False, d)
      else case sim_load_hex hex_path (td_sim d) of
             Inr s \<Rightarrow> (True, d\<lparr>td_sim := s, td_loaded := True, td_hex_path := hex_path\<rparr>)
           | Inl _ \<Rightarrow> (False, d))"

text \<open>\<^verbatim>\<open>halted = self.sim.step()\<close> is a snapshot, which is true, unless the processor had stopped
  before, when it is None.\<close>

fun td_step :: "nat \<Rightarrow> tool_dbg \<Rightarrow> (py_error + bool) \<times> tool_dbg" where
  "td_step 0 d = (Inr True, d)"
| "td_step (Suc n) d =
     (if \<not> td_loaded d then (Inr False, d)
      else
        (let (snap, s) = sim_step (td_sim d); d = d\<lparr>td_sim := s\<rparr>; halted = (snap \<noteq> None)
         in case sim_get_pc (td_sim d) of
              Inl e \<Rightarrow> (Inl e, d)
            | Inr pc \<Rightarrow> if pc \<in> td_watchpoints d then (Inr False, d)
                        else if halted then (Inr False, d)
                        else td_step n d))"

datatype run_end = Not_Loaded | Hit_Breakpoint int | Hit_Watchpoint int | Hit_HLT

text \<open>\<^verbatim>\<open>run_until_break\<close>; None would be a loop that never ends.\<close>

partial_function (option) td_run_loop :: "tool_dbg \<Rightarrow> ((py_error + run_end) \<times> tool_dbg) option" where
  "td_run_loop d =
     (let (snap, s) = sim_step (td_sim d); d = d\<lparr>td_sim := s\<rparr>; halted = (snap \<noteq> None)
      in case sim_get_pc (td_sim d) of
           Inl e \<Rightarrow> Some (Inl e, d)
         | Inr pc \<Rightarrow> if pc \<in> td_breakpoints d then Some (Inr (Hit_Breakpoint pc), d)
                     else if pc \<in> td_watchpoints d then Some (Inr (Hit_Watchpoint pc), d)
                     else if halted then Some (Inr Hit_HLT, d)
                     else td_run_loop d)"

definition td_run_until_break :: "tool_dbg \<Rightarrow> ((py_error + run_end) \<times> tool_dbg) option" where
  "td_run_until_break d = (if \<not> td_loaded d then Some (Inr Not_Loaded, d) else td_run_loop d)"

section \<open>Inspection\<close>

text \<open>\<^verbatim>\<open>s.isdigit()\<close>\<close>

definition py_isdigit :: "string \<Rightarrow> bool" where
  "py_isdigit s \<longleftrightarrow> s \<noteq> [] \<and> list_all is_dec_digit s"

definition td_get_reg :: "string \<Rightarrow> tool_dbg \<Rightarrow> py_error + int option" where
  "td_get_reg name d =
     (let name = py_upper name
      in if name = ''PC'' then ebind (sim_get_pc (td_sim d)) (\<lambda>v. Inr (Some v))
         else if starts_with name ''R'' \<and> py_isdigit (tl name) then
           ebind (py_int10 (tl name)) (\<lambda>idx.
             if 0 \<le> idx \<and> idx \<le> 31 then ebind (sim_get_register (td_sim d) idx) (\<lambda>v. Inr (Some v))
             else Inr None)
         else Inr None)"

fun td_registers :: "int list \<Rightarrow> tool_dbg \<Rightarrow> py_error + int list" where
  "td_registers [] d = Inr []"
| "td_registers (n # ns) d =
     ebind (sim_get_register (td_sim d) n) (\<lambda>v. ebind (td_registers ns d) (\<lambda>vs. Inr (v # vs)))"

definition td_dump_regs :: "tool_dbg \<Rightarrow> py_error + int list \<times> int" where
  "td_dump_regs d =
     ebind (td_registers [0..31] d) (\<lambda>vs. ebind (sim_get_pc (td_sim d)) (\<lambda>pc. Inr (vs, pc)))"

text \<open>\<^verbatim>\<open>a = addr + i * 4\<close>: the shell counts bytes.\<close>

fun td_words :: "int \<Rightarrow> nat \<Rightarrow> tool_dbg \<Rightarrow> py_error + (int \<times> int) list" where
  "td_words a 0 d = Inr []"
| "td_words a (Suc n) d =
     ebind (sim_read_memory (td_sim d) a) (\<lambda>v. ebind (td_words (a + 4) n d) (\<lambda>vs. Inr ((a, v) # vs)))"

definition td_dump_mem :: "int \<Rightarrow> int \<Rightarrow> tool_dbg \<Rightarrow> py_error + (int \<times> int) list" where
  "td_dump_mem addr count d = td_words addr (nat count) d"

fun td_disassemble :: "int \<Rightarrow> nat \<Rightarrow> tool_dbg \<Rightarrow> py_error + (bool \<times> int \<times> string) list" where
  "td_disassemble a 0 d = Inr []"
| "td_disassemble a (Suc n) d =
     ebind (sim_read_memory (td_sim d) a) (\<lambda>word.
       ebind (sim_get_pc (td_sim d)) (\<lambda>pc.
         ebind (td_disassemble (a + 4) n d) (\<lambda>rows. Inr ((a = pc, a, disassemble word) # rows))))"

section \<open>Breakpoints and watchpoints\<close>

definition td_add_breakpoint :: "int \<Rightarrow> tool_dbg \<Rightarrow> tool_dbg" where
  "td_add_breakpoint addr d = d\<lparr>td_breakpoints := insert addr (td_breakpoints d)\<rparr>"

definition td_del_breakpoint :: "int \<Rightarrow> tool_dbg \<Rightarrow> tool_dbg" where
  "td_del_breakpoint addr d = d\<lparr>td_breakpoints := td_breakpoints d - {addr}\<rparr>"

definition td_add_watchpoint :: "int \<Rightarrow> tool_dbg \<Rightarrow> tool_dbg" where
  "td_add_watchpoint addr d = d\<lparr>td_watchpoints := insert addr (td_watchpoints d)\<rparr>"

definition td_list_breakpoints :: "tool_dbg \<Rightarrow> int list" where
  "td_list_breakpoints d = sorted_list_of_set (td_breakpoints d)"

section \<open>The shell\<close>

text \<open>The outcome of a line of the shell: go on, leave the loop, or an exception; None for a command
  that never returns.\<close>

datatype shell = Go_On | Leave | Raised py_error

definition after :: "py_error + 'a \<Rightarrow> tool_dbg \<Rightarrow> (shell \<times> tool_dbg) option" where
  "after r d = (case r of Inl e \<Rightarrow> Some (Raised e, d) | Inr _ \<Rightarrow> Some (Go_On, d))"

text \<open>\<^verbatim>\<open>step(n)\<close> and the disassembly of the instruction at the PC.\<close>

definition td_step_and_show :: "nat \<Rightarrow> tool_dbg \<Rightarrow> (shell \<times> tool_dbg) option" where
  "td_step_and_show n d =
     (case td_step n d of
        (Inl e, d) \<Rightarrow> Some (Raised e, d)
      | (Inr _, d) \<Rightarrow> after (ebind (sim_get_pc (td_sim d)) (\<lambda>pc. td_disassemble pc 1 d)) d)"

definition td_with_addr :: "string list \<Rightarrow> (int \<Rightarrow> tool_dbg \<Rightarrow> tool_dbg) \<Rightarrow> tool_dbg \<Rightarrow> (shell \<times> tool_dbg) option" where
  "td_with_addr args f d =
     (case args of
        [] \<Rightarrow> Some (Go_On, d)
      | a # _ \<Rightarrow> (case int16 a of Inl e \<Rightarrow> Some (Raised e, d) | Inr addr \<Rightarrow> Some (Go_On, f addr d)))"

definition opt_count :: "int \<Rightarrow> nat \<Rightarrow> string list \<Rightarrow> py_error + int" where
  "opt_count dflt i args = (if length args > i then py_int10 (args ! i) else Inr dflt)"

definition td_command :: "(string \<Rightarrow> bool) \<Rightarrow> string \<Rightarrow> string list \<Rightarrow> tool_dbg \<Rightarrow> (shell \<times> tool_dbg) option" where
  "td_command is_file cmd args d =
     (if cmd \<in> {''q'', ''quit'', ''exit''} then Some (Leave, d)
      else if cmd = ''help'' then Some (Go_On, d)
      else if cmd \<in> {''r'', ''run''} then
        (let path = (case args of [] \<Rightarrow> td_hex_path d | a # _ \<Rightarrow> a)
         in if path \<noteq> [] then Some (Go_On, snd (td_load (is_file path) path d)) else Some (Go_On, d))
      else if cmd \<in> {''s'', ''step''} then td_step_and_show 1 d
      else if cmd \<in> {''si'', ''stepi''} then
        (case opt_count 1 0 args of Inl e \<Rightarrow> Some (Raised e, d) | Inr n \<Rightarrow> td_step_and_show (nat n) d)
      else if cmd \<in> {''c'', ''continue''} then
        (case td_run_until_break d of
           None \<Rightarrow> None
         | Some (r, d) \<Rightarrow> after r d)
      else if cmd \<in> {''b'', ''break''} then td_with_addr args td_add_breakpoint d
      else if cmd \<in> {''d'', ''delete''} then td_with_addr args td_del_breakpoint d
      else if cmd \<in> {''bl'', ''breaklist''} then Some (Go_On, d)
      else if cmd \<in> {''p'', ''print''} then
        (case args of [] \<Rightarrow> Some (Go_On, d) | a # _ \<Rightarrow> after (td_get_reg a d) d)
      else if cmd \<in> {''pa'', ''printall''} then after (td_dump_regs d) d
      else if cmd \<in> {''m'', ''mem''} then
        (case args of
           [] \<Rightarrow> Some (Go_On, d)
         | a # _ \<Rightarrow> after (ebind (int16 a) (\<lambda>addr. ebind (opt_count 4 1 args) (\<lambda>n. td_dump_mem addr n d))) d)
      else if cmd \<in> {''w'', ''watch''} then td_with_addr args td_add_watchpoint d
      else if cmd \<in> {''dis'', ''disasm''} then
        after (ebind (case args of [] \<Rightarrow> sim_get_pc (td_sim d) | a # _ \<Rightarrow> int16 a) (\<lambda>addr.
                 ebind (opt_count 8 1 args) (\<lambda>n. td_disassemble addr (nat n) d))) d
      else Some (Go_On, d))"

text \<open>The loop of \<^verbatim>\<open>repl\<close> over the command lines, already split; blank lines are skipped.\<close>

fun td_repl :: "(string \<Rightarrow> bool) \<Rightarrow> string list list \<Rightarrow> tool_dbg \<Rightarrow> ((py_error + unit) \<times> tool_dbg) option" where
  "td_repl is_file [] d = Some (Inr (), d)"
| "td_repl is_file ([] # lines) d = td_repl is_file lines d"
| "td_repl is_file ((cmd # args) # lines) d =
     (case td_command is_file (py_lower cmd) args d of
        None \<Rightarrow> None
      | Some (Leave, d) \<Rightarrow> Some (Inr (), d)
      | Some (Raised e, d) \<Rightarrow> Some (Inl e, d)
      | Some (Go_On, d) \<Rightarrow> td_repl is_file lines d)"

text \<open>The batch mode of \<^verbatim>\<open>main\<close>, which knows fewer commands and takes \<^verbatim>\<open>r\<close> for \<^verbatim>\<open>c\<close>.\<close>

fun td_batch :: "string list list \<Rightarrow> tool_dbg \<Rightarrow> ((py_error + unit) \<times> tool_dbg) option" where
  "td_batch [] d = Some (Inr (), d)"
| "td_batch ([] # cmds) d = td_batch cmds d"
| "td_batch ((c # args) # cmds) d =
     (let cmd = py_lower c
      in if cmd \<in> {''q'', ''quit''} then Some (Inr (), d)
         else if cmd \<in> {''pa'', ''printall''} then
           (case td_dump_regs d of Inl e \<Rightarrow> Some (Inl e, d) | Inr _ \<Rightarrow> td_batch cmds d)
         else if cmd \<in> {''si'', ''stepi''} then
           (case opt_count 1 0 args of
              Inl e \<Rightarrow> Some (Inl e, d)
            | Inr n \<Rightarrow> (case td_step (nat n) d of
                          (Inl e, d) \<Rightarrow> Some (Inl e, d)
                        | (Inr _, d) \<Rightarrow> td_batch cmds d))
         else if cmd \<in> {''c'', ''continue'', ''r'', ''run''} then
           (case td_run_until_break d of
              None \<Rightarrow> None
            | Some (Inl e, d) \<Rightarrow> Some (Inl e, d)
            | Some (Inr _, d) \<Rightarrow> td_batch cmds d)
         else td_batch cmds d)"

section \<open>Nothing is ever loaded\<close>

definition idle :: "tool_dbg \<Rightarrow> bool" where
  "idle d \<longleftrightarrow> \<not> td_loaded d \<and> td_sim d = sim_init MEM_SIZE"

lemmas no_method = sim_load_hex_def sim_get_pc_def sim_get_register_def sim_read_memory_def

lemma idle_init: "idle tool_dbg_init"
  by (simp add: idle_def tool_dbg_init_def)

lemma idle_load [simp]: "td_load f p d = (False, d)"
  by (simp add: td_load_def no_method)

lemma idle_step [simp]: "idle d \<Longrightarrow> td_step n d = (Inr (n = 0), d)"
  by (cases n) (simp_all add: idle_def)

lemma idle_run [simp]: "idle d \<Longrightarrow> td_run_until_break d = Some (Inr Not_Loaded, d)"
  by (simp add: td_run_until_break_def idle_def)

lemma idle_points [simp]:
  "idle d \<Longrightarrow> idle (td_add_breakpoint a d)" "idle d \<Longrightarrow> idle (td_del_breakpoint a d)"
  "idle d \<Longrightarrow> idle (td_add_watchpoint a d)"
  by (simp_all add: idle_def td_add_breakpoint_def td_del_breakpoint_def td_add_watchpoint_def)

lemma idle_with_addr:
  "(\<And>a. idle (f a d)) \<Longrightarrow> idle d \<Longrightarrow> \<exists>r d'. td_with_addr args f d = Some (r, d') \<and> idle d'"
  by (simp add: td_with_addr_def split: list.split sum.split)

lemma idle_after: "idle d \<Longrightarrow> \<exists>r d'. after x d = Some (r, d') \<and> idle d'"
  by (simp add: after_def split: sum.split)

lemma step_and_show_raises: "idle d \<Longrightarrow> td_step_and_show n d = Some (Raised AttributeError, d)"
  by (simp add: td_step_and_show_def after_def no_method)

lemma idle_command: "idle d \<Longrightarrow> \<exists>r d'. td_command is_file cmd args d = Some (r, d') \<and> idle d'"
  unfolding td_command_def
  by (simp add: Let_def step_and_show_raises idle_after idle_with_addr split: list.split sum.split)

lemma idle_repl: "idle d \<Longrightarrow> \<exists>r d'. td_repl is_file lines d = Some (r, d') \<and> idle d'"
proof (induction is_file lines d rule: td_repl.induct)
  case (3 is_file cmd args lines d)
  obtain r d' where c: "td_command is_file (py_lower cmd) args d = Some (r, d')" "idle d'"
    using idle_command [OF 3(2)] by blast
  with 3(1) [OF c(1)] show ?case
    by (cases r) auto
qed auto

lemma idle_batch: "idle d \<Longrightarrow> \<exists>r d'. td_batch cmds d = Some (r, d') \<and> idle d'"
  by (induction cmds d rule: td_batch.induct) (auto simp: Let_def split: sum.split)

lemma idle_step_command:
  "idle d \<Longrightarrow> cmd \<in> {''s'', ''step''} \<Longrightarrow> td_command is_file cmd args d = Some (Raised AttributeError, d)"
  by (auto simp: td_command_def step_and_show_raises)

end
