(* ===== verification/Asm_Code.thy ===== *)
theory Asm_Code
  imports C_Codegen Disassembler Asm_Correct
begin

unbundle bit_operations_syntax

text \<open>
  The instructions the code generator emits for programs without memory accesses and calls, as a
  datatype, between the text and the words: what tokens a line has, what the assembler makes of a
  sequence of such lines, and where the labels end up.
\<close>

section \<open>Instructions and their lines\<close>

datatype asm_ins =
    I_Op opcode int int int
  | I_Op1 opcode int int
  | I_Movi int int
  | I_Movhi int int
  | I_Ori int int
  | I_Xori int
  | I_Br opcode int string
  | I_Jmp string
  | I_Hlt
  | I_Label string

fun toks_of :: "asm_ins \<Rightarrow> string list" where
  "toks_of (I_Op opc d a b) = [opcode_name opc, reg_text d, reg_text a, reg_text b]"
| "toks_of (I_Op1 opc d a) = [opcode_name opc, reg_text d, reg_text a]"
| "toks_of (I_Movi d v) = [opcode_name Op_MOVI, reg_text d, fmt_dec v]"
| "toks_of (I_Movhi d v) = [opcode_name Op_MOVHI, reg_text d, ''0x'' @ fmt_hex 5 v]"
| "toks_of (I_Ori d v) = [opcode_name Op_ORI, reg_text d, reg_text d, ''0x'' @ fmt_hex 4 v]"
| "toks_of (I_Xori d) = [opcode_name Op_XORI, reg_text d, reg_text d, fmt_dec 1]"
| "toks_of (I_Br opc a l) = [opcode_name opc, reg_text a, reg_text 0, l]"
| "toks_of (I_Jmp l) = [opcode_name Op_JMP, l]"
| "toks_of I_Hlt = [opcode_name Op_HLT]"
| "toks_of (I_Label l) = [l @ '':'']"

fun is_real :: "asm_ins \<Rightarrow> bool" where
  "is_real (I_Label l) = False"
| "is_real _ = True"

fun labels_of :: "asm_ins list \<Rightarrow> string list" where
  "labels_of [] = []"
| "labels_of (I_Label l # P) = l # labels_of P"
| "labels_of (_ # P) = labels_of P"

fun uses_of :: "asm_ins list \<Rightarrow> string set" where
  "uses_of [] = {}"
| "uses_of (I_Br _ _ l # P) = insert l (uses_of P)"
| "uses_of (I_Jmp l # P) = insert l (uses_of P)"
| "uses_of (_ # P) = uses_of P"

text \<open>What the generator keeps to: registers up to R29, immediates that fit, labels that are names.\<close>

definition gen_reg :: "int \<Rightarrow> bool" where "gen_reg r \<longleftrightarrow> 0 \<le> r \<and> r \<le> 29"

definition label_ok :: "string \<Rightarrow> bool" where
  "label_ok l \<longleftrightarrow> clean l \<and> \<not> is_int l"

definition op_codes :: "opcode list" where
  "op_codes = [Op_ADD, Op_SUB, Op_MUL, Op_DIV, Op_REM, Op_SHL, Op_SHR, Op_AND, Op_OR, Op_XOR, Op_SLT]"

fun ins_ok :: "asm_ins \<Rightarrow> bool" where
  "ins_ok (I_Op opc d a b) = (opc \<in> set op_codes \<and> gen_reg d \<and> gen_reg a \<and> gen_reg b)"
| "ins_ok (I_Op1 opc d a) = (opc \<in> {Op_NEG, Op_NOT, Op_MOV} \<and> gen_reg d \<and> gen_reg a)"
| "ins_ok (I_Movi d v) = (gen_reg d \<and> - 32768 \<le> v \<and> v \<le> 32767)"
| "ins_ok (I_Movhi d v) = (gen_reg d \<and> 0 \<le> v \<and> v < 2 ^ 21)"
| "ins_ok (I_Ori d v) = (gen_reg d \<and> 0 \<le> v \<and> v < 2 ^ 16)"
| "ins_ok (I_Xori d) = gen_reg d"
| "ins_ok (I_Br opc a l) = (opc \<in> {Op_BEQ, Op_BNE} \<and> gen_reg a \<and> label_ok l)"
| "ins_ok (I_Jmp l) = label_ok l"
| "ins_ok I_Hlt = True"
| "ins_ok (I_Label l) = label_ok l"

lemma labels_of_append [simp]: "labels_of (P @ Q) = labels_of P @ labels_of Q"
  by (induction P rule: labels_of.induct) simp_all

lemma uses_of_append [simp]: "uses_of (P @ Q) = uses_of P \<union> uses_of Q"
  by (induction P rule: uses_of.induct) simp_all

section \<open>Encoding\<close>

text \<open>The word of an instruction at address \<open>pc\<close>.\<close>

fun encode_ins :: "symtab \<Rightarrow> int \<Rightarrow> asm_ins \<Rightarrow> int" where
  "encode_ins syms pc (I_Op opc d a b) = encode_r opc d a b 0"
| "encode_ins syms pc (I_Op1 opc d a) = encode_r opc d a 0 0"
| "encode_ins syms pc (I_Movi d v) = encode_i Op_MOVI d 0 v"
| "encode_ins syms pc (I_Movhi d v) = encode_u Op_MOVHI d v"
| "encode_ins syms pc (I_Ori d v) = encode_i Op_ORI d d v"
| "encode_ins syms pc (I_Xori d) = encode_i Op_XORI d d 1"
| "encode_ins syms pc (I_Br opc a l) = encode_b opc a 0 (the (syms l) - pc)"
| "encode_ins syms pc (I_Jmp l) = encode_j Op_JMP (the (syms l))"
| "encode_ins syms pc I_Hlt = encode_j Op_HLT 0"
| "encode_ins syms pc (I_Label l) = 0"

lemma reg_text_name: "gen_reg r \<Longrightarrow> reg_text r = reg_name r"
  by (auto simp: gen_reg_def reg_text_def reg_name_def)

lemma gen_reg_index: "gen_reg r \<Longrightarrow> reg_index r"
  by (simp add: gen_reg_def reg_index_def)

lemma parse_reg_text: "gen_reg r \<Longrightarrow> parse_reg (reg_text r) line = Inr r"
  by (simp add: reg_text_name parse_reg_name gen_reg_index)

lemma gen_reg_0: "gen_reg 0"
  by (simp add: gen_reg_def)

lemma encode_fields:
  "encode_i opc a b (v AND 0xFFFF) = encode_i opc a b v" "encode_b opc a b (v AND 0xFFFF) = encode_b opc a b v"
  "encode_j opc (v AND 0x3FFFFFF) = encode_j opc v" "encode_u opc a (v AND 0x1FFFFF) = encode_u opc a v"
  by (simp_all add: encode_i_def encode_b_def encode_j_def encode_u_def)

lemmas ins_operands = reg_at_def val_at_def op_at_def parse_reg_text resolve_fmt_dec
  resolve_fmt_hex [unfolded append_Cons append_Nil] gen_reg_0

text \<open>The mnemonics, by the branch of the encoder that handles them.\<close>

definition jump_names :: "string set" where
  "jump_names = {''NOP'', ''HLT'', ''SYSCALL'', ''ERET'', ''FENCE'', ''BREAK'', ''RET''}"

lemma code_names:
  "list_all (\<lambda>opc. opcode_name opc \<notin> jump_names \<and> OPCODE_FMT opc = Fmt_R \<and> opcode_name opc \<notin>
     {''NOT'', ''NEG'', ''SHLI'', ''SHRI'', ''SHRAI'', ''MOV'', ''PUSH'', ''POP''}) op_codes"
  "list_all (\<lambda>opc. opcode_name opc \<notin> jump_names \<and> OPCODE_FMT opc = Fmt_R \<and> opcode_name opc \<in>
     {''NOT'', ''NEG'', ''MOV''}) [Op_NEG, Op_NOT, Op_MOV]"
  "list_all (\<lambda>opc. opcode_name opc \<notin> jump_names \<and> OPCODE_FMT opc = Fmt_B) [Op_BEQ, Op_BNE]"
  "list_all (\<lambda>opc. opcode_name opc \<notin> jump_names \<and> OPCODE_FMT opc = Fmt_I \<and> opcode_name opc \<notin>
     {''JMPR'', ''CALLR'', ''MFC'', ''MTC'', ''LW'', ''LH'', ''LHU'', ''LB'', ''LBU'', ''MOVI''}) [Op_ORI, Op_XORI]"
  "opcode_name Op_MOVI \<notin> jump_names \<and> OPCODE_FMT Op_MOVI = Fmt_I"
  "opcode_name Op_MOVHI \<notin> jump_names \<and> OPCODE_FMT Op_MOVHI = Fmt_U"
  "opcode_name Op_JMP \<notin> jump_names \<and> OPCODE_FMT Op_JMP = Fmt_J"
  "opcode_name Op_HLT \<in> jump_names"
  by code_simp+

lemma encode_op:
  assumes "opc \<in> set op_codes" "gen_reg d" "gen_reg a" "gen_reg b"
  shows "encode_instr syms [opcode_name opc, reg_text d, reg_text a, reg_text b] pc line = Inr (encode_r opc d a b 0)"
  using code_names(1) assms unfolding list_all_iff encode_instr_name jump_names_def [symmetric]
  by (simp add: encode_instr_r_def ins_operands)

lemma encode_op1:
  assumes "opc \<in> {Op_NEG, Op_NOT, Op_MOV}" "gen_reg d" "gen_reg a"
  shows "encode_instr syms [opcode_name opc, reg_text d, reg_text a] pc line = Inr (encode_r opc d a 0 0)"
proof -
  have n: "opcode_name opc \<notin> jump_names" "OPCODE_FMT opc = Fmt_R" "opcode_name opc \<in> {''NOT'', ''NEG'', ''MOV''}"
    using code_names(2) assms(1) by (auto simp: list_all_iff simp del: opcode_name.simps)
  show ?thesis
    using n assms(2,3) unfolding encode_instr_name jump_names_def [symmetric]
    by (auto simp: encode_instr_r_def ins_operands)
qed

lemma encode_br:
  assumes "opc \<in> {Op_BEQ, Op_BNE}" "gen_reg a" "label_ok l" "syms l = Some t"
  shows "encode_instr syms [opcode_name opc, reg_text a, reg_text 0, l] pc line = Inr (encode_b opc a 0 (t - pc))"
proof -
  have n: "opcode_name opc \<notin> jump_names" "OPCODE_FMT opc = Fmt_B"
    using code_names(3) assms(1) by (auto simp: list_all_iff simp del: opcode_name.simps)
  show ?thesis
    using n assms(2-4) unfolding encode_instr_name jump_names_def [symmetric]
    by (simp add: ins_operands resolve_branch_def resolve_def label_ok_def encode_fields)
qed

lemma encode_imm:
  assumes "opc \<in> {Op_ORI, Op_XORI}" "gen_reg d" "resolve syms t line = Inr v"
  shows "encode_instr syms [opcode_name opc, reg_text d, reg_text d, t] pc line = Inr (encode_i opc d d v)"
proof -
  have n: "opcode_name opc \<notin> jump_names" "OPCODE_FMT opc = Fmt_I" "opcode_name opc \<notin>
     {''JMPR'', ''CALLR'', ''MFC'', ''MTC'', ''LW'', ''LH'', ''LHU'', ''LB'', ''LBU'', ''MOVI''}"
    using code_names(4) assms(1) by (auto simp: list_all_iff simp del: opcode_name.simps)
  show ?thesis
    using n assms(2,3) unfolding encode_instr_name jump_names_def [symmetric]
    by (simp add: encode_instr_i_def ins_operands encode_fields)
qed

lemma encode_toks:
  assumes "ins_ok ins" "is_real ins" "\<forall>l \<in> uses_of [ins]. syms l \<noteq> None"
  shows "encode_instr syms (toks_of ins) pc line = Inr (encode_ins syms pc ins)"
proof (cases ins)
  case (I_Movi d v)
  have "encode_instr_i syms (opcode_name Op_MOVI) Op_MOVI [reg_text d, fmt_dec v] line = Inr (encode_i Op_MOVI d 0 v)"
    using assms by (simp add: I_Movi encode_instr_i_def ins_operands encode_fields)
  then show ?thesis
    using code_names(5) unfolding I_Movi toks_of.simps encode_instr_name jump_names_def [symmetric]
    by (simp del: opcode_name.simps)
next
  case (I_Movhi d v)
  then show ?thesis
    using assms code_names(6) unfolding I_Movhi toks_of.simps encode_instr_name jump_names_def [symmetric]
    by (simp add: ins_operands encode_fields del: opcode_name.simps)
next
  case (I_Jmp l)
  then show ?thesis
    using assms code_names(7) unfolding I_Jmp toks_of.simps encode_instr_name jump_names_def [symmetric]
    by (auto simp: ins_operands encode_fields label_ok_def resolve_def simp del: opcode_name.simps)
next
  case I_Hlt
  then show ?thesis
    using code_names(8) unfolding I_Hlt toks_of.simps encode_instr_name jump_names_def [symmetric]
    by (simp del: opcode_name.simps)
next
  case (I_Ori d v)
  then show ?thesis
    using assms encode_imm [of Op_ORI d syms "''0x'' @ fmt_hex 4 v" line v pc]
    by (simp add: resolve_fmt_hex del: opcode_name.simps append_Cons append_Nil)
next
  case (I_Xori d)
  then show ?thesis
    using assms encode_imm [of Op_XORI d syms "fmt_dec 1" line 1 pc]
    by (simp add: resolve_fmt_dec del: opcode_name.simps)
qed (use assms encode_op encode_op1 encode_br in \<open>auto simp del: opcode_name.simps\<close>)

end
