(* ===== verification/Asm_Layout.thy ===== *)
theory Asm_Layout
  imports Asm_Code
begin

text \<open>
  The assembler on the lines of such instructions: the location counter of every instruction, the
  address of every label, the words.
\<close>

section \<open>Lines that hold tokens\<close>

definition code_toks :: "string list \<Rightarrow> string list list" where
  "code_toks lines = filter (\<lambda>t. t \<noteq> []) (map tokenize_line lines)"

lemma code_toks_append [simp]: "code_toks (xs @ ys) = code_toks xs @ code_toks ys"
  by (simp add: code_toks_def)

lemma code_toks_simps [simp]:
  "code_toks [] = []"
  "code_toks (l # ls) = (if tokenize_line l = [] then code_toks ls else tokenize_line l # code_toks ls)"
  by (simp_all add: code_toks_def)

lemma code_toks_ConsD:
  assumes "code_toks lines = t # ts"
  obtains pre raw post where "lines = pre @ raw # post" "\<forall>x \<in> set pre. tokenize_line x = []"
    "tokenize_line raw = t" "code_toks post = ts"
  using assms by (auto simp: code_toks_def filter_eq_Cons_iff map_eq_append_conv Cons_eq_map_conv)

lemma pass1_empty_lines: "\<forall>x \<in> set pre. tokenize_line x = [] \<Longrightarrow> pass1 pre n st = Inr st"
  by (induction pre arbitrary: n) (auto simp: pass1_line_def pass1_label_def split: prod.split)

lemma pass2_empty_lines: "\<forall>x \<in> set pre. tokenize_line x = [] \<Longrightarrow> pass2 syms pre n st = Inr st"
  by (induction pre arbitrary: n) (auto simp: pass2_line_def drop_label_def split: prod.split)

section \<open>Pass 1\<close>

fun place_labels :: "symtab \<Rightarrow> int \<Rightarrow> asm_ins list \<Rightarrow> symtab" where
  "place_labels syms lc [] = syms"
| "place_labels syms lc (I_Label l # P) = place_labels (syms(l \<mapsto> lc)) lc P"
| "place_labels syms lc (_ # P) = place_labels syms (lc + 1) P"

fun encode_code :: "symtab \<Rightarrow> int \<Rightarrow> asm_ins list \<Rightarrow> int list" where
  "encode_code syms lc [] = []"
| "encode_code syms lc (I_Label l # P) = encode_code syms lc P"
| "encode_code syms lc (i # P) = encode_ins syms lc i # encode_code syms (lc + 1) P"

definition code_size :: "asm_ins list \<Rightarrow> int" where
  "code_size P = int (length (filter is_real P))"

lemma code_size_simps [simp]:
  "code_size [] = 0" "code_size (i # P) = (if is_real i then 1 else 0) + code_size P"
  "code_size (P @ Q) = code_size P + code_size Q"
  by (simp_all add: code_size_def)

lemma real_cases:
  "place_labels syms lc (i # P) = (case i of I_Label l \<Rightarrow> place_labels (syms(l \<mapsto> lc)) lc P | _ \<Rightarrow> place_labels syms (lc + 1) P)"
  "encode_code syms lc (i # P) = (if is_real i then encode_ins syms lc i # encode_code syms (lc + 1) P else encode_code syms lc P)"
  "labels_of (i # P) = (case i of I_Label l \<Rightarrow> l # labels_of P | _ \<Rightarrow> labels_of P)"
  by (cases i; simp)+

lemma not_real: "\<not> is_real i \<Longrightarrow> \<exists>l. i = I_Label l"
  by (cases i) simp_all

lemma mnemonic_first:
  assumes "is_real i"
  obtains opc ops where "toks_of i = opcode_name opc # ops"
  using assms by (cases i) (auto simp del: opcode_name.simps)

lemma name_not_label: "\<not> ends_with_colon (opcode_name opc)"
  by (cases opc) (simp_all add: ends_with_colon_def)

lemma name_not_directive: "\<not> starts_with (py_lower (opcode_name opc)) ''.''"
  by (cases opc; hypsubst; code_simp)

lemma name_lower:
  "py_lower (opcode_name opc) \<notin> {''.org'', ''.equ'', ''.word'', ''.data''}"
  using name_not_directive [of opc] by auto

lemma pass1_real:
  assumes "tokenize_line raw = toks_of i" "is_real i"
  shows "pass1_line raw n (syms, lc) = Inr (syms, lc + 1)"
proof -
  obtain opc ops where t: "toks_of i = opcode_name opc # ops" by (rule mnemonic_first [OF assms(2)])
  show ?thesis
    using name_not_label [of opc] name_not_directive [of opc] name_lower [of opc]
    by (simp add: pass1_line_def pass1_label_def pass1_directive_def assms(1) t Let_def)
qed

lemma pass2_real:
  assumes "tokenize_line raw = toks_of i" "is_real i" "encode_instr syms (toks_of i) lc n = Inr w" "u32 w"
  shows "pass2_line syms raw n (lc, out) = Inr (lc + 1, AList.update lc w out)"
proof -
  obtain opc ops where t: "toks_of i = opcode_name opc # ops" by (rule mnemonic_first [OF assms(2)])
  show ?thesis
    using name_not_label [of opc] name_not_directive [of opc] name_lower [of opc] assms(3,4)
    by (simp add: pass2_line_def pass2_directive_def drop_label_def assms(1) t Let_def isa_consts u32_mask_id)
qed

lemma pass_label:
  assumes "tokenize_line raw = [l @ '':'']"
  shows "syms l = None \<Longrightarrow> pass1_line raw n (syms, lc) = Inr (syms(l \<mapsto> lc), lc)"
    and "pass2_line syms raw n (lc, out) = Inr (lc, out)"
  using assms by (simp_all add: pass1_line_def pass1_label_def pass2_line_def drop_label_def ends_with_colon_def Let_def)

lemma pass1_code:
  "code_toks lines = map toks_of P \<Longrightarrow> distinct (labels_of P) \<Longrightarrow> \<forall>l \<in> set (labels_of P). syms l = None \<Longrightarrow>
   pass1 lines n (syms, lc) = Inr (place_labels syms lc P, lc + code_size P)"
proof (induction lines arbitrary: P n syms lc)
  case (Cons raw lines)
  show ?case
  proof (cases "tokenize_line raw = []")
    case True
    then show ?thesis
      using Cons.IH [OF _ Cons.prems(2,3)] Cons.prems(1) by (simp add: pass1_line_def pass1_label_def)
  next
    case False
    then obtain i Q where P: "P = i # Q" "tokenize_line raw = toks_of i" "code_toks lines = map toks_of Q"
      using Cons.prems(1) by (cases P) auto
    show ?thesis
    proof (cases "is_real i")
      case True
      then have "labels_of P = labels_of Q" "place_labels syms lc P = place_labels syms (lc + 1) Q"
        by (cases i; simp add: P)+
      then show ?thesis
        using Cons.IH [OF P(3), of syms "n + 1" "lc + 1"] Cons.prems(2,3) True
        by (simp add: pass1_real [OF P(2) True] P(1))
    next
      case False
      then obtain l where i: "i = I_Label l" using not_real by blast
      then have "pass1_line raw n (syms, lc) = Inr (syms(l \<mapsto> lc), lc)"
        using P Cons.prems(3) by (intro pass_label) simp_all
      moreover have "distinct (labels_of Q)" "\<forall>k \<in> set (labels_of Q). (syms(l \<mapsto> lc)) k = None"
        using Cons.prems(2,3) by (auto simp: P(1) i)
      ultimately show ?thesis
        using Cons.IH [OF P(3)] by (simp add: P(1) i del: fun_upd_apply)
    qed
  qed
qed simp

section \<open>Pass 2\<close>

lemma u32_encode_ins: "u32 (encode_ins syms pc i)"
  by (cases i) (simp_all add: u32_encode encode_b_eq_i u32_0)

lemma uses_Cons: "uses_of (i # P) = uses_of [i] \<union> uses_of P"
  using uses_of_append [of "[i]" P] by simp

lemma pass2_code:
  "code_toks lines = map toks_of P \<Longrightarrow> \<forall>i \<in> set P. ins_ok i \<Longrightarrow> \<forall>l \<in> uses_of P. syms l \<noteq> None \<Longrightarrow>
   pass2 syms lines n (lc, out) = Inr (lc + code_size P, store_words lc (encode_code syms lc P) out)"
proof (induction lines arbitrary: P n lc out)
  case (Cons raw lines)
  show ?case
  proof (cases "tokenize_line raw = []")
    case True
    then show ?thesis
      using Cons.IH [OF _ Cons.prems(2,3)] Cons.prems(1) by (simp add: pass2_line_def drop_label_def)
  next
    case False
    then obtain i Q where P: "P = i # Q" "tokenize_line raw = toks_of i" "code_toks lines = map toks_of Q"
      using Cons.prems(1) by (cases P) auto
    have u: "\<forall>l \<in> uses_of [i]. syms l \<noteq> None" "\<forall>l \<in> uses_of Q. syms l \<noteq> None"
      using Cons.prems(3) unfolding P(1) uses_Cons [of i Q] by blast+
    have o: "ins_ok i" "\<forall>i \<in> set Q. ins_ok i" using Cons.prems(2) by (simp_all add: P(1))
    show ?thesis
    proof (cases "is_real i")
      case True
      show ?thesis
        using Cons.IH [OF P(3) o(2) u(2), of "n + 1" "lc + 1"] True
        by (simp add: pass2_real [OF P(2) True encode_toks [OF o(1) True u(1)] u32_encode_ins] P(1) real_cases(2))
    next
      case False
      then obtain l where i: "i = I_Label l" using not_real by blast
      have "pass2_line syms raw n (lc, out) = Inr (lc, out)"
        using P i by (intro pass_label) simp
      then show ?thesis
        using Cons.IH [OF P(3) o(2) u(2), of "n + 1" lc] by (simp add: P(1) i)
    qed
  qed
qed (simp add: code_toks_def)

section \<open>The whole source\<close>

lemma assemble_code:
  assumes t: "code_toks lines = [''.org'', ''0x000000''] # map toks_of P"
    and P: "\<forall>i \<in> set P. ins_ok i" "distinct (labels_of P)"
    and u: "\<forall>l \<in> uses_of P. place_labels Map.empty 0 P l \<noteq> None"
  shows "assemble_lines lines = Inr (encode_code (place_labels Map.empty 0 P) 0 P, place_labels Map.empty 0 P)"
proof -
  obtain pre raw post where l: "lines = pre @ raw # post" "\<forall>x \<in> set pre. tokenize_line x = []"
    "tokenize_line raw = [''.org'', ''0x000000'']" "code_toks post = map toks_of P"
    by (rule code_toks_ConsD [OF t])
  have c: "py_lower ''.org'' = ''.org''" "\<not> ends_with_colon ''.org''" "parse_int ''0x000000'' n = Inr 0" for n
    by code_simp+
  have r: "pass1_line raw n (syms, lc) = Inr (syms, 0)" "pass2_line s raw n (lc, out) = Inr (0, out)" for n syms lc s out
    using c by (simp_all add: pass1_line_def pass2_line_def pass1_label_def drop_label_def l(3) pass1_directive_def
        pass2_directive_def op_at_def)
  have "pass1 lines 1 (Map.empty, 0) = Inr (place_labels Map.empty 0 P, code_size P)"
    by (simp add: l(1) pass1_append pass1_empty_lines [OF l(2)] r pass1_code [OF l(4) P(2)])
  moreover have "pass2 (place_labels Map.empty 0 P) lines 1 (0, [])
      = Inr (code_size P, store_words 0 (encode_code (place_labels Map.empty 0 P) 0 P) [])"
    by (simp add: l(1) pass2_append pass2_empty_lines [OF l(2)] r pass2_code [OF l(4) P(1) u])
  ultimately show ?thesis
    by (simp add: assemble_lines_def dense_store_words)
qed

text \<open>Addresses: of the instruction with index \<open>j\<close>, and of a label.\<close>

definition addr_of :: "asm_ins list \<Rightarrow> nat \<Rightarrow> int" where
  "addr_of P j = code_size (take j P)"

lemma place_labels_other: "l \<notin> set (labels_of P) \<Longrightarrow> place_labels syms lc P l = syms l"
  by (induction syms lc P rule: place_labels.induct) auto

lemma place_labels_at:
  "distinct (labels_of P) \<Longrightarrow> j < length P \<Longrightarrow> P ! j = I_Label l \<Longrightarrow> place_labels syms lc P l = Some (lc + addr_of P j)"
proof (induction P arbitrary: syms lc j)
  case (Cons i P)
  show ?case
  proof (cases j)
    case 0
    then show ?thesis
      using Cons.prems by (simp add: addr_of_def place_labels_other)
  next
    case (Suc k)
    have d: "distinct (labels_of P)" using Cons.prems(1) by (cases i) simp_all
    show ?thesis
      using Cons.IH [OF d, of k] Cons.prems Suc by (cases i) (simp_all add: addr_of_def algebra_simps)
  qed
qed simp

lemma encode_code_at:
  "j < length P \<Longrightarrow> is_real (P ! j) \<Longrightarrow>
   nat (addr_of P j) < length (encode_code syms lc P) \<and>
   encode_code syms lc P ! nat (addr_of P j) = encode_ins syms (lc + addr_of P j) (P ! j)"
proof (induction P arbitrary: lc j)
  case (Cons i P)
  have p: "0 \<le> code_size Q" for Q by (simp add: code_size_def)
  show ?case
  proof (cases j)
    case 0
    then show ?thesis using Cons.prems by (simp add: addr_of_def real_cases(2))
  next
    case (Suc k)
    have n: "nat (1 + code_size (take k P)) = Suc (nat (code_size (take k P)))"
      using p by (simp add: nat_add_distrib)
    show ?thesis
      using Cons.IH [of k "lc + 1"] Cons.IH [of k lc] Cons.prems Suc n
      by (cases "is_real i") (simp_all add: addr_of_def real_cases(2) algebra_simps)
  qed
qed simp

lemma encode_code_length: "int (length (encode_code syms lc P)) = code_size P"
  by (induction P arbitrary: lc) (simp_all add: real_cases(2))

lemma addr_of_Suc: "j < length P \<Longrightarrow> addr_of P (Suc j) = addr_of P j + (if is_real (P ! j) then 1 else 0)"
  by (simp add: addr_of_def take_Suc_conv_app_nth)

lemma addr_of_bounds: "0 \<le> addr_of P j \<and> addr_of P j \<le> code_size P"
proof -
  have "code_size P = addr_of P j + code_size (drop j P)"
    unfolding addr_of_def by (subst append_take_drop_id [of j P, symmetric]) (simp only: code_size_simps)
  then show ?thesis by (simp add: addr_of_def code_size_def)
qed

end
