(* ===== verification/C_Semantics.thy ===== *)
theory C_Semantics
  imports C_Parser ALU
begin

unbundle bit_operations_syntax

text \<open>
  What a C program means, for the part of the language without memory: functions with local variables
  of 32 bits, all operators on them, and every statement except those on arrays and pointers.
  It is the specification the code generator is compared with, and models no code.  Where C leaves
  the behaviour undefined, there is none: reading a variable before it is set, dividing by zero, the
  quotient that overflows, a shift by more than 31 places, and also a declaration that hides a
  variable.  Addition, subtraction and multiplication wrap; the right shift fills with zeros.
\<close>

section \<open>Expressions\<close>

text \<open>The variables in scope; one that is declared but not yet set has no value.\<close>

type_synonym env = "string \<rightharpoonup> 32 word option"

definition truth :: "bool \<Rightarrow> 32 word" where
  "truth b = (if b then 1 else 0)"

definition c_binop :: "string \<Rightarrow> 32 word \<Rightarrow> 32 word \<Rightarrow> 32 word option" where
  "c_binop op x y =
     (if op = ''+'' then Some (x + y)
      else if op = ''-'' then Some (x - y)
      else if op = ''*'' then Some (x * y)
      else if op = ''/'' then
        (if y = 0 \<or> sint x = - (2 ^ 31) \<and> sint y = - 1 then None else Some (word_of_int (sint x sdiv sint y)))
      else if op = ''%'' then
        (if y = 0 \<or> sint x = - (2 ^ 31) \<and> sint y = - 1 then None else Some (word_of_int (sint x smod sint y)))
      else if op = ''<<'' then (if y < 32 then Some (push_bit (unat y) x) else None)
      else if op = ''>>'' then (if y < 32 then Some (drop_bit (unat y) x) else None)
      else if op = ''&'' then Some (x AND y)
      else if op = ''|'' then Some (x OR y)
      else if op = ''^'' then Some (x XOR y)
      else if op = ''<'' then Some (truth (sint x < sint y))
      else if op = ''>'' then Some (truth (sint x > sint y))
      else if op = ''<='' then Some (truth (sint x \<le> sint y))
      else if op = ''>='' then Some (truth (sint x \<ge> sint y))
      else if op = ''=='' then Some (truth (x = y))
      else if op = ''!='' then Some (truth (x \<noteq> y))
      else None)"

definition c_unop :: "string \<Rightarrow> 32 word \<Rightarrow> 32 word option" where
  "c_unop op x =
     (if op = ''-'' then Some (- x) else if op = ''~'' then Some (NOT x)
      else if op = ''!'' then Some (truth (x = 0)) else None)"

fun c_eval :: "env \<Rightarrow> expr \<Rightarrow> 32 word option" where
  "c_eval env (IntLiteral v _) = Some (word_of_int v)"
| "c_eval env (VarRef n _) = Option.bind (env n) (\<lambda>v. v)"
| "c_eval env (BinOp op a b _) =
     Option.bind (c_eval env a) (\<lambda>x.
       if op = ''&&'' then
         (if x = 0 then Some 0 else map_option (\<lambda>y. truth (y \<noteq> 0)) (c_eval env b))
       else if op = ''||'' then
         (if x \<noteq> 0 then Some 1 else map_option (\<lambda>y. truth (y \<noteq> 0)) (c_eval env b))
       else Option.bind (c_eval env b) (c_binop op x))"
| "c_eval env (UnaryOp op a _) = Option.bind (c_eval env a) (c_unop op)"
| "c_eval env _ = None"

section \<open>Statements\<close>

datatype outcome =
    Normal env
  | Broke env
  | Continued env
  | Returned "32 word option"

text \<open>At the end of a block the variables it declared are gone.\<close>

definition scope :: "env \<Rightarrow> env \<Rightarrow> env" where
  "scope outer env = (\<lambda>x. if outer x = None then None else env x)"

lemma scope_restrict [simp]: "scope outer env = env |` dom outer"
  by (rule ext) (simp add: scope_def restrict_map_def domIff)

fun leave :: "env \<Rightarrow> outcome \<Rightarrow> outcome" where
  "leave outer (Normal env) = Normal (scope outer env)"
| "leave outer (Broke env) = Broke (scope outer env)"
| "leave outer (Continued env) = Continued (scope outer env)"
| "leave outer (Returned v) = Returned v"

definition assign_result :: "string \<Rightarrow> env \<Rightarrow> string \<Rightarrow> 32 word \<Rightarrow> 32 word option" where
  "assign_result op env x v =
     (if op = ''='' then Some v
      else Option.bind (Option.bind (env x) (\<lambda>w. w)) (\<lambda>old. c_binop (butlast op) old v))"

text \<open>No fuel, no result; only a loop uses fuel.\<close>

function (sequential)
  c_exec :: "nat \<Rightarrow> stmt \<Rightarrow> env \<Rightarrow> outcome option"
  and c_execs :: "nat \<Rightarrow> stmt list \<Rightarrow> env \<Rightarrow> outcome option"
  and c_opt :: "nat \<Rightarrow> stmt option \<Rightarrow> env \<Rightarrow> outcome option"
  and c_loop :: "nat \<Rightarrow> expr option \<Rightarrow> stmt list \<Rightarrow> stmt option \<Rightarrow> env \<Rightarrow> outcome option"
where
  "c_exec n (VarDecl x init _ _) env =
     (if env x \<noteq> None then None
      else case init of
             None \<Rightarrow> Some (Normal (env(x \<mapsto> None)))
           | Some e \<Rightarrow> map_option (\<lambda>v. Normal (env(x \<mapsto> Some v))) (c_eval env e))"
| "c_exec n (Assign x op e _) env =
     (if env x = None then None
      else Option.bind (c_eval env e) (\<lambda>v.
             map_option (\<lambda>w. Normal (env(x \<mapsto> Some w))) (assign_result op env x v)))"
| "c_exec n (IfStmt c t e _) env =
     Option.bind (c_eval env c) (\<lambda>v. map_option (leave env) (c_execs n (if v \<noteq> 0 then t else e) env))"
| "c_exec n (WhileStmt c b _) env = c_loop n (Some c) b None env"
| "c_exec n (ForStmt init c u b _) env =
     map_option (leave env) (Option.bind (c_opt n init env) (\<lambda>r.
       case r of Normal env' \<Rightarrow> c_loop n c b u env' | _ \<Rightarrow> None))"
| "c_exec n (ReturnStmt None _) env = Some (Returned None)"
| "c_exec n (ReturnStmt (Some e) _) env = map_option (\<lambda>v. Returned (Some v)) (c_eval env e)"
| "c_exec n (BreakStmt _) env = Some (Broke env)"
| "c_exec n (ContinueStmt _) env = Some (Continued env)"
| "c_exec n (ExprStmt e _) env = map_option (\<lambda>_. Normal env) (c_eval env e)"
| "c_exec n (Block ss _) env = map_option (leave env) (c_execs n ss env)"
| "c_exec n _ env = None"
| "c_execs n [] env = Some (Normal env)"
| "c_execs n (s # ss) env =
     Option.bind (c_exec n s env) (\<lambda>r. case r of Normal env' \<Rightarrow> c_execs n ss env' | _ \<Rightarrow> Some r)"
| "c_opt n None env = Some (Normal env)"
| "c_opt n (Some s) env = c_exec n s env"
| "c_loop 0 c b u env = None"
| "c_loop (Suc n) c b u env =
     Option.bind (case c of None \<Rightarrow> Some 1 | Some e \<Rightarrow> c_eval env e) (\<lambda>v.
       if v = 0 then Some (Normal env)
       else Option.bind (map_option (leave env) (c_execs n b env)) (\<lambda>r.
         case r of
           Returned w \<Rightarrow> Some (Returned w)
         | Broke env' \<Rightarrow> Some (Normal env')
         | Normal env' \<Rightarrow>
             Option.bind (map_option (leave env) (c_opt n u env')) (\<lambda>r'.
               case r' of Normal env'' \<Rightarrow> c_loop n c b u env'' | _ \<Rightarrow> None)
         | Continued env' \<Rightarrow>
             Option.bind (map_option (leave env) (c_opt n u env')) (\<lambda>r'.
               case r' of Normal env'' \<Rightarrow> c_loop n c b u env'' | _ \<Rightarrow> None)))"
  by pat_completeness auto

termination
  by (relation "measures
       [\<lambda>p. case p of Inl (Inl (n, s, env)) \<Rightarrow> n | Inl (Inr (n, ss, env)) \<Rightarrow> n
                    | Inr (Inl (n, os, env)) \<Rightarrow> n | Inr (Inr (n, c, b, u, env)) \<Rightarrow> n,
        \<lambda>p. case p of Inl (Inl (n, s, env)) \<Rightarrow> 2 * size s + 1 | Inl (Inr (n, ss, env)) \<Rightarrow> 2 * size_list size ss
                    | Inr (Inl (n, os, env)) \<Rightarrow> (case os of None \<Rightarrow> 0 | Some s \<Rightarrow> 2 * size s + 2)
                    | Inr (Inr (n, c, b, u, env)) \<Rightarrow> 0]")
    (auto split: option.split)

end
