(* ===== verification/Gen_Code.thy ===== *)
theory Gen_Code
  imports Asm_Layout C_Semantics
begin

unbundle bit_operations_syntax

text \<open>
  The code generator without its text: the same decisions on registers and labels, the instructions as
  data.  It covers expressions over local variables and the statements on them; other syntax
  has no result.  The lemmas show that whenever \<open>gen_expr\<close> and \<open>gen_stmt\<close> succeed on such a
  program, this generator does, with the same registers and labels, and the lines that were emitted hold
  the tokens of its instructions.
\<close>

section \<open>State\<close>

record gs =
  gs_vars :: "(string \<times> int) list"
  gs_next :: int
  gs_cnt :: int

definition gs_of :: "cg \<Rightarrow> gs" where
  "gs_of s = \<lparr>gs_vars = cg_var_reg s, gs_next = cg_next_reg s, gs_cnt = cg_label_cnt s\<rparr>"

definition lbl :: "string \<Rightarrow> int \<Rightarrow> string" where
  "lbl p n = p @ ''_'' @ fmt_dec n"

definition used_labels :: "int \<Rightarrow> gs \<Rightarrow> gs" where
  "used_labels k s = s\<lparr>gs_cnt := gs_cnt s + k\<rparr>"

definition g_temp :: "gs \<Rightarrow> (int \<times> gs) option" where
  "g_temp s =
     (if gs_next s > MAX_REGS then None
      else let reg = (if gs_next s = FLAGS_TMP then gs_next s + 1 else gs_next s)
           in Some (reg, s\<lparr>gs_next := reg + 1\<rparr>))"

definition g_var :: "string \<Rightarrow> gs \<Rightarrow> (int \<times> gs) option" where
  "g_var n s =
     (case map_of (gs_vars s) n of
        Some r \<Rightarrow> Some (r, s)
      | None \<Rightarrow> map_option (\<lambda>(r, s). (r, s\<lparr>gs_vars := AList.update n r (gs_vars s)\<rparr>)) (g_temp s))"

definition g_free :: "gs \<Rightarrow> gs" where
  "g_free s = s\<lparr>gs_next := (if gs_vars s \<noteq> [] then Max (set (map snd (gs_vars s))) + 1 else FIRST_REG)\<rparr>"

section \<open>Expressions\<close>

definition g_imm :: "int \<Rightarrow> int \<Rightarrow> asm_ins list" where
  "g_imm rd v =
     (if - 32768 \<le> v \<and> v \<le> 32767 then [I_Movi rd v]
      else I_Movhi rd (shr v 11 AND 0x1FFFFF) # (if v AND 0xFFFF \<noteq> 0 then [I_Ori rd (v AND 0xFFFF)] else []))"

definition op_code :: "string \<rightharpoonup> opcode" where
  "op_code = [''+'' \<mapsto> Op_ADD, ''-'' \<mapsto> Op_SUB, ''*'' \<mapsto> Op_MUL, ''/'' \<mapsto> Op_DIV, ''%'' \<mapsto> Op_REM,
     ''<<'' \<mapsto> Op_SHL, ''>>'' \<mapsto> Op_SHR, ''&'' \<mapsto> Op_AND, ''|'' \<mapsto> Op_OR, ''^'' \<mapsto> Op_XOR]"

text \<open>A register set to 0 or 1 by a branch to one of two places.\<close>

definition g_choice :: "opcode \<Rightarrow> int \<Rightarrow> string \<Rightarrow> string \<Rightarrow> int \<Rightarrow> asm_ins list" where
  "g_choice opc r lt le rd =
     [I_Br opc r lt, I_Movi rd 0, I_Jmp le, I_Label lt, I_Movi rd 1, I_Label le]"

definition g_op :: "string \<Rightarrow> int \<Rightarrow> int \<Rightarrow> int \<Rightarrow> gs \<Rightarrow> (asm_ins list \<times> gs) option" where
  "g_op op rd rl rr s =
     (case op_code op of
        Some opc \<Rightarrow> Some ([I_Op opc rd rl rr], s)
      | None \<Rightarrow>
          if op = ''<'' then Some ([I_Op Op_SLT rd rl rr], s)
          else if op = ''>'' then Some ([I_Op Op_SLT rd rr rl], s)
          else if op = ''<='' then Some ([I_Op Op_SLT rd rr rl, I_Xori rd], s)
          else if op = ''>='' then Some ([I_Op Op_SLT rd rl rr, I_Xori rd], s)
          else if op \<in> {''=='', ''!=''} then
            Some (I_Op Op_SUB FLAGS_TMP rl rr # g_choice (if op = ''=='' then Op_BEQ else Op_BNE) FLAGS_TMP
                    (lbl ''CMP_T'' (gs_cnt s)) (lbl ''CMP_E'' (gs_cnt s + 1)) rd,
                  used_labels 2 s)
          else None)"

type_synonym 'a g_gen = "gs \<Rightarrow> ('a \<times> asm_ins list \<times> gs) option"

definition g_binop :: "string \<Rightarrow> int g_gen \<Rightarrow> int g_gen \<Rightarrow> int option \<Rightarrow> int g_gen" where
  "g_binop op ga gb dest s =
     Option.bind (ga s) (\<lambda>(rl, fa, s).
       Option.bind (gb s) (\<lambda>(rr, fb, s).
         Option.bind (case dest of Some r \<Rightarrow> Some (r, s) | None \<Rightarrow> g_temp s) (\<lambda>(rd, s).
           map_option (\<lambda>(fo, s). (rd, fa @ fb @ fo, s)) (g_op op rd rl rr s))))"

text \<open>\<^verbatim>\<open>&&\<close> and \<^verbatim>\<open>||\<close>: \<open>opc\<close> leaves for the place that sets \<open>out\<close>, falling through sets \<open>thru\<close>.\<close>

definition g_logical :: "string \<Rightarrow> string \<Rightarrow> opcode \<Rightarrow> int \<Rightarrow> int \<Rightarrow> int g_gen \<Rightarrow> int g_gen \<Rightarrow> int g_gen" where
  "g_logical p q opc thru out ga gb s =
     (let lo = lbl p (gs_cnt s); le = lbl q (gs_cnt s + 1)
      in Option.bind (g_temp (used_labels 2 s)) (\<lambda>(rd, s).
           Option.bind (ga s) (\<lambda>(rl, fa, s).
             map_option (\<lambda>(rr, fb, s).
               (rd, fa @ [I_Br opc rl lo] @ fb @ [I_Br opc rr lo, I_Movi rd thru, I_Jmp le, I_Label lo, I_Movi rd out,
                  I_Label le], s)) (gb s))))"

definition g_unary :: "string \<Rightarrow> int g_gen \<Rightarrow> int g_gen" where
  "g_unary op ga s =
     Option.bind (ga s) (\<lambda>(r, fa, s).
       Option.bind (g_temp s) (\<lambda>(rd, s).
         if op = ''-'' then Some (rd, fa @ [I_Op1 Op_NEG rd r], s)
         else if op = ''~'' then Some (rd, fa @ [I_Op1 Op_NOT rd r], s)
         else if op = ''!'' then
           Some (rd, fa @ g_choice Op_BEQ r (lbl ''NOT_ONE'' (gs_cnt s)) (lbl ''NOT_END'' (gs_cnt s + 1)) rd,
                 used_labels 2 s)
         else None))"

fun g_expr :: "expr \<Rightarrow> int g_gen" where
  "g_expr (IntLiteral v _) s = map_option (\<lambda>(rd, s). (rd, g_imm rd v, s)) (g_temp s)"
| "g_expr (VarRef n _) s = map_option (\<lambda>(r, s). (r, [], s)) (g_var n s)"
| "g_expr (BinOp op a b _) s =
     (if op = ''&&'' then g_logical ''AND_FALSE'' ''AND_END'' Op_BEQ 1 0 (g_expr a) (g_expr b) s
      else if op = ''||'' then g_logical ''OR_TRUE'' ''OR_END'' Op_BNE 0 1 (g_expr a) (g_expr b) s
      else g_binop op (g_expr a) (g_expr b) None s)"
| "g_expr (UnaryOp op a _) s = g_unary op (g_expr a) s"
| "g_expr _ s = None"

section \<open>Statements\<close>

definition g_move :: "int \<Rightarrow> int \<Rightarrow> asm_ins list" where
  "g_move rd r = (if r \<noteq> rd then [I_Op1 Op_MOV rd r] else [])"

definition g_set :: "int \<Rightarrow> expr \<Rightarrow> gs \<Rightarrow> (asm_ins list \<times> gs) option" where
  "g_set reg e s = map_option (\<lambda>(r, f, s). (f @ g_move reg r, s)) (g_expr e s)"

definition g_assign :: "string \<Rightarrow> string \<Rightarrow> expr \<Rightarrow> gs \<Rightarrow> (asm_ins list \<times> gs) option" where
  "g_assign n op e s =
     Option.bind (g_var n s) (\<lambda>(reg, s).
       if op = ''='' then
         (case e of
            BinOp bop l r _ \<Rightarrow>
              if bop \<notin> {''&&'', ''||''}
              then map_option (\<lambda>(_, f, s). (f, s)) (g_binop bop (g_expr l) (g_expr r) (Some reg) s)
              else g_set reg e s
          | _ \<Rightarrow> g_set reg e s)
       else
         Option.bind (g_expr e s) (\<lambda>(r, f, s).
           map_option (\<lambda>opc. (f @ [I_Op opc reg reg r], s)) (op_code (butlast op))))"

definition g_cond :: "expr option \<Rightarrow> string \<Rightarrow> gs \<Rightarrow> (asm_ins list \<times> gs) option" where
  "g_cond c l s =
     (case c of None \<Rightarrow> Some ([], s)
      | Some e \<Rightarrow> map_option (\<lambda>(r, f, s). (f @ [I_Br Op_BEQ r l], s)) (g_expr e s))"

type_synonym stmt_gen = "gs \<Rightarrow> (asm_ins list \<times> gs) option"

text \<open>\<open>stk\<close>: the labels \<^verbatim>\<open>continue\<close> and \<^verbatim>\<open>break\<close> jump to, innermost loop first.\<close>

type_synonym loops = "(string \<times> string) list"

definition g_if :: "expr \<Rightarrow> stmt_gen \<Rightarrow> stmt_gen \<Rightarrow> bool \<Rightarrow> stmt_gen" where
  "g_if c gt ge has_else s =
     (let le = lbl ''ELSE'' (gs_cnt s); ln = lbl ''ENDIF'' (gs_cnt s + 1)
      in Option.bind (g_cond (Some c) le (used_labels 2 s)) (\<lambda>(fc, s).
           Option.bind (gt s) (\<lambda>(ft, s).
             map_option (\<lambda>(fe, s).
               (fc @ ft @ (if has_else then [I_Jmp ln] else []) @ [I_Label le] @ fe @ [I_Label ln], s)) (ge s))))"

definition g_while :: "expr \<Rightarrow> (loops \<Rightarrow> stmt_gen) \<Rightarrow> loops \<Rightarrow> stmt_gen" where
  "g_while c gb stk s =
     (let lt = lbl ''WHILE_TEST'' (gs_cnt s); le = lbl ''WHILE_END'' (gs_cnt s + 1)
      in Option.bind (g_cond (Some c) le (used_labels 2 s)) (\<lambda>(fc, s).
           map_option (\<lambda>(fb, s). ([I_Label lt] @ fc @ fb @ [I_Jmp lt, I_Label le], s)) (gb ((lt, le) # stk) s)))"

definition g_for ::
  "stmt_gen \<Rightarrow> expr option \<Rightarrow> (loops \<Rightarrow> stmt_gen) \<Rightarrow> (loops \<Rightarrow> stmt_gen) \<Rightarrow> loops \<Rightarrow> stmt_gen" where
  "g_for gi c gu gb stk s =
     (let lt = lbl ''FOR_TEST'' (gs_cnt s); lu = lbl ''FOR_UPD'' (gs_cnt s + 1); le = lbl ''FOR_END'' (gs_cnt s + 2)
      in Option.bind (gi (used_labels 3 s)) (\<lambda>(fi, s).
           Option.bind (g_cond c le s) (\<lambda>(fc, s).
             Option.bind (gb ((lu, le) # stk) s) (\<lambda>(fb, s).
               map_option (\<lambda>(fu, s).
                 (fi @ [I_Label lt] @ fc @ fb @ [I_Label lu] @ fu @ [I_Jmp lt, I_Label le], s))
                 (gu ((lu, le) # stk) s)))))"

fun g_stmt :: "stmt \<Rightarrow> loops \<Rightarrow> stmt_gen"
  and g_stmts :: "stmt list \<Rightarrow> loops \<Rightarrow> stmt_gen"
  and g_opt :: "stmt option \<Rightarrow> loops \<Rightarrow> stmt_gen"
where
  "g_stmt (VarDecl n init _ _) stk s =
     Option.bind (g_var n s) (\<lambda>(reg, s).
       map_option (\<lambda>(f, s). (f, g_free s)) (case init of None \<Rightarrow> Some ([], s) | Some e \<Rightarrow> g_set reg e s))"
| "g_stmt (Assign n op e _) stk s = map_option (\<lambda>(f, s). (f, g_free s)) (g_assign n op e s)"
| "g_stmt (IfStmt c t e _) stk s = g_if c (g_stmts t stk) (g_stmts e stk) (e \<noteq> []) s"
| "g_stmt (WhileStmt c b _) stk s = g_while c (g_stmts b) stk s"
| "g_stmt (ForStmt i c u b _) stk s = g_for (g_opt i stk) c (g_opt u) (g_stmts b) stk s"
| "g_stmt (ReturnStmt None _) stk s = Some ([I_Hlt], g_free s)"
| "g_stmt (ReturnStmt (Some e) _) stk s = map_option (\<lambda>(f, s). (f @ [I_Hlt], g_free s)) (g_set 1 e s)"
| "g_stmt (BreakStmt _) stk s = (case stk of [] \<Rightarrow> None | (_, l) # _ \<Rightarrow> Some ([I_Jmp l], s))"
| "g_stmt (ContinueStmt _) stk s = (case stk of [] \<Rightarrow> None | (l, _) # _ \<Rightarrow> Some ([I_Jmp l], s))"
| "g_stmt (ExprStmt e _) stk s = map_option (\<lambda>(_, f, s). (f, g_free s)) (g_expr e s)"
| "g_stmt (Block ss _) stk s = g_stmts ss stk s"
| "g_stmt _ stk s = None"
| "g_stmts [] stk s = Some ([], s)"
| "g_stmts (st # ss) stk s =
     Option.bind (g_stmt st stk s) (\<lambda>(f, s). map_option (\<lambda>(f', s). (f @ f', s)) (g_stmts ss stk s))"
| "g_opt None stk s = Some ([], s)"
| "g_opt (Some st) stk s = g_stmt st stk s"

section \<open>The part of the language\<close>

text \<open>Characters that would end a line of the emitted text do not occur in identifiers.\<close>

definition no_break :: "string \<Rightarrow> bool" where
  "no_break s \<longleftrightarrow> list_all (\<lambda>c. \<not> is_line_break c) s"

text \<open>The literals \<^verbatim>\<open>_emit_load_imm\<close> loads: 16 bits, or a low half that ORI does not extend.\<close>

definition lit_ok :: "int \<Rightarrow> bool" where
  "lit_ok v \<longleftrightarrow> (- 32768 \<le> v \<and> v \<le> 32767) \<or> v AND 0x8000 = 0"

fun plain_expr :: "expr \<Rightarrow> bool" where
  "plain_expr (IntLiteral v _) = lit_ok v"
| "plain_expr (VarRef n _) = no_break n"
| "plain_expr (BinOp op a b _) = (plain_expr a \<and> plain_expr b)"
| "plain_expr (UnaryOp op a _) = (op \<in> {''-'', ''~'', ''!''} \<and> plain_expr a)"
| "plain_expr _ = False"

fun plain_stmt :: "stmt \<Rightarrow> bool" where
  "plain_stmt (VarDecl n init _ _) = (no_break n \<and> (case init of None \<Rightarrow> True | Some e \<Rightarrow> plain_expr e))"
| "plain_stmt (Assign n op e _) = (no_break n \<and> no_break op \<and> plain_expr e)"
| "plain_stmt (IfStmt c t e _) = (plain_expr c \<and> list_all plain_stmt t \<and> list_all plain_stmt e)"
| "plain_stmt (WhileStmt c b _) = (plain_expr c \<and> list_all plain_stmt b)"
| "plain_stmt (ForStmt i c u b _) =
     ((case i of None \<Rightarrow> True | Some s \<Rightarrow> plain_stmt s) \<and> (case c of None \<Rightarrow> True | Some e \<Rightarrow> plain_expr e)
      \<and> (case u of None \<Rightarrow> True | Some s \<Rightarrow> plain_stmt s) \<and> list_all plain_stmt b)"
| "plain_stmt (ReturnStmt e _) = (case e of None \<Rightarrow> True | Some e \<Rightarrow> plain_expr e)"
| "plain_stmt (BreakStmt _) = True"
| "plain_stmt (ContinueStmt _) = True"
| "plain_stmt (ExprStmt e _) = plain_expr e"
| "plain_stmt (Block ss _) = list_all plain_stmt ss"
| "plain_stmt _ = False"

end
