(* ===== verification/Gen_Text.thy ===== *)
theory Gen_Text
  imports Gen_Code
begin

unbundle bit_operations_syntax

text \<open>
  The text generator against the generator of instructions: the tokens of every line that is emitted,
  and the same results, registers and labels for expressions and statements.
\<close>

section \<open>Lines\<close>

lemma no_break_simps [simp]:
  "no_break []" "no_break (c # s) = (\<not> is_line_break c \<and> no_break s)" "no_break (s @ t) = (no_break s \<and> no_break t)"
  by (simp_all add: no_break_def)

lemma break_space: "is_line_break c \<Longrightarrow> is_space c"
  by (auto simp: is_line_break_def is_space_def)

lemma clean_no_break: "clean s \<Longrightarrow> no_break s"
  using break_space by (auto simp: clean_def clean_char_def no_break_def list_all_iff)

lemma reg_text_clean: "clean (reg_text r)"
  unfolding reg_text_def by (rule clean_Cons [OF _ fmt_dec_clean]) (simp add: clean_char_def is_space_def)

lemma clean_append: "clean s \<Longrightarrow> clean t \<Longrightarrow> clean (s @ t)"
  by (simp add: clean_def)

lemma lbl_clean: "clean p \<Longrightarrow> clean (lbl p n)"
  unfolding lbl_def by (intro clean_append fmt_dec_clean) (simp_all add: clean_def clean_char_def is_space_def)

text \<open>A comment behind an instruction.\<close>

lemma cut_at_append: "hd sep \<notin> set s \<Longrightarrow> sep \<noteq> [] \<Longrightarrow> cut_at sep (s @ t) = s @ cut_at sep t"
proof (induction s)
  case (Cons c s)
  then show ?case by (cases sep) auto
qed simp

lemma strip_trailing: "list_all is_space t \<Longrightarrow> py_strip (s @ t) = py_strip s"
proof -
  assume t: "list_all is_space t"
  have r: "lstrip (rev t @ u) = lstrip u" for u
    using t by (simp add: lstrip_def list_all_iff dropWhile_append)
  show ?thesis
  proof (cases "lstrip s = []")
    case True
    then have "list_all is_space s" by (auto simp: lstrip_def dropWhile_eq_Nil_conv list_all_iff)
    then have "lstrip (s @ t) = []" using t by (auto simp: lstrip_def dropWhile_eq_Nil_conv list_all_iff)
    with True show ?thesis by (simp add: py_strip_def)
  next
    case False
    then have "lstrip (s @ t) = lstrip s @ t" unfolding lstrip_def by (auto simp: dropWhile_append)
    then show ?thesis by (simp add: py_strip_def r)
  qed
qed

lemma tok_note:
  assumes "CHR ''/'' \<notin> set b" "CHR '';'' \<notin> set b"
  shows "tokenize_line (b @ semi_note c) = tokenize_line b"
proof -
  have s: "list_all is_space ''  ''" by (simp add: is_space_def)
  have "cut_at ''//'' (b @ semi_note c) = b @ ''  ; '' @ cut_at ''//'' c"
    using assms by (simp add: cut_at_append semi_note_def)
  moreover have "cut_at '';'' (b @ ''  ; '' @ x) = b @ ''  ''" for x
    using assms by (simp add: cut_at_append)
  moreover have "cut_at ''//'' b = b" "cut_at '';'' b = b" using assms by (simp_all add: cut_at_id)
  ultimately show ?thesis
    using strip_trailing [OF s, of b] by (simp add: tokenize_line_def)
qed

lemma tok_comment: "tokenize_line (CHR '';'' # c) = []"
proof -
  have "cut_at '';'' (cut_at ''//'' (CHR '';'' # c)) = []" by simp
  moreover have "py_strip [] = []" by (simp add: py_strip_def lstrip_def)
  ultimately show ?thesis by (simp add: tokenize_line_def)
qed

lemma tok_empty: "tokenize_line [] = []"
  by (simp add: tokenize_line_def py_strip_def lstrip_def)

lemma reg_text_0: "''R0'' = reg_text 0"
  by code_simp

lemma tok_lines:
  "clean m \<Longrightarrow> tokenize_line (ins2 m a b) = [m, reg_text a, reg_text b]"
  "clean m \<Longrightarrow> tokenize_line (ins3 m a b c) = [m, reg_text a, reg_text b, reg_text c]"
  "clean m \<Longrightarrow> clean l \<Longrightarrow> tokenize_line (ins_branch m a l) = [m, reg_text a, reg_text 0, l]"
proof -
  have "'', R0, '' @ l = '', '' @ ''R0'' @ '', '' @ l" by simp
  then have "ins_branch m a l = m @ '' '' @ reg_text a @ '', '' @ ''R0'' @ '', '' @ l"
    by (simp only: ins_branch_def)
  then show "clean m \<Longrightarrow> clean l \<Longrightarrow> tokenize_line (ins_branch m a l) = [m, reg_text a, reg_text 0, l]"
    using tokens_4 [of m "reg_text a" "reg_text 0" l] reg_text_clean by (simp only: reg_text_0)
qed (use tokens_3 tokens_4 reg_text_clean in \<open>simp_all only: ins2_def ins3_def\<close>)

section \<open>What is emitted\<close>

text \<open>From \<open>s\<close> to \<open>s'\<close> the lines of \<open>f\<close> are emitted, and nothing else happens but to registers and labels.\<close>

definition emits :: "cg \<Rightarrow> asm_ins list \<Rightarrow> cg \<Rightarrow> bool" where
  "emits s f s' \<longleftrightarrow>
     (\<exists>new. cg_lines s' = cg_lines s @ new \<and> code_toks new = map toks_of f \<and> list_all no_break new)
     \<and> cg_func s' = cg_func s \<and> cg_loop_stack s' = cg_loop_stack s \<and> cg_globals s' = cg_globals s
     \<and> cg_arrays s' = cg_arrays s \<and> cg_global_next s' = cg_global_next s \<and> cg_strings s' = cg_strings s"

lemma emits_refl: "emits s [] s"
  by (auto simp: emits_def)

lemma emits_trans:
  assumes "emits s f t" "emits t g u"
  shows "emits s (f @ g) u"
proof -
  from assms obtain x y where "cg_lines t = cg_lines s @ x" "code_toks x = map toks_of f" "list_all no_break x"
    "cg_lines u = cg_lines t @ y" "code_toks y = map toks_of g" "list_all no_break y" by (auto simp: emits_def)
  then have "cg_lines u = cg_lines s @ x @ y" "code_toks (x @ y) = map toks_of (f @ g)" "list_all no_break (x @ y)"
    by simp_all
  with assms show ?thesis unfolding emits_def by metis
qed

lemma toks_of_ne [simp]: "toks_of i \<noteq> []"
  by (cases i) simp_all

lemma emits_line: "tokenize_line l = toks_of i \<Longrightarrow> no_break l \<Longrightarrow> emits s [i] (emit l s)"
  by (simp add: emits_def emit_def)

lemma emits_note: "tokenize_line l = [] \<Longrightarrow> no_break l \<Longrightarrow> emits s [] (emit l s)"
  by (simp add: emits_def emit_def)

lemma emits_update:
  "emits (s\<lparr>cg_var_reg := v\<rparr>) f s' = emits s f s'" "emits (s\<lparr>cg_next_reg := n\<rparr>) f s' = emits s f s'"
  "emits (s\<lparr>cg_label_cnt := k\<rparr>) f s' = emits s f s'"
  "emits s f (s'\<lparr>cg_var_reg := v\<rparr>) = emits s f s'" "emits s f (s'\<lparr>cg_next_reg := n\<rparr>) = emits s f s'"
  "emits s f (s'\<lparr>cg_label_cnt := k\<rparr>) = emits s f s'"
  by (simp_all add: emits_def)

lemma gs_of_simps [simp]:
  "gs_of (emit l s) = gs_of s" "gs_vars (gs_of s) = cg_var_reg s" "gs_next (gs_of s) = cg_next_reg s"
  "gs_cnt (gs_of s) = cg_label_cnt s"
  "gs_of (s\<lparr>cg_label_cnt := k\<rparr>) = (gs_of s)\<lparr>gs_cnt := k\<rparr>"
  "gs_of (s\<lparr>cg_next_reg := n\<rparr>) = (gs_of s)\<lparr>gs_next := n\<rparr>"
  "gs_of (s\<lparr>cg_var_reg := v\<rparr>) = (gs_of s)\<lparr>gs_vars := v\<rparr>"
  by (simp_all add: gs_of_def emit_def)

text \<open>A line that is emitted at the end.\<close>

lemma emits_snoc:
  "emits s f t \<Longrightarrow> tokenize_line l = toks_of i \<Longrightarrow> no_break l \<Longrightarrow> emits s (f @ [i]) (emit l t)"
  by (rule emits_trans [OF _ emits_line])

lemma emits_snoc_note: "emits s f t \<Longrightarrow> tokenize_line l = [] \<Longrightarrow> no_break l \<Longrightarrow> emits s f (emit l t)"
  using emits_trans [OF _ emits_note] by fastforce

section \<open>Instructions as they are written\<close>

text \<open>A line that can be followed by a comment.\<close>

definition plain_line :: "string \<Rightarrow> bool" where
  "plain_line b \<longleftrightarrow> CHR ''/'' \<notin> set b \<and> CHR '';'' \<notin> set b \<and> no_break b"

lemma no_break_semi [simp]: "no_break (semi_note n) = no_break n"
  by (simp add: semi_note_def is_line_break_def)

lemma emits_plain:
  assumes "emits s f t" "tokenize_line b = toks_of i" "plain_line b"
  shows "emits s (f @ [i]) (emit b t)" "no_break n \<Longrightarrow> emits s (f @ [i]) (emit (b @ semi_note n) t)"
  using assms by (auto intro!: emits_snoc simp: plain_line_def tok_note)

lemma clean_plain: "clean s \<Longrightarrow> plain_line s"
  using clean_ends [of s] clean_no_break [of s] by (simp add: plain_line_def)

lemma plain_line_append: "plain_line s \<Longrightarrow> plain_line t \<Longrightarrow> plain_line (s @ t)"
  by (simp add: plain_line_def)

lemma plain_chars: "plain_line '' ''" "plain_line '', ''" "plain_line '', R0, ''" "plain_line ''   ''"
  by (simp_all add: plain_line_def is_line_break_def)

lemmas plain_intros = plain_line_append plain_chars clean_plain reg_text_clean opcode_name_clean fmt_dec_clean

lemma emits_op:
  assumes "emits s f t" "m = opcode_name opc"
  shows "emits s (f @ [I_Op opc a b c]) (emit (ins3 m a b c) t)"
    "no_break n \<Longrightarrow> emits s (f @ [I_Op opc a b c]) (emit (ins3 m a b c @ semi_note n) t)"
proof -
  have "tokenize_line (ins3 m a b c) = toks_of (I_Op opc a b c)"
    unfolding assms(2) by (simp only: tok_lines opcode_name_clean toks_of.simps)
  moreover have "plain_line (ins3 m a b c)"
    unfolding ins3_def assms(2) by (intro plain_intros)
  ultimately show "emits s (f @ [I_Op opc a b c]) (emit (ins3 m a b c) t)"
    "no_break n \<Longrightarrow> emits s (f @ [I_Op opc a b c]) (emit (ins3 m a b c @ semi_note n) t)"
    by (rule emits_plain [OF assms(1)])+
qed

lemma emits_op1:
  assumes "emits s f t" "m = opcode_name opc"
  shows "emits s (f @ [I_Op1 opc a b]) (emit (ins2 m a b) t)"
    "no_break n \<Longrightarrow> emits s (f @ [I_Op1 opc a b]) (emit (ins2 m a b @ semi_note n) t)"
proof -
  have "tokenize_line (ins2 m a b) = toks_of (I_Op1 opc a b)"
    unfolding assms(2) by (simp only: tok_lines opcode_name_clean toks_of.simps)
  moreover have "plain_line (ins2 m a b)"
    unfolding ins2_def assms(2) by (intro plain_intros)
  ultimately show "emits s (f @ [I_Op1 opc a b]) (emit (ins2 m a b) t)"
    "no_break n \<Longrightarrow> emits s (f @ [I_Op1 opc a b]) (emit (ins2 m a b @ semi_note n) t)"
    by (rule emits_plain [OF assms(1)])+
qed

lemma emits_br:
  assumes "emits s f t" "m = opcode_name opc" "clean l"
  shows "emits s (f @ [I_Br opc a l]) (emit (ins_branch m a l) t)"
    "no_break n \<Longrightarrow> emits s (f @ [I_Br opc a l]) (emit (ins_branch m a l @ semi_note n) t)"
proof -
  have "tokenize_line (ins_branch m a l) = toks_of (I_Br opc a l)"
    using assms(3) unfolding assms(2) by (simp only: tok_lines opcode_name_clean toks_of.simps)
  moreover have "plain_line (ins_branch m a l)"
    using assms(3) unfolding ins_branch_def assms(2) by (intro plain_intros)
  ultimately show "emits s (f @ [I_Br opc a l]) (emit (ins_branch m a l) t)"
    "no_break n \<Longrightarrow> emits s (f @ [I_Br opc a l]) (emit (ins_branch m a l @ semi_note n) t)"
    by (rule emits_plain [OF assms(1)])+
qed

lemma emits_jmp:
  assumes "emits s f t" "clean l"
  shows "emits s (f @ [I_Jmp l]) (emit (''JMP '' @ l) t)"
    "no_break n \<Longrightarrow> emits s (f @ [I_Jmp l]) (emit (''JMP '' @ l @ semi_note n) t)"
proof -
  have e: "''JMP '' @ l = opcode_name Op_JMP @ '' '' @ l" by simp
  have "tokenize_line (''JMP '' @ l) = toks_of (I_Jmp l)"
    unfolding e toks_of.simps by (rule tokens_2 [OF opcode_name_clean assms(2)])
  moreover have "plain_line (''JMP '' @ l)"
    using assms(2) unfolding e by (intro plain_intros)
  ultimately show "emits s (f @ [I_Jmp l]) (emit (''JMP '' @ l) t)"
    "no_break n \<Longrightarrow> emits s (f @ [I_Jmp l]) (emit (''JMP '' @ l @ semi_note n) t)"
    using emits_plain [OF assms(1), of "''JMP '' @ l"] by simp_all
qed

lemma emits_label:
  assumes "emits s f t" "clean l"
  shows "emits s (f @ [I_Label l]) (emit (l @ '':'') t)"
proof -
  have "clean (l @ '':'')" using assms(2) by (intro clean_append) (simp_all add: clean_def clean_char_def is_space_def)
  then show ?thesis
    using emits_plain(1) [OF assms(1) _ clean_plain, of "l @ '':''" "I_Label l"] by (simp add: tokens_1)
qed

lemma emits_movi:
  assumes "emits s f t"
  shows "emits s (f @ [I_Movi d v]) (emit (''MOVI '' @ reg_text d @ '', '' @ fmt_dec v) t)"
    "no_break n \<Longrightarrow> emits s (f @ [I_Movi d v]) (emit (''MOVI '' @ reg_text d @ '', '' @ fmt_dec v @ semi_note n) t)"
proof -
  have e: "''MOVI '' @ x = opcode_name Op_MOVI @ '' '' @ x" for x by simp
  have "tokenize_line (''MOVI '' @ reg_text d @ '', '' @ fmt_dec v) = toks_of (I_Movi d v)"
    unfolding e toks_of.simps by (rule tokens_3 [OF opcode_name_clean reg_text_clean fmt_dec_clean])
  moreover have "plain_line (''MOVI '' @ reg_text d @ '', '' @ fmt_dec v)"
    unfolding e by (intro plain_intros)
  ultimately show "emits s (f @ [I_Movi d v]) (emit (''MOVI '' @ reg_text d @ '', '' @ fmt_dec v) t)"
    "no_break n \<Longrightarrow> emits s (f @ [I_Movi d v]) (emit (''MOVI '' @ reg_text d @ '', '' @ fmt_dec v @ semi_note n) t)"
    using emits_plain [OF assms, of "''MOVI '' @ reg_text d @ '', '' @ fmt_dec v"] by simp_all
qed

lemma emits_bit:
  assumes "emits s f t"
  shows "emits s (f @ [I_Movi d 0]) (emit (''MOVI '' @ reg_text d @ '', 0'') t)"
    "emits s (f @ [I_Movi d 1]) (emit (''MOVI '' @ reg_text d @ '', 1'') t)"
proof -
  have "fmt_dec 0 = ''0''" "fmt_dec 1 = ''1''" by code_simp+
  then show "emits s (f @ [I_Movi d 0]) (emit (''MOVI '' @ reg_text d @ '', 0'') t)"
    "emits s (f @ [I_Movi d 1]) (emit (''MOVI '' @ reg_text d @ '', 1'') t)"
    using emits_movi(1) [OF assms, of d 0] emits_movi(1) [OF assms, of d 1] by simp_all
qed

lemma emits_xori:
  assumes "emits s f t"
  shows "emits s (f @ [I_Xori d]) (emit (xori_1 d) t)"
proof -
  have o: "fmt_dec 1 = ''1''" by code_simp
  have e: "xori_1 d = opcode_name Op_XORI @ '' '' @ reg_text d @ '', '' @ reg_text d @ '', '' @ fmt_dec 1"
    by (simp add: xori_1_def o)
  have "tokenize_line (xori_1 d) = toks_of (I_Xori d)"
    unfolding e toks_of.simps by (rule tokens_4 [OF opcode_name_clean reg_text_clean reg_text_clean fmt_dec_clean])
  moreover have "plain_line (xori_1 d)"
    unfolding e by (intro plain_intros)
  ultimately show ?thesis by (rule emits_plain(1) [OF assms])
qed

lemma emits_hlt: "emits s f t \<Longrightarrow> emits s (f @ [I_Hlt]) (emit ''HLT'' t)"
proof -
  assume "emits s f t"
  moreover have "clean ''HLT''" by (simp add: clean_def clean_char_def is_space_def)
  ultimately show ?thesis
    using emits_plain(1) [of s f t "''HLT''" I_Hlt] clean_plain tokens_1 by simp
qed

lemma no_break_parts [simp]: "no_break (reg_text r)" "no_break (fmt_dec v)"
  by (rule clean_no_break [OF reg_text_clean], rule clean_no_break [OF fmt_dec_clean])

lemma emits_imm:
  assumes "emits s f t" "no_break n"
  shows "emits s (f @ g_imm d v) (emit_load_imm d v n t)"
proof (cases "- 32768 \<le> v \<and> v \<le> 32767")
  case True
  then show ?thesis
    using emits_movi(1) [OF assms(1), of d v] emits_movi(2) [OF assms(1), of n d v] assms(2) by (simp add: emit_load_imm_def g_imm_def)
next
  case False
  let ?u = "shr v 11 AND 0x1FFFFF" and ?w = "v AND 0xFFFF"
  have h: "clean (''0x'' @ fmt_hex 5 ?u)" "clean (''0x'' @ fmt_hex 4 ?w)" by (intro fmt_hex_clean; simp)+
  have e1: "''MOVHI '' @ reg_text d @ '', 0x'' @ fmt_hex 5 ?u = opcode_name Op_MOVHI @ '' '' @ reg_text d @ '', '' @ ''0x'' @ fmt_hex 5 ?u"
    by simp
  have t1: "tokenize_line (''MOVHI '' @ reg_text d @ '', 0x'' @ fmt_hex 5 ?u) = toks_of (I_Movhi d ?u)"
    unfolding e1 toks_of.simps by (rule tokens_3 [OF opcode_name_clean reg_text_clean h(1)])
  have p1: "plain_line (''MOVHI '' @ reg_text d @ '', 0x'' @ fmt_hex 5 ?u)"
    unfolding e1 using h(1) by (intro plain_intros)
  define t' where "t' = emit (''MOVHI '' @ reg_text d @ '', 0x'' @ fmt_hex 5 ?u @ (if n \<noteq> [] then semi_note n else [])) t"
  have m: "emits s (f @ [I_Movhi d ?u]) t'"
    using emits_plain [OF assms(1) t1 p1] assms(2) by (simp add: t'_def)
  have o3: "tokenize_line (m @ ''   '' @ a @ '', '' @ b @ '', '' @ c) = [m, a, b, c]"
    if "clean m" "clean a" "clean b" "clean c" for m a b c
    using clean_ends [OF that(1)] clean_ends [OF that(2)] clean_ends [OF that(3)] clean_ends [OF that(4)] that
    by (simp add: token_simps)
  have e2: "''ORI   '' @ reg_text d @ '', '' @ reg_text d @ '', 0x'' @ fmt_hex 4 ?w
      = opcode_name Op_ORI @ ''   '' @ reg_text d @ '', '' @ reg_text d @ '', '' @ ''0x'' @ fmt_hex 4 ?w"
    by simp
  have t2: "tokenize_line (''ORI   '' @ reg_text d @ '', '' @ reg_text d @ '', 0x'' @ fmt_hex 4 ?w) = toks_of (I_Ori d ?w)"
    unfolding e2 toks_of.simps by (rule o3 [OF opcode_name_clean reg_text_clean reg_text_clean h(2)])
  have p2: "plain_line (''ORI   '' @ reg_text d @ '', '' @ reg_text d @ '', 0x'' @ fmt_hex 4 ?w)"
    unfolding e2 using h(2) by (intro plain_intros)
  show ?thesis
    using m emits_plain(1) [OF m t2 p2] False by (auto simp: emit_load_imm_def g_imm_def t'_def Let_def)
qed

end
