(* ===== verification/Gen_Exprs.thy ===== *)
theory Gen_Exprs
  imports Gen_Text
begin

unbundle bit_operations_syntax

text \<open>
  \<open>gen_expr\<close> against \<open>g_expr\<close>: where the first succeeds on an expression of the part of the language
  considered, without global variables, the second gives the same registers and labels, and the
  instructions that were emitted.
\<close>

section \<open>Registers and labels\<close>

definition refines :: "'a gen \<Rightarrow> 'a g_gen \<Rightarrow> bool" where
  "refines m g \<longleftrightarrow> (\<forall>s r s'. cg_globals s = [] \<longrightarrow> m s = Inr (r, s') \<longrightarrow>
     (\<exists>f. g (gs_of s) = Some (r, f, gs_of s') \<and> emits s f s'))"

lemma refinesD: "refines m g \<Longrightarrow> cg_globals s = [] \<Longrightarrow> m s = Inr (r, s') \<Longrightarrow>
    \<exists>f. g (gs_of s) = Some (r, f, gs_of s') \<and> emits s f s'"
  by (simp add: refines_def)

lemma refinesI: "(\<And>s r s'. cg_globals s = [] \<Longrightarrow> m s = Inr (r, s') \<Longrightarrow>
    \<exists>f. g (gs_of s) = Some (r, f, gs_of s') \<and> emits s f s') \<Longrightarrow> refines m g"
  by (simp add: refines_def)

lemma emits_globals: "emits s f s' \<Longrightarrow> cg_globals s' = cg_globals s"
  by (simp add: emits_def)

lemma temp_refines:
  "alloc_temp line s = Inr (r, s') \<Longrightarrow> g_temp (gs_of s) = Some (r, gs_of s') \<and> emits s [] s'"
  by (auto simp: alloc_temp_def g_temp_def Let_def emits_update emits_refl split: if_splits)

lemma var_refines:
  assumes "get_or_alloc_var n line s = Inr (r, s')" "no_break n"
  shows "g_var n (gs_of s) = Some (r, gs_of s') \<and> emits s [] s'"
proof (cases "map_of (cg_var_reg s) n")
  case None
  have "tokenize_line (''; var '' @ n @ '' '' @ arrow @ '' R'' @ fmt_dec r) = []"
    by (simp add: tok_comment)
  moreover have "no_break (''; var '' @ n @ '' '' @ arrow @ '' R'' @ fmt_dec r)"
    using assms(2) by (simp add: is_line_break_def arrow_def)
  ultimately have "emits s [] (emit (''; var '' @ n @ '' '' @ arrow @ '' R'' @ fmt_dec r) t)" if "emits s [] t" for t
    by (intro emits_snoc_note that)
  then show ?thesis
    using assms(1) None
    by (auto simp: get_or_alloc_var_def alloc_var_def g_var_def g_temp_def Let_def emits_update emits_refl
        simp del: append_Cons split: if_splits)
qed (use assms(1) in \<open>simp add: get_or_alloc_var_def g_var_def emits_refl\<close>)

lemma new_label_lbl: "new_label p s = (lbl p (cg_label_cnt s), s\<lparr>cg_label_cnt := cg_label_cnt s + 1\<rparr>)"
  by (simp add: new_label_def lbl_def)

lemma gs_used: "gs_of (s\<lparr>cg_label_cnt := cg_label_cnt s + k\<rparr>) = used_labels k (gs_of s)"
  by (simp add: used_labels_def)

lemma prefix_clean:
  "list_all clean [''CMP_T'', ''CMP_E'', ''AND_FALSE'', ''AND_END'', ''OR_TRUE'', ''OR_END'', ''NOT_ONE'', ''NOT_END'',
     ''ELSE'', ''ENDIF'', ''WHILE_TEST'', ''WHILE_END'', ''FOR_TEST'', ''FOR_UPD'', ''FOR_END'']"
  by code_simp

lemma label_clean [simp]:
  "clean (lbl ''CMP_T'' n)" "clean (lbl ''CMP_E'' n)" "clean (lbl ''AND_FALSE'' n)" "clean (lbl ''AND_END'' n)"
  "clean (lbl ''OR_TRUE'' n)" "clean (lbl ''OR_END'' n)" "clean (lbl ''NOT_ONE'' n)" "clean (lbl ''NOT_END'' n)"
  "clean (lbl ''ELSE'' n)" "clean (lbl ''ENDIF'' n)" "clean (lbl ''WHILE_TEST'' n)" "clean (lbl ''WHILE_END'' n)"
  "clean (lbl ''FOR_TEST'' n)" "clean (lbl ''FOR_UPD'' n)" "clean (lbl ''FOR_END'' n)"
  using prefix_clean by (simp_all add: lbl_clean)

section \<open>Operators\<close>

lemma OP_MAP_code:
  assumes "OP_MAP op = Some m"
  obtains opc where "op_code op = Some opc" "m = opcode_name opc" "no_break op"
  using assms by (auto simp: OP_MAP_def op_code_def is_line_break_def split: if_splits)

lemma OP_MAP_None: "OP_MAP op = None \<Longrightarrow> op_code op = None"
  by (auto simp: OP_MAP_def op_code_def split: if_splits)

lemma emits_choice:
  assumes "emits s f t" "m = opcode_name opc" "clean lt" "clean le"
  shows "emits s (f @ g_choice opc r lt le rd)
    (emit (le @ '':'') (emit (''MOVI '' @ reg_text rd @ '', 1'') (emit (lt @ '':'') (emit (''JMP '' @ le)
      (emit (''MOVI '' @ reg_text rd @ '', 0'') (emit (ins_branch m r lt) t))))))"
proof -
  have e: "f @ g_choice opc r lt le rd = (((((f @ [I_Br opc r lt]) @ [I_Movi rd 0]) @ [I_Jmp le]) @ [I_Label lt]) @ [I_Movi rd 1])
      @ [I_Label le]"
    by (simp add: g_choice_def)
  show ?thesis
    unfolding e by (intro emits_label emits_bit emits_jmp(1) emits_br(1) assms)
qed

lemma equality_refines:
  assumes "op \<in> {''=='', ''!=''}" "emits s f t"
  shows "g_op op rd rl rr (gs_of t) =
      Some (I_Op Op_SUB FLAGS_TMP rl rr # g_choice (if op = ''=='' then Op_BEQ else Op_BNE) FLAGS_TMP
        (lbl ''CMP_T'' (cg_label_cnt t)) (lbl ''CMP_E'' (cg_label_cnt t + 1)) rd, gs_of (gen_equality op rd rl rr t))"
    and "emits s (f @ I_Op Op_SUB FLAGS_TMP rl rr # g_choice (if op = ''=='' then Op_BEQ else Op_BNE) FLAGS_TMP
        (lbl ''CMP_T'' (cg_label_cnt t)) (lbl ''CMP_E'' (cg_label_cnt t + 1)) rd) (gen_equality op rd rl rr t)"
proof -
  have o: "op_code op = None" using assms(1) by (auto simp: op_code_def)
  show "g_op op rd rl rr (gs_of t) =
      Some (I_Op Op_SUB FLAGS_TMP rl rr # g_choice (if op = ''=='' then Op_BEQ else Op_BNE) FLAGS_TMP
        (lbl ''CMP_T'' (cg_label_cnt t)) (lbl ''CMP_E'' (cg_label_cnt t + 1)) rd, gs_of (gen_equality op rd rl rr t))"
    using assms(1) o by (auto simp: g_op_def gen_equality_def new_label_lbl Let_def used_labels_def)
  let ?t = "t\<lparr>cg_label_cnt := cg_label_cnt t + 1 + 1\<rparr>"
  have "emits s (f @ [I_Op Op_SUB FLAGS_TMP rl rr]) (emit (ins3 ''SUB'' FLAGS_TMP rl rr) ?t)"
    using assms(2) by (intro emits_op(1)) (simp_all add: emits_update)
  from emits_choice [OF this refl, of "lbl ''CMP_T'' (cg_label_cnt t)" "lbl ''CMP_E'' (cg_label_cnt t + 1)"
      "if op = ''=='' then Op_BEQ else Op_BNE" FLAGS_TMP rd]
  show "emits s (f @ I_Op Op_SUB FLAGS_TMP rl rr # g_choice (if op = ''=='' then Op_BEQ else Op_BNE) FLAGS_TMP
        (lbl ''CMP_T'' (cg_label_cnt t)) (lbl ''CMP_E'' (cg_label_cnt t + 1)) rd) (gen_equality op rd rl rr t)"
    by (auto simp: gen_equality_def new_label_lbl Let_def split: if_splits)
qed

text \<open>The end of a binary operation, when its operands are in \<open>rl\<close> and \<open>rr\<close>.\<close>

definition op_end :: "string \<Rightarrow> nat \<Rightarrow> int \<Rightarrow> int \<Rightarrow> int \<Rightarrow> int gen" where
  "op_end op line rd rl rr s =
     (case OP_MAP op of
        Some m \<Rightarrow> Inr (rd, emit (ins3 m rd rl rr @ semi_note op) s)
      | None \<Rightarrow>
          if op = ''<'' then Inr (rd, emit (ins3 ''SLT'' rd rl rr) s)
          else if op = ''>'' then Inr (rd, emit (ins3 ''SLT'' rd rr rl) s)
          else if op = ''<='' then
            Inr (rd, emit (xori_1 rd)
              (emit (ins3 ''SLT'' rd rr rl @ semi_note (''NOT (rr < rl) '' @ both_arrow @ '' rl <= rr'')) s))
          else if op = ''>='' then
            Inr (rd, emit (xori_1 rd)
              (emit (ins3 ''SLT'' rd rl rr @ semi_note (''NOT (rl < rr) '' @ both_arrow @ '' rl >= rr'')) s))
          else if op \<in> {''=='', ''!=''} then Inr (rd, gen_equality op rd rl rr s)
          else Inl (CompileError (Bad_Operator op) line))"

lemma op_end_refines:
  assumes "op_end op line rd rl rr t = Inr (r, s')" "emits s f t"
  shows "r = rd \<and> (\<exists>fo. g_op op rd rl rr (gs_of t) = Some (fo, gs_of s') \<and> emits s (f @ fo) s')"
proof (cases "OP_MAP op")
  case (Some m)
  then obtain opc where o: "op_code op = Some opc" "m = opcode_name opc" "no_break op" by (rule OP_MAP_code)
  show ?thesis
    using assms(1) Some o emits_op(2) [OF assms(2) o(2,3), of rd rl rr] by (auto simp: op_end_def g_op_def)
next
  case None
  have slt: "''SLT'' = opcode_name Op_SLT" by simp
  have n: "no_break (''NOT (rr < rl) '' @ both_arrow @ '' rl <= rr'')" "no_break (''NOT (rl < rr) '' @ both_arrow @ '' rl >= rr'')"
    by (simp_all add: both_arrow_def is_line_break_def)
  note o = OP_MAP_None [OF None]
  consider (lt) "op = ''<''" | (gt) "op = ''>''" | (le) "op = ''<=''" | (ge) "op = ''>=''"
    | (eq) "op \<in> {''=='', ''!=''}" | (bad) "op \<notin> {''<'', ''>'', ''<='', ''>='', ''=='', ''!=''}"
    by blast
  then show ?thesis
  proof cases
    case eq
    then show ?thesis
      using assms(1) None equality_refines [OF eq assms(2), where rd = rd and rl = rl and rr = rr] by (auto simp: op_end_def)
  next
    case bad
    then show ?thesis using assms(1) None by (simp add: op_end_def)
  next
    case le
    with emits_xori [OF emits_op(2) [OF assms(2) slt n(1), of rd rr rl], of rd] show ?thesis
      using assms(1) None o by (auto simp: op_end_def g_op_def)
  next
    case ge
    with emits_xori [OF emits_op(2) [OF assms(2) slt n(2), of rd rl rr], of rd] show ?thesis
      using assms(1) None o by (auto simp: op_end_def g_op_def)
  qed (use assms(1) None o emits_op(1) [OF assms(2) slt] in \<open>auto simp: op_end_def g_op_def\<close>)
qed

lemma binop_refines:
  assumes "refines ga A" "refines gb B"
  shows "refines (gen_binop_into op ga gb line dest) (g_binop op A B dest)"
proof (rule refinesI)
  fix s r s'
  assume s: "cg_globals s = []" and g: "gen_binop_into op ga gb line dest s = Inr (r, s')"
  obtain rl s1 rr s2 rd s3 where e: "ga s = Inr (rl, s1)" "gb s1 = Inr (rr, s2)"
    "(case dest of Some r \<Rightarrow> Inr (r, s2) | None \<Rightarrow> alloc_temp line s2) = Inr (rd, s3)" "op_end op line rd rl rr s3 = Inr (r, s')"
    using g by (auto simp: gen_binop_into_def op_end_def ebind_Inr_iff)
  obtain fa where a: "A (gs_of s) = Some (rl, fa, gs_of s1)" "emits s fa s1"
    using refinesD [OF assms(1) s e(1)] by blast
  then have s1: "cg_globals s1 = []" using s by (simp add: emits_globals)
  obtain fb where b: "B (gs_of s1) = Some (rr, fb, gs_of s2)" "emits s1 fb s2"
    using refinesD [OF assms(2) s1 e(2)] by blast
  have d: "(case dest of Some r \<Rightarrow> Some (r, gs_of s2) | None \<Rightarrow> g_temp (gs_of s2)) = Some (rd, gs_of s3) \<and> emits s2 [] s3"
    using e(3) temp_refines by (cases dest) (auto simp: emits_refl)
  have "emits s ((fa @ fb) @ []) s3" using a(2) b(2) d by (blast intro: emits_trans)
  then obtain fo where "r = rd" "g_op op rd rl rr (gs_of s3) = Some (fo, gs_of s')" "emits s ((fa @ fb) @ fo) s'"
    using op_end_refines [OF e(4)] by fastforce
  then show "\<exists>f. g_binop op A B dest (gs_of s) = Some (r, f, gs_of s') \<and> emits s f s'"
    using a(1) b(1) d by (auto simp: g_binop_def)
qed

lemma emits_tail:
  assumes "emits s f t" "m = opcode_name opc" "clean lo" "clean le"
  shows "emits s (f @ [I_Br opc r lo, I_Movi rd 1, I_Jmp le, I_Label lo, I_Movi rd 0, I_Label le])
      (emit (le @ '':'') (emit (''MOVI '' @ reg_text rd @ '', 0'') (emit (lo @ '':'') (emit (''JMP '' @ le)
        (emit (''MOVI '' @ reg_text rd @ '', 1'') (emit (ins_branch m r lo) t))))))"
    and "emits s (f @ [I_Br opc r lo, I_Movi rd 0, I_Jmp le, I_Label lo, I_Movi rd 1, I_Label le])
      (emit (le @ '':'') (emit (''MOVI '' @ reg_text rd @ '', 1'') (emit (lo @ '':'') (emit (''JMP '' @ le)
        (emit (''MOVI '' @ reg_text rd @ '', 0'') (emit (ins_branch m r lo) t))))))"
proof -
  have e: "f @ [a, b, c, d, g, h] = (((((f @ [a]) @ [b]) @ [c]) @ [d]) @ [g]) @ [h]" for a b c d g h :: asm_ins
    by simp
  show "emits s (f @ [I_Br opc r lo, I_Movi rd 1, I_Jmp le, I_Label lo, I_Movi rd 0, I_Label le])
      (emit (le @ '':'') (emit (''MOVI '' @ reg_text rd @ '', 0'') (emit (lo @ '':'') (emit (''JMP '' @ le)
        (emit (''MOVI '' @ reg_text rd @ '', 1'') (emit (ins_branch m r lo) t))))))"
    "emits s (f @ [I_Br opc r lo, I_Movi rd 0, I_Jmp le, I_Label lo, I_Movi rd 1, I_Label le])
      (emit (le @ '':'') (emit (''MOVI '' @ reg_text rd @ '', 1'') (emit (lo @ '':'') (emit (''JMP '' @ le)
        (emit (''MOVI '' @ reg_text rd @ '', 0'') (emit (ins_branch m r lo) t))))))"
    unfolding e by (intro emits_label emits_bit emits_jmp(1) emits_br(1) assms)+
qed

text \<open>The first half of \<^verbatim>\<open>&&\<close> and \<^verbatim>\<open>||\<close>: labels, the result register, the left operand and its branch.\<close>

lemma logical_refines:
  assumes ga: "refines ga A" and gb: "refines gb B" and s: "cg_globals s = []"
    and m: "m = opcode_name opc" and c: "\<And>n. clean (lbl p n)" and n: "no_break note"
    and e: "alloc_temp line (s\<lparr>cg_label_cnt := cg_label_cnt s + 1 + 1\<rparr>) = Inr (rd, s1)" "ga s1 = Inr (rl, s2)"
      "gb (emit (ins_branch m rl (lbl p (cg_label_cnt s)) @ semi_note note) s2) = Inr (rr, s3)"
  shows "\<exists>fa fb. g_logical p q opc thru out A B (gs_of s) = Some (rd, (fa @ [I_Br opc rl (lbl p (cg_label_cnt s))] @ fb)
      @ [I_Br opc rr (lbl p (cg_label_cnt s)), I_Movi rd thru, I_Jmp (lbl q (cg_label_cnt s + 1)),
         I_Label (lbl p (cg_label_cnt s)), I_Movi rd out, I_Label (lbl q (cg_label_cnt s + 1))], gs_of s3)
    \<and> emits s (fa @ [I_Br opc rl (lbl p (cg_label_cnt s))] @ fb) s3"
proof -
  have t: "g_temp (used_labels 2 (gs_of s)) = Some (rd, gs_of s1)" "emits s [] s1"
    using temp_refines [OF e(1)] by (simp_all add: used_labels_def emits_update add.commute)
  have s1: "cg_globals s1 = []" using s t(2) by (simp add: emits_globals)
  obtain fa where a: "A (gs_of s1) = Some (rl, fa, gs_of s2)" "emits s1 fa s2"
    using refinesD [OF ga s1 e(2)] by blast
  let ?s = "emit (ins_branch m rl (lbl p (cg_label_cnt s)) @ semi_note note) s2"
  have l: "emits s1 (fa @ [I_Br opc rl (lbl p (cg_label_cnt s))]) ?s"
    by (rule emits_br(2) [OF a(2) m c n])
  then have s2: "cg_globals ?s = []" using s1 by (simp add: emits_globals)
  obtain fb where b: "B (gs_of s2) = Some (rr, fb, gs_of s3)" "emits ?s fb s3"
    using refinesD [OF gb s2 e(3)] by auto
  have "emits s (fa @ [I_Br opc rl (lbl p (cg_label_cnt s))] @ fb) s3"
    using emits_trans [OF t(2) emits_trans [OF l b(2)]] by simp
  then show ?thesis
    using t(1) a(1) b(1) by (auto simp: g_logical_def Let_def)
qed

lemma and_refines:
  assumes "refines ga A" "refines gb B"
  shows "refines (gen_logical_and ga gb line) (g_logical ''AND_FALSE'' ''AND_END'' Op_BEQ 1 0 A B)"
proof (rule refinesI)
  fix s r s'
  assume s: "cg_globals s = []" and g: "gen_logical_and ga gb line s = Inr (r, s')"
  let ?lo = "lbl ''AND_FALSE'' (cg_label_cnt s)" and ?le = "lbl ''AND_END'' (cg_label_cnt s + 1)"
  obtain s1 rl s2 rr s3 where e: "alloc_temp line (s\<lparr>cg_label_cnt := cg_label_cnt s + 1 + 1\<rparr>) = Inr (r, s1)"
    "ga s1 = Inr (rl, s2)" "gb (emit (ins_branch ''BEQ'' rl ?lo @ semi_note ''&& short-circuit'') s2) = Inr (rr, s3)"
    and s': "s' = emit (?le @ '':'') (emit (''MOVI '' @ reg_text r @ '', 0'') (emit (?lo @ '':'') (emit (''JMP '' @ ?le)
        (emit (''MOVI '' @ reg_text r @ '', 1'') (emit (ins_branch ''BEQ'' rr ?lo) s3)))))"
    using g by (auto simp: gen_logical_and_def new_label_lbl Let_def ebind_Inr_iff)
  have m: "''BEQ'' = opcode_name Op_BEQ" "no_break ''&& short-circuit''" by (simp_all add: is_line_break_def)
  from logical_refines [OF assms s m(1) _ m(2) e, of "''AND_END''" 1 0] emits_tail(1) [OF _ m(1)] show
    "\<exists>f. g_logical ''AND_FALSE'' ''AND_END'' Op_BEQ 1 0 A B (gs_of s) = Some (r, f, gs_of s') \<and> emits s f s'"
    unfolding s' by fastforce
qed

lemma or_refines:
  assumes "refines ga A" "refines gb B"
  shows "refines (gen_logical_or ga gb line) (g_logical ''OR_TRUE'' ''OR_END'' Op_BNE 0 1 A B)"
proof (rule refinesI)
  fix s r s'
  assume s: "cg_globals s = []" and g: "gen_logical_or ga gb line s = Inr (r, s')"
  let ?lo = "lbl ''OR_TRUE'' (cg_label_cnt s)" and ?le = "lbl ''OR_END'' (cg_label_cnt s + 1)"
  obtain s1 rl s2 rr s3 where e: "alloc_temp line (s\<lparr>cg_label_cnt := cg_label_cnt s + 1 + 1\<rparr>) = Inr (r, s1)"
    "ga s1 = Inr (rl, s2)" "gb (emit (ins_branch ''BNE'' rl ?lo @ semi_note ''|| short-circuit'') s2) = Inr (rr, s3)"
    and s': "s' = emit (?le @ '':'') (emit (''MOVI '' @ reg_text r @ '', 1'') (emit (?lo @ '':'') (emit (''JMP '' @ ?le)
        (emit (''MOVI '' @ reg_text r @ '', 0'') (emit (ins_branch ''BNE'' rr ?lo) s3)))))"
    using g by (auto simp: gen_logical_or_def new_label_lbl Let_def ebind_Inr_iff)
  have m: "''BNE'' = opcode_name Op_BNE" "no_break ''|| short-circuit''" by (simp_all add: is_line_break_def)
  from logical_refines [OF assms s m(1) _ m(2) e, of "''OR_END''" 0 1] emits_tail(2) [OF _ m(1)] show
    "\<exists>f. g_logical ''OR_TRUE'' ''OR_END'' Op_BNE 0 1 A B (gs_of s) = Some (r, f, gs_of s') \<and> emits s f s'"
    unfolding s' by fastforce
qed

lemma unary_refines:
  assumes ga: "refines ga A" and op: "op \<in> {''-'', ''~'', ''!''}"
  shows "refines (gen_unary op ga line) (g_unary op A)"
proof (rule refinesI)
  fix s r s'
  assume s: "cg_globals s = []" and g: "gen_unary op ga line s = Inr (r, s')"
  obtain ra s1 rd s2 where e: "ga s = Inr (ra, s1)" "alloc_temp line s1 = Inr (rd, s2)"
    using g by (auto simp: gen_unary_def ebind_Inr_iff)
  obtain fa where a: "A (gs_of s) = Some (ra, fa, gs_of s1)" "emits s fa s1"
    using refinesD [OF ga s e(1)] by blast
  note t = temp_refines [OF e(2)]
  have f: "emits s fa s2" using emits_trans [OF a(2), of "[]" s2] t by simp
  have m: "''NEG'' = opcode_name Op_NEG" "''NOT'' = opcode_name Op_NOT" "''BEQ'' = opcode_name Op_BEQ" by simp_all
  show "\<exists>f. g_unary op A (gs_of s) = Some (r, f, gs_of s') \<and> emits s f s'"
  proof (cases "op = ''!''")
    case True
    let ?t = "s2\<lparr>cg_label_cnt := cg_label_cnt s2 + 1 + 1\<rparr>"
    have "emits s fa ?t" using f by (simp add: emits_update)
    from emits_choice [OF this m(3), of "lbl ''NOT_ONE'' (cg_label_cnt s2)" "lbl ''NOT_END'' (cg_label_cnt s2 + 1)" ra rd]
    show ?thesis
      using True g e a(1) t by (auto simp: gen_unary_def g_unary_def new_label_lbl Let_def ebind_Inr_iff used_labels_def)
  qed (use op g e a(1) t emits_op1(1) [OF f m(1)] emits_op1(1) [OF f m(2)] in
      \<open>auto simp: gen_unary_def g_unary_def ebind_Inr_iff\<close>)
qed

section \<open>Expressions\<close>

lemma literal_refines: "refines (load_literal v line) (g_expr (IntLiteral v line))"
proof (rule refinesI)
  fix s r s'
  assume "load_literal v line s = Inr (r, s')"
  then obtain s1 where e: "alloc_temp line s = Inr (r, s1)" "s' = emit_load_imm r v (''literal '' @ fmt_dec v) s1"
    by (auto simp: load_literal_def ebind_Inr_iff)
  note t = temp_refines [OF e(1)]
  have n: "no_break (''literal '' @ fmt_dec v)" by (simp add: is_line_break_def)
  have "gs_of s' = gs_of s1" by (simp add: e(2) emit_load_imm_def Let_def)
  then show "\<exists>f. g_expr (IntLiteral v line) (gs_of s) = Some (r, f, gs_of s') \<and> emits s f s'"
    using t emits_imm [of s "[]" s1, OF _ n, of r v] e(2) by auto
qed

lemma expr_refines: "plain_expr e \<Longrightarrow> refines (gen_expr e) (g_expr e)"
proof (induction e)
  case (IntLiteral v line)
  then show ?case using literal_refines [of v line] by (simp add: refines_def)
next
  case (VarRef n line)
  then show ?case
    by (intro refinesI) (use var_refines in \<open>auto simp: gen_var_def\<close>)
next
  case (BinOp op a b line)
  then have ab: "refines (gen_expr a) (g_expr a)" "refines (gen_expr b) (g_expr b)" by simp_all
  show ?case
    using and_refines [OF ab, of line] or_refines [OF ab, of line] binop_refines [OF ab, of op line None]
    by (simp add: refines_def)
next
  case (UnaryOp op a line)
  then show ?case using unary_refines [of "gen_expr a" "g_expr a" op line] by (simp add: refines_def)
qed simp_all

end
