(* ===== verification/Gen_Stmts.thy ===== *)
theory Gen_Stmts
  imports Gen_Exprs
begin

text \<open>
  \<open>gen_stmt\<close> against \<open>g_stmt\<close>: the statements of \<^verbatim>\<open>main\<close> on local variables.
\<close>

section \<open>Statements\<close>

definition stack_ok :: "cg \<Rightarrow> bool" where
  "stack_ok s \<longleftrightarrow> (\<forall>(c, b) \<in> set (cg_loop_stack s). clean c \<and> clean b)"

definition in_main :: "cg \<Rightarrow> bool" where
  "in_main s \<longleftrightarrow> cg_globals s = [] \<and> cg_func s = ''MAIN'' \<and> stack_ok s"

definition srefines :: "(cg \<Rightarrow> compile_error + cg) \<Rightarrow> (loops \<Rightarrow> stmt_gen) \<Rightarrow> bool" where
  "srefines m g \<longleftrightarrow> (\<forall>s s'. in_main s \<longrightarrow> m s = Inr s' \<longrightarrow>
     (\<exists>f. g (cg_loop_stack s) (gs_of s) = Some (f, gs_of s') \<and> emits s f s'))"

lemma srefinesI: "(\<And>s s'. in_main s \<Longrightarrow> m s = Inr s' \<Longrightarrow>
    \<exists>f. g (cg_loop_stack s) (gs_of s) = Some (f, gs_of s') \<and> emits s f s') \<Longrightarrow> srefines m g"
  by (simp add: srefines_def)

lemma srefinesD: "srefines m g \<Longrightarrow> in_main s \<Longrightarrow> m s = Inr s' \<Longrightarrow>
    \<exists>f. g (cg_loop_stack s) (gs_of s) = Some (f, gs_of s') \<and> emits s f s'"
  by (simp add: srefines_def)

lemma in_main_emits: "in_main s \<Longrightarrow> emits s f s' \<Longrightarrow> in_main s'"
  by (simp add: in_main_def stack_ok_def emits_def)

lemma emits_stack: "emits s f s' \<Longrightarrow> cg_loop_stack s' = cg_loop_stack s"
  by (simp add: emits_def)

lemma expr_main:
  assumes "plain_expr e" "in_main s" "gen_expr e s = Inr (r, s')"
  obtains f where "g_expr e (gs_of s) = Some (r, f, gs_of s')" "emits s f s'"
  using refinesD [OF expr_refines [OF assms(1)] _ assms(3)] assms(2) by (auto simp: in_main_def)

lemma free_refines: "gs_of (free_temps s) = g_free (gs_of s)" "emits s f t \<Longrightarrow> emits s f (free_temps t)"
  by (simp_all add: free_temps_def g_free_def emits_update)

lemma alloc_var_get: "alloc_var n line s = get_or_alloc_var n line s"
  by (simp add: get_or_alloc_var_def alloc_var_def split: option.split)

text \<open>An expression moved to a register.\<close>

lemma set_refines:
  assumes "plain_expr e" "in_main s" "\<And>r. no_break (nt r)"
    and "ebind (gen_expr e s) (\<lambda>(r, s). Inr (if r \<noteq> reg then emit (ins2 ''MOV'' reg r @ semi_note (nt r)) s else s)) = Inr s'"
  shows "\<exists>f. g_set reg e (gs_of s) = Some (f, gs_of s') \<and> emits s f s'"
proof -
  obtain r s1 where e: "gen_expr e s = Inr (r, s1)"
    "s' = (if r \<noteq> reg then emit (ins2 ''MOV'' reg r @ semi_note (nt r)) s1 else s1)"
    using assms(4) by (auto simp: ebind_Inr_iff)
  obtain f where f: "g_expr e (gs_of s) = Some (r, f, gs_of s1)" "emits s f s1"
    by (rule expr_main [OF assms(1,2) e(1)])
  have m: "''MOV'' = opcode_name Op_MOV" by simp
  show ?thesis
    using f e(2) emits_op1(2) [OF f(2) m assms(3), of reg r] by (auto simp: g_set_def g_move_def)
qed

lemma name_note: "no_break n \<Longrightarrow> no_break (n @ '' = '' @ reg_text r)"
  by (simp add: is_line_break_def)

lemma vardecl_refines:
  assumes "no_break n" "case init of None \<Rightarrow> True | Some e \<Rightarrow> plain_expr e"
  shows "srefines (gen_vardecl n init line) (g_stmt (VarDecl n init line p))"
proof (rule srefinesI)
  fix s s'
  assume s: "in_main s" and g: "gen_vardecl n init line s = Inr s'"
  obtain reg s1 s2 where e: "get_or_alloc_var n line s = Inr (reg, s1)"
    "(case init of None \<Rightarrow> Inr s1 | Some e \<Rightarrow> ebind (gen_expr e s1) (\<lambda>(r, s).
        Inr (if r \<noteq> reg then emit (ins2 ''MOV'' reg r @ semi_note (n @ '' = '' @ reg_text r)) s else s))) = Inr s2"
    "s' = free_temps s2"
    using g by (auto simp: gen_vardecl_def ebind_Inr_iff alloc_var_get)
  have v: "g_var n (gs_of s) = Some (reg, gs_of s1)" "emits s [] s1"
    using var_refines [OF e(1) assms(1)] by simp_all
  have "\<exists>f. (case init of None \<Rightarrow> Some ([], gs_of s1) | Some e \<Rightarrow> g_set reg e (gs_of s1)) = Some (f, gs_of s2) \<and> emits s1 f s2"
  proof (cases init)
    case None
    then show ?thesis using e(2) by (simp add: emits_refl)
  next
    case (Some x)
    then show ?thesis
      using set_refines [OF _ in_main_emits [OF s v(2)], where nt = "\<lambda>r. n @ '' = '' @ reg_text r" and e = x
          and reg = reg and s' = s2] name_note [OF assms(1)] e(2) assms(2) by simp
  qed
  then show "\<exists>f. g_stmt (VarDecl n init line p) (cg_loop_stack s) (gs_of s) = Some (f, gs_of s') \<and> emits s f s'"
    using v emits_trans [OF v(2)] by (fastforce simp: e(3) free_refines)
qed

lemma compound_code:
  assumes "compound_op op line = Inr m"
  obtains opc where "op_code (butlast op) = Some opc" "m = opcode_name opc"
  using assms OP_MAP_code by (auto simp: compound_op_def split: option.splits)

lemma assign_refines:
  assumes "no_break n" "no_break op" "plain_expr e"
  shows "srefines (gen_assign n op e line) (\<lambda>_. g_assign n op e)"
proof (rule srefinesI)
  fix s s'
  assume s: "in_main s" and g: "gen_assign n op e line s = Inr s'"
  let ?mov = "\<lambda>reg s1. ebind (gen_expr e s1) (\<lambda>(r, s).
        Inr (if r \<noteq> reg then emit (ins2 ''MOV'' reg r @ semi_note (n @ '' = '' @ reg_text r)) s else s))"
  obtain reg s1 where v: "get_or_alloc_var n line s = Inr (reg, s1)"
    and r: "(if op = ''='' then
              (case e of
                 BinOp bop left right bline \<Rightarrow>
                   if bop \<notin> {''&&'', ''||''} then
                     ebind (gen_binop_into bop (gen_expr left) (gen_expr right) bline (Some reg) s1) (\<lambda>(_, s). Inr s)
                   else ?mov reg s1
               | _ \<Rightarrow> ?mov reg s1)
            else
              ebind (gen_expr e s1) (\<lambda>(r_val, s).
                ebind (compound_op op line) (\<lambda>asm_op. Inr (emit (ins3 asm_op reg reg r_val @ semi_note op) s)))) = Inr s'"
    using g s by (auto simp: gen_assign_def ebind_Inr_iff in_main_def)
  have v: "g_var n (gs_of s) = Some (reg, gs_of s1)" "emits s [] s1"
    using var_refines [OF v assms(1)] by simp_all
  note s1 = in_main_emits [OF s v(2)]
  have set: "\<exists>f. g_set reg e (gs_of s1) = Some (f, gs_of s') \<and> emits s1 f s'" if "?mov reg s1 = Inr s'"
    using set_refines [OF assms(3) s1, where nt = "\<lambda>r. n @ '' = '' @ reg_text r"] name_note [OF assms(1)] that by blast
  have "\<exists>f. (if op = ''='' then
         (case e of
            BinOp bop l r _ \<Rightarrow>
              if bop \<notin> {''&&'', ''||''}
              then map_option (\<lambda>(_, f, s). (f, s)) (g_binop bop (g_expr l) (g_expr r) (Some reg) (gs_of s1))
              else g_set reg e (gs_of s1)
          | _ \<Rightarrow> g_set reg e (gs_of s1))
       else
         Option.bind (g_expr e (gs_of s1)) (\<lambda>(r, f, s).
           map_option (\<lambda>opc. (f @ [I_Op opc reg reg r], s)) (op_code (butlast op)))) = Some (f, gs_of s') \<and> emits s1 f s'"
  proof (cases "op = ''=''")
    case False
    then obtain rv s2 m where e: "gen_expr e s1 = Inr (rv, s2)" "compound_op op line = Inr m"
      "s' = emit (ins3 m reg reg rv @ semi_note op) s2"
      using r by (auto simp: ebind_Inr_iff)
    obtain f where f: "g_expr e (gs_of s1) = Some (rv, f, gs_of s2)" "emits s1 f s2"
      by (rule expr_main [OF assms(3) s1 e(1)])
    obtain opc where o: "op_code (butlast op) = Some opc" "m = opcode_name opc" by (rule compound_code [OF e(2)])
    show ?thesis
      using False f o(1) emits_op(2) [OF f(2) o(2) assms(2), of reg reg rv] by (simp add: e(3))
  next
    case True
    show ?thesis
    proof (cases "\<exists>bop l r b. e = BinOp bop l r b \<and> bop \<notin> {''&&'', ''||''}")
      case True
      then obtain bop l r' b where e: "e = BinOp bop l r' b" "bop \<notin> {''&&'', ''||''}" by blast
      have "refines (gen_expr l) (g_expr l)" "refines (gen_expr r') (g_expr r')"
        using assms(3) e(1) by (auto intro: expr_refines)
      note b = binop_refines [OF this]
      show ?thesis
        using r \<open>op = ''=''\<close> e refinesD [OF b [of bop b "Some reg"], of s1] s1 by (auto simp: ebind_Inr_iff in_main_def)
    next
      case False
      with r \<open>op = ''=''\<close> have "?mov reg s1 = Inr s'" by (cases e) auto
      from set [OF this] False \<open>op = ''=''\<close> show ?thesis by (cases e) auto
    qed
  qed
  then show "\<exists>f. g_assign n op e (gs_of s) = Some (f, gs_of s') \<and> emits s f s'"
    using v(1) emits_trans [OF v(2)] by (fastforce simp: g_assign_def)
qed

lemma return_refines:
  assumes "case e of None \<Rightarrow> True | Some e \<Rightarrow> plain_expr e"
  shows "srefines (gen_return e) (g_stmt (ReturnStmt e line))"
proof (rule srefinesI)
  fix s s'
  assume s: "in_main s" and g: "gen_return e s = Inr s'"
  have leave: "emit_leave t = emit ''HLT'' t" if "emits s f t" for f t
    using that s by (simp add: emit_leave_def in_main_def emits_def)
  show "\<exists>f. g_stmt (ReturnStmt e line) (cg_loop_stack s) (gs_of s) = Some (f, gs_of s') \<and> emits s f s'"
  proof (cases e)
    case None
    then show ?thesis
      using g leave [OF emits_refl] emits_hlt [OF emits_refl, of s] by (auto simp: gen_return_def free_refines)
  next
    case (Some x)
    then obtain s1 where e: "ebind (gen_expr x s) (\<lambda>(r, s).
        Inr (if r \<noteq> 1 then emit (ins2 ''MOV'' 1 r @ semi_note ''retorno em R1'') s else s)) = Inr s1"
      "s' = free_temps (emit_leave s1)"
      using g by (auto simp: gen_return_def ebind_Inr_iff)
    have n: "no_break ''retorno em R1''" by (simp add: is_line_break_def)
    obtain f where f: "g_set 1 x (gs_of s) = Some (f, gs_of s1)" "emits s f s1"
      using set_refines [OF _ s, where nt = "\<lambda>_. ''retorno em R1''" and e = x and reg = 1 and s' = s1] n e(1) assms Some
      by auto
    show ?thesis
      using f leave [OF f(2)] emits_hlt [OF f(2)] by (simp add: Some e(2) free_refines)
  qed
qed

text \<open>A condition and the branch that leaves when it is false.\<close>

lemma cond_refines:
  assumes "plain_expr c" "in_main s" "clean l" "no_break note"
    and "gen_expr c s = Inr (r, s1)"
  shows "\<exists>f. g_cond (Some c) l (gs_of s) = Some (f, gs_of s1) \<and> emits s f (emit (ins_branch ''BEQ'' r l @ semi_note note) s1)"
proof -
  obtain f where f: "g_expr c (gs_of s) = Some (r, f, gs_of s1)" "emits s f s1"
    by (rule expr_main [OF assms(1,2,5)])
  have "''BEQ'' = opcode_name Op_BEQ" by simp
  from f emits_br(2) [OF f(2) this assms(3,4), of r] show ?thesis
    by (simp add: g_cond_def)
qed

lemma arrow_notes: "no_break (''if falso '' @ arrow @ '' else'')" "no_break (''enquanto falso '' @ arrow @ '' fim'')"
  "no_break (''for: cond falsa '' @ arrow @ '' fim'')"
  by (simp_all add: arrow_def is_line_break_def)

lemma in_main_label: "in_main (s\<lparr>cg_label_cnt := k\<rparr>) = in_main s"
  by (simp add: in_main_def stack_ok_def)

lemma if_refines:
  assumes "plain_expr c" and t: "srefines gt T" and e: "srefines ge E"
  shows "srefines (gen_if c gt ge has_else) (\<lambda>stk. g_if c (T stk) (E stk) has_else)"
proof (rule srefinesI)
  fix s s'
  assume s: "in_main s" and g: "gen_if c gt ge has_else s = Inr s'"
  let ?le = "lbl ''ELSE'' (cg_label_cnt s)" and ?ln = "lbl ''ENDIF'' (cg_label_cnt s + 1)"
  let ?s0 = "s\<lparr>cg_label_cnt := cg_label_cnt s + 1 + 1\<rparr>"
  define n where "n = ''if falso '' @ arrow @ '' else''"
  obtain r s1 s2 s3 where x: "gen_expr c ?s0 = Inr (r, s1)" "gt (emit (ins_branch ''BEQ'' r ?le @ semi_note n) s1) = Inr s2"
    "ge (emit (?le @ '':'') (if has_else then emit (''JMP '' @ ?ln) s2 else s2)) = Inr s3" "s' = emit (?ln @ '':'') s3"
    using g by (auto simp: gen_if_def new_label_lbl Let_def ebind_Inr_iff n_def cong: if_cong)
  have s0: "in_main ?s0" "emits s [] ?s0" using s by (simp_all add: in_main_label emits_update emits_refl)
  obtain fc where c: "g_cond (Some c) ?le (gs_of ?s0) = Some (fc, gs_of s1)"
    "emits ?s0 fc (emit (ins_branch ''BEQ'' r ?le @ semi_note n) s1)" (is "emits _ _ ?s1")
    using cond_refines [OF assms(1) s0(1) _ _ x(1), of ?le n] arrow_notes by (auto simp: n_def)
  have m1: "in_main ?s1" by (rule in_main_emits [OF s0(1) c(2)])
  obtain ft where t: "T (cg_loop_stack s) (gs_of s1) = Some (ft, gs_of s2)" "emits ?s1 ft s2"
    using srefinesD [OF t m1 x(2)] emits_stack [OF c(2)] by auto
  let ?s2 = "emit (?le @ '':'') (if has_else then emit (''JMP '' @ ?ln) s2 else s2)"
  have j: "emits ?s1 (ft @ (if has_else then [I_Jmp ?ln] else [])) (if has_else then emit (''JMP '' @ ?ln) s2 else s2)"
    using emits_jmp(1) [OF t(2), of ?ln] t(2) by simp
  have l: "emits ?s1 ((ft @ (if has_else then [I_Jmp ?ln] else [])) @ [I_Label ?le]) ?s2"
    by (rule emits_label [OF j]) simp
  have g2: "gs_of ?s2 = gs_of s2" by simp
  obtain fe where e: "E (cg_loop_stack s) (gs_of s2) = Some (fe, gs_of s3)" "emits ?s2 fe s3"
    using srefinesD [OF e in_main_emits [OF m1 l] x(3)] emits_stack [OF c(2)] emits_stack [OF l] g2 by auto
  have "emits s (fc @ ((ft @ (if has_else then [I_Jmp ?ln] else [])) @ [I_Label ?le]) @ fe @ [I_Label ?ln]) s'"
    unfolding x(4) using emits_trans [OF s0(2) emits_trans [OF c(2) emits_trans [OF l emits_label [OF e(2)]]], of ?ln] by simp
  then show "\<exists>f. g_if c (T (cg_loop_stack s)) (E (cg_loop_stack s)) has_else (gs_of s) = Some (f, gs_of s') \<and> emits s f s'"
    using c(1) t(1) e(1) by (auto simp: g_if_def Let_def x(4) used_labels_def add.commute)
qed

text \<open>Inside a loop the stack is longer; the emitted lines are the same.\<close>

lemma emits_push: "emits (push_loop a b s) f t \<Longrightarrow> emits s f (pop_loop t)"
  by (simp add: emits_def push_loop_def pop_loop_def)

lemma push_pop_simps [simp]:
  "gs_of (push_loop a b s) = gs_of s" "gs_of (pop_loop s) = gs_of s" "cg_label_cnt (push_loop a b s) = cg_label_cnt s"
  "cg_loop_stack (push_loop a b s) = (a, b) # cg_loop_stack s"
  by (simp_all add: gs_of_def push_loop_def pop_loop_def)

lemma in_main_push: "in_main s \<Longrightarrow> clean a \<Longrightarrow> clean b \<Longrightarrow> in_main (push_loop a b s)"
  by (simp add: in_main_def stack_ok_def push_loop_def)

lemma while_refines:
  assumes "plain_expr c" and b: "srefines gb B"
  shows "srefines (gen_while c gb) (\<lambda>stk. g_while c B stk)"
proof (rule srefinesI)
  fix s s'
  assume s: "in_main s" and g: "gen_while c gb s = Inr s'"
  let ?lt = "lbl ''WHILE_TEST'' (cg_label_cnt s)" and ?le = "lbl ''WHILE_END'' (cg_label_cnt s + 1)"
  let ?s = "s\<lparr>cg_label_cnt := cg_label_cnt s + 1 + 1\<rparr>"
  let ?s0 = "push_loop ?lt ?le ?s"
  define n where "n = ''enquanto falso '' @ arrow @ '' fim''"
  obtain r s1 s2 where x: "gen_expr c (emit (?lt @ '':'') ?s0) = Inr (r, s1)"
    "gb (emit (ins_branch ''BEQ'' r ?le @ semi_note n) s1) = Inr s2"
    "s' = pop_loop (emit (?le @ '':'') (emit (''JMP '' @ ?lt) s2))"
    using g by (auto simp: gen_while_def new_label_lbl Let_def ebind_Inr_iff n_def)
  have s0: "in_main ?s0" using s by (intro in_main_push) (simp_all add: in_main_label)
  have l: "emits ?s0 [I_Label ?lt] (emit (?lt @ '':'') ?s0)"
    using emits_label [OF emits_refl, of ?lt ?s0] by simp
  note l0 = in_main_emits [OF s0 l]
  obtain fc where c: "g_cond (Some c) ?le (gs_of ?s) = Some (fc, gs_of s1)"
    "emits (emit (?lt @ '':'') ?s0) fc (emit (ins_branch ''BEQ'' r ?le @ semi_note n) s1)" (is "emits _ _ ?s1")
    using cond_refines [OF assms(1) l0 _ _ x(1), of ?le n] arrow_notes by (auto simp: n_def)
  note m1 = in_main_emits [OF l0 c(2)]
  have "cg_loop_stack ?s1 = (?lt, ?le) # cg_loop_stack s"
    using emits_stack [OF c(2)] emits_stack [OF l] by simp
  then obtain fb where b: "B ((?lt, ?le) # cg_loop_stack s) (gs_of s1) = Some (fb, gs_of s2)" "emits ?s1 fb s2"
    using srefinesD [OF b m1 x(2)] by auto
  have "emits ?s1 ((fb @ [I_Jmp ?lt]) @ [I_Label ?le]) (emit (?le @ '':'') (emit (''JMP '' @ ?lt) s2))"
    by (intro emits_label emits_jmp(1) b(2)) simp_all
  from emits_push [OF emits_trans [OF l emits_trans [OF c(2) this]]]
  have "emits s ([I_Label ?lt] @ fc @ fb @ [I_Jmp ?lt, I_Label ?le]) s'"
    by (simp add: x(3) emits_update)
  then show "\<exists>f. g_while c B (cg_loop_stack s) (gs_of s) = Some (f, gs_of s') \<and> emits s f s'"
    using c(1) b(1) by (auto simp: g_while_def Let_def x(3) used_labels_def add.commute)
qed

lemma for_refines:
  assumes i: "srefines gi I" and c: "case c of None \<Rightarrow> True | Some e \<Rightarrow> plain_expr e"
    and u: "srefines gu U" and b: "srefines gb B"
  shows "srefines (gen_for gi c gu gb) (\<lambda>stk. g_for (I stk) c U B stk)"
proof (rule srefinesI)
  fix s s'
  assume s: "in_main s" and g: "gen_for gi c gu gb s = Inr s'"
  let ?lt = "lbl ''FOR_TEST'' (cg_label_cnt s)" and ?lu = "lbl ''FOR_UPD'' (cg_label_cnt s + 1)"
    and ?le = "lbl ''FOR_END'' (2 + cg_label_cnt s)"
  let ?s = "s\<lparr>cg_label_cnt := cg_label_cnt s + 1 + 1 + 1\<rparr>"
  define n where "n = ''for: cond falsa '' @ arrow @ '' fim''"
  obtain s1 where x1: "gi ?s = Inr s1"
    using g by (auto simp: gen_for_def new_label_lbl Let_def ebind_Inr_iff)
  let ?s1 = "push_loop ?lu ?le s1"
  obtain s2 s3 s4 where x: "(case c of None \<Rightarrow> Inr (emit (?lt @ '':'') ?s1)
      | Some e \<Rightarrow> ebind (gen_expr e (emit (?lt @ '':'') ?s1)) (\<lambda>(r, s).
          Inr (emit (ins_branch ''BEQ'' r ?le @ semi_note n) s))) = Inr s2"
    "gb s2 = Inr s3" "gu (emit (?lu @ '':'') s3) = Inr s4"
    "s' = pop_loop (emit (?le @ '':'') (emit (''JMP '' @ ?lt) s4))"
    using g x1 by (auto simp: gen_for_def new_label_lbl Let_def ebind_Inr_iff n_def cong: option.case_cong)
  have s0: "in_main ?s" "emits s [] ?s" using s by (simp_all add: in_main_label emits_update emits_refl)
  obtain fi where i: "I (cg_loop_stack s) (gs_of ?s) = Some (fi, gs_of s1)" "emits ?s fi s1"
    using srefinesD [OF i s0(1) x1] by auto
  have m1: "in_main ?s1" using in_main_emits [OF s0(1) i(2)] by (intro in_main_push) simp_all
  have l: "emits ?s1 [I_Label ?lt] (emit (?lt @ '':'') ?s1)"
    using emits_label [OF emits_refl, of ?lt ?s1] by simp
  note l0 = in_main_emits [OF m1 l]
  have "\<exists>fc. g_cond c ?le (gs_of s1) = Some (fc, gs_of s2) \<and> emits (emit (?lt @ '':'') ?s1) fc s2"
  proof (cases c)
    case None
    then show ?thesis using x(1) by (auto simp: g_cond_def emits_refl)
  next
    case (Some e)
    then obtain r t where t: "gen_expr e (emit (?lt @ '':'') ?s1) = Inr (r, t)"
      "s2 = emit (ins_branch ''BEQ'' r ?le @ semi_note n) t"
      using x(1) by (auto simp: ebind_Inr_iff)
    show ?thesis
      using cond_refines [OF _ l0 _ _ t(1), of ?le n] arrow_notes c by (auto simp: Some n_def t(2))
  qed
  then obtain fc where c: "g_cond c ?le (gs_of s1) = Some (fc, gs_of s2)" "emits (emit (?lt @ '':'') ?s1) fc s2" by blast
  note m2 = in_main_emits [OF l0 c(2)]
  have st: "cg_loop_stack s2 = (?lu, ?le) # cg_loop_stack s"
    using emits_stack [OF c(2)] emits_stack [OF l] emits_stack [OF i(2)] by simp
  obtain fb where b: "B ((?lu, ?le) # cg_loop_stack s) (gs_of s2) = Some (fb, gs_of s3)" "emits s2 fb s3"
    using srefinesD [OF b m2 x(2)] st by auto
  have l3: "emits s2 (fb @ [I_Label ?lu]) (emit (?lu @ '':'') s3)"
    by (intro emits_label b(2)) simp
  obtain fu where u: "U ((?lu, ?le) # cg_loop_stack s) (gs_of s3) = Some (fu, gs_of s4)" "emits (emit (?lu @ '':'') s3) fu s4"
    using srefinesD [OF u in_main_emits [OF m2 l3] x(3)] st emits_stack [OF l3] by auto
  have "emits (emit (?lu @ '':'') s3) ((fu @ [I_Jmp ?lt]) @ [I_Label ?le]) (emit (?le @ '':'') (emit (''JMP '' @ ?lt) s4))"
    by (intro emits_label emits_jmp(1) u(2)) simp_all
  from emits_push [OF emits_trans [OF l emits_trans [OF c(2) emits_trans [OF l3 this]]]]
  have "emits s1 ([I_Label ?lt] @ fc @ fb @ [I_Label ?lu] @ fu @ [I_Jmp ?lt, I_Label ?le]) s'"
    by (simp add: x(4))
  from emits_trans [OF s0(2) emits_trans [OF i(2) this]]
  have "emits s (fi @ [I_Label ?lt] @ fc @ fb @ [I_Label ?lu] @ fu @ [I_Jmp ?lt, I_Label ?le]) s'"
    by simp
  then show "\<exists>f. g_for (I (cg_loop_stack s)) c U B (cg_loop_stack s) (gs_of s) = Some (f, gs_of s') \<and> emits s f s'"
    using i(1) c(1) b(1) u(1) by (auto simp: g_for_def Let_def x(4) used_labels_def add.commute)
qed

lemma jump_refines: "srefines (gen_break l) (g_stmt (BreakStmt l'))" "srefines (gen_continue l) (g_stmt (ContinueStmt l'))"
proof -
  have n: "no_break ''break''" "no_break ''continue''" by (simp_all add: is_line_break_def)
  have j: "emits s [I_Jmp x] (emit (''JMP '' @ x @ semi_note y) s)" if "clean x" "no_break y" for s x y
    using emits_jmp(2) [OF emits_refl that] by simp
  show "srefines (gen_break l) (g_stmt (BreakStmt l'))"
    by (intro srefinesI) (use j n in \<open>auto simp: gen_break_def in_main_def stack_ok_def split: list.splits prod.splits\<close>)
  show "srefines (gen_continue l) (g_stmt (ContinueStmt l'))"
    by (intro srefinesI) (use j n in \<open>auto simp: gen_continue_def in_main_def stack_ok_def split: list.splits prod.splits\<close>)
qed

lemma seq_refines:
  assumes "srefines a A" "srefines b B"
  shows "srefines (\<lambda>s. ebind (a s) b)
    (\<lambda>stk s. Option.bind (A stk s) (\<lambda>(f, s). map_option (\<lambda>(f', s). (f @ f', s)) (B stk s)))"
proof (rule srefinesI)
  fix s s'
  assume s: "in_main s" and g: "ebind (a s) b = Inr s'"
  obtain s1 where x: "a s = Inr s1" "b s1 = Inr s'" using g by (auto simp: ebind_Inr_iff)
  obtain f where f: "A (cg_loop_stack s) (gs_of s) = Some (f, gs_of s1)" "emits s f s1"
    using srefinesD [OF assms(1) s x(1)] by blast
  obtain f' where f': "B (cg_loop_stack s) (gs_of s1) = Some (f', gs_of s')" "emits s1 f' s'"
    using srefinesD [OF assms(2) in_main_emits [OF s f(2)] x(2)] emits_stack [OF f(2)] by auto
  show "\<exists>f. Option.bind (A (cg_loop_stack s) (gs_of s)) (\<lambda>(f, t). map_option (\<lambda>(f', t). (f @ f', t))
      (B (cg_loop_stack s) t)) = Some (f, gs_of s') \<and> emits s f s'"
    using f(1) f'(1) emits_trans [OF f(2) f'(2)] by auto
qed

lemma srefines_free:
  assumes "srefines m (\<lambda>_. g)"
  shows "srefines (\<lambda>s. ebind (m s) (\<lambda>s. Inr (free_temps s))) (\<lambda>_ s. map_option (\<lambda>(f, s). (f, g_free s)) (g s))"
proof (rule srefinesI)
  fix s s'
  assume s: "in_main s" and g: "ebind (m s) (\<lambda>s. Inr (free_temps s)) = Inr s'"
  then obtain s1 where x: "m s = Inr s1" "s' = free_temps s1" by (auto simp: ebind_Inr_iff)
  from srefinesD [OF assms s x(1)] show "\<exists>f. map_option (\<lambda>(f, s). (f, g_free s)) (g (gs_of s)) = Some (f, gs_of s') \<and> emits s f s'"
    by (auto simp: x(2) free_refines)
qed

lemma srefines_nil: "srefines Inr (\<lambda>stk s. Some ([], s))"
  by (rule srefinesI) (auto simp: emits_refl)

lemma srefines_ext: "srefines m g \<Longrightarrow> (\<And>s. m' s = m s) \<Longrightarrow> (\<And>k s. g' k s = g k s) \<Longrightarrow> srefines m' g'"
  by (simp add: srefines_def)

lemma stmts_refines_all:
  "\<forall>st \<in> set ss. srefines (gen_stmt st) (g_stmt st) \<Longrightarrow> srefines (gen_stmts ss) (g_stmts ss)"
proof (induction ss)
  case (Cons st ss)
  then have "srefines (gen_stmt st) (g_stmt st)" "srefines (gen_stmts ss) (g_stmts ss)" by simp_all
  from seq_refines [OF this] show ?case by (rule srefines_ext) simp_all
qed (rule srefines_ext [OF srefines_nil]; simp)

lemma opt_refines:
  "(\<And>st. os = Some st \<Longrightarrow> srefines (gen_stmt st) (g_stmt st)) \<Longrightarrow> srefines (gen_stmt_opt os) (g_opt os)"
  by (cases os) (auto intro: srefines_ext [OF srefines_nil] srefines_ext)

lemma exprstmt_refines: "plain_expr e \<Longrightarrow> srefines (gen_stmt (ExprStmt e l)) (g_stmt (ExprStmt e l))"
proof (rule srefinesI)
  fix s s'
  assume e: "plain_expr e" and s: "in_main s" and g: "gen_stmt (ExprStmt e l) s = Inr s'"
  then obtain r s1 where x: "gen_expr e s = Inr (r, s1)" "s' = free_temps s1" by (auto simp: ebind_Inr_iff)
  obtain f where "g_expr e (gs_of s) = Some (r, f, gs_of s1)" "emits s f s1" by (rule expr_main [OF e s x(1)])
  then show "\<exists>f. g_stmt (ExprStmt e l) (cg_loop_stack s) (gs_of s) = Some (f, gs_of s') \<and> emits s f s'"
    by (simp add: x(2) free_refines)
qed

lemma stmt_refines: "plain_stmt st \<Longrightarrow> srefines (gen_stmt st) (g_stmt st)"
proof (induction st rule: plain_stmt.induct)
  case (1 n init l p)
  then have "srefines (gen_vardecl n init l) (g_stmt (VarDecl n init l p))" by (intro vardecl_refines) simp_all
  then show ?case by (rule srefines_ext) simp_all
next
  case (2 n op e l)
  then have "srefines (gen_assign n op e l) (\<lambda>_. g_assign n op e)" by (intro assign_refines) simp_all
  from srefines_free [OF this] show ?case by (rule srefines_ext) simp_all
next
  case (3 c t e l)
  have "srefines (gen_stmts t) (g_stmts t)" "srefines (gen_stmts e) (g_stmts e)"
    using 3 by (intro stmts_refines_all ballI, simp add: list_all_iff)+
  moreover have "plain_expr c" using 3 by simp
  ultimately have "srefines (gen_if c (gen_stmts t) (gen_stmts e) (e \<noteq> [])) (\<lambda>k. g_if c (g_stmts t k) (g_stmts e k) (e \<noteq> []))"
    by (intro if_refines)
  then show ?case by (rule srefines_ext) simp_all
next
  case (4 c b l)
  have b: "srefines (gen_stmts b) (g_stmts b)"
    using 4 by (intro stmts_refines_all ballI) (simp add: list_all_iff)
  have "plain_expr c" using 4 by simp
  from while_refines [OF this b] show ?case by (rule srefines_ext) simp_all
next
  case (5 i c u b l)
  have "srefines (gen_stmt_opt i) (g_opt i)" "srefines (gen_stmt_opt u) (g_opt u)"
    by (rule opt_refines, rule 5, assumption, use "5.prems" in simp)+
  moreover have "srefines (gen_stmts b) (g_stmts b)"
    using 5 by (intro stmts_refines_all ballI) (simp add: list_all_iff)
  moreover have "case c of None \<Rightarrow> True | Some e \<Rightarrow> plain_expr e" using "5.prems" by simp
  ultimately have "srefines (gen_for (gen_stmt_opt i) c (gen_stmt_opt u) (gen_stmts b))
      (\<lambda>stk. g_for (g_opt i stk) c (g_opt u) (g_stmts b) stk)"
    by (intro for_refines)
  then show ?case by (rule srefines_ext) simp_all
next
  case (6 e l)
  then have "srefines (gen_return e) (g_stmt (ReturnStmt e l))" by (intro return_refines) simp
  then show ?case by (rule srefines_ext) simp_all
next
  case (7 l)
  from jump_refines(1) show ?case by (rule srefines_ext) simp_all
next
  case (8 l)
  from jump_refines(2) show ?case by (rule srefines_ext) simp_all
next
  case (9 e l)
  then show ?case by (intro exprstmt_refines) simp
next
  case (10 ss l)
  have "srefines (gen_stmts ss) (g_stmts ss)"
    using 10 by (intro stmts_refines_all ballI) (simp add: list_all_iff)
  then show ?case by (rule srefines_ext) simp_all
qed simp_all

lemma stmts_refines: "list_all plain_stmt ss \<Longrightarrow> srefines (gen_stmts ss) (g_stmts ss)"
  by (intro stmts_refines_all) (simp add: list_all_iff stmt_refines)

end
