(* ===== verification/Asm_Machine.thy ===== *)
theory Asm_Machine
  imports Asm_Layout Pipeline_Program
begin

unbundle bit_operations_syntax

text \<open>
  An abstract machine for these instructions, with symbolic labels, and the architecture on the
  assembled words: each step of the machine is one step of the architecture, or none for a label.
\<close>

section \<open>The abstract machine\<close>

fun find_label :: "string \<Rightarrow> asm_ins list \<Rightarrow> nat option" where
  "find_label l [] = None"
| "find_label l (i # P) = (if i = I_Label l then Some 0 else map_option Suc (find_label l P))"

type_synonym config = "nat \<times> int list"

definition code_step :: "asm_ins list \<Rightarrow> config \<Rightarrow> config option" where
  "code_step P c =
     (case c of (i, rs) \<Rightarrow>
        let write = (\<lambda>d v. Some (i + 1, reg_write d v rs));
            jump = (\<lambda>l. map_option (\<lambda>j. (j, rs)) (find_label l P))
        in if i < length P then
             (case P ! i of
                I_Op opc d a b \<Rightarrow> write d (word_op opc (reg_read rs a) (reg_read rs b))
              | I_Op1 opc d a \<Rightarrow> write d (word_op opc (reg_read rs a) (reg_read rs 0))
              | I_Movi d v \<Rightarrow> write d (word_op Op_MOVI (reg_read rs 0) v)
              | I_Movhi d v \<Rightarrow> write d (word_op Op_MOVHI 0 v)
              | I_Ori d v \<Rightarrow> write d (word_op Op_ORI (reg_read rs d) (sext v 16))
              | I_Xori d \<Rightarrow> write d (word_op Op_XORI (reg_read rs d) 1)
              | I_Br opc a l \<Rightarrow>
                  if branch_taken opc (reg_read rs a) (reg_read rs 0) then jump l else Some (i + 1, rs)
              | I_Jmp l \<Rightarrow> jump l
              | I_Label l \<Rightarrow> Some (i + 1, rs)
              | I_Hlt \<Rightarrow> None)
           else None)"

definition goes :: "asm_ins list \<Rightarrow> config \<Rightarrow> config \<Rightarrow> bool" where
  "goes P c c' \<longleftrightarrow> (\<lambda>x y. code_step P x = Some y)\<^sup>*\<^sup>* c c'"

lemma goes_refl [simp, intro]: "goes P c c"
  by (simp add: goes_def)

lemma goes_trans [trans]: "goes P a b \<Longrightarrow> goes P b c \<Longrightarrow> goes P a c"
  unfolding goes_def by (rule rtranclp_trans)

lemma goes_step: "code_step P c = Some c' \<Longrightarrow> goes P c' d \<Longrightarrow> goes P c d"
  unfolding goes_def by (rule converse_rtranclp_into_rtranclp)

lemma goes_one: "code_step P c = Some c' \<Longrightarrow> goes P c c'"
  by (rule goes_step) auto

section \<open>Labels\<close>

lemma find_label_nth: "find_label l P = Some j \<Longrightarrow> j < length P \<and> P ! j = I_Label l"
  by (induction P arbitrary: j) (auto split: if_splits)

lemma labels_of_set: "l \<in> set (labels_of P) \<longleftrightarrow> I_Label l \<in> set P"
  by (induction P rule: labels_of.induct) auto

lemma find_label_unique:
  "distinct (labels_of P) \<Longrightarrow> j < length P \<Longrightarrow> P ! j = I_Label l \<Longrightarrow> find_label l P = Some j"
proof (induction P arbitrary: j)
  case (Cons i P)
  show ?case
  proof (cases j)
    case (Suc k)
    then have k: "k < length P" "P ! k = I_Label l" using Cons.prems by simp_all
    then have "l \<in> set (labels_of P)" by (metis labels_of_set nth_mem)
    moreover have "distinct (labels_of P)" using Cons.prems(1) by (cases i) simp_all
    ultimately show ?thesis
      using Cons.IH [OF _ k] Cons.prems(1) Suc by (cases i) auto
  qed (use Cons.prems in simp)
qed simp

lemma find_label_ex: "l \<in> set (labels_of P) \<Longrightarrow> \<exists>j. find_label l P = Some j"
proof (induction P)
  case (Cons i P)
  then show ?case by (cases i) auto
qed simp

section \<open>The words\<close>

text \<open>What an instruction is decoded to.\<close>

fun view_ins :: "symtab \<Rightarrow> int \<Rightarrow> asm_ins \<Rightarrow> decoded" where
  "view_ins syms pc (I_Op opc d a b) = D_R opc d a b 0"
| "view_ins syms pc (I_Op1 opc d a) = D_R opc d a 0 0"
| "view_ins syms pc (I_Movi d v) = D_I Op_MOVI d 0 v"
| "view_ins syms pc (I_Movhi d v) = D_U Op_MOVHI d v"
| "view_ins syms pc (I_Ori d v) = D_I Op_ORI d d (sext v 16)"
| "view_ins syms pc (I_Xori d) = D_I Op_XORI d d 1"
| "view_ins syms pc (I_Br opc a l) = D_B opc a 0 (the (syms l) - pc)"
| "view_ins syms pc (I_Jmp l) = D_J Op_JMP (the (syms l))"
| "view_ins syms pc I_Hlt = D_J Op_HLT 0"
| "view_ins syms pc (I_Label l) = D_Invalid 0 0"

lemma gen_reg_mask: "gen_reg r \<Longrightarrow> r AND 0x1F = r"
  by (simp add: gen_reg_def mask_bits take_bit_int_eq_self)

lemma decode_views:
  "OPCODE_FMT opc = Fmt_R \<Longrightarrow> gen_reg d \<Longrightarrow> gen_reg a \<Longrightarrow> gen_reg b \<Longrightarrow> decode (encode_r opc d a b 0) = D_R opc d a b 0"
  "OPCODE_FMT opc = Fmt_I \<Longrightarrow> gen_reg d \<Longrightarrow> gen_reg a \<Longrightarrow> decode (encode_i opc d a v) = D_I opc d a (sext v 16)"
  "OPCODE_FMT opc = Fmt_B \<Longrightarrow> gen_reg a \<Longrightarrow> gen_reg b \<Longrightarrow> decode (encode_b opc a b v) = D_B opc a b (sext v 16)"
  "OPCODE_FMT opc = Fmt_J \<Longrightarrow> decode (encode_j opc v) = D_J opc (v AND 0x3FFFFFF)"
  "OPCODE_FMT opc = Fmt_U \<Longrightarrow> gen_reg d \<Longrightarrow> decode (encode_u opc d v) = D_U opc d (v AND 0x1FFFFF)"
  using codec_r.dec_enc [of "(opc, d, a, b, 0)"] codec_i.dec_enc [of "(opc, d, a, v)"]
    codec_b.dec_enc [of "(opc, a, b, v)"] codec_j.dec_enc [of "(opc, v)"] codec_u.dec_enc [of "(opc, d, v)"]
  by (simp_all add: ops_defs gen_reg_mask)

lemma decode_ins:
  assumes "ins_ok i" "is_real i" "0 \<le> pc" "pc \<le> 0x7FFF"
    and "\<forall>l \<in> uses_of [i]. 0 \<le> the (syms l) \<and> the (syms l) \<le> 0x7FFF"
  shows "decode (encode_ins syms pc i) = view_ins syms pc i"
proof (cases i)
  case (I_Br opc a l)
  then have "- (2 ^ 15) \<le> the (syms l) - pc" "the (syms l) - pc < 2 ^ 15" using assms by simp_all
  then have "sext (the (syms l) - pc) 16 = the (syms l) - pc" by (intro sext_id) simp_all
  then show ?thesis using assms I_Br by (auto simp: decode_views gen_reg_0)
next
  case (I_Jmp l)
  then show ?thesis using assms by (auto simp: decode_views mask_bits take_bit_int_eq_self)
next
  case (I_Movi d v)
  then have "sext v 16 = v" using assms by (intro sext_id) simp_all
  then show ?thesis using assms I_Movi by (simp add: decode_views gen_reg_0)
next
  case (I_Xori d)
  have "sext 1 16 = 1" by (intro sext_id) simp_all
  then show ?thesis using assms I_Xori by (simp add: decode_views)
next
  case (I_Movhi d v)
  then have "v AND 0x1FFFFF = v" using assms by (simp add: mask_bits take_bit_int_eq_self)
  then show ?thesis using assms I_Movhi by (simp add: decode_views)
qed (use assms in \<open>auto simp: decode_views gen_reg_0 op_codes_def\<close>)

section \<open>Simulation\<close>

text \<open>A memory that begins with the code.\<close>

definition holds_code :: "asm_ins list \<Rightarrow> symtab \<Rightarrow> int list \<Rightarrow> bool" where
  "holds_code P syms m \<longleftrightarrow>
     (\<exists>k. length m = 2 ^ k) \<and> code_size P \<le> 0x7FFF \<and> code_size P < int (length m)
     \<and> (\<forall>i<length P. is_real (P ! i) \<longrightarrow> m ! nat (addr_of P i) = encode_ins syms (addr_of P i) (P ! i))
     \<and> (\<forall>l j. find_label l P = Some j \<longrightarrow> syms l = Some (addr_of P j))"

definition arch_at :: "asm_ins list \<Rightarrow> int list \<Rightarrow> config \<Rightarrow> arch" where
  "arch_at P m c = \<lparr>ar_pc = addr_of P (fst c), ar_regs = snd c, ar_mem = m\<rparr>"

lemma real_addr: "i < length P \<Longrightarrow> is_real (P ! i) \<Longrightarrow> addr_of P i < code_size P"
  using addr_of_Suc [of i P] addr_of_bounds [of P "Suc i"] by simp

lemma wrap_small: "length m = 2 ^ k \<Longrightarrow> 0 \<le> a \<Longrightarrow> a < int (length m) \<Longrightarrow> mem_wrap m a = a"
  by (simp add: mem_wrap_def take_bit_int_eq_self flip: take_bit_eq_mask mask_eq_exp_minus_1)

lemma uses_nth: "i < length P \<Longrightarrow> l \<in> uses_of [P ! i] \<Longrightarrow> l \<in> uses_of P"
proof (induction P arbitrary: i)
  case (Cons a P)
  then show ?case unfolding uses_Cons [of a P] by (cases i) auto
qed simp

lemma label_addr:
  assumes "holds_code P syms m" "l \<in> set (labels_of P)"
  shows "0 \<le> the (syms l) \<and> the (syms l) \<le> 0x7FFF \<and> the (syms l) < int (length m)"
proof -
  obtain j where "syms l = Some (addr_of P j)"
    using find_label_ex [OF assms(2)] assms(1) by (auto simp: holds_code_def)
  then show ?thesis
    using addr_of_bounds [of P j] assms(1) by (auto simp: holds_code_def)
qed

text \<open>The instruction at the program counter.\<close>

lemma fetched:
  assumes h: "holds_code P syms m" and P: "\<forall>i \<in> set P. ins_ok i" "uses_of P \<subseteq> set (labels_of P)"
    and i: "i < length P" "is_real (P ! i)"
  shows "decode (m ! nat (addr_of P i)) = view_ins syms (addr_of P i) (P ! i)"
    and "0 \<le> addr_of P i" "addr_of P i < code_size P" "addr_of P i < int (length m)"
proof -
  show b: "0 \<le> addr_of P i" "addr_of P i < code_size P" "addr_of P i < int (length m)"
    using addr_of_bounds [of P i] real_addr [OF i] h by (auto simp: holds_code_def)
  have "\<forall>l \<in> uses_of [P ! i]. 0 \<le> the (syms l) \<and> the (syms l) \<le> 0x7FFF"
    using label_addr [OF h] uses_nth [OF i(1)] P(2) by blast
  then show "decode (m ! nat (addr_of P i)) = view_ins syms (addr_of P i) (P ! i)"
    using h P(1) i b by (subst decode_ins [symmetric]) (auto simp: holds_code_def)
qed

lemma step_refines:
  assumes h: "holds_code P syms m" and P: "\<forall>i \<in> set P. ins_ok i" "uses_of P \<subseteq> set (labels_of P)"
    and s: "code_step P (i, rs) = Some c" "is_real (P ! i)"
  shows "isa_step (arch_at P m (i, rs)) = arch_at P m c"
    "\<not> isa_halted (arch_at P m (i, rs))" "isa_safe (nat (code_size P) + 2) (arch_at P m (i, rs))"
proof -
  have i: "i < length P" using s(1) by (simp add: code_step_def split: if_splits)
  note f = fetched [OF h P i s(2)]
  have o: "ins_ok (P ! i)" using P(1) i by simp
  have nx: "addr_of P (Suc i) = addr_of P i + 1" using addr_of_Suc [OF i] s(2) by simp
  obtain k where k: "length m = 2 ^ k" using h by (auto simp: holds_code_def)
  have w: "the (syms l) = addr_of P j \<and> mem_wrap m (addr_of P j) = addr_of P j" if "find_label l P = Some j" for l j
  proof -
    have "l \<in> set (labels_of P)" using find_label_nth [OF that] labels_of_set by (metis nth_mem)
    from label_addr [OF h this] wrap_small [OF k] have "mem_wrap m (the (syms l)) = the (syms l)" by simp
    moreover have "the (syms l) = addr_of P j" using that h by (simp add: holds_code_def)
    ultimately show ?thesis by simp
  qed
  show "isa_step (arch_at P m (i, rs)) = arch_at P m c"
    using s i o f(2,4) w
    by (cases "P ! i") (auto simp: isa_step_def arch_at_def f(1) nx code_step_def Let_def op_codes_def LOADS_def
        split: if_splits)
  show "\<not> isa_halted (arch_at P m (i, rs))"
    using s i o by (cases "P ! i") (auto simp: isa_halted_def arch_at_def f(1) code_step_def op_codes_def)
  show "isa_safe (nat (code_size P) + 2) (arch_at P m (i, rs))"
    using s i f(2,3) by (cases "P ! i") (auto simp: isa_safe_def arch_at_def f(1) code_step_def)
qed

lemma label_stutters:
  assumes "code_step P (i, rs) = Some c" "\<not> is_real (P ! i)"
  shows "arch_at P m c = arch_at P m (i, rs)"
proof -
  have i: "i < length P" using assms(1) by (simp add: code_step_def split: if_splits)
  with assms show ?thesis
    using addr_of_Suc [OF i] by (cases "P ! i") (auto simp: code_step_def arch_at_def)
qed

text \<open>A run of the machine is a run of the architecture inside the code.\<close>

definition runs_to :: "nat \<Rightarrow> arch \<Rightarrow> arch \<Rightarrow> bool" where
  "runs_to s A B \<longleftrightarrow> (\<exists>n. (isa_step ^^ n) A = B
     \<and> (\<forall>k<n. \<not> isa_halted ((isa_step ^^ k) A) \<and> isa_safe s ((isa_step ^^ k) A)))"

lemma runs_to_refl: "runs_to s A A"
  unfolding runs_to_def by (rule exI [of _ 0]) simp

lemma runs_to_step:
  assumes "isa_step A = B" "\<not> isa_halted A" "isa_safe s A" "runs_to s B C"
  shows "runs_to s A C"
proof -
  obtain n where n: "(isa_step ^^ n) B = C" "\<forall>k<n. \<not> isa_halted ((isa_step ^^ k) B) \<and> isa_safe s ((isa_step ^^ k) B)"
    using assms(4) by (auto simp: runs_to_def)
  have sh: "(isa_step ^^ Suc k) A = (isa_step ^^ k) B" for k
    by (simp add: assms(1) funpow_swap1)
  have "\<not> isa_halted ((isa_step ^^ k) A) \<and> isa_safe s ((isa_step ^^ k) A)" if "k < Suc n" for k
    using that n(2) assms(2,3) sh [of "k - 1"] by (cases "k = 0") (simp, simp del: funpow.simps)
  then show ?thesis
    unfolding runs_to_def using n(1) sh by (intro exI [of _ "Suc n"]) (simp del: funpow.simps)
qed

lemma goes_runs:
  assumes h: "holds_code P syms m" and P: "\<forall>i \<in> set P. ins_ok i" "uses_of P \<subseteq> set (labels_of P)"
    and g: "goes P c c'"
  shows "runs_to (nat (code_size P) + 2) (arch_at P m c) (arch_at P m c')"
  using g unfolding goes_def
proof (induction rule: converse_rtranclp_induct)
  case (step c d)
  obtain i rs where c: "c = (i, rs)" by (cases c)
  show ?case
  proof (cases "is_real (P ! i)")
    case True
    from step_refines [OF h P step(1) [unfolded c] True] step(3) show ?thesis
      unfolding c by (rule runs_to_step)
  next
    case False
    from label_stutters [OF step(1) [unfolded c] False] step(3) show ?thesis
      unfolding c by simp
  qed
qed (rule runs_to_refl)

end
