(* ===== verification/Code_Shape.thy ===== *)
theory Code_Shape
  imports Gen_Code Asm_Machine "HOL-Library.Multiset"
begin

unbundle bit_operations_syntax

text \<open>
  The shape of the generated code: the registers of variables and temporaries, valid instructions, labels
  that are distinct because each is numbered once, and no label but these and those of the enclosing
  loops.
\<close>

section \<open>Numbered labels\<close>

definition lab_no :: "string \<Rightarrow> int" where
  "lab_no l = (if CHR ''_'' \<in> set l then digits_value 10 0 (rev (takeWhile is_dec_digit (rev l))) else - 1)"

lemma lab_no_lbl: "0 \<le> n \<Longrightarrow> lab_no (lbl p n) = n"
proof -
  assume n: "0 \<le> n"
  have d: "list_all is_dec_digit (rev (nat_digits 10 (nat n)))"
    using nat_digits_dec(2) [of "nat n"] by (simp add: list_all_iff)
  have u: "\<not> is_dec_digit (CHR ''_'')" by (simp add: is_dec_digit_def)
  have "takeWhile is_dec_digit (rev (nat_digits 10 (nat n)) @ CHR ''_'' # rev p) = rev (nat_digits 10 (nat n))"
    using d u by (simp add: list_all_iff takeWhile_append)
  then show ?thesis
    using n nat_digits_value [of 10 "nat n"] by (simp add: lab_no_def lbl_def fmt_dec_def)
qed

definition numbered :: "int \<Rightarrow> int \<Rightarrow> string list \<Rightarrow> bool" where
  "numbered a b ls \<longleftrightarrow> distinct (map lab_no ls) \<and> (\<forall>l \<in> set ls. a \<le> lab_no l \<and> lab_no l < b)"

lemma numbered_nil: "numbered a b []"
  by (simp add: numbered_def)

lemma numbered_distinct: "numbered a b ls \<Longrightarrow> distinct ls"
  by (simp add: numbered_def distinct_map)

lemma numbered_append: "numbered a b xs \<Longrightarrow> numbered b c ys \<Longrightarrow> a \<le> b \<Longrightarrow> b \<le> c \<Longrightarrow> numbered a c (xs @ ys)"
  by (fastforce simp: numbered_def)

lemma numbered_mono: "numbered a b xs \<Longrightarrow> a' \<le> a \<Longrightarrow> b \<le> b' \<Longrightarrow> numbered a' b' xs"
  by (fastforce simp: numbered_def)

lemma numbered_cong: "mset ys = mset xs \<Longrightarrow> numbered a b xs \<Longrightarrow> numbered a b ys"
  unfolding numbered_def by (metis mset_eq_imp_distinct_iff mset_eq_setD mset_map)

lemma numbered_one: "a \<le> n \<Longrightarrow> n < b \<Longrightarrow> 0 \<le> n \<Longrightarrow> numbered a b [lbl p n]"
  by (simp add: numbered_def lab_no_lbl)

section \<open>Registers\<close>

text \<open>The registers of values: not R0, the return value R1, the scratch R26, or SP and LR.\<close>

definition val_reg :: "int \<Rightarrow> bool" where
  "val_reg r \<longleftrightarrow> 2 \<le> r \<and> r \<le> MAX_REGS \<and> r \<noteq> FLAGS_TMP"

definition gs_ok :: "gs \<Rightarrow> bool" where
  "gs_ok s \<longleftrightarrow> 2 \<le> gs_next s \<and> 0 \<le> gs_cnt s \<and> (\<forall>(x, r) \<in> set (gs_vars s). val_reg r \<and> r < gs_next s)
     \<and> distinct (map snd (gs_vars s)) \<and> distinct (map fst (gs_vars s))"

definition more_vars :: "gs \<Rightarrow> gs \<Rightarrow> bool" where
  "more_vars s t \<longleftrightarrow> map_of (gs_vars s) \<subseteq>\<^sub>m map_of (gs_vars t)"

lemma more_vars_refl: "more_vars s s"
  by (simp add: more_vars_def)

lemma more_vars_trans [trans]: "more_vars s t \<Longrightarrow> more_vars t u \<Longrightarrow> more_vars s u"
  unfolding more_vars_def by (rule map_le_trans)

lemma gen_val_reg: "val_reg r \<Longrightarrow> gen_reg r"
  by (simp add: val_reg_def gen_reg_def MAX_REGS_def)

lemma scratch_reg: "gen_reg FLAGS_TMP" "gen_reg 1"
  by (simp_all add: gen_reg_def FLAGS_TMP_def)

text \<open>From \<open>s\<close> to \<open>t\<close> the code \<open>f\<close> is generated.\<close>

definition shape :: "gs \<Rightarrow> asm_ins list \<Rightarrow> gs \<Rightarrow> bool" where
  "shape s f t \<longleftrightarrow> gs_ok t \<and> gs_cnt s \<le> gs_cnt t \<and> more_vars s t \<and> (\<forall>i \<in> set f. ins_ok i)
     \<and> numbered (gs_cnt s) (gs_cnt t) (labels_of f)"

lemma shape_nil: "gs_ok s \<Longrightarrow> shape s [] s"
  by (simp add: shape_def numbered_nil more_vars_refl)

lemma shape_append: "shape s f t \<Longrightarrow> shape t g u \<Longrightarrow> shape s (f @ g) u"
  by (auto simp: shape_def intro: numbered_append more_vars_trans)

lemma temp_shape:
  assumes "g_temp s = Some (r, t)" "gs_ok s"
  shows "shape s [] t" "val_reg r" "gs_next s \<le> r" "r < gs_next t" "gs_vars t = gs_vars s" "gs_cnt t = gs_cnt s"
  using assms by (fastforce simp: g_temp_def gs_ok_def shape_def numbered_nil more_vars_def val_reg_def MAX_REGS_def
      FLAGS_TMP_def Let_def split: if_splits)+

lemma update_new: "map_of al k = None \<Longrightarrow> AList.update k v al = al @ [(k, v)]"
  by (induction al) (auto split: if_splits)

lemma var_shape:
  assumes "g_var n s = Some (r, t)" "gs_ok s"
  shows "shape s [] t" "val_reg r" "gs_next s \<le> gs_next t" "r < gs_next t" "gs_cnt t = gs_cnt s"
    "map_of (gs_vars t) = (map_of (gs_vars s))(n \<mapsto> r)" "map_of (gs_vars s) n = None \<Longrightarrow> gs_next s \<le> r"
proof -
  have "shape s [] t \<and> val_reg r \<and> gs_next s \<le> gs_next t \<and> r < gs_next t \<and> gs_cnt t = gs_cnt s
    \<and> map_of (gs_vars t) = (map_of (gs_vars s))(n \<mapsto> r) \<and> (map_of (gs_vars s) n = None \<longrightarrow> gs_next s \<le> r)"
  proof (cases "map_of (gs_vars s) n")
    case (Some q)
    then have "(n, q) \<in> set (gs_vars s)" by (rule map_of_SomeD)
    then show ?thesis
      using assms Some shape_nil [OF assms(2)] by (auto simp: g_var_def gs_ok_def fun_upd_idem)
  next
    case None
    then obtain u where u: "g_temp s = Some (r, u)" "t = u\<lparr>gs_vars := gs_vars s @ [(n, r)]\<rparr>"
      using assms(1) by (auto simp: g_var_def update_new g_temp_def Let_def split: if_splits)
    note e = temp_shape [OF u(1) assms(2)]
    have ok: "gs_ok u" using e(1) by (simp add: shape_def)
    have f: "n \<notin> fst ` set (gs_vars s)" using None by (simp add: map_of_eq_None_iff)
    have g: "r \<notin> snd ` set (gs_vars s)" using assms(2) e(3) by (auto simp: gs_ok_def)
    have m: "map_of (gs_vars s @ [(n, r)]) = (map_of (gs_vars s))(n \<mapsto> r)"
      using None by (auto simp: map_add_def split: option.split)
    have "gs_ok t" using ok e f g by (auto simp: u(2) gs_ok_def)
    moreover have "more_vars s t" using None by (auto simp: more_vars_def u(2) m map_le_def)
    ultimately show ?thesis
      using e m by (auto simp: u(2) shape_def numbered_nil)
  qed
  then show "shape s [] t" "val_reg r" "gs_next s \<le> gs_next t" "r < gs_next t" "gs_cnt t = gs_cnt s"
    "map_of (gs_vars t) = (map_of (gs_vars s))(n \<mapsto> r)" "map_of (gs_vars s) n = None \<Longrightarrow> gs_next s \<le> r"
    by blast+
qed

section \<open>Expressions\<close>

text \<open>An expression uses only its own labels, and its value is in a register of a value.\<close>

definition expr_shape :: "gs \<Rightarrow> int \<Rightarrow> asm_ins list \<Rightarrow> gs \<Rightarrow> bool" where
  "expr_shape s r f t \<longleftrightarrow> shape s f t \<and> uses_of f \<subseteq> set (labels_of f) \<and> val_reg r \<and> r < gs_next t \<and> gs_next s \<le> gs_next t"

lemma letter_not_int:
  assumes "clean l" "65 \<le> code (hd l)" "code (hd l) \<le> 90"
  shows "\<not> is_int l"
proof -
  obtain c cs where l: "l = c # cs" using assms(1) by (cases l) (auto simp: clean_def)
  have d: "code (lower_char c) = code c + 32" using assms(2,3) by (simp add: lower_char_def l)
  then have "lower_char c \<noteq> CHR ''-''" "lower_char c \<noteq> CHR ''0''" "\<not> is_dec_digit (lower_char c)"
    using assms(2,3) by (auto simp: is_dec_digit_def l)
  then show ?thesis
    using strip_clean [OF assms(1)] by (simp add: is_int_def Let_def py_lower_def l)
qed

lemma prefix_letters:
  "list_all (\<lambda>p. clean p \<and> 65 \<le> (code (hd p) :: nat) \<and> (code (hd p) :: nat) \<le> 90)
    [''CMP_T'', ''CMP_E'', ''AND_FALSE'', ''AND_END'', ''OR_TRUE'', ''OR_END'', ''NOT_ONE'', ''NOT_END'',
     ''ELSE'', ''ENDIF'', ''WHILE_TEST'', ''WHILE_END'', ''FOR_TEST'', ''FOR_UPD'', ''FOR_END'']"
  by code_simp

lemma label_ok_prefix:
  "clean p \<and> 65 \<le> (code (hd p) :: nat) \<and> (code (hd p) :: nat) \<le> 90 \<Longrightarrow> label_ok (lbl p n)"
proof -
  assume p: "clean p \<and> 65 \<le> (code (hd p) :: nat) \<and> (code (hd p) :: nat) \<le> 90"
  have "clean (''_'' @ fmt_dec n)"
    using fmt_dec_clean [of n] by (simp add: clean_def clean_char_def is_space_def)
  then have "clean (lbl p n)" using p by (simp add: lbl_def clean_def)
  moreover have "hd (lbl p n) = hd p" using p by (cases p) (auto simp: lbl_def clean_def)
  ultimately show ?thesis using p letter_not_int [of "lbl p n"] by (simp add: label_ok_def)
qed

lemma label_ok_lbl [simp]:
  "label_ok (lbl ''CMP_T'' n)" "label_ok (lbl ''CMP_E'' n)" "label_ok (lbl ''AND_FALSE'' n)" "label_ok (lbl ''AND_END'' n)"
  "label_ok (lbl ''OR_TRUE'' n)" "label_ok (lbl ''OR_END'' n)" "label_ok (lbl ''NOT_ONE'' n)" "label_ok (lbl ''NOT_END'' n)"
  "label_ok (lbl ''ELSE'' n)" "label_ok (lbl ''ENDIF'' n)" "label_ok (lbl ''WHILE_TEST'' n)" "label_ok (lbl ''WHILE_END'' n)"
  "label_ok (lbl ''FOR_TEST'' n)" "label_ok (lbl ''FOR_UPD'' n)" "label_ok (lbl ''FOR_END'' n)"
  using prefix_letters unfolding list.pred_inject by (blast intro: label_ok_prefix)+

lemma numbered_two: "0 \<le> n \<Longrightarrow> numbered n (n + 2) [lbl p n, lbl q (n + 1)]"
  by (simp add: numbered_def lab_no_lbl)

lemma used_labels_simps [simp]:
  "gs_vars (used_labels k s) = gs_vars s" "gs_next (used_labels k s) = gs_next s" "gs_cnt (used_labels k s) = gs_cnt s + k"
  by (simp_all add: used_labels_def)

lemma used_labels_ok: "gs_ok s \<Longrightarrow> 0 \<le> k \<Longrightarrow> gs_ok (used_labels k s)"
  by (simp add: gs_ok_def)

lemma op_code_set: "op_code op = Some opc \<Longrightarrow> opc \<in> set op_codes"
  by (auto simp: op_code_def op_codes_def split: if_splits)

lemma imm_ok:
  assumes "gen_reg r"
  shows "list_all ins_ok (g_imm r v)" "labels_of (g_imm r v) = []" "uses_of (g_imm r v) = {}"
proof -
  have "0 \<le> shr v 11 AND 0x1FFFFF" "shr v 11 AND 0x1FFFFF < 2 ^ 21" "0 \<le> v AND 0xFFFF" "v AND 0xFFFF < 2 ^ 16"
    using mask21_bounds [of "shr v 11"] AND_upper2 [of "0xFFFF" v] by simp_all
  then show "list_all ins_ok (g_imm r v)" "labels_of (g_imm r v) = []" "uses_of (g_imm r v) = {}"
    using assms by (simp_all add: g_imm_def)
qed

lemma choice_ok:
  assumes "gen_reg r" "gen_reg rd" "label_ok lt" "label_ok le" "opc \<in> {Op_BEQ, Op_BNE}"
  shows "list_all ins_ok (g_choice opc r lt le rd)" "labels_of (g_choice opc r lt le rd) = [lt, le]"
    "uses_of (g_choice opc r lt le rd) = {lt, le}"
  using assms by (auto simp: g_choice_def)

lemma op_shape:
  assumes "g_op op rd rl rr s = Some (fo, t)" "gs_ok s" "gen_reg rd" "gen_reg rl" "gen_reg rr"
  shows "shape s fo t" "uses_of fo \<subseteq> set (labels_of fo)" "gs_next t = gs_next s" "gs_vars t = gs_vars s"
proof -
  have "shape s fo t \<and> uses_of fo \<subseteq> set (labels_of fo) \<and> gs_next t = gs_next s \<and> gs_vars t = gs_vars s"
  proof (cases "op_code op = None \<and> op \<in> {''=='', ''!=''}")
    case True
    let ?lt = "lbl ''CMP_T'' (gs_cnt s)" and ?le = "lbl ''CMP_E'' (gs_cnt s + 1)"
      and ?b = "if op = ''=='' then Op_BEQ else Op_BNE"
    have fo: "fo = I_Op Op_SUB FLAGS_TMP rl rr # g_choice ?b FLAGS_TMP ?lt ?le rd" "t = used_labels 2 s"
      using assms(1) True by (auto simp: g_op_def)
    have n: "0 \<le> gs_cnt s" using assms(2) by (simp add: gs_ok_def)
    have "list_all ins_ok fo" "labels_of fo = [?lt, ?le]" "uses_of fo = {?lt, ?le}"
      using choice_ok [OF scratch_reg(1) assms(3), of ?lt ?le ?b] assms(4,5) scratch_reg
      by (simp_all add: fo op_codes_def)
    then show ?thesis
      using used_labels_ok [OF assms(2), of 2] numbered_two [OF n]
      by (auto simp: shape_def fo(2) list_all_iff more_vars_def)
  next
    case False
    then have "t = s" "list_all ins_ok fo" "labels_of fo = []" "uses_of fo = {}"
      using assms(1,3-5) op_code_set [of op] by (auto simp: g_op_def op_codes_def split: option.splits if_splits)
    then show ?thesis
      using assms(2) by (simp add: shape_def numbered_nil more_vars_refl list_all_iff)
  qed
  then show "shape s fo t" "uses_of fo \<subseteq> set (labels_of fo)" "gs_next t = gs_next s" "gs_vars t = gs_vars s" by simp_all
qed

lemma shape_ok: "shape s f t \<Longrightarrow> gs_ok t"
  by (simp add: shape_def)

lemma expr_shape_ok: "expr_shape s r f t \<Longrightarrow> gs_ok t"
  by (auto simp: expr_shape_def dest: shape_ok)

lemma binop_shape:
  assumes a: "g_expr a s = Some (rl, fa, s1)" "expr_shape s rl fa s1"
    and b: "g_expr b s1 = Some (rr, fb, s2)" "expr_shape s1 rr fb s2"
    and d: "(case dest of Some r \<Rightarrow> Some (r, s2) | None \<Rightarrow> g_temp s2) = Some (rd, s3)" "\<forall>r. dest = Some r \<longrightarrow> val_reg r \<and> r < gs_next s"
    and o: "g_op op rd rl rr s3 = Some (fo, t)"
  shows "expr_shape s rd (fa @ fb @ fo) t"
proof -
  have ok: "gs_ok s2" by (rule expr_shape_ok [OF b(2)])
  have r: "val_reg rd" "rd < gs_next s3" "shape s2 [] s3" "gs_next s2 \<le> gs_next s3"
  proof -
    have "val_reg rd \<and> rd < gs_next s3 \<and> shape s2 [] s3 \<and> gs_next s2 \<le> gs_next s3"
    proof (cases dest)
      case None
      then show ?thesis using temp_shape [of s2 rd s3] d(1) ok by simp
    next
      case (Some q)
      then show ?thesis using d a(2) b(2) shape_nil [OF ok] by (simp add: expr_shape_def)
    qed
    then show "val_reg rd" "rd < gs_next s3" "shape s2 [] s3" "gs_next s2 \<le> gs_next s3" by simp_all
  qed
  have ab: "val_reg rl" "val_reg rr" using a(2) b(2) by (simp_all add: expr_shape_def)
  note op = op_shape [OF o shape_ok [OF r(3)] gen_val_reg [OF r(1)] gen_val_reg [OF ab(1)] gen_val_reg [OF ab(2)]]
  have "shape s (fa @ fb @ fo) t"
    using shape_append [of s fa s1 "fb @ [] @ fo" t] shape_append [of s1 fb s2 "[] @ fo" t] shape_append [OF r(3) op(1)] a(2) b(2)
    by (simp add: expr_shape_def)
  then show ?thesis
    using a(2) b(2) op r by (auto simp: expr_shape_def)
qed

lemma expr_has_shape:
  "g_expr e s = Some (r, f, t) \<Longrightarrow> gs_ok s \<Longrightarrow> expr_shape s r f t"
proof (induction e arbitrary: s r f t)
  case (IntLiteral v l)
  then obtain u where u: "g_temp s = Some (r, u)" "f = g_imm r v" "t = u" by auto
  note e = temp_shape [OF u(1) IntLiteral.prems(2)]
  show ?case
    using e imm_ok [OF gen_val_reg [OF e(2)], of v] by (auto simp: expr_shape_def shape_def u list_all_iff numbered_nil)
next
  case (VarRef n l)
  then have "g_var n s = Some (r, t)" "f = []" by auto
  then show ?case using var_shape [of n s r t] VarRef.prems(2) by (simp add: expr_shape_def)
next
  case (BinOp op a b l)
  show ?case
  proof (cases "op \<in> {''&&'', ''||''}")
    case False
    then obtain rl fa s1 rr fb s2 s3 fo where x: "g_expr a s = Some (rl, fa, s1)" "g_expr b s1 = Some (rr, fb, s2)"
      "g_temp s2 = Some (r, s3)" "g_op op r rl rr s3 = Some (fo, t)" "f = fa @ fb @ fo"
      using BinOp.prems(1) by (auto simp: g_binop_def bind_eq_Some_conv)
    have a: "expr_shape s rl fa s1" by (rule BinOp.IH(1) [OF x(1) BinOp.prems(2)])
    have b: "expr_shape s1 rr fb s2" by (rule BinOp.IH(2) [OF x(2) expr_shape_ok [OF a]])
    show ?thesis
      unfolding x(5) by (rule binop_shape [OF x(1) a x(2) b _ _ x(4), of None]) (simp_all add: x(3))
  next
    case True
    then obtain p q opc thru out where g: "g_logical p q opc thru out (g_expr a) (g_expr b) s = Some (r, f, t)"
      and o: "opc \<in> {Op_BEQ, Op_BNE}" "thru \<in> {0, 1}" "out \<in> {0, 1}" "\<And>n. label_ok (lbl p n)" "\<And>n. label_ok (lbl q n)"
      using BinOp.prems(1) by (auto split: if_splits)
    let ?lo = "lbl p (gs_cnt s)" and ?le = "lbl q (gs_cnt s + 1)"
    obtain s1 rl fa s2 rr fb where x: "g_temp (used_labels 2 s) = Some (r, s1)" "g_expr a s1 = Some (rl, fa, s2)"
      "g_expr b s2 = Some (rr, fb, t)" "f = fa @ [I_Br opc rl ?lo] @ fb @ [I_Br opc rr ?lo, I_Movi r thru, I_Jmp ?le,
        I_Label ?lo, I_Movi r out, I_Label ?le]"
      using g by (auto simp: g_logical_def bind_eq_Some_conv Let_def)
    have u: "gs_ok (used_labels 2 s)" by (rule used_labels_ok [OF BinOp.prems(2)]) simp
    note e = temp_shape [OF x(1) u]
    have a: "expr_shape s1 rl fa s2" by (rule BinOp.IH(1) [OF x(2) shape_ok [OF e(1)]])
    have b: "expr_shape s2 rr fb t" by (rule BinOp.IH(2) [OF x(3) expr_shape_ok [OF a]])
    have n: "0 \<le> gs_cnt s" using BinOp.prems(2) by (simp add: gs_ok_def)
    have "numbered (gs_cnt s1) (gs_cnt t) (labels_of fa @ labels_of fb)"
      using a b by (auto simp: expr_shape_def shape_def intro: numbered_append)
    from numbered_append [OF numbered_two [OF n, of p q], of "gs_cnt t"] this e(6) a b
    have "numbered (gs_cnt s) (gs_cnt t) ([?lo, ?le] @ labels_of fa @ labels_of fb)"
      by (simp add: expr_shape_def shape_def)
    then have "numbered (gs_cnt s) (gs_cnt t) (labels_of f)"
      by (rule numbered_cong [rotated]) (simp add: x(4))
    moreover have "\<forall>i \<in> set f. ins_ok i"
      using a b o e gen_val_reg by (auto simp: x(4) expr_shape_def shape_def)
    moreover have "more_vars s t"
      using a b e(5) by (auto simp: expr_shape_def shape_def more_vars_def intro: map_le_trans)
    moreover have "uses_of f \<subseteq> set (labels_of f)"
      using a b by (auto simp: x(4) expr_shape_def)
    ultimately show ?thesis
      using a b e by (auto simp: expr_shape_def shape_def)
  qed
next
  case (UnaryOp op a l)
  obtain ra fa s1 s2 where x: "g_expr a s = Some (ra, fa, s1)" "g_temp s1 = Some (r, s2)"
    "(if op = ''-'' then Some (r, fa @ [I_Op1 Op_NEG r ra], s2)
      else if op = ''~'' then Some (r, fa @ [I_Op1 Op_NOT r ra], s2)
      else if op = ''!'' then
        Some (r, fa @ g_choice Op_BEQ ra (lbl ''NOT_ONE'' (gs_cnt s2)) (lbl ''NOT_END'' (gs_cnt s2 + 1)) r, used_labels 2 s2)
      else None) = Some (r, f, t)"
    using UnaryOp.prems(1) by (auto simp: g_unary_def bind_eq_Some_conv split: if_splits)
  have a: "expr_shape s ra fa s1" by (rule UnaryOp.IH [OF x(1) UnaryOp.prems(2)])
  then have ok: "gs_ok s1" by (rule expr_shape_ok)
  note e = temp_shape [OF x(2) ok]
  have r: "gen_reg r" "gen_reg ra" using e(2) a gen_val_reg by (simp_all add: expr_shape_def)
  obtain g where g: "f = fa @ g" "shape s2 g t" "uses_of g \<subseteq> set (labels_of g)" "gs_next t = gs_next s2"
  proof (cases "op = ''!''")
    case True
    let ?g = "g_choice Op_BEQ ra (lbl ''NOT_ONE'' (gs_cnt s2)) (lbl ''NOT_END'' (gs_cnt s2 + 1)) r"
    have n: "0 \<le> gs_cnt s2" using shape_ok [OF e(1)] by (simp add: gs_ok_def)
    have "shape s2 ?g (used_labels 2 s2)"
      using choice_ok [OF r(2,1), of "lbl ''NOT_ONE'' (gs_cnt s2)" "lbl ''NOT_END'' (gs_cnt s2 + 1)" Op_BEQ]
        numbered_two [OF n] used_labels_ok [OF shape_ok [OF e(1)], of 2]
      by (auto simp: shape_def list_all_iff more_vars_def)
    then show thesis
      using that [of ?g] x(3) True choice_ok [OF r(2,1)] by auto
  next
    case False
    then show thesis
      using that [of "[I_Op1 (if op = ''-'' then Op_NEG else Op_NOT) r ra]"] x(3) r shape_ok [OF e(1)]
      by (auto simp: shape_def numbered_nil more_vars_refl split: if_splits)
  qed
  have "shape s (fa @ [] @ g) t"
    using a shape_append [OF e(1) g(2)] by (auto simp: expr_shape_def intro: shape_append)
  then show ?case using a g e by (auto simp: expr_shape_def)
qed simp_all

section \<open>Statements\<close>

definition stack_labels :: "loops \<Rightarrow> string set" where
  "stack_labels stk = fst ` set stk \<union> snd ` set stk"

lemma stack_labels_simps [simp]:
  "stack_labels [] = {}" "stack_labels ((a, b) # stk) = insert a (insert b (stack_labels stk))"
  by (auto simp: stack_labels_def)

definition stmt_shape :: "gs \<Rightarrow> loops \<Rightarrow> asm_ins list \<Rightarrow> gs \<Rightarrow> bool" where
  "stmt_shape s stk f t \<longleftrightarrow> shape s f t \<and> uses_of f \<subseteq> set (labels_of f) \<union> stack_labels stk"

lemma stmt_shape_ok: "stmt_shape s stk f t \<Longrightarrow> gs_ok t"
  by (auto simp: stmt_shape_def dest: shape_ok)

lemma free_vars [simp]: "gs_vars (g_free s) = gs_vars s" "gs_cnt (g_free s) = gs_cnt s"
  by (simp_all add: g_free_def)

lemma free_ok: "gs_ok s \<Longrightarrow> gs_ok (g_free s)"
proof -
  assume s: "gs_ok s"
  have "r < gs_next (g_free s)" if "(x, r) \<in> set (gs_vars s)" for x r
  proof -
    have "r \<in> set (map snd (gs_vars s))" using that by force
    then show ?thesis using that by (auto simp: g_free_def less_Suc_eq_le intro!: le_imp_0_less Max_ge zle_add1_eq_le [THEN iffD2])
  qed
  moreover have "2 \<le> gs_next (g_free s)"
  proof (cases "gs_vars s")
    case (Cons p vs)
    obtain x r where p: "p = (x, r)" by (cases p)
    then have "val_reg r" using s Cons by (simp add: gs_ok_def)
    moreover have "r < gs_next (g_free s)" using calculation \<open>\<And>x r. (x, r) \<in> set (gs_vars s) \<Longrightarrow> r < gs_next (g_free s)\<close> [of x r] Cons p by simp
    ultimately show ?thesis by (simp add: val_reg_def)
  qed (simp add: g_free_def FIRST_REG_def)
  ultimately show ?thesis using s by (auto simp: gs_ok_def)
qed

lemma shape_free: "shape s f t \<Longrightarrow> shape s f (g_free t)"
  by (auto simp: shape_def more_vars_def free_ok)

lemma set_shape:
  assumes "g_set reg e s = Some (f, t)" "gs_ok s" "gen_reg reg"
  shows "shape s f t" "uses_of f \<subseteq> set (labels_of f)"
proof -
  obtain r g where g: "g_expr e s = Some (r, g, t)" "f = g @ g_move reg r" using assms(1) by (auto simp: g_set_def)
  have e: "expr_shape s r g t" by (rule expr_has_shape [OF g(1) assms(2)])
  then have "gen_reg r" by (simp add: expr_shape_def gen_val_reg)
  with e assms(3) show "shape s f t" "uses_of f \<subseteq> set (labels_of f)"
    by (auto simp: g(2) expr_shape_def shape_def g_move_def)
qed

lemma assign_shape:
  assumes "g_assign n op e s = Some (f, t)" "gs_ok s"
  shows "shape s f t" "uses_of f \<subseteq> set (labels_of f)"
proof -
  obtain reg s1 where v: "g_var n s = Some (reg, s1)"
    and x: "(if op = ''='' then
         (case e of
            BinOp bop l r _ \<Rightarrow>
              if bop \<notin> {''&&'', ''||''}
              then map_option (\<lambda>(_, f, s). (f, s)) (g_binop bop (g_expr l) (g_expr r) (Some reg) s1)
              else g_set reg e s1
          | _ \<Rightarrow> g_set reg e s1)
       else
         Option.bind (g_expr e s1) (\<lambda>(r, f, s).
           map_option (\<lambda>opc. (f @ [I_Op opc reg reg r], s)) (op_code (butlast op)))) = Some (f, t)"
    using assms(1) by (auto simp: g_assign_def bind_eq_Some_conv)
  note v = var_shape [OF v assms(2)]
  have ok: "gs_ok s1" by (rule shape_ok [OF v(1)])
  note gr = gen_val_reg [OF v(2)]
  have "shape s1 f t \<and> uses_of f \<subseteq> set (labels_of f)"
  proof (cases "op = ''=''")
    case False
    then obtain r g opc where g: "g_expr e s1 = Some (r, g, t)" "op_code (butlast op) = Some opc" "f = g @ [I_Op opc reg reg r]"
      using x by (auto simp: bind_eq_Some_conv)
    have e: "expr_shape s1 r g t" by (rule expr_has_shape [OF g(1) ok])
    then have "gen_reg r" by (simp add: expr_shape_def gen_val_reg)
    then show ?thesis
      using e gr op_code_set [OF g(2)] by (auto simp: g(3) expr_shape_def shape_def)
  next
    case True
    show ?thesis
    proof (cases "\<exists>bop l r b. e = BinOp bop l r b \<and> bop \<notin> {''&&'', ''||''}")
      case True
      then obtain bop l r' b where e: "e = BinOp bop l r' b" "bop \<notin> {''&&'', ''||''}" by blast
      then obtain q where "g_binop bop (g_expr l) (g_expr r') (Some reg) s1 = Some (q, f, t)"
        using x \<open>op = ''=''\<close> by auto
      then obtain rl fa s2 rr fb s3 fo where y: "g_expr l s1 = Some (rl, fa, s2)" "g_expr r' s2 = Some (rr, fb, s3)"
        "g_op bop reg rl rr s3 = Some (fo, t)" "f = fa @ fb @ fo"
        by (auto simp: g_binop_def bind_eq_Some_conv)
      have a: "expr_shape s1 rl fa s2" by (rule expr_has_shape [OF y(1) ok])
      have b: "expr_shape s2 rr fb s3" by (rule expr_has_shape [OF y(2) expr_shape_ok [OF a]])
      have "expr_shape s1 reg (fa @ fb @ fo) t"
        by (rule binop_shape [OF y(1) a y(2) b _ _ y(3), of "Some reg"]) (use v in simp_all)
      then show ?thesis by (simp add: y(4) expr_shape_def)
    next
      case False
      with x \<open>op = ''=''\<close> have "g_set reg e s1 = Some (f, t)" by (cases e) auto
      from set_shape [OF this ok gr] show ?thesis by simp
    qed
  qed
  then show "shape s f t" "uses_of f \<subseteq> set (labels_of f)"
    using shape_append [OF v(1)] by auto
qed

lemma cond_shape:
  assumes "g_cond c l s = Some (f, t)" "gs_ok s" "label_ok l"
  shows "shape s f t" "uses_of f \<subseteq> insert l (set (labels_of f))"
proof -
  have "shape s f t \<and> uses_of f \<subseteq> insert l (set (labels_of f))"
  proof (cases c)
    case None
    then show ?thesis using assms by (simp add: g_cond_def shape_nil)
  next
    case (Some e)
    then obtain r g where g: "g_expr e s = Some (r, g, t)" "f = g @ [I_Br Op_BEQ r l]"
      using assms(1) by (auto simp: g_cond_def)
    have e: "expr_shape s r g t" by (rule expr_has_shape [OF g(1) assms(2)])
    then have "gen_reg r" by (simp add: expr_shape_def gen_val_reg)
    with e assms(3) show ?thesis by (auto simp: g(2) expr_shape_def shape_def)
  qed
  then show "shape s f t" "uses_of f \<subseteq> insert l (set (labels_of f))" by simp_all
qed

lemma shape_cnt: "shape s f t \<Longrightarrow> gs_cnt s \<le> gs_cnt t" "shape s f t \<Longrightarrow> numbered (gs_cnt s) (gs_cnt t) (labels_of f)"
  "shape s f t \<Longrightarrow> i \<in> set f \<Longrightarrow> ins_ok i" "shape s f t \<Longrightarrow> more_vars s t"
  by (simp_all add: shape_def)

lemma numbered_seq: "0 \<le> n \<Longrightarrow> numbered n (n + 3) [lbl p n, lbl q (n + 1), lbl r (n + 2)]"
  by (simp add: numbered_def lab_no_lbl)

text \<open>Code that adds its own labels, numbered first, to the code of its parts.\<close>

lemma shape_around:
  assumes "shape (used_labels k s) f t" "gs_ok s" "0 \<le> k"
    and "numbered (gs_cnt s) (gs_cnt s + k) ls" "mset (labels_of g) = mset (ls @ labels_of f)"
    and "\<And>i. i \<in> set g \<Longrightarrow> i \<in> set f \<or> ins_ok i"
  shows "shape s g t"
proof -
  have "numbered (gs_cnt s) (gs_cnt t) (ls @ labels_of f)"
    using assms(1-4) by (intro numbered_append) (auto simp: shape_def)
  then have "numbered (gs_cnt s) (gs_cnt t) (labels_of g)" by (rule numbered_cong [OF assms(5)])
  then show ?thesis
    using assms by (auto simp: shape_def more_vars_def)
qed

definition gen_shape :: "(loops \<Rightarrow> stmt_gen) \<Rightarrow> bool" where
  "gen_shape g \<longleftrightarrow> (\<forall>stk s f t. g stk s = Some (f, t) \<longrightarrow> gs_ok s \<longrightarrow> (\<forall>l \<in> stack_labels stk. label_ok l)
     \<longrightarrow> stmt_shape s stk f t)"

lemma gen_shapeD:
  "gen_shape g \<Longrightarrow> g stk s = Some (f, t) \<Longrightarrow> gs_ok s \<Longrightarrow> \<forall>l \<in> stack_labels stk. label_ok l \<Longrightarrow> stmt_shape s stk f t"
  by (simp add: gen_shape_def)

lemma if_shape:
  assumes "gen_shape gt" "gen_shape ge"
  shows "gen_shape (\<lambda>stk. g_if c (gt stk) (ge stk) has_else)"
  unfolding gen_shape_def
proof (intro allI impI)
  fix stk s f t
  assume g: "g_if c (gt stk) (ge stk) has_else s = Some (f, t)" and s: "gs_ok s" and l: "\<forall>l \<in> stack_labels stk. label_ok l"
  let ?e = "lbl ''ELSE'' (gs_cnt s)" and ?n = "lbl ''ENDIF'' (gs_cnt s + 1)"
  obtain fc s1 ft s2 fe where x: "g_cond (Some c) ?e (used_labels 2 s) = Some (fc, s1)" "gt stk s1 = Some (ft, s2)"
    "ge stk s2 = Some (fe, t)" "f = fc @ ft @ (if has_else then [I_Jmp ?n] else []) @ [I_Label ?e] @ fe @ [I_Label ?n]"
    using g by (auto simp: g_if_def Let_def bind_eq_Some_conv)
  have n: "0 \<le> gs_cnt s" using s by (simp add: gs_ok_def)
  note c = cond_shape [OF x(1) used_labels_ok [OF s]]
  have c': "shape (used_labels 2 s) fc s1" "uses_of fc \<subseteq> insert ?e (set (labels_of fc))" using c by simp_all
  have a: "stmt_shape s1 stk ft s2" by (rule gen_shapeD [OF assms(1) x(2) shape_ok [OF c'(1)] l])
  have b: "stmt_shape s2 stk fe t" by (rule gen_shapeD [OF assms(2) x(3) stmt_shape_ok [OF a] l])
  have "shape (used_labels 2 s) (fc @ ft @ fe) t"
    using a b c'(1) by (auto simp: stmt_shape_def intro!: shape_append)
  then have "shape s f t"
    by (rule shape_around [OF _ s _ numbered_two [OF n, of "''ELSE''" "''ENDIF''"]])
      (auto simp: x(4) split: if_splits)
  then show "stmt_shape s stk f t"
    using a b c'(2) by (auto simp: stmt_shape_def x(4))
qed

lemma while_shape:
  assumes "gen_shape gb"
  shows "gen_shape (\<lambda>stk. g_while c gb stk)"
  unfolding gen_shape_def
proof (intro allI impI)
  fix stk s f t
  assume g: "g_while c gb stk s = Some (f, t)" and s: "gs_ok s" and l: "\<forall>l \<in> stack_labels stk. label_ok l"
  let ?t = "lbl ''WHILE_TEST'' (gs_cnt s)" and ?e = "lbl ''WHILE_END'' (gs_cnt s + 1)"
  obtain fc s1 fb where x: "g_cond (Some c) ?e (used_labels 2 s) = Some (fc, s1)" "gb ((?t, ?e) # stk) s1 = Some (fb, t)"
    "f = [I_Label ?t] @ fc @ fb @ [I_Jmp ?t, I_Label ?e]"
    using g by (auto simp: g_while_def Let_def bind_eq_Some_conv)
  have n: "0 \<le> gs_cnt s" using s by (simp add: gs_ok_def)
  note c = cond_shape [OF x(1) used_labels_ok [OF s]]
  have c': "shape (used_labels 2 s) fc s1" "uses_of fc \<subseteq> insert ?e (set (labels_of fc))" using c by simp_all
  have b: "stmt_shape s1 ((?t, ?e) # stk) fb t"
    using l by (intro gen_shapeD [OF assms x(2) shape_ok [OF c'(1)]]) simp
  have "shape (used_labels 2 s) (fc @ fb) t"
    using b c'(1) by (auto simp: stmt_shape_def intro!: shape_append)
  then have "shape s f t"
    by (rule shape_around [OF _ s _ numbered_two [OF n, of "''WHILE_TEST''" "''WHILE_END''"]]) (auto simp: x(3))
  then show "stmt_shape s stk f t"
    using b c'(2) by (auto simp: stmt_shape_def x(3))
qed

lemma for_shape:
  assumes "gen_shape gi" "gen_shape gu" "gen_shape gb"
  shows "gen_shape (\<lambda>stk. g_for (gi stk) c gu gb stk)"
  unfolding gen_shape_def
proof (intro allI impI)
  fix stk s f t
  assume g: "g_for (gi stk) c gu gb stk s = Some (f, t)" and s: "gs_ok s" and l: "\<forall>l \<in> stack_labels stk. label_ok l"
  let ?t = "lbl ''FOR_TEST'' (gs_cnt s)" and ?u = "lbl ''FOR_UPD'' (gs_cnt s + 1)" and ?e = "lbl ''FOR_END'' (gs_cnt s + 2)"
  obtain fi s1 fc s2 fb s3 fu where x: "gi stk (used_labels 3 s) = Some (fi, s1)" "g_cond c ?e s1 = Some (fc, s2)"
    "gb ((?u, ?e) # stk) s2 = Some (fb, s3)" "gu ((?u, ?e) # stk) s3 = Some (fu, t)"
    "f = fi @ [I_Label ?t] @ fc @ fb @ [I_Label ?u] @ fu @ [I_Jmp ?t, I_Label ?e]"
    using g by (auto simp: g_for_def Let_def bind_eq_Some_conv)
  have n: "0 \<le> gs_cnt s" using s by (simp add: gs_ok_def)
  have i: "stmt_shape (used_labels 3 s) stk fi s1"
    using gen_shapeD [OF assms(1) x(1) used_labels_ok [OF s] l] by simp
  note c = cond_shape [OF x(2) stmt_shape_ok [OF i]]
  have c': "shape s1 fc s2" "uses_of fc \<subseteq> insert ?e (set (labels_of fc))" using c by simp_all
  have l': "\<forall>l \<in> stack_labels ((?u, ?e) # stk). label_ok l" using l by simp
  have b: "stmt_shape s2 ((?u, ?e) # stk) fb s3" by (rule gen_shapeD [OF assms(3) x(3) shape_ok [OF c'(1)] l'])
  have u: "stmt_shape s3 ((?u, ?e) # stk) fu t" by (rule gen_shapeD [OF assms(2) x(4) stmt_shape_ok [OF b] l'])
  have "shape (used_labels 3 s) (fi @ fc @ fb @ fu) t"
    using i b u c'(1) by (auto simp: stmt_shape_def intro!: shape_append)
  then have "shape s f t"
    by (rule shape_around [OF _ s _ numbered_seq [OF n, of "''FOR_TEST''" "''FOR_UPD''" "''FOR_END''"]]) (auto simp: x(5))
  then show "stmt_shape s stk f t"
    using i b u c'(2) by (auto simp: stmt_shape_def x(5))
qed

lemma stmt_shape_plain: "shape s f t \<Longrightarrow> uses_of f \<subseteq> set (labels_of f) \<Longrightarrow> stmt_shape s stk f (g_free t)"
  by (auto simp: stmt_shape_def intro: shape_free)

lemma gen_shape_cong: "gen_shape g \<Longrightarrow> (\<And>stk s. h stk s = g stk s) \<Longrightarrow> gen_shape h"
  by (simp add: gen_shape_def)

lemma gen_shape_plain:
  assumes "\<And>s f t. g s = Some (f, t) \<Longrightarrow> gs_ok s \<Longrightarrow> shape s f t \<and> uses_of f \<subseteq> set (labels_of f)"
  shows "gen_shape (\<lambda>stk s. map_option (\<lambda>(f, s). (f, g_free s)) (g s))"
  using assms unfolding gen_shape_def by (auto intro!: stmt_shape_plain)

lemma gen_shape_jump: "gen_shape (\<lambda>stk s. case stk of [] \<Rightarrow> None | (a, b) # _ \<Rightarrow> Some ([I_Jmp a], s))"
  "gen_shape (\<lambda>stk s. case stk of [] \<Rightarrow> None | (a, b) # _ \<Rightarrow> Some ([I_Jmp b], s))"
  by (auto simp: gen_shape_def stmt_shape_def shape_def numbered_nil more_vars_refl split: list.splits)

lemma stmts_shape_all: "\<forall>st \<in> set ss. gen_shape (g_stmt st) \<Longrightarrow> gen_shape (g_stmts ss)"
proof (induction ss)
  case Nil
  show ?case by (auto simp: gen_shape_def stmt_shape_def shape_nil)
next
  case (Cons st ss)
  then have st: "gen_shape (g_stmt st)" and ss: "gen_shape (g_stmts ss)" by simp_all
  show ?case
    unfolding gen_shape_def
  proof (intro allI impI)
    fix stk s f t
    assume g: "g_stmts (st # ss) stk s = Some (f, t)" and s: "gs_ok s" and l: "\<forall>l \<in> stack_labels stk. label_ok l"
    then obtain fa s1 fb where x: "g_stmt st stk s = Some (fa, s1)" "g_stmts ss stk s1 = Some (fb, t)" "f = fa @ fb"
      by (auto simp: bind_eq_Some_conv)
    have a: "stmt_shape s stk fa s1" by (rule gen_shapeD [OF st x(1) s l])
    have "stmt_shape s1 stk fb t" by (rule gen_shapeD [OF ss x(2) stmt_shape_ok [OF a] l])
    with a show "stmt_shape s stk f t" by (auto simp: stmt_shape_def x(3) intro: shape_append)
  qed
qed

lemma opt_shape: "\<forall>st \<in> set_option os. gen_shape (g_stmt st) \<Longrightarrow> gen_shape (g_opt os)"
  by (cases os) (auto simp: gen_shape_def stmt_shape_def shape_nil)

lemma decl_shape:
  assumes "g_var n s = Some (reg, s1)" "(case init of None \<Rightarrow> Some ([], s1) | Some e \<Rightarrow> g_set reg e s1) = Some (f, t)" "gs_ok s"
  shows "shape s f t \<and> uses_of f \<subseteq> set (labels_of f)"
proof -
  note v = var_shape [OF assms(1,3)]
  have "shape s1 f t \<and> uses_of f \<subseteq> set (labels_of f)"
    using assms(2) shape_nil [OF shape_ok [OF v(1)]] set_shape [OF _ shape_ok [OF v(1)] gen_val_reg [OF v(2)]]
    by (auto split: option.splits)
  then show ?thesis using shape_append [OF v(1)] by auto
qed

lemma stmt_has_shape: "gen_shape (g_stmt st)"
proof (induction st)
  case (VarDecl n init k l)
  have "gen_shape (\<lambda>stk s. map_option (\<lambda>(f, s). (f, g_free s)) (Option.bind (g_var n s) (\<lambda>(reg, s).
        case init of None \<Rightarrow> Some ([], s) | Some e \<Rightarrow> g_set reg e s)))"
    by (rule gen_shape_plain) (auto simp: bind_eq_Some_conv dest: decl_shape)
  then show ?case
    by (rule gen_shape_cong) (auto split: bind_splits)
next
  case (Assign n op e l)
  have "gen_shape (\<lambda>stk s. map_option (\<lambda>(f, s). (f, g_free s)) (g_assign n op e s))"
    by (rule gen_shape_plain) (simp add: assign_shape)
  then show ?case by (rule gen_shape_cong) simp
next
  case (IfStmt c t e l)
  then have "gen_shape (g_stmts t)" "gen_shape (g_stmts e)" by (simp_all add: stmts_shape_all)
  from if_shape [OF this, of c "e \<noteq> []"] show ?case by (rule gen_shape_cong) simp
next
  case (WhileStmt c b l)
  then have "gen_shape (g_stmts b)" by (simp add: stmts_shape_all)
  from while_shape [OF this, of c] show ?case by (rule gen_shape_cong) simp
next
  case (ForStmt i c u b l)
  then have "gen_shape (g_opt i)" "gen_shape (g_opt u)" "gen_shape (g_stmts b)"
    by (simp_all add: stmts_shape_all opt_shape)
  from for_shape [OF this, of c] show ?case by (rule gen_shape_cong) simp
next
  case (ReturnStmt e l)
  show ?case
  proof (cases e)
    case None
    then show ?thesis
      by (auto simp: gen_shape_def stmt_shape_def shape_def free_ok numbered_nil more_vars_def)
  next
    case (Some e')
    have "shape s f t \<and> uses_of f \<subseteq> set (labels_of f)"
      if "map_option (\<lambda>(f, s). (f @ [I_Hlt], s)) (g_set 1 e' s) = Some (f, t)" "gs_ok s" for s f t
      using that set_shape [OF _ that(2) scratch_reg(2)] by (fastforce simp: shape_def)
    then have "gen_shape (\<lambda>stk s. map_option (\<lambda>(f, s). (f, g_free s)) (map_option (\<lambda>(f, s). (f @ [I_Hlt], s)) (g_set 1 e' s)))"
      by (rule gen_shape_plain)
    then show ?thesis
      by (rule gen_shape_cong) (simp add: Some option.map_comp o_def split_def)
  qed
next
  case (BreakStmt l)
  from gen_shape_jump(2) show ?case by (rule gen_shape_cong) (simp split: list.split)
next
  case (ContinueStmt l)
  from gen_shape_jump(1) show ?case by (rule gen_shape_cong) (simp split: list.split)
next
  case (ExprStmt e l)
  have "gen_shape (\<lambda>stk s. map_option (\<lambda>(f, s). (f, g_free s)) (map_option (\<lambda>(_, f, s). (f, s)) (g_expr e s)))"
    by (rule gen_shape_plain) (auto simp: expr_shape_def dest!: expr_has_shape)
  then show ?case
    by (rule gen_shape_cong) (simp add: option.map_comp o_def split_def)
next
  case (Block ss l)
  then have "gen_shape (g_stmts ss)" by (simp add: stmts_shape_all)
  then show ?case by (rule gen_shape_cong) simp
qed (simp_all add: gen_shape_def)

lemma stmts_has_shape: "gen_shape (g_stmts ss)" and opt_has_shape: "gen_shape (g_opt os)"
  by (simp_all add: stmts_shape_all opt_shape stmt_has_shape)

end
