(* ===== verification/Code_Runs.thy ===== *)
theory Code_Runs
  imports Code_Shape
begin

unbundle bit_operations_syntax

text \<open>
  The generated code computes what the program means: expressions.
\<close>

section \<open>Code at a place\<close>

fun code_at :: "asm_ins list \<Rightarrow> nat \<Rightarrow> asm_ins list \<Rightarrow> bool" where
  "code_at P i [] = (i \<le> length P)"
| "code_at P i (x # f) = (i < length P \<and> P ! i = x \<and> code_at P (Suc i) f)"

lemma code_at_le: "code_at P i f \<Longrightarrow> i + length f \<le> length P"
  by (induction P i f rule: code_at.induct) auto

lemma code_at_append [simp]: "code_at P i (f @ g) \<longleftrightarrow> code_at P i f \<and> code_at P (i + length f) g"
  by (induction f arbitrary: i) (auto dest: code_at_le)


lemma find_at: "distinct (labels_of P) \<Longrightarrow> i < length P \<Longrightarrow> P ! i = I_Label l \<Longrightarrow> find_label l P = Some i"
  by (rule find_label_unique)

section \<open>Registers\<close>

definition rw :: "int list \<Rightarrow> int \<Rightarrow> 32 word" where
  "rw rs r = word_of_int (reg_read rs r)"

lemma word_of_take: "word_of_int (take_bit 32 v) = (word_of_int v :: 32 word)"
  by (rule bit_word_eqI) (auto simp: bit_simps)

lemma rw_write:
  "regs_wf rs \<Longrightarrow> gen_reg d \<Longrightarrow> gen_reg q \<Longrightarrow> rw (reg_write d v rs) q = (if d = q \<and> d \<noteq> 0 then word_of_int v else rw rs q)"
  by (simp add: rw_def reg_read_write gen_reg_index word_of_take)

lemma rw_zero [simp]: "regs_wf rs \<Longrightarrow> rw rs 0 = 0"
  by (simp add: rw_def)

definition live :: "gs \<Rightarrow> int set" where
  "live s = {0..<gs_next s} - {FLAGS_TMP}"

definition keeps :: "int set \<Rightarrow> int list \<Rightarrow> int list \<Rightarrow> bool" where
  "keeps A rs rs' \<longleftrightarrow> regs_wf rs' \<and> (\<forall>q \<in> A. gen_reg q \<longrightarrow> rw rs' q = rw rs q)"

lemma keeps_refl: "regs_wf rs \<Longrightarrow> keeps A rs rs"
  by (simp add: keeps_def)

lemma keeps_trans: "keeps A rs rs' \<Longrightarrow> keeps B rs' rs'' \<Longrightarrow> C \<subseteq> A \<Longrightarrow> C \<subseteq> B \<Longrightarrow> keeps C rs rs''"
  unfolding keeps_def by (metis subsetD)

lemma keeps_write: "regs_wf rs \<Longrightarrow> gen_reg d \<Longrightarrow> d \<notin> A \<Longrightarrow> keeps A rs (reg_write d v rs)"
  by (auto simp: keeps_def rw_write gen_reg_index intro: reg_write_wf)

lemma keeps_at: "keeps A rs rs' \<Longrightarrow> q \<in> A \<Longrightarrow> gen_reg q \<Longrightarrow> rw rs' q = rw rs q"
  by (simp add: keeps_def)

lemma keeps_wf: "keeps A rs rs' \<Longrightarrow> regs_wf rs'"
  by (simp add: keeps_def)

section \<open>Steps\<close>

lemma rw_word_op: "word_of_int (word_op opc (reg_read rs a) v) = alu_word opc (rw rs a) (word_of_int v)"
  by (simp add: word_op_def rw_def)

text \<open>Straight-line instructions: the register they write and its value.\<close>

fun written :: "asm_ins \<Rightarrow> int list \<Rightarrow> (int \<times> 32 word) option" where
  "written (I_Op opc d a b) rs = Some (d, alu_word opc (rw rs a) (rw rs b))"
| "written (I_Op1 opc d a) rs = Some (d, alu_word opc (rw rs a) (rw rs 0))"
| "written (I_Movi d v) rs = Some (d, word_of_int v)"
| "written (I_Movhi d v) rs = Some (d, push_bit 11 (word_of_int v))"
| "written (I_Ori d v) rs = Some (d, rw rs d OR word_of_int (sext v 16))"
| "written (I_Xori d) rs = Some (d, rw rs d XOR 1)"
| "written _ rs = None"

lemma step_written:
  assumes "i < length P" "written (P ! i) rs = Some (d, v)"
  obtains x where "code_step P (i, rs) = Some (Suc i, reg_write d x rs)" "word_of_int x = v"
  using assms
  by (cases "P ! i") (auto simp: code_step_def rw_def word_op_def alu_word_def[of Op_MOVI] alu_word_def[of Op_MOVHI]
    alu_word_def[of Op_ORI] alu_word_def[of Op_XORI] Let_def)

text \<open>One instruction writing \<open>d\<close>.\<close>

lemma goes_written:
  assumes "i < length P" "written (P ! i) rs = Some (d, v)" "regs_wf rs" "gen_reg d" "d \<noteq> 0"
  obtains rs' where "goes P (i, rs) (Suc i, rs')" "rw rs' d = v" "keeps (- {d}) rs rs'"
proof -
  obtain x where x: "code_step P (i, rs) = Some (Suc i, reg_write d x rs)" "word_of_int x = v"
    by (rule step_written [OF assms(1,2)])
  show thesis
    by (rule that [OF goes_one [OF x(1)]]) (use x(2) assms in \<open>auto simp: rw_write keeps_write\<close>)
qed

lemma goes_label: "i < length P \<Longrightarrow> P ! i = I_Label l \<Longrightarrow> goes P (i, rs) (Suc i, rs)"
  by (rule goes_one) (simp add: code_step_def)

lemma goes_jump: "i < length P \<Longrightarrow> P ! i = I_Jmp l \<Longrightarrow> find_label l P = Some j \<Longrightarrow> goes P (i, rs) (j, rs)"
  by (rule goes_one) (simp add: code_step_def)

lemma taken_zero:
  "opc \<in> {Op_BEQ, Op_BNE} \<Longrightarrow> regs_wf rs \<Longrightarrow> branch_taken opc (reg_read rs a) (reg_read rs 0) \<longleftrightarrow> (rw rs a = 0 \<longleftrightarrow> opc = Op_BEQ)"
  by (auto simp: branch_taken_def rw_def)

lemma goes_branch:
  assumes "i < length P" "P ! i = I_Br opc a l" "opc \<in> {Op_BEQ, Op_BNE}" "regs_wf rs" "find_label l P = Some j"
  shows "goes P (i, rs) (if rw rs a = 0 \<longleftrightarrow> opc = Op_BEQ then j else Suc i, rs)"
  using assms taken_zero [OF assms(3,4), of a] by (intro goes_one) (simp add: code_step_def)


section \<open>Fragments\<close>

text \<open>The fragment \<open>f\<close> at \<open>i\<close> runs to its end, keeps the registers \<open>A\<close>, and leaves \<open>Q\<close>.\<close>

definition does :: "asm_ins list \<Rightarrow> nat \<Rightarrow> asm_ins list \<Rightarrow> int set \<Rightarrow> int list \<Rightarrow> (int list \<Rightarrow> bool) \<Rightarrow> bool" where
  "does P i f A rs Q \<longleftrightarrow> (\<exists>rs'. goes P (i, rs) (i + length f, rs') \<and> keeps A rs rs' \<and> Q rs')"

lemma does_nil: "regs_wf rs \<Longrightarrow> Q rs \<Longrightarrow> does P i [] A rs Q"
  by (auto simp: does_def intro: keeps_refl)

lemma does_append:
  assumes "does P i f A rs R" "\<And>rs'. keeps A rs rs' \<Longrightarrow> R rs' \<Longrightarrow> does P (i + length f) g B rs' Q" "C \<subseteq> A" "C \<subseteq> B"
  shows "does P i (f @ g) C rs Q"
proof -
  obtain rs1 where 1: "goes P (i, rs) (i + length f, rs1)" "keeps A rs rs1" "R rs1" using assms(1) by (auto simp: does_def)
  obtain rs2 where 2: "goes P (i + length f, rs1) (i + length f + length g, rs2)" "keeps B rs1 rs2" "Q rs2"
    using assms(2) [OF 1(2,3)] by (auto simp: does_def)
  show ?thesis
    using goes_trans [OF 1(1) 2(1)] keeps_trans [OF 1(2) 2(2) assms(3,4)] 2(3) by (auto simp: does_def add.assoc)
qed

lemma does_conv: "does P i f A rs R \<Longrightarrow> (\<And>rs'. keeps A rs rs' \<Longrightarrow> R rs' \<Longrightarrow> Q rs') \<Longrightarrow> B \<subseteq> A \<Longrightarrow> does P i f B rs Q"
  unfolding does_def keeps_def by (meson subsetD)

lemma does_written:
  assumes "i < length P" "P ! i = x" "written x rs = Some (d, v)" "regs_wf rs" "gen_reg d" "d \<noteq> 0"
  shows "does P i [x] (- {d}) rs (\<lambda>rs'. rw rs' d = v)"
  using goes_written [OF assms(1) _ assms(4-6), of v] assms(2,3) by (auto simp: does_def)

section \<open>Constants\<close>

text \<open>The value that is loaded: outside the 16-bit range ORI copies bit 15 to the bits above it.\<close>

definition loaded_literal :: "int \<Rightarrow> 32 word" where
  "loaded_literal v = (if lit_ok v then word_of_int v else word_of_int v OR 0xFFFF0000)"

lemma high_half_ones: "(0xFFFF0000 :: 32 word) = push_bit 16 (mask 16)"
  by (simp add: mask_eq_exp_minus_1)

lemma long_literal:
  "push_bit 11 (word_of_int (shr v 11 AND 0x1FFFFF)) OR word_of_int (signed_take_bit 15 v)
     = (if bit v 15 then word_of_int v OR 0xFFFF0000 else word_of_int v :: 32 word)"
proof (rule bit_word_eqI)
  fix n assume "n < LENGTH(32)"
  then show "bit (push_bit 11 (word_of_int (shr v 11 AND 0x1FFFFF)) OR word_of_int (signed_take_bit 15 v) :: 32 word) n
    = bit (if bit v 15 then word_of_int v OR 0xFFFF0000 else word_of_int v :: 32 word) n"
    unfolding high_half_ones mask_bits by (cases "n = 15") (auto simp: bit_simps min_def)
qed

lemma lit_ok_bit: "lit_ok v \<longleftrightarrow> (- 32768 \<le> v \<and> v \<le> 32767) \<or> \<not> bit v 15"
  using and_exp_eq_0_iff_not_bit [of v 15] by (simp add: lit_ok_def)

lemma long_loaded:
  assumes "\<not> (- 32768 \<le> v \<and> v \<le> 32767)"
  shows "push_bit 11 (word_of_int (shr v 11 AND 0x1FFFFF)) OR word_of_int (sext (v AND 0xFFFF) 16) = loaded_literal v"
  using assms long_literal [of v] by (auto simp: sext_mask16 loaded_literal_def lit_ok_bit)

lemma imm_runs:
  assumes "code_at P i (g_imm r v)" "regs_wf rs" "gen_reg r" "r \<noteq> 0"
  shows "does P i (g_imm r v) (- {r}) rs (\<lambda>rs'. rw rs' r = loaded_literal v)"
proof (cases "- 32768 \<le> v \<and> v \<le> 32767")
  case True
  then have "loaded_literal v = word_of_int v" by (simp add: loaded_literal_def lit_ok_def)
  then show ?thesis
    using assms True does_written [of i P "I_Movi r v" rs r "word_of_int v"] by (simp add: g_imm_def)
next
  case False
  let ?h = "I_Movhi r (shr v 11 AND 0x1FFFFF)" and ?l = "I_Ori r (v AND 0xFFFF)"
  let ?w = "push_bit 11 (word_of_int (shr v 11 AND 0x1FFFFF)) :: 32 word"
  have h: "does P i [?h] (- {r}) rs (\<lambda>rs'. rw rs' r = ?w)"
    using assms False by (intro does_written) (simp_all add: g_imm_def)
  note w = long_loaded [OF False]
  show ?thesis
  proof (cases "v AND 0xFFFF = 0")
    case True
    then have "?w = loaded_literal v" using w by (simp add: sext_def Let_def)
    then show ?thesis using h True False by (auto simp: g_imm_def)
  next
    case nz: False
    have "does P i ([?h] @ [?l]) (- {r}) rs (\<lambda>rs'. rw rs' r = loaded_literal v)"
    proof (rule does_append [OF h])
      fix rs' assume k: "keeps (- {r}) rs rs'" "rw rs' r = ?w"
      show "does P (i + length [?h]) [?l] (- {r}) rs' (\<lambda>rs'. rw rs' r = loaded_literal v)"
        using assms False nz k w by (intro does_written) (simp_all add: g_imm_def keeps_wf)
    qed simp_all
    then show ?thesis using False nz by (auto simp: g_imm_def)
  qed
qed

section \<open>Operators\<close>

lemma op_word:
  assumes "op_code op = Some opc" "c_binop op x y = Some v"
  shows "alu_word opc x y = v"
proof -
  have "unat (y AND 31) = unat y" if "y < 32"
  proof -
    have "unat (y AND 31) = take_bit 5 (unat y)"
      by (simp add: take_bit_eq_mask mask_eq_exp_minus_1 unsigned_and_eq)
    then show ?thesis using that by (simp add: take_bit_nat_eq_self word_less_nat_alt)
  qed
  then show ?thesis
    using assms by (auto simp: op_code_def c_binop_def alu_word_def Let_def sdiv_word_def smod_word_def split: if_splits)
qed


text \<open>A register gets one of two values; the second part is where the branch leads.\<close>

definition two_way :: "opcode \<Rightarrow> int \<Rightarrow> string \<Rightarrow> string \<Rightarrow> int \<Rightarrow> int \<Rightarrow> int \<Rightarrow> asm_ins list" where
  "two_way opc r lt le rd thru out = [I_Br opc r lt, I_Movi rd thru, I_Jmp le, I_Label lt, I_Movi rd out, I_Label le]"

lemma two_way_length: "length (two_way opc r lt le rd thru out) = 6"
  by (simp add: two_way_def)

lemma two_way_at:
  assumes "code_at P i (two_way opc r lt le rd thru out)"
  shows "i + 5 < length P" "P ! i = I_Br opc r lt" "P ! Suc i = I_Movi rd thru" "P ! (i + 2) = I_Jmp le"
    "P ! (i + 3) = I_Label lt" "P ! (i + 4) = I_Movi rd out" "P ! (i + 5) = I_Label le"
  using assms by (simp_all add: two_way_def eval_nat_numeral)

lemma two_way_out:
  assumes "code_at P i (two_way opc r lt le rd thru out)" "regs_wf rs" "gen_reg rd" "rd \<noteq> 0"
  obtains rs' where "goes P (i + 3, rs) (i + 6, rs')" "rw rs' rd = word_of_int out" "keeps (- {rd}) rs rs'"
proof -
  note p = two_way_at [OF assms(1)]
  obtain rs' where r: "goes P (i + 4, rs) (Suc (i + 4), rs')" "rw rs' rd = word_of_int out" "keeps (- {rd}) rs rs'"
    by (rule goes_written [of "i + 4" P rs rd "word_of_int out"]) (use p assms in simp_all)
  have "goes P (i + 3, rs) (i + 4, rs)" "goes P (i + 5, rs') (i + 6, rs')"
    using goes_label [of "i + 3" P lt rs] goes_label [of "i + 5" P le rs'] p by (simp_all add: eval_nat_numeral)
  with r(1) have "goes P (i + 3, rs) (i + 6, rs')" by (auto simp: eval_nat_numeral intro: goes_trans)
  with r show thesis by (intro that)
qed

lemma two_way_runs:
  assumes c: "code_at P i (two_way opc r lt le rd thru out)" and d: "distinct (labels_of P)" and o: "opc \<in> {Op_BEQ, Op_BNE}"
    and w: "regs_wf rs" "gen_reg rd" "rd \<noteq> 0"
  shows "does P i (two_way opc r lt le rd thru out) (- {rd}) rs
    (\<lambda>rs'. rw rs' rd = word_of_int (if rw rs r = 0 \<longleftrightarrow> opc = Op_BEQ then out else thru))"
proof -
  note p = two_way_at [OF c]
  have l: "find_label lt P = Some (i + 3)" "find_label le P = Some (i + 5)"
    using p by (intro find_at [OF d]; simp)+
  have b: "goes P (i, rs) (if rw rs r = 0 \<longleftrightarrow> opc = Op_BEQ then i + 3 else Suc i, rs)"
    using p by (intro goes_branch [OF _ _ o w(1) l(1)]) simp_all
  show ?thesis
  proof (cases "rw rs r = 0 \<longleftrightarrow> opc = Op_BEQ")
    case True
    obtain rs' where r: "goes P (i + 3, rs) (i + 6, rs')" "rw rs' rd = word_of_int out" "keeps (- {rd}) rs rs'"
      by (rule two_way_out [OF c w])
    have "goes P (i, rs) (i + 6, rs')" using b r(1) True by (simp add: goes_trans)
    then show ?thesis using r True unfolding does_def two_way_length by auto
  next
    case False
    obtain rs' where r: "goes P (Suc i, rs) (Suc (Suc i), rs')" "rw rs' rd = word_of_int thru" "keeps (- {rd}) rs rs'"
      by (rule goes_written [of "Suc i" P rs rd "word_of_int thru"]) (use p w in simp_all)
    have "goes P (i, rs) (Suc i, rs)" using b False by auto
    also note r(1)
    also have "goes P (Suc (Suc i), rs') (i + 5, rs')"
      using p l(2) by (intro goes_jump) (simp_all add: eval_nat_numeral)
    also have "goes P (i + 5, rs') (i + 6, rs')"
      using goes_label [of "i + 5" P le rs'] p by (simp add: eval_nat_numeral)
    finally show ?thesis using r False unfolding does_def two_way_length by auto
  qed
qed

lemma g_choice_two_way: "g_choice opc r lt le rd = two_way opc r lt le rd 0 1"
  by (simp add: g_choice_def two_way_def)

text \<open>A register becomes 1 where the branch is taken, and 0 otherwise.\<close>

lemma choice_runs:
  assumes "code_at P i (g_choice opc r lt le rd)" "distinct (labels_of P)" "opc \<in> {Op_BEQ, Op_BNE}" "regs_wf rs" "gen_reg rd" "rd \<noteq> 0"
  shows "does P i (g_choice opc r lt le rd) (- {rd}) rs (\<lambda>rs'. rw rs' rd = truth (rw rs r = 0 \<longleftrightarrow> opc = Op_BEQ))"
  using two_way_runs [OF assms [unfolded g_choice_two_way]] unfolding g_choice_two_way
  by (rule does_conv) (simp_all add: truth_def)

lemma alu_less: "alu_word Op_SLT x y = truth (sint x < sint y)"
  by (simp add: alu_word_def truth_def Let_def)

lemma truth_not: "truth b XOR 1 = truth (\<not> b)"
  by (simp add: truth_def)

lemma truth_zero: "truth b = 0 \<longleftrightarrow> \<not> b"
  by (simp add: truth_def)

lemma not_less_runs:
  assumes "code_at P i [I_Op Op_SLT rd ra rb, I_Xori rd]" "regs_wf rs" "gen_reg rd" "rd \<noteq> 0"
  shows "does P i [I_Op Op_SLT rd ra rb, I_Xori rd] (- {rd}) rs (\<lambda>rs'. rw rs' rd = truth (\<not> sint (rw rs ra) < sint (rw rs rb)))"
proof -
  have 1: "does P i [I_Op Op_SLT rd ra rb] (- {rd}) rs (\<lambda>rs'. rw rs' rd = truth (sint (rw rs ra) < sint (rw rs rb)))"
    using assms by (intro does_written) (simp_all add: alu_less)
  have "does P i ([I_Op Op_SLT rd ra rb] @ [I_Xori rd]) (- {rd}) rs (\<lambda>rs'. rw rs' rd = truth (\<not> sint (rw rs ra) < sint (rw rs rb)))"
    by (rule does_append [OF 1]) (use assms in \<open>auto intro!: does_written simp: truth_not keeps_wf\<close>)
  then show ?thesis by simp
qed

lemma equal_runs:
  assumes "code_at P i (I_Op Op_SUB FLAGS_TMP rl rr # g_choice opc FLAGS_TMP lt le rd)" "distinct (labels_of P)"
    and "opc \<in> {Op_BEQ, Op_BNE}" "regs_wf rs" "gen_reg rd" "rd \<noteq> 0"
  shows "does P i (I_Op Op_SUB FLAGS_TMP rl rr # g_choice opc FLAGS_TMP lt le rd) (- {rd, FLAGS_TMP}) rs
    (\<lambda>rs'. rw rs' rd = truth (rw rs rl = rw rs rr \<longleftrightarrow> opc = Op_BEQ))"
proof -
  have 1: "does P i [I_Op Op_SUB FLAGS_TMP rl rr] (- {FLAGS_TMP}) rs (\<lambda>rs'. rw rs' FLAGS_TMP = rw rs rl - rw rs rr)"
    using assms scratch_reg by (intro does_written) (simp_all add: alu_word_def FLAGS_TMP_def Let_def)
  have "does P i ([I_Op Op_SUB FLAGS_TMP rl rr] @ g_choice opc FLAGS_TMP lt le rd) (- {rd, FLAGS_TMP}) rs
    (\<lambda>rs'. rw rs' rd = truth (rw rs rl = rw rs rr \<longleftrightarrow> opc = Op_BEQ))"
  proof (rule does_append [OF 1])
    fix rs' assume k: "keeps (- {FLAGS_TMP}) rs rs'" "rw rs' FLAGS_TMP = rw rs rl - rw rs rr"
    show "does P (i + length [I_Op Op_SUB FLAGS_TMP rl rr]) (g_choice opc FLAGS_TMP lt le rd) (- {rd}) rs'
      (\<lambda>rs'. rw rs' rd = truth (rw rs rl = rw rs rr \<longleftrightarrow> opc = Op_BEQ))"
      using choice_runs [of P "Suc i" opc FLAGS_TMP lt le rd rs'] assms k by (simp add: keeps_wf)
  qed auto
  then show ?thesis by simp
qed

lemma op_runs:
  assumes g: "g_op op rd rl rr s = Some (f, t)" and c: "code_at P i f" and d: "distinct (labels_of P)"
    and w: "regs_wf rs" "gen_reg rd" "rd \<noteq> 0" and v: "c_binop op (rw rs rl) (rw rs rr) = Some v"
  shows "does P i f (- {rd, FLAGS_TMP}) rs (\<lambda>rs'. rw rs' rd = v)"
proof (cases "op_code op")
  case (Some opc)
  then have f: "f = [I_Op opc rd rl rr]" using g by (simp add: g_op_def)
  have "does P i f (- {rd}) rs (\<lambda>rs'. rw rs' rd = v)"
    unfolding f by (rule does_written) (use c f w op_word [OF Some v] in auto)
  then show ?thesis by (rule does_conv) auto
next
  case None
  consider "op = ''<''" | "op = ''>''" | "op = ''<=''" | "op = ''>=''" | "op = ''==''" | "op = ''!=''"
    using g None by (auto simp: g_op_def split: if_splits)
  then show ?thesis
  proof cases
    case 1
    have "does P i [I_Op Op_SLT rd rl rr] (- {rd}) rs (\<lambda>rs'. rw rs' rd = v)"
      by (rule does_written) (use c g None w v 1 in \<open>auto simp: g_op_def alu_less c_binop_def\<close>)
    then show ?thesis using g None 1 by (auto simp: g_op_def intro: does_conv)
  next
    case 2
    have "does P i [I_Op Op_SLT rd rr rl] (- {rd}) rs (\<lambda>rs'. rw rs' rd = v)"
      by (rule does_written) (use c g None w v 2 in \<open>auto simp: g_op_def alu_less c_binop_def\<close>)
    then show ?thesis using g None 2 by (auto simp: g_op_def intro: does_conv)
  next
    case 3
    have "does P i f (- {rd}) rs (\<lambda>rs'. rw rs' rd = v)"
      using not_less_runs [of P i rd rr rl rs] c g None w v 3 by (auto simp: g_op_def c_binop_def not_less)
    then show ?thesis by (rule does_conv) auto
  next
    case 4
    have "does P i f (- {rd}) rs (\<lambda>rs'. rw rs' rd = v)"
      using not_less_runs [of P i rd rl rr rs] c g None w v 4 by (auto simp: g_op_def c_binop_def not_less)
    then show ?thesis by (rule does_conv) auto
  next
    case 5
    then show ?thesis
      using equal_runs [OF _ d _ w, of i rl rr Op_BEQ] c g None v by (auto simp: g_op_def c_binop_def)
  next
    case 6
    then show ?thesis
      using equal_runs [OF _ d _ w, of i rl rr Op_BNE] c g None v by (auto simp: g_op_def c_binop_def)
  qed
qed


section \<open>Variables\<close>

text \<open>Every variable of the program has a register, with its value if it has one.\<close>

definition rel :: "(string \<times> int) list \<Rightarrow> env \<Rightarrow> int list \<Rightarrow> bool" where
  "rel vars env rs \<longleftrightarrow> (\<forall>x w. env x = Some w \<longrightarrow> (\<exists>r. map_of vars x = Some r \<and> (\<forall>v. w = Some v \<longrightarrow> rw rs r = v)))"

lemma relE:
  assumes "rel vars env rs" "env x = Some w"
  obtains r where "map_of vars x = Some r" "\<And>v. w = Some v \<Longrightarrow> rw rs r = v"
  using assms(1) [unfolded rel_def, rule_format, OF assms(2)] by auto

lemma relI:
  assumes "\<And>x w. env x = Some w \<Longrightarrow> \<exists>r. map_of vars x = Some r \<and> (\<forall>v. w = Some v \<longrightarrow> rw rs r = v)"
  shows "rel vars env rs"
  using assms by (simp add: rel_def)

lemma more_varsD: "more_vars s t \<Longrightarrow> map_of (gs_vars s) x = Some r \<Longrightarrow> map_of (gs_vars t) x = Some r"
  unfolding more_vars_def map_le_def by (metis domI)

lemma rel_more: "rel (gs_vars s) env rs \<Longrightarrow> more_vars s t \<Longrightarrow> rel (gs_vars t) env rs"
  by (rule relI) (auto elim!: relE dest: more_varsD)

lemma rel_less:
  assumes "rel (gs_vars t) env rs" "more_vars s t" "dom env \<subseteq> dom (map_of (gs_vars s))"
  shows "rel (gs_vars s) env rs"
proof (rule relI)
  fix x w assume e: "env x = Some w"
  then obtain r where r: "map_of (gs_vars s) x = Some r" using assms(3) by blast
  have "map_of (gs_vars t) x = Some r" by (rule more_varsD [OF assms(2) r])
  then show "\<exists>r. map_of (gs_vars s) x = Some r \<and> (\<forall>v. w = Some v \<longrightarrow> rw rs r = v)"
    using r by (auto intro: relE [OF assms(1) e])
qed

lemma rel_dom: "rel vars env rs \<Longrightarrow> dom env \<subseteq> dom (map_of vars)"
  by (fastforce simp: rel_def)

lemma var_live:
  assumes "gs_ok s" "map_of (gs_vars s) x = Some r"
  shows "val_reg r" "r \<in> live s"
  using assms map_of_SomeD [OF assms(2)] by (auto simp: gs_ok_def live_def val_reg_def)

lemma rel_keeps:
  assumes "rel (gs_vars s) env rs" "keeps A rs rs'" "gs_ok s" "live s \<subseteq> A"
  shows "rel (gs_vars s) env rs'"
proof (rule relI)
  fix x w assume "env x = Some w"
  then obtain r where r: "map_of (gs_vars s) x = Some r" "\<forall>v. w = Some v \<longrightarrow> rw rs r = v"
    using relE [OF assms(1)] by metis
  have "rw rs' r = rw rs r"
    using keeps_at [OF assms(2)] var_live [OF assms(3) r(1)] assms(4) gen_val_reg by blast
  then show "\<exists>r. map_of (gs_vars s) x = Some r \<and> (\<forall>v. w = Some v \<longrightarrow> rw rs' r = v)" using r by auto
qed

lemma live_mono: "gs_next s \<le> gs_next t \<Longrightarrow> live s \<subseteq> live t"
  by (auto simp: live_def)

section \<open>Expressions\<close>

definition expr_runs :: "asm_ins list \<Rightarrow> expr \<Rightarrow> bool" where
  "expr_runs P e \<longleftrightarrow> (\<forall>s r f t i env rs v. g_expr e s = Some (r, f, t) \<longrightarrow> gs_ok s \<longrightarrow> rel (gs_vars s) env rs \<longrightarrow>
     c_eval env e = Some v \<longrightarrow> code_at P i f \<longrightarrow> regs_wf rs \<longrightarrow> does P i f (live s) rs (\<lambda>rs'. rw rs' r = v))"

lemma expr_runsD:
  "expr_runs P e \<Longrightarrow> g_expr e s = Some (r, f, t) \<Longrightarrow> gs_ok s \<Longrightarrow> rel (gs_vars s) env rs \<Longrightarrow> c_eval env e = Some v \<Longrightarrow>
   code_at P i f \<Longrightarrow> regs_wf rs \<Longrightarrow> does P i f (live s) rs (\<lambda>rs'. rw rs' r = v)"
  by (simp add: expr_runs_def)

lemma reg_live: "val_reg r \<Longrightarrow> r < gs_next s \<Longrightarrow> r \<in> live s"
  by (auto simp: live_def val_reg_def)

lemma expr_more: "expr_shape s r f t \<Longrightarrow> more_vars s t" "expr_shape s r f t \<Longrightarrow> r \<in> live t" "expr_shape s r f t \<Longrightarrow> live s \<subseteq> live t"
  "expr_shape s r f t \<Longrightarrow> gen_reg r"
  by (auto simp: expr_shape_def shape_def reg_live live_mono gen_val_reg)

text \<open>Two operands, then an operator.\<close>

lemma operands_run:
  assumes a: "g_expr a s = Some (rl, fa, s1)" "expr_runs P a" "c_eval env a = Some x"
    and b: "g_expr b s1 = Some (rr, fb, s2)" "expr_runs P b" "c_eval env b = Some y"
    and s: "gs_ok s" "rel (gs_vars s) env rs" "regs_wf rs" "code_at P i (fa @ fb)"
  shows "does P i (fa @ fb) (live s) rs (\<lambda>rs'. rw rs' rl = x \<and> rw rs' rr = y)"
proof -
  have ea: "expr_shape s rl fa s1" by (rule expr_has_shape [OF a(1) s(1)])
  have 1: "does P i fa (live s) rs (\<lambda>rs'. rw rs' rl = x)"
    using s by (intro expr_runsD [OF a(2,1) s(1,2) a(3)]) simp_all
  show ?thesis
  proof (rule does_append [OF 1])
    fix rs' assume k: "keeps (live s) rs rs'" "rw rs' rl = x"
    have "rel (gs_vars s1) env rs'"
      using rel_more [OF rel_keeps [OF s(2) k(1) s(1)] expr_more(1) [OF ea]] by simp
    then have "does P (i + length fa) fb (live s1) rs' (\<lambda>rs'. rw rs' rr = y)"
      using s k by (intro expr_runsD [OF b(2,1) expr_shape_ok [OF ea] _ b(3)]) (simp_all add: keeps_wf)
    then show "does P (i + length fa) fb (live s1) rs' (\<lambda>rs'. rw rs' rl = x \<and> rw rs' rr = y)"
      by (rule does_conv) (use k(2) expr_more [OF ea] in \<open>auto simp: keeps_at\<close>)
  qed (use expr_more [OF ea] in auto)
qed

lemma binop_runs:
  assumes a: "g_expr a s = Some (rl, fa, s1)" "expr_runs P a" "c_eval env a = Some x"
    and b: "g_expr b s1 = Some (rr, fb, s2)" "expr_runs P b" "c_eval env b = Some y"
    and o: "g_op op rd rl rr s3 = Some (fo, t)" "c_binop op x y = Some v"
    and s: "gs_ok s" "rel (gs_vars s) env rs" "regs_wf rs" "code_at P i (fa @ fb @ fo)" "distinct (labels_of P)"
    and d: "val_reg rd"
  shows "does P i (fa @ fb @ fo) (live s - {rd}) rs (\<lambda>rs'. rw rs' rd = v)"
proof -
  have 1: "does P i (fa @ fb) (live s) rs (\<lambda>rs'. rw rs' rl = x \<and> rw rs' rr = y)"
    using s(4) by (intro operands_run [OF a b s(1-3)]) simp
  have "does P i ((fa @ fb) @ fo) (live s - {rd}) rs (\<lambda>rs'. rw rs' rd = v)"
  proof (rule does_append [OF 1])
    fix rs' assume k: "keeps (live s) rs rs'" "rw rs' rl = x \<and> rw rs' rr = y"
    show "does P (i + length (fa @ fb)) fo (- {rd, FLAGS_TMP}) rs' (\<lambda>rs'. rw rs' rd = v)"
      using o k s(4,5) d gen_val_reg by (intro op_runs) (auto simp: keeps_wf val_reg_def add.assoc)
  qed (auto simp: live_def)
  then show ?thesis by simp
qed


text \<open>Two conditions: the second is tested only where the first does not decide.\<close>

lemma logical_runs:
  assumes g: "g_logical p q opc thru out (g_expr a) (g_expr b) s = Some (r, f, t)" and o: "opc \<in> {Op_BEQ, Op_BNE}"
    and a: "expr_runs P a" "c_eval env a = Some x" and b: "expr_runs P b" "(x = 0 \<longleftrightarrow> opc = Op_BEQ) \<or> c_eval env b = Some y"
    and s: "gs_ok s" "rel (gs_vars s) env rs" "regs_wf rs" "code_at P i f" "distinct (labels_of P)"
  shows "does P i f (live s) rs (\<lambda>rs'. rw rs' r = word_of_int (if (x = 0 \<longleftrightarrow> opc = Op_BEQ) \<or> (y = 0 \<longleftrightarrow> opc = Op_BEQ) then out else thru))"
proof -
  let ?lo = "lbl p (gs_cnt s)" and ?le = "lbl q (gs_cnt s + 1)"
  obtain s1 rl fa s2 rr fb where x: "g_temp (used_labels 2 s) = Some (r, s1)" "g_expr a s1 = Some (rl, fa, s2)"
    "g_expr b s2 = Some (rr, fb, t)" "f = fa @ [I_Br opc rl ?lo] @ fb @ two_way opc rr ?lo ?le r thru out"
    using g by (auto simp: g_logical_def bind_eq_Some_conv Let_def two_way_def)
  note e = temp_shape [OF x(1) used_labels_ok [OF s(1)]]
  have ok: "gs_ok s1" using e(1) by (simp add: shape_def)
  have ea: "expr_shape s1 rl fa s2" by (rule expr_has_shape [OF x(2) ok])
  have eb: "expr_shape s2 rr fb t" by (rule expr_has_shape [OF x(3) expr_shape_ok [OF ea]])
  have r: "gen_reg r" "r \<noteq> 0" "r \<notin> live s" "live s \<subseteq> live s1" "r \<in> live s1"
    using e by (auto simp: gen_val_reg val_reg_def live_def)
  let ?k = "i + length fa" and ?m = "i + length fa + 1 + length fb"
  have m: "code_at P ?m (two_way opc rr ?lo ?le r thru out)" "code_at P i fa" "?k < length P" "P ! ?k = I_Br opc rl ?lo" "code_at P (?k + 1) fb"
    using s(4) by (simp_all add: x(4))
  have lo: "find_label ?lo P = Some (?m + 3)"
    using two_way_at [OF m(1)] by (intro find_at [OF s(5)]) simp_all
  have n: "i + length f = ?m + 6" by (simp add: x(4) two_way_def)
  have v1: "rel (gs_vars s1) env rs" using s(2) e(5) by simp
  obtain rs1 where 1: "goes P (i, rs) (?k, rs1)" "keeps (live s1) rs rs1" "rw rs1 rl = x"
    using expr_runsD [OF a(1) x(2) ok v1 a(2) m(2) s(3)] by (auto simp: does_def)
  have 2: "goes P (?k, rs1) (if x = 0 \<longleftrightarrow> opc = Op_BEQ then ?m + 3 else Suc ?k, rs1)"
    using goes_branch [OF m(3,4) o keeps_wf [OF 1(2)] lo] by (simp add: 1(3))
  show ?thesis
  proof (cases "x = 0 \<longleftrightarrow> opc = Op_BEQ")
    case True
    obtain rs' where 3: "goes P (?m + 3, rs1) (?m + 6, rs')" "rw rs' r = word_of_int out" "keeps (- {r}) rs1 rs'"
      by (rule two_way_out [OF m(1) keeps_wf [OF 1(2)] r(1,2)])
    have "goes P (i, rs) (?m + 6, rs')" using 1(1) 2 3(1) True by (auto intro: goes_trans)
    moreover have "keeps (live s) rs rs'" by (rule keeps_trans [OF 1(2) 3(3)]) (use r in auto)
    ultimately show ?thesis using 3(2) True unfolding does_def n by auto
  next
    case False
    then have y: "c_eval env b = Some y" using b(2) by blast
    have "rel (gs_vars s2) env rs1"
      using rel_more [OF rel_keeps [OF v1 1(2) ok] expr_more(1) [OF ea]] by simp
    then obtain rs2 where 3: "goes P (?k + 1, rs1) (?k + 1 + length fb, rs2)" "keeps (live s2) rs1 rs2" "rw rs2 rr = y"
      using expr_runsD [OF b(1) x(3) expr_shape_ok [OF ea] _ y m(5) keeps_wf [OF 1(2)]] by (auto simp: does_def)
    obtain rs' where 4: "goes P (?m, rs2) (?m + 6, rs')" "keeps (- {r}) rs2 rs'"
      "rw rs' r = word_of_int (if y = 0 \<longleftrightarrow> opc = Op_BEQ then out else thru)"
      using two_way_runs [OF m(1) s(5) o keeps_wf [OF 3(2)] r(1,2)] unfolding does_def two_way_length 3(3) by blast
    have "goes P (i, rs) (Suc ?k, rs1)" using 1(1) 2 False by (auto intro: goes_trans)
    also have "goes P (Suc ?k, rs1) (?m, rs2)" using 3(1) by (simp add: add.assoc)
    also note 4(1)
    finally have "goes P (i, rs) (?m + 6, rs')" .
    moreover have "keeps (live s1) rs rs2" by (rule keeps_trans [OF 1(2) 3(2)]) (use expr_more [OF ea] in auto)
    then have "keeps (live s) rs rs'" by (rule keeps_trans [OF _ 4(2)]) (use r in auto)
    ultimately show ?thesis using 4(3) False unfolding does_def n by auto
  qed
qed

lemma not_runs: "written (I_Op1 Op_NEG d a) rs = Some (d, - rw rs a)" "written (I_Op1 Op_NOT d a) rs = Some (d, NOT (rw rs a))"
  by (simp_all add: alu_word_def Let_def)

lemma unary_runs:
  assumes g: "g_unary op (g_expr a) s = Some (r, f, t)" and a: "expr_runs P a" "c_eval env a = Some x" "c_unop op x = Some v"
    and s: "gs_ok s" "rel (gs_vars s) env rs" "regs_wf rs" "code_at P i f" "distinct (labels_of P)"
  shows "does P i f (live s) rs (\<lambda>rs'. rw rs' r = v)"
proof -
  obtain ra fa s1 s2 where x: "g_expr a s = Some (ra, fa, s1)" "g_temp s1 = Some (r, s2)"
    "(if op = ''-'' then Some (r, fa @ [I_Op1 Op_NEG r ra], s2)
      else if op = ''~'' then Some (r, fa @ [I_Op1 Op_NOT r ra], s2)
      else if op = ''!'' then
        Some (r, fa @ g_choice Op_BEQ ra (lbl ''NOT_ONE'' (gs_cnt s2)) (lbl ''NOT_END'' (gs_cnt s2 + 1)) r, used_labels 2 s2)
      else None) = Some (r, f, t)"
    using g by (auto simp: g_unary_def bind_eq_Some_conv split: if_splits)
  have ea: "expr_shape s ra fa s1" by (rule expr_has_shape [OF x(1) s(1)])
  note e = temp_shape [OF x(2) expr_shape_ok [OF ea]]
  have r: "gen_reg r" "r \<noteq> 0" "live s \<subseteq> - {r}"
    using e ea by (auto simp: gen_val_reg val_reg_def live_def expr_shape_def)
  obtain g where g: "f = fa @ g" by (cases "op = ''!''") (use x(3) in \<open>auto split: if_splits\<close>)
  have 1: "does P i fa (live s) rs (\<lambda>rs'. rw rs' ra = x)"
    using s(4) by (intro expr_runsD [OF a(1) x(1) s(1,2) a(2) _ s(3)]) (simp add: g)
  show ?thesis
    unfolding g
  proof (rule does_append [OF 1])
    fix rs' assume k: "keeps (live s) rs rs'" "rw rs' ra = x"
    show "does P (i + length fa) g (- {r}) rs' (\<lambda>rs'. rw rs' r = v)"
    proof (cases "op = ''!''")
      case True
      then have "g = g_choice Op_BEQ ra (lbl ''NOT_ONE'' (gs_cnt s2)) (lbl ''NOT_END'' (gs_cnt s2 + 1)) r"
        using x(3) g by simp
      then show ?thesis
        using choice_runs [of P "i + length fa" Op_BEQ ra _ _ r rs'] s(4,5) r k a(3) True
        by (auto simp: g keeps_wf c_unop_def)
    next
      case False
      then have "op = ''-'' \<and> g = [I_Op1 Op_NEG r ra] \<or> op = ''~'' \<and> g = [I_Op1 Op_NOT r ra]"
        using x(3) g by (auto split: if_splits)
      then show ?thesis
        using s(4) r k a(3) by (auto simp: g keeps_wf c_unop_def not_runs intro!: does_written simp del: written.simps)
    qed
  qed (use r in auto)
qed

lemma expr_run:
  assumes d: "distinct (labels_of P)"
  shows "plain_expr e \<Longrightarrow> expr_runs P e"
proof (induction e)
  case (IntLiteral v l)
  show ?case
    unfolding expr_runs_def
  proof (intro allI impI)
    fix s r f t i env rs w
    assume g: "g_expr (IntLiteral v l) s = Some (r, f, t)" and s: "gs_ok s"
      and c: "c_eval env (IntLiteral v l) = Some w" "code_at P i f" "regs_wf rs"
    have x: "g_temp s = Some (r, t)" "f = g_imm r v" "w = word_of_int v" using g c by auto
    note e = temp_shape [OF x(1) s]
    have "does P i (g_imm r v) (- {r}) rs (\<lambda>rs'. rw rs' r = loaded_literal v)"
      using c e by (intro imm_runs) (auto simp: x gen_val_reg val_reg_def)
    then show "does P i f (live s) rs (\<lambda>rs'. rw rs' r = w)"
      unfolding x by (rule does_conv) (use e IntLiteral in \<open>auto simp: live_def loaded_literal_def\<close>)
  qed
next
  case (VarRef n l)
  show ?case
    unfolding expr_runs_def
  proof (intro allI impI)
    fix s r f t i env rs v
    assume g: "g_expr (VarRef n l) s = Some (r, f, t)" and s: "gs_ok s" "rel (gs_vars s) env rs"
      and c: "c_eval env (VarRef n l) = Some v" "code_at P i f" "regs_wf rs"
    have "env n = Some (Some v)" using c(1) by (cases "env n") auto
    then obtain q where "map_of (gs_vars s) n = Some q" "rw rs q = v" by (rule relE [OF s(2)]) auto
    then show "does P i f (live s) rs (\<lambda>rs'. rw rs' r = v)"
      using g c(3) by (auto simp: g_var_def intro: does_nil)
  qed
next
  case (BinOp op a b l)
  then have ab: "expr_runs P a" "expr_runs P b" by simp_all
  show ?case
    unfolding expr_runs_def
  proof (intro allI impI)
    fix s r f t i env rs v
    assume g: "g_expr (BinOp op a b l) s = Some (r, f, t)" and s: "gs_ok s" "rel (gs_vars s) env rs"
      and c: "c_eval env (BinOp op a b l) = Some v" "code_at P i f" "regs_wf rs"
    obtain x where x: "c_eval env a = Some x" using c(1) by (auto simp: bind_eq_Some_conv)
    consider "op = ''&&''" | "op = ''||''" | "op \<notin> {''&&'', ''||''}" by blast
    then show "does P i f (live s) rs (\<lambda>rs'. rw rs' r = v)"
    proof cases
      case 1
      obtain y where y: "x = 0 \<or> c_eval env b = Some y" "v = truth (x \<noteq> 0 \<and> y \<noteq> 0)"
        using c(1) x 1 by (auto simp: truth_def split: if_splits)
      have "does P i f (live s) rs (\<lambda>rs'. rw rs' r = word_of_int (if (x = 0) = (Op_BEQ = Op_BEQ) \<or> (y = 0) = (Op_BEQ = Op_BEQ) then 0 else 1))"
        using g y(1) 1 by (intro logical_runs [OF _ _ ab(1) x ab(2) _ s c(3,2) d]) simp_all
      then show ?thesis by (rule does_conv) (auto simp: y(2) truth_def split: if_splits)
    next
      case 2
      obtain y where y: "x \<noteq> 0 \<or> c_eval env b = Some y" "v = truth (x \<noteq> 0 \<or> y \<noteq> 0)"
        using c(1) x 2 by (auto simp: truth_def split: if_splits)
      have "does P i f (live s) rs (\<lambda>rs'. rw rs' r = word_of_int (if (x = 0) = (Op_BNE = Op_BEQ) \<or> (y = 0) = (Op_BNE = Op_BEQ) then 1 else 0))"
        using g y(1) 2 by (intro logical_runs [OF _ _ ab(1) x ab(2) _ s c(3,2) d]) simp_all
      then show ?thesis by (rule does_conv) (auto simp: y(2) truth_def split: if_splits)
    next
      case 3
      obtain rl fa s1 rr fb s2 s3 fo where z: "g_expr a s = Some (rl, fa, s1)" "g_expr b s1 = Some (rr, fb, s2)"
        "g_temp s2 = Some (r, s3)" "g_op op r rl rr s3 = Some (fo, t)" "f = fa @ fb @ fo"
        using g 3 by (auto simp: g_binop_def bind_eq_Some_conv)
      obtain y where y: "c_eval env b = Some y" "c_binop op x y = Some v"
        using c(1) 3 x by (auto simp: bind_eq_Some_conv)
      have ea: "expr_shape s rl fa s1" by (rule expr_has_shape [OF z(1) s(1)])
      have eb: "expr_shape s1 rr fb s2" by (rule expr_has_shape [OF z(2) expr_shape_ok [OF ea]])
      note e = temp_shape [OF z(3) expr_shape_ok [OF eb]]
      have "does P i (fa @ fb @ fo) (live s - {r}) rs (\<lambda>rs'. rw rs' r = v)"
        using c(2) by (intro binop_runs [OF z(1) ab(1) x z(2) ab(2) y(1) z(4) y(2) s c(3) _ d e(2)]) (simp add: z(5))
      then show ?thesis
        unfolding z(5) by (rule does_conv) (use ea eb e in \<open>auto simp: live_def expr_shape_def\<close>)
    qed
  qed
next
  case (UnaryOp op a l)
  then have a: "expr_runs P a" by simp
  show ?case
    unfolding expr_runs_def
  proof (intro allI impI)
    fix s r f t i env rs v
    assume g: "g_expr (UnaryOp op a l) s = Some (r, f, t)" and s: "gs_ok s" "rel (gs_vars s) env rs"
      and c: "c_eval env (UnaryOp op a l) = Some v" "code_at P i f" "regs_wf rs"
    obtain x where "c_eval env a = Some x" "c_unop op x = Some v" using c(1) by (auto simp: bind_eq_Some_conv)
    then show "does P i f (live s) rs (\<lambda>rs'. rw rs' r = v)"
      using g by (intro unary_runs [OF _ a _ _ s c(3,2) d]) simp_all
  qed
qed simp_all

end
