(* ===== verification/Stmt_Runs.thy ===== *)
theory Stmt_Runs
  imports Code_Runs
begin

text \<open>
  The generated code computes what the program means: statements.  For every fuel the statements are
  done by induction on their structure, given the loops with that fuel; a loop with one more follows.
\<close>

section \<open>Outcomes\<close>

text \<open>Where the code is at an outcome: at its end, at a label of the innermost loop, or at HLT.\<close>

fun reaches :: "asm_ins list \<Rightarrow> loops \<Rightarrow> (string \<times> int) list \<Rightarrow> config \<Rightarrow> nat \<Rightarrow> outcome \<Rightarrow> bool" where
  "reaches P stk vars c k (Normal env) = (\<exists>rs'. goes P c (k, rs') \<and> regs_wf rs' \<and> rel vars env rs')"
| "reaches P stk vars c k (Broke env) =
     (\<exists>j rs'. stk \<noteq> [] \<and> find_label (snd (hd stk)) P = Some j \<and> goes P c (j, rs') \<and> regs_wf rs' \<and> rel vars env rs')"
| "reaches P stk vars c k (Continued env) =
     (\<exists>j rs'. stk \<noteq> [] \<and> find_label (fst (hd stk)) P = Some j \<and> goes P c (j, rs') \<and> regs_wf rs' \<and> rel vars env rs')"
| "reaches P stk vars c k (Returned v) =
     (\<exists>j rs'. goes P c (j, rs') \<and> j < length P \<and> P ! j = I_Hlt \<and> regs_wf rs' \<and> (\<forall>w. v = Some w \<longrightarrow> rw rs' 1 = w))"

lemma rel_restrict: "rel vars env rs \<Longrightarrow> rel vars (env |` A) rs"
  by (rule relI) (auto simp: restrict_map_def elim!: relE split: if_splits)

lemma reaches_leave: "reaches P stk vars c k r \<Longrightarrow> reaches P stk vars c k (leave env r)"
  by (cases r) (auto intro: rel_restrict)

lemma reaches_more: "reaches P stk (gs_vars s) c k r \<Longrightarrow> more_vars s t \<Longrightarrow> reaches P stk (gs_vars t) c k r"
  by (cases r) (auto intro: rel_more)

lemma reaches_from: "goes P c c' \<Longrightarrow> reaches P stk vars c' k r \<Longrightarrow> reaches P stk vars c k r"
  by (cases r) (auto intro: goes_trans)

definition labels_in :: "asm_ins list \<Rightarrow> loops \<Rightarrow> bool" where
  "labels_in P stk \<longleftrightarrow> (\<forall>l \<in> stack_labels stk. label_ok l \<and> l \<in> set (labels_of P))"

text \<open>The generated code does what \<open>ex\<close> says.\<close>

definition computes :: "asm_ins list \<Rightarrow> (loops \<Rightarrow> stmt_gen) \<Rightarrow> (env \<Rightarrow> outcome option) \<Rightarrow> bool" where
  "computes P g ex \<longleftrightarrow> (\<forall>stk s f t i env rs r. g stk s = Some (f, t) \<longrightarrow> gs_ok s \<longrightarrow> labels_in P stk \<longrightarrow> rel (gs_vars s) env rs \<longrightarrow>
     ex env = Some r \<longrightarrow> code_at P i f \<longrightarrow> regs_wf rs \<longrightarrow> reaches P stk (gs_vars t) (i, rs) (i + length f) r)"

lemma computesD:
  "computes P g ex \<Longrightarrow> g stk s = Some (f, t) \<Longrightarrow> gs_ok s \<Longrightarrow> labels_in P stk \<Longrightarrow> rel (gs_vars s) env rs \<Longrightarrow>
   ex env = Some r \<Longrightarrow> code_at P i f \<Longrightarrow> regs_wf rs \<Longrightarrow> reaches P stk (gs_vars t) (i, rs) (i + length f) r"
  by (simp add: computes_def)

lemma computesI:
  assumes "\<And>stk s f t i env rs r. g stk s = Some (f, t) \<Longrightarrow> gs_ok s \<Longrightarrow> labels_in P stk \<Longrightarrow> rel (gs_vars s) env rs \<Longrightarrow>
     ex env = Some r \<Longrightarrow> code_at P i f \<Longrightarrow> regs_wf rs \<Longrightarrow> reaches P stk (gs_vars t) (i, rs) (i + length f) r"
  shows "computes P g ex"
  using assms by (simp add: computes_def)

lemma computes_cong: "computes P g ex \<Longrightarrow> (\<And>stk s. h stk s = g stk s) \<Longrightarrow> (\<And>env. ey env = ex env) \<Longrightarrow> computes P h ey"
  by (simp add: computes_def)

section \<open>Assignments\<close>

lemma same_reg: "gs_ok s \<Longrightarrow> map_of (gs_vars s) x = Some r \<Longrightarrow> map_of (gs_vars s) y = Some r \<Longrightarrow> x = y"
  using map_of_SomeD by (fastforce simp: gs_ok_def distinct_map inj_on_def)

lemma rel_update:
  assumes r: "rel (gs_vars s) env rs" and k: "keeps (live s - {reg}) rs rs'" and v: "rw rs' reg = w"
    and m: "map_of (gs_vars s) n = Some reg" and s: "gs_ok s"
  shows "rel (gs_vars s) (env(n \<mapsto> Some w)) rs'"
proof (rule relI)
  fix x u assume e: "(env(n \<mapsto> Some w)) x = Some u"
  show "\<exists>r. map_of (gs_vars s) x = Some r \<and> (\<forall>v. u = Some v \<longrightarrow> rw rs' r = v)"
  proof (cases "x = n")
    case False
    then have "env x = Some u" using e by simp
    then obtain q where q: "map_of (gs_vars s) x = Some q" "\<And>v. u = Some v \<Longrightarrow> rw rs q = v" by (rule relE [OF r]) auto
    have "q \<noteq> reg" using False same_reg [OF s q(1)] m by auto
    then have "rw rs' q = rw rs q" using var_live [OF s q(1)] gen_val_reg by (intro keeps_at [OF k]) auto
    then show ?thesis using q by auto
  qed (use e v m in auto)
qed

lemma set_runs:
  assumes g: "g_set reg e s = Some (f, t)" and e: "expr_runs P e" "c_eval env e = Some v"
    and s: "gs_ok s" "rel (gs_vars s) env rs" "regs_wf rs" "code_at P i f" and r: "gen_reg reg" "reg \<noteq> 0"
  shows "does P i f (live s - {reg}) rs (\<lambda>rs'. rw rs' reg = v)"
proof -
  obtain q h where h: "g_expr e s = Some (q, h, t)" "f = h @ g_move reg q" using g by (auto simp: g_set_def)
  have 1: "does P i h (live s) rs (\<lambda>rs'. rw rs' q = v)"
    using s(4) by (intro expr_runsD [OF e(1) h(1) s(1,2) e(2) _ s(3)]) (simp add: h(2))
  show ?thesis
  proof (cases "q = reg")
    case True
    then show ?thesis using 1 by (auto simp: h(2) g_move_def intro: does_conv)
  next
    case False
    show ?thesis
      unfolding h(2)
    proof (rule does_append [OF 1])
      fix rs' assume k: "keeps (live s) rs rs'" "rw rs' q = v"
      show "does P (i + length h) (g_move reg q) (- {reg}) rs' (\<lambda>rs'. rw rs' reg = v)"
        using s(4) k r False by (auto simp: h(2) g_move_def keeps_wf alu_word_def intro!: does_written)
    qed auto
  qed
qed

lemma assign_runs:
  assumes d: "distinct (labels_of P)" and p: "plain_expr e"
    and g: "g_assign n op e s = Some (f, t)" and e: "n \<in> dom env" "c_eval env e = Some v" "assign_result op env n v = Some w"
    and s: "gs_ok s" "rel (gs_vars s) env rs" "regs_wf rs" "code_at P i f"
  shows "\<exists>rs'. goes P (i, rs) (i + length f, rs') \<and> regs_wf rs' \<and> rel (gs_vars s) (env(n \<mapsto> Some w)) rs'"
proof -
  obtain o' where "env n = Some o'" using e(1) by blast
  then obtain reg where m: "map_of (gs_vars s) n = Some reg" by (rule relE [OF s(2)])
  note l = var_live [OF s(1) m]
  have r: "gen_reg reg" "reg \<noteq> 0" using l(1) by (simp_all add: gen_val_reg, simp add: val_reg_def)
  have v: "g_var n s = Some (reg, s)" using m by (simp add: g_var_def)
  have x: "expr_runs P e" by (rule expr_run [OF d p])
  have "does P i f (live s - {reg}) rs (\<lambda>rs'. rw rs' reg = w)"
  proof (cases "op = ''=''")
    case True
    then have w: "w = v" using e(3) by (simp add: assign_result_def)
    show ?thesis
    proof (cases "\<exists>bop l r b. e = BinOp bop l r b \<and> bop \<notin> {''&&'', ''||''}")
      case True
      then obtain bop a b l where b: "e = BinOp bop a b l" "bop \<notin> {''&&'', ''||''}" by blast
      then obtain q where "g_binop bop (g_expr a) (g_expr b) (Some reg) s = Some (q, f, t)"
        using g v \<open>op = ''=''\<close> by (auto simp: g_assign_def)
      then obtain rl fa s2 rr fb s3 fo where y: "g_expr a s = Some (rl, fa, s2)" "g_expr b s2 = Some (rr, fb, s3)"
        "g_op bop reg rl rr s3 = Some (fo, t)" "f = fa @ fb @ fo"
        by (auto simp: g_binop_def bind_eq_Some_conv)
      have ab: "expr_runs P a" "expr_runs P b" using p b by (auto intro: expr_run [OF d])
      obtain xa xb where z: "c_eval env a = Some xa" "c_eval env b = Some xb" "c_binop bop xa xb = Some v"
        using e(2) b by (auto simp: bind_eq_Some_conv)
      show ?thesis
        unfolding y(4) w
        using s(4) by (intro binop_runs [OF y(1) ab(1) z(1) y(2) ab(2) z(2) y(3) z(3) s(1-3) _ d l(1)]) (simp add: y(4))
    next
      case False
      with g v \<open>op = ''=''\<close> have "g_set reg e s = Some (f, t)" by (cases e) (auto simp: g_assign_def)
      from set_runs [OF this x e(2) s r] show ?thesis by (simp add: w)
    qed
  next
    case False
    then obtain old where old: "env n = Some (Some old)" "c_binop (butlast op) old v = Some w"
      using e(3) by (auto simp: assign_result_def bind_eq_Some_conv)
    obtain q h opc where h: "g_expr e s = Some (q, h, t)" "op_code (butlast op) = Some opc" "f = h @ [I_Op opc reg reg q]"
      using g False by (auto simp: g_assign_def v bind_eq_Some_conv)
    have ro: "rw rs reg = old" using relE [OF s(2) old(1)] m by (metis option.inject)
    have 1: "does P i h (live s) rs (\<lambda>rs'. rw rs' q = v)"
      using s(4) by (intro expr_runsD [OF x h(1) s(1,2) e(2) _ s(3)]) (simp add: h(3))
    show ?thesis
      unfolding h(3)
    proof (rule does_append [OF 1])
      fix rs' assume k: "keeps (live s) rs rs'" "rw rs' q = v"
      have "rw rs' reg = old" using keeps_at [OF k(1) l(2) r(1)] ro by simp
      then have "written (I_Op opc reg reg q) rs' = Some (reg, w)" using op_word [OF h(2) old(2)] k(2) by simp
      then show "does P (i + length h) [I_Op opc reg reg q] (- {reg}) rs' (\<lambda>rs'. rw rs' reg = w)"
        using s(4) k r by (intro does_written) (simp_all add: h(3) keeps_wf)
    qed auto
  qed
  then obtain rs' where "goes P (i, rs) (i + length f, rs')" "keeps (live s - {reg}) rs rs'" "rw rs' reg = w"
    by (auto simp: does_def)
  then show ?thesis
    using rel_update [OF s(2) _ _ m s(1)] keeps_wf by blast
qed

lemma assign_computes:
  assumes d: "distinct (labels_of P)" and p: "plain_expr e"
  shows "computes P (g_stmt (Assign n op e l)) (c_exec k (Assign n op e l))"
proof (rule computesI)
  fix stk s f t i env rs r
  assume g: "g_stmt (Assign n op e l) stk s = Some (f, t)" and s: "gs_ok s" "rel (gs_vars s) env rs"
    and x: "c_exec k (Assign n op e l) env = Some r" and c: "code_at P i f" "regs_wf rs"
  obtain u where u: "g_assign n op e s = Some (f, u)" "t = g_free u" using g by auto
  obtain v w where v: "n \<in> dom env" "c_eval env e = Some v" "assign_result op env n v = Some w" "r = Normal (env(n \<mapsto> Some w))"
    using x by (auto simp: bind_eq_Some_conv split: if_splits)
  have m: "more_vars s t" using assign_shape(1) [OF u(1) s(1)] by (simp add: u(2) shape_def more_vars_def)
  obtain rs' where "goes P (i, rs) (i + length f, rs')" "regs_wf rs'" "rel (gs_vars s) (env(n \<mapsto> Some w)) rs'"
    using assign_runs [OF d p u(1) v(1-3) s c(2,1)] by blast
  then show "reaches P stk (gs_vars t) (i, rs) (i + length f) r"
    using rel_more [OF _ m] by (auto simp: v(4))
qed

lemma decl_computes:
  assumes d: "distinct (labels_of P)" and p: "case init of None \<Rightarrow> True | Some e \<Rightarrow> plain_expr e"
  shows "computes P (g_stmt (VarDecl n init b l)) (c_exec k (VarDecl n init b l))"
proof (rule computesI)
  fix stk s f t i env rs r
  assume g: "g_stmt (VarDecl n init b l) stk s = Some (f, t)" and s: "gs_ok s" "rel (gs_vars s) env rs"
    and x: "c_exec k (VarDecl n init b l) env = Some r" and c: "code_at P i f" "regs_wf rs"
  obtain reg s1 u where u: "g_var n s = Some (reg, s1)" "t = g_free u"
    "(case init of None \<Rightarrow> Some ([], s1) | Some e \<Rightarrow> g_set reg e s1) = Some (f, u)"
    using g by (auto simp: bind_eq_Some_conv)
  note v = var_shape [OF u(1) s(1)]
  have ok: "gs_ok s1" by (rule shape_ok [OF v(1)])
  have r1: "rel (gs_vars s1) env rs" using rel_more [OF s(2)] v(1) by (simp add: shape_def)
  have m: "map_of (gs_vars s1) n = Some reg" by (simp add: v(6))
  show "reaches P stk (gs_vars t) (i, rs) (i + length f) r"
  proof (cases init)
    case None
    then have "r = Normal (env(n \<mapsto> None))" using x by (auto split: if_splits)
    moreover have "rel (gs_vars s1) (env(n \<mapsto> None)) rs"
    proof (rule relI)
      fix y w assume y: "(env(n \<mapsto> None)) y = Some w"
      show "\<exists>r. map_of (gs_vars s1) y = Some r \<and> (\<forall>v. w = Some v \<longrightarrow> rw rs r = v)"
      proof (cases "y = n")
        case False
        then have "env y = Some w" using y by simp
        then show ?thesis by (rule relE [OF r1]) auto
      qed (use m y in auto)
    qed
    ultimately show ?thesis using u(3) c(2) None by (auto simp: u(2))
  next
    case (Some e)
    then obtain w where w: "c_eval env e = Some w" "r = Normal (env(n \<mapsto> Some w))" using x by (auto split: if_splits)
    have gs: "g_set reg e s1 = Some (f, u)" using u(3) Some by simp
    have "gen_reg reg" "reg \<noteq> 0" using v(2) by (simp add: gen_val_reg, simp add: val_reg_def)
    then have "does P i f (live s1 - {reg}) rs (\<lambda>rs'. rw rs' reg = w)"
      using p Some by (intro set_runs [OF gs expr_run [OF d] w(1) ok r1 c(2,1)]) simp_all
    then obtain rs' where 1: "goes P (i, rs) (i + length f, rs')" "keeps (live s1 - {reg}) rs rs'" "rw rs' reg = w"
      by (auto simp: does_def)
    have "rel (gs_vars t) (env(n \<mapsto> Some w)) rs'"
      using rel_more [OF rel_update [OF r1 1(2,3) m ok]] set_shape(1) [OF gs ok gen_val_reg [OF v(2)]]
      by (simp add: u(2) shape_def)
    then show ?thesis using 1 keeps_wf by (auto simp: w(2))
  qed
qed


section \<open>Jumps and returns\<close>

lemma return_computes:
  assumes d: "distinct (labels_of P)" and p: "case e of None \<Rightarrow> True | Some e \<Rightarrow> plain_expr e"
  shows "computes P (g_stmt (ReturnStmt e l)) (c_exec k (ReturnStmt e l))"
proof (rule computesI)
  fix stk s f t i env rs r
  assume g: "g_stmt (ReturnStmt e l) stk s = Some (f, t)" and s: "gs_ok s" "rel (gs_vars s) env rs"
    and x: "c_exec k (ReturnStmt e l) env = Some r" and c: "code_at P i f" "regs_wf rs"
  show "reaches P stk (gs_vars t) (i, rs) (i + length f) r"
  proof (cases e)
    case None
    then show ?thesis using g x c by (fastforce simp: Suc_le_eq)
  next
    case (Some e')
    then obtain h u where h: "g_set 1 e' s = Some (h, u)" "f = h @ [I_Hlt]" using g by auto
    obtain w where w: "c_eval env e' = Some w" "r = Returned (Some w)" using x Some by auto
    have "does P i h (live s - {1}) rs (\<lambda>rs'. rw rs' 1 = w)"
      using p Some c scratch_reg by (intro set_runs [OF h(1) expr_run [OF d] w(1) s c(2)]) (simp_all add: h(2))
    then obtain rs' where "goes P (i, rs) (i + length h, rs')" "keeps (live s - {1}) rs rs'" "rw rs' 1 = w"
      by (auto simp: does_def)
    moreover have "i + length h < length P" "P ! (i + length h) = I_Hlt" using c(1) by (simp_all add: h(2))
    ultimately show ?thesis using keeps_wf unfolding w(2) by fastforce
  qed
qed

lemma jump_goes:
  assumes "labels_in P stk" "l \<in> stack_labels stk" "code_at P i [I_Jmp l]"
  shows "\<exists>j. find_label l P = Some j \<and> goes P (i, rs) (j, rs)"
  using assms find_label_ex [of l P] goes_jump [of i P l] by (auto simp: labels_in_def)

lemma break_computes: "computes P (g_stmt (BreakStmt l)) (c_exec k (BreakStmt l))"
proof (rule computesI)
  fix stk s f t i env rs r
  assume g: "g_stmt (BreakStmt l) stk s = Some (f, t)" "labels_in P stk" "rel (gs_vars s) env rs"
    "c_exec k (BreakStmt l) env = Some r" "code_at P i f" "regs_wf rs"
  then show "reaches P stk (gs_vars t) (i, rs) (i + length f) r"
    using jump_goes [OF g(2), of "snd (hd stk)" i rs] by (fastforce split: list.splits)
qed

lemma continue_computes: "computes P (g_stmt (ContinueStmt l)) (c_exec k (ContinueStmt l))"
proof (rule computesI)
  fix stk s f t i env rs r
  assume g: "g_stmt (ContinueStmt l) stk s = Some (f, t)" "labels_in P stk" "rel (gs_vars s) env rs"
    "c_exec k (ContinueStmt l) env = Some r" "code_at P i f" "regs_wf rs"
  then show "reaches P stk (gs_vars t) (i, rs) (i + length f) r"
    using jump_goes [OF g(2), of "fst (hd stk)" i rs] by (fastforce split: list.splits)
qed

lemma exprstmt_computes:
  assumes d: "distinct (labels_of P)" and p: "plain_expr e"
  shows "computes P (g_stmt (ExprStmt e l)) (c_exec k (ExprStmt e l))"
proof (rule computesI)
  fix stk s f t i env rs r
  assume g: "g_stmt (ExprStmt e l) stk s = Some (f, t)" and s: "gs_ok s" "rel (gs_vars s) env rs"
    and x: "c_exec k (ExprStmt e l) env = Some r" and c: "code_at P i f" "regs_wf rs"
  obtain q u where u: "g_expr e s = Some (q, f, u)" "t = g_free u" using g by auto
  obtain w where w: "c_eval env e = Some w" "r = Normal env" using x by auto
  have m: "more_vars s t" using expr_more(1) [OF expr_has_shape [OF u(1) s(1)]] by (simp add: u(2) more_vars_def)
  obtain rs' where "goes P (i, rs) (i + length f, rs')" "keeps (live s) rs rs'"
    using expr_runsD [OF expr_run [OF d p] u(1) s w(1) c] by (auto simp: does_def)
  then show "reaches P stk (gs_vars t) (i, rs) (i + length f) r"
    using rel_more [OF rel_keeps [OF s(2) _ s(1)] m] keeps_wf by (auto simp: w(2))
qed

section \<open>Sequences, conditions\<close>

lemma stmts_computes_all:
  "\<forall>st \<in> set ss. computes P (g_stmt st) (c_exec k st) \<Longrightarrow> computes P (g_stmts ss) (c_execs k ss)"
proof (induction ss)
  case Nil
  show ?case by (rule computesI) fastforce
next
  case (Cons st ss)
  then have st: "computes P (g_stmt st) (c_exec k st)" and ss: "computes P (g_stmts ss) (c_execs k ss)" by simp_all
  show ?case
  proof (rule computesI)
    fix stk s f t i env rs r
    assume g: "g_stmts (st # ss) stk s = Some (f, t)" and s: "gs_ok s" "labels_in P stk" "rel (gs_vars s) env rs"
      and x: "c_execs k (st # ss) env = Some r" and c: "code_at P i f" "regs_wf rs"
    obtain fa s1 fb where z: "g_stmt st stk s = Some (fa, s1)" "g_stmts ss stk s1 = Some (fb, t)" "f = fa @ fb"
      using g by (auto simp: bind_eq_Some_conv)
    obtain r1 where r1: "c_exec k st env = Some r1" "(case r1 of Normal env' \<Rightarrow> c_execs k ss env' | _ \<Rightarrow> Some r1) = Some r"
      using x by (auto simp: bind_eq_Some_conv)
    have l: "\<forall>l \<in> stack_labels stk. label_ok l" using s(2) by (auto simp: labels_in_def)
    have a: "stmt_shape s stk fa s1" by (rule gen_shapeD [OF stmt_has_shape z(1) s(1) l])
    have b: "stmt_shape s1 stk fb t" by (rule gen_shapeD [OF stmts_has_shape z(2) stmt_shape_ok [OF a] l])
    have A: "reaches P stk (gs_vars s1) (i, rs) (i + length fa) r1"
      using c by (intro computesD [OF st z(1) s r1(1)]) (simp_all add: z(3))
    show "reaches P stk (gs_vars t) (i, rs) (i + length f) r"
    proof (cases "\<exists>env'. r1 = Normal env'")
      case True
      then obtain env' where e: "r1 = Normal env'" by blast
      then obtain rs' where 1: "goes P (i, rs) (i + length fa, rs')" "regs_wf rs'" "rel (gs_vars s1) env' rs'"
        using A by auto
      have "reaches P stk (gs_vars t) (i + length fa, rs') (i + length fa + length fb) r"
        using c r1(2) e by (intro computesD [OF ss z(2) stmt_shape_ok [OF a] s(2) 1(3) _ _ 1(2)]) (simp_all add: z(3))
      then show ?thesis using reaches_from [OF 1(1)] by (simp add: z(3) add.assoc)
    next
      case False
      then have "r = r1" using r1(2) by (cases r1) auto
      moreover have "reaches P stk (gs_vars t) (i, rs) (i + length fa) r1"
        using reaches_more [OF A] b by (simp add: stmt_shape_def shape_def)
      ultimately show ?thesis using False by (cases r1) auto
    qed
  qed
qed

lemma opt_computes:
  "\<forall>st \<in> set_option os. computes P (g_stmt st) (c_exec k st) \<Longrightarrow> computes P (g_opt os) (c_opt k os)"
proof (cases os)
  case None
  then show ?thesis by (intro computesI) fastforce
next
  case (Some st)
  assume "\<forall>st \<in> set_option os. computes P (g_stmt st) (c_exec k st)"
  then show ?thesis using Some by (simp add: computes_def)
qed

lemma computes_leave: "computes P g ex \<Longrightarrow> computes P g (\<lambda>env. map_option (leave env) (ex env))"
  by (rule computesI) (auto intro: reaches_leave dest: computesD)

definition cond_val :: "env \<Rightarrow> expr option \<Rightarrow> 32 word option" where
  "cond_val env c = (case c of None \<Rightarrow> Some 1 | Some e \<Rightarrow> c_eval env e)"

lemma cond_runs:
  assumes d: "distinct (labels_of P)" and p: "case c of None \<Rightarrow> True | Some e \<Rightarrow> plain_expr e"
    and g: "g_cond c l s = Some (f, t)" and v: "cond_val env c = Some v" and j: "find_label l P = Some j"
    and s: "gs_ok s" "rel (gs_vars s) env rs" "regs_wf rs" "code_at P i f"
  shows "\<exists>rs'. goes P (i, rs) (if v = 0 then j else i + length f, rs') \<and> keeps (live s) rs rs'"
proof (cases c)
  case None
  then show ?thesis using g v s(3) by (auto simp: g_cond_def cond_val_def intro: keeps_refl)
next
  case (Some e)
  then obtain r h where h: "g_expr e s = Some (r, h, t)" "f = h @ [I_Br Op_BEQ r l]" using g by (auto simp: g_cond_def)
  have "does P i h (live s) rs (\<lambda>rs'. rw rs' r = v)"
    using p v s(4) Some by (intro expr_runsD [OF expr_run [OF d] h(1) s(1,2) _ _ s(3)]) (simp_all add: h(2) cond_val_def)
  then obtain rs' where 1: "goes P (i, rs) (i + length h, rs')" "keeps (live s) rs rs'" "rw rs' r = v" by (auto simp: does_def)
  have "goes P (i + length h, rs') (if v = 0 then j else Suc (i + length h), rs')"
    using goes_branch [OF _ _ _ keeps_wf [OF 1(2)] j, of "i + length h" Op_BEQ r] s(4) 1(3) by (simp add: h(2))
  from goes_trans [OF 1(1) this] 1(2) show ?thesis unfolding h(2) by (intro exI [of _ rs']) (auto split: if_splits)
qed


section \<open>Blocks\<close>

lemma if_computes:
  assumes d: "distinct (labels_of P)" and p: "plain_expr c"
    and a: "computes P (g_stmts ts) (c_execs k ts)" and b: "computes P (g_stmts es) (c_execs k es)"
  shows "computes P (g_stmt (IfStmt c ts es l)) (c_exec k (IfStmt c ts es l))"
proof (rule computesI)
  fix stk s f t i env rs r
  assume g: "g_stmt (IfStmt c ts es l) stk s = Some (f, t)" and s: "gs_ok s" "labels_in P stk" "rel (gs_vars s) env rs"
    and x: "c_exec k (IfStmt c ts es l) env = Some r" and i: "code_at P i f" "regs_wf rs"
  let ?e = "lbl ''ELSE'' (gs_cnt s)" and ?n = "lbl ''ENDIF'' (gs_cnt s + 1)"
  obtain fc s1 ft s2 fe where z: "g_cond (Some c) ?e (used_labels 2 s) = Some (fc, s1)" "g_stmts ts stk s1 = Some (ft, s2)"
    "g_stmts es stk s2 = Some (fe, t)"
    "f = fc @ ft @ (if es \<noteq> [] then [I_Jmp ?n] else []) @ [I_Label ?e] @ fe @ [I_Label ?n]"
    using g by (auto simp: g_if_def Let_def bind_eq_Some_conv)
  obtain v r1 where v: "c_eval env c = Some v" "c_execs k (if v \<noteq> 0 then ts else es) env = Some r1" "r = leave env r1"
    using x by (auto simp: bind_eq_Some_conv)
  have ok: "gs_ok (used_labels 2 s)" by (rule used_labels_ok [OF s(1)]) simp
  have sc: "shape (used_labels 2 s) fc s1" by (rule cond_shape(1) [OF z(1) ok]) simp
  have l: "\<forall>l \<in> stack_labels stk. label_ok l" using s(2) by (auto simp: labels_in_def)
  have sa: "stmt_shape s1 stk ft s2" by (rule gen_shapeD [OF stmts_has_shape z(2) shape_ok [OF sc] l])
  have sb: "stmt_shape s2 stk fe t" by (rule gen_shapeD [OF stmts_has_shape z(3) stmt_shape_ok [OF sa] l])
  let ?m = "i + length fc + length ft + (if es \<noteq> [] then 1 else 0)"
  have c: "code_at P i fc" "code_at P (i + length fc) ft" "?m < length P" "P ! ?m = I_Label ?e" "code_at P (Suc ?m) fe"
    "Suc ?m + length fe < length P" "P ! (Suc ?m + length fe) = I_Label ?n" "i + length f = Suc (Suc ?m + length fe)"
    using i(1) by (simp_all add: z(4) add.assoc split: if_splits)
  have le: "find_label ?e P = Some ?m" "find_label ?n P = Some (Suc ?m + length fe)"
    by (rule find_at [OF d c(3,4)], rule find_at [OF d c(6,7)])
  have out: "goes P (Suc ?m + length fe, rs') (i + length f, rs')" for rs'
    unfolding c(8) by (rule goes_label [OF c(6,7)])
  have fin: "reaches P stk (gs_vars t) (i, rs) (i + length f) r"
    if R: "reaches P stk (gs_vars t) (i, rs) j r1" and J: "\<And>rs'. goes P (j, rs') (i + length f, rs')" for j
    using reaches_leave [OF R, of env] J unfolding v(3) by (cases r1) (auto intro: goes_trans)
  have m1: "more_vars (used_labels 2 s) s1" and m2: "more_vars s1 s2" and m3: "more_vars s2 t"
    using sc sa sb by (simp_all add: stmt_shape_def shape_def)
  obtain rs1 where 1: "goes P (i, rs) (if v = 0 then ?m else i + length fc, rs1)" "keeps (live (used_labels 2 s)) rs rs1"
    using cond_runs [OF d _ z(1) _ le(1) ok _ i(2) c(1), of env v] p v(1) s(3) by (auto simp: cond_val_def)
  have R1: "rel (gs_vars s1) env rs1"
    using rel_more [OF rel_keeps [OF _ 1(2) ok] m1] s(3) by simp
  show "reaches P stk (gs_vars t) (i, rs) (i + length f) r"
  proof (cases "v = 0")
    case True
    have "goes P (i, rs) (Suc ?m, rs1)" using 1(1) goes_label [OF c(3,4)] True by (auto intro: goes_trans)
    moreover have "reaches P stk (gs_vars t) (Suc ?m, rs1) (Suc ?m + length fe) r1"
      using v(2) True by (intro computesD [OF b z(3) stmt_shape_ok [OF sa] s(2) rel_more [OF R1 m2] _ c(5) keeps_wf [OF 1(2)]]) simp
    ultimately show ?thesis using reaches_from out by (intro fin) blast+
  next
    case False
    have A: "reaches P stk (gs_vars s2) (i + length fc, rs1) (i + length fc + length ft) r1"
      using v(2) False by (intro computesD [OF a z(2) shape_ok [OF sc] s(2) R1 _ c(2) keeps_wf [OF 1(2)]]) simp
    have B: "goes P (i, rs) (i + length fc, rs1)" using 1(1) False by simp
    have "goes P (i + length fc + length ft, rs') (i + length f, rs')" for rs'
    proof (cases "es = []")
      case True
      then have "fe = []" using z(3) by simp
      then show ?thesis
        using goes_label [OF c(3,4)] out True by (auto intro: goes_trans)
    next
      case ne: False
      then have "i + length fc + length ft < length P" "P ! (i + length fc + length ft) = I_Jmp ?n"
        using i(1) by (simp_all add: z(4) add.assoc)
      from goes_trans [OF goes_jump [OF this le(2)] out] show ?thesis .
    qed
    then show ?thesis
      by (rule fin [OF reaches_from [OF B reaches_more [OF A m3]]])
  qed
qed

section \<open>Loops\<close>

text \<open>
  Both loops: the test at \<open>i\<close>, the body, the update where \<^verbatim>\<open>continue\<close> leads (for \<^verbatim>\<open>while\<close>, the test
  itself), and the jump back; \<open>k\<close> is the end.
\<close>

definition loop_code :: "asm_ins list \<Rightarrow> nat \<Rightarrow> nat \<Rightarrow> expr option \<Rightarrow> stmt list \<Rightarrow> stmt option \<Rightarrow> loops \<Rightarrow> gs \<Rightarrow> gs \<Rightarrow> bool" where
  "loop_code P i k c b u stk s t \<longleftrightarrow> (\<exists>lt lu le fc s1 fb s2 pre fu.
     label_ok lt \<and> label_ok lu \<and> label_ok le \<and> g_cond c le s = Some (fc, s1) \<and> g_stmts b ((lu, le) # stk) s1 = Some (fb, s2)
     \<and> g_opt u ((lu, le) # stk) s2 = Some (fu, t)
     \<and> (pre = [] \<and> lu = lt \<and> u = None \<or> pre = [I_Label lu])
     \<and> code_at P i (I_Label lt # fc @ fb @ pre @ fu @ [I_Jmp lt, I_Label le])
     \<and> k = i + length (I_Label lt # fc @ fb @ pre @ fu @ [I_Jmp lt, I_Label le]))"

lemma loop_codeI:
  assumes "label_ok lt" "label_ok lu" "label_ok le" "g_cond c le s = Some (fc, s1)" "g_stmts b ((lu, le) # stk) s1 = Some (fb, s2)"
    "g_opt u ((lu, le) # stk) s2 = Some (fu, t)" "pre = [] \<and> lu = lt \<and> u = None \<or> pre = [I_Label lu]"
    "code_at P i (I_Label lt # fc @ fb @ pre @ fu @ [I_Jmp lt, I_Label le])"
    "k = i + length (I_Label lt # fc @ fb @ pre @ fu @ [I_Jmp lt, I_Label le])"
  shows "loop_code P i k c b u stk s t"
  using assms unfolding loop_code_def by blast

definition loop_ok :: "asm_ins list \<Rightarrow> nat \<Rightarrow> expr option \<Rightarrow> stmt list \<Rightarrow> stmt option \<Rightarrow> bool" where
  "loop_ok P n c b u \<longleftrightarrow> (\<forall>i k stk s t env rs r. loop_code P i k c b u stk s t \<longrightarrow> gs_ok s \<longrightarrow> labels_in P stk \<longrightarrow>
     rel (gs_vars s) env rs \<longrightarrow> c_loop n c b u env = Some r \<longrightarrow> regs_wf rs \<longrightarrow> reaches P stk (gs_vars t) (i, rs) k r)"

lemma loop_okD:
  "loop_ok P n c b u \<Longrightarrow> loop_code P i k c b u stk s t \<Longrightarrow> gs_ok s \<Longrightarrow> labels_in P stk \<Longrightarrow> rel (gs_vars s) env rs \<Longrightarrow>
   c_loop n c b u env = Some r \<Longrightarrow> regs_wf rs \<Longrightarrow> reaches P stk (gs_vars t) (i, rs) k r"
  by (simp add: loop_ok_def)

lemma while_computes:
  assumes l: "loop_ok P n (Some c) b None"
  shows "computes P (g_stmt (WhileStmt c b p)) (c_exec n (WhileStmt c b p))"
proof (rule computesI)
  fix stk s f t i env rs r
  assume g: "g_stmt (WhileStmt c b p) stk s = Some (f, t)" and s: "gs_ok s" "labels_in P stk" "rel (gs_vars s) env rs"
    and x: "c_exec n (WhileStmt c b p) env = Some r" and i: "code_at P i f" "regs_wf rs"
  let ?t = "lbl ''WHILE_TEST'' (gs_cnt s)" and ?e = "lbl ''WHILE_END'' (gs_cnt s + 1)"
  obtain fc s1 fb where z: "g_cond (Some c) ?e (used_labels 2 s) = Some (fc, s1)" "g_stmts b ((?t, ?e) # stk) s1 = Some (fb, t)"
    "f = [I_Label ?t] @ fc @ fb @ [I_Jmp ?t, I_Label ?e]"
    using g by (auto simp: g_while_def Let_def bind_eq_Some_conv)
  have "loop_code P i (i + length f) (Some c) b None stk (used_labels 2 s) t"
    using z(2) i(1) by (intro loop_codeI [OF _ _ _ z(1) z(2), where lt = ?t and pre = "[]" and fu = "[]"]) (simp_all add: z(3))
  from loop_okD [OF l this used_labels_ok [OF s(1)] s(2) _ _ i(2)]
  show "reaches P stk (gs_vars t) (i, rs) (i + length f) r" using s(3) x by simp
qed

lemma for_computes:
  assumes a: "computes P (g_opt o') (c_opt n o')" and l: "loop_ok P n c b u"
  shows "computes P (g_stmt (ForStmt o' c u b p)) (c_exec n (ForStmt o' c u b p))"
proof (rule computesI)
  fix stk s f t i env rs r
  assume g: "g_stmt (ForStmt o' c u b p) stk s = Some (f, t)" and s: "gs_ok s" "labels_in P stk" "rel (gs_vars s) env rs"
    and x: "c_exec n (ForStmt o' c u b p) env = Some r" and i: "code_at P i f" "regs_wf rs"
  let ?t = "lbl ''FOR_TEST'' (gs_cnt s)" and ?u = "lbl ''FOR_UPD'' (gs_cnt s + 1)" and ?e = "lbl ''FOR_END'' (gs_cnt s + 2)"
  obtain fi s1 fc s2 fb s3 fu where z: "g_opt o' stk (used_labels 3 s) = Some (fi, s1)" "g_cond c ?e s1 = Some (fc, s2)"
    "g_stmts b ((?u, ?e) # stk) s2 = Some (fb, s3)" "g_opt u ((?u, ?e) # stk) s3 = Some (fu, t)"
    "f = fi @ [I_Label ?t] @ fc @ fb @ [I_Label ?u] @ fu @ [I_Jmp ?t, I_Label ?e]"
    using g by (auto simp: g_for_def Let_def bind_eq_Some_conv)
  obtain env1 r1 where e: "c_opt n o' env = Some (Normal env1)" "c_loop n c b u env1 = Some r1" "r = leave env r1"
  proof -
    from x obtain r1 where r: "Option.bind (c_opt n o' env) (\<lambda>r. case r of Normal env' \<Rightarrow> c_loop n c b u env' | _ \<Rightarrow> None) = Some r1"
      "r = leave env r1" by auto
    then obtain y where y: "c_opt n o' env = Some y" "(case y of Normal env' \<Rightarrow> c_loop n c b u env' | _ \<Rightarrow> None) = Some r1"
      by (auto simp: bind_eq_Some_conv)
    then show thesis using that [OF _ _ r(2)] by (cases y) simp_all
  qed
  have ok: "gs_ok (used_labels 3 s)" by (rule used_labels_ok [OF s(1)]) simp
  have l': "\<forall>l \<in> stack_labels stk. label_ok l" using s(2) by (auto simp: labels_in_def)
  have si: "stmt_shape (used_labels 3 s) stk fi s1" by (rule gen_shapeD [OF opt_has_shape z(1) ok l'])
  have "reaches P stk (gs_vars s1) (i, rs) (i + length fi) (Normal env1)"
    using s(3) i by (intro computesD [OF a z(1) ok s(2) _ e(1)]) (simp_all add: z(5))
  then obtain rs1 where 1: "goes P (i, rs) (i + length fi, rs1)" "regs_wf rs1" "rel (gs_vars s1) env1 rs1" by auto
  have "loop_code P (i + length fi) (i + length f) c b u stk s1 t"
    using i(1) by (intro loop_codeI [OF _ _ _ z(2-4), where lt = ?t and pre = "[I_Label ?u]"]) (simp_all add: z(5))
  then have "reaches P stk (gs_vars t) (i + length fi, rs1) (i + length f) r1"
    by (rule loop_okD [OF l _ stmt_shape_ok [OF si] s(2) 1(3) e(2) 1(2)])
  then show "reaches P stk (gs_vars t) (i, rs) (i + length f) r"
    unfolding e(3) by (intro reaches_leave reaches_from [OF 1(1)])
qed


text \<open>After an iteration the variables are those before it.\<close>

lemma rel_outer:
  assumes "rel (gs_vars t) env' rs'" "more_vars s t" "rel (gs_vars s) env rs"
  shows "rel (gs_vars s) (env' |` dom env) rs'"
  by (rule rel_less [OF rel_restrict [OF assms(1)] assms(2)]) (use rel_dom [OF assms(3)] in auto)

text \<open>The update and the jump back to the test.\<close>

lemma update_runs:
  assumes u: "computes P (g_opt u) (c_opt n u)" "g_opt u stk s2 = Some (fu, t)" "gs_ok s2" "labels_in P stk"
    and c: "code_at P q fu" "q + length fu < length P" "P ! (q + length fu) = I_Jmp lt" "find_label lt P = Some i"
    and r: "rel (gs_vars s2) env' rs2" "c_opt n u env' = Some (Normal env3)" "regs_wf rs2"
    and m: "more_vars s t" "rel (gs_vars s) env rs1"
  shows "\<exists>rs3. goes P (q, rs2) (i, rs3) \<and> regs_wf rs3 \<and> rel (gs_vars s) (env3 |` dom env) rs3"
proof -
  obtain rs3 where 3: "goes P (q, rs2) (q + length fu, rs3)" "regs_wf rs3" "rel (gs_vars t) env3 rs3"
    using computesD [OF u r(1,2) c(1) r(3)] by auto
  have "goes P (q, rs2) (i, rs3)" by (rule goes_trans [OF 3(1) goes_jump [OF c(2-4)]])
  with 3(2) rel_outer [OF 3(3) m] show ?thesis by blast
qed

lemma loop_once:
  assumes d: "distinct (labels_of P)" and p: "case c of None \<Rightarrow> True | Some e \<Rightarrow> plain_expr e"
    and b: "computes P (g_stmts b) (c_execs n b)" and u: "computes P (g_opt u) (c_opt n u)" and l: "loop_ok P n c b u"
  shows "loop_ok P (Suc n) c b u"
  unfolding loop_ok_def
proof (intro allI impI)
  fix i k stk s t env rs r
  assume L: "loop_code P i k c b u stk s t" and s: "gs_ok s" "labels_in P stk" "rel (gs_vars s) env rs"
    and x: "c_loop (Suc n) c b u env = Some r" and w: "regs_wf rs"
  obtain lt lu le fc s1 fb s2 pre fu where z: "label_ok lt" "label_ok lu" "label_ok le"
    "g_cond c le s = Some (fc, s1)" "g_stmts b ((lu, le) # stk) s1 = Some (fb, s2)"
    "g_opt u ((lu, le) # stk) s2 = Some (fu, t)" "pre = [] \<and> lu = lt \<and> u = None \<or> pre = [I_Label lu]"
    "code_at P i (I_Label lt # fc @ fb @ pre @ fu @ [I_Jmp lt, I_Label le])"
    "k = i + length (I_Label lt # fc @ fb @ pre @ fu @ [I_Jmp lt, I_Label le])"
    using L unfolding loop_code_def by blast
  let ?b = "Suc i + length fc" let ?u = "Suc i + length fc + length fb"
  let ?j = "?u + length pre + length fu"
  have c: "i < length P" "P ! i = I_Label lt" "code_at P (Suc i) fc" "code_at P ?b fb" "code_at P (?u + length pre) fu"
    "?j < length P" "P ! ?j = I_Jmp lt" "Suc ?j < length P" "P ! Suc ?j = I_Label le" "k = Suc (Suc ?j)" "code_at P ?u pre"
    using z(8,9) by (simp_all add: add.assoc)
  have lb: "find_label lt P = Some i" "find_label le P = Some (Suc ?j)"
    by (rule find_at [OF d c(1,2)], rule find_at [OF d c(8,9)])
  have in_P: "lt \<in> set (labels_of P)" "le \<in> set (labels_of P)" "lu \<in> set (labels_of P)"
  proof -
    show "lt \<in> set (labels_of P)" "le \<in> set (labels_of P)" using c by (metis labels_of_set nth_mem)+
    then show "lu \<in> set (labels_of P)" using z(7) c(11) unfolding labels_of_set by (metis Suc_le_eq code_at.simps nth_mem)
  qed
  have st: "labels_in P ((lu, le) # stk)" using s(2) z(1-3) in_P by (simp add: labels_in_def)
  have st': "\<forall>l \<in> stack_labels ((lu, le) # stk). label_ok l" using st by (auto simp: labels_in_def)
  have sc: "shape s fc s1" by (rule cond_shape(1) [OF z(4) s(1) z(3)])
  have sb: "stmt_shape s1 ((lu, le) # stk) fb s2" by (rule gen_shapeD [OF stmts_has_shape z(5) shape_ok [OF sc] st'])
  have su: "stmt_shape s2 ((lu, le) # stk) fu t" by (rule gen_shapeD [OF opt_has_shape z(6) stmt_shape_ok [OF sb] st'])
  have m: "more_vars s s1" "more_vars s s2" "more_vars s t"
    using sc sb su by (auto simp: stmt_shape_def shape_def intro: more_vars_trans)
  have leave_loop: "goes P (Suc ?j, rs') (k, rs')" for rs' unfolding c(10) by (rule goes_label [OF c(8,9)])
  obtain v where v: "cond_val env c = Some v"
    and x': "(if v = 0 then Some (Normal env) else Option.bind (map_option (leave env) (c_execs n b env)) (\<lambda>r.
         case r of
           Returned w \<Rightarrow> Some (Returned w)
         | Broke env' \<Rightarrow> Some (Normal env')
         | Normal env' \<Rightarrow> Option.bind (map_option (leave env) (c_opt n u env')) (\<lambda>r'.
               case r' of Normal env'' \<Rightarrow> c_loop n c b u env'' | _ \<Rightarrow> None)
         | Continued env' \<Rightarrow> Option.bind (map_option (leave env) (c_opt n u env')) (\<lambda>r'.
               case r' of Normal env'' \<Rightarrow> c_loop n c b u env'' | _ \<Rightarrow> None))) = Some r"
    using x by (cases "cond_val env c") (simp_all add: cond_val_def)
  obtain rs1 where 1: "goes P (Suc i, rs) (if v = 0 then Suc ?j else ?b, rs1)" "keeps (live s) rs rs1"
    using cond_runs [OF d p z(4) v lb(2) s(1,3) w c(3)] by blast
  have 2: "goes P (i, rs) (if v = 0 then Suc ?j else ?b, rs1)" by (rule goes_trans [OF goes_label [OF c(1,2)] 1(1)])
  have R1: "rel (gs_vars s) env rs1" by (rule rel_keeps [OF s(3) 1(2) s(1)]) simp
  have w1: "regs_wf rs1" by (rule keeps_wf [OF 1(2)])
  show "reaches P stk (gs_vars t) (i, rs) k r"
  proof (cases "v = 0")
    case True
    then have "r = Normal env" using x' by simp
    moreover have "goes P (i, rs) (k, rs1)" using goes_trans [OF _ leave_loop] 2 True by simp
    ultimately show ?thesis using rel_more [OF R1 m(3)] w1 by auto
  next
    case False
    have B: "goes P (i, rs) (?b, rs1)" using 2 False by simp
    obtain r1 where r1: "c_execs n b env = Some r1" using x' False by (cases "c_execs n b env") simp_all
    have A: "reaches P ((lu, le) # stk) (gs_vars s2) (?b, rs1) ?u r1"
      using c(4) by (intro computesD [OF b z(5) shape_ok [OF sc] st rel_more [OF R1 m(1)] r1 _ w1])
    text \<open>The rest of the iteration, from where the body's end or \<^verbatim>\<open>continue\<close> is.\<close>
    have again: "reaches P stk (gs_vars t) (i, rs) k r"
      if e: "Option.bind (map_option (leave env) (c_opt n u (env' |` dom env))) (\<lambda>r'.
            case r' of Normal env'' \<Rightarrow> c_loop n c b u env'' | _ \<Rightarrow> None) = Some r"
        and g: "goes P (?b, rs1) (q, rs2)" "q = ?u + length pre \<or> q = i \<and> u = None"
        and r2: "regs_wf rs2" "rel (gs_vars s2) env' rs2" for env' rs2 q
    proof -
      obtain r3 where r3: "c_opt n u (env' |` dom env) = Some r3"
        "(case leave env r3 of Normal env'' \<Rightarrow> c_loop n c b u env'' | _ \<Rightarrow> None) = Some r"
        using e by (cases "c_opt n u (env' |` dom env)") simp_all
      then obtain env3 where e3: "r3 = Normal env3" "c_loop n c b u (env3 |` dom env) = Some r" by (cases r3) simp_all
      have r2': "rel (gs_vars s) (env' |` dom env) rs2" by (rule rel_outer [OF r2(2) m(2) R1])
      obtain rs3 where 3: "goes P (?b, rs1) (i, rs3)" "regs_wf rs3" "rel (gs_vars s) (env3 |` dom env) rs3"
      proof (cases "q = ?u + length pre")
        case True
        from update_runs [OF u z(6) stmt_shape_ok [OF sb] st c(5-7) lb(1) rel_restrict [OF r2(2)] r3(1) [unfolded e3(1)] r2(1) m(3) R1]
        show thesis using that goes_trans [OF g(1)] True by blast
      next
        case False
        then have q: "q = i" "u = None" using g(2) by simp_all
        then have "env3 = env' |` dom env" using r3(1) e3(1) by simp
        then show thesis using that [of rs2] g(1) q r2(1) r2' by (simp add: Int_absorb)
      qed
      from loop_okD [OF l L s(1,2) 3(3) e3(2) 3(2)] show ?thesis
        by (rule reaches_from [OF goes_trans [OF B 3(1)]])
    qed
    show ?thesis
    proof (cases r1)
      case (Normal env')
      then obtain rs2 where 3: "goes P (?b, rs1) (?u, rs2)" "regs_wf rs2" "rel (gs_vars s2) env' rs2" using A by auto
      have pre: "goes P (?u, rs2) (?u + length pre, rs2)"
        using z(7) c(11) goes_label [of ?u P lu rs2] by (auto simp: Suc_le_eq)
      show ?thesis
        by (rule again [OF _ goes_trans [OF 3(1) pre] _ 3(2,3)]) (use x' False r1 Normal in simp_all)
    next
      case (Broke env')
      then obtain rs2 where 3: "goes P (?b, rs1) (Suc ?j, rs2)" "regs_wf rs2" "rel (gs_vars s2) env' rs2"
        using A lb(2) by auto
      have "rel (gs_vars t) (env' |` dom env) rs2" by (rule rel_more [OF rel_outer [OF 3(3) m(2) R1] m(3)])
      moreover have "r = Normal (env' |` dom env)" using x' False r1 Broke by simp
      ultimately show ?thesis using goes_trans [OF B goes_trans [OF 3(1) leave_loop]] 3(2) by auto
    next
      case (Continued env')
      then obtain q rs2 where 3: "find_label lu P = Some q" "goes P (?b, rs1) (q, rs2)" "regs_wf rs2" "rel (gs_vars s2) env' rs2"
        using A by auto
      have q: "q = ?u \<and> pre = [I_Label lu] \<or> q = i \<and> u = None"
      proof (cases "pre = [I_Label lu]")
        case True
        then have "find_label lu P = Some ?u" using c(11) by (intro find_at [OF d]) simp_all
        then show ?thesis using 3(1) True by simp
      qed (use z(7) 3(1) lb(1) in auto)
      have x3: "Option.bind (map_option (leave env) (c_opt n u (env' |` dom env))) (\<lambda>r'.
            case r' of Normal env'' \<Rightarrow> c_loop n c b u env'' | _ \<Rightarrow> None) = Some r"
        using x' False r1 Continued by simp
      show ?thesis
      proof (cases "q = i \<and> u = None")
        case True
        from again [OF x3 3(2) _ 3(3,4)] True show ?thesis by simp
      next
        case no: False
        then have "goes P (q, rs2) (?u + length pre, rs2)"
          using q c(11) goes_label [of ?u P lu rs2] by (auto simp: Suc_le_eq)
        from again [OF x3 goes_trans [OF 3(2) this] _ 3(3,4)] show ?thesis by simp
      qed
    next
      case (Returned o')
      then have "r = Returned o'" using x' False r1 by simp
      then show ?thesis using reaches_from [OF B A] Returned by auto
    qed
  qed
qed


section \<open>All statements\<close>

lemma stmt_computes:
  assumes d: "distinct (labels_of P)"
    and l: "\<And>c b u. (case c of None \<Rightarrow> True | Some e \<Rightarrow> plain_expr e) \<Longrightarrow> list_all plain_stmt b \<Longrightarrow>
      (case u of None \<Rightarrow> True | Some s \<Rightarrow> plain_stmt s) \<Longrightarrow> loop_ok P n c b u"
  shows "plain_stmt st \<Longrightarrow> computes P (g_stmt st) (c_exec n st)"
proof (induction st rule: plain_stmt.induct)
  case (1 x init k p)
  then show ?case by (intro decl_computes [OF d]) simp
next
  case (2 x op e p)
  then show ?case by (intro assign_computes [OF d]) simp
next
  case (3 c ts es p)
  have "computes P (g_stmts ts) (c_execs n ts)" "computes P (g_stmts es) (c_execs n es)"
    using 3 by (auto intro!: stmts_computes_all simp: list_all_iff)
  moreover have "plain_expr c" using "3.prems" by simp
  ultimately show ?case by (intro if_computes [OF d])
next
  case (4 c b p)
  then show ?case by (intro while_computes l) simp_all
next
  case (5 i c u b p)
  have "computes P (g_opt i) (c_opt n i)" using 5 by (intro opt_computes ballI) (cases i; simp)
  moreover have "loop_ok P n c b u" using "5.prems" by (intro l) simp_all
  ultimately show ?case by (rule for_computes)
next
  case (6 e p)
  then show ?case by (intro return_computes [OF d]) simp
next
  case (7 p)
  show ?case by (rule break_computes)
next
  case (8 p)
  show ?case by (rule continue_computes)
next
  case (9 e p)
  then show ?case by (intro exprstmt_computes [OF d]) simp
next
  case (10 ss p)
  then have "computes P (g_stmts ss) (c_execs n ss)" by (intro stmts_computes_all ballI) (simp add: list_all_iff)
  from computes_leave [OF this] show ?case by (rule computes_cong) simp_all
qed simp_all

lemma loops_run:
  assumes d: "distinct (labels_of P)"
  shows "(case c of None \<Rightarrow> True | Some e \<Rightarrow> plain_expr e) \<Longrightarrow> list_all plain_stmt b \<Longrightarrow>
    (case u of None \<Rightarrow> True | Some s \<Rightarrow> plain_stmt s) \<Longrightarrow> loop_ok P n c b u"
proof (induction n arbitrary: c b u)
  case 0
  show ?case by (simp add: loop_ok_def)
next
  case (Suc n)
  note st = stmt_computes [OF d Suc.IH]
  have "computes P (g_stmts b) (c_execs n b)"
    using Suc.prems(2) st by (intro stmts_computes_all ballI) (simp add: list_all_iff)
  moreover have "computes P (g_opt u) (c_opt n u)"
    using Suc.prems(3) st by (intro opt_computes ballI) auto
  ultimately show ?case by (rule loop_once [OF d Suc.prems(1) _ _ Suc.IH [OF Suc.prems]])
qed

text \<open>The code of a body that returns leads to HLT with the value in R1.\<close>

lemma body_runs:
  assumes d: "distinct (labels_of P)" and p: "list_all plain_stmt ss"
    and g: "g_stmts ss [] s = Some (f, t)" "gs_ok s" and x: "c_execs n ss Map.empty = Some (Returned v)"
    and c: "code_at P i f" "regs_wf rs"
  shows "\<exists>j rs'. goes P (i, rs) (j, rs') \<and> j < length P \<and> P ! j = I_Hlt \<and> regs_wf rs' \<and> (\<forall>w. v = Some w \<longrightarrow> rw rs' 1 = w)"
proof -
  have "computes P (g_stmts ss) (c_execs n ss)"
    using p stmt_computes [OF d loops_run [OF d]] by (intro stmts_computes_all ballI) (simp add: list_all_iff)
  from computesD [OF this g _ _ x c] show ?thesis by (auto simp: labels_in_def rel_def)
qed

end
