(* ===== verification/Compile_Correct.thy ===== *)
theory Compile_Correct
  imports Gen_Stmts Stmt_Runs Source_Correct
begin

unbundle bit_operations_syntax

text \<open>
  From the C text to the printed registers: the assembly text the compiler writes for a program that
  consists of \<^verbatim>\<open>main\<close> assembles to words on which the architecture ends with the result in R1.
\<close>

section \<open>The lines of a program\<close>

lemma no_break_line: "no_break l \<Longrightarrow> lines_aux acc (l @ newline # s) = (rev acc @ l) # lines_aux [] s"
  by (induction l arbitrary: acc) (simp_all add: is_line_break_def newline_def)

lemma no_break_last: "no_break l \<Longrightarrow> rev acc @ l \<noteq> [] \<Longrightarrow> lines_aux acc l = [rev acc @ l]"
  by (induction l arbitrary: acc) simp_all

lemma splitlines_py_join:
  "list_all no_break (l # ls) \<Longrightarrow> last (l # ls) \<noteq> [] \<Longrightarrow> py_splitlines (py_join [newline] (l # ls)) = l # ls"
  unfolding py_splitlines_def
proof (induction ls arbitrary: l)
  case Nil
  then show ?case by (simp add: no_break_last)
next
  case (Cons m ls)
  then show ?case by (simp add: no_break_line)
qed

lemma join_no_return: "list_all no_break ls \<Longrightarrow> CHR 0x0D \<notin> set (py_join [newline] ls)"
  by (induction "[newline]" ls rule: py_join.induct) (auto simp: no_break_def list_all_iff is_line_break_def newline_def)

text \<open>The program \<open>f\<close> is the body of the only function.\<close>

definition main_code :: "asm_ins list \<Rightarrow> asm_ins list" where
  "main_code f = [I_Jmp ''MAIN'', I_Label ''MAIN''] @ f @ [I_Hlt]"

definition gs_start :: gs where
  "gs_start = \<lparr>gs_vars = [], gs_next = FIRST_REG, gs_cnt = 0\<rparr>"

lemma main_func_emits:
  assumes n: "py_upper name = ''MAIN''" "no_break name" and p: "list_all plain_stmt body"
    and g: "gen_func (FuncDef name [] ptrs body l) s = Inr s'" and s: "cg_globals s = []" "cg_label_cnt s = 0"
  obtains f t where "g_stmts body [] gs_start = Some (f, t)"
    "emits (s\<lparr>cg_func := ''MAIN'', cg_loop_stack := []\<rparr>) (I_Label ''MAIN'' # f @ [I_Hlt]) s'"
proof -
  define s1 where "s1 = s\<lparr>cg_var_reg := [], cg_next_reg := FIRST_REG, cg_func := ''MAIN'', cg_loop_stack := []\<rparr>"
  define s2 where "s2 = emit (''MAIN'' @ '':'') (emit (''; --- '' @ funcao @ '' '' @ name @ '' ---'') s1)"
  obtain s3 where s3: "gen_stmts body s2 = Inr s3" "s' = emit [] (emit ''HLT'' s3)"
    using g n(1) by (auto simp: gen_func_def s1_def s2_def Let_def ebind_Inr_iff)
  have c: "clean ''MAIN''" by (simp add: clean_def clean_char_def is_space_def)
  have "emits s1 [] (emit (''; --- '' @ funcao @ '' '' @ name @ '' ---'') s1)"
    using n(2) by (intro emits_note) (simp_all add: tok_comment funcao_def is_line_break_def)
  from emits_label [OF this c] have e2: "emits s1 [I_Label ''MAIN''] s2" by (simp add: s2_def)
  have m: "in_main s1" using s(1) by (simp add: s1_def in_main_def stack_ok_def)
  have gs: "gs_of s2 = gs_start" "cg_loop_stack s2 = []"
    using s(2) emits_stack [OF e2] by (simp_all add: s2_def s1_def gs_of_def gs_start_def emit_def)
  obtain f where f: "g_stmts body (cg_loop_stack s2) (gs_of s2) = Some (f, gs_of s3)" "emits s2 f s3"
    using srefinesD [OF stmts_refines [OF p] in_main_emits [OF m e2] s3(1)] by blast
  have "emits s1 (([I_Label ''MAIN''] @ f) @ [I_Hlt]) s'"
    unfolding s3(2) by (intro emits_snoc_note emits_hlt emits_trans [OF e2 f(2)]) (simp_all add: tok_empty)
  moreover have "s1 = (s\<lparr>cg_func := ''MAIN'', cg_loop_stack := []\<rparr>)\<lparr>cg_next_reg := FIRST_REG\<rparr>\<lparr>cg_var_reg := []\<rparr>"
    by (simp add: s1_def)
  ultimately have "emits (s\<lparr>cg_func := ''MAIN'', cg_loop_stack := []\<rparr>) (I_Label ''MAIN'' # f @ [I_Hlt]) s'"
    by (simp only: emits_update append_Cons append_Nil append_assoc)
  with f(1) gs show thesis by (intro that) simp_all
qed

lemma program_lines:
  assumes n: "py_upper name = ''MAIN''" "no_break name" and p: "list_all plain_stmt body"
    and g: "gen_program_state (Program [] [FuncDef name [] ptrs body l]) = Inr st"
  obtains f t where "g_stmts body [] gs_start = Some (f, t)" "list_all no_break (cg_lines st)"
    "py_splitlines (py_join [newline] (cg_lines st)) = cg_lines st"
    "code_toks (cg_lines st) = [''.org'', ''0x000000''] # map toks_of (main_code f)"
proof -
  define s0 where "s0 = emit [] (emit ''JMP MAIN'' (emit ''.org 0x000000'' cg_init))"
  have start: "cg_lines s0 = [''.org 0x000000'', ''JMP MAIN'', []]" "cg_globals s0 = []" "cg_label_cnt s0 = 0"
    "cg_strings s0 = []" "cg_global_next s0 = GLOBAL_BASE_ADDR"
    by (simp_all add: s0_def emit_def cg_init_def)
  obtain s1 where s1: "gen_func (FuncDef name [] ptrs body l) s0 = Inr s1"
    "st = (let s = emit [] (if cg_globals s1 \<noteq> [] \<or> cg_global_next s1 > GLOBAL_BASE_ADDR
         then emit ''; --- Dados globais ---'' s1 else s1)
       in emit ''; === FIM DO PROGRAMA ==='' (emit []
            (if cg_strings s \<noteq> [] then fold emit_string (cg_strings s) (emit ''; --- Strings literais ---'' s) else s)))"
    using g by (auto simp: gen_program_state_def s0_def Let_def ebind_Inr_iff)
  obtain f t where f: "g_stmts body [] gs_start = Some (f, t)"
    "emits (s0\<lparr>cg_func := ''MAIN'', cg_loop_stack := []\<rparr>) (I_Label ''MAIN'' # f @ [I_Hlt]) s1"
    by (rule main_func_emits [OF n p s1(1) start(2,3)])
  obtain new where new: "cg_lines s1 = cg_lines s0 @ new" "code_toks new = map toks_of (I_Label ''MAIN'' # f @ [I_Hlt])"
    "list_all no_break new" "cg_globals s1 = []" "cg_strings s1 = []" "cg_global_next s1 = GLOBAL_BASE_ADDR"
    using f(2) start by (auto simp: emits_def)
  define ls where "ls = ''.org 0x000000'' # [''JMP MAIN'', []] @ new @ [[], [], ''; === FIM DO PROGRAMA ==='']"
  have t: "cg_lines st = ls"
    using s1(2) new start by (simp add: ls_def emit_def)
  have toks: "tokenize_line ''.org 0x000000'' = [''.org'', ''0x000000'']" "tokenize_line ''JMP MAIN'' = toks_of (I_Jmp ''MAIN'')"
    "tokenize_line ''; === FIM DO PROGRAMA ==='' = []"
    by code_simp+
  have nb: "list_all no_break ls"
    using new(3) by (simp add: ls_def no_break_def is_line_break_def)
  have sp: "py_splitlines (py_join [newline] ls) = ls"
    using nb unfolding ls_def by (rule splitlines_py_join) simp
  have ct: "code_toks ls = [''.org'', ''0x000000''] # map toks_of (main_code f)"
    using new(2) by (simp add: ls_def toks tok_empty main_code_def del: toks_of.simps(8))
  show thesis by (rule that [OF f(1)]) (simp_all add: t nb sp ct)
qed

section \<open>The shape of the program\<close>

lemma start_ok: "gs_ok gs_start"
  by (simp add: gs_ok_def gs_start_def FIRST_REG_def)

lemma main_label: "label_ok ''MAIN''" "lab_no ''MAIN'' = - 1"
  by code_simp+


lemma main_shape:
  assumes "g_stmts body [] gs_start = Some (f, t)"
  shows "\<forall>i \<in> set (main_code f). ins_ok i" "distinct (labels_of (main_code f))" "uses_of (main_code f) \<subseteq> set (labels_of (main_code f))"
proof -
  have s: "stmt_shape gs_start [] f t"
    by (rule gen_shapeD [OF stmts_has_shape assms start_ok]) simp
  then have n: "numbered 0 (gs_cnt t) (labels_of f)" by (simp add: stmt_shape_def shape_def gs_start_def)
  then have "''MAIN'' \<notin> set (labels_of f)" using main_label(2) by (force simp: numbered_def)
  then show "\<forall>i \<in> set (main_code f). ins_ok i" "distinct (labels_of (main_code f))"
    "uses_of (main_code f) \<subseteq> set (labels_of (main_code f))"
    using s main_label(1) numbered_distinct [OF n] by (auto simp: main_code_def stmt_shape_def shape_def)
qed

section \<open>The words\<close>

lemma encode_code_words:
  "w \<in> set (encode_code syms lc P) \<Longrightarrow> \<exists>i pc. i \<in> set P \<and> is_real i \<and> w = encode_ins syms pc i \<and> lc \<le> pc \<and> pc < lc + code_size P"
proof (induction P arbitrary: lc)
  case (Cons i P)
  have c: "0 \<le> code_size P" by (simp add: code_size_def)
  show ?case
  proof (cases "is_real i \<and> w = encode_ins syms lc i")
    case True
    then show ?thesis using c by (intro exI [of _ i] exI [of _ lc]) simp
  next
    case False
    then have "w \<in> set (encode_code syms (if is_real i then lc + 1 else lc) P)"
      using Cons.prems by (auto simp: real_cases(2) split: if_splits)
    from Cons.IH [OF this] show ?thesis by (fastforce split: if_splits)
  qed
qed simp

lemma encode_code_u32: "list_all u32 (encode_code syms lc P)"
  by (auto simp: list_all_iff dest!: encode_code_words intro: u32_encode_ins)

text \<open>Words that the check of neighbouring words has nothing against.\<close>

definition simple_word :: "int \<Rightarrow> bool" where
  "simple_word w \<longleftrightarrow> core_instr w \<and> (case decode w of D_I opc rd rs1 imm \<Rightarrow> opc \<notin> set LOADS | _ \<Rightarrow> True)
     \<and> d_opcode (decode w) \<noteq> Some Op_RET \<and> \<not> c_mem_write (cu_decode w)"

lemma simple_code_ok: "\<forall>w \<in> set c. simple_word w \<Longrightarrow> code_ok c"
  by (induction c rule: code_ok.induct) (auto simp: simple_word_def pair_ok_def split: decoded.splits)

lemma nop_simple: "simple_word 0"
  by code_simp

lemma simple_ins:
  assumes "ins_ok i" "is_real i" "decode w = view_ins syms pc i"
  shows "simple_word w"
  using assms by (cases i)
    (auto simp: simple_word_def core_instr_def cu_decode_def cu_signals_def opcode_classes op_codes_def ctrl_defs split: if_splits)

section \<open>The program in memory\<close>

lemma code_in_memory:
  fixes P :: "asm_ins list"
  defines "syms \<equiv> place_labels Map.empty 0 P"
  defines "words \<equiv> encode_code syms 0 P"
  assumes P: "\<forall>i \<in> set P. ins_ok i" "distinct (labels_of P)" "uses_of P \<subseteq> set (labels_of P)" and n: "code_size P \<le> 0x7FFF"
  shows "holds_code P syms (loaded_memory words)" "code_ok (words @ [0, 0])" "length words + 2 \<le> 2 ^ 26"
    "int (length words) = code_size P"
proof -
  show l: "int (length words) = code_size P" by (simp add: words_def encode_code_length)
  then show b: "length words + 2 \<le> 2 ^ 26" using n by simp
  have lm: "length (loaded_memory words) = 2 ^ 26"
    using b by (simp only: loaded_memory_def length_append length_replicate mem_size(1))
  have lb: "syms l' = Some (addr_of P j)" if "find_label l' P = Some j" for l' j
    using find_label_nth [OF that] place_labels_at [OF P(2), of j l' Map.empty 0] by (simp add: syms_def)
  show h: "holds_code P syms (loaded_memory words)"
    unfolding holds_code_def
  proof (intro conjI allI impI)
    show "\<exists>k. length (loaded_memory words) = 2 ^ k" using lm by blast
    show "code_size P < int (length (loaded_memory words))" unfolding lm using n by simp
    fix i assume i: "i < length P" "is_real (P ! i)"
    have "nat (addr_of P i) < length words \<and> words ! nat (addr_of P i) = encode_ins syms (addr_of P i) (P ! i)"
      using encode_code_at [OF i, of syms 0] by (simp add: words_def)
    then show "loaded_memory words ! nat (addr_of P i) = encode_ins syms (addr_of P i) (P ! i)"
      by (simp add: loaded_memory_def nth_append)
  qed (use n lb in simp_all)
  have "simple_word w" if w: "w \<in> set words" for w
  proof -
    obtain i pc where i: "i \<in> set P" "is_real i" "w = encode_ins syms pc i" "0 \<le> pc" "pc < code_size P"
      using encode_code_words [OF w [unfolded words_def]] by auto
    have "l' \<in> uses_of P" if "l' \<in> uses_of [i]" for l' using that i(1) uses_nth by (metis in_set_conv_nth)
    then have "\<forall>l \<in> uses_of [i]. 0 \<le> the (syms l) \<and> the (syms l) \<le> 0x7FFF"
      using label_addr [OF h] P(3) by blast
    then have "decode w = view_ins syms pc i"
      unfolding i(3) using P(1) i n by (intro decode_ins) simp_all
    then show ?thesis using simple_ins P(1) i(1,2) by blast
  qed
  then show "code_ok (words @ [0, 0])" using nop_simple by (intro simple_code_ok) auto
qed

section \<open>The run\<close>

lemma boot_wf: "regs_wf (ar_regs (boot m 0))"
proof -
  have "regs_wf (rf_regs (rf_set rf_init SP_REG SP_INIT))" by code_simp
  then show ?thesis by (simp add: boot_def)
qed

lemma hlt_stops:
  assumes h: "holds_code P syms m" and P: "\<forall>i \<in> set P. ins_ok i" "uses_of P \<subseteq> set (labels_of P)"
    and j: "j < length P" "P ! j = I_Hlt"
  shows "isa_halted (arch_at P m (j, rs))" "isa_safe (nat (code_size P) + 2) (arch_at P m (j, rs))"
  using fetched [OF h P j(1)] j(2) by (simp_all add: isa_halted_def isa_safe_def arch_at_def)

text \<open>The value of a register in the report, which leaves out the zeros.\<close>

definition reported :: "report \<Rightarrow> int \<Rightarrow> int" where
  "reported r i = (case map_of (rp_regs r) i of None \<Rightarrow> 0 | Some v \<Rightarrow> v)"

lemma reported_reg: "rp_regs r = nonzero_regs rs \<Longrightarrow> 0 \<le> i \<Longrightarrow> i \<le> 31 \<Longrightarrow> reported r i = reg_read rs i"
proof -
  have m: "map_of (filter (\<lambda>(i, v). v \<noteq> 0) (map (\<lambda>i. (i, g i)) xs)) i = (if i \<in> set xs \<and> g i \<noteq> 0 then Some (g i) else None)"
    for g :: "int \<Rightarrow> int" and xs
    by (induction xs) auto
  show "rp_regs r = nonzero_regs rs \<Longrightarrow> 0 \<le> i \<Longrightarrow> i \<le> 31 \<Longrightarrow> ?thesis"
    by (simp add: reported_def nonzero_regs_def m reg_read_def)
qed


lemma code_at_self: "code_at (pre @ f) (length pre) f"
proof (induction f arbitrary: pre)
  case (Cons i f)
  show ?case using Cons.IH [of "pre @ [i]"] by simp
qed simp

lemma size_lines:
  assumes "code_toks ls = x # map toks_of P"
  shows "code_size P \<le> int (length ls)"
proof -
  have "length P \<le> length (code_toks ls)" by (simp add: assms)
  also have "\<dots> \<le> length ls" unfolding code_toks_def by (metis length_filter_le length_map)
  finally have "length (filter is_real P) \<le> length ls" using length_filter_le [of is_real P] by linarith
  then show ?thesis by (simp add: code_size_def)
qed

lemma compiled_program_runs:
  assumes n: "py_upper name = ''MAIN''" "no_break name" and p: "list_all plain_stmt body"
    and g: "gen_program (Program [] [FuncDef name [] ptrs body l]) = Inr text"
    and x: "c_execs k body Map.empty = Some (Returned (Some v))" and z: "length (py_splitlines text) \<le> 0x7FFF"
  shows "universal_newlines text = text \<and> (\<exists>words syms N. assemble text = Inr (words, syms)
    \<and> (\<forall>fs src cycles. assembles fs src words \<longrightarrow> N \<le> nonzero_or 10000 cycles \<longrightarrow>
         (\<exists>r. cmd_run src cycles fs = Inr r \<and> reported r 1 = uint v)))"
proof -
  obtain st where st: "gen_program_state (Program [] [FuncDef name [] ptrs body l]) = Inr st" "text = py_join [newline] (cg_lines st)"
    using g by (auto simp: gen_program_def ebind_Inr_iff)
  obtain f t where f: "g_stmts body [] gs_start = Some (f, t)" and t: "list_all no_break (cg_lines st)"
    "py_splitlines text = cg_lines st" "code_toks (cg_lines st) = [''.org'', ''0x000000''] # map toks_of (main_code f)"
    unfolding st(2) by (rule program_lines [OF n p st(1)])
  let ?P = "main_code f"
  let ?syms = "place_labels Map.empty 0 ?P"
  let ?w = "encode_code ?syms 0 ?P" let ?m = "loaded_memory ?w"
  note P = main_shape [OF f]
  have c: "code_size ?P \<le> 0x7FFF" using size_lines [OF t(3)] z t(2) by simp
  note m = code_in_memory [OF P c]
  have "\<forall>l \<in> uses_of ?P. ?syms l \<noteq> None"
  proof
    fix l assume "l \<in> uses_of ?P"
    then obtain j where "find_label l ?P = Some j" using P(3) find_label_ex by blast
    then show "?syms l \<noteq> None" using m(1) by (auto simp: holds_code_def)
  qed
  then have a: "assemble text = Inr (?w, ?syms)"
    unfolding assemble_def t(2) by (rule assemble_code [OF t(3) P(1,2)])
  let ?rs = "ar_regs (boot ?m 0)"
  have at: "code_at ?P 0 ?P" using code_at_self [of "[]" ?P] by simp
  have j: "find_label ''MAIN'' ?P = Some 1" by (simp add: main_code_def)
  have "goes ?P (0, ?rs) (1, ?rs)" by (rule goes_jump [OF _ _ j]) (simp_all add: main_code_def)
  moreover have "goes ?P (1, ?rs) (2, ?rs)"
    using goes_label [of 1 ?P "''MAIN''" ?rs] by (simp add: main_code_def numeral_2_eq_2)
  moreover have "code_at ?P 2 f" using at by (simp add: main_code_def numeral_2_eq_2)
  then obtain j rs' where r: "goes ?P (2, ?rs) (j, rs')" "j < length ?P" "?P ! j = I_Hlt" "regs_wf rs'" "rw rs' 1 = v"
    using body_runs [OF P(2) p f start_ok x _ boot_wf] by blast
  ultimately have go: "goes ?P (0, ?rs) (j, rs')" by (blast intro: goes_trans)
  have sz: "nat (code_size ?P) = length ?w" using m(4) by linarith
  have b0: "arch_at ?P ?m (0, ?rs) = boot ?m 0" by (simp add: arch_at_def addr_of_def boot_def)
  from goes_runs [OF m(1) P(1,3) go]
  have "runs_to (length ?w + 2) (boot ?m 0) (arch_at ?P ?m (j, rs'))"
    by (simp only: sz b0)
  then obtain n where n: "isa_run ?w n = arch_at ?P ?m (j, rs')"
    "\<forall>k<n. \<not> isa_halted (isa_run ?w k) \<and> isa_safe (length ?w + 2) (isa_run ?w k)"
    by (auto simp: runs_to_def isa_run_def)
  note hs = hlt_stops [OF m(1) P(1,3) r(2,3), of rs', unfolded sz]
  have sf: "\<forall>k\<le>n. isa_safe (length ?w + 2) (isa_run ?w k)"
    using n hs(2) by (auto simp: le_less)
  have "reg_read rs' 1 = uint v"
    using r(4,5) reg_read_u32 [OF r(4), of 1] by (auto simp: rw_def reg_index_def u32_def uint_word_of_int)
  then have "\<exists>r. cmd_run src cycles fs = Inr r \<and> reported r 1 = uint v"
    if "assembles fs src ?w" "67 * int n + 198 \<le> nonzero_or 10000 cycles" for fs src cycles
    using cmd_run_isa [OF that(1) m(3,2) sf _ _ that(2)] n hs(1) reported_reg [of _ rs' 1]
    by (auto simp: arch_at_def)
  moreover have "universal_newlines text = text"
    unfolding st(2) by (rule no_cr_newlines [OF join_no_return [OF t(1)]])
  ultimately show ?thesis using a by blast
qed


section \<open>The two commands\<close>

text \<open>The source is a C program that consists of the function \<^verbatim>\<open>main\<close> with the body \<open>body\<close>.\<close>

definition main_program :: "string \<Rightarrow> stmt list \<Rightarrow> bool" where
  "main_program source body \<longleftrightarrow>
     (case parse_source_of source of
        Inr (Program [] [FuncDef name [] ptrs b l]) \<Rightarrow> py_upper name = ''MAIN'' \<and> no_break name \<and> b = body
      | _ \<Rightarrow> False)"

lemma main_programE:
  assumes "main_program source body"
  obtains name ptrs l where "parse_source_of source = Inr (Program [] [FuncDef name [] ptrs body l])"
    "py_upper name = ''MAIN''" "no_break name"
  using assms by (auto simp: main_program_def split: sum.splits program.splits list.splits func_def.splits)

lemma compile_parsed: "parse_source_of source = Inr p \<Longrightarrow> compile_source_of source = lift_failure compile_or_exit (gen_program p)"
  by (auto simp: parse_source_of_def compile_source_of_def compile_source_def compile_text_def lift_failure_def ebind_Inr_iff
      split: sum.splits)

lemma compiled_run:
  assumes s: "source_text fs src = Inr source" "main_program source body" "list_all plain_stmt body"
    and x: "c_execs k body Map.empty = Some (Returned (Some v))"
    and c: "cmd_compile src out False fs = Inr (Asm_Code text, fs')" "length (py_splitlines text) \<le> 0x7FFF"
  shows "\<exists>N. \<forall>k :: nat. \<exists>r. cmd_run (or_default out (before_dot src @ ''.asm'')) (N + int k) fs' = Inr r \<and> reported r 1 = uint v"
proof -
  obtain name ptrs l where p: "parse_source_of source = Inr (Program [] [FuncDef name [] ptrs body l])"
    "py_upper name = ''MAIN''" "no_break name"
    by (rule main_programE [OF s(2)])
  have g: "gen_program (Program [] [FuncDef name [] ptrs body l]) = Inr text"
    and fs': "fs' = put_file (or_default out (before_dot src @ ''.asm'')) (Text_File text) fs"
    using c(1) s(1) compile_parsed [OF p(1)] by (auto simp: cmd_compile_def lift_failure_def ebind_Inr_iff split: sum.splits)
  obtain words syms N where r: "universal_newlines text = text" "assemble text = Inr (words, syms)"
    "\<forall>fs src cycles. assembles fs src words \<longrightarrow> N \<le> nonzero_or 10000 cycles \<longrightarrow>
         (\<exists>r. cmd_run src cycles fs = Inr r \<and> reported r 1 = uint v)"
    using compiled_program_runs [OF p(2,3) s(3) g x c(2)] by blast
  have "assembles fs' (or_default out (before_dot src @ ''.asm'')) words"
    using r(1,2) by (auto simp: assembles_def fs' put_file_def read_text_def)
  then have "\<exists>r. cmd_run (or_default out (before_dot src @ ''.asm'')) (max 1 N + int k) fs' = Inr r \<and> reported r 1 = uint v" for k
    by (intro r(3) [rule_format]) (auto simp: nonzero_or_def)
  then show ?thesis by blast
qed


section \<open>A program\<close>

text \<open>The smallest power of two that is not less than 9.\<close>

definition C_DEMO :: string where
  "C_DEMO = ''int main() { int i = 1; while (i < 9) { i += i; } return i; }''"

definition C_BODY :: "stmt list" where
  "C_BODY = [VarDecl ''i'' (Some (IntLiteral 1 1)) 1 False,
     WhileStmt (BinOp ''<'' (VarRef ''i'' 1) (IntLiteral 9 1) 1) [Assign ''i'' ''+='' (VarRef ''i'' 1) 1] 1,
     ReturnStmt (Some (VarRef ''i'' 1)) 1]"

abbreviation C_TOKS :: "(lex_kind \<times> string) list" where
  "C_TOKS \<equiv> [(KEYWORD, ''int''), (IDENT, ''main''), (LPAREN, ''(''), (RPAREN, '')''), (LBRACE, ''{''),
     (KEYWORD, ''int''), (IDENT, ''i''), (OP1, ''=''), (NUMBER, ''1''), (SEMI, '';''), (KEYWORD, ''while''), (LPAREN, ''(''),
     (IDENT, ''i''), (OP1, ''<''), (NUMBER, ''9''), (RPAREN, '')''), (LBRACE, ''{''), (IDENT, ''i''), (ASSIGNOP, ''+=''),
     (IDENT, ''i''), (SEMI, '';''), (RBRACE, ''}''), (KEYWORD, ''return''), (IDENT, ''i''), (SEMI, '';''), (RBRACE, ''}'')]"

lemma c_demo_stages:
  "preprocess 1 None C_DEMO = Inr C_DEMO"
  "lex_c C_DEMO = map (\<lambda>(k, v). Token k v 1) C_TOKS"
  "parse_program (map (\<lambda>(k, v). Token k v 1) C_TOKS) = Inr (Program [] [FuncDef ''main'' [] [] C_BODY 1])"
  by code_simp+

lemma c_demo_main: "parse_source_of C_DEMO = Inr (Program [] [FuncDef ''main'' [] [] C_BODY 1])" "main_program C_DEMO C_BODY"
proof -
  show p: "parse_source_of C_DEMO = Inr (Program [] [FuncDef ''main'' [] [] C_BODY 1])"
    unfolding parse_source_of_def parse_text_def c_demo_stages(1) lift_failure_def sum.case ebind_simps c_demo_stages(2,3) ..
  have "py_upper ''main'' = ''MAIN''" "no_break ''main''" by code_simp+
  then show "main_program C_DEMO C_BODY" by (simp add: main_program_def p)
qed

lemma c_demo_plain: "list_all plain_stmt C_BODY"
  by code_simp

lemma c_demo_value: "c_execs 5 C_BODY Map.empty = Some (Returned (Some 16))"
  by (simp add: C_BODY_def eval_nat_numeral assign_result_def c_binop_def truth_def)

lemma ebind_weak: "x = y \<Longrightarrow> ebind x f = ebind y f"
  by simp

lemma c_demo_lines:
  "\<exists>s. gen_program_state (Program [] [FuncDef ''main'' [] [] C_BODY 1]) = Inr s \<and> length (cg_lines s) \<le> 40"
  by (simp add: gen_program_state_def gen_func_def gen_vardecl_def gen_while_def gen_assign_def gen_return_def
      gen_binop_into_def gen_var_def get_or_alloc_var_def alloc_var_def alloc_temp_def free_temps_def new_label_def
      push_loop_def pop_loop_def emit_leave_def compound_op_def load_literal_def cg_init_def emit_load_imm_def emit_def
      C_BODY_def MAX_REGS_def FIRST_REG_def FLAGS_TMP_def OP_MAP_def cong: ebind_weak)

lemma c_demo_compiles:
  "\<exists>text. compile_source_of C_DEMO = Inr text \<and> length (py_splitlines text) \<le> 0x7FFF"
proof -
  have m: "py_upper ''main'' = ''MAIN''" "no_break ''main''" by code_simp+
  obtain s where s: "gen_program_state (Program [] [FuncDef ''main'' [] [] C_BODY 1]) = Inr s" "length (cg_lines s) \<le> 40"
    using c_demo_lines by blast
  have "py_splitlines (py_join [newline] (cg_lines s)) = cg_lines s"
    by (rule program_lines [OF m c_demo_plain s(1)])
  then show ?thesis
    using s compile_parsed [OF c_demo_main(1)] by (simp add: gen_program_def lift_failure_def)
qed


text \<open>A long literal, alone in memory.\<close>

lemma long_literal_code:
  "g_imm 2 40000 = [I_Movhi 2 19, I_Ori 2 40000]" "code_at (g_imm 2 40000) 0 (g_imm 2 40000)"
  "loaded_literal 40000 = 0xFFFF9C40" "regs_wf (replicate 32 0)"
  by code_simp+

end
