(* ===== verification/Legacy_Syntax.thy ===== *)
theory Legacy_Syntax
  imports Lexer_Roundtrip
begin

text \<open>
  \<^verbatim>\<open>assembler/tokenizer.py\<close> and \<^verbatim>\<open>assembler/parser.py\<close>: the syntax of the earlier 16-bit machine, from
  text to a list of nodes.  Each alternative of \<^verbatim>\<open>_TOKEN_SPEC\<close> is a matcher for the current position, as
  in \<open>C_Lexer\<close>, on ASCII text; \<^verbatim>\<open>finditer\<close> skips a character where none matches.  The exception \<^verbatim>\<open>ParseError\<close> is the
  left side of a sum.
\<close>

section \<open>Tokens\<close>

datatype tok_type =
    LABEL | MNEMONIC | REGISTER | TOK_NUMBER | TOK_COMMA | TOK_LBRACKET | TOK_RBRACKET | PLUS | DIRECTIVE

datatype tok_value = Str_Value string | Int_Value int

datatype asm_token = Asm_Token (at_type: tok_type) (at_value: tok_value) (at_line: nat)

text \<open>The names of the groups.\<close>

datatype tok_group =
    G_COMMENT | G_DIRECTIVE | G_LABEL | G_REGISTER | G_HEX | G_DEC | G_MNEMONIC | G_COMMA | G_LBRACKET
  | G_RBRACKET | G_PLUS | G_WS

section \<open>The alternatives of the regular expression\<close>

text \<open>\<^verbatim>\<open>;.*\<close>, \<^verbatim>\<open>\.\w+\<close>\<close>

definition g_comment :: "string \<Rightarrow> string option" where
  "g_comment s = (if s \<noteq> [] \<and> hd s = CHR '';'' then Some (takeWhile (\<lambda>c. c \<noteq> newline) s) else None)"

definition g_directive :: "string \<Rightarrow> string option" where
  "g_directive s =
     (if s \<noteq> [] \<and> hd s = CHR ''.'' \<and> takeWhile is_word (tl s) \<noteq> []
      then Some (CHR ''.'' # takeWhile is_word (tl s)) else None)"

text \<open>\<^verbatim>\<open>[A-Za-z_]\w*\s*:\<close>; a shorter run of word characters is followed by a word character, so that
  there is nothing to go back to.\<close>

definition g_label :: "string \<Rightarrow> string option" where
  "g_label s =
     (let w = takeWhile is_word s; r = dropWhile is_word s; b = takeWhile is_space r; q = dropWhile is_space r
      in if s \<noteq> [] \<and> is_alpha (hd s) \<and> q \<noteq> [] \<and> hd q = CHR '':'' then Some (w @ b @ '':'') else None)"

text \<open>\<^verbatim>\<open>\bR(?:1[0-5]|[0-9])\b\<close>: a whole run of word characters.\<close>

definition REG_WORDS :: "string list" where
  "REG_WORDS = map (\<lambda>n. CHR ''R'' # fmt_dec n) [0, 1, 2, 3, 4, 5, 6, 7, 8, 9, 10, 11, 12, 13, 14, 15]"

definition g_register :: "char option \<Rightarrow> string \<Rightarrow> string option" where
  "g_register prev s =
     (let w = takeWhile is_word s in if at_boundary prev \<and> w \<in> set REG_WORDS then Some w else None)"

text \<open>\<^verbatim>\<open>0[xX][0-9A-Fa-f]+\<close>, which needs no boundary, and \<^verbatim>\<open>\b\d+\b\<close>\<close>

definition g_hex :: "string \<Rightarrow> string option" where
  "g_hex s =
     (let p = take 2 s; h = takeWhile is_hex_any (drop 2 s)
      in if p \<in> {''0x'', ''0X''} \<and> h \<noteq> [] then Some (p @ h) else None)"

definition g_dec :: "char option \<Rightarrow> string \<Rightarrow> string option" where
  "g_dec prev s =
     (let w = takeWhile is_word s in if at_boundary prev \<and> w \<noteq> [] \<and> list_all is_dec_digit w then Some w else None)"

definition g_ws :: "string \<Rightarrow> string option" where
  "g_ws s = (if s \<noteq> [] \<and> is_space (hd s) then Some (takeWhile is_space s) else None)"

definition TOKEN_SPEC :: "char option \<Rightarrow> (tok_group \<times> (string \<Rightarrow> string option)) list" where
  "TOKEN_SPEC prev =
     [(G_COMMENT, g_comment), (G_DIRECTIVE, g_directive), (G_LABEL, g_label), (G_REGISTER, g_register prev),
      (G_HEX, g_hex), (G_DEC, g_dec prev), (G_MNEMONIC, m_ident), (G_COMMA, m_class '',''),
      (G_LBRACKET, m_class ''[''), (G_RBRACKET, m_class '']''), (G_PLUS, m_class ''+''), (G_WS, g_ws)]"

fun first_group :: "(tok_group \<times> (string \<Rightarrow> string option)) list \<Rightarrow> string \<Rightarrow> (tok_group \<times> string) option" where
  "first_group [] s = None"
| "first_group ((k, m) # ms) s = (case m s of Some v \<Rightarrow> Some (k, v) | None \<Rightarrow> first_group ms s)"

section \<open>tokenize\<close>

definition rstrip_colon :: "string \<Rightarrow> string" where
  "rstrip_colon s = rev (dropWhile (\<lambda>c. c = CHR '':'') (rev s))"

definition group_tokens :: "tok_group \<Rightarrow> string \<Rightarrow> nat \<Rightarrow> asm_token list" where
  "group_tokens kind raw lineno =
     (if kind \<in> {G_WS, G_COMMENT} then []
      else if kind = G_LABEL then [Asm_Token LABEL (Str_Value (py_upper (py_strip (rstrip_colon raw)))) lineno]
      else if kind = G_REGISTER then [Asm_Token REGISTER (Int_Value (the (py_int 10 (tl raw)))) lineno]
      else if kind = G_HEX then [Asm_Token TOK_NUMBER (Int_Value (the (py_int 16 raw))) lineno]
      else if kind = G_DEC then [Asm_Token TOK_NUMBER (Int_Value (the (py_int 10 raw))) lineno]
      else if kind = G_MNEMONIC then [Asm_Token MNEMONIC (Str_Value (py_upper raw)) lineno]
      else if kind = G_COMMA then [Asm_Token TOK_COMMA (Str_Value '','') lineno]
      else if kind = G_LBRACKET then [Asm_Token TOK_LBRACKET (Str_Value ''['') lineno]
      else if kind = G_RBRACKET then [Asm_Token TOK_RBRACKET (Str_Value '']'') lineno]
      else if kind = G_PLUS then [Asm_Token PLUS (Str_Value ''+'') lineno]
      else [Asm_Token DIRECTIVE (Str_Value (py_upper raw)) lineno])"

function tokenize_from :: "char option \<Rightarrow> nat \<Rightarrow> string \<Rightarrow> asm_token list" where
  "tokenize_from prev lineno [] = []"
| "tokenize_from prev lineno (c # cs) =
     (case first_group (TOKEN_SPEC prev) (c # cs) of
        None \<Rightarrow> tokenize_from (Some c) lineno cs
      | Some (kind, raw) \<Rightarrow>
          group_tokens kind raw lineno @ tokenize_from (Some (last raw)) lineno (drop (length raw - 1) cs))"
  by pat_completeness auto
termination by (relation "measure (\<lambda>(_, _, s). length s)") auto

definition tokenize :: "string \<Rightarrow> nat \<Rightarrow> asm_token list" where
  "tokenize line lineno = tokenize_from None lineno line"

section \<open>Nodes and errors\<close>

datatype operand = Op_Num int | Op_Label string

datatype ast_node =
    LabelNode string nat
  | InstrNode string "operand list" nat "bool list"
  | DirectiveNode string "int list" nat

datatype syntax_msg =
    Unexpected_Tok asm_token
  | Expected_Address string
  | Expected_At tok_type nat
  | Expected_Got tok_type asm_token

datatype parse_error = ParseError syntax_msg nat

section \<open>Operands\<close>

definition asm_expect :: "asm_token list \<Rightarrow> nat \<Rightarrow> tok_type \<Rightarrow> nat \<Rightarrow> parse_error + asm_token" where
  "asm_expect tokens idx ttype lineno =
     (if length tokens \<le> idx then Inl (ParseError (Expected_At ttype idx) lineno)
      else if at_type (tokens ! idx) \<noteq> ttype then Inl (ParseError (Expected_Got ttype (tokens ! idx)) lineno)
      else Inr (tokens ! idx))"

text \<open>The value of a token of type REGISTER or NUMBER is an integer, of MNEMONIC a string.\<close>

definition int_value :: "asm_token \<Rightarrow> int" where
  "int_value t = (case at_value t of Int_Value v \<Rightarrow> v | Str_Value s \<Rightarrow> 0)"

definition str_value :: "asm_token \<Rightarrow> string" where
  "str_value t = (case at_value t of Str_Value s \<Rightarrow> s | Int_Value v \<Rightarrow> [])"

definition expect_reg :: "asm_token list \<Rightarrow> nat \<Rightarrow> nat \<Rightarrow> parse_error + int" where
  "expect_reg tokens idx lineno = ebind (asm_expect tokens idx REGISTER lineno) (\<lambda>t. Inr (int_value t))"

definition parse_mem :: "string \<Rightarrow> asm_token list \<Rightarrow> nat \<Rightarrow> parse_error + ast_node" where
  "parse_mem mnem tokens lineno =
     ebind (expect_reg tokens 0 lineno) (\<lambda>rd.
       ebind (asm_expect tokens 1 TOK_COMMA lineno) (\<lambda>_.
         ebind (asm_expect tokens 2 TOK_LBRACKET lineno) (\<lambda>_.
           ebind (expect_reg tokens 3 lineno) (\<lambda>base.
             ebind (if 4 < length tokens \<and> at_type (tokens ! 4) = PLUS then
                      ebind (asm_expect tokens 5 TOK_NUMBER lineno) (\<lambda>t.
                        ebind (asm_expect tokens 6 TOK_RBRACKET lineno) (\<lambda>_. Inr (int_value t)))
                    else ebind (asm_expect tokens 4 TOK_RBRACKET lineno) (\<lambda>_. Inr 0))
               (\<lambda>offset. Inr (InstrNode mnem [Op_Num rd, Op_Num base, Op_Num offset] lineno [True, True, False]))))))"

definition asm_instr :: "asm_token list \<Rightarrow> nat \<Rightarrow> nat \<Rightarrow> parse_error + ast_node" where
  "asm_instr tokens pos lineno =
     (let mnem = str_value (tokens ! pos); rest = drop (pos + 1) tokens
      in if rest = [] then Inr (InstrNode mnem [] lineno [])
         else if mnem \<in> {''JMP'', ''JZ'', ''JNZ'', ''CALL''} then
           (let t = hd rest
            in if at_type t = TOK_NUMBER then Inr (InstrNode mnem [Op_Num (int_value t)] lineno [False])
               else if at_type t = MNEMONIC then Inr (InstrNode mnem [Op_Label (str_value t)] lineno [False])
               else Inl (ParseError (Expected_Address mnem) lineno))
         else if mnem \<in> {''LOAD'', ''STORE''} then parse_mem mnem rest lineno
         else if mnem = ''NOT'' then
           ebind (expect_reg rest 0 lineno) (\<lambda>rd.
             ebind (asm_expect rest 1 TOK_COMMA lineno) (\<lambda>_.
               ebind (expect_reg rest 2 lineno) (\<lambda>rs1.
                 Inr (InstrNode mnem [Op_Num rd, Op_Num rs1] lineno [True, True]))))
         else
           ebind (expect_reg rest 0 lineno) (\<lambda>rd.
             ebind (asm_expect rest 1 TOK_COMMA lineno) (\<lambda>_.
               ebind (expect_reg rest 2 lineno) (\<lambda>rs1.
                 ebind (asm_expect rest 3 TOK_COMMA lineno) (\<lambda>_.
                   ebind (expect_reg rest 4 lineno) (\<lambda>rs2.
                     Inr (InstrNode mnem [Op_Num rd, Op_Num rs1, Op_Num rs2] lineno [True, True, True])))))))"

section \<open>Lines\<close>

text \<open>The loop over the values of a directive: numbers, each with an optional comma behind it.\<close>

fun directive_values :: "asm_token list \<Rightarrow> int list" where
  "directive_values [] = []"
| "directive_values (t # ts) =
     (if at_type t = TOK_NUMBER
      then int_value t # directive_values (if ts \<noteq> [] \<and> at_type (hd ts) = TOK_COMMA then tl ts else ts)
      else [])"

definition asm_directive :: "asm_token list \<Rightarrow> nat \<Rightarrow> nat \<Rightarrow> ast_node" where
  "asm_directive tokens pos lineno =
     DirectiveNode (str_value (tokens ! pos)) (directive_values (drop (pos + 1) tokens)) lineno"

definition asm_parse_line :: "asm_token list \<Rightarrow> nat \<Rightarrow> parse_error + ast_node list" where
  "asm_parse_line tokens lineno =
     (let labels = takeWhile (\<lambda>t. at_type t = LABEL) tokens; pos = length labels;
          nodes = map (\<lambda>t. LabelNode (str_value t) lineno) labels
      in if length tokens \<le> pos then Inr nodes
         else if at_type (tokens ! pos) = DIRECTIVE then Inr (nodes @ [asm_directive tokens pos lineno])
         else if at_type (tokens ! pos) = MNEMONIC then ebind (asm_instr tokens pos lineno) (\<lambda>n. Inr (nodes @ [n]))
         else Inl (ParseError (Unexpected_Tok (tokens ! pos)) lineno))"

fun asm_parse_lines :: "string list \<Rightarrow> nat \<Rightarrow> parse_error + ast_node list" where
  "asm_parse_lines [] lineno = Inr []"
| "asm_parse_lines (line # lines) lineno =
     (let line = py_strip line; tokens = tokenize line lineno
      in if line = [] \<or> tokens = [] then asm_parse_lines lines (lineno + 1)
         else ebind (asm_parse_line tokens lineno) (\<lambda>parsed.
                ebind (asm_parse_lines lines (lineno + 1)) (\<lambda>nodes. Inr (parsed @ nodes))))"

definition asm_parse :: "string \<Rightarrow> parse_error + ast_node list" where
  "asm_parse source = asm_parse_lines (py_splitlines source) 1"

end
