(* ===== verification/Legacy_Parser.thy ===== *)
theory Legacy_Parser
  imports Legacy_Syntax Hex_Roundtrip
begin

text \<open>
  A printer for the nodes of the earlier assembly language, one line of the source after the other, and
  the proof that \<open>Legacy_Syntax.asm_parse\<close> reads the printed text back; the shape of the nodes and the
  line of the error that it produces for any text.
\<close>

section \<open>Tokens and their text\<close>

fun at_text :: "asm_token \<Rightarrow> string" where
  "at_text (Asm_Token ty (Str_Value s) l) = (if ty = LABEL then s @ '':'' else s)"
| "at_text (Asm_Token ty (Int_Value v) l) = (if ty = REGISTER then CHR ''R'' # fmt_dec v else fmt_dec v)"

fun line_text :: "asm_token list \<Rightarrow> string" where
  "line_text [] = []"
| "line_text [t] = at_text t"
| "line_text (t # ts) = at_text t @ CHR '' '' # line_text ts"

definition upper_ident :: "string \<Rightarrow> bool" where
  "upper_ident s \<longleftrightarrow> s \<noteq> [] \<and> is_alpha (hd s) \<and> list_all is_word s \<and> py_upper s = s"

text \<open>The tokens with a text the tokenizer reads back; a name the regular expression takes for a register
  cannot be a mnemonic.\<close>

fun at_ok :: "asm_token \<Rightarrow> bool" where
  "at_ok (Asm_Token ty (Str_Value s) l) =
     (if ty = LABEL then upper_ident s
      else if ty = MNEMONIC then upper_ident s \<and> s \<notin> set REG_WORDS
      else if ty = DIRECTIVE then s \<noteq> [] \<and> hd s = CHR ''.'' \<and> tl s \<noteq> [] \<and> list_all is_word (tl s) \<and> py_upper s = s
      else (ty, s) \<in> {(TOK_COMMA, '',''), (TOK_LBRACKET, ''[''), (TOK_RBRACKET, '']''), (PLUS, ''+'')})"
| "at_ok (Asm_Token ty (Int_Value v) l) = ((ty = REGISTER \<and> 0 \<le> v \<and> v < 16) \<or> (ty = TOK_NUMBER \<and> 0 \<le> v))"

definition follows :: "string \<Rightarrow> bool" where
  "follows rest \<longleftrightarrow>
     rest = [] \<or> (\<exists>c r. rest = CHR '' '' # c # r \<and> \<not> is_space c \<and> c \<noteq> CHR '':'')"

section \<open>One token\<close>

lemma word_not_special: "is_word c \<Longrightarrow> c \<notin> {CHR '';'', CHR ''.'', CHR '':'', CHR '' '', CHR '','', CHR ''['', CHR '']'', CHR ''+''} \<and> \<not> is_space c \<and> \<not> is_line_break c"
  by (auto simp: is_word_def is_alpha_def is_dec_digit_def is_space_def is_line_break_def)

lemma word_not_space: "is_word c \<Longrightarrow> \<not> is_space c"
  using word_not_special [of c] by simp

lemma alpha_word: "is_alpha c \<Longrightarrow> is_word c"
  by (simp add: is_word_def)

lemma word_run:
  assumes "list_all is_word w" "follows rest"
  shows "takeWhile is_word (w @ rest) = w" "dropWhile is_word (w @ rest) = rest"
proof -
  have "takeWhile is_word rest = []" "dropWhile is_word rest = rest"
    using assms(2) by (auto simp: follows_def)
  then show "takeWhile is_word (w @ rest) = w" "dropWhile is_word (w @ rest) = rest"
    using assms(1) by (simp_all add: list_all_iff takeWhile_append2 dropWhile_append2)
qed

lemma no_label: "list_all is_word w \<Longrightarrow> follows rest \<Longrightarrow> g_label (w @ rest) = None"
  unfolding g_label_def by (auto simp: word_run follows_def is_space_def Let_def)

lemma word_hd:
  "list_all is_word w \<Longrightarrow> w \<noteq> [] \<Longrightarrow> g_comment (w @ rest) = None \<and> g_directive (w @ rest) = None"
  using word_not_special [of "hd w"] by (cases w) (auto simp: g_comment_def g_directive_def)

lemma reg_word_shape: "w \<in> set REG_WORDS \<Longrightarrow> list_all is_word w \<and> w \<noteq> [] \<and> hd w = CHR ''R''"
proof -
  have "list_all (\<lambda>w. list_all is_word w \<and> w \<noteq> [] \<and> hd w = CHR ''R'') REG_WORDS" by code_simp
  then show "w \<in> set REG_WORDS \<Longrightarrow> ?thesis" unfolding list_all_iff [of _ REG_WORDS] by blast
qed

lemma label_match:
  assumes "upper_ident s"
  shows "first_group (TOKEN_SPEC prev) (s @ CHR '':'' # rest) = Some (G_LABEL, s @ '':'')"
proof -
  have t: "takeWhile is_word (s @ CHR '':'' # rest) = s" "dropWhile is_word (s @ CHR '':'' # rest) = CHR '':'' # rest"
    using assms word_not_special [of "CHR '':''"]
    by (auto simp: upper_ident_def list_all_iff takeWhile_append2 dropWhile_append2)
  have "g_label (s @ CHR '':'' # rest) = Some (s @ '':'')"
    unfolding g_label_def t using assms by (simp add: Let_def is_space_def upper_ident_def)
  then show ?thesis
    using word_hd [of s "CHR '':'' # rest"] assms by (simp add: TOKEN_SPEC_def upper_ident_def)
qed

lemma word_match:
  assumes "list_all is_word w" "is_alpha (hd w)" "w \<noteq> []" "follows rest" "at_boundary prev"
  shows "first_group (TOKEN_SPEC prev) (w @ rest) =
    Some (if w \<in> set REG_WORDS then G_REGISTER else G_MNEMONIC, w)"
proof -
  obtain c cs where c: "w = c # cs" "is_alpha c" "\<not> is_dec_digit c"
    using assms(2,3) alpha_not_special [of "hd w"] by (cases w) auto
  then have "c \<noteq> CHR ''0''" by (auto simp: is_dec_digit_def)
  then have "g_hex (w @ rest) = None" by (auto simp: g_hex_def Let_def c(1))
  moreover have "g_register prev (w @ rest) = (if w \<in> set REG_WORDS then Some w else None)"
    unfolding g_register_def word_run [OF assms(1,4)] using assms(5) by (simp add: Let_def)
  moreover have "g_dec prev (w @ rest) = None"
    unfolding g_dec_def word_run [OF assms(1,4)] using c by (simp add: Let_def)
  moreover have "m_ident (w @ rest) = Some w"
    unfolding m_ident_def word_run [OF assms(1,4)] using c by simp
  ultimately show ?thesis
    using no_label [OF assms(1,4)] word_hd [OF assms(1,3), of rest] by (simp add: TOKEN_SPEC_def)
qed

lemma dec_match:
  assumes "0 \<le> v" "follows rest" "at_boundary prev"
  shows "first_group (TOKEN_SPEC prev) (fmt_dec v @ rest) = Some (G_DEC, fmt_dec v)"
proof -
  let ?w = "fmt_dec v"
  have d: "list_all is_dec_digit ?w" "?w \<noteq> []" using digits_text [OF assms(1)] by auto
  then have w: "list_all is_word ?w" by (auto simp: list_all_iff is_word_def)
  have "is_dec_digit (hd ?w)" using d by (cases ?w) auto
  then have "hd ?w \<noteq> CHR ''R''" by (auto simp: is_dec_digit_def)
  then have "?w \<notin> set REG_WORDS" using reg_word_shape by blast
  then have "g_register prev (?w @ rest) = None"
    unfolding g_register_def word_run [OF w assms(2)] by (simp add: Let_def)
  moreover have "g_hex (?w @ rest) = None"
  proof -
    have "take 2 (?w @ rest) \<notin> {''0x'', ''0X''}"
      using d assms(2) by (cases ?w; cases "tl ?w") (auto simp: is_dec_digit_def follows_def)
    then show ?thesis by (auto simp: g_hex_def Let_def)
  qed
  moreover have "g_dec prev (?w @ rest) = Some ?w"
    unfolding g_dec_def word_run [OF w assms(2)] using d assms(3) by (simp add: Let_def)
  ultimately show ?thesis
    using no_label [OF w assms(2)] word_hd [OF w d(2), of rest] by (simp add: TOKEN_SPEC_def)
qed

lemma directive_match:
  "list_all is_word w \<Longrightarrow> w \<noteq> [] \<Longrightarrow> follows rest \<Longrightarrow>
   first_group (TOKEN_SPEC prev) (CHR ''.'' # w @ rest) = Some (G_DIRECTIVE, CHR ''.'' # w)"
  by (simp add: TOKEN_SPEC_def g_comment_def g_directive_def word_run)

lemma sign_match:
  "first_group (TOKEN_SPEC prev) (CHR '','' # rest) = Some (G_COMMA, '','')"
  "first_group (TOKEN_SPEC prev) (CHR ''['' # rest) = Some (G_LBRACKET, ''['')"
  "first_group (TOKEN_SPEC prev) (CHR '']'' # rest) = Some (G_RBRACKET, '']'')"
  "first_group (TOKEN_SPEC prev) (CHR ''+'' # rest) = Some (G_PLUS, ''+'')"
  by (simp_all add: TOKEN_SPEC_def g_comment_def g_directive_def g_label_def g_register_def g_hex_def g_dec_def
      m_ident_def m_class_def is_word_def is_alpha_def is_dec_digit_def Let_def REG_WORDS_def)

lemma register_text: "0 \<le> v \<Longrightarrow> v < 16 \<Longrightarrow> CHR ''R'' # fmt_dec v \<in> set REG_WORDS"
proof -
  assume "0 \<le> v" "v < 16"
  then have "v = 0 \<or> v = 1 \<or> v = 2 \<or> v = 3 \<or> v = 4 \<or> v = 5 \<or> v = 6 \<or> v = 7 \<or> v = 8 \<or> v = 9
    \<or> v = 10 \<or> v = 11 \<or> v = 12 \<or> v = 13 \<or> v = 14 \<or> v = 15" by arith
  then have "v \<in> set [0, 1, 2, 3, 4, 5, 6, 7, 8, 9, 10, 11, 12, 13, 14, 15]" by simp
  then show ?thesis unfolding REG_WORDS_def set_map by (rule imageI)
qed

lemma rstrip_colon_word: "list_all is_word s \<Longrightarrow> rstrip_colon (s @ '':'') = s"
proof -
  assume s: "list_all is_word s"
  have "dropWhile (\<lambda>c. c = CHR '':'') (rev s) = rev s"
    using s word_not_special [of "last s"] by (cases s rule: rev_cases) auto
  then show ?thesis by (simp add: rstrip_colon_def)
qed

lemma upper_ident_strip: "upper_ident s \<Longrightarrow> py_strip s = s"
proof (rule strip_solid)
  assume s: "upper_ident s"
  have "list_all (\<lambda>c. \<not> is_space c) s"
    using s word_not_space unfolding upper_ident_def list_all_iff by blast
  then show "solid s" using s by (simp only: upper_ident_def solid_def) simp
qed

definition reads :: "asm_token \<Rightarrow> char option \<Rightarrow> string \<Rightarrow> bool" where
  "reads t prev rest \<longleftrightarrow>
     (\<exists>k. first_group (TOKEN_SPEC prev) (at_text t @ rest) = Some (k, at_text t)
       \<and> group_tokens k (at_text t) (at_line t) = [t])"

lemma readsI:
  "first_group (TOKEN_SPEC prev) (at_text t @ rest) = Some (k, at_text t) \<Longrightarrow>
   group_tokens k (at_text t) (at_line t) = [t] \<Longrightarrow> reads t prev rest"
  by (auto simp only: reads_def)

lemma label_read: "upper_ident s \<Longrightarrow> reads (Asm_Token LABEL (Str_Value s) l) prev rest"
proof -
  assume s: "upper_ident s"
  then have "list_all is_word s" "py_upper s = s" by (simp_all only: upper_ident_def)
  then show ?thesis
    using label_match [OF s, of prev rest] upper_ident_strip [OF s]
    by (simp add: reads_def group_tokens_def rstrip_colon_word)
qed

lemma mnemonic_read:
  "upper_ident s \<Longrightarrow> s \<notin> set REG_WORDS \<Longrightarrow> follows rest \<Longrightarrow> at_boundary prev \<Longrightarrow>
   reads (Asm_Token MNEMONIC (Str_Value s) l) prev rest"
  using word_match [of s rest prev] by (simp add: reads_def group_tokens_def upper_ident_def)

lemma directive_read:
  "list_all is_word w \<Longrightarrow> w \<noteq> [] \<Longrightarrow> py_upper (CHR ''.'' # w) = CHR ''.'' # w \<Longrightarrow> follows rest \<Longrightarrow>
   reads (Asm_Token DIRECTIVE (Str_Value (CHR ''.'' # w)) l) prev rest"
  using directive_match [of w rest prev] by (simp add: reads_def group_tokens_def)

lemma sign_read:
  "(ty, s) \<in> {(TOK_COMMA, '',''), (TOK_LBRACKET, ''[''), (TOK_RBRACKET, '']''), (PLUS, ''+'')} \<Longrightarrow>
   reads (Asm_Token ty (Str_Value s) l) prev rest"
  unfolding insert_iff empty_iff prod.inject
proof (elim disjE conjE)
  assume a: "ty = TOK_COMMA" "s = '',''"
  show ?thesis unfolding a by (rule readsI [where k = G_COMMA]) (simp_all add: sign_match group_tokens_def)
next
  assume a: "ty = TOK_LBRACKET" "s = ''[''"
  show ?thesis unfolding a by (rule readsI [where k = G_LBRACKET]) (simp_all add: sign_match group_tokens_def)
next
  assume a: "ty = TOK_RBRACKET" "s = '']''"
  show ?thesis unfolding a by (rule readsI [where k = G_RBRACKET]) (simp_all add: sign_match group_tokens_def)
next
  assume a: "ty = PLUS" "s = ''+''"
  show ?thesis unfolding a by (rule readsI [where k = G_PLUS]) (simp_all add: sign_match group_tokens_def)
qed simp

lemma register_read:
  assumes "0 \<le> n" "n < 16" "follows rest" "at_boundary prev"
  shows "reads (Asm_Token REGISTER (Int_Value n) l) prev rest"
proof -
  note r = register_text [OF assms(1,2)]
  then have "list_all is_word (CHR ''R'' # fmt_dec n)" using reg_word_shape by blast
  moreover have "is_alpha (hd (CHR ''R'' # fmt_dec n))" by (simp add: is_alpha_def)
  ultimately have "first_group (TOKEN_SPEC prev) ((CHR ''R'' # fmt_dec n) @ rest) = Some (G_REGISTER, CHR ''R'' # fmt_dec n)"
    using word_match [OF _ _ _ assms(3,4), of "CHR ''R'' # fmt_dec n"] r by (simp only: if_True) blast
  then show ?thesis
    by (simp add: reads_def group_tokens_def py_int_fmt_dec)
qed

lemma number_read:
  "0 \<le> n \<Longrightarrow> follows rest \<Longrightarrow> at_boundary prev \<Longrightarrow> reads (Asm_Token TOK_NUMBER (Int_Value n) l) prev rest"
  using dec_match [of n rest prev] by (simp add: reads_def group_tokens_def py_int_fmt_dec)

lemma token_reads:
  assumes "at_ok t" "follows rest" "at_boundary prev"
  shows "reads t prev rest"
  using assms(1)
proof (cases t rule: at_ok.cases)
  case (1 ty s l)
  show ?thesis
  proof (cases "ty = DIRECTIVE")
    case True
    then obtain w where "s = CHR ''.'' # w" "list_all is_word w" "w \<noteq> []" "py_upper s = s"
      using assms(1) by (cases s) (simp_all add: 1)
    then show ?thesis using directive_read [of w rest l prev] assms(2) by (simp add: 1 True)
  next
    case False
    then show ?thesis
      using assms label_read mnemonic_read sign_read by (simp add: 1 split: if_splits)
  qed
next
  case (2 ty n l)
  then show ?thesis
    using assms register_read number_read by (simp, elim disjE conjE) simp_all
qed

section \<open>A line of tokens\<close>

definition solid_line :: "string \<Rightarrow> bool" where
  "solid_line w \<longleftrightarrow> w \<noteq> [] \<and> hd w \<noteq> CHR '':'' \<and> list_all (\<lambda>c. \<not> is_space c \<and> \<not> is_line_break c) w"

lemma solid_word: "list_all is_word w \<Longrightarrow> w \<noteq> [] \<Longrightarrow> solid_line w"
proof -
  assume w: "list_all is_word w" "w \<noteq> []"
  then have "is_word (hd w)" by (cases w) simp_all
  then have "hd w \<noteq> CHR '':''" using word_not_special [of "hd w"] by blast
  moreover have "list_all (\<lambda>c. \<not> is_space c \<and> \<not> is_line_break c) w"
    using w(1) word_not_special unfolding list_all_iff by blast
  ultimately show ?thesis using w(2) by (simp add: solid_line_def)
qed

lemma solid_Cons: "c \<noteq> CHR '':'' \<Longrightarrow> \<not> is_space c \<Longrightarrow> \<not> is_line_break c \<Longrightarrow> w = [] \<or> solid_line w \<Longrightarrow> solid_line (c # w)"
  by (auto simp: solid_line_def)

lemma solid_digits: "0 \<le> v \<Longrightarrow> solid_line (fmt_dec v)"
  using digits_text [of v] by (intro solid_word) (auto simp: list_all_iff is_word_def)

lemma at_text_solid: "at_ok t \<Longrightarrow> solid_line (at_text t)"
proof (cases t rule: at_ok.cases)
  case (1 ty s l)
  assume ok: "at_ok t"
  consider "ty = LABEL" "upper_ident s" | "ty = MNEMONIC" "upper_ident s"
    | "ty = DIRECTIVE" "s \<noteq> []" "hd s = CHR ''.''" "list_all is_word (tl s)" "tl s \<noteq> []"
    | "ty \<noteq> LABEL" "s \<in> {'','', ''['', '']'', ''+''}"
    using ok by (simp add: 1 split: if_splits) blast+
  then show ?thesis
  proof cases
    assume ty: "ty = LABEL" "upper_ident s"
    then have "solid_line s" by (intro solid_word) (simp_all add: upper_ident_def)
    then show ?thesis by (simp add: 1 ty(1) solid_line_def is_space_def is_line_break_def)
  next
    assume ty: "ty = MNEMONIC" "upper_ident s"
    then have "solid_line s" by (intro solid_word) (simp_all add: upper_ident_def)
    then show ?thesis by (simp add: 1 ty(1))
  next
    assume ty: "ty = DIRECTIVE" "s \<noteq> []" "hd s = CHR ''.''" "list_all is_word (tl s)" "tl s \<noteq> []"
    have "solid_line (CHR ''.'' # tl s)"
      using solid_word [OF ty(4,5)] by (intro solid_Cons) (simp_all add: is_space_def is_line_break_def)
    then show ?thesis using ty(1-3) by (cases s) (simp_all add: 1)
  next
    assume ty: "ty \<noteq> LABEL" "s \<in> {'','', ''['', '']'', ''+''}"
    then show ?thesis by (auto simp: 1 solid_line_def is_space_def is_line_break_def)
  qed
next
  case (2 ty v l)
  assume "at_ok t"
  then have "solid_line (fmt_dec v)" using solid_digits 2 by auto
  then show ?thesis by (auto simp: 2 is_space_def is_line_break_def intro: solid_Cons)
qed

lemma at_text_Cons:
  assumes "at_ok t"
  obtains c cs where "at_text t = c # cs" "\<not> is_space c" "c \<noteq> CHR '':''"
  using at_text_solid [OF assms] by (cases "at_text t") (auto simp: solid_line_def)

lemma line_text_Cons: "ts \<noteq> [] \<Longrightarrow> line_text (t # ts) = at_text t @ CHR '' '' # line_text ts"
  by (cases ts) simp_all

lemma line_text_hd: "line_text (t # ts) = at_text t @ (if ts = [] then [] else CHR '' '' # line_text ts)"
  by (cases ts) simp_all

lemma follows_tokens: "list_all at_ok ts \<Longrightarrow> follows (if ts = [] then [] else CHR '' '' # line_text ts)"
proof (cases ts)
  case (Cons t us)
  assume "list_all at_ok ts"
  then have "at_ok t" by (simp add: Cons)
  then obtain c cs where "at_text t = c # cs" "\<not> is_space c" "c \<noteq> CHR '':''" by (rule at_text_Cons)
  then show ?thesis by (simp add: Cons follows_def line_text_hd)
qed (simp add: follows_def)

lemma blank_group: "\<not> is_space c \<Longrightarrow> first_group (TOKEN_SPEC prev) (CHR '' '' # c # r) = Some (G_WS, '' '')"
  by (simp add: TOKEN_SPEC_def g_comment_def g_directive_def g_label_def g_register_def g_hex_def g_dec_def
      m_ident_def m_class_def g_ws_def is_space_def Let_def REG_WORDS_def)

lemma blank_skipped:
  "follows (CHR '' '' # r) \<Longrightarrow> tokenize_from prev l (CHR '' '' # r) = tokenize_from (Some (CHR '' '')) l r"
  by (auto simp: follows_def blank_group group_tokens_def)

lemma token_step:
  assumes "at_ok t" "follows rest" "at_boundary prev"
  shows "tokenize_from prev (at_line t) (at_text t @ rest) = t # tokenize_from (Some (last (at_text t))) (at_line t) rest"
proof -
  obtain c cs where c: "at_text t = c # cs" using assms(1) by (rule at_text_Cons)
  have "drop (length (at_text t) - 1) (cs @ rest) = rest" by (simp add: c)
  with token_reads [OF assms] show ?thesis by (auto simp: reads_def c)
qed

theorem line_tokens:
  "list_all (\<lambda>t. at_ok t \<and> at_line t = l) ts \<Longrightarrow> at_boundary prev \<Longrightarrow> tokenize_from prev l (line_text ts) = ts"
proof (induction ts arbitrary: prev)
  case (Cons t ts)
  have ok: "at_ok t" "at_line t = l" "list_all at_ok ts" using Cons.prems(1) by (auto simp: list_all_iff)
  let ?rest = "if ts = [] then [] else CHR '' '' # line_text ts"
  have f: "follows ?rest" using follows_tokens [OF ok(3)] .
  have "at_boundary (Some (CHR '' ''))" by (simp add: at_boundary_def)
  then have "tokenize_from p l ?rest = ts" for p
    using Cons.IH [of "Some (CHR '' '')"] Cons.prems(1) f blank_skipped [of "line_text ts" p l]
    by (cases "ts = []") (simp_all del: tokenize_from.simps(2))
  then show ?case
    using token_step [OF ok(1) f Cons.prems(2)] by (simp add: line_text_hd ok(2))
qed simp

lemma strip_ends: "s \<noteq> [] \<Longrightarrow> \<not> is_space (hd s) \<Longrightarrow> \<not> is_space (last s) \<Longrightarrow> py_strip s = s"
proof -
  have l: "t \<noteq> [] \<Longrightarrow> \<not> is_space (hd t) \<Longrightarrow> lstrip t = t" for t
    by (cases t) (simp_all add: lstrip_def)
  then show "s \<noteq> [] \<Longrightarrow> \<not> is_space (hd s) \<Longrightarrow> \<not> is_space (last s) \<Longrightarrow> ?thesis"
    by (simp add: py_strip_def hd_rev)
qed

lemma line_text_ends:
  "list_all at_ok ts \<Longrightarrow> ts \<noteq> [] \<Longrightarrow>
   line_text ts \<noteq> [] \<and> \<not> is_space (hd (line_text ts)) \<and> \<not> is_space (last (line_text ts))
   \<and> list_all (\<lambda>c. \<not> is_line_break c) (line_text ts)"
proof (induction ts)
  case (Cons t ts)
  have t: "at_text t \<noteq> []" "\<not> is_space (hd (at_text t))" "\<not> is_space (last (at_text t))"
    "list_all (\<lambda>c. \<not> is_line_break c) (at_text t)" "\<not> is_line_break (CHR '' '')"
    using at_text_solid [of t] Cons.prems by (auto simp: solid_line_def list_all_iff is_line_break_def)
  show ?case
  proof (cases "ts = []")
    case False
    with Cons t show ?thesis by (simp add: line_text_hd)
  qed (use t in simp)
qed simp

section \<open>Nodes and their tokens\<close>

definition JUMP_NAMES :: "string list" where "JUMP_NAMES = [''JMP'', ''JZ'', ''JNZ'', ''CALL'']"

abbreviation reg_token :: "nat \<Rightarrow> int \<Rightarrow> asm_token" where "reg_token l r \<equiv> Asm_Token REGISTER (Int_Value r) l"
abbreviation num_token :: "nat \<Rightarrow> int \<Rightarrow> asm_token" where "num_token l v \<equiv> Asm_Token TOK_NUMBER (Int_Value v) l"
abbreviation comma_token :: "nat \<Rightarrow> asm_token" where "comma_token l \<equiv> Asm_Token TOK_COMMA (Str_Value '','') l"

fun operand_tokens :: "string \<Rightarrow> nat \<Rightarrow> operand list \<Rightarrow> asm_token list" where
  "operand_tokens m l [Op_Num v] = [num_token l v]"
| "operand_tokens m l [Op_Label s] = [Asm_Token MNEMONIC (Str_Value s) l]"
| "operand_tokens m l [Op_Num rd, Op_Num rs] = [reg_token l rd, comma_token l, reg_token l rs]"
| "operand_tokens m l [Op_Num rd, Op_Num rs, Op_Num v] =
     (if m \<in> {''LOAD'', ''STORE''} then
        [reg_token l rd, comma_token l, Asm_Token TOK_LBRACKET (Str_Value ''['') l, reg_token l rs,
         Asm_Token PLUS (Str_Value ''+'') l, num_token l v, Asm_Token TOK_RBRACKET (Str_Value '']'') l]
      else [reg_token l rd, comma_token l, reg_token l rs, comma_token l, reg_token l v])"
| "operand_tokens m l ops = []"

fun value_tokens :: "nat \<Rightarrow> int list \<Rightarrow> asm_token list" where
  "value_tokens l [] = []"
| "value_tokens l [v] = [num_token l v]"
| "value_tokens l (v # vs) = num_token l v # comma_token l # value_tokens l vs"

fun node_tokens :: "ast_node \<Rightarrow> asm_token list" where
  "node_tokens (LabelNode n l) = [Asm_Token LABEL (Str_Value n) l]"
| "node_tokens (InstrNode m ops l flags) = Asm_Token MNEMONIC (Str_Value m) l # operand_tokens m l ops"
| "node_tokens (DirectiveNode n vs l) = Asm_Token DIRECTIVE (Str_Value n) l # value_tokens l vs"

fun node_line :: "ast_node \<Rightarrow> nat" where
  "node_line (LabelNode n l) = l"
| "node_line (InstrNode m ops l flags) = l"
| "node_line (DirectiveNode n vs l) = l"

section \<open>The shape of a node\<close>

definition legacy_reg :: "int \<Rightarrow> bool" where "legacy_reg r \<longleftrightarrow> 0 \<le> r \<and> r < 16"

text \<open>The operands and their flags: a flag is set exactly on the register numbers.\<close>

fun operands_shape :: "string \<Rightarrow> operand list \<Rightarrow> bool list \<Rightarrow> bool" where
  "operands_shape m [] flags = (flags = [])"
| "operands_shape m [Op_Num v] flags = (m \<in> set JUMP_NAMES \<and> flags = [False] \<and> 0 \<le> v)"
| "operands_shape m [Op_Label s] flags = (m \<in> set JUMP_NAMES \<and> flags = [False])"
| "operands_shape m [Op_Num rd, Op_Num rs] flags =
     (m = ''NOT'' \<and> flags = [True, True] \<and> legacy_reg rd \<and> legacy_reg rs)"
| "operands_shape m [Op_Num rd, Op_Num rs, Op_Num v] flags =
     (legacy_reg rd \<and> legacy_reg rs
      \<and> (if m \<in> {''LOAD'', ''STORE''} then flags = [True, True, False] \<and> 0 \<le> v
         else m \<noteq> ''NOT'' \<and> m \<notin> set JUMP_NAMES \<and> flags = [True, True, True] \<and> legacy_reg v))"
| "operands_shape m ops flags = False"

fun node_shape :: "ast_node \<Rightarrow> bool" where
  "node_shape (LabelNode n l) = True"
| "node_shape (InstrNode m ops l flags) = operands_shape m ops flags"
| "node_shape (DirectiveNode n vs l) = list_all (\<lambda>v. 0 \<le> v) vs"

definition mnemonic_name :: "string \<Rightarrow> bool" where
  "mnemonic_name s \<longleftrightarrow> upper_ident s \<and> s \<notin> set REG_WORDS"

fun node_named :: "ast_node \<Rightarrow> bool" where
  "node_named (LabelNode n l) = upper_ident n"
| "node_named (InstrNode m ops l flags) =
     (mnemonic_name m \<and> list_all (\<lambda>x. case x of Op_Label s \<Rightarrow> mnemonic_name s | Op_Num v \<Rightarrow> True) ops)"
| "node_named (DirectiveNode n vs l) =
     (n \<noteq> [] \<and> hd n = CHR ''.'' \<and> tl n \<noteq> [] \<and> list_all is_word (tl n) \<and> py_upper n = n)"

definition is_label :: "ast_node \<Rightarrow> bool" where
  "is_label n = (case n of LabelNode s l \<Rightarrow> True | _ \<Rightarrow> False)"

text \<open>The nodes of one line: labels, then at most one instruction or directive.\<close>

definition line_ok :: "nat \<Rightarrow> ast_node list \<Rightarrow> bool" where
  "line_ok l ns \<longleftrightarrow>
     list_all (\<lambda>n. node_shape n \<and> node_named n \<and> node_line n = l) ns \<and> list_all is_label (butlast ns)"

definition nodes_text :: "ast_node list \<Rightarrow> string" where
  "nodes_text ns = line_text (concat (map node_tokens ns))"

fun program_ok :: "nat \<Rightarrow> ast_node list list \<Rightarrow> bool" where
  "program_ok l [] = True"
| "program_ok l (ns # nss) = (line_ok l ns \<and> program_ok (l + 1) nss)"

definition program_text :: "ast_node list list \<Rightarrow> string" where
  "program_text nss = concat (map (\<lambda>ns. nodes_text ns @ [newline]) nss)"

section \<open>Parsing printed nodes\<close>

lemma values_ok: "list_all (\<lambda>v. 0 \<le> v) vs \<Longrightarrow> list_all (\<lambda>t. at_ok t \<and> at_line t = l) (value_tokens l vs)"
  by (induction l vs rule: value_tokens.induct) simp_all

lemma values_read: "directive_values (value_tokens l vs) = vs"
  by (induction l vs rule: value_tokens.induct) (simp_all add: int_value_def)

lemma operands_ok:
  "operands_shape m ops flags \<Longrightarrow> node_named (InstrNode m ops l flags) \<Longrightarrow>
   list_all (\<lambda>t. at_ok t \<and> at_line t = l) (operand_tokens m l ops)"
  by (cases "(m, ops, flags)" rule: operands_shape.cases)
    (auto simp: mnemonic_name_def legacy_reg_def split: if_splits)

lemma node_tokens_ok:
  "node_shape n \<Longrightarrow> node_named n \<Longrightarrow> list_all (\<lambda>t. at_ok t \<and> at_line t = node_line n) (node_tokens n)"
  using operands_ok values_ok by (cases n) (simp_all add: mnemonic_name_def)

lemmas step_defs = expect_reg_def asm_expect_def int_value_def str_value_def

lemma instr_read:
  "operands_shape m ops flags \<Longrightarrow> length ls = pos \<Longrightarrow>
   asm_instr (ls @ node_tokens (InstrNode m ops l flags)) pos l = Inr (InstrNode m ops l flags)"
  by (cases "(m, ops, flags)" rule: operands_shape.cases)
    (auto simp: asm_instr_def parse_mem_def step_defs JUMP_NAMES_def nth_append split: if_splits)

lemma node_read:
  assumes "node_shape n" "\<not> is_label n" "list_all (\<lambda>t. at_type t = LABEL) ls"
  shows "asm_parse_line (ls @ node_tokens n) (node_line n) =
    Inr (map (\<lambda>t. LabelNode (str_value t) (node_line n)) ls @ [n])"
proof -
  have t: "takeWhile (\<lambda>t. at_type t = LABEL) (ls @ t # ts) = ls" if "at_type t \<noteq> LABEL" for t ts
    using that assms(3) by (simp add: list_all_iff takeWhile_append2)
  show ?thesis
  proof (cases n)
    case (LabelNode s l)
    then show ?thesis using assms(2) by (simp add: is_label_def)
  next
    case (InstrNode m ops l flags)
    then show ?thesis
      using instr_read [of m ops flags ls "length ls" l] assms(1) t
      by (simp add: asm_parse_line_def Let_def)
  next
    case (DirectiveNode s vs l)
    then show ?thesis
      using t by (simp add: asm_parse_line_def asm_directive_def str_value_def Let_def values_read)
  qed
qed

lemma label_tokens:
  assumes "list_all is_label ns" "list_all (\<lambda>n. node_line n = l) ns"
  shows "list_all (\<lambda>t. at_type t = LABEL) (concat (map node_tokens ns))"
    and "map (\<lambda>t. LabelNode (str_value t) l) (concat (map node_tokens ns)) = ns"
  using assms by (induction ns) (auto simp: is_label_def str_value_def split: ast_node.splits)

lemma line_read:
  assumes "line_ok l ns"
  shows "asm_parse_line (concat (map node_tokens ns)) l = Inr ns"
proof -
  have labels: "asm_parse_line (concat (map node_tokens ls)) l = Inr ls"
    if "list_all is_label ls" "list_all (\<lambda>n. node_line n = l) ls" for ls
  proof -
    have "takeWhile (\<lambda>t. at_type t = LABEL) (concat (map node_tokens ls)) = concat (map node_tokens ls)"
      using label_tokens(1) [OF that] by (simp add: list_all_iff takeWhile_eq_all_conv)
    then show ?thesis unfolding asm_parse_line_def Let_def by (simp only: label_tokens(2) [OF that] order_refl if_True)
  qed
  show ?thesis
  proof (cases ns rule: rev_cases)
    case Nil
    then show ?thesis using labels [of "[]"] by simp
  next
    case (snoc ls n)
    with assms have ok: "list_all is_label ls" "list_all (\<lambda>n. node_line n = l) ls" "node_shape n" "node_line n = l"
      by (auto simp: line_ok_def list_all_iff)
    show ?thesis
    proof (cases "is_label n")
      case True
      then show ?thesis using labels [of ns] ok by (simp add: snoc)
    next
      case False
      then show ?thesis
        using node_read [OF ok(3) False label_tokens(1) [OF ok(1,2)]] label_tokens(2) [OF ok(1,2)]
        by (simp add: snoc ok(4))
    qed
  qed
qed

lemma line_tokens_ok:
  "line_ok l ns \<Longrightarrow> list_all (\<lambda>t. at_ok t \<and> at_line t = l) (concat (map node_tokens ns))"
  using node_tokens_ok by (fastforce simp: line_ok_def list_all_iff)

lemma node_tokens_ne [simp]: "node_tokens n \<noteq> []"
  by (cases n) simp_all

lemma lines_aux_unbroken:
  "list_all (\<lambda>c. \<not> is_line_break c) l \<Longrightarrow> lines_aux acc (l @ newline # s) = (rev acc @ l) # lines_aux [] s"
  by (induction l arbitrary: acc) (simp_all add: is_line_break_def newline_def)

lemma nodes_text_line:
  assumes "line_ok l ns"
  shows "list_all (\<lambda>c. \<not> is_line_break c) (nodes_text ns)" "py_strip (nodes_text ns) = nodes_text ns"
    "nodes_text ns = [] \<longleftrightarrow> ns = []" "tokenize (nodes_text ns) l = concat (map node_tokens ns)"
proof -
  let ?ts = "concat (map node_tokens ns)"
  have ok: "list_all at_ok ?ts" using line_tokens_ok [OF assms] by (simp add: list_all_iff)
  have ne: "?ts = [] \<longleftrightarrow> ns = []" by (cases ns) simp_all
  have e: "nodes_text ns \<noteq> [] \<and> \<not> is_space (hd (nodes_text ns)) \<and> \<not> is_space (last (nodes_text ns))
      \<and> list_all (\<lambda>c. \<not> is_line_break c) (nodes_text ns)" if "ns \<noteq> []"
    using line_text_ends [OF ok] that ne by (simp add: nodes_text_def)
  have n: "nodes_text [] = []" "py_strip [] = []" by (simp_all add: nodes_text_def py_strip_def lstrip_def)
  show "list_all (\<lambda>c. \<not> is_line_break c) (nodes_text ns)" "nodes_text ns = [] \<longleftrightarrow> ns = []"
    "py_strip (nodes_text ns) = nodes_text ns"
    using e n strip_ends [of "nodes_text ns"] by (cases "ns = []"; simp)+
  show "tokenize (nodes_text ns) l = ?ts"
    using line_tokens [OF line_tokens_ok [OF assms], of None]
    by (simp add: tokenize_def nodes_text_def at_boundary_def)
qed

lemma legacy_lines: "program_ok l nss \<Longrightarrow> py_splitlines (program_text nss) = map nodes_text nss"
proof (induction nss arbitrary: l)
  case (Cons ns nss)
  then have "list_all (\<lambda>c. \<not> is_line_break c) (nodes_text ns)" using nodes_text_line(1) by auto
  from lines_aux_unbroken [OF this, of "[]"] Cons show ?case
    by (auto simp: program_text_def py_splitlines_def)
qed (simp add: program_text_def py_splitlines_def)

lemma program_read: "program_ok l nss \<Longrightarrow> asm_parse_lines (map nodes_text nss) l = Inr (concat nss)"
proof (induction nss arbitrary: l)
  case (Cons ns nss)
  then have ok: "line_ok l ns" by simp
  show ?case
    using Cons nodes_text_line(2-4) [OF ok] line_read [OF ok] by (cases "ns = []") (simp_all add: Let_def)
qed simp

theorem printed_program: "program_ok 1 nss \<Longrightarrow> asm_parse (program_text nss) = Inr (concat nss)"
  unfolding asm_parse_def by (simp add: legacy_lines program_read)

section \<open>The nodes of any text\<close>

definition tok_typed :: "asm_token \<Rightarrow> bool" where
  "tok_typed t =
     (case at_value t of
        Int_Value v \<Rightarrow> (at_type t = REGISTER \<and> legacy_reg v) \<or> (at_type t = TOK_NUMBER \<and> 0 \<le> v)
      | Str_Value s \<Rightarrow> at_type t \<notin> {REGISTER, TOK_NUMBER})"

lemma first_group_in: "first_group ms s = Some (k, v) \<Longrightarrow> \<exists>m. (k, m) \<in> set ms \<and> m s = Some v"
  by (induction ms s rule: first_group.induct) (auto split: option.splits)

lemma digits_value_nonneg: "0 \<le> a \<Longrightarrow> 0 \<le> b \<Longrightarrow> 0 \<le> digits_value b a s"
  by (induction s arbitrary: a) (simp_all add: digits_value_def)

lemma hex_is_digit: "is_hex_any c \<Longrightarrow> is_digit 16 c"
  by (auto simp: is_hex_any_def is_hex_digit_def is_dec_digit_def is_digit_def digit_val_def)

lemma dec_is_digit: "is_dec_digit c \<Longrightarrow> is_digit 10 c"
  by (auto simp: is_dec_digit_def is_digit_def digit_val_def)

lemma register_value: "raw \<in> set REG_WORDS \<Longrightarrow> legacy_reg (the (py_int 10 (tl raw)))"
  by (auto simp: REG_WORDS_def py_int_fmt_dec legacy_reg_def)

lemma dec_value: "list_all is_dec_digit raw \<Longrightarrow> raw \<noteq> [] \<Longrightarrow> 0 \<le> the (py_int 10 raw)"
  using py_int_digits [of 10 raw] dec_is_digit by (simp add: list_all_iff digits_value_nonneg)

lemma py_int_prefixed:
  assumes "p \<in> {''0x'', ''0X''}" "list_all (is_digit 16) h" "h \<noteq> []"
  shows "py_int 16 (p @ h) = Some (digits_value 16 0 h)"
proof -
  have "\<not> is_space c" if "is_digit 16 c" for c
    using that by (auto simp: is_digit_def digit_val_def is_space_def split: if_splits)
  then have "solid (p @ h)"
    using assms by (auto simp: solid_def list_all_iff is_space_def)
  then have "py_strip (p @ h) = p @ h" by (rule strip_solid)
  moreover have "py_lower ''0x'' = ''0x''" "py_lower ''0X'' = ''0x''" by code_simp+
  ultimately show ?thesis
    using assms parse_digits_value [OF assms(2), of False 0] by (auto simp: py_int_def parse_unsigned_def)
qed

lemma hex_value:
  assumes "g_hex s = Some raw"
  shows "0 \<le> the (py_int 16 raw)"
proof -
  let ?h = "takeWhile is_hex_any (drop 2 s)"
  have r: "raw = take 2 s @ ?h" "take 2 s \<in> {''0x'', ''0X''}" "?h \<noteq> []"
    using assms by (auto simp: g_hex_def Let_def split: if_splits)
  have "list_all (is_digit 16) ?h" using hex_is_digit set_takeWhileD by (fastforce simp: list_all_iff)
  with r show ?thesis by (simp add: py_int_prefixed digits_value_nonneg)
qed

lemma group_typed:
  assumes "first_group (TOKEN_SPEC prev) s = Some (k, raw)"
  shows "list_all (\<lambda>t. tok_typed t \<and> at_line t = l) (group_tokens k raw l)"
proof -
  obtain m where m: "(k, m) \<in> set (TOKEN_SPEC prev)" "m s = Some raw"
    using first_group_in [OF assms] by blast
  have r: "k = G_REGISTER \<Longrightarrow> legacy_reg (the (py_int 10 (tl raw)))"
    using m register_value by (auto simp: TOKEN_SPEC_def g_register_def Let_def split: if_splits)
  have h: "k = G_HEX \<Longrightarrow> 0 \<le> the (py_int 16 raw)"
    using m hex_value by (auto simp: TOKEN_SPEC_def)
  have d: "k = G_DEC \<Longrightarrow> 0 \<le> the (py_int 10 raw)"
    using m dec_value by (auto simp: TOKEN_SPEC_def g_dec_def Let_def split: if_splits)
  show ?thesis using r h d by (cases k) (simp_all add: group_tokens_def tok_typed_def)
qed

lemma tokens_typed: "list_all (\<lambda>t. tok_typed t \<and> at_line t = l) (tokenize_from prev l s)"
  using group_typed
  by (induction prev l s rule: tokenize_from.induct) (auto split: option.splits)

lemma asm_expect_cases:
  "asm_expect ts i ty l = Inr t \<Longrightarrow> list_all tok_typed ts \<Longrightarrow> t \<in> set ts \<and> at_type t = ty \<and> tok_typed t"
  "asm_expect ts i ty l = Inl (ParseError m l') \<Longrightarrow> l' = l"
  by (auto simp: asm_expect_def list_all_iff split: if_splits)

lemma expect_reg_cases:
  "expect_reg ts i l = Inr r \<Longrightarrow> list_all tok_typed ts \<Longrightarrow> legacy_reg r"
  "expect_reg ts i l = Inl (ParseError m l') \<Longrightarrow> l' = l"
  using asm_expect_cases [of ts i REGISTER l]
  by (auto simp: expect_reg_def ebind_def int_value_def tok_typed_def split: sum.splits tok_value.splits)

lemma expect_num:
  "asm_expect ts i TOK_NUMBER l = Inr t \<Longrightarrow> list_all tok_typed ts \<Longrightarrow> 0 \<le> int_value t"
  using asm_expect_cases(1) [of ts i TOK_NUMBER l t] by (auto simp: int_value_def tok_typed_def split: tok_value.splits)

lemma values_shape: "list_all tok_typed ts \<Longrightarrow> list_all (\<lambda>v. 0 \<le> v) (directive_values ts)"
proof (induction ts rule: directive_values.induct)
  case (2 t ts)
  have "list_all tok_typed ts" "list_all tok_typed (tl ts)" using "2.prems" by (cases ts; simp)+
  moreover have "0 \<le> int_value t" if "at_type t = TOK_NUMBER"
    using "2.prems" that by (auto simp: tok_typed_def int_value_def split: tok_value.splits)
  ultimately show ?case using "2.IH" by simp
qed simp

lemma mem_shape:
  "parse_mem m ts l = Inr n \<Longrightarrow> list_all tok_typed ts \<Longrightarrow> m \<in> {''LOAD'', ''STORE''} \<Longrightarrow> node_shape n \<and> node_line n = l"
  by (auto simp: parse_mem_def ebind_Inr_iff dest: expect_reg_cases(1) expect_num split: if_splits)

lemma mem_error: "parse_mem m ts l = Inl (ParseError e l') \<Longrightarrow> l' = l"
  by (auto simp: parse_mem_def ebind_Inl_iff dest: expect_reg_cases(2) asm_expect_cases(2) split: if_splits)

lemma instr_shape:
  assumes "asm_instr ts pos l = Inr n" "list_all tok_typed ts"
  shows "node_shape n \<and> node_line n = l"
proof -
  have d: "list_all tok_typed (drop (pos + 1) ts)" using assms(2) set_drop_subset by (fastforce simp: list_all_iff)
  have h: "0 \<le> int_value (hd (drop (pos + 1) ts))"
    if "drop (pos + 1) ts \<noteq> []" "at_type (hd (drop (pos + 1) ts)) = TOK_NUMBER"
    using d that by (cases "drop (pos + 1) ts") (auto simp: tok_typed_def int_value_def split: tok_value.splits)
  show ?thesis
    using assms(1) d h mem_shape [OF _ d]
    by (auto simp: asm_instr_def Let_def JUMP_NAMES_def ebind_Inr_iff dest: expect_reg_cases(1) split: if_splits)
qed

lemma instr_error: "asm_instr ts pos l = Inl (ParseError e l') \<Longrightarrow> l' = l"
  by (auto simp: asm_instr_def Let_def ebind_Inl_iff dest: mem_error expect_reg_cases(2) asm_expect_cases(2) split: if_splits)

lemma parse_line_shape:
  assumes "list_all tok_typed ts"
  shows "asm_parse_line ts l = Inr ns \<Longrightarrow> list_all (\<lambda>n. node_shape n \<and> node_line n = l) ns"
    and "asm_parse_line ts l = Inl (ParseError e l') \<Longrightarrow> l' = l"
proof -
  have d: "list_all tok_typed (drop k ts)" for k using assms set_drop_subset by (fastforce simp: list_all_iff)
  have v: "list_all (\<lambda>v. 0 \<le> v) (directive_values (drop k ts))" for k by (rule values_shape [OF d])
  show "asm_parse_line ts l = Inr ns \<Longrightarrow> list_all (\<lambda>n. node_shape n \<and> node_line n = l) ns"
    using instr_shape [OF _ assms] v
    by (auto simp: asm_parse_line_def asm_directive_def Let_def ebind_Inr_iff list_all_iff split: if_splits)
  show "asm_parse_line ts l = Inl (ParseError e l') \<Longrightarrow> l' = l"
    by (auto simp: asm_parse_line_def Let_def ebind_Inl_iff dest: instr_error split: if_splits)
qed

definition result_ok :: "nat \<Rightarrow> nat \<Rightarrow> parse_error + ast_node list \<Rightarrow> bool" where
  "result_ok first count r =
     (case r of
        Inl (ParseError msg line) \<Rightarrow> first \<le> line \<and> line < first + count
      | Inr nodes \<Rightarrow>
          list_all (\<lambda>n. node_shape n \<and> first \<le> node_line n \<and> node_line n < first + count) nodes
          \<and> sorted (map node_line nodes))"

lemma result_ok_mono: "result_ok (Suc l) k r \<Longrightarrow> result_ok l (Suc k) r"
  by (auto simp: result_ok_def list_all_iff split: sum.splits parse_error.splits)

lemma parse_lines_ok: "result_ok l (length lines) (asm_parse_lines lines l)"
proof (induction lines arbitrary: l)
  case (Cons line lines)
  let ?ts = "tokenize (py_strip line) l"
  have typed: "list_all tok_typed ?ts"
    using tokens_typed [of l None "py_strip line"] by (simp add: tokenize_def list_all_iff)
  note IH = result_ok_mono [OF Cons.IH [of "Suc l"]]
  show ?case
  proof (cases "py_strip line = [] \<or> ?ts = []")
    case True
    then show ?thesis using IH by (auto simp: Let_def)
  next
    case False
    show ?thesis
    proof (cases "asm_parse_line ?ts l")
      case (Inl e)
      then show ?thesis
        using False parse_line_shape(2) [OF typed, of l] by (cases e) (auto simp: Let_def result_ok_def)
    next
      case (Inr ns)
      have n: "list_all (\<lambda>n. node_shape n \<and> node_line n = l) ns" using parse_line_shape(1) [OF typed Inr] .
      then have "sorted (map node_line ns)" by (induction ns) (auto simp: list_all_iff)
      with n Inr False IH Cons.IH [of "Suc l"] show ?thesis
        by (cases "asm_parse_lines lines (Suc l)")
          (auto simp: Let_def result_ok_def list_all_iff sorted_append split: parse_error.splits)
    qed
  qed
qed (simp add: result_ok_def)

theorem parse_result_ok: "result_ok 1 (length (py_splitlines source)) (asm_parse source)"
  unfolding asm_parse_def by (rule parse_lines_ok)

end
