(* ===== verification/Tool_Mains.thy ===== *)
theory Tool_Mains
  imports Source_Correct Sim_Debugger
begin

unbundle bit_operations_syntax

text \<open>
  The programs of \<^verbatim>\<open>toolchain/\<close> that are started on their own (their arguments once parsed), the command
  debug of \<^verbatim>\<open>main.py\<close>, and the commands of \<^verbatim>\<open>main.py\<close> that drive a Verilog simulator or Vivado: the
  search of the tool, the commands that are run, and what is read from their output.  The tools
  themselves are a parameter of these definitions.
\<close>

section \<open>The programs of the tool chain\<close>

text \<open>An exception that ends a program, beside those of the commands.\<close>

datatype main_error =
    Main_Failure failure
  | Main_Link link_error
  | Main_Loader load_error
  | Not_Found string
  | Timeout_Expired

definition lift_main :: "failure + 'a \<Rightarrow> main_error + 'a" where
  "lift_main x = (case x of Inl e \<Rightarrow> Inl (Main_Failure e) | Inr v \<Rightarrow> Inr v)"

text \<open>The exit codes of the two drivers: 1 when the result has an error.\<close>

definition tool_assembler_main ::
  "string \<Rightarrow> string option \<Rightarrow> string \<Rightarrow> bool \<Rightarrow> files \<Rightarrow> failure + int \<times> files" where
  "tool_assembler_main source output fmt with_listing fs =
     (let out = or_default output (splitext_root source @ ''.'' @ fmt)
      in ebind (assemble_file with_listing source out fmt fs) (\<lambda>(res, fs).
           Inr (if tr_errors res \<noteq> [] then 1 else 0, fs)))"

definition tool_compiler_main ::
  "string \<Rightarrow> string option \<Rightarrow> bool \<Rightarrow> bool \<Rightarrow> files \<Rightarrow> failure + int \<times> files" where
  "tool_compiler_main source output with_asm emit_ast fs =
     (let out = or_default output (splitext_root source @ (if with_asm then ''.hex'' else ''.asm''))
      in ebind (compile_file emit_ast source out with_asm fs) (\<lambda>(res, fs).
           Inr (if co_errors res \<noteq> [] then 1 else 0, fs)))"

text \<open>\<^verbatim>\<open>linker.main\<close>: no exception is caught; the symbols are printed in the order of their table.\<close>

fun linker_inputs :: "files \<Rightarrow> string list \<Rightarrow> linker \<Rightarrow> main_error + linker" where
  "linker_inputs fs [] lk = Inr lk"
| "linker_inputs fs (obj # objs) lk =
     (case fs_objs fs obj of
        None \<Rightarrow> Inl (Not_Found obj)
      | Some ob \<Rightarrow>
          (case add_object lk ob of
             Inl e \<Rightarrow> Inl (Main_Link e)
           | Inr lk \<Rightarrow> linker_inputs fs objs lk))"

definition linker_main :: "string list \<Rightarrow> string \<Rightarrow> int \<Rightarrow> int \<Rightarrow> files \<Rightarrow> main_error + files" where
  "linker_main objects output text_base data_base fs =
     ebind (linker_inputs fs objects (linker_init text_base data_base)) (\<lambda>lk.
       case link lk of
         Inl e \<Rightarrow> Inl (Main_Link e)
       | Inr t \<Rightarrow> Inr (put_file output (Text_File t) fs))"

text \<open>\<^verbatim>\<open>Path(path).with_suffix(suffix)\<close>: the suffix must start with a dot and have more than the dot; the
  old one is what follows the last dot of the name, which is neither its first nor its last character.\<close>

definition with_suffix :: "string \<Rightarrow> string \<Rightarrow> py_error + string" where
  "with_suffix path suffix =
     (let nm = file_name path;
          ext = CHR ''.'' # rev (takeWhile (\<lambda>c. c \<noteq> CHR ''.'') (rev nm));
          old = (if CHR ''.'' \<in> set nm \<and> length ext < length nm \<and> 1 < length ext then length ext else 0)
      in if nm = [] \<or> suffix = [] \<or> hd suffix \<noteq> CHR ''.'' \<or> length suffix = 1 then Inl ValueError
         else Inr (take (length path - old) path @ suffix))"

definition format_suffix :: "load_format \<Rightarrow> string" where
  "format_suffix fmt = (case fmt of Fmt_Mem \<Rightarrow> ''.mem'' | Fmt_Coe \<Rightarrow> ''.coe'' | Fmt_Vinit \<Rightarrow> ''_init.v'')"

definition loader_main ::
  "string \<Rightarrow> load_format \<Rightarrow> string option \<Rightarrow> int \<Rightarrow> int option \<Rightarrow> files \<Rightarrow> main_error + files" where
  "loader_main hex_file fmt output base sz fs =
     (case fs_files fs hex_file of
        None \<Rightarrow> Inl (Not_Found hex_file)
      | Some f \<Rightarrow>
          ebind (lift_main (lift_failure Uncaught_Py (ebind (read_text f) ascii_text))) (\<lambda>text.
            ebind (case load_hex text of Inl e \<Rightarrow> Inl (Main_Loader e) | Inr m \<Rightarrow> Inr m) (\<lambda>mem.
              let ld = (loader_init MEM_DEPTH)\<lparr>ld_mem := mem\<rparr>;
                  suffixed = lift_main (lift_failure Uncaught_Py (with_suffix hex_file (format_suffix fmt)))
              in ebind (case output of Some p \<Rightarrow> if p = [] then suffixed else Inr p | None \<Rightarrow> suffixed) (\<lambda>out.
                   Inr (case fmt of
                          Fmt_Mem \<Rightarrow> put_file out (Text_File (write_mem ld base sz)) fs
                        | Fmt_Coe \<Rightarrow> put_file out (Text_File (write_coe ld base sz)) fs
                        | Fmt_Vinit \<Rightarrow>
                            put_file out (Text_File (write_verilog_init ld (file_name out) base (size_or 4096 sz))) fs)))))"

section \<open>debug\<close>

text \<open>The dictionary of \<^verbatim>\<open>cmd_debug\<close> is from addresses to names, the debugger expects names to addresses:
  no name and no address is ever found in it, and the command that lists it formats a name as a
  number.  So the debugger behaves as with an empty table, except that listing a table that is not
  empty raises \<^verbatim>\<open>ValueError\<close>.\<close>

definition swapped_dispatch :: "bool \<Rightarrow> string \<Rightarrow> string list \<Rightarrow> dbg \<Rightarrow> py_error + bool \<times> dbg_out list \<times> dbg" where
  "swapped_dispatch any_symbol cmd args d =
     (if any_symbol \<and> cmd \<in> {''sym'', ''symbols''} then Inl ValueError else dispatch cmd args d)"

fun swapped_lines :: "bool \<Rightarrow> string list \<Rightarrow> dbg \<Rightarrow> py_error + dbg_out list \<times> dbg" where
  "swapped_lines any_symbol [] d = Inr ([O_Bye], d)"
| "swapped_lines any_symbol (raw # lines) d =
     (case py_split (py_strip raw) of
        [] \<Rightarrow> swapped_lines any_symbol lines d
      | cmd # args \<Rightarrow>
          ebind (swapped_dispatch any_symbol (py_lower cmd) args d) (\<lambda>(go_on, out, d).
            if go_on then ebind (swapped_lines any_symbol lines d) (\<lambda>(rest, d). Inr (out @ rest, d))
            else Inr (out, d)))"

definition debug_program :: "files \<Rightarrow> string \<Rightarrow> failure + int list \<times> bool" where
  "debug_program fs path =
     (case fs_files fs path of
        None \<Rightarrow> Inl Exit_1
      | Some f \<Rightarrow>
          if ends_with path ''.asm'' then
            ebind (lift_failure Uncaught_Py (read_text f)) (\<lambda>src.
              ebind (lift_failure Uncaught_Asm (assemble src)) (\<lambda>(words, syms).
                Inr (words, symbol_items src syms \<noteq> [])))
          else if ends_with path ''.bin'' then Inr (main_load_bin (read_bytes f), False)
          else ebind (lift_failure Uncaught_Py (read_text f)) (\<lambda>t.
                 ebind (lift_failure Uncaught_Py (main_load_hex t)) (\<lambda>words. Inr (words, False))))"

definition cmd_debug :: "string \<Rightarrow> string list \<Rightarrow> files \<Rightarrow> failure + dbg_out list \<times> dbg" where
  "cmd_debug path typed fs =
     ebind (debug_program fs path) (\<lambda>(words, any_symbol).
       ebind (lift_failure Uncaught_Load (load_program (sim_init MEM_SIZE) words 0)) (\<lambda>s.
         let d = dbg_init s []
         in ebind (lift_failure Uncaught_Py (show_state d)) (\<lambda>st.
              ebind (lift_failure Uncaught_Py (swapped_lines any_symbol typed d)) (\<lambda>(out, d).
                Inr (st @ out, d)))))"

section \<open>Tools that are not part of the repository\<close>

text \<open>What is relied on: \<^verbatim>\<open>shutil.which\<close>, the existence of a file, \<^verbatim>\<open>os.path.abspath\<close>, the return code and
  the standard output of a command, given the commands run before it, and whether it ends within a
  number of seconds.\<close>

record tools =
  tl_which :: "string \<Rightarrow> string option"
  tl_exists :: "string \<Rightarrow> bool"
  tl_abspath :: "string \<Rightarrow> string"
  tl_run :: "string list list \<Rightarrow> string list \<Rightarrow> int \<times> string"
  tl_in_time :: "int \<Rightarrow> string list list \<Rightarrow> string list \<Rightarrow> bool"

text \<open>\<^verbatim>\<open>os.path.join\<close> with a relative part, \<^verbatim>\<open>os.path.dirname\<close>\<close>

definition path_join :: "string \<Rightarrow> string \<Rightarrow> string" where
  "path_join a b = (if a = [] \<or> last a = CHR ''/'' then a @ b else a @ CHR ''/'' # b)"

definition dir_name :: "string \<Rightarrow> string" where
  "dir_name p =
     (let h = rev (dropWhile (\<lambda>c. c \<noteq> CHR ''/'') (rev p)); r = rev (dropWhile (\<lambda>c. c = CHR ''/'') (rev h))
      in if r = [] then h else r)"

definition RTL_SOURCES_FLAT :: "string list" where
  "RTL_SOURCES_FLAT =
     [''isa_pkg.vh'',
      ''register_file.v'', ''program_counter.v'',
      ''execute/alu.v'', ''execute/multiplier.v'', ''execute/divider.v'', ''execute/branch_unit.v'',
      ''decode/instruction_decoder.v'', ''control/control_unit.v'',
      ''hazard/hazard_unit.v'', ''execute/forwarding_unit.v'',
      ''pipeline_if.v'', ''pipeline_id.v'', ''pipeline_ex.v'', ''pipeline_mem.v'', ''pipeline_wb.v'',
      ''cache/icache.v'', ''cache/dcache.v'', ''cache/cache_controller.v'',
      ''mmu/tlb.v'', ''mmu/page_table.v'', ''mmu/mmu.v'',
      ''interrupts/interrupt_controller.v'', ''interrupts/exception_handler.v'',
      ''memory_interface.v'', ''perf_counters.v'', ''cpu_top.v'']"

text \<open>\<open>root\<close> is the directory of \<^verbatim>\<open>main.py\<close>.\<close>

definition RTL_DIR :: "string \<Rightarrow> string" where "RTL_DIR root = path_join root ''rtl_v''"
definition TB_DIR :: "string \<Rightarrow> string" where "TB_DIR root = path_join root ''testbench''"

definition rtl_source_files :: "string \<Rightarrow> string list" where
  "rtl_source_files root = map (path_join (RTL_DIR root)) (filter (\<lambda>f. \<not> ends_with f ''.vh'') RTL_SOURCES_FLAT)"

definition first_path :: "tools \<Rightarrow> string list \<Rightarrow> string option" where
  "first_path t ps = (case filter (tl_exists t) ps of [] \<Rightarrow> None | p # _ \<Rightarrow> Some p)"

definition find_iverilog :: "tools \<Rightarrow> string option" where
  "find_iverilog t =
     (case tl_which t ''iverilog'' of
        Some exe \<Rightarrow> Some exe
      | None \<Rightarrow>
          first_path t
            [''C:'' @ [backslash] @ ''iverilog'' @ [backslash] @ ''bin'' @ [backslash] @ ''iverilog.exe'',
             ''/usr/bin/iverilog'', ''/usr/local/bin/iverilog''])"

definition find_vvp :: "tools \<Rightarrow> string option" where
  "find_vvp t =
     (case (find_iverilog t, tl_which t ''vvp'') of
        (_, Some p) \<Rightarrow> Some p
      | (Some iverilog, None) \<Rightarrow> first_path t [path_join (dir_name iverilog) ''vvp'']
      | (None, None) \<Rightarrow> None)"

definition cmd_rtl_build :: "tools \<Rightarrow> string \<Rightarrow> main_error + unit" where
  "cmd_rtl_build t root =
     (case find_iverilog t of
        None \<Rightarrow> Inl (Main_Failure Exit_1)
      | Some iverilog \<Rightarrow>
          (let sources = rtl_source_files root
           in if list_ex (\<lambda>s. \<not> tl_exists t s) sources then Inl (Main_Failure Exit_1)
              else if fst (tl_run t [] ([iverilog, ''-g2012'', ''-I'' @ RTL_DIR root, ''-o'', ''/dev/null''] @ sources)) = 0
              then Inr () else Inl (Main_Failure Exit_1)))"

definition compile_cmd :: "string \<Rightarrow> string \<Rightarrow> string \<Rightarrow> string \<Rightarrow> string list" where
  "compile_cmd iverilog root hex_file sim_out =
     [iverilog, ''-g2012'', ''-I'' @ RTL_DIR root, ''-DIMEM_INIT_FILE='' @ dquote # hex_file @ [dquote],
      ''-o'', sim_out] @ rtl_source_files root @ [path_join (TB_DIR root) ''cpu_tb.v'']"

section \<open>The output of the test bench\<close>

text \<open>The parts of the regular expressions: a literal, the longest run of a class (at least one
  character), and a run that may be empty.  The classes that follow one another are disjoint, so that
  the longest run is the only one.\<close>

definition eat_lit :: "string \<Rightarrow> string \<Rightarrow> string option" where
  "eat_lit l s = (if starts_with s l then Some (drop (length l) s) else None)"

definition eat_run :: "(char \<Rightarrow> bool) \<Rightarrow> string \<Rightarrow> (string \<times> string) option" where
  "eat_run p s = (case takeWhile p s of [] \<Rightarrow> None | w \<Rightarrow> Some (w, dropWhile p s))"

text \<open>\<^verbatim>\<open>Resultado:\s+\d+\s+PASS\s+/\s+(\d+)\s+FAIL\<close>\<close>

definition summary_here :: "string \<Rightarrow> string option" where
  "summary_here s =
     Option.bind (eat_lit ''Resultado:'' s) (\<lambda>s. Option.bind (eat_run is_space s) (\<lambda>(_, s).
     Option.bind (eat_run is_dec_digit s) (\<lambda>(_, s). Option.bind (eat_run is_space s) (\<lambda>(_, s).
     Option.bind (eat_lit ''PASS'' s) (\<lambda>s. Option.bind (eat_run is_space s) (\<lambda>(_, s).
     Option.bind (eat_lit ''/'' s) (\<lambda>s. Option.bind (eat_run is_space s) (\<lambda>(_, s).
     Option.bind (eat_run is_dec_digit s) (\<lambda>(n, s). Option.bind (eat_run is_space s) (\<lambda>(_, s).
     Option.bind (eat_lit ''FAIL'' s) (\<lambda>_. Some n)))))))))))"

fun find_summary :: "string \<Rightarrow> string option" where
  "find_summary [] = None"
| "find_summary (c # cs) = (case summary_here (c # cs) of Some n \<Rightarrow> Some n | None \<Rightarrow> find_summary cs)"

text \<open>The result of \<^verbatim>\<open>rtl-sim\<close>: the output of the simulation, and whether it had a summary.\<close>

definition cmd_rtl_sim :: "tools \<Rightarrow> string \<Rightarrow> string \<Rightarrow> string \<Rightarrow> int \<Rightarrow> main_error + string \<times> bool" where
  "cmd_rtl_sim t root tmpdir input timeout =
     (case (find_iverilog t, find_vvp t) of
        (Some iverilog, Some vvp) \<Rightarrow>
          (let hex_file = tl_abspath t input; sim_out = path_join tmpdir ''sim.out'';
               build = compile_cmd iverilog root hex_file sim_out; sim = [vvp, sim_out]
           in if \<not> tl_exists t hex_file then Inl (Main_Failure Exit_1)
              else if fst (tl_run t [] build) \<noteq> 0 then Inl (Main_Failure Exit_1)
              else if \<not> tl_in_time t timeout [build] sim then Inl (Main_Failure Exit_1)
              else let (code, out) = tl_run t [build] sim
                   in if code \<noteq> 0 then Inl (Main_Failure Exit_1)
                      else case find_summary out of
                             Some n \<Rightarrow> if 0 < the (py_int 10 n) then Inl (Main_Failure Exit_1) else Inr (out, True)
                           | None \<Rightarrow> Inr (out, False))
      | _ \<Rightarrow> Inl (Main_Failure Exit_1))"

definition cmd_fpga_build :: "tools \<Rightarrow> string \<Rightarrow> main_error + unit" where
  "cmd_fpga_build t root =
     (let bin = (\<lambda>v. ''C:'' @ [backslash] @ ''Xilinx'' @ [backslash] @ ''Vivado'' @ [backslash] @ v @ [backslash] @ ''bin''
                    @ [backslash] @ ''vivado.bat'')
      in case (case tl_which t ''vivado'' of Some v \<Rightarrow> Some v | None \<Rightarrow> first_path t [bin ''2023.2'', bin ''2022.2'']) of
           None \<Rightarrow> Inl (Main_Failure Exit_1)
         | Some vivado \<Rightarrow>
             (let tcl = path_join (path_join root ''fpga'') ''build.tcl''
              in if \<not> tl_exists t tcl then Inl (Main_Failure Exit_1)
                 else if fst (tl_run t [] [vivado, ''-mode'', ''batch'', ''-source'', tcl]) = 0 then Inr ()
                 else Inl (Main_Failure Exit_1)))"

section \<open>compare\<close>

text \<open>\<^verbatim>\<open>R(\d+)\s*=\s*0x([0-9A-Fa-f]+)\<close> at the current position, with the rest behind the match.\<close>

definition reg_line_here :: "string \<Rightarrow> (string \<times> string \<times> string) option" where
  "reg_line_here s =
     Option.bind (eat_lit ''R'' s) (\<lambda>s. Option.bind (eat_run is_dec_digit s) (\<lambda>(idx, s).
     Option.bind (eat_lit ''='' (dropWhile is_space s)) (\<lambda>s. Option.bind (eat_lit ''0x'' (dropWhile is_space s)) (\<lambda>s.
     Option.bind (eat_run is_hex_any s) (\<lambda>(v, s). Some (idx, v, s))))))"

lemma eat_lengths:
  "eat_lit w s = Some r \<Longrightarrow> length r \<le> length s" "eat_run p s = Some (x, r) \<Longrightarrow> length r < length s"
proof -
  show "eat_lit w s = Some r \<Longrightarrow> length r \<le> length s"
    by (auto simp: eat_lit_def split: if_splits)
  show "eat_run p s = Some (x, r) \<Longrightarrow> length r < length s"
    using length_dropWhile_le [of p "tl s"] by (cases s) (auto simp: eat_run_def split: if_splits)
qed

lemma reg_line_shorter:
  assumes "reg_line_here s = Some (i, v, r)"
  shows "length r < length s"
proof -
  obtain a b c d where e: "eat_lit ''R'' s = Some a" "eat_run is_dec_digit a = Some (i, b)"
    "eat_lit ''='' (dropWhile is_space b) = Some c" "eat_lit ''0x'' (dropWhile is_space c) = Some d"
    "eat_run is_hex_any d = Some (v, r)"
    using assms by (auto simp: reg_line_here_def bind_eq_Some_conv)
  show ?thesis
    using eat_lengths(1) [OF e(1)] eat_lengths(2) [OF e(2)] eat_lengths(1) [OF e(3)] eat_lengths(1) [OF e(4)]
      eat_lengths(2) [OF e(5)] length_dropWhile_le [of is_space b] length_dropWhile_le [of is_space c]
    by linarith
qed

function reg_lines :: "string \<Rightarrow> (int \<times> int) list" where
  "reg_lines [] = []"
| "reg_lines (c # cs) =
     (case reg_line_here (c # cs) of
        None \<Rightarrow> reg_lines cs
      | Some (idx, v, rest) \<Rightarrow> (the (py_int 10 idx), the (py_int 16 v)) # reg_lines rest)"
  by pat_completeness auto
termination by (relation "measure length") (auto dest: reg_line_shorter)

text \<open>Sixteen registers, zero unless the output names them; a later line wins.\<close>

definition rtl_registers :: "string \<Rightarrow> int list" where
  "rtl_registers out =
     fold (\<lambda>(idx, v) regs. if idx < 16 then regs[nat idx := v] else regs) (reg_lines out) (replicate 16 0)"

datatype verdict = Only_Python | All_Match | Divergence

record comparison =
  cp_rows :: "(nat \<times> int \<times> int option \<times> bool) list"
  cp_verdict :: verdict

text \<open>The table of the registers that are not zero and the verdict below it.\<close>

definition compare_regs :: "int list \<Rightarrow> int list option \<Rightarrow> comparison" where
  "compare_regs py_regs rtl_regs =
     (let pv = (\<lambda>i. if i < length py_regs then py_regs ! i else 0);
          rv = (\<lambda>i. case rtl_regs of Some rs \<Rightarrow> if i < length rs then Some (rs ! i) else None | None \<Rightarrow> None);
          agree = (\<lambda>i. case rv i of None \<Rightarrow> True | Some v \<Rightarrow> pv i = v)
      in \<lparr>cp_rows = map (\<lambda>i. (i, pv i, rv i, agree i))
                     (filter (\<lambda>i. pv i \<noteq> 0 \<or> (case rv i of None \<Rightarrow> False | Some v \<Rightarrow> v \<noteq> 0)) [0..<32]),
          cp_verdict = (if rtl_regs = None then Only_Python
                        else if list_all agree [0..<32] then All_Match else Divergence)\<rparr>)"

text \<open>The registers of the Verilog simulation: none without the tools or when the sources do not compile.\<close>

definition rtl_simulate :: "tools \<Rightarrow> string \<Rightarrow> string \<Rightarrow> string \<Rightarrow> main_error + int list option" where
  "rtl_simulate t root tmpdir hex_file =
     (case (find_iverilog t, find_vvp t) of
        (Some iverilog, Some vvp) \<Rightarrow>
          (let sim_out = path_join tmpdir ''sim.out''; sim = [vvp, sim_out];
               build = compile_cmd iverilog root (tl_abspath t hex_file) sim_out
           in if fst (tl_run t [] build) \<noteq> 0 then Inr None
              else if \<not> tl_in_time t 30 [build] sim then Inl Timeout_Expired
              else Inr (Some (rtl_registers (snd (tl_run t [build] sim)))))
      | _ \<Rightarrow> Inr None)"

definition cmd_compare :: "tools \<Rightarrow> string \<Rightarrow> string \<Rightarrow> string \<Rightarrow> files \<Rightarrow> main_error + comparison" where
  "cmd_compare t root tmpdir hex_file fs =
     ebind (lift_main (source_text fs hex_file)) (\<lambda>text.
       ebind (lift_main (lift_failure Uncaught_Py (main_load_hex text))) (\<lambda>words.
         ebind (lift_main (run_words words 500000)) (\<lambda>s.
           ebind (rtl_simulate t root tmpdir hex_file) (\<lambda>rtl_regs.
             Inr (compare_regs (rf_regs (sm_rf s)) rtl_regs)))))"

section \<open>The separate linker and loader\<close>

text \<open>With the default bases the linker's own program writes the file the command link writes.\<close>

lemma linker_inputs_link: "(linker_inputs fs objs lk = Inr lk') = (link_inputs fs objs lk = Inr lk')"
  by (induction objs arbitrary: lk) (auto simp: lift_failure_def split: option.splits sum.splits)

lemma linker_main_link:
  assumes "objs \<noteq> []" "out \<noteq> []"
  shows "linker_main objs out TEXT_BASE DATA_BASE fs = Inr fs' \<longleftrightarrow> cmd_link objs (Some out) fs = Inr fs'"
  using assms linker_inputs_link [of fs objs]
  by (auto simp: linker_main_def cmd_link_def ebind_Inr_iff or_default_def lift_failure_def split: sum.splits list.splits)

text \<open>Without an output path the format \<^verbatim>\<open>vinit\<close> of the loader never writes a file: its suffix has no dot.\<close>

lemma loader_main_vinit: "loader_main hex_file Fmt_Vinit None base sz fs \<noteq> Inr fs'"
  by (auto simp: loader_main_def with_suffix_def format_suffix_def lift_main_def lift_failure_def ebind_Inr_iff Let_def
      split: option.splits)

section \<open>What compare compares\<close>

lemma rtl_registers_length: "length (rtl_registers out) = 16"
proof -
  have "length (fold (\<lambda>(idx, v) regs. if idx < 16 then regs[nat idx := v] else regs) xs regs) = length regs"
    for xs and regs :: "int list"
    by (induction xs arbitrary: regs) (auto split: prod.splits)
  then show ?thesis by (simp add: rtl_registers_def)
qed

lemma rtl_simulate_length: "rtl_simulate t root tmpdir hex_file = Inr (Some regs) \<Longrightarrow> length regs = 16"
  by (auto simp: rtl_simulate_def Let_def rtl_registers_length split: option.splits if_splits)

text \<open>Sixteen registers of the Verilog simulation are known, so that R16 to R31 always agree.\<close>

lemma compare_verdict_regs:
  assumes "length py_regs = 32" "length regs = 16"
  shows "cp_verdict (compare_regs py_regs (Some regs)) = All_Match \<longleftrightarrow> (\<forall>i<16. py_regs ! i = regs ! i)"
  using assms by (auto simp: compare_regs_def Let_def list_all_iff)

lemma run_words_length:
  assumes "run_words words m = Inr s"
  shows "length (rf_regs (sm_rf s)) = 32"
proof -
  obtain s0 where s: "load_program (sim_init MEM_SIZE) words 0 = Inr s0" "s = snd (sim_run m s0)"
    using assms by (auto simp: run_words_def lift_failure_def ebind_Inr_iff split: sum.splits)
  have "0 < MEM_SIZE" "length (sm_mem (sim_init MEM_SIZE)) = nat MEM_SIZE" by (simp_all add: MEM_SIZE_def sim_init_def)
  then have "sim_reachable s0" using s(1) by (intro sim_reachable.load [OF sim_reachable.init]) auto
  then have "sim_wf (sim_loop m s0)" by (intro sim_reachable_wf sim_reachable_loop)
  then show ?thesis by (simp add: s(2) sim_run_def Let_def sim_wf_def rf_wf_def log_add_def)
qed

lemma compare_spec:
  assumes "source_text fs hex_file = Inr text" "main_load_hex text = Inr words" "list_all u32 words"
    and "length words + 2 \<le> 2 ^ 26" "code_ok (words @ [0, 0])"
    and "\<forall>i\<le>n. spec_safe (length words + 2) (spec_run words i)" "\<forall>i<n. \<not> isa_halted (spec_run words i)"
    and "isa_halted (spec_run words n)" "67 * int n + 198 \<le> 500000"
    and "rtl_simulate t root tmpdir hex_file = Inr (Some regs)"
  shows "\<exists>c. cmd_compare t root tmpdir hex_file fs = Inr c
    \<and> (cp_verdict c = All_Match \<longleftrightarrow> (\<forall>i<16. ar_regs (spec_run words n) ! i = regs ! i))"
proof -
  obtain s where s: "run_words words 500000 = Inr s" "rf_regs (sm_rf s) = ar_regs (spec_run words n)"
    using run_words_spec [OF assms(3-9)] by blast
  have "cmd_compare t root tmpdir hex_file fs = Inr (compare_regs (rf_regs (sm_rf s)) (Some regs))"
    by (simp add: cmd_compare_def lift_main_def lift_failure_def assms(1,2,10) s(1))
  then show ?thesis
    using compare_verdict_regs [OF run_words_length [OF s(1)] rtl_simulate_length [OF assms(10)]] s(2) by simp
qed

section \<open>The demonstration program compared\<close>

definition DEMO_HEX :: string where "DEMO_HEX = join_lines (map (fmt_hex 8) demo_words) @ [newline]"

lemma demo_u32: "list_all u32 demo_words"
  by (simp add: u32_encode_i u32_encode_r u32_encode_j encode_b_eq_i isa_consts)

lemma join_lines_no_cr: "list_all (\<lambda>l. CHR 0x0D \<notin> set l) ls \<Longrightarrow> CHR 0x0D \<notin> set (join_lines ls)"
  by (cases ls) (auto simp: join_lines_def list_all_iff)

lemma demo_hex: "main_load_hex DEMO_HEX = Inr demo_words" "universal_newlines DEMO_HEX = DEMO_HEX"
proof -
  show "main_load_hex DEMO_HEX = Inr demo_words"
    unfolding DEMO_HEX_def newline_def by (rule main_load_hex_mem [OF _ demo_u32]) simp
  have "CHR 0x0D \<notin> set (fmt_hex 8 w)" if "u32 w" for w
    using fmt_hex8_line [OF that] by (auto simp: one_line_def list_all_iff is_line_break_def)
  then have "list_all (\<lambda>l. CHR 0x0D \<notin> set l) (map (fmt_hex 8) demo_words)"
    using demo_u32 unfolding list_all_iff list.set_map by blast
  from join_lines_no_cr [OF this] show "universal_newlines DEMO_HEX = DEMO_HEX"
    by (intro no_cr_newlines) (simp add: DEMO_HEX_def newline_def del: list.map)
qed

lemma demo_low_regs:
  "take 16 (ar_regs (isa_iter 17 (boot (demo_words @ [0, 0]) 0))) = [0, 0, 15] @ replicate 13 0"
  by code_simp

text \<open>Tools that are all found, with a simulation that prints one line.\<close>

definition printing_tools :: "string \<Rightarrow> tools" where
  "printing_tools out =
     \<lparr>tl_which = Some, tl_exists = (\<lambda>_. True), tl_abspath = (\<lambda>p. p),
      tl_run = (\<lambda>before cmd. (0, if before = [] then [] else out)), tl_in_time = (\<lambda>_ _ _. True)\<rparr>"

lemma printing_simulate: "rtl_simulate (printing_tools out) root tmpdir f = Inr (Some (rtl_registers out))"
  by (simp add: rtl_simulate_def find_iverilog_def find_vvp_def printing_tools_def Let_def)

lemma demo_rtl: "rtl_registers ''  R2 = 0x0000000F'' = [0, 0, 15] @ replicate 13 0"
  by code_simp

end
