(* ===== verification/Spec2Isabelle.thy ===== *)
theory Spec2Isabelle
  imports
    Sim_Reachable
    Asm_Correct
    Disassembler
    Hex_Roundtrip
    Linker
    Lexer_Roundtrip
    C_Preprocess
    Pipeline_Correct
    Source_Correct
    Tool_Debugger
    Compile_Correct
    Legacy_Parser
    Tool_Mains
begin

unbundle bit_operations_syntax

text \<open>
  EduRISC-32v2: a 32-bit processor with a five-stage pipeline, its cycle-accurate simulator, and the
  tools around it (assembler, linker, loader, compiler for a C subset, debuggers), all in Python.

  Parts and how they interact.  \<^verbatim>\<open>cpu/\<close> holds the instruction set and the units of the pipeline;
  \<^verbatim>\<open>simulator/cpu_simulator.py\<close> owns one object of each, clocks them, and adds memory, CSRs, traps, two
  caches and the TLB.  \<^verbatim>\<open>assembler/assembler.py\<close> turns a source into words with the encoders of
  the instruction set; \<^verbatim>\<open>compiler/compiler.py\<close> turns C into such a source.  \<^verbatim>\<open>toolchain/\<close> wraps both and
  links object files; files carry the words between the tools (Intel HEX, plain HEX, binary, object
  files); \<^verbatim>\<open>main.py\<close> runs the chain from the command line, and the debuggers clock a simulator.

  Conventions.  Python integers are \<^typ>\<open>int\<close>, masked where the code masks; a class with state is a record,
  a method takes and returns it; a method that may raise returns a sum, the error on the left;
  strings are lists of characters, a text outside ASCII being kept by its UTF-8 bytes; a dictionary whose
  order matters is an association list.  Definitions keep the names of the source, private ones without
  the underscore.

  Theories.
  \<^item> \<open>Prelude\<close>: results, masks and ranges of integers, lists, the images of words by address.
  \<^item> \<open>Instruction_Set\<close>, \<open>Isa_Codec\<close>: \<^verbatim>\<open>cpu/instruction_set.py\<close>; encoders and decoder are inverse, format by
    format (locale \<open>instr_codec\<close>).
  \<^item> \<open>Registers\<close>, \<open>ALU\<close>, \<open>Control_Unit\<close>, \<open>Pipeline\<close>: the other files of \<^verbatim>\<open>cpu/\<close>; the register bank
    (locale \<open>register_bank\<close>), the ALU against operations on 32-bit words, hazard and forwarding units.
  \<^item> \<open>Cache_Model\<close>, \<open>TLB_Model\<close>: the cache and TLB classes of the simulator, against the history of
    accesses (locale \<open>hit_counter\<close>) and the page table (locale \<open>address_translation\<close>).
  \<^item> \<open>Simulator\<close>: \<^verbatim>\<open>CPUSimulator\<close>, one definition per stage and per case of the execute stage, in the
    order of the code; \<open>Sim_Invariant\<close>, \<open>Sim_Reachable\<close>: the invariant of its state and its life as
    a transition system; \<open>Mem_Access\<close>: bytes and halfwords; \<open>Program_Load\<close>: loading a program.
  \<^item> \<open>ISA_Spec\<close>, \<open>Pipeline_Stages\<close>, \<open>Pipeline_Exec\<close>, \<open>Pipeline_Refinement\<close>, \<open>Pipeline_Run\<close>,
    \<open>Pipeline_Program\<close>, \<open>Pipeline_Correct\<close>: the architecture, one instruction at a time, as the simulator's
    units compute it (\<open>isa_step\<close>) and as \<^verbatim>\<open>docs/isa_spec.md\<close> describes it (\<open>spec_step\<close>), and the proof
    that the pipeline implements it, from one stage to whole runs.
  \<^item> \<open>Py_Text\<close>: the string methods of Python that are used; \<open>Assembler\<close>, \<open>Asm_Correct\<close>, \<open>Disassembler\<close>:
    the two passes, what they agree on, and the disassembler as an inverse.
  \<^item> \<open>Legacy_Syntax\<close>, \<open>Legacy_Parser\<close>: \<^verbatim>\<open>assembler/tokenizer.py\<close> and \<^verbatim>\<open>assembler/parser.py\<close>, the syntax of
    an earlier machine, with a printer that the parser inverts.
  \<^item> \<open>Intel_Hex\<close>, \<open>Hex_Roundtrip\<close>, \<open>Linker\<close>, \<open>Loader_Export\<close>: the writers and readers of the files,
    \<^verbatim>\<open>toolchain/linker.py\<close> and \<^verbatim>\<open>toolchain/loader.py\<close>.
  \<^item> \<open>C_Lexer\<close>, \<open>C_Parser\<close>, \<open>C_Codegen\<close>, \<open>C_Preprocess\<close>: the compiler; \<open>Parser_Total\<close>, \<open>Parser_Roundtrip\<close>,
    \<open>Lexer_Roundtrip\<close>: the parser ends, and inverts a printer of expressions.
  \<^item> \<open>C_Semantics\<close>: what a C program on local variables means, the specification of the compiler.
    \<open>Asm_Code\<close>, \<open>Asm_Layout\<close>, \<open>Asm_Machine\<close>: the instructions that are emitted as data, what the assembler
    makes of their lines, and a machine on them that the architecture implements.  \<open>Gen_Code\<close>, \<open>Gen_Text\<close>,
    \<open>Gen_Exprs\<close>, \<open>Gen_Stmts\<close>: the code generator on such instructions, refined by the one that emits
    text.  \<open>Code_Shape\<close>, \<open>Code_Runs\<close>, \<open>Stmt_Runs\<close>: registers and labels of the code, and its run against
    the semantics; \<open>Compile_Correct\<close>: the compiler, the assembler and the pipeline together.
  \<^item> \<open>Command_Line\<close>, \<open>Ast_Repr\<close>, \<open>Tool_Drivers\<close>, \<open>Tool_Mains\<close>, \<open>Sim_Debugger\<close>, \<open>Tool_Debugger\<close>: \<^verbatim>\<open>main.py\<close>,
    the wrappers and programs of \<^verbatim>\<open>toolchain/\<close> and the two debuggers; \<open>Tool_Routes\<close>, \<open>Source_Correct\<close>: the tools composed, up to the
    correctness of a program run from its source.

  Bounds and fuel.  The parser's recursion takes fuel: a level of the expression parser consumes one
  unit and eleven levels are passed before a token is consumed, so \<open>11 * length ts + 11\<close> is enough, as is one
  unit per token for statements; \<open>parser_ends\<close> shows that fuel never decides the result.  The recursion
  of includes has the interpreter's recursion limit as a parameter.  The pipeline takes at most
  67 clocks from one instruction to the next (two 31-cycle divisions may be in the way), and 198 to start and
  to drain behind \<open>HLT\<close>.

  Side conditions of the pipeline theorems, each for a place where pipeline and architecture differ.  \<open>core_instr\<close>
  leaves out the instructions with system effects and PUSH and POP; \<open>pair_ok\<close> excludes a load whose
  destination is stored or compared as the left operand of a branch by the next instruction, RET
  right behind a write of the link register, and a store right behind HLT; \<open>isa_safe\<close> keeps the
  program counter and two words of prefetch inside the code and the stores out of it; translation is off.

  Simulator and manual.  The theorems on the pipeline, on \<^verbatim>\<open>run\<close> and on \<^verbatim>\<open>compare\<close> are about \<open>spec_step\<close>, the
  instructions as the manual has them, and hold along runs on which manual and simulator agree (\<open>agreed\<close>,
  part of \<open>spec_safe\<close>).  They differ on ANDI, ORI, XORI, LHU and LBU with a negative 16-bit immediate, which
  the simulator extends with ones and the manual with zeros (\<open>ori_divergence\<close>), on JMPR with an offset, which
  the manual does not have, on bytes and halfwords off the lowest lane, and on divisions by zero, an
  exception in the manual.  The manual raises the exceptions OVERFLOW and UNALIGNED in its table without
  saying when; neither the simulator nor this reading has them.  Memory is an array of words indexed by the
  address, as in the simulator and \<^verbatim>\<open>README.md\<close>; \<^verbatim>\<open>isa_spec.md\<close> also calls it byte-addressable and big-endian.

  The correctness of compiled programs needs none of these: the generated code meets the conditions, and
  no manual comes into the statement.  It covers programs of one function on local variables
  (\<open>plain_stmt\<close>) whose literals are in the 16-bit range or have bit 15 clear (\<open>lit_ok\<close>; any other literal
  is loaded wrongly, as \<^verbatim>\<open>return 40000\<close>); where the semantics has no result (a loop that does not end, an
  undefined operation, a declaration that hides a variable) it says nothing.  Pointers, arrays, strings,
  globals and calls are modelled in the generator and left out of that theorem.

  Start addresses.  The states the simulator reaches are those with programs loaded at an address from 0
  to the size of the memory; a negative start address, which Python counts from the end, is outside the
  theorems.  The program counter may stand one past the last word, where nothing is fetched.

  Parameters.  The Verilog simulator and Vivado, which \<^verbatim>\<open>main.py\<close> starts, are the record \<open>tools\<close>, an argument
  of the commands that use them; no theorem assumes more of them than the output in question.

  Not modelled.  Text printed for display only (stage texts, register dumps, help, verbose output), hit
  ratios, the display of waves; argument parsing, the commands and programs being given their parsed
  arguments; failures of the file system other than a missing file; the RecursionError of Python on a
  source nested too deeply for the parser; line breaks and letters outside ASCII in texts; the hardware descriptions, the
  kernel, hypervisor and boot code, and the web page, which are in other languages.
\<close>

section \<open>From C to the registers\<close>

text \<open>
  C1. The compiler is correct: let a source file be a C program that consists of main without parameters, on local
  variables, with all operators and statements but those on memory and calls (plain_stmt), names without line
  breaks, and every literal in the range from -32768 to 32767 or with bit 15 clear (lit_ok), and let
  the semantics of C_Semantics (arithmetic wraps, right shifts fill with zeros) give it the result v.
  Then for the file the command compile writes,
  of at most 32767 lines, there is a number of cycles from which on the command run always ends well
  and reports v in R1.  The condition on literals is needed: \<^verbatim>\<open>return 40000\<close> reports 0xFFFF9C40, which
  literal_code explains.  A declaration that hides a variable has no result in the semantics.
\<close>

theorem compile_and_run:
  assumes "source_text fs src = Inr source" "main_program source body" "list_all plain_stmt body"
    and "c_execs n body Map.empty = Some (Returned (Some v))"
    and "cmd_compile src out False fs = Inr (Asm_Code text, fs')" "length (py_splitlines text) \<le> 0x7FFF"
  shows "\<exists>N. \<forall>k :: nat. \<exists>r. cmd_run (or_default out (before_dot src @ ''.asm'')) (N + int k) fs' = Inr r
    \<and> reported r 1 = uint v"
  by (rule compiled_run [OF assms])

theorem compile_and_run_witness:
  "\<exists>text fs' N. cmd_compile ''demo.c'' None False \<lparr>fs_files = [''demo.c'' \<mapsto> Text_File C_DEMO], fs_objs = Map.empty\<rparr>
       = Inr (Asm_Code text, fs')
     \<and> (\<forall>k :: nat. \<exists>r. cmd_run ''demo.asm'' (N + int k) fs' = Inr r \<and> reported r 1 = 16)"
proof -
  let ?fs = "\<lparr>fs_files = [''demo.c'' \<mapsto> Text_File C_DEMO], fs_objs = Map.empty\<rparr>"
  have "CHR 0x0D \<notin> set C_DEMO" by code_simp
  then have s: "source_text ?fs ''demo.c'' = Inr C_DEMO"
    by (simp add: source_text_def read_text_def lift_failure_def no_cr_newlines)
  obtain asm where t: "compile_source_of C_DEMO = Inr asm" "length (py_splitlines asm) \<le> 0x7FFF"
    using c_demo_compiles by blast
  let ?d = "or_default None (before_dot ''demo.c'' @ ''.asm'')"
  have a: "?d = ''demo.asm''" by code_simp
  have c: "cmd_compile ''demo.c'' None False ?fs = Inr (Asm_Code asm, put_file ?d (Text_File asm) ?fs)"
    by (simp add: cmd_compile_def s t(1))
  have v: "uint (16 :: 32 word) = 16" by simp
  from compile_and_run [OF s c_demo_main(2) c_demo_plain c_demo_value c t(2)] c show ?thesis
    unfolding a v by blast
qed

section \<open>The pipeline implements the architecture\<close>

text \<open>
  C2. The pipeline is correct on whole programs.  Let the program, loaded at a, pass the check of its
  words and of neighbouring words (code_ok), and let the architecture, executing one instruction at
  a time as the manual describes it (spec_step) from the loaded memory, stay in the code, store
  outside it and meet only instructions on which manual and simulator agree (spec_safe), until it
  stands at HLT after n instructions.  Then a run with a limit of at least 67 n + 198 cycles halts,
  with the registers and the memory of the architecture: forwarding, stalls, flushes and the
  multi-cycle unit are not observable.  Not agreed are, see agreed in ISA_Spec, a negative immediate
  of ANDI, ORI, XORI, LHU and LBU, an offset of JMPR, a byte or halfword off the lowest lane, and a
  division by zero.
\<close>

theorem pipeline_correct:
  assumes "sim_wf s" "0 \<le> a" "a \<le> int (length (sm_mem s))" "load_program s ws a = Inr s1"
    and "code_ok c" "take (length c) (sm_mem s1) = c"
    and "\<forall>i\<le>n. spec_safe (length c) ((spec_step ^^ i) (boot (sm_mem s1) a))"
    and "\<forall>i<n. \<not> isa_halted ((spec_step ^^ i) (boot (sm_mem s1) a))"
    and "isa_halted ((spec_step ^^ n) (boot (sm_mem s1) a))"
    and "67 * int n + 198 \<le> max_cycles"
  shows "sm_halted (snd (sim_run max_cycles s1))
    \<and> rf_regs (sm_rf (snd (sim_run max_cycles s1))) = ar_regs ((spec_step ^^ n) (boot (sm_mem s1) a))
    \<and> sm_mem (snd (sim_run max_cycles s1)) = ar_mem ((spec_step ^^ n) (boot (sm_mem s1) a))"
  using spec_program_stops [OF assms] by (simp add: sim_run_def Let_def)

theorem pipeline_correct_witness:
  "\<exists>s1. load_program (sim_init 16) small_program 0 = Inr s1
     \<and> sm_halted (snd (sim_run 400 s1)) \<and> rf_get (sm_rf (snd (sim_run 400 s1))) 2 = 12
     \<and> sm_mem (snd (sim_run 400 s1)) ! 12 = 12"
proof -
  obtain s1 where l: "load_program (sim_init 16) small_program 0 = Inr s1" and m: "sm_mem s1 = small_memory"
    by (rule small_load)
  have "take (length small_program) (sm_mem s1) = small_program" "sim_wf (sim_init 16)"
    unfolding m by (simp_all add: sim_wf_init)
  then have "sm_halted (snd (sim_run 400 s1))
      \<and> rf_regs (sm_rf (snd (sim_run 400 s1))) = ar_regs ((spec_step ^^ 3) (boot (sm_mem s1) 0))
      \<and> sm_mem (snd (sim_run 400 s1)) = ar_mem ((spec_step ^^ 3) (boot (sm_mem s1) 0))"
    using small_code_ok small_spec_run small_safe(2) small_run(3) m l
    by (intro pipeline_correct [where s = "sim_init 16" and c = small_program and ws = small_program]) simp_all
  then show ?thesis
    using l small_run(4,5) small_spec_run(2) [of 3] m by (intro exI [of _ s1]) (simp add: rf_get_def)
qed

text \<open>
  C3. One clock of the simulator on a state that satisfies the invariant of the latches (pipe_ok, which
  includes that translation is off and the processor not halted) and the conditions of the clock
  (step_ok): the word fetched is one of the instructions covered (core_instr) and no store in flight
  changes it, the instruction in IF/ID does not read the destination of a load in ID/EX in the field
  the hazard unit does not compare (the register stored, the left operand of a branch), RET is not in
  ID/EX behind a write of the link register, and neither is HLT.  Completing the instructions in flight
  gives, after the clock, the same state of the architecture as before or, if manual and simulator
  agree on the next instruction (agreed), that state one instruction of the manual further; which of
  the two is decided by the stall and flush conditions of the code.  The invariant holds again.  The
  static check code_ok gives step_ok on every state of a run, see prog_step_ok.
\<close>

theorem clock_refines_isa:
  assumes "pipe_ok s" "step_ok s" "agreed (abs_state s)"
  shows "pipe_ok (snd (sim_step s))
    \<and> abs_state (snd (sim_step s)) = (if advances s then spec_step (abs_state s) else abs_state s)"
  using tick_refines [OF assms(1,2)] spec_step_agreed [OF assms(3)] by simp

theorem clock_refines_isa_witness:
  "\<exists>s. load_program (sim_init 16) small_program 0 = Inr s
     \<and> abs_state (snd (sim_step s)) = (if advances s then spec_step (boot small_memory 0) else boot small_memory 0)"
proof -
  obtain s where l: "load_program (sim_init 16) small_program 0 = Inr s" and m: "sm_mem s = small_memory"
    by (rule small_load)
  have t: "take (length small_program) (sm_mem s) = small_program" "sim_wf (sim_init 16)"
    unfolding m by (simp_all add: sim_wf_init)
  note b = prog_inv_boot [OF t(2) _ _ l t(1), simplified m]
  have p: "prog_inv small_program s" "abs_state s = boot small_memory 0" using b by simp_all
  then have "\<not> id_valid (sm_idex s)" using loaded_latches [OF l] by simp
  with p small_safe(1) have "step_ok s"
    by (intro prog_step_ok [OF p(1) _ small_code_ok]) (auto simp del: isa_step_def)
  moreover have "agreed (abs_state s)"
    using small_spec_run(1) [rule_format, of 0] p(2) by (simp add: spec_safe_def)
  ultimately have "abs_state (snd (sim_step s)) = (if advances s then spec_step (abs_state s) else abs_state s)"
    using p by (intro conjunct2 [OF clock_refines_isa]) (simp_all add: prog_inv_def)
  with l p show ?thesis by auto
qed

text \<open>
  C4. The pipeline makes progress.  Let the code pass the static check (code_ok) and the state be one of a
  run of it (prog_inv: consistent latches that hold consecutive words of the code, no store in flight
  into the code, no RET right behind a write of the link register), let the next instruction of the
  architecture be inside the code, store outside it and mean the same to manual
  and simulator (spec_safe), and not be HLT.  Then some number of clocks, at most 67, later the
  architecture is exactly one instruction of the manual further, whatever stalls, flushes and running
  divisions the state holds.
\<close>

theorem pipeline_progress:
  assumes "prog_inv c s" "spec_safe (length c) (abs_state s)" "code_ok c" "\<not> isa_halted (abs_state s)"
  shows "\<exists>k\<le>67. abs_state (((\<lambda>s. snd (sim_step s)) ^^ k) s) = spec_step (abs_state s)"
  using one_instruction [OF assms(1) _ assms(3,4)] assms(2) spec_step_agreed [of "abs_state s"]
  by (auto simp: spec_safe_def)

theorem pipeline_progress_witness:
  "\<exists>s k. load_program (sim_init 16) small_program 0 = Inr s \<and> k \<le> 67
     \<and> abs_state (((\<lambda>s. snd (sim_step s)) ^^ k) s) = spec_step (boot small_memory 0)"
proof -
  obtain s where l: "load_program (sim_init 16) small_program 0 = Inr s" and m: "sm_mem s = small_memory"
    by (rule small_load)
  have t: "take (length small_program) (sm_mem s) = small_program" "sim_wf (sim_init 16)"
    unfolding m by (simp_all add: sim_wf_init)
  note b = prog_inv_boot [OF t(2) _ _ l t(1), simplified m]
  have p: "prog_inv small_program s" "abs_state s = boot small_memory 0" using b by simp_all
  have "spec_safe (length small_program) (abs_state s)" "\<not> isa_halted (abs_state s)"
    using small_spec_run(1) [rule_format, of 0] small_safe(2) [rule_format, of 0] p by simp_all
  from pipeline_progress [OF p(1) this(1) small_code_ok this(2)] l p(2) show ?thesis by auto
qed

section \<open>Loading\<close>

text \<open>
  C5. Loading a program that fits leaves exactly its words, reduced to 32 bits, at consecutive addresses
  from the start address, the rest of the memory as it was and the program counter at the start;
  one that does not fit raises IndexError.
\<close>

theorem load_program_effect:
  assumes "a \<le> length (sm_mem s)"
  shows "if a + length ws \<le> length (sm_mem s)
    then \<exists>s'. load_program s ws (int a) = Inr s' \<and> sm_pc s' = int a
      \<and> sm_mem s' = take a (sm_mem s) @ map (\<lambda>w. w AND WORD_MASK) ws @ drop (a + length ws) (sm_mem s)
    else load_program s ws (int a) = Inl IndexError"
  using assms load_program_fit [of a ws s] load_program_overflow [of a s ws] by (simp add: log_add_def)

theorem load_program_effect_witness: "load_program (sim_init 2) [1, 2, 3] 0 = Inl IndexError"
  using load_program_effect [of 0 "sim_init 2" "[1, 2, 3]"] by (simp add: sim_init_def)

section \<open>From the source to the registers\<close>

text \<open>
  C6. End to end: let a source file assemble to words that pass the static check (code_ok: no load right
  before a store or branch that reads it in the field the hazard unit ignores, no RET right behind a
  write of the link register, no instruction with system effects), and let the architecture of the
  manual, started on these words in the memory of a new simulator, stay inside them, store outside
  them and meet only instructions on which manual and simulator agree (spec_safe), until it stands at
  HLT after n instructions.  Then the command run, given a limit of at least 67 n + 198 cycles,
  succeeds and prints exactly the registers of the architecture that are not zero.
\<close>

theorem run_source_correct:
  assumes "assembles fs src words" "length words + 2 \<le> 2 ^ 26" "code_ok (words @ [0, 0])"
    and "\<forall>i\<le>n. spec_safe (length words + 2) (spec_run words i)" "\<forall>i<n. \<not> isa_halted (spec_run words i)"
    and "isa_halted (spec_run words n)" "67 * int n + 198 \<le> nonzero_or 10000 max_cycles"
  shows "\<exists>r. cmd_run src max_cycles fs = Inr r \<and> rp_regs r = nonzero_regs (ar_regs (spec_run words n))"
  by (rule cmd_run_correct [OF assms])

theorem run_source_correct_witness:
  "\<exists>r. cmd_run ''demo.asm'' 0 \<lparr>fs_files = [''demo.asm'' \<mapsto> Text_File DEMO_ASM], fs_objs = Map.empty\<rparr> = Inr r
     \<and> rp_regs r = [(2, 15), (30, 0x10000)]"
proof -
  let ?fs = "\<lparr>fs_files = [''demo.asm'' \<mapsto> Text_File DEMO_ASM], fs_objs = Map.empty\<rparr>"
  have a: "assembles ?fs ''demo.asm'' demo_words"
    by (auto simp: assembles_def read_text_def demo_text demo_assembles)
  have l: "length (demo_words @ [0, 0]) = 2 ^ 3" "(3 :: nat) \<le> 26" by simp_all
  note p = local_program [OF demo_local l]
  have "67 * int 17 + 198 \<le> nonzero_or 10000 0" by (simp add: nonzero_or_def)
  from run_source_correct [OF a p(5) demo_code_ok p(1-3) this] show ?thesis
    using demo_end by (simp add: p(4) isa_iter_funpow)
qed



section \<open>The simulator\<close>

text \<open>
  C8. In every state the simulator can reach by construction, loading programs at a start address from 0
  to the number of words of the memory, clocking and resetting: R0 is 0; registers, CSRs and memory
  words are 32-bit values; the program counter is at least 0 and at most the number of words, one past
  the last word, where the fetch stage fetches nothing; the instruction in IF/ID is a 32-bit value,
  and in ID/EX, EX/MEM and MEM/WB the register numbers pass the index check of the register file and
  the operands, the address, the result and the loaded word are 32-bit values.
\<close>

theorem sim_reachable_safe:
  assumes "sim_reachable s"
  shows "rf_get (sm_rf s) 0 = 0 \<and> length (rf_regs (sm_rf s)) = 32 \<and> list_all u32 (rf_regs (sm_rf s))
    \<and> length (sm_csrs s) = 32 \<and> list_all u32 (sm_csrs s)
    \<and> sm_mem s \<noteq> [] \<and> list_all u32 (sm_mem s)
    \<and> 0 \<le> sm_pc s \<and> sm_pc s \<le> int (length (sm_mem s))
    \<and> u32 (if_instruction (sm_ifid s))
    \<and> list_all rf_check [id_rd (sm_idex s), id_rs1 (sm_idex s), id_rs2 (sm_idex s), ex_rd (sm_exmem s), wb_rd (sm_memwb s)]
    \<and> list_all u32 [id_rs1_val (sm_idex s), id_rs2_val (sm_idex s), ex_alu_result (sm_exmem s), ex_rs2_val (sm_exmem s),
        ex_mem_addr (sm_exmem s), wb_alu_result (sm_memwb s), wb_mem_data (sm_memwb s)]
    \<and> 0 \<le> sm_exec_stall s \<and> sm_exec_stall s \<le> 31"
  using sim_reachable_wf [OF assms] rfile.get_zero [of "sm_rf s"]
  by (simp add: sim_wf_def rf_wf_def csrs_wf_def mem_wf_def memwb_ok_def exmem_ok_def idex_ok_def
      ifid_ok_def rf_check_iff)

theorem sim_reachable_safe_witness: "rf_get (sm_rf (snd (sim_step (sim_init 16)))) 0 = 0"
  using sim_reachable_safe [OF sim_reachable.step [OF sim_reachable.init [of 16]]] by simp

text \<open>
  C9. The run loop ends on every program and every state, with the processor halted or the cycle
  limit reached; it never counts past the limit, and it returns the statistics of the final state.
\<close>

theorem sim_run_ends:
  "fst (sim_run max_cycles s) = sm_stats (snd (sim_run max_cycles s))
   \<and> (sm_halted (snd (sim_run max_cycles s)) \<or> max_cycles \<le> st_cycles (fst (sim_run max_cycles s)))
   \<and> st_cycles (sm_stats s) \<le> st_cycles (fst (sim_run max_cycles s))
   \<and> st_cycles (fst (sim_run max_cycles s)) \<le> max max_cycles (st_cycles (sm_stats s))"
  using sim_loop_cycles [where m = max_cycles and s = s] by (auto simp: sim_run_def Let_def log_add_def)

text \<open>
  C10. Storing a byte, halfword or word and loading it back with the same size and address gives the
  stored value truncated to the size and extended as the load asks; a byte store changes only its
  own lane of the word, a halfword store only its two.
\<close>

theorem load_store_roundtrip:
  fixes k :: nat
  assumes "k < 4"
  shows "load_data (store_data old 0 va v) 0 sx va = (if sx then sext v 8 AND 0xFFFFFFFF else v AND 0xFF)
    \<and> load_data (store_data old 1 va v) 1 sx va = (if sx then sext v 16 AND 0xFFFFFFFF else v AND 0xFFFF)
    \<and> load_data (store_data old 2 va v) 2 sx va = v AND 0xFFFFFFFF
    \<and> lane (store_data old 0 va v) k = (if int k = va AND 3 then lane v 0 else lane old k)
    \<and> lane (store_data old 1 va v) k =
        (if int (2 * (k div 2)) = va AND 2 then lane v (k mod 2) else lane old k)"
  by (simp only: load_after_store lane_store_byte [OF assms] lane_store_half [OF assms] simp_thms)

theorem load_store_roundtrip_witness:
  "load_data (store_data 0x11223344 0 1 0xFF) 0 True 1 = 0xFFFFFFFF
   \<and> lane (store_data 0x11223344 0 1 0xFF) 2 = 0x22"
  using load_store_roundtrip [of 2 "0x11223344" 1 "0xFF" True]
  by (simp add: sext_def lane_def drop_bit_eq_div)

text \<open>
  C11. Taking an exception saves the program counter it is given in EPC and the cause in CAUSE, clears
  IE and KU (so that translation is off in the handler), leaves every other CSR alone, jumps to
  the address held in entry \<open>cause\<close> of the vector table, and empties IF/ID, ID/EX and EX/MEM.
\<close>

theorem trap_entry:
  assumes "sim_wf s"
  shows "csr (raise_exception c p s) CSR_EPC = p AND 0xFFFFFFFF
    \<and> csr (raise_exception c p s) CSR_CAUSE = c AND 0xFFFFFFFF
    \<and> csr (raise_exception c p s) CSR_STATUS = (csr s CSR_STATUS AND NOT 3) AND 0xFFFFFFFF
    \<and> (\<forall>i \<in> {0..<32} - {CSR_EPC, CSR_CAUSE, CSR_STATUS}. csr (raise_exception c p s) i = csr s i)
    \<and> \<not> mmu_active (raise_exception c p s)
    \<and> sm_pc (raise_exception c p s) = wrap_addr s
        (sm_mem s ! nat (wrap_addr s (wrap_addr s (csr s CSR_IVT) + (c AND 0xF))) AND 0x3FFFFFF)
    \<and> \<not> if_valid (sm_ifid (raise_exception c p s)) \<and> \<not> id_valid (sm_idex (raise_exception c p s))
    \<and> \<not> ex_valid (sm_exmem (raise_exception c p s)) \<and> sm_memwb (raise_exception c p s) = sm_memwb s
    \<and> sm_rf (raise_exception c p s) = sm_rf s \<and> sm_mem (raise_exception c p s) = sm_mem s"
  using raise_exception_csrs(1-3) [OF sim_wf_csrs_length [OF assms], of c p]
    raise_exception_csrs(4) [OF sim_wf_csrs_length [OF assms], where c = c and p = p]
    mmu_off_after_trap [OF sim_wf_csrs_length [OF assms], of c p]
    raise_exception_pc [OF sim_wf_csrs_length [OF assms], of c p] raise_exception_latches [of c p s]
  by auto

theorem trap_entry_witness: "csr (raise_exception 3 7 (sim_init 16)) CSR_EPC = 7"
  using trap_entry [OF sim_wf_init, of 16 3 7] by simp



section \<open>ALU, instruction codec and register file\<close>

text \<open>
  C13. On 32-bit operands the ALU returns, for every opcode, the value of the machine operation on
  32-bit words: wrap-around, signed and unsigned comparison, shifts modulo 32, the high half of the
  signed product, and division truncating toward zero although the source divides floats.
\<close>

theorem alu_refines_words:
  "ar_value (alu_execute opc (uint x) (uint y)) = uint (alu_word opc x y)"
  by (rule alu_execute_word)

text \<open>
  C14. The carry of an addition is set exactly when the unsigned sum leaves 32 bits and its overflow
  exactly when the signed sum does; a subtraction sets carry on a borrow and overflow likewise.
\<close>

theorem alu_flags_meaning:
  assumes "u32 p" "u32 q"
  shows "ar_carry (alu_add p q) = (2 ^ 32 \<le> p + q)
    \<and> ar_ovf (alu_add p q) = (to_signed p + to_signed q \<notin> {- (2 ^ 31) ..< 2 ^ 31})
    \<and> ar_carry (alu_sub p q) = (p < q)
    \<and> ar_ovf (alu_sub p q) = (to_signed p - to_signed q \<notin> {- (2 ^ 31) ..< 2 ^ 31})"
  using alu_add_flags [OF assms] alu_sub_flags [OF assms] by auto

theorem alu_flags_meaning_witness: "ar_ovf (alu_add 0x7FFFFFFF 1) \<and> ar_carry (alu_sub 0 1)"
  using alu_flags_meaning [of "0x7FFFFFFF" 1] alu_flags_meaning [of 0 1]
  by (simp add: u32_def to_signed_u32)

text \<open>
  C15. Each encoder is inverted by the decoder for the opcodes of its format: the fields come back
  truncated to their width, immediates and offsets sign-extended from 16 bits.
\<close>

theorem decode_encode:
  "(OPCODE_FMT opc = Fmt_R \<longrightarrow> decode (encode_r opc rd rs1 rs2 sh)
      = D_R opc (rd AND 0x1F) (rs1 AND 0x1F) (rs2 AND 0x1F) (sh AND 0x1F))
   \<and> (OPCODE_FMT opc = Fmt_I \<longrightarrow> decode (encode_i opc rd rs1 imm)
      = D_I opc (rd AND 0x1F) (rs1 AND 0x1F) (sext imm 16))
   \<and> (OPCODE_FMT opc = Fmt_S \<longrightarrow> decode (encode_s opc rs2 rs1 off)
      = D_S opc (rs2 AND 0x1F) (rs1 AND 0x1F) (sext off 16))
   \<and> (OPCODE_FMT opc = Fmt_B \<longrightarrow> decode (encode_b opc rs1 rs2 off)
      = D_B opc (rs1 AND 0x1F) (rs2 AND 0x1F) (sext off 16))
   \<and> (OPCODE_FMT opc = Fmt_J \<longrightarrow> decode (encode_j opc addr) = D_J opc (addr AND 0x3FFFFFF))
   \<and> (OPCODE_FMT opc = Fmt_U \<longrightarrow> decode (encode_u opc rd imm) = D_U opc (rd AND 0x1F) (imm AND 0x1FFFFF))"
  using codec_r.dec_enc [of "(opc, rd, rs1, rs2, sh)"] codec_i.dec_enc [of "(opc, rd, rs1, imm)"]
    codec_s.dec_enc [of "(opc, rs2, rs1, off)"] codec_b.dec_enc [of "(opc, rs1, rs2, off)"]
    codec_j.dec_enc [of "(opc, addr)"] codec_u.dec_enc [of "(opc, rd, imm)"]
  by (simp add: ops_defs)

theorem decode_encode_witness:
  "decode (encode_i Op_ADDI 1 2 (- 3)) = D_I Op_ADDI 1 2 (- 3)"
  using decode_encode [where opc = Op_ADDI and rd = 1 and ?rs1.0 = 2 and imm = "- 3"] sext_id [of 16 "- 3"] by simp

text \<open>
  C16. Decoding loses nothing of a 32-bit word except the six unused bits of the R format: encoding the
  fields again gives the word.
\<close>

theorem encode_decode:
  assumes "u32 w"
  shows "case decode w of
      D_Invalid raw word \<Rightarrow> word = w \<and> raw = shr w 26 AND 0x3F \<and> (\<forall>opc. opcode_val opc \<noteq> raw)
    | D_R opc rd rs1 rs2 sh \<Rightarrow> encode_r opc rd rs1 rs2 sh = w AND NOT (mask 6)
    | D_I opc rd rs1 imm \<Rightarrow> encode_i opc rd rs1 imm = w
    | D_S opc rs2 rs1 off \<Rightarrow> encode_s opc rs2 rs1 off = w
    | D_B opc rs1 rs2 off \<Rightarrow> encode_b opc rs1 rs2 off = w
    | D_J opc addr \<Rightarrow> encode_j opc addr = w
    | D_U opc rd imm \<Rightarrow> encode_u opc rd imm = w"
  using encode_decoded [OF assms] decode_invalid_fields [of w]
  by (auto split: decoded.split)

theorem encode_decode_witness: "encode_j Op_NOP 0 = NOP_WORD"
proof -
  have "decode NOP_WORD = D_J Op_NOP 0"
    using codec_j.dec_enc [of "(Op_NOP, 0)"] by (simp add: ops_defs encode_j_def NOP_WORD_def)
  then show ?thesis
    using encode_decode [of NOP_WORD] by (simp add: NOP_WORD_eq u32_def)
qed

text \<open>
  C17. A sequence of indexed writes to a fresh bank raises IndexError exactly when one of the indices is
  outside 0--31; otherwise it leaves 32 registers holding 32-bit values with R0 still 0.
\<close>

theorem register_bank_writes:
  "case rf_setitems rf_init ws of
     Inl e \<Rightarrow> e = IndexError \<and> (\<exists>w \<in> set ws. \<not> reg_index (fst w))
   | Inr rf \<Rightarrow> (\<forall>w \<in> set ws. reg_index (fst w)) \<and> length (rf_regs rf) = 32
       \<and> list_all u32 (rf_regs rf) \<and> rf_getitem rf 0 = Inr 0"
  using rf_setitems_raises [of rf_init ws] rf_setitems_raises [of rf_init ws IndexError]
    rf_setitems_wf [OF rf_wf_init, of ws]
  by (cases "rf_setitems rf_init ws") (auto simp: rf_wf_def rf_getitem_def rf_check_iff rf_get_def)

theorem register_bank_writes_witness:
  "rf_setitems rf_init [(1, 5), (32, 0)] = Inl IndexError"
  using register_bank_writes [of "[(1, 5), (32, 0)]"] by (auto simp: reg_index_def split: sum.splits)

section \<open>Hazards and forwarding\<close>



text \<open>
  C19. A load in EX stalls the next instruction whenever that is of format R or I and reads the loaded
  register; for a store or a branch the check looks only at bits 20--16 and 15--11, so the first
  operand (a store's data, a branch's left side) is not protected.
\<close>

theorem load_use_coverage:
  assumes "load_in_ex idex"
  shows "case decode (if_instruction ifid) of
      D_R opc rd rs1 rs2 sh \<Rightarrow> id_rd idex \<in> {rs1, rs2} \<longrightarrow> detect_load_use idex ifid
    | D_I opc rd rs1 imm \<Rightarrow> id_rd idex = rs1 \<longrightarrow> detect_load_use idex ifid
    | D_S opc rs2 rs1 off \<Rightarrow> detect_load_use idex ifid =
        (id_rd idex = rs1 \<or> id_rd idex = shr (if_instruction ifid) 11 AND 0x1F)
    | D_B opc rs1 rs2 off \<Rightarrow> detect_load_use idex ifid =
        (id_rd idex = rs2 \<or> id_rd idex = shr (if_instruction ifid) 11 AND 0x1F)
    | _ \<Rightarrow> True"
  using load_use_complete_R [OF assms, of ifid] load_use_complete_I [OF assms, of ifid]
    load_use_S_iff [of ifid] load_use_B_iff [of ifid] assms
  by (auto split: decoded.split)

theorem load_use_coverage_witness:
  "\<not> detect_load_use (idex_init\<lparr>id_valid := True, id_rd := 1, id_ctrl := ControlSignals\<lparr>c_mem_read := True\<rparr>\<rparr>)
       (ifid_init\<lparr>if_instruction := encode_s Op_SW 1 2 0\<rparr>)"
proof -
  let ?i = "idex_init\<lparr>id_valid := True, id_rd := 1, id_ctrl := ControlSignals\<lparr>c_mem_read := True\<rparr>\<rparr>"
  have "load_in_ex ?i"
    by (simp add: load_in_ex_def idex_init_def ControlSignals_def)
  moreover have "decode (encode_s Op_SW 1 2 0) = D_S Op_SW 1 2 0"
    using codec_s.dec_enc [of "(Op_SW, 1, 2, 0)"] by (simp add: ops_defs sext_def)
  moreover have "shr (encode_s Op_SW 1 2 0) 11 AND 0x1F = 0"
    by (simp add: encode_s_def drop_bit_eq_div push_bit_eq_mult)
  ultimately show ?thesis
    using load_use_coverage [of ?i "ifid_init\<lparr>if_instruction := encode_s Op_SW 1 2 0\<rparr>"]
    by (simp add: ifid_init_def idex_init_def)
qed

section \<open>Caches and translation\<close>

text \<open>
  C20. From any state of the TLB, a flush followed by any sequence of translations over an unchanged
  page table returns, for each of them, the physical address or fault that a walk of the table
  prescribes, whatever was cached, evicted or hit in between.
\<close>

theorem tlb_transparent:
  assumes "tlb_shape t"
  shows "fst (mmu.translate_all (tlb_flush t) mem ptbr rs) =
    map (\<lambda>(va, w, x). page_walk mem ptbr va w x) rs"
  by (rule mmu.translate_after_flush [OF assms])

theorem tlb_transparent_witness:
  "fst (mmu.translate_all (tlb_flush tlb_init) [0, 0x1403] 0 [(1025, False, False), (1025, True, False)])
     = [Some 0x1401, None]"
  unfolding tlb_transparent [OF tlb_shape_init(1)]
  by (simp add: page_walk_def tlb_consts drop_bit_eq_div push_bit_eq_mult)

text \<open>
  C21. After any history of accesses to a cold cache, the next access is a hit exactly when the last
  access of the history that fell in the same set was to the same line.
\<close>

theorem cache_hit_history:
  assumes "0 < sets" "0 < wpl"
  shows "fst (cache_access (cache_run as (cache_init sets wpl)) a) \<longleftrightarrow>
    last_line sets wpl ((a div wpl) mod sets) as = Some (a div wpl)"
  by (rule cache_run_hit [OF assms])

theorem cache_hit_history_witness: "fst (cache_access (cache_run [0, 4, 1024] (cache_init 256 4)) 5)"
  using cache_hit_history [where sets = 256 and wpl = 4 and as = "[0, 4, 1024]" and a = 5] by simp

section \<open>Assembler and disassembler\<close>

text \<open>
  C22. The two passes agree on every address: when a source is assembled, a label that no later
  \<^verbatim>\<open>.equ\<close> redefines has in the symbol table the location counter pass 2 has reached at its line,
  whatever .org, .word, .data, .equ and instructions come before it.
\<close>

theorem label_is_its_address:
  assumes "assemble_lines (pre @ raw # post) = Inr (ws, syms)"
    and "tokenize_line raw = (l @ '':'') # toks"
    and "\<forall>r \<in> set (raw # post). equ_name r \<noteq> Some l"
  shows "\<exists>lc out. pass2 syms pre 1 (0, []) = Inr (lc, out) \<and> syms l = Some lc"
  by (rule label_address [OF assms])

theorem label_is_its_address_witness:
  "case assemble_lines [''NOP'', ''loop: HLT''] of
     Inr (ws, syms) \<Rightarrow> syms ''loop'' \<noteq> None
   | Inl _ \<Rightarrow> False"
proof -
  have "case assemble_lines [''NOP'', ''loop: HLT''] of Inr _ \<Rightarrow> True | Inl _ \<Rightarrow> False"
    by code_simp
  then obtain ws syms where a: "assemble_lines ([''NOP''] @ ''loop: HLT'' # []) = Inr (ws, syms)"
    by (auto split: sum.splits)
  have t: "tokenize_line ''loop: HLT'' = (''loop'' @ '':'') # [''HLT'']" "equ_name ''loop: HLT'' = None"
    by code_simp+
  show ?thesis
    using label_is_its_address [OF a t(1)] a t(2) by auto
qed

text \<open>
  C23. Assembling returns 32-bit words only, and a line that is encoded decodes to the opcode of its
  mnemonic, for every mnemonic and alias and any operands.
\<close>

theorem assembled_words_ok:
  "(assemble src = Inr (ws, syms) \<longrightarrow> list_all u32 ws)
   \<and> (encode_instr tab tokens pc line = Inr w \<longrightarrow>
        u32 w \<and> (\<exists>opc. MNEMONIC_TO_OPCODE (py_upper (hd tokens)) = Some opc \<and> d_opcode (decode w) = Some opc))"
  using assemble_u32 [of src ws syms] encode_instr_opcode [of tab tokens pc line w] by auto

theorem assembled_words_ok_witness:
  "\<exists>w. encode_instr Map.empty [''addi'', ''r1'', ''sp'', ''-4''] 0 1 = Inr w \<and> d_opcode (decode w) = Some Op_ADDI"
proof -
  have "case encode_instr Map.empty [''addi'', ''r1'', ''sp'', ''-4''] 0 1 of Inr _ \<Rightarrow> True | Inl _ \<Rightarrow> False"
    "MNEMONIC_TO_OPCODE (py_upper ''addi'') = Some Op_ADDI"
    by code_simp+
  then show ?thesis
    using assembled_words_ok [where tab = Map.empty and tokens = "[''addi'', ''r1'', ''sp'', ''-4'']" and pc = 0 and line = 1]
    by (auto split: sum.splits)
qed

text \<open>
  C24. The offset the assembler stores for a branch, sign-extended by the decoder and added to the
  address of the branch, gives the label exactly when the distance lies in the signed 16-bit
  range; beyond it the assembler still returns an offset, which leads elsewhere.
\<close>

theorem branch_reaches_label:
  assumes "resolve syms t line = Inr target"
  shows "\<exists>off. resolve_branch syms t pc line = Inr off
    \<and> (pc + sext off 16 = target \<longleftrightarrow> - 32768 \<le> target - pc \<and> target - pc < 32768)"
  using branch_offset [OF assms, of pc] by blast

theorem branch_reaches_label_witness:
  "\<exists>off. resolve_branch [''far'' \<mapsto> 40000] ''far'' 0 1 = Inr off \<and> 0 + sext off 16 \<noteq> 40000"
proof -
  have "resolve [''far'' \<mapsto> 40000] ''far'' 1 = Inr 40000" by code_simp
  from branch_reaches_label [OF this, of 0] show ?thesis by auto
qed

text \<open>
  C25. The line \<^verbatim>\<open>disassemble\<close> prints for a word is tokenised and encoded to that word again, at any
  address and under any symbol table, provided the fields its format does not use are zero and the
  instruction is not a branch, MOVI, MFC or MTC, which are printed in a form the assembler does
  not read back.
\<close>

theorem assemble_disassembly:
  assumes "u32 w" "reprintable (decode w)"
    and "\<forall>opc rd rs1 rs2 sh. decode w = D_R opc rd rs1 rs2 sh \<longrightarrow> w AND mask 6 = 0"
  shows "encode_instr syms (tokenize_line (disassemble w)) pc line = Inr w"
  by (rule disassemble_assemble [OF assms])

theorem assemble_disassembly_witness:
  "encode_instr Map.empty (tokenize_line (disassemble (encode_s Op_SW 5 30 (- 8)))) 0 1
     = Inr (encode_s Op_SW 5 30 (- 8))"
proof -
  have d: "decode (encode_s Op_SW 5 30 (- 8)) = D_S Op_SW 5 30 (- 8)"
    using codec_s.dec_enc [of "(Op_SW, 5, 30, - 8)"] sext_id [of 16 "- 8"] by (simp add: ops_defs)
  have "u32 (encode_s Op_SW 5 30 (- 8))"
    by (simp add: encode_s_eq_i u32_encode)
  from assemble_disassembly [OF this, of Map.empty 0 1] show ?thesis
    by (simp add: d)
qed

section \<open>Hex files, linker and loader\<close>

text \<open>
  C26. Both Intel HEX writers, one with a record per word and one with four words per record, are
  inverted by both readers for programs of up to 0x4000 words (64 KiB): \<^verbatim>\<open>main._load_hex\<close> returns
  the words and the loader's memory, laid out from address 0, holds them.
\<close>

theorem hex_file_roundtrip:
  assumes "length ws \<le> 0x4000" "list_all u32 ws"
  shows "(\<exists>t. write_hex ws 0 = Inr t \<and> main_load_hex t = Inr ws
      \<and> (\<exists>m. load_hex t = Inr m \<and> dense_words m = ws))
    \<and> (\<exists>t. write_intel_hex ws = Inr t \<and> main_load_hex t = Inr ws
      \<and> (\<exists>m. load_hex t = Inr m \<and> dense_words m = ws))"
  using write_hex_readers [OF assms] write_intel_hex_readers [OF assms] dense_store_words [of ws] by metis

theorem hex_file_roundtrip_witness:
  "\<exists>t. write_hex [0xC4000000, 7] 0 = Inr t \<and> main_load_hex t = Inr [0xC4000000, 7]"
  using hex_file_roundtrip [of "[0xC4000000, 7]"] by (auto simp: u32_def)

text \<open>
  C27. The loader reads a linked file as the words of the image, in address order, each at its address
  modulo 0x4000: an image that stays below 0x4000 is read back exactly, a larger one is folded
  onto itself because the linker writes no extended address record.
\<close>

theorem linked_file_load:
  "load_hex (link_text mem) = Inr (fold (\<lambda>a. AList.update (a mod 0x4000)
       (the (map_of mem a) AND 0xFFFFFFFF)) (sort (map fst mem)) [])
   \<and> ((\<forall>a \<in> fst ` set mem. 0 \<le> a \<and> a < 0x4000) \<longrightarrow> distinct (map fst mem) \<longrightarrow>
       (\<exists>m. load_hex (link_text mem) = Inr m
          \<and> (\<forall>a. map_of m a = map_option (\<lambda>w. w AND 0xFFFFFFFF) (map_of mem a))))"
  using load_hex_link [of mem] linked_image [of mem] by blast

theorem linked_file_load_witness:
  "load_hex (link_text [(0, 5), (0x4000, 6)]) = Inr [(0, 6)]"
  using linked_file_load [of "[(0, 5), (0x4000, 6)]"] by simp

text \<open>
  C28. When modules are merged, the text segment is the concatenation of their words, and a symbol that
  a module defines inside its text resolves to the base address plus the words of the modules
  before it plus its own offset, whatever the later modules define.
\<close>

theorem link_layout:
  assumes "add_objects (linker_init tb db) objs = Inr lk" "list_all2 dense_obj objs wss"
  shows "lk_text lk = number_words 0 (concat wss)
    \<and> (\<forall>k < length objs. \<forall>(s, x) \<in> set (ob_symbols (objs ! k)). x < int (length (wss ! k)) \<longrightarrow>
         lk_symbols lk s = Some (tb + int (length (concat (take k wss))) + x))"
  using add_objects_layout [OF assms, of "[]"] by (simp add: linker_init_def number_words_def)

theorem link_layout_witness:
  "\<exists>lk. add_objects (linker_init 0 0x2000)
      [\<lparr>ob_words = Some [1, 2], ob_text = None, ob_data = [], ob_bss_size = 0, ob_symbols = [(''a'', 1)], ob_relocs = []\<rparr>,
       \<lparr>ob_words = Some [3], ob_text = None, ob_data = [], ob_bss_size = 0, ob_symbols = [(''b'', 0)], ob_relocs = []\<rparr>]
      = Inr lk \<and> lk_symbols lk ''b'' = Some 2"
proof -
  let ?objs = "[\<lparr>ob_words = Some [1, 2], ob_text = None, ob_data = [], ob_bss_size = 0, ob_symbols = [(''a'', 1)], ob_relocs = []\<rparr>,
       \<lparr>ob_words = Some [3], ob_text = None, ob_data = [], ob_bss_size = 0, ob_symbols = [(''b'', 0)], ob_relocs = []\<rparr>]"
  obtain lk where l: "add_objects (linker_init 0 0x2000) ?objs = Inr lk"
    by (simp add: add_object_def linker_init_def normalise_obj_def obj_text_def Let_def)
  have d: "list_all2 dense_obj ?objs [[1, 2], [3]]"
    by (simp add: dense_obj_def normalise_obj_def obj_text_def number_words_def)
  show ?thesis
    using link_layout [OF l d] l by (auto dest!: spec [of _ 1])
qed

text \<open>
  C29. Relocating a branch leaves its opcode and registers and makes its decoded offset the distance
  from the branch to the symbol; relocating a jump or call makes its decoded address the symbol.
  A distance outside 16 signed bits or an address above 26 bits is an error.
\<close>

theorem relocation_correct:
  assumes "u32 w" "0 \<le> v"
  shows "(decode w = D_B opc rs1 rs2 off \<longrightarrow>
      (if v - a \<in> {- 32768 .. 32767} then \<exists>w'. reloc_word ''pc16'' s v a w = Inr w' \<and> decode w' = D_B opc rs1 rs2 (v - a)
       else reloc_word ''pc16'' s v a w = Inl (Out_Of_Range s)))
    \<and> (decode w = D_J jop addr \<longrightarrow>
      (if v \<le> 0x3FFFFFF then \<exists>w'. reloc_word ''abs26'' s v a w = Inr w' \<and> decode w' = D_J jop v
       else reloc_word ''abs26'' s v a w = Inl (Out_Of_Range s)))"
proof (intro conjI impI)
  show "if v - a \<in> {- 32768 .. 32767} then \<exists>w'. reloc_word ''pc16'' s v a w = Inr w' \<and> decode w' = D_B opc rs1 rs2 (v - a)
      else reloc_word ''pc16'' s v a w = Inl (Out_Of_Range s)" if d: "decode w = D_B opc rs1 rs2 off"
    using reloc_branch [OF assms(1) d, of s v a] reloc_range(1) [of v a s w] reloc_total(1) [of v a s w] by auto
  show "if v \<le> 0x3FFFFFF then \<exists>w'. reloc_word ''abs26'' s v a w = Inr w' \<and> decode w' = D_J jop v
      else reloc_word ''abs26'' s v a w = Inl (Out_Of_Range s)" if d: "decode w = D_J jop addr"
    using reloc_jump [OF assms(1) d _ assms(2), of s a] reloc_range(2) [of v s a w] reloc_total(2) [of v s a w] by auto
qed

theorem relocation_correct_witness:
  "\<exists>w'. reloc_word ''abs26'' ''f'' 77 0 (encode_j Op_CALL 0) = Inr w' \<and> decode w' = D_J Op_CALL 77"
proof -
  have "decode (encode_j Op_CALL 0) = D_J Op_CALL 0"
    using codec_j.dec_enc [of "(Op_CALL, 0)"] by (simp add: ops_defs)
  then show ?thesis
    using relocation_correct [OF u32_encode_j, where v = 77 and opc = Op_CALL and addr = 0 and a = 0 and s = "''f''"
      and jop = Op_CALL] by simp
qed

section \<open>The C compiler\<close>

text \<open>
  C30. The parser ends on every source, the fuel that stands for its recursion being always enough.  It
  returns a program, which has used at least one token for each of its declarations and functions, or
  raises CompileError, or lets one of two errors of Python escape: the AttributeError of taking the
  line of the token behind the last one (as for \<^verbatim>\<open>int main(){ for(\<close>), and the ValueError of int()
  on a literal.
\<close>

theorem parser_ends:
  "case parse_text source of
     Inr prog \<Rightarrow> length (pr_globals prog) + length (pr_functions prog) \<le> length (lex_c source)
   | Inl e \<Rightarrow> e = No_Line_Of_None \<or> e = Bad_Literal \<or> (\<exists>problem line. e = CompileError problem line)"
proof (cases "parse_text source")
  case (Inl e)
  with parse_program_total [of "lex_c source"] show ?thesis by (cases e) (simp_all add: parse_text_def)
next
  case (Inr prog)
  then show ?thesis using parse_program_size [of "lex_c source" prog] by (simp add: parse_text_def)
qed

text \<open>
  C31. The text of an expression with only the parentheses that precedence and left associativity
  require is scanned and parsed back to the same tree, lines included, for all the operators,
  calls, indexing, dereferences, addresses and literals of the language.
\<close>

theorem expression_roundtrip:
  assumes "wf_expr e" "expr_printable 1 e"
  shows "parse_expr (lex_c (print_toks (expr_toks e))) = Inr (e, [])"
  by (rule parse_printed [OF assms])

theorem expression_roundtrip_witness:
  "parse_expr (lex_c ''a - ( b - c ) * p [ 1 ] '') =
     Inr (BinOp ''-'' (VarRef ''a'' 1) (BinOp ''*'' (BinOp ''-'' (VarRef ''b'' 1) (VarRef ''c'' 1) 1)
       (ArrayRef ''p'' (IntLiteral 1 1) 1) 1) 1, [])"
proof -
  let ?e = "BinOp ''-'' (VarRef ''a'' 1) (BinOp ''*'' (BinOp ''-'' (VarRef ''b'' 1) (VarRef ''c'' 1) 1)
       (ArrayRef ''p'' (IntLiteral 1 1) 1) 1) 1"
  have "wf_expr ?e" "expr_printable 1 ?e" "print_toks (expr_toks ?e) = ''a - ( b - c ) * p [ 1 ] ''"
    by code_simp+
  then show ?thesis using expression_roundtrip [of ?e] by simp
qed

text \<open>
  C32. Let a header open with \<^verbatim>\<open>#ifndef G\<close>, close with \<^verbatim>\<open>#endif\<close>, and hold no line in between that
  starts with \<^verbatim>\<open>#ifndef\<close>, \<^verbatim>\<open>#ifdef\<close> or \<^verbatim>\<open>#endif\<close> (\<open>plain_line\<close>); let G be defined and the values of all
  defines be templates re.sub accepts.  Then including it adds nothing: no line, no define and no
  guard.  With a conditional directive inside it is false, see \<open>nested_guard\<close> in \<open>C_Preprocess\<close>.
\<close>

theorem include_guard:
  assumes "py_splitlines text = first # body @ [fin]"
    and "starts_with (py_strip first) ''#ifndef''" "py_split (py_strip first) = d # g # rest" "g \<in> set guards"
    and "starts_with (py_strip fin) ''#endif''" "list_all plain_line body"
    and "list_all (\<lambda>(nm, v). expand_template nm v \<noteq> None) defs"
  shows "preprocess_with (Suc depth) files text (defs, guards) = Inr ([], defs, guards)"
  by (rule guarded_include [OF assms])

theorem include_guard_witness:
  "preprocess_with 1 None (py_join [newline] [''#ifndef H'', ''int x;'', ''#endif'']) ([(''H'', ''1'')], [''H'']) =
     Inr ([], [(''H'', ''1'')], [''H''])"
proof -
  have "py_splitlines (py_join [newline] [''#ifndef H'', ''int x;'', ''#endif'']) = ''#ifndef H'' # [''int x;''] @ [''#endif'']"
    "py_split (py_strip ''#ifndef H'') = ''#ifndef'' # ''H'' # []" "starts_with (py_strip ''#ifndef H'') ''#ifndef''"
    "starts_with (py_strip ''#endif'') ''#endif''" "list_all plain_line [''int x;'']"
    "list_all (\<lambda>(nm, v). expand_template nm v \<noteq> None) [(''H'', ''1'')]"
    by code_simp+
  from include_guard [OF this(1) this(3) this(2) _ this(4-6), of "[''H'']" 0 None] show ?thesis
    by simp
qed

text \<open>
  C33. A literal is one or two lines: MOVI in the 16-bit range, MOVHI and ORI outside it.  Wherever these
  instructions are, they leave the 32-bit value of the literal in the register and change no other
  one, provided the literal is in the 16-bit range or its bit 15 is clear; ORI copies a set bit 15
  to the upper half.
\<close>

theorem literal_code:
  assumes "no_break note" "code_at P i (g_imm r v)" "regs_wf rs" "gen_reg r" "r \<noteq> 0"
  shows "emits s (g_imm r v) (emit_load_imm r v note s)
    \<and> (\<exists>rs'. goes P (i, rs) (i + length (g_imm r v), rs')
      \<and> rw rs' r = (if - 32768 \<le> v \<and> v \<le> 32767 \<or> \<not> bit v 15 then word_of_int v else word_of_int v OR 0xFFFF0000)
      \<and> keeps (- {r}) rs rs')"
proof -
  have "does P i (g_imm r v) (- {r}) rs (\<lambda>rs'. rw rs' r = loaded_literal v)" by (rule imm_runs [OF assms(2-5)])
  then show ?thesis
    using emits_imm [OF emits_refl assms(1), of s r v] unfolding does_def loaded_literal_def lit_ok_bit by auto
qed

theorem literal_code_witness:
  "emits cg_init [I_Movhi 2 19, I_Ori 2 40000] (emit_load_imm 2 40000 [] cg_init)
   \<and> (\<exists>rs'. goes [I_Movhi 2 19, I_Ori 2 40000] (0, replicate 32 0) (2, rs') \<and> rw rs' 2 = 0xFFFF9C40)"
proof -
  have b: "\<not> (- 32768 \<le> (40000 :: int) \<and> (40000 :: int) \<le> 32767 \<or> \<not> bit (40000 :: int) 15)" by code_simp
  have w: "word_of_int 40000 OR 0xFFFF0000 = (0xFFFF9C40 :: 32 word)" by simp
  note l = long_literal_code
  have r: "no_break []" "gen_reg 2" "(2 :: int) \<noteq> 0" by (simp_all add: gen_reg_def)
  from literal_code [OF r(1) l(2,4) r(2,3), where s = cg_init] show ?thesis
    unfolding if_not_P [OF b] w l(1) by (auto simp: numeral_2_eq_2)
qed

section \<open>The earlier assembly language\<close>

text \<open>
  C34. A program is a list of lines, each of some labels and then at most one instruction or directive
  (program_ok: names in upper case, registers 0 to 15, no negative number, operands and register flags
  of the mnemonic's form).  Printed line by line, it is read back by parse: the same nodes in the same
  order, each with the number of its line.
\<close>

theorem legacy_round_trip:
  assumes "program_ok 1 nss"
  shows "asm_parse (program_text nss) = Inr (concat nss)"
  by (rule printed_program [OF assms])

theorem legacy_round_trip_witness:
  "asm_parse (program_text
      [[LabelNode ''LOOP'' 1, InstrNode ''LOAD'' [Op_Num 3, Op_Num 15, Op_Num 31] 1 [True, True, False]], [],
       [InstrNode ''JNZ'' [Op_Label ''LOOP''] 3 [False]], [DirectiveNode ''.WORD'' [1, 2] 4]])
   = Inr [LabelNode ''LOOP'' 1, InstrNode ''LOAD'' [Op_Num 3, Op_Num 15, Op_Num 31] 1 [True, True, False],
       InstrNode ''JNZ'' [Op_Label ''LOOP''] 3 [False], DirectiveNode ''.WORD'' [1, 2] 4]"
proof -
  let ?nss = "[[LabelNode ''LOOP'' 1, InstrNode ''LOAD'' [Op_Num 3, Op_Num 15, Op_Num 31] 1 [True, True, False]], [],
       [InstrNode ''JNZ'' [Op_Label ''LOOP''] 3 [False]], [DirectiveNode ''.WORD'' [1, 2] 4]]"
  have ok: "program_ok 1 ?nss" by code_simp
  show ?thesis using legacy_round_trip [OF ok] by simp
qed

text \<open>
  C35. Every result of parse is one of the two: an error on an existing line; or nodes, in the order of
  their lines, where each instruction has the operands of its mnemonic, the flag of an operand is set
  exactly where it is a register number between 0 and 15, and no number is negative.
\<close>

theorem legacy_nodes:
  "case asm_parse source of
     Inl (ParseError msg line) \<Rightarrow> 1 \<le> line \<and> line \<le> length (py_splitlines source)
   | Inr nodes \<Rightarrow>
       list_all (\<lambda>n. node_shape n \<and> 1 \<le> node_line n \<and> node_line n \<le> length (py_splitlines source)) nodes
       \<and> sorted (map node_line nodes)"
  using parse_result_ok [of source] 
  by (auto simp: result_ok_def list_all_iff less_Suc_eq_le split: sum.splits parse_error.splits)

section \<open>The debuggers\<close>

text \<open>
  C36. The run command of the debugger never clocks a state that is halted or whose next fetch is at a
  breakpoint: it ends in the first such state, with the message that names the reason, or after its
  limit of cycles, 200000 if none or 0 is given.  Without breakpoints it is the run loop of the
  simulator.
\<close>

theorem debugger_run_stops:
  assumes "sim_wf (db_sim d)"
  shows "\<exists>out d' k. dbg_run n d = Inr (out, d') \<and> k \<le> nat (run_limit n)
    \<and> d' = d\<lparr>db_sim := ((\<lambda>s. snd (sim_step s)) ^^ k) (db_sim d)\<rparr>
    \<and> (\<forall>i<k. \<not> sm_halted (((\<lambda>s. snd (sim_step s)) ^^ i) (db_sim d))
        \<and> sm_pc (((\<lambda>s. snd (sim_step s)) ^^ i) (db_sim d)) \<notin> db_breakpoints d)
    \<and> (k < nat (run_limit n) \<longrightarrow> sm_halted (db_sim d') \<and> O_Halted \<in> set out
        \<or> sm_pc (db_sim d') \<in> db_breakpoints d \<and> O_Break_At (sm_pc (db_sim d')) \<in> set out)
    \<and> (db_breakpoints d = {} \<longrightarrow> db_sim d' = sim_loop (cycles (db_sim d) + int (nat (run_limit n))) (db_sim d))"
  by (rule run_command_stops [OF assms])

theorem debugger_run_stops_witness:
  "\<exists>out d'. dbg_run None (dbg_init (sim_init 16) []\<lparr>db_breakpoints := {0}\<rparr>) = Inr (out, d')
     \<and> db_sim d' = sim_init 16 \<and> O_Break_At 0 \<in> set out"
proof -
  let ?d = "dbg_init (sim_init 16) []\<lparr>db_breakpoints := {0}\<rparr>"
  have d: "db_sim ?d = sim_init 16" "db_breakpoints ?d = {0}" by (simp_all add: dbg_init_def)
  have p: "sm_pc (sim_init 16) = 0" "\<not> sm_halted (sim_init 16)" by (simp_all add: sim_init_def)
  have "sim_wf (db_sim ?d)" unfolding d by (rule sim_wf_init) simp
  from debugger_run_stops [OF this, of None] obtain out d' k where r: "dbg_run None ?d = Inr (out, d')"
    "d' = ?d\<lparr>db_sim := ((\<lambda>s. snd (sim_step s)) ^^ k) (db_sim ?d)\<rparr>"
    "\<forall>i<k. sm_pc (((\<lambda>s. snd (sim_step s)) ^^ i) (db_sim ?d)) \<notin> db_breakpoints ?d"
    "k < nat (run_limit None) \<Longrightarrow> sm_halted (db_sim d') \<and> O_Halted \<in> set out
        \<or> sm_pc (db_sim d') \<in> db_breakpoints ?d \<and> O_Break_At (sm_pc (db_sim d')) \<in> set out" by blast
  have "k = 0" using r(3) [rule_format, of 0] p(1) by (cases k) (simp_all add: d)
  with r p show ?thesis by (auto simp: d run_limit_def)
qed

text \<open>
  C37. Whatever lines are typed, a session that ends normally has only clocked the simulator: it is the
  initial one after some number of steps, so that every invariant of reachable states holds, and the
  symbols are untouched; if no line is a step or run command, the simulator is the initial one.
\<close>

theorem debugger_session:
  assumes "run_interactive lines d = Inr (out, d')"
  shows "db_symbols d' = db_symbols d
    \<and> (\<exists>k. db_sim d' = ((\<lambda>s. snd (sim_step s)) ^^ k) (db_sim d))
    \<and> (sim_reachable (db_sim d) \<longrightarrow> sim_reachable (db_sim d'))
    \<and> ((\<forall>l \<in> set lines. \<forall>c \<in> clocking_cmds. line_cmd l \<noteq> Some c) \<longrightarrow> db_sim d' = db_sim d)"
proof -
  note c = run_interactive_clocks [OF assms]
  then obtain k where "db_sim d' = ticks k (db_sim d)" by (auto simp: only_clocks_def)
  with c sim_reachable_ticks [of "db_sim d" k] show ?thesis by (auto simp: only_clocks_def)
qed

theorem debugger_session_witness:
  "\<exists>out d'. run_interactive [''q''] (dbg_init (sim_init 16) []) = Inr (out, d') \<and> db_sim d' = sim_init 16"
proof -
  have q: "py_split (py_strip ''q'') = [''q'']" "py_lower ''q'' = ''q''" by code_simp+
  have d: "db_sim (dbg_init (sim_init 16) []) = sim_init 16" by (simp add: dbg_init_def)
  have "sim_wf (db_sim (dbg_init (sim_init 16) []))" unfolding d by (rule sim_wf_init) simp
  then obtain st where "show_state (dbg_init (sim_init 16) []) = Inr st" using show_state_total by blast
  then have r: "run_interactive [''q''] (dbg_init (sim_init 16) []) = Inr (st @ [O_Bye], dbg_init (sim_init 16) [])"
    by (simp add: run_interactive_def q dispatch_def)
  have "\<forall>l \<in> set [''q'']. \<forall>c \<in> clocking_cmds. line_cmd l \<noteq> Some c"
    by (simp add: line_cmd_def q clocking_cmds_def)
  with debugger_session [OF r] r d show ?thesis by auto
qed

text \<open>
  C38. The debugger of the tool chain calls methods the simulator class does not have.  Whatever commands
  are given, interactively or in batch mode, with whatever files present: the shell ends, nothing is
  ever loaded, the simulator is the one it was constructed with, and the step command raises
  AttributeError.
\<close>

theorem tool_debugger_idle:
  "(\<exists>r d. td_repl is_file lines tool_dbg_init = Some (r, d) \<and> \<not> td_loaded d \<and> td_sim d = sim_init MEM_SIZE)
   \<and> (\<exists>r d. td_batch lines tool_dbg_init = Some (r, d) \<and> \<not> td_loaded d \<and> td_sim d = sim_init MEM_SIZE)
   \<and> td_repl is_file ((''s'' # args) # lines) tool_dbg_init = Some (Inl AttributeError, tool_dbg_init)
   \<and> td_repl is_file ((''step'' # args) # lines) tool_dbg_init = Some (Inl AttributeError, tool_dbg_init)"
proof -
  have "py_lower ''s'' = ''s''" "py_lower ''step'' = ''step''" by code_simp+
  then show ?thesis
    using idle_repl [OF idle_init, of is_file lines] idle_batch [OF idle_init, of lines]
      idle_step_command [OF idle_init, of _ is_file args]
    by (auto simp: idle_def)
qed

section \<open>Exports of the loader\<close>

text \<open>
  C39. The .mem file the loader writes, read by the plain HEX reader of the command line, gives the memory
  list of the loader back, whatever base and size are asked for; a cell of that list is the word
  loaded at its address, or 0.
\<close>

theorem mem_file_roundtrip:
  assumes "list_all (\<lambda>(a, w). u32 w) (ld_mem ld)" "distinct (map fst (ld_mem ld))" "0 < size_or (ld_depth ld) sz"
  shows "\<exists>ws. main_load_hex (write_mem ld base sz) = Inr ws \<and> ws = mem_list ld base sz
    \<and> int (length ws) = size_or (ld_depth ld) sz
    \<and> (\<forall>i<length ws. ws ! i = (case map_of (ld_mem ld) (base + int i) of Some w \<Rightarrow> w | None \<Rightarrow> 0))"
  using mem_file_readback [OF assms(1,3), of base] assms(2,3) by (simp add: mem_list_def to_mem_list_nth)

theorem mem_file_roundtrip_witness:
  "main_load_hex (write_mem \<lparr>ld_depth = 4, ld_mem = [(1, 7), (5, 0xFF)]\<rparr> 1 (Some 5)) = Inr [7, 0, 0, 0, 0xFF]"
proof -
  obtain ws where w: "main_load_hex (write_mem \<lparr>ld_depth = 4, ld_mem = [(1, 7), (5, 0xFF)]\<rparr> 1 (Some 5)) = Inr ws"
    "ws = mem_list \<lparr>ld_depth = 4, ld_mem = [(1, 7), (5, 0xFF)]\<rparr> 1 (Some 5)"
    using mem_file_roundtrip [of "\<lparr>ld_depth = 4, ld_mem = [(1, 7), (5, 0xFF)]\<rparr>" "Some 5" 1]
    by (auto simp: u32_def size_or_def)
  have "mem_list \<lparr>ld_depth = 4, ld_mem = [(1, 7), (5, 0xFF)]\<rparr> 1 (Some 5) = [7, 0, 0, 0, 0xFF]"
    by code_simp
  with w show ?thesis by simp
qed

section \<open>The two simulators compared\<close>

text \<open>
  C40. The command compare on a HEX file, with the tools of the Verilog side as a parameter.  Let its words
  pass the static check (code_ok), and let the architecture of the manual, started on them in the
  memory of a new simulator, stay inside them, store outside them and meet only instructions on which
  manual and simulator agree (spec_safe), until it stands at HLT after n instructions, 67 n + 198
  being at most the 500000 cycles compare simulates; and let the Verilog simulation succeed.  Then the
  verdict is a match exactly when the sixteen registers read from its output are R0 to R15 of the
  architecture after the program.  The registers R16 to R31 have no influence.
\<close>

theorem compare_verdict:
  assumes "source_text fs hex_file = Inr text" "main_load_hex text = Inr words" "list_all u32 words"
    and "length words + 2 \<le> 2 ^ 26" "code_ok (words @ [0, 0])"
    and "\<forall>i\<le>n. spec_safe (length words + 2) (spec_run words i)" "\<forall>i<n. \<not> isa_halted (spec_run words i)"
    and "isa_halted (spec_run words n)" "67 * int n + 198 \<le> 500000"
    and "rtl_simulate t root tmpdir hex_file = Inr (Some regs)"
  shows "\<exists>c. cmd_compare t root tmpdir hex_file fs = Inr c
    \<and> (cp_verdict c = All_Match \<longleftrightarrow> (\<forall>i<16. ar_regs (spec_run words n) ! i = regs ! i))"
  by (rule compare_spec [OF assms])

theorem compare_verdict_witness:
  "\<exists>c. cmd_compare (printing_tools ''  R2 = 0x0000000F'') ''lab'' ''/tmp'' ''demo.hex''
       \<lparr>fs_files = [''demo.hex'' \<mapsto> Text_File DEMO_HEX], fs_objs = Map.empty\<rparr> = Inr c
     \<and> cp_verdict c = All_Match"
proof -
  let ?fs = "\<lparr>fs_files = [''demo.hex'' \<mapsto> Text_File DEMO_HEX], fs_objs = Map.empty\<rparr>"
  have s: "source_text ?fs ''demo.hex'' = Inr DEMO_HEX"
    by (simp add: source_text_def read_text_def lift_failure_def demo_hex(2))
  have l: "length (demo_words @ [0, 0]) = 2 ^ 3" "(3 :: nat) \<le> 26" by simp_all
  note p = local_program [OF demo_local l]
  have b: "67 * int 17 + 198 \<le> 500000" by simp
  have "take 16 (ar_regs (spec_run demo_words 17)) = [0, 0, 15] @ replicate 13 0"
    using demo_low_regs by (simp only: p(4) isa_iter_funpow)
  then have "\<forall>i<16. ar_regs (spec_run demo_words 17) ! i = ([0, 0, 15] @ replicate 13 0) ! i"
    by (metis nth_take)
  with compare_verdict [OF s demo_hex(1) demo_u32 p(5) demo_code_ok p(1-3) b printing_simulate, of "''  R2 = 0x0000000F''" "''lab''" "''/tmp''"]
  show ?thesis unfolding demo_rtl by blast
qed

end
